(* ===== verification/Prelude.thy ===== *)
theory Prelude
  imports Main "HOL-Library.Word" "HOL-Library.Char_ord" "HOL-Library.List_Lexorder"
begin

text \<open>
  Shared vocabulary of the development: the machine integers and byte buffers of the C++ code,
  the collections that carry the component proofs, decimal printing (the code's
  \<open>std::to_string\<close>), word arithmetic without wrap-around, little-endian byte images of
  integers, and the generic argument that a property kept by every operation of a component is
  kept by every run of it.
\<close>

type_synonym u8 = "8 word"
type_synonym u16 = "16 word"
type_synonym u32 = "32 word"
type_synonym u64 = "64 word"
type_synonym bytes = "u8 list"

named_theorems inv_simps \<open>facts that unfold a component's well-formedness predicate\<close>
named_theorems op_defs \<open>defining equations of the operations of a component\<close>

section \<open>Words\<close>

lemma unat_bound: "unat (w :: 'a::len word) < 2 ^ LENGTH('a)"
  by (rule unsigned_less)

abbreviation u64_max :: u64 where
  "u64_max \<equiv> - 1"

lemma unat_max_minus: "unat (- 1 - (b :: 'a::len word)) = 2 ^ LENGTH('a) - 1 - unat b"
proof -
  have "unat (- 1 - b) = unat (- 1 :: 'a word) - unat b"
    by (rule unat_sub) (simp add: word_order.extremum)
  then show ?thesis by (simp add: unsigned_minus_1_eq_mask mask_eq_exp_minus_1)
qed

text \<open>The overflow test of the code, \<open>a > max - b\<close>, is exact.\<close>

lemma unat_plus_no_overflow:
  fixes a b :: "'a::len word"
  assumes "\<not> - 1 - b < a"
  shows "unat (a + b) = unat a + unat b"
proof -
  have "unat a \<le> 2 ^ LENGTH('a) - 1 - unat b"
    using assms by (simp add: word_less_nat_alt unat_max_minus not_less)
  moreover have "unat b < 2 ^ LENGTH('a)" by (rule unsigned_less)
  ultimately have "unat a + unat b < 2 ^ LENGTH('a)" by linarith
  then show ?thesis by (simp add: unat_word_ariths)
qed

lemma overflow_test_iff:
  fixes a b :: "'a::len word"
  shows "- 1 - b < a \<longleftrightarrow> 2 ^ LENGTH('a) \<le> unat a + unat b"
proof -
  have "unat b < 2 ^ LENGTH('a)" by (rule unsigned_less)
  then show ?thesis unfolding word_less_nat_alt unat_max_minus by linarith
qed

lemma unat_minus_no_underflow:
  fixes a b :: "'a::len word"
  shows "\<not> a < b \<Longrightarrow> unat (a - b) = unat a - unat b"
  by (rule unat_sub) simp

lemma unat_gt_0: "(w :: 'a::len word) \<noteq> 0 \<Longrightarrow> 0 < unat w"
  by (simp add: unat_gt_0)

lemma unat_of_small: "n < 2 ^ LENGTH('a) \<Longrightarrow> unat (of_nat n :: 'a::len word) = n"
  by (simp add: unsigned_of_nat take_bit_nat_eq_self)

section \<open>Decimal strings\<close>

text \<open>\<open>std::to_string\<close> of an unsigned value.\<close>

definition digit_char :: "nat \<Rightarrow> char" where
  "digit_char d = char_of (48 + d)"

fun to_dec :: "nat \<Rightarrow> string" where
  "to_dec n = (if n < 10 then [digit_char n] else to_dec (n div 10) @ [digit_char (n mod 10)])"

declare to_dec.simps [simp del]

lemma to_dec_nonempty [simp]: "to_dec n \<noteq> []"
  by (subst to_dec.simps) simp

section \<open>Sums over lists\<close>

lemma sum_list_le_member:
  fixes f :: "'a \<Rightarrow> nat"
  shows "x \<in> set xs \<Longrightarrow> f x \<le> sum_list (map f xs)"
  by (induction xs) auto

section \<open>Runs of a component\<close>

text \<open>
  A component is a state and a step function over its operations. What one step keeps, a run
  over any list of operations keeps.
\<close>

locale component =
  fixes step :: "'s \<Rightarrow> 'op \<Rightarrow> 's"
    and inv :: "'s \<Rightarrow> bool"
  assumes step_inv: "inv s \<Longrightarrow> inv (step s x)"
begin

lemma run_inv: "inv s \<Longrightarrow> inv (foldl step s xs)"
  by (induction xs arbitrary: s) (auto intro: step_inv)

lemma run_measure:
  fixes f :: "'s \<Rightarrow> 'b"
  assumes keeps: "\<And>t x. inv t \<Longrightarrow> P x \<Longrightarrow> f (step t x) = f t"
  shows "inv s \<Longrightarrow> list_all P xs \<Longrightarrow> f (foldl step s xs) = f s"
proof (induction xs arbitrary: s)
  case Nil
  then show ?case by simp
next
  case (Cons x xs)
  then have "f (foldl step (step s x) xs) = f (step s x)"
    by (simp add: step_inv)
  with Cons.prems show ?case by (simp add: keeps)
qed

end

end
