(* ===== verification/OMap.thy ===== *)
theory OMap
  imports Prelude
begin

text \<open>
  \<open>std::map\<close>: key-value entries in strictly ascending key order. The type is the canonical
  list of entries, so that two maps with the same lookups are equal and iteration visits the
  keys in order, as the C++ container does. \<open>std::unordered_map\<close> is modelled by the same
  type; no property of the development depends on its iteration order.
\<close>

section \<open>The container\<close>

typedef (overloaded) ('k::linorder, 'v) omap =
    "{xs :: ('k \<times> 'v) list. sorted_wrt (<) (map fst xs)}"
  morphisms om_entries Om
  by (rule exI [of _ "[]"]) simp

setup_lifting type_definition_omap

fun ins_entry :: "'k::linorder \<Rightarrow> 'v \<Rightarrow> ('k \<times> 'v) list \<Rightarrow> ('k \<times> 'v) list" where
  "ins_entry k v [] = [(k, v)]"
| "ins_entry k v ((j, w) # xs) =
     (if k < j then (k, v) # (j, w) # xs
      else if k = j then (k, v) # xs
      else (j, w) # ins_entry k v xs)"

lemma set_keys_ins_entry: "fst ` set (ins_entry k v xs) = insert k (fst ` set xs)"
  by (induction k v xs rule: ins_entry.induct) auto

lemma sorted_ins_entry:
  "sorted_wrt (<) (map fst xs) \<Longrightarrow> sorted_wrt (<) (map fst (ins_entry k v xs))"
  by (induction k v xs rule: ins_entry.induct) (auto simp: set_keys_ins_entry)

lemma map_of_ins_entry: "map_of (ins_entry k v xs) = (map_of xs)(k \<mapsto> v)"
  by (induction k v xs rule: ins_entry.induct) (auto simp: fun_eq_iff)

lemma map_of_filter_key: "map_of (filter (\<lambda>p. fst p \<noteq> k) xs) = (map_of xs)(k := None)"
  by (induction xs) (auto simp: fun_eq_iff)

lift_definition om_empty :: "('k::linorder, 'v) omap" is "[]" by simp

lift_definition om_get :: "('k::linorder, 'v) omap \<Rightarrow> 'k \<Rightarrow> 'v option" is map_of .

lift_definition om_put :: "'k::linorder \<Rightarrow> 'v \<Rightarrow> ('k, 'v) omap \<Rightarrow> ('k, 'v) omap" is ins_entry
  by (rule sorted_ins_entry)

lift_definition om_del :: "'k::linorder \<Rightarrow> ('k, 'v) omap \<Rightarrow> ('k, 'v) omap"
  is "\<lambda>k. filter (\<lambda>p. fst p \<noteq> k)"
  by (simp add: sorted_wrt_map sorted_wrt_filter)

definition om_keys :: "('k::linorder, 'v) omap \<Rightarrow> 'k list" where
  "om_keys m = map fst (om_entries m)"

definition om_size :: "('k::linorder, 'v) omap \<Rightarrow> nat" where
  "om_size m = length (om_entries m)"

section \<open>The contract of a map, and what follows from it\<close>

locale map_store =
  fixes get :: "'m \<Rightarrow> 'k \<Rightarrow> 'v option"
    and put :: "'k \<Rightarrow> 'v \<Rightarrow> 'm \<Rightarrow> 'm"
    and del :: "'k \<Rightarrow> 'm \<Rightarrow> 'm"
    and entries :: "'m \<Rightarrow> ('k \<times> 'v) list"
  assumes get_put: "get (put k v m) = (get m)(k \<mapsto> v)"
    and get_del: "get (del k m) = (get m)(k := None)"
    and entries_get: "(k, v) \<in> set (entries m) \<longleftrightarrow> get m k = Some v"
    and distinct_keys: "distinct (map fst (entries m))"
begin

lemma distinct_entries: "distinct (entries m)"
  using distinct_keys by (simp add: distinct_map)

lemma total_conv: "(\<Sum>p\<leftarrow>entries m. f (snd p)) = (\<Sum>p\<in>set (entries m). f (snd p) :: nat)"
  by (rule sum_list_distinct_conv_sum_set) (rule distinct_entries)

lemma entries_del: "set (entries (del k m)) = {p \<in> set (entries m). fst p \<noteq> k}"
  by (auto simp: entries_get get_del split: if_splits)

lemma entries_put: "set (entries (put k v m)) = insert (k, v) (set (entries (del k m)))"
  by (auto simp: entries_get get_del get_put split: if_splits)

text \<open>Removing an entry takes exactly its value out of a total over the entries.\<close>

lemma total_del:
  assumes "get m k = Some w"
  shows "(\<Sum>p\<leftarrow>entries m. f (snd p)) = (\<Sum>p\<leftarrow>entries (del k m). f (snd p)) + (f w :: nat)"
proof -
  have "set (entries m) = insert (k, w) (set (entries (del k m)))"
    using assms by (auto simp: entries_get get_del split: if_splits)
  moreover have "(k, w) \<notin> set (entries (del k m))"
    by (simp add: entries_get get_del)
  ultimately show ?thesis by (simp add: total_conv)
qed

lemma total_del_absent:
  assumes "get m k = None"
  shows "(\<Sum>p\<leftarrow>entries (del k m). f (snd p)) = (\<Sum>p\<leftarrow>entries m. f (snd p) :: nat)"
proof -
  have "set (entries (del k m)) = set (entries m)"
    using assms by (auto simp: entries_get get_del split: if_splits)
  then show ?thesis by (simp add: total_conv)
qed

text \<open>Storing replaces the old value of the key, if there is one, by the new one.\<close>

lemma total_put:
  "(\<Sum>p\<leftarrow>entries (put k v m). f (snd p)) + (case get m k of None \<Rightarrow> 0 | Some w \<Rightarrow> f w)
   = (\<Sum>p\<leftarrow>entries m. f (snd p)) + (f v :: nat)"
proof -
  have "(k, v) \<notin> set (entries (del k m))"
    by (simp add: entries_get get_del)
  then have "(\<Sum>p\<leftarrow>entries (put k v m). f (snd p)) = f v + (\<Sum>p\<leftarrow>entries (del k m). f (snd p))"
    by (simp add: total_conv entries_put)
  then show ?thesis
    by (cases "get m k") (simp_all add: total_del_absent total_del)
qed

end

section \<open>The container meets the contract\<close>

lemma om_sorted: "sorted_wrt (<) (map fst (om_entries m))"
  using om_entries [of m] by simp

lemma om_distinct: "distinct (map fst (om_entries m))"
  using om_sorted [of m] by (simp add: strict_sorted_iff)

interpretation om: map_store om_get om_put om_del om_entries
proof
  fix k :: "'a::linorder" and v :: 'b and m
  show "om_get (om_put k v m) = (om_get m)(k \<mapsto> v)"
    by transfer (simp add: map_of_ins_entry)
  show "om_get (om_del k m) = (om_get m)(k := None)"
    by transfer (simp add: map_of_filter_key)
  show "(k, v) \<in> set (om_entries m) \<longleftrightarrow> om_get m k = Some v"
    using om_distinct [of m] by transfer simp
  show "distinct (map fst (om_entries m))"
    by (rule om_distinct)
qed

lemma om_get_empty [simp]: "om_get om_empty k = None"
  by transfer simp

lemma om_entries_empty [simp]: "om_entries om_empty = []"
  by transfer simp

lemma om_get_put [simp]: "om_get (om_put k v m) j = (if j = k then Some v else om_get m j)"
  by (simp add: om.get_put)

lemma om_get_del [simp]: "om_get (om_del k m) j = (if j = k then None else om_get m j)"
  by (simp add: om.get_del)

lemma om_keys_iff: "k \<in> set (om_keys m) \<longleftrightarrow> om_get m k \<noteq> None"
proof -
  have "k \<in> fst ` set (om_entries m) \<longleftrightarrow> (\<exists>v. (k, v) \<in> set (om_entries m))" by force
  then show ?thesis by (simp add: om_keys_def om.entries_get)
qed

lemma entries_from_map:
  "distinct (map fst xs) \<Longrightarrow> xs = map (\<lambda>k. (k, the (map_of xs k))) (map fst xs)"
  by (rule sym) (auto simp: o_def intro!: map_idI)

text \<open>Maps with the same lookups are equal.\<close>

lemma om_eqI:
  assumes "\<And>k. om_get m k = om_get n k"
  shows "m = n"
proof -
  have "set (om_keys m) = set (om_keys n)"
    using assms by (auto simp: om_keys_iff)
  then have "map fst (om_entries m) = map fst (om_entries n)"
    unfolding om_keys_def using om_sorted [of m] om_sorted [of n]
    by (intro sorted_distinct_set_unique) (simp_all only: strict_sorted_iff)
  moreover have "map_of (om_entries m) = map_of (om_entries n)"
    using assms by (auto simp: om_get.rep_eq)
  ultimately have "om_entries m = om_entries n"
    using entries_from_map om_distinct by metis
  then show ?thesis by (simp add: om_entries_inject)
qed

lemma om_put_del: "om_get m k = Some v \<Longrightarrow> om_put k v (om_del k m) = m"
  by (rule om_eqI) auto

lemma om_put_same: "om_get m k = Some v \<Longrightarrow> om_put k v m = m"
  by (rule om_eqI) auto

lemma om_put_put [simp]: "om_put k v (om_put k w m) = om_put k v m"
  by (rule om_eqI) auto

lemma om_del_put [simp]: "om_get m k = None \<Longrightarrow> om_del k (om_put k v m) = m"
  by (rule om_eqI) auto

lemma om_size_total: "om_size m = (\<Sum>p\<leftarrow>om_entries m. (\<lambda>_. 1) (snd p))"
  by (simp add: om_size_def sum_list_triv)

lemma om_size_put:
  "om_size (om_put k v m) = (if om_get m k = None then Suc (om_size m) else om_size m)"
  using om.total_put [of "\<lambda>_. 1" k v m] by (auto simp: om_size_total split: option.splits)

lemma om_size_del: "om_size (om_del k m) \<le> om_size m"
  unfolding om_size_def by transfer (rule length_filter_le)

lemma om_size_card: "om_size m = card (set (om_keys m))"
  using distinct_card [OF om.distinct_keys [of m]]
  by (simp only: om_size_def om_keys_def length_map)

lemma om_keys_put: "set (om_keys (om_put k v m)) = insert k (set (om_keys m))"
  by (rule set_eqI) (simp add: om_keys_iff)

lemma om_size_empty [simp]: "om_size om_empty = 0"
  by (simp add: om_size_def)

instantiation omap :: (linorder, equal) equal
begin

definition equal_omap :: "('a, 'b) omap \<Rightarrow> ('a, 'b) omap \<Rightarrow> bool" where
  "equal_omap m n \<longleftrightarrow> om_entries m = om_entries n"

instance
  by standard (simp add: equal_omap_def om_entries_inject)

end

end
