(* ===== verification/Ledger.thy ===== *)
theory Ledger
  imports OMap
begin

text \<open>
  The in-memory economic ledger: \<open>include/Ledger.h\<close> and \<open>src/core/Ledger.cpp\<close>
  (class \<open>InMemoryLedger\<close>). Balances and escrows are maps, a thrown
  \<open>LedgerException\<close> is the left injection of a sum, a \<open>bool\<close> result is paired with the
  new state, and the events handed to the registered callback are recorded in order. Each
  operation takes the clock as a function from the index of a reading inside the operation
  to its value, since the code reads the system clock several times.
  The operations run one after another here; \<open>Ledger_Props\<close> interleaves the critical
  sections of \<open>putInEscrow\<close> as the code's separate lock scopes allow. The code keeps the two
  maps in hash maps; iterating them here goes in key order, which only the order of the list
  of \<open>getEscrowTaskIds\<close> can show.
\<close>

section \<open>Data\<close>

record escrow =
  esc_taskId :: string
  esc_clientPeerId :: string
  esc_amount :: u64
  esc_locked :: bool
  esc_createdAt :: u64

definition escrow_isValid :: "escrow \<Rightarrow> bool" where
  "escrow_isValid e \<longleftrightarrow> esc_taskId e \<noteq> [] \<and> esc_clientPeerId e \<noteq> [] \<and> 0 < esc_amount e"

record payment =
  pay_from :: string
  pay_to :: string
  pay_amount :: u64

definition payment_isValid :: "payment \<Rightarrow> bool" where
  "payment_isValid p \<longleftrightarrow>
     pay_from p \<noteq> [] \<and> pay_to p \<noteq> [] \<and> pay_from p \<noteq> pay_to p \<and> 0 < pay_amount p"

datatype ledger_event_type = CREDIT | DEBIT | ESCROW_CREATED | ESCROW_RELEASED | ESCROW_REFUNDED

record ledger_event =
  ev_type :: ledger_event_type
  ev_peerId :: string
  ev_amount :: u64
  ev_taskId :: "string option"
  ev_timestamp :: u64

datatype ledger_exception = LedgerException string

record ledger =
  balances :: "(string, u64) omap"
  escrows :: "(string, escrow) omap"
  event_callback :: bool
  delivered :: "ledger_event list"

definition new_ledger :: ledger where
  "new_ledger = \<lparr>balances = om_empty, escrows = om_empty, event_callback = False, delivered = []\<rparr>"

section \<open>Private helpers\<close>

definition validatePeerId :: "string \<Rightarrow> bool" where
  "validatePeerId p \<longleftrightarrow> p \<noteq> [] \<and> length p \<le> 256"

definition validateAmount :: "u64 \<Rightarrow> bool" where
  "validateAmount a \<longleftrightarrow> 0 < a"

definition getBalance_unsafe :: "string \<Rightarrow> ledger \<Rightarrow> u64" where
  "getBalance_unsafe p L = (case om_get (balances L) p of None \<Rightarrow> 0 | Some b \<Rightarrow> b)"

definition setBalance_unsafe :: "string \<Rightarrow> u64 \<Rightarrow> ledger \<Rightarrow> ledger" where
  "setBalance_unsafe p b L =
     (if b = 0 then L\<lparr>balances := om_del p (balances L)\<rparr>
      else L\<lparr>balances := om_put p b (balances L)\<rparr>)"

definition emitEvent ::
    "ledger_event_type \<Rightarrow> string \<Rightarrow> u64 \<Rightarrow> string option \<Rightarrow> u64 \<Rightarrow> ledger \<Rightarrow> ledger" where
  "emitEvent ty p a t now L =
     (if \<not> event_callback L then L
      else L\<lparr>delivered := delivered L @
        [\<lparr>ev_type = ty, ev_peerId = p, ev_amount = a, ev_taskId = t, ev_timestamp = now\<rparr>]\<rparr>)"

section \<open>Balances\<close>

definition balanceOf :: "string \<Rightarrow> ledger \<Rightarrow> u64" where
  "balanceOf p L = (if \<not> validatePeerId p then 0 else getBalance_unsafe p L)"

definition credit :: "(nat \<Rightarrow> u64) \<Rightarrow> string \<Rightarrow> u64 \<Rightarrow> ledger \<Rightarrow> ledger_exception + ledger" where
  "credit clk p a L =
     (if \<not> validatePeerId p then Inl (LedgerException (''Invalid peer ID: '' @ p))
      else if \<not> validateAmount a then
        Inl (LedgerException (''Invalid credit amount: '' @ to_dec (unat a)))
      else let current = getBalance_unsafe p L in
        if current > u64_max - a then
          Inl (LedgerException (''Credit would cause balance overflow for peer: '' @ p))
        else Inr (emitEvent CREDIT p a None (clk 0) (setBalance_unsafe p (current + a) L)))"

definition debit :: "(nat \<Rightarrow> u64) \<Rightarrow> string \<Rightarrow> u64 \<Rightarrow> ledger \<Rightarrow> bool \<times> ledger" where
  "debit clk p a L =
     (if \<not> validatePeerId p then (False, L)
      else if \<not> validateAmount a then (False, L)
      else let current = getBalance_unsafe p L in
        if current < a then (False, L)
        else (True, emitEvent DEBIT p a None (clk 0) (setBalance_unsafe p (current - a) L)))"

definition transfer :: "(nat \<Rightarrow> u64) \<Rightarrow> string \<Rightarrow> string \<Rightarrow> u64 \<Rightarrow> ledger \<Rightarrow> bool \<times> ledger" where
  "transfer clk from to a L =
     (if \<not> validatePeerId from \<or> \<not> validatePeerId to then (False, L)
      else if from = to then (False, L)
      else if \<not> validateAmount a then (False, L)
      else let fromBalance = getBalance_unsafe from L in
        if fromBalance < a then (False, L)
        else let toBalance = getBalance_unsafe to L in
          if toBalance > u64_max - a then (False, L)
          else
            let L1 = setBalance_unsafe from (fromBalance - a) L;
                L2 = setBalance_unsafe to (toBalance + a) L1
            in (True, emitEvent CREDIT to a None (clk 1) (emitEvent DEBIT from a None (clk 0) L2)))"

section \<open>Escrows\<close>

definition putInEscrow :: "(nat \<Rightarrow> u64) \<Rightarrow> escrow \<Rightarrow> ledger \<Rightarrow> bool \<times> ledger" where
  "putInEscrow clk e L =
     (if \<not> escrow_isValid e then (False, L)
      else if \<not> validatePeerId (esc_clientPeerId e) then (False, L)
      else if om_get (escrows L) (esc_taskId e) \<noteq> None then (False, L)
      else case debit clk (esc_clientPeerId e) (esc_amount e) L of
        (False, L1) \<Rightarrow> (False, L1)
      | (True, L1) \<Rightarrow>
          let L2 = L1\<lparr>escrows := om_put (esc_taskId e) (e\<lparr>esc_createdAt := clk 1\<rparr>) (escrows L1)\<rparr>
          in (True, emitEvent ESCROW_CREATED (esc_clientPeerId e) (esc_amount e)
                      (Some (esc_taskId e)) (clk 2) L2))"

definition releaseEscrow :: "(nat \<Rightarrow> u64) \<Rightarrow> string \<Rightarrow> string \<Rightarrow> ledger \<Rightarrow> bool \<times> ledger" where
  "releaseEscrow clk t w L =
     (if t = [] \<or> \<not> validatePeerId w then (False, L)
      else case om_get (escrows L) t of
        None \<Rightarrow> (False, L)
      | Some e \<Rightarrow>
          if esc_locked e then (False, L)
          else let L1 = L\<lparr>escrows := om_del t (escrows L)\<rparr> in
            case credit clk w (esc_amount e) L1 of
              Inl _ \<Rightarrow> (False, L1\<lparr>escrows := om_put t e (escrows L1)\<rparr>)
            | Inr L2 \<Rightarrow> (True, emitEvent ESCROW_RELEASED w (esc_amount e) (Some t) (clk 1) L2))"

definition refundEscrow :: "(nat \<Rightarrow> u64) \<Rightarrow> string \<Rightarrow> ledger \<Rightarrow> bool \<times> ledger" where
  "refundEscrow clk t L =
     (if t = [] then (False, L)
      else case om_get (escrows L) t of
        None \<Rightarrow> (False, L)
      | Some e \<Rightarrow>
          if esc_locked e then (False, L)
          else let L1 = L\<lparr>escrows := om_del t (escrows L)\<rparr> in
            case credit clk (esc_clientPeerId e) (esc_amount e) L1 of
              Inl _ \<Rightarrow> (False, L1\<lparr>escrows := om_put t e (escrows L1)\<rparr>)
            | Inr L2 \<Rightarrow>
                (True, emitEvent ESCROW_REFUNDED (esc_clientPeerId e) (esc_amount e) (Some t) (clk 1) L2))"

definition getEscrow :: "string \<Rightarrow> ledger \<Rightarrow> escrow option" where
  "getEscrow t L = (if t = [] then None else om_get (escrows L) t)"

definition hasEscrow :: "string \<Rightarrow> ledger \<Rightarrow> bool" where
  "hasEscrow t L \<longleftrightarrow> (if t = [] then False else om_get (escrows L) t \<noteq> None)"

definition getEscrowTaskIds :: "ledger \<Rightarrow> string list" where
  "getEscrowTaskIds L = om_keys (escrows L)"

section \<open>Callbacks, totals, snapshot, administration\<close>

definition registerEventCallback :: "ledger \<Rightarrow> ledger" where
  "registerEventCallback L = L\<lparr>event_callback := True\<rparr>"

definition unregisterEventCallback :: "ledger \<Rightarrow> ledger" where
  "unregisterEventCallback L = L\<lparr>event_callback := False\<rparr>"

definition getAccountCount :: "ledger \<Rightarrow> nat" where
  "getAccountCount L = om_size (balances L)"

definition getEscrowCount :: "ledger \<Rightarrow> nat" where
  "getEscrowCount L = om_size (escrows L)"

text \<open>The accumulating loop of the totals, which returns early on overflow.\<close>

fun sat_total :: "u64 \<Rightarrow> u64 list \<Rightarrow> u64" where
  "sat_total acc [] = acc"
| "sat_total acc (b # bs) = (if acc > u64_max - b then u64_max else sat_total (acc + b) bs)"

definition getTotalBalance :: "ledger \<Rightarrow> u64" where
  "getTotalBalance L = sat_total 0 (map snd (om_entries (balances L)))"

definition getTotalEscrow :: "ledger \<Rightarrow> u64" where
  "getTotalEscrow L = sat_total 0 (map (esc_amount \<circ> snd) (om_entries (escrows L)))"

record ledger_balance_snapshot =
  lbs_peerId :: string
  lbs_balance :: u64

record ledger_escrow_snapshot =
  les_taskId :: string
  les_clientPeerId :: string
  les_amount :: u64
  les_locked :: bool
  les_createdAt :: u64

record ledger_snapshot =
  ls_balances :: "ledger_balance_snapshot list"
  ls_escrows :: "ledger_escrow_snapshot list"

definition snapshot :: "ledger \<Rightarrow> ledger_snapshot" where
  "snapshot L =
     \<lparr>ls_balances = sort_key lbs_peerId
        (map (\<lambda>(p, b). \<lparr>lbs_peerId = p, lbs_balance = b\<rparr>) (om_entries (balances L))),
      ls_escrows = sort_key les_taskId
        (map (\<lambda>(_, e). \<lparr>les_taskId = esc_taskId e, les_clientPeerId = esc_clientPeerId e,
                les_amount = esc_amount e, les_locked = esc_locked e,
                les_createdAt = esc_createdAt e\<rparr>) (om_entries (escrows L)))\<rparr>"

definition clear_ledger :: "ledger \<Rightarrow> ledger" where
  "clear_ledger L = L\<lparr>balances := om_empty, escrows := om_empty\<rparr>"

definition removeAccount :: "string \<Rightarrow> ledger \<Rightarrow> bool \<times> ledger" where
  "removeAccount p L =
     (if \<not> validatePeerId p then (False, L)
      else case om_get (balances L) p of
        None \<Rightarrow> (False, L)
      | Some b \<Rightarrow> if b \<noteq> 0 then (False, L) else (True, L\<lparr>balances := om_del p (balances L)\<rparr>))"

section \<open>Framing facts\<close>

lemma emitEvent_balances [simp]: "balances (emitEvent ty p a t now L) = balances L"
  by (simp add: emitEvent_def)

lemma emitEvent_escrows [simp]: "escrows (emitEvent ty p a t now L) = escrows L"
  by (simp add: emitEvent_def)

lemma setBalance_escrows [simp]: "escrows (setBalance_unsafe p b L) = escrows L"
  by (simp add: setBalance_unsafe_def)

lemma getBalance_cong [simp]:
  "getBalance_unsafe q (emitEvent ty p a t now L) = getBalance_unsafe q L"
  "getBalance_unsafe q (L\<lparr>escrows := m\<rparr>) = getBalance_unsafe q L"
  by (simp_all add: getBalance_unsafe_def)

lemma getBalance_set [simp]:
  "getBalance_unsafe q (setBalance_unsafe p b L) = (if q = p then b else getBalance_unsafe q L)"
  by (simp add: getBalance_unsafe_def setBalance_unsafe_def)

lemmas ledger_ops [op_defs] =
  credit_def debit_def transfer_def putInEscrow_def releaseEscrow_def refundEscrow_def

section \<open>The money in the ledger\<close>

definition bal_total :: "ledger \<Rightarrow> nat" where
  "bal_total L = (\<Sum>p\<leftarrow>om_entries (balances L). unat (snd p))"

definition esc_total :: "ledger \<Rightarrow> nat" where
  "esc_total L = (\<Sum>p\<leftarrow>om_entries (escrows L). unat (esc_amount (snd p)))"

definition funds :: "ledger \<Rightarrow> nat" where
  "funds L = bal_total L + esc_total L"

lemma bal_total_cong [simp]:
  "bal_total (emitEvent ty p a t now L) = bal_total L"
  "bal_total (L\<lparr>escrows := m\<rparr>) = bal_total L"
  by (simp_all add: bal_total_def)

lemma esc_total_cong [simp]:
  "esc_total (emitEvent ty p a t now L) = esc_total L"
  "esc_total (setBalance_unsafe p b L) = esc_total L"
  by (simp_all add: esc_total_def)

lemma bal_total_setBalance:
  "bal_total (setBalance_unsafe p b L) + unat (getBalance_unsafe p L) = bal_total L + unat b"
proof (cases "om_get (balances L) p")
  case None
  then show ?thesis
    using om.total_put [of unat p b "balances L"] om.total_del_absent [of "balances L" p unat]
    by (simp add: bal_total_def setBalance_unsafe_def getBalance_unsafe_def)
next
  case (Some w)
  then show ?thesis
    using om.total_put [of unat p b "balances L"] om.total_del [of "balances L" p w unat]
    by (simp add: bal_total_def setBalance_unsafe_def getBalance_unsafe_def)
qed

lemma getBalance_le_total: "unat (getBalance_unsafe p L) \<le> bal_total L"
  using bal_total_setBalance [of p 0 L] by simp

text \<open>What a successful credit and a successful debit do to the state.\<close>

lemma credit_Inr:
  assumes "credit clk p a L = Inr M"
  shows "validatePeerId p" and "0 < a" and "escrows M = escrows L"
    and "bal_total M = bal_total L + unat a"
    and "getBalance_unsafe q M = (if q = p then getBalance_unsafe p L + a else getBalance_unsafe q L)"
    and "unat (getBalance_unsafe p L + a) = unat (getBalance_unsafe p L) + unat a"
  using assms bal_total_setBalance [of p "getBalance_unsafe p L + a" L]
    unat_plus_no_overflow [of a "getBalance_unsafe p L"]
  by (auto simp: credit_def validateAmount_def Let_def unat_plus_no_overflow split: if_splits)

lemma debit_True:
  assumes "debit clk p a L = (True, M)"
  shows "validatePeerId p" and "0 < a" and "escrows M = escrows L"
    and "bal_total M + unat a = bal_total L" and "a \<le> getBalance_unsafe p L"
    and "getBalance_unsafe q M = (if q = p then getBalance_unsafe p L - a else getBalance_unsafe q L)"
  using assms bal_total_setBalance [of p "getBalance_unsafe p L - a" L]
    unat_minus_no_underflow [of "getBalance_unsafe p L" a] getBalance_le_total [of p L]
  by (auto simp: debit_def validateAmount_def Let_def word_le_nat_alt word_less_nat_alt
      split: if_splits)

lemma debit_False: "debit clk p a L = (False, M) \<Longrightarrow> M = L"
  by (auto simp: debit_def Let_def split: if_splits)

lemma debit_result:
  "fst (debit clk p a L) \<longleftrightarrow> validatePeerId p \<and> 0 < a \<and> a \<le> getBalance_unsafe p L"
  by (auto simp: debit_def Let_def validateAmount_def)

lemma esc_total_put:
  "om_get (escrows L) t = None \<Longrightarrow>
   esc_total (L\<lparr>escrows := om_put t e (escrows L)\<rparr>) = esc_total L + unat (esc_amount e)"
  using om.total_put [of "\<lambda>e. unat (esc_amount e)" t e "escrows L"] by (simp add: esc_total_def)

lemma esc_total_del:
  "om_get (escrows L) t = Some e \<Longrightarrow>
   esc_total (L\<lparr>escrows := om_del t (escrows L)\<rparr>) + unat (esc_amount e) = esc_total L"
  using om.total_del [of "escrows L" t e "\<lambda>e. unat (esc_amount e)"] by (simp add: esc_total_def)

lemma esc_total_only: "escrows M = escrows L \<Longrightarrow> esc_total M = esc_total L"
  by (simp add: esc_total_def)

lemma rollback [simp]:
  "om_get (escrows L) t = Some e \<Longrightarrow>
   L\<lparr>escrows := om_put t e (om_del t (escrows L))\<rparr> = L"
  by (simp add: om_put_del)

section \<open>Each operation keeps the money\<close>

lemma transfer_funds: "funds (snd (transfer clk f t a L)) = funds L"
proof -
  let ?fb = "getBalance_unsafe f L" and ?tb = "getBalance_unsafe t L"
  let ?L1 = "setBalance_unsafe f (?fb - a) L"
  have "bal_total (setBalance_unsafe t (?tb + a) ?L1) = bal_total L"
    if "f \<noteq> t" "\<not> ?fb < a" "\<not> u64_max - a < ?tb"
  proof -
    have "unat (?fb - a) = unat ?fb - unat a" "unat a \<le> unat ?fb"
      using that(2) by (simp_all add: unat_minus_no_underflow word_less_nat_alt)
    moreover have "unat (?tb + a) = unat ?tb + unat a"
      using that(3) by (rule unat_plus_no_overflow)
    ultimately show ?thesis
      using bal_total_setBalance [of f "?fb - a" L] bal_total_setBalance [of t "?tb + a" ?L1] that(1)
      by simp
  qed
  then show ?thesis by (auto simp: transfer_def funds_def Let_def)
qed

lemma putInEscrow_funds: "funds (snd (putInEscrow clk e L)) = funds L"
proof (cases "debit clk (esc_clientPeerId e) (esc_amount e) L")
  case (Pair b M)
  show ?thesis
  proof (cases b)
    case True
    with Pair have d: "escrows M = escrows L" "bal_total M + unat (esc_amount e) = bal_total L"
      using debit_True by auto
    then show ?thesis
      using Pair True esc_total_put [of M "esc_taskId e" "e\<lparr>esc_createdAt := clk 1\<rparr>"]
        esc_total_only [of M L]
      by (auto simp: putInEscrow_def funds_def Let_def)
  next
    case False
    with Pair have "M = L" by (simp add: debit_False)
    with Pair False show ?thesis by (simp add: putInEscrow_def)
  qed
qed

text \<open>Release and refund share one argument: the escrow's amount moves to one balance.\<close>

lemma payout_funds:
  assumes "om_get (escrows L) t = Some e"
    and "credit clk w (esc_amount e) (L\<lparr>escrows := om_del t (escrows L)\<rparr>) = Inr M"
  shows "funds M = funds L"
  using credit_Inr(3,4) [OF assms(2)] esc_total_del [OF assms(1)]
    esc_total_only [of M "L\<lparr>escrows := om_del t (escrows L)\<rparr>"]
  by (simp add: funds_def)

lemma funds_emit [simp]: "funds (emitEvent ty p a t now L) = funds L"
  by (simp add: funds_def)

lemma releaseEscrow_funds: "funds (snd (releaseEscrow clk t w L)) = funds L"
  by (auto simp: releaseEscrow_def Let_def payout_funds split: option.split sum.split)

lemma refundEscrow_funds: "funds (snd (refundEscrow clk t L)) = funds L"
  by (auto simp: refundEscrow_def Let_def payout_funds split: option.split sum.split)

lemma removeAccount_funds: "funds (snd (removeAccount p L)) = funds L"
proof (cases "om_get (balances L) p")
  case (Some b)
  then show ?thesis
    using om.total_del [of "balances L" p b unat]
    by (simp add: removeAccount_def funds_def bal_total_def esc_total_def)
qed (simp add: removeAccount_def)

end
