(* ===== verification/Ledger_Props.thy ===== *)
theory Ledger_Props
  imports Ledger
begin

text \<open>
  What holds of every run of the ledger's operations: the bookkeeping identity of the money,
  the well-formedness of the stored maps, the saturating totals, the outcome of paying an
  escrow out, and what two overlapping calls of \<open>putInEscrow\<close> can do, since the code takes
  its locks separately for the existence check, the debit and the store.
\<close>

section \<open>Operations as data, and runs\<close>

datatype ledger_op =
    Credit "nat \<Rightarrow> u64" string u64
  | Debit "nat \<Rightarrow> u64" string u64
  | Transfer "nat \<Rightarrow> u64" string string u64
  | PutInEscrow "nat \<Rightarrow> u64" escrow
  | ReleaseEscrow "nat \<Rightarrow> u64" string string
  | RefundEscrow "nat \<Rightarrow> u64" string
  | RegisterCallback
  | UnregisterCallback
  | ClearLedger
  | RemoveAccount string

fun ledger_step :: "ledger \<Rightarrow> ledger_op \<Rightarrow> ledger" where
  "ledger_step L (Credit clk p a) = (case credit clk p a L of Inl _ \<Rightarrow> L | Inr M \<Rightarrow> M)"
| "ledger_step L (Debit clk p a) = snd (debit clk p a L)"
| "ledger_step L (Transfer clk f t a) = snd (transfer clk f t a L)"
| "ledger_step L (PutInEscrow clk e) = snd (putInEscrow clk e L)"
| "ledger_step L (ReleaseEscrow clk t w) = snd (releaseEscrow clk t w L)"
| "ledger_step L (RefundEscrow clk t) = snd (refundEscrow clk t L)"
| "ledger_step L RegisterCallback = registerEventCallback L"
| "ledger_step L UnregisterCallback = unregisterEventCallback L"
| "ledger_step L ClearLedger = clear_ledger L"
| "ledger_step L (RemoveAccount p) = snd (removeAccount p L)"

text \<open>The money an operation brings in from outside (or takes out, when negative).\<close>

fun external :: "ledger \<Rightarrow> ledger_op \<Rightarrow> int" where
  "external L (Credit clk p a) = (case credit clk p a L of Inl _ \<Rightarrow> 0 | Inr _ \<Rightarrow> int (unat a))"
| "external L (Debit clk p a) = (if fst (debit clk p a L) then - int (unat a) else 0)"
| "external L ClearLedger = - int (funds L)"
| "external L _ = 0"

fun net_external :: "ledger \<Rightarrow> ledger_op list \<Rightarrow> int" where
  "net_external L [] = 0"
| "net_external L (x # xs) = external L x + net_external (ledger_step L x) xs"

lemma funds_step: "int (funds (ledger_step L x)) = int (funds L) + external L x"
proof (cases x)
  case (Credit clk p a)
  show ?thesis
  proof (cases "credit clk p a L")
    case (Inr M)
    then have "escrows M = escrows L" "bal_total M = bal_total L + unat a"
      by (rule credit_Inr)+
    with Credit Inr show ?thesis by (simp add: funds_def esc_total_def)
  qed (simp add: Credit)
next
  case (Debit clk p a)
  obtain b M where d: "debit clk p a L = (b, M)" by (cases "debit clk p a L")
  show ?thesis
  proof (cases b)
    case True
    with d have "escrows M = escrows L" "bal_total M + unat a = bal_total L"
      by (simp_all add: debit_True)
    moreover from this(2) have "int (bal_total M + unat a) = int (bal_total L)" by (simp only:)
    ultimately show ?thesis using Debit d True by (simp add: funds_def esc_total_def)
  next
    case False
    then have "M = L" using d debit_False by simp
    with Debit d False show ?thesis by simp
  qed
next
  case ClearLedger
  then show ?thesis by (simp add: funds_def clear_ledger_def bal_total_def esc_total_def)
next
  case RegisterCallback
  then show ?thesis by (simp add: funds_def registerEventCallback_def bal_total_def esc_total_def)
next
  case UnregisterCallback
  then show ?thesis by (simp add: funds_def unregisterEventCallback_def bal_total_def esc_total_def)
qed (simp_all add: transfer_funds putInEscrow_funds releaseEscrow_funds refundEscrow_funds
      removeAccount_funds)

text \<open>
  C1. Over any sequence of ledger operations the money held in balances and escrows changes by
  exactly what successful credits brought in, successful debits took out and a clear wiped:
  transfers, escrows, releases, refunds, account removal and the error paths move money but
  neither create nor destroy it, and no 64-bit addition or subtraction wraps.
\<close>

theorem ledger_run_conserves:
  "int (funds (foldl ledger_step L ops)) = int (funds L) + net_external L ops"
  by (induction ops arbitrary: L) (simp_all add: funds_step)

section \<open>Well-formed ledgers\<close>

definition ledger_inv :: "ledger \<Rightarrow> bool" where
  "ledger_inv L \<longleftrightarrow>
     list_all (\<lambda>(p, b). validatePeerId p \<and> b \<noteq> 0) (om_entries (balances L)) \<and>
     list_all (\<lambda>(t, e). escrow_isValid e \<and> esc_taskId e = t \<and> validatePeerId (esc_clientPeerId e))
       (om_entries (escrows L))"

lemma ledger_inv_get [inv_simps]:
  "ledger_inv L \<longleftrightarrow>
     (\<forall>p b. om_get (balances L) p = Some b \<longrightarrow> validatePeerId p \<and> b \<noteq> 0) \<and>
     (\<forall>t e. om_get (escrows L) t = Some e \<longrightarrow>
        escrow_isValid e \<and> esc_taskId e = t \<and> validatePeerId (esc_clientPeerId e))"
  by (auto simp: ledger_inv_def list_all_iff simp flip: om.entries_get)

lemma ledger_inv_new: "ledger_inv new_ledger"
  by (simp add: ledger_inv_def new_ledger_def)

lemma ledger_inv_emit [simp]: "ledger_inv (emitEvent ty p a t now L) = ledger_inv L"
  by (simp add: ledger_inv_def)

lemma ledger_inv_set: "ledger_inv L \<Longrightarrow> validatePeerId p \<Longrightarrow> ledger_inv (setBalance_unsafe p b L)"
  by (auto simp: inv_simps setBalance_unsafe_def)

lemma ledger_inv_credit: "ledger_inv L \<Longrightarrow> credit clk p a L = Inr M \<Longrightarrow> ledger_inv M"
  by (auto simp: credit_def Let_def ledger_inv_set split: if_splits)

lemma ledger_inv_debit: "ledger_inv L \<Longrightarrow> debit clk p a L = (b, M) \<Longrightarrow> ledger_inv M"
  by (auto simp: debit_def Let_def ledger_inv_set split: if_splits)

lemma ledger_inv_del_escrow: "ledger_inv L \<Longrightarrow> ledger_inv (L\<lparr>escrows := om_del t (escrows L)\<rparr>)"
  by (simp add: inv_simps)

lemma ledger_inv_put:
  assumes "ledger_inv L"
  shows "ledger_inv (snd (putInEscrow clk e L))"
proof -
  obtain b M where d: "debit clk (esc_clientPeerId e) (esc_amount e) L = (b, M)"
    by (cases "debit clk (esc_clientPeerId e) (esc_amount e) L")
  then have "ledger_inv M" using assms by (rule ledger_inv_debit [rotated])
  then show ?thesis
    using assms d by (auto simp: putInEscrow_def Let_def inv_simps escrow_isValid_def split: bool.split)
qed

lemma ledger_inv_step: "ledger_inv L \<Longrightarrow> ledger_inv (ledger_step L x)"
proof (cases x)
  case (Credit clk p a)
  then show "ledger_inv L \<Longrightarrow> ?thesis" by (auto split: sum.split intro: ledger_inv_credit)
next
  case (Debit clk p a)
  then show "ledger_inv L \<Longrightarrow> ?thesis"
    using ledger_inv_debit [of L clk p a] by (cases "debit clk p a L") auto
next
  case (Transfer clk f t a)
  then show "ledger_inv L \<Longrightarrow> ?thesis" by (auto simp: transfer_def Let_def ledger_inv_set)
next
  case (PutInEscrow clk e)
  then show "ledger_inv L \<Longrightarrow> ?thesis" by (simp add: ledger_inv_put)
next
  case (ReleaseEscrow clk t w)
  then show "ledger_inv L \<Longrightarrow> ?thesis"
    by (auto simp: releaseEscrow_def Let_def split: option.split sum.split
        intro: ledger_inv_credit ledger_inv_del_escrow)
next
  case (RefundEscrow clk t)
  then show "ledger_inv L \<Longrightarrow> ?thesis"
    by (auto simp: refundEscrow_def Let_def split: option.split sum.split
        intro: ledger_inv_credit ledger_inv_del_escrow)
qed (auto simp: inv_simps registerEventCallback_def unregisterEventCallback_def clear_ledger_def
      removeAccount_def split: option.split)

interpretation ledger_run: component ledger_step ledger_inv
  by standard (rule ledger_inv_step)

text \<open>
  From a fresh ledger every sequence of operations keeps the stored maps well formed: every
  account has a valid peer id and a non-zero balance, every escrow is stored under its own task
  id with a positive amount and a valid client.
\<close>

theorem ledger_reachable_inv: "ledger_inv (foldl ledger_step new_ledger ops)"
  by (rule ledger_run.run_inv) (rule ledger_inv_new)

text \<open>
  \<open>removeAccount\<close> never succeeds: it only removes accounts with balance zero, and no
  reachable ledger stores such an account.
\<close>

theorem removeAccount_never: "\<not> fst (removeAccount p (foldl ledger_step new_ledger ops))"
proof -
  have "ledger_inv (foldl ledger_step new_ledger ops)"
    by (rule ledger_run.run_inv) (rule ledger_inv_new)
  then show ?thesis by (auto simp: removeAccount_def inv_simps split: option.split)
qed

section \<open>Saturating totals\<close>

lemma sat_total_min:
  "unat (sat_total acc bs) = min (2 ^ 64 - 1) (unat acc + (\<Sum>b\<leftarrow>bs. unat b))"
proof (induction acc bs rule: sat_total.induct)
  case (1 acc)
  show ?case using unat_bound [of acc] by simp
next
  case (2 acc b bs)
  show ?case
  proof (cases "acc > u64_max - b")
    case True
    then have "2 ^ 64 \<le> unat acc + unat b" by (simp only: overflow_test_iff) simp
    with True show ?thesis by (simp add: unsigned_minus_1_eq_mask mask_eq_exp_minus_1)
  next
    case False
    then have "unat (acc + b) = unat acc + unat b" by (rule unat_plus_no_overflow)
    with False 2 show ?thesis by (simp add: add.assoc)
  qed
qed

text \<open>
  The two totals are the mathematical sums of all balances and of all escrowed amounts,
  capped at the largest 64-bit value: the early return on overflow never yields a wrapped or
  partial sum.
\<close>

theorem ledger_totals_saturate:
  "unat (getTotalBalance L) = min (2 ^ 64 - 1) (bal_total L) \<and>
   unat (getTotalEscrow L) = min (2 ^ 64 - 1) (esc_total L)"
  by (simp add: getTotalBalance_def getTotalEscrow_def sat_total_min bal_total_def esc_total_def o_def)

section \<open>Paying an escrow out\<close>

text \<open>
  \<open>releaseEscrow\<close> succeeds exactly when the worker id is valid, the task has an unlocked
  escrow of positive amount and the worker's balance has room for it. Success removes just that
  escrow and raises just the worker's balance by the full amount; on every failure, the
  roll-back after a refused credit included, the ledger is unchanged.
\<close>

theorem releaseEscrow_outcome:
  "case releaseEscrow clk t w L of (ok, M) \<Rightarrow>
     (ok \<longleftrightarrow> t \<noteq> [] \<and> validatePeerId w \<and>
        (case om_get (escrows L) t of None \<Rightarrow> False
         | Some e \<Rightarrow> \<not> esc_locked e \<and> 0 < esc_amount e \<and>
             unat (getBalance_unsafe w L) + unat (esc_amount e) < 2 ^ 64)) \<and>
     (if ok then escrows M = om_del t (escrows L) \<and>
        (\<forall>q. unat (getBalance_unsafe q M) = unat (getBalance_unsafe q L) +
           (if q = w then unat (esc_amount (the (om_get (escrows L) t))) else 0))
      else M = L)"
proof (cases "om_get (escrows L) t")
  case None
  then show ?thesis by (simp add: releaseEscrow_def)
next
  case (Some e)
  let ?L1 = "L\<lparr>escrows := om_del t (escrows L)\<rparr>"
  show ?thesis
  proof (cases "credit clk w (esc_amount e) ?L1")
    case (Inl x)
    then have "\<not> (validatePeerId w \<and> 0 < esc_amount e \<and>
        unat (getBalance_unsafe w L) + unat (esc_amount e) < 2 ^ 64)"
      using overflow_test_iff [of "esc_amount e" "getBalance_unsafe w L"]
      by (auto simp: credit_def validateAmount_def Let_def split: if_splits)
    with Some Inl show ?thesis by (auto simp: releaseEscrow_def Let_def)
  next
    case (Inr M)
    have "unat (getBalance_unsafe w L) + unat (esc_amount e) < 2 ^ 64"
      using credit_Inr(6) [OF Inr] unat_bound [of "getBalance_unsafe w L + esc_amount e"] by simp
    with Some Inr credit_Inr(1-3,6) [OF Inr] credit_Inr(5) [OF Inr] show ?thesis
      by (auto simp: releaseEscrow_def Let_def)
  qed
qed

lemma locked_step:
  "om_get (escrows L) t = Some e \<Longrightarrow> esc_locked e \<Longrightarrow> x \<noteq> ClearLedger \<Longrightarrow>
   om_get (escrows (ledger_step L x)) t = Some e"
proof (cases x)
  case (PutInEscrow clk f)
  then show "om_get (escrows L) t = Some e \<Longrightarrow> ?thesis"
    using debit_True(3) [of clk "esc_clientPeerId f" "esc_amount f" L]
      debit_False [of clk "esc_clientPeerId f" "esc_amount f" L]
    by (auto simp: putInEscrow_def Let_def split: prod.split bool.split)
next
  case (Debit clk p a)
  then show "om_get (escrows L) t = Some e \<Longrightarrow> ?thesis"
    using debit_True(3) [of clk p a L] debit_False [of clk p a L]
    by (cases "debit clk p a L"; cases "fst (debit clk p a L)") auto
qed (auto simp: transfer_def releaseEscrow_def refundEscrow_def Let_def registerEventCallback_def
      unregisterEventCallback_def removeAccount_def credit_Inr(3) split: option.split sum.split)

text \<open>
  An escrow stored with its lock flag set can never be paid out: no operation clears the
  flag, so after any sequence of operations without a clear of the whole ledger it is still
  there, unchanged, and both release and refund refuse it.
\<close>

theorem locked_escrow_stays:
  assumes "om_get (escrows L) t = Some e" "esc_locked e" "list_all (\<lambda>x. x \<noteq> ClearLedger) ops"
  shows "om_get (escrows (foldl ledger_step L ops)) t = Some e \<and>
    \<not> fst (releaseEscrow clk t w (foldl ledger_step L ops)) \<and>
    \<not> fst (refundEscrow clk t (foldl ledger_step L ops))"
proof -
  have "om_get (escrows (foldl ledger_step L ops)) t = Some e"
    using assms(1,3)
    by (induction ops arbitrary: L) (auto simp: locked_step [OF _ assms(2)])
  with assms(2) show ?thesis by (simp add: releaseEscrow_def refundEscrow_def)
qed

definition locked_demo :: escrow where
  "locked_demo = \<lparr>esc_taskId = ''t'', esc_clientPeerId = ''alice'', esc_amount = 5,
     esc_locked = True, esc_createdAt = 0\<rparr>"

theorem locked_escrow_stays_witness:
  "\<not> fst (refundEscrow (\<lambda>_. 9) ''t''
     (foldl ledger_step
       (foldl ledger_step new_ledger [Credit (\<lambda>_. 1) ''alice'' 7, PutInEscrow (\<lambda>_. 2) locked_demo])
       [Credit (\<lambda>_. 3) ''bob'' 4, ReleaseEscrow (\<lambda>_. 4) ''t'' ''bob'']))"
proof -
  have "om_get (escrows (foldl ledger_step new_ledger
      [Credit (\<lambda>_. 1) ''alice'' 7, PutInEscrow (\<lambda>_. 2) locked_demo])) ''t''
    = Some (locked_demo\<lparr>esc_createdAt := 2\<rparr>)"
    by (simp add: op_defs new_ledger_def locked_demo_def validatePeerId_def validateAmount_def
        escrow_isValid_def getBalance_unsafe_def setBalance_unsafe_def emitEvent_def Let_def)
  from locked_escrow_stays [OF this, of
      "[Credit (\<lambda>_. 3) ''bob'' 4, ReleaseEscrow (\<lambda>_. 4) ''t'' ''bob'']" "\<lambda>_. 9" "''bob''"]
  show ?thesis by (simp add: locked_demo_def)
qed

section \<open>Overlapping calls of putInEscrow\<close>

text \<open>
  The critical sections of \<open>putInEscrow\<close>, one per lock scope of the code: validation and the
  existence check (shared lock), the debit (exclusive lock on the balances), the store
  (exclusive lock on the escrows), the event.
\<close>

datatype put_pc = PStart | PChecked | PDebited | PStored | PDone bool

fun put_section :: "(nat \<Rightarrow> u64) \<Rightarrow> escrow \<Rightarrow> put_pc \<Rightarrow> ledger \<Rightarrow> put_pc \<times> ledger" where
  "put_section clk e PStart L =
     (if \<not> escrow_isValid e \<or> \<not> validatePeerId (esc_clientPeerId e) then (PDone False, L)
      else if om_get (escrows L) (esc_taskId e) \<noteq> None then (PDone False, L)
      else (PChecked, L))"
| "put_section clk e PChecked L =
     (case debit clk (esc_clientPeerId e) (esc_amount e) L of
        (False, M) \<Rightarrow> (PDone False, M) | (True, M) \<Rightarrow> (PDebited, M))"
| "put_section clk e PDebited L =
     (PStored, L\<lparr>escrows := om_put (esc_taskId e) (e\<lparr>esc_createdAt := clk 1\<rparr>) (escrows L)\<rparr>)"
| "put_section clk e PStored L =
     (PDone True, emitEvent ESCROW_CREATED (esc_clientPeerId e) (esc_amount e)
        (Some (esc_taskId e)) (clk 2) L)"
| "put_section clk e (PDone b) L = (PDone b, L)"

text \<open>Run without interruption, the four sections are the operation.\<close>

lemma put_sections_sequential:
  "((\<lambda>(pc, M). put_section clk e pc M) ^^ 4) (PStart, L) =
     (PDone (fst (putInEscrow clk e L)), snd (putInEscrow clk e L))"
  by (cases "debit clk (esc_clientPeerId e) (esc_amount e) L";
      cases "fst (debit clk (esc_clientPeerId e) (esc_amount e) L)")
    (auto simp: putInEscrow_def Let_def numeral_eq_Suc)

text \<open>Any thread may run its next section.\<close>

inductive put_race ::
    "(nat \<Rightarrow> nat \<Rightarrow> u64) \<Rightarrow> (nat \<Rightarrow> escrow) \<Rightarrow>
     ledger \<times> (nat \<Rightarrow> put_pc) \<Rightarrow> ledger \<times> (nat \<Rightarrow> put_pc) \<Rightarrow> bool"
  for clk es where
  section_step: "put_section (clk i) (es i) (pcs i) L = (pc, M) \<Longrightarrow>
     put_race clk es (L, pcs) (M, pcs(i := pc))"

inductive_cases put_raceE: "put_race clk es (L, pcs) st"

lemma race_after:
  "(put_race clk es)\<^sup>*\<^sup>* st (L, pcs) \<Longrightarrow> put_section (clk i) (es i) (pcs i) L = (pc, M) \<Longrightarrow>
   (put_race clk es)\<^sup>*\<^sup>* st (M, pcs(i := pc))"
  by (auto intro: rtranclp.rtrancl_into_rtrancl section_step)

text \<open>
  C2. The locks of \<open>putInEscrow\<close> do not make it atomic. When two threads submit valid escrows
  for the same free task id and their clients can pay, there is an interleaving of the code's
  critical sections after which both calls have returned true, the second escrow has replaced
  the first, and the amount debited for the first is no longer in the ledger at all.
\<close>

theorem putInEscrow_race_loses_funds:
  assumes valid: "escrow_isValid (es 0)" "escrow_isValid (es 1)"
      "validatePeerId (esc_clientPeerId (es 0))" "validatePeerId (esc_clientPeerId (es 1))"
    and same: "esc_taskId (es 1) = esc_taskId (es 0)"
    and clients: "esc_clientPeerId (es 1) \<noteq> esc_clientPeerId (es 0)"
    and free: "om_get (escrows L) (esc_taskId (es 0)) = None"
    and pay: "esc_amount (es 0) \<le> getBalance_unsafe (esc_clientPeerId (es 0)) L"
      "esc_amount (es 1) \<le> getBalance_unsafe (esc_clientPeerId (es 1)) L"
  shows "\<exists>M pcs. (put_race clk es)\<^sup>*\<^sup>* (L, \<lambda>_. PStart) (M, pcs) \<and>
    pcs 0 = PDone True \<and> pcs 1 = PDone True \<and>
    funds M + unat (esc_amount (es 0)) = funds L"
proof -
  let ?t = "esc_taskId (es 0)" and ?p = "\<lambda>_ :: nat. PStart"
  let ?e0 = "(es 0)\<lparr>esc_createdAt := clk 0 1\<rparr>" and ?e1 = "(es 1)\<lparr>esc_createdAt := clk 1 1\<rparr>"
  have pos: "0 < esc_amount (es 0)" "0 < esc_amount (es 1)"
    using valid by (simp_all add: escrow_isValid_def)
  obtain L0 where d0: "debit (clk 0) (esc_clientPeerId (es 0)) (esc_amount (es 0)) L = (True, L0)"
    using debit_result [of "clk 0" "esc_clientPeerId (es 0)" "esc_amount (es 0)" L] valid pay pos
    by (metis prod.collapse)
  have "esc_amount (es 1) \<le> getBalance_unsafe (esc_clientPeerId (es 1)) L0"
    using debit_True(6) [OF d0] clients pay by simp
  then obtain L1 where d1: "debit (clk 1) (esc_clientPeerId (es 1)) (esc_amount (es 1)) L0 = (True, L1)"
    using debit_result [of "clk 1" "esc_clientPeerId (es 1)" "esc_amount (es 1)" L0] valid pos
    by (metis prod.collapse)
  let ?M0 = "L1\<lparr>escrows := om_put ?t ?e0 (escrows L1)\<rparr>"
  let ?M1 = "L1\<lparr>escrows := om_put ?t ?e1 (escrows L1)\<rparr>"
  let ?N0 = "emitEvent ESCROW_CREATED (esc_clientPeerId (es 0)) (esc_amount (es 0)) (Some ?t) (clk 0 2) ?M1"
  let ?N1 = "emitEvent ESCROW_CREATED (esc_clientPeerId (es 1)) (esc_amount (es 1)) (Some ?t) (clk 1 2) ?N0"
  note go = race_after [where clk = clk and es = es]
  have "(put_race clk es)\<^sup>*\<^sup>* (L, ?p) (L, ?p(0 := PChecked))"
    by (rule go [OF rtranclp.rtrancl_refl]) (simp add: valid free)
  then have "(put_race clk es)\<^sup>*\<^sup>* (L, ?p) (L, ?p(0 := PChecked, 1 := PChecked))"
    by (rule go) (simp add: valid [unfolded One_nat_def] free same [unfolded One_nat_def])
  then have "(put_race clk es)\<^sup>*\<^sup>* (L, ?p) (L0, ?p(0 := PChecked, 1 := PChecked, 0 := PDebited))"
    by (rule go) (simp add: d0)
  then have "(put_race clk es)\<^sup>*\<^sup>* (L, ?p)
      (L1, ?p(0 := PChecked, 1 := PChecked, 0 := PDebited, 1 := PDebited))"
    by (rule go) (simp add: d1 [unfolded One_nat_def])
  then have "(put_race clk es)\<^sup>*\<^sup>* (L, ?p)
      (?M0, ?p(0 := PChecked, 1 := PChecked, 0 := PDebited, 1 := PDebited, 0 := PStored))"
    by (rule go) simp
  then have "(put_race clk es)\<^sup>*\<^sup>* (L, ?p) (?M1,
      ?p(0 := PChecked, 1 := PChecked, 0 := PDebited, 1 := PDebited, 0 := PStored, 1 := PStored))"
    by (rule go) (simp add: same [unfolded One_nat_def])
  then have "(put_race clk es)\<^sup>*\<^sup>* (L, ?p) (?N0, ?p(0 := PChecked, 1 := PChecked,
      0 := PDebited, 1 := PDebited, 0 := PStored, 1 := PStored, 0 := PDone True))"
    by (rule go) simp
  then have run: "(put_race clk es)\<^sup>*\<^sup>* (L, ?p) (?N1, ?p(0 := PChecked, 1 := PChecked,
      0 := PDebited, 1 := PDebited, 0 := PStored, 1 := PStored, 0 := PDone True, 1 := PDone True))"
    by (rule go) (simp add: same [unfolded One_nat_def])
  have "om_get (escrows L1) ?t = None"
    using free debit_True(3) [OF d0] debit_True(3) [OF d1] by simp
  then have "esc_total ?M1 = esc_total L1 + unat (esc_amount (es 1))"
    using esc_total_put [of L1 ?t ?e1] by simp
  moreover have "esc_total L1 = esc_total L"
    using debit_True(3) [OF d0] debit_True(3) [OF d1] by (simp add: esc_total_def)
  ultimately have "funds ?N1 + unat (esc_amount (es 0)) = funds L"
    using debit_True(4) [OF d0] debit_True(4) [OF d1] by (simp add: funds_def)
  with run show ?thesis by force
qed

definition race_escrows :: "nat \<Rightarrow> escrow" where
  "race_escrows i = \<lparr>esc_taskId = ''job'', esc_clientPeerId = (if i = 0 then ''alice'' else ''bob''),
     esc_amount = 5, esc_locked = False, esc_createdAt = 0\<rparr>"

definition race_ledger :: ledger where
  "race_ledger = foldl ledger_step new_ledger [Credit (\<lambda>_. 0) ''alice'' 7, Credit (\<lambda>_. 0) ''bob'' 8]"

theorem putInEscrow_race_loses_funds_witness:
  "\<exists>M pcs. (put_race (\<lambda>_ _. 0) race_escrows)\<^sup>*\<^sup>* (race_ledger, \<lambda>_. PStart) (M, pcs) \<and>
    pcs 0 = PDone True \<and> pcs 1 = PDone True \<and> funds M + unat (5 :: u64) = funds race_ledger"
  using putInEscrow_race_loses_funds [of race_escrows race_ledger "\<lambda>_ _. 0"]
  by (simp add: race_escrows_def race_ledger_def op_defs new_ledger_def validatePeerId_def
      validateAmount_def escrow_isValid_def getBalance_unsafe_def setBalance_unsafe_def
      emitEvent_def Let_def)

end
