(* ===== verification/Mempool.thy ===== *)
theory Mempool
  imports Prelude
begin

text \<open>
  The transaction queue of the L2 chain: \<open>include/Mempool.h\<close> and \<open>src/l2/Mempool.cpp\<close>. Every
  method holds the one mutex for its whole body, so a method is one step on the state. The two
  deques are lists and the deduplication index is a set of hashes.
\<close>

section \<open>Data and operations\<close>

record transaction =
  tx_hash :: string
  tx_from :: string
  tx_to :: string
  tx_amount :: u64
  tx_data :: string
  tx_timestampMs :: u64
  tx_status :: string
  tx_blockHeight :: u64
  tx_signature :: string
  tx_publicKey :: string

record mempool =
  pendingTransactions :: "transaction list"
  confirmedTransactions :: "transaction list"
  txHashIndex :: "string set"

definition new_mempool :: mempool where
  "new_mempool = \<lparr>pendingTransactions = [], confirmedTransactions = [], txHashIndex = {}\<rparr>"

definition addTransaction :: "transaction \<Rightarrow> mempool \<Rightarrow> bool \<times> mempool" where
  "addTransaction tx m =
     (if tx_hash tx \<in> txHashIndex m then (False, m)
      else (True, m\<lparr>txHashIndex := insert (tx_hash tx) (txHashIndex m),
                    pendingTransactions := pendingTransactions m @ [tx]\<rparr>))"

definition getPendingTransactions :: "nat \<Rightarrow> mempool \<Rightarrow> transaction list" where
  "getPendingTransactions maxCount m =
     (let count = min maxCount (length (pendingTransactions m))
      in map (\<lambda>i. pendingTransactions m ! i) [0..<count])"

text \<open>\<open>std::find_if\<close> by hash, as the element found and the deque without it.\<close>

fun take_tx :: "string \<Rightarrow> transaction list \<Rightarrow> (transaction \<times> transaction list) option" where
  "take_tx h [] = None"
| "take_tx h (t # ts) =
     (if tx_hash t = h then Some (t, ts)
      else case take_tx h ts of None \<Rightarrow> None | Some (u, us) \<Rightarrow> Some (u, t # us))"

definition confirm_one :: "u64 \<Rightarrow> mempool \<Rightarrow> string \<Rightarrow> mempool" where
  "confirm_one height m h =
     (case take_tx h (pendingTransactions m) of
        None \<Rightarrow> m
      | Some (t, rest) \<Rightarrow>
          m\<lparr>confirmedTransactions := confirmedTransactions m @
               [t\<lparr>tx_status := ''confirmed'', tx_blockHeight := height\<rparr>],
            txHashIndex := txHashIndex m - {tx_hash t},
            pendingTransactions := rest\<rparr>)"

definition confirmTransactions :: "string list \<Rightarrow> u64 \<Rightarrow> mempool \<Rightarrow> mempool" where
  "confirmTransactions hs height m =
     (let m1 = foldl (confirm_one height) m hs in
      if length (confirmedTransactions m1) > 1000 then
        m1\<lparr>confirmedTransactions :=
             drop (length (confirmedTransactions m1) - 1000) (confirmedTransactions m1)\<rparr>
      else m1)"

definition getPendingCount :: "mempool \<Rightarrow> nat" where
  "getPendingCount m = length (pendingTransactions m)"

definition getAllTransactions :: "mempool \<Rightarrow> transaction list" where
  "getAllTransactions m = pendingTransactions m @ confirmedTransactions m"

datatype mempool_op = AddTx transaction | ConfirmTxs "string list" u64

fun mempool_step :: "mempool \<Rightarrow> mempool_op \<Rightarrow> mempool" where
  "mempool_step m (AddTx tx) = snd (addTransaction tx m)"
| "mempool_step m (ConfirmTxs hs h) = confirmTransactions hs h m"

section \<open>The index is the set of pending hashes\<close>

definition mempool_inv :: "mempool \<Rightarrow> bool" where
  "mempool_inv m \<longleftrightarrow> distinct (map tx_hash (pendingTransactions m)) \<and>
     txHashIndex m = tx_hash ` set (pendingTransactions m) \<and>
     list_all (\<lambda>t. tx_status t = ''confirmed'') (confirmedTransactions m)"

lemma take_tx_None: "take_tx h ts = None \<longleftrightarrow> h \<notin> tx_hash ` set ts"
  by (induction ts) (auto split: option.splits)

lemma filter_other_hash: "h \<notin> tx_hash ` set ts \<Longrightarrow> filter (\<lambda>u. tx_hash u \<noteq> h) ts = ts"
  by (auto simp: filter_id_conv)

lemma take_tx_Some:
  "take_tx h ts = Some (t, rest) \<Longrightarrow> distinct (map tx_hash ts) \<Longrightarrow>
   tx_hash t = h \<and> t \<in> set ts \<and> rest = filter (\<lambda>u. tx_hash u \<noteq> h) ts"
proof (induction ts arbitrary: rest)
  case (Cons x xs)
  show ?case
  proof (cases "tx_hash x = h")
    case True
    with True Cons.prems show ?thesis by (auto simp: filter_other_hash)
  next
    case False
    with Cons show ?thesis by (auto split: option.splits)
  qed
qed simp

lemma confirm_one_pending:
  "mempool_inv m \<Longrightarrow> pendingTransactions (confirm_one h m x) =
     filter (\<lambda>u. tx_hash u \<noteq> x) (pendingTransactions m)"
  by (auto simp: confirm_one_def mempool_inv_def take_tx_None filter_other_hash
      dest: take_tx_Some split: option.split)

lemma confirm_one_inv: "mempool_inv m \<Longrightarrow> mempool_inv (confirm_one h m x)"
proof (cases "take_tx x (pendingTransactions m)")
  case (Some p)
  assume inv: "mempool_inv m"
  obtain t rest where p: "p = (t, rest)" by (cases p)
  with inv Some have t: "tx_hash t = x" "rest = filter (\<lambda>u. tx_hash u \<noteq> x) (pendingTransactions m)"
    using take_tx_Some by (auto simp: mempool_inv_def)
  with inv Some p show ?thesis
    by (auto simp: confirm_one_def mempool_inv_def distinct_map_filter)
qed (simp add: confirm_one_def)

lemma confirm_fold_inv: "mempool_inv m \<Longrightarrow> mempool_inv (foldl (confirm_one h) m hs)"
  by (induction hs arbitrary: m) (auto simp: confirm_one_inv)

lemma mempool_inv_step: "mempool_inv m \<Longrightarrow> mempool_inv (mempool_step m x)"
proof (cases x)
  case (ConfirmTxs hs h)
  assume "mempool_inv m"
  then have "mempool_inv (foldl (confirm_one h) m hs)" by (rule confirm_fold_inv)
  then show ?thesis
    by (auto simp: ConfirmTxs confirmTransactions_def mempool_inv_def Let_def list_all_iff
        dest: in_set_dropD)
qed (auto simp: addTransaction_def mempool_inv_def)

interpretation mempool_run: component mempool_step mempool_inv
  by unfold_locales (rule mempool_inv_step)

lemma mempool_inv_new: "mempool_inv new_mempool"
  by (simp add: mempool_inv_def new_mempool_def)

text \<open>
  After any sequence of additions and confirmations the pending hashes are distinct, the
  deduplication index is exactly their set, everything in the confirmed queue has status
  confirmed, and a further confirmation leaves at most 1000 confirmed transactions.
\<close>

theorem mempool_reachable_inv:
  "mempool_inv (foldl mempool_step new_mempool ops) \<and>
   length (confirmedTransactions (confirmTransactions hs h (foldl mempool_step new_mempool ops))) \<le> 1000"
  using mempool_run.run_inv [OF mempool_inv_new, of ops]
  by (simp add: confirmTransactions_def Let_def)

section \<open>What a confirmation moves\<close>

text \<open>The first occurrences of a list, in order.\<close>

primrec first_occs :: "'a list \<Rightarrow> 'a list" where
  "first_occs [] = []"
| "first_occs (x # xs) = x # filter (\<lambda>y. y \<noteq> x) (first_occs xs)"

abbreviation lookup_tx :: "transaction list \<Rightarrow> string \<Rightarrow> transaction option" where
  "lookup_tx ts h \<equiv> find (\<lambda>t. tx_hash t = h) ts"

abbreviation mark_confirmed :: "u64 \<Rightarrow> transaction \<Rightarrow> transaction" where
  "mark_confirmed h t \<equiv> t\<lparr>tx_status := ''confirmed'', tx_blockHeight := h\<rparr>"

definition last_n :: "nat \<Rightarrow> 'a list \<Rightarrow> 'a list" where
  "last_n n xs = drop (length xs - n) xs"

lemma last_in_last_n: "0 < n \<Longrightarrow> x \<in> set (last_n n (xs @ [x]))"
  by (simp add: last_n_def)

lemma take_tx_lookup: "map_option fst (take_tx h ts) = lookup_tx ts h"
  by (induction ts) (auto split: option.splits)

lemma lookup_filter:
  "lookup_tx (filter (\<lambda>u. tx_hash u \<noteq> h) ts) x = (if x = h then None else lookup_tx ts x)"
  by (induction ts) auto

lemma map_filter_other:
  "List.map_filter (lookup_tx (filter (\<lambda>u. tx_hash u \<noteq> h) ts)) xs =
   List.map_filter (lookup_tx ts) (filter (\<lambda>y. y \<noteq> h) xs)"
  by (induction xs) (auto simp: map_filter_simps lookup_filter split: option.splits)

lemma confirm_one_confirmed:
  "confirmedTransactions (confirm_one h m x) = confirmedTransactions m @
     (case lookup_tx (pendingTransactions m) x of None \<Rightarrow> [] | Some t \<Rightarrow> [mark_confirmed h t])"
  by (simp add: confirm_one_def take_tx_lookup [symmetric] split: option.split)

lemma confirm_fold:
  "mempool_inv m \<Longrightarrow>
   pendingTransactions (foldl (confirm_one h) m hs) =
     filter (\<lambda>t. tx_hash t \<notin> set hs) (pendingTransactions m) \<and>
   confirmedTransactions (foldl (confirm_one h) m hs) = confirmedTransactions m @
     map (mark_confirmed h) (List.map_filter (lookup_tx (pendingTransactions m)) (first_occs hs))"
proof (induction hs arbitrary: m)
  case Nil
  then show ?case by (simp add: map_filter_simps)
next
  case (Cons x xs)
  have "mempool_inv (confirm_one h m x)" using Cons.prems by (rule confirm_one_inv)
  from Cons.IH [OF this] Cons.prems show ?case
    by (simp add: confirm_one_pending confirm_one_confirmed map_filter_other map_filter_simps
        conj_commute split: option.split)
qed

lemma confirm_effect:
  assumes "mempool_inv m"
  shows "pendingTransactions (confirmTransactions hs h m) =
      filter (\<lambda>t. tx_hash t \<notin> set hs) (pendingTransactions m) \<and>
    confirmedTransactions (confirmTransactions hs h m) =
      last_n 1000 (confirmedTransactions m @
        map (mark_confirmed h) (List.map_filter (lookup_tx (pendingTransactions m)) (first_occs hs)))"
  using confirm_fold [OF assms, of h hs]
  by (simp add: confirmTransactions_def Let_def last_n_def)

text \<open>
  C3. The quadratic search of \<open>confirmTransactions\<close> does what its contract says: the named
  pending transactions, in the order of their first mention, are marked with the block height
  and appended to the confirmed queue, of which the last 1000 are kept; exactly the others stay
  pending, in order. Unknown and repeated hashes have no effect.
\<close>

theorem confirmTransactions_spec:
  assumes "mempool_inv m"
  shows "pendingTransactions (confirmTransactions hs h m) =
      filter (\<lambda>t. tx_hash t \<notin> set hs) (pendingTransactions m) \<and>
    confirmedTransactions (confirmTransactions hs h m) =
      last_n 1000 (confirmedTransactions m @
        map (mark_confirmed h) (List.map_filter (lookup_tx (pendingTransactions m)) (first_occs hs)))"
  using assms by (rule confirm_effect)

definition demo_tx :: "string \<Rightarrow> transaction" where
  "demo_tx h = \<lparr>tx_hash = h, tx_from = ''a'', tx_to = ''b'', tx_amount = 1, tx_data = [],
     tx_timestampMs = 0, tx_status = ''pending'', tx_blockHeight = 0, tx_signature = [],
     tx_publicKey = []\<rparr>"

definition demo_pool :: mempool where
  "demo_pool = \<lparr>pendingTransactions = [demo_tx ''p'', demo_tx ''q''], confirmedTransactions = [],
     txHashIndex = {''p'', ''q''}\<rparr>"

lemma demo_pool_inv: "mempool_inv demo_pool"
  by (simp add: demo_pool_def mempool_inv_def demo_tx_def)

theorem confirmTransactions_spec_witness:
  "pendingTransactions (confirmTransactions [''q'', ''x'', ''q''] 9 demo_pool) = [demo_tx ''p'']"
  using confirmTransactions_spec [OF demo_pool_inv, of "[''q'', ''x'', ''q'']" 9]
  by (simp add: demo_pool_def demo_tx_def)

text \<open>
  Deduplication only covers pending transactions: once a transaction is confirmed, the same
  transaction is accepted again and is then both confirmed and pending.
\<close>

theorem confirmed_tx_accepted_again:
  assumes "mempool_inv m" "tx \<in> set (pendingTransactions m)"
  shows "let m1 = confirmTransactions [tx_hash tx] h m; (ok, m2) = addTransaction tx m1 in
    ok \<and> tx \<in> set (pendingTransactions m2) \<and>
    mark_confirmed h tx \<in> set (confirmedTransactions m2)"
proof -
  obtain t where t: "lookup_tx (pendingTransactions m) (tx_hash tx) = Some t"
    using assms(2) by (cases "lookup_tx (pendingTransactions m) (tx_hash tx)") (auto simp: find_None_iff)
  then have "t = tx"
    using assms by (auto simp: find_Some_iff mempool_inv_def distinct_conv_nth in_set_conv_nth)
  moreover have "mempool_inv (confirmTransactions [tx_hash tx] h m)"
    using mempool_inv_step [OF assms(1), of "ConfirmTxs [tx_hash tx] h"] by simp
  ultimately show ?thesis
    using confirm_effect [OF assms(1), of "[tx_hash tx]" h] t
    by (auto simp: addTransaction_def mempool_inv_def map_filter_simps Let_def last_in_last_n)
qed

theorem confirmed_tx_accepted_again_witness:
  "fst (addTransaction (demo_tx ''p'') (confirmTransactions [''p''] 9 demo_pool))"
  using confirmed_tx_accepted_again [OF demo_pool_inv, of "demo_tx ''p''" 9]
  by (simp add: demo_pool_def demo_tx_def Let_def case_prod_unfold)

end
