(* ===== verification/Codec.thy ===== *)
theory Codec
  imports Prelude
begin

text \<open>
  Byte images. The code writes integers and trivially copyable structs with \<open>memcpy\<close> on a
  little-endian machine, appends vectors behind a 64-bit count, and reads all of it back
  through a bounds-checked cursor. Here are those images, the cursor as a function from the
  unread bytes to a value and the rest, and the locale \<open>codec\<close>: an encoder and a decoder that
  undo each other, from which count-prefixed vectors of the same kind of item inherit the law.
\<close>

section \<open>Little-endian words\<close>

primrec le_bytes :: "nat \<Rightarrow> 'a::len word \<Rightarrow> bytes" where
  "le_bytes 0 w = []"
| "le_bytes (Suc n) w = ucast w # le_bytes n (drop_bit 8 w)"

primrec le_word :: "bytes \<Rightarrow> 'a::len word" where
  "le_word [] = 0"
| "le_word (b # bs) = or (ucast b) (push_bit 8 (le_word bs))"

lemma length_le_bytes [simp]: "length (le_bytes n w) = n"
  by (induction n arbitrary: w) auto

lemma le_bytes_Nil [simp]: "le_bytes n w = [] \<longleftrightarrow> n = 0"
  by (cases n) auto

lemma le_word_le_bytes: "le_word (le_bytes n w) = take_bit (8 * n) w"
proof (induction n arbitrary: w)
  case (Suc n)
  show ?case
    by (rule bit_word_eqI) (auto simp: Suc bit_simps)
qed simp

lemma le_word_full: "LENGTH('a) \<le> 8 * n \<Longrightarrow> le_word (le_bytes n (w :: 'a::len word)) = w"
  by (simp add: le_word_le_bytes take_bit_word_eq_self)

lemma le_word_64 [simp]: "le_word (le_bytes 8 (w :: u64)) = w"
  by (rule le_word_full) simp

lemma le_word_32 [simp]: "le_word (le_bytes 4 (w :: u32)) = w"
  by (rule le_word_full) simp

lemma le_bytes_le_word:
  "8 * length bs \<le> LENGTH('a) \<Longrightarrow> le_bytes (length bs) (le_word bs :: 'a::len word) = bs"
proof (induction bs)
  case (Cons b bs)
  have "ucast (le_word (b # bs) :: 'a word) = b"
    using Cons.prems by (intro bit_word_eqI) (auto simp: bit_simps)
  moreover have "drop_bit 8 (le_word (b # bs) :: 'a word) = take_bit (LENGTH('a) - 8) (le_word bs)"
    by (intro bit_word_eqI) (auto simp: bit_simps dest: bit_imp_le_length)
  moreover have "take_bit (LENGTH('a) - 8) (le_word bs) = (le_word bs :: 'a word)"
  proof -
    have "take_bit (8 * length bs) (le_word bs) = (le_word bs :: 'a word)"
      using le_word_le_bytes [of "length bs" "le_word bs :: 'a word"] Cons by simp
    then show ?thesis
      using Cons.prems by (metis (no_types, lifting) add_le_imp_le_diff length_Cons min.absorb2
          mult_Suc_right add.commute take_bit_take_bit)
  qed
  ultimately show ?case using Cons by simp
qed simp

lemma le_word_inj:
  "length bs = n \<Longrightarrow> length cs = n \<Longrightarrow> 8 * n \<le> LENGTH('a) \<Longrightarrow>
   (le_word bs :: 'a::len word) = le_word cs \<longleftrightarrow> bs = cs"
  by (metis le_bytes_le_word)

section \<open>Reading\<close>

text \<open>\<open>read_bytes\<close>: the only way a reader moves its cursor.\<close>

definition read_bytes :: "nat \<Rightarrow> bytes \<Rightarrow> string + bytes \<times> bytes" where
  "read_bytes n bs =
     (if length bs < n then Inl ''Buffer underflow during deserialize''
      else Inr (take n bs, drop n bs))"

definition bindE :: "'e + 'a \<Rightarrow> ('a \<Rightarrow> 'e + 'b) \<Rightarrow> 'e + 'b" where
  "bindE m f = (case m of Inl e \<Rightarrow> Inl e | Inr x \<Rightarrow> f x)"

lemma bindE_simps [simp]: "bindE (Inl e) f = Inl e" "bindE (Inr x) f = f x"
  by (simp_all add: bindE_def)

lemma bindE_Inr: "bindE m f = Inr y \<longleftrightarrow> (\<exists>x. m = Inr x \<and> f x = Inr y)"
  by (cases m) auto

definition read_u64 :: "bytes \<Rightarrow> string + u64 \<times> bytes" where
  "read_u64 bs = bindE (read_bytes 8 bs) (\<lambda>(v, r). Inr (le_word v, r))"

definition write_u64 :: "u64 \<Rightarrow> bytes" where
  "write_u64 w = le_bytes 8 w"

lemma read_bytes_append [simp]:
  "length xs = n \<Longrightarrow> read_bytes n (xs @ r) = Inr (xs, r)"
  by (auto simp: read_bytes_def)

lemma read_u64_write [simp]: "read_u64 (write_u64 w @ r) = Inr (w, r)"
  by (simp add: read_u64_def write_u64_def)

lemma length_write_u64 [simp]: "length (write_u64 w) = 8"
  by (simp add: write_u64_def)

section \<open>Codecs\<close>

fun read_n :: "(bytes \<Rightarrow> string + 'a \<times> bytes) \<Rightarrow> nat \<Rightarrow> bytes \<Rightarrow> string + 'a list \<times> bytes" where
  "read_n rd 0 bs = Inr ([], bs)"
| "read_n rd (Suc n) bs =
     bindE (rd bs) (\<lambda>(x, r). bindE (read_n rd n r) (\<lambda>(xs, r'). Inr (x # xs, r')))"

text \<open>A vector behind its 64-bit count.\<close>

definition write_vec :: "('a \<Rightarrow> bytes) \<Rightarrow> 'a list \<Rightarrow> bytes" where
  "write_vec wr xs = write_u64 (of_nat (length xs)) @ concat (map wr xs)"

definition read_vec :: "(bytes \<Rightarrow> string + 'a \<times> bytes) \<Rightarrow> bytes \<Rightarrow> string + 'a list \<times> bytes" where
  "read_vec rd bs = bindE (read_u64 bs) (\<lambda>(n, r). read_n rd (unat n) r)"

locale codec =
  fixes wr :: "'a \<Rightarrow> bytes"
    and rd :: "bytes \<Rightarrow> string + 'a \<times> bytes"
    and wf :: "'a \<Rightarrow> bool"
  assumes read_write: "wf x \<Longrightarrow> rd (wr x @ r) = Inr (x, r)"
begin

lemma read_n_write: "list_all wf xs \<Longrightarrow> read_n rd (length xs) (concat (map wr xs) @ r) = Inr (xs, r)"
  by (induction xs) (auto simp: read_write)

lemma read_vec_write:
  assumes "list_all wf xs" "length xs < 2 ^ 64"
  shows "read_vec rd (write_vec wr xs @ r) = Inr (xs, r)"
  using assms read_n_write [of xs r]
  by (simp add: read_vec_def write_vec_def unsigned_of_nat take_bit_nat_eq_self)

lemma write_inj: "wf x \<Longrightarrow> wf y \<Longrightarrow> wr x = wr y \<Longrightarrow> x = y"
  using read_write [of x "[]"] read_write [of y "[]"] by simp

end

interpretation u64: codec write_u64 read_u64 "\<lambda>_. True"
  by unfold_locales simp

text \<open>A struct without pointers, copied as its fixed number of bytes.\<close>

interpretation blob: codec "\<lambda>b. b" "read_bytes n" "\<lambda>b. length b = n" for n
  by unfold_locales simp

end
