(* ===== verification/Hex.thy ===== *)
theory Hex
  imports Codec
begin

text \<open>
  Strings and bytes: the bytes of a \<open>std::string\<close>, the two-digit hexadecimal printing that the
  code does with \<open>snprintf("%02x")\<close> or a digit table, and the two-character parsing it does with
  \<open>strtol(substr, nullptr, 16)\<close>. The hash function is a parameter everywhere.
\<close>

definition str_bytes :: "string \<Rightarrow> bytes" where
  "str_bytes s = map of_char s"

definition hex_digit :: "u8 \<Rightarrow> char" where
  "hex_digit n = ''0123456789abcdef'' ! unat n"

definition hex_byte :: "u8 \<Rightarrow> string" where
  "hex_byte b = [hex_digit (drop_bit 4 b), hex_digit (and b 0x0f)]"

definition hex_of :: "bytes \<Rightarrow> string" where
  "hex_of bs = concat (map hex_byte bs)"

text \<open>\<open>ailee::zk::sha256Hex\<close>, for a given hash function.\<close>

definition sha256Hex :: "(bytes \<Rightarrow> bytes) \<Rightarrow> string \<Rightarrow> string" where
  "sha256Hex sha s = hex_of (sha (str_bytes s))"

text \<open>
  \<open>strtol\<close> in base 16: white space, a sign, then digits up to the first other character. The
  optional prefix 0x needs a third character to matter and the code passes at most two.
\<close>

definition hex_val :: "char \<Rightarrow> nat option" where
  "hex_val c =
     (let n = (of_char c :: nat) in
      if 48 \<le> n \<and> n \<le> 57 then Some (n - 48)
      else if 97 \<le> n \<and> n \<le> 102 then Some (n - 87)
      else if 65 \<le> n \<and> n \<le> 70 then Some (n - 55)
      else None)"

fun hex_digits :: "nat \<Rightarrow> string \<Rightarrow> nat" where
  "hex_digits acc [] = acc"
| "hex_digits acc (c # cs) =
     (case hex_val c of Some d \<Rightarrow> hex_digits (16 * acc + d) cs | None \<Rightarrow> acc)"

definition is_space :: "char \<Rightarrow> bool" where
  "is_space c = (let n = (of_char c :: nat) in n = 32 \<or> (9 \<le> n \<and> n \<le> 13))"

definition strtol16 :: "string \<Rightarrow> int" where
  "strtol16 s =
     (case dropWhile is_space s of
        [] \<Rightarrow> 0
      | c # cs \<Rightarrow>
          if c = CHR ''-'' then - int (hex_digits 0 cs)
          else if c = CHR ''+'' then int (hex_digits 0 cs)
          else int (hex_digits 0 (c # cs)))"

text \<open>The decoding loop over pairs of characters (a last single character counts as a pair).\<close>

fun hex_decode :: "string \<Rightarrow> bytes" where
  "hex_decode [] = []"
| "hex_decode [c] = [of_int (strtol16 [c])]"
| "hex_decode (c # d # cs) = of_int (strtol16 [c, d]) # hex_decode cs"

lemma digit_table:
  "\<forall>n \<in> set [0..<16]. let c = ''0123456789abcdef'' ! n in
     hex_val c = Some n \<and> \<not> is_space c \<and> c \<noteq> CHR ''-'' \<and> c \<noteq> CHR ''+''"
  by code_simp

lemma hex_digit_ok:
  "unat n < 16 \<Longrightarrow> hex_val (hex_digit n) = Some (unat n) \<and> \<not> is_space (hex_digit n) \<and>
     hex_digit n \<noteq> CHR ''-'' \<and> hex_digit n \<noteq> CHR ''+''"
  using bspec [OF digit_table, of "unat n"] by (simp add: hex_digit_def Let_def)

lemma strtol_hex_byte: "of_int (strtol16 (hex_byte b)) = b"
proof -
  have h: "unat (drop_bit 4 b) = unat b div 16"
    by (rule trans [OF unat_drop_bit_eq]) (simp add: drop_bit_eq_div)
  have l: "unat (and b 0x0f) = unat b mod 16"
    using take_bit_eq_mask [of 4 "unat b"]
    by (simp add: unsigned_and_eq take_bit_eq_mod mask_eq_exp_minus_1)
  have "unat (drop_bit 4 b) < 16" "unat (and b 0x0f) < 16"
    unfolding h l using unat_bound [of b] by auto
  then have "strtol16 (hex_byte b) = int (16 * unat (drop_bit 4 b) + unat (and b 0x0f))"
    by (simp add: strtol16_def hex_byte_def hex_digit_ok del: of_nat_add of_nat_mult)
  also have "16 * unat (drop_bit 4 b) + unat (and b 0x0f) = unat b"
    unfolding h l by simp
  finally show ?thesis by simp
qed

lemma hex_decode_hex_of: "hex_decode (hex_of bs) = bs"
proof (induction bs)
  case (Cons b bs)
  with strtol_hex_byte [of b] show ?case by (simp add: hex_of_def hex_byte_def)
qed (simp add: hex_of_def)

lemma length_hex_of [simp]: "length (hex_of bs) = 2 * length bs"
  by (induction bs) (auto simp: hex_of_def hex_byte_def)

lemma hex_of_inj: "hex_of a = hex_of b \<longleftrightarrow> a = b"
  by (metis hex_decode_hex_of)

lemma of_char_u8_inj: "(of_char c :: u8) = of_char d \<longleftrightarrow> c = d"
proof
  assume "(of_char c :: u8) = of_char d"
  then have "unat (of_nat (of_char c) :: u8) = unat (of_nat (of_char d) :: u8)"
    by (simp add: of_nat_of_char)
  then have "(of_char c :: nat) = of_char d"
    using nat_of_char_less_256 [of c] nat_of_char_less_256 [of d]
    by (simp only: unsigned_of_nat) (simp add: take_bit_nat_eq_self del: of_nat_of_char)
  then show "c = d" by (simp add: of_char_eq_iff)
qed simp

lemma str_bytes_inj: "str_bytes s = str_bytes t \<longleftrightarrow> s = t"
  unfolding str_bytes_def by (rule inj_map_eq_map) (simp add: inj_on_def of_char_u8_inj)

end
