(* ===== verification/Secp.thy ===== *)
theory Secp
  imports Hex
begin

text \<open>
  The secp256k1 library as the code calls it. It is not part of the repository: each record field
  is one call, parsing with None for a rejected input. No law about signatures is assumed.
\<close>

record ('pk, 'sg) secp =
  secp_context :: bool
  secp_pubkey_parse :: "bytes \<Rightarrow> 'pk option"
  secp_parse_compact :: "bytes \<Rightarrow> 'sg option"
  secp_parse_der :: "bytes \<Rightarrow> 'sg option"
  secp_normalize :: "'sg \<Rightarrow> 'sg"
  secp_verify :: "'sg \<Rightarrow> bytes \<Rightarrow> 'pk \<Rightarrow> bool"

end
