(* ===== verification/BlockProducer.thy ===== *)
theory BlockProducer
  imports Mempool Secp
begin

text \<open>
  Block production on the L2 chain: \<open>include/BlockProducer.h\<close> and \<open>src/l2/BlockProducer.cpp\<close>.
  One turn of the producer thread is \<open>produceBlock\<close> followed by \<open>checkAnchorCommitment\<close>; each
  holds the producer's mutex and calls the mempool, so a turn is a step on the pair of the
  producer and the pool it points to. The secp256k1 calls are the fields of the parameter
  \<open>secp\<close>. Log lines, and the reorganisation history that is read only to be logged, are left out.
\<close>

section \<open>Signature check\<close>

definition is_hex_char :: "char \<Rightarrow> bool" where
  "is_hex_char c \<longleftrightarrow> hex_val c \<noteq> None"

fun hex_pairs :: "string \<Rightarrow> bytes" where
  "hex_pairs (c # d # cs) = of_nat (hex_digits 0 [c, d]) # hex_pairs cs"
| "hex_pairs _ = []"

definition hexToBytes :: "string \<Rightarrow> bytes" where
  "hexToBytes hex =
     (if length hex mod 2 \<noteq> 0 then []
      else if \<not> list_all is_hex_char hex then []
      else hex_pairs hex)"

definition verifyTxSignature :: "('pk, 'sg) secp \<Rightarrow> string \<Rightarrow> string \<Rightarrow> string \<Rightarrow> bool" where
  "verifyTxSignature S txHashHex pubkeyHex sigHex =
     (let msgBytes = hexToBytes txHashHex; pubBytes = hexToBytes pubkeyHex;
          sigBytes = hexToBytes sigHex in
      if length msgBytes \<noteq> 32 \<or> pubBytes = [] \<or> sigBytes = [] then False
      else if \<not> secp_context S then False
      else case secp_pubkey_parse S pubBytes of
        None \<Rightarrow> False
      | Some pubkey \<Rightarrow>
          (case (if length sigBytes = 64 then secp_parse_compact S sigBytes
                 else secp_parse_der S sigBytes) of
             None \<Rightarrow> False
           | Some sg \<Rightarrow> secp_verify S (secp_normalize S sg) msgBytes pubkey))"

section \<open>The producer\<close>

record bp_config =
  blockIntervalMs :: u64
  commitmentInterval :: u64
  maxTransactionsPerBlock :: u64

definition default_bp_config :: bp_config where
  "default_bp_config = \<lparr>blockIntervalMs = 1000, commitmentInterval = 100,
     maxTransactionsPerBlock = 1000\<rparr>"

record bp_state =
  bs_blockHeight :: u64
  bs_totalTransactions :: u64
  bs_lastAnchorHeight :: u64
  bs_lastBlockTimestampMs :: u64
  bs_pendingTransactions :: u64

record block_producer =
  bp_config :: bp_config
  bp_state :: bp_state
  bp_running :: bool
  bp_rejectedTxs :: "string set"

definition new_producer :: "bp_config \<Rightarrow> block_producer" where
  "new_producer cfg = \<lparr>bp_config = cfg,
     bp_state = \<lparr>bs_blockHeight = 0, bs_totalTransactions = 0, bs_lastAnchorHeight = 0,
       bs_lastBlockTimestampMs = 0, bs_pendingTransactions = 0\<rparr>,
     bp_running = False, bp_rejectedTxs = {}\<rparr>"

text \<open>\<open>start\<close> and \<open>stop\<close>: the flag the thread's loop reads. The thread is the sequence of turns.\<close>

definition start_producer :: "block_producer \<Rightarrow> block_producer" where
  "start_producer b = (if bp_running b then b else b\<lparr>bp_running := True\<rparr>)"

definition stop_producer :: "block_producer \<Rightarrow> block_producer" where
  "stop_producer b = (if \<not> bp_running b then b else b\<lparr>bp_running := False\<rparr>)"

text \<open>The pool is \<open>None\<close> while no mempool has been attached (a null pointer in the code).\<close>

definition getState :: "block_producer \<Rightarrow> mempool option \<Rightarrow> bp_state" where
  "getState b pool =
     (case pool of None \<Rightarrow> bp_state b
      | Some m \<Rightarrow> (bp_state b)\<lparr>bs_pendingTransactions := of_nat (getPendingCount m)\<rparr>)"

definition recordTransaction :: "block_producer \<Rightarrow> block_producer" where
  "recordTransaction b =
     b\<lparr>bp_state := (bp_state b)\<lparr>bs_totalTransactions := bs_totalTransactions (bp_state b) + 1\<rparr>\<rparr>"

text \<open>The public key a signature is checked against: the transaction's own, if it carries one.\<close>

definition pubKeyToVerify :: "transaction \<Rightarrow> string" where
  "pubKeyToVerify tx = (if tx_publicKey tx = [] then tx_from tx else tx_publicKey tx)"

text \<open>The validation loop: the rejected hashes and the valid hashes so far.\<close>

fun screen_txs ::
    "('pk, 'sg) secp \<Rightarrow> string set \<Rightarrow> string list \<Rightarrow> transaction list \<Rightarrow> string set \<times> string list" where
  "screen_txs S rej valid [] = (rej, valid)"
| "screen_txs S rej valid (tx # txs) =
     (if tx_hash tx \<in> rej then screen_txs S rej valid txs
      else if length (tx_hash tx) \<noteq> 64 \<or> \<not> list_all is_hex_char (tx_hash tx) then
        screen_txs S (insert (tx_hash tx) rej) valid txs
      else if tx_from tx = [] \<or> tx_to tx = [] then
        screen_txs S (insert (tx_hash tx) rej) valid txs
      else if tx_signature tx = [] then
        screen_txs S (insert (tx_hash tx) rej) valid txs
      else if \<not> verifyTxSignature S (tx_hash tx) (pubKeyToVerify tx) (tx_signature tx) then
        screen_txs S (insert (tx_hash tx) rej) valid txs
      else screen_txs S rej (valid @ [tx_hash tx]) txs)"

definition produceBlock ::
    "('pk, 'sg) secp \<Rightarrow> block_producer \<Rightarrow> mempool option \<Rightarrow> block_producer \<times> mempool option" where
  "produceBlock S b pool =
     (let h = bs_blockHeight (bp_state b) + 1;
          st = (bp_state b)\<lparr>bs_blockHeight := h,
                            bs_lastBlockTimestampMs := h * blockIntervalMs (bp_config b)\<rparr>;
          b1 = b\<lparr>bp_state := st\<rparr> in
      case pool of
        None \<Rightarrow> (b1, None)
      | Some m \<Rightarrow>
          (let txs = getPendingTransactions (unat (maxTransactionsPerBlock (bp_config b))) m in
           if txs = [] then (b1, Some m)
           else
             (let (rej, valid) = screen_txs S (bp_rejectedTxs b) [] txs;
                  b2 = b1\<lparr>bp_rejectedTxs := rej\<rparr> in
              if valid = [] then (b2, Some m)
              else (b2\<lparr>bp_state := st\<lparr>bs_totalTransactions :=
                        bs_totalTransactions st + of_nat (length valid)\<rparr>\<rparr>,
                    Some (confirmTransactions valid h m)))))"

definition checkAnchorCommitment :: "block_producer \<Rightarrow> block_producer" where
  "checkAnchorCommitment b =
     (let st = bp_state b; blocksSinceAnchor = bs_blockHeight st - bs_lastAnchorHeight st in
      if commitmentInterval (bp_config b) \<le> blocksSinceAnchor
      then b\<lparr>bp_state := st\<lparr>bs_lastAnchorHeight := bs_blockHeight st\<rparr>\<rparr> else b)"

text \<open>One turn of \<open>blockProductionLoop\<close>.\<close>

definition production_turn ::
    "('pk, 'sg) secp \<Rightarrow> block_producer \<Rightarrow> mempool option \<Rightarrow> block_producer \<times> mempool option" where
  "production_turn S b pool =
     (let (b1, pool1) = produceBlock S b pool in (checkAnchorCommitment b1, pool1))"

datatype chain_op = SubmitTx transaction | ProductionTurn | RecordTx

fun chain_step ::
    "('pk, 'sg) secp \<Rightarrow> block_producer \<times> mempool \<Rightarrow> chain_op \<Rightarrow> block_producer \<times> mempool" where
  "chain_step S (b, m) (SubmitTx tx) = (b, snd (addTransaction tx m))"
| "chain_step S (b, m) ProductionTurn =
     (case production_turn S b (Some m) of
        (b1, Some m1) \<Rightarrow> (b1, m1)
      | (b1, None) \<Rightarrow> (b1, m))"
| "chain_step S (b, m) RecordTx = (recordTransaction b, m)"

end
