(* ===== verification/BlockProducer_Props.thy ===== *)
theory BlockProducer_Props
  imports BlockProducer
begin

text \<open>
  The block producer over its runs: what a turn confirms, the clock and the anchors of the chain,
  and three ways in which the queue, the rejected hashes and the signatures let a submitter
  interfere with other people's transactions.
\<close>

section \<open>The validation loop as a filter\<close>

definition well_signed :: "('pk, 'sg) secp \<Rightarrow> transaction \<Rightarrow> bool" where
  "well_signed S tx \<longleftrightarrow>
     length (tx_hash tx) = 64 \<and> list_all is_hex_char (tx_hash tx) \<and>
     tx_from tx \<noteq> [] \<and> tx_to tx \<noteq> [] \<and> tx_signature tx \<noteq> [] \<and>
     verifyTxSignature S (tx_hash tx) (pubKeyToVerify tx) (tx_signature tx)"

lemma screen_txs_eq:
  "distinct (map tx_hash txs) \<Longrightarrow> screen_txs S rej valid txs =
     (rej \<union> tx_hash ` {t \<in> set txs. \<not> well_signed S t},
      valid @ map tx_hash (filter (\<lambda>t. tx_hash t \<notin> rej \<and> well_signed S t) txs))"
proof (induction txs arbitrary: rej valid)
  case (Cons tx txs)
  have skip: "filter (\<lambda>t. tx_hash t \<noteq> tx_hash tx \<and> tx_hash t \<notin> rej \<and> well_signed S t) txs =
      filter (\<lambda>t. tx_hash t \<notin> rej \<and> well_signed S t) txs"
    using Cons.prems by (intro filter_cong) (auto simp: image_iff)
  have "screen_txs S rej valid (tx # txs) =
      (if tx_hash tx \<in> rej then screen_txs S rej valid txs
       else if \<not> well_signed S tx then screen_txs S (insert (tx_hash tx) rej) valid txs
       else screen_txs S rej (valid @ [tx_hash tx]) txs)"
    by (auto simp: well_signed_def)
  with Cons skip show ?case by auto
qed simp

lemma pending_take: "getPendingTransactions n m = take n (pendingTransactions m)"
  by (auto simp: getPendingTransactions_def Let_def intro: nth_equalityI)

lemma lookup_own:
  "distinct (map tx_hash ts) \<Longrightarrow> t \<in> set ts \<Longrightarrow> lookup_tx ts (tx_hash t) = Some t"
  by (induction ts) (auto simp: rev_image_eqI)

lemma first_occs_distinct: "distinct xs \<Longrightarrow> first_occs xs = xs"
  by (induction xs) (auto simp: filter_id_conv)

lemma confirmed_own:
  assumes "distinct (map tx_hash ts)" "set xs \<subseteq> set ts" "distinct (map tx_hash xs)"
  shows "List.map_filter (lookup_tx ts) (first_occs (map tx_hash xs)) = xs"
proof -
  have "List.map_filter (lookup_tx ts) (map tx_hash xs) = xs"
    using assms(2) by (induction xs) (auto simp: map_filter_simps lookup_own [OF assms(1)])
  then show ?thesis by (simp add: first_occs_distinct assms(3))
qed

text \<open>The transactions that the next block takes.\<close>

definition block_txs :: "('pk, 'sg) secp \<Rightarrow> block_producer \<Rightarrow> mempool \<Rightarrow> transaction list" where
  "block_txs S b m = filter (\<lambda>t. tx_hash t \<notin> bp_rejectedTxs b \<and> well_signed S t)
     (take (unat (maxTransactionsPerBlock (bp_config b))) (pendingTransactions m))"

lemma screen_pending:
  assumes "mempool_inv m"
  shows "screen_txs S rej [] (getPendingTransactions n m) =
    (rej \<union> tx_hash ` {t \<in> set (take n (pendingTransactions m)). \<not> well_signed S t},
     map tx_hash (filter (\<lambda>t. tx_hash t \<notin> rej \<and> well_signed S t) (take n (pendingTransactions m))))"
proof -
  have "distinct (map tx_hash (take n (pendingTransactions m)))"
    using assms by (simp add: mempool_inv_def flip: take_map)
  then show ?thesis by (simp add: screen_txs_eq pending_take)
qed

lemma produce_state:
  assumes "mempool_inv m" "produceBlock S b (Some m) = (b', Some m')"
  shows "bp_rejectedTxs b' = bp_rejectedTxs b \<union> tx_hash ` {t \<in> set
      (take (unat (maxTransactionsPerBlock (bp_config b))) (pendingTransactions m)). \<not> well_signed S t}"
    and "bp_config b' = bp_config b"
    and "bs_blockHeight (bp_state b') = bs_blockHeight (bp_state b) + 1"
    and "bs_lastBlockTimestampMs (bp_state b') = (bs_blockHeight (bp_state b) + 1) * blockIntervalMs (bp_config b)"
    and "bs_lastAnchorHeight (bp_state b') = bs_lastAnchorHeight (bp_state b)"
    and "bs_totalTransactions (bp_state b') = bs_totalTransactions (bp_state b) + of_nat (length (block_txs S b m))"
  using assms(2) screen_pending [OF assms(1), of S "bp_rejectedTxs b"]
  by (auto simp: produceBlock_def Let_def pending_take block_txs_def split: if_splits)

lemma produce_pool:
  assumes "mempool_inv m" "produceBlock S b (Some m) = (b', Some m')"
  shows "mempool_inv m'"
    and "pendingTransactions m' = filter (\<lambda>t. t \<notin> set (block_txs S b m)) (pendingTransactions m)"
    and "block_txs S b m = [] \<Longrightarrow> m' = m"
    and "block_txs S b m \<noteq> [] \<Longrightarrow> confirmedTransactions m' = last_n 1000 (confirmedTransactions m @
        map (mark_confirmed (bs_blockHeight (bp_state b) + 1)) (block_txs S b m))"
proof -
  let ?h = "bs_blockHeight (bp_state b) + 1"
  let ?xs = "block_txs S b m"
  have distinct: "distinct (map tx_hash (pendingTransactions m))"
    using assms(1) by (simp add: mempool_inv_def)
  have sub: "set ?xs \<subseteq> set (pendingTransactions m)" "distinct (map tx_hash ?xs)"
    using distinct by (auto simp: block_txs_def dest: in_set_takeD simp flip: take_map intro!: distinct_map_filter)
  have m': "m' = (if ?xs = [] then m else confirmTransactions (map tx_hash ?xs) ?h m)"
    using assms(2) screen_pending [OF assms(1), of S "bp_rejectedTxs b"]
    by (auto simp: produceBlock_def Let_def pending_take block_txs_def split: if_splits)
  show "mempool_inv m'"
    using assms(1) mempool_inv_step [OF assms(1), of "ConfirmTxs (map tx_hash ?xs) ?h"] by (simp add: m')
  have same: "tx_hash t \<in> tx_hash ` set ?xs \<longleftrightarrow> t \<in> set ?xs" if "t \<in> set (pendingTransactions m)" for t
    using that sub(1) distinct by (auto simp: distinct_map inj_on_def)
  show "pendingTransactions m' = filter (\<lambda>t. t \<notin> set ?xs) (pendingTransactions m)"
    using confirm_effect [OF assms(1), of "map tx_hash ?xs" ?h]
      filter_cong [OF refl [of "pendingTransactions m"], of "\<lambda>t. tx_hash t \<notin> tx_hash ` set ?xs"] same
    by (simp add: m' )
  show "?xs = [] \<Longrightarrow> m' = m" by (simp add: m')
  show "?xs \<noteq> [] \<Longrightarrow> confirmedTransactions m' = last_n 1000 (confirmedTransactions m @ map (mark_confirmed ?h) ?xs)"
    using confirm_effect [OF assms(1), of "map tx_hash ?xs" ?h] confirmed_own [OF distinct sub]
    by (simp add: m')
qed

lemma production_turn_pool:
  "chain_step S (b, m) ProductionTurn =
     (let (b1, p1) = produceBlock S b (Some m) in (checkAnchorCommitment b1, the p1))"
  by (auto simp: production_turn_def produceBlock_def Let_def split_beta split: option.splits)

lemma produce_some: "\<exists>b' m'. produceBlock S b (Some m) = (b', Some m')"
  by (auto simp: produceBlock_def Let_def split_beta)

lemma check_anchor_frame [simp]:
  "bp_rejectedTxs (checkAnchorCommitment b) = bp_rejectedTxs b"
  "bp_config (checkAnchorCommitment b) = bp_config b"
  "bs_blockHeight (bp_state (checkAnchorCommitment b)) = bs_blockHeight (bp_state b)"
  "bs_lastBlockTimestampMs (bp_state (checkAnchorCommitment b)) = bs_lastBlockTimestampMs (bp_state b)"
  "bs_totalTransactions (bp_state (checkAnchorCommitment b)) = bs_totalTransactions (bp_state b)"
  by (simp_all add: checkAnchorCommitment_def Let_def)

lemma record_frame [simp]:
  "bp_rejectedTxs (recordTransaction b) = bp_rejectedTxs b"
  "bp_config (recordTransaction b) = bp_config b"
  "bs_blockHeight (bp_state (recordTransaction b)) = bs_blockHeight (bp_state b)"
  "bs_lastBlockTimestampMs (bp_state (recordTransaction b)) = bs_lastBlockTimestampMs (bp_state b)"
  "bs_lastAnchorHeight (bp_state (recordTransaction b)) = bs_lastAnchorHeight (bp_state b)"
  by (simp_all add: recordTransaction_def)

text \<open>A turn, by what it leaves: the case analysis the invariants below share.\<close>

lemma turn_cases:
  assumes "mempool_inv m"
  obtains b1 m1 where "produceBlock S b (Some m) = (b1, Some m1)"
    and "chain_step S (b, m) ProductionTurn = (checkAnchorCommitment b1, m1)"
  using produce_some [of S b m] production_turn_pool [of S b m]
  by (auto simp del: chain_step.simps)

lemma set_last_n: "set (last_n n xs) \<subseteq> set xs"
  by (auto simp: last_n_def dest: in_set_dropD)

lemma submit_inv: "mempool_inv m \<Longrightarrow> mempool_inv (snd (addTransaction tx m))"
  using mempool_inv_step [of m "AddTx tx"] by simp

lemma submit_pool:
  "mempool_inv m \<Longrightarrow> pendingTransactions (snd (addTransaction tx m)) =
     (if tx_hash tx \<in> tx_hash ` set (pendingTransactions m) then pendingTransactions m
      else pendingTransactions m @ [tx])"
  "confirmedTransactions (snd (addTransaction tx m)) = confirmedTransactions m"
  by (auto simp: addTransaction_def mempool_inv_def)

section \<open>Only signed transactions are confirmed\<close>

definition chain_inv :: "('pk, 'sg) secp \<Rightarrow> block_producer \<times> mempool \<Rightarrow> bool" where
  "chain_inv S = (\<lambda>(b, m). mempool_inv m \<and> list_all (well_signed S) (confirmedTransactions m))"

lemma well_signed_mark: "well_signed S (mark_confirmed h t) = well_signed S t"
  by (simp add: well_signed_def pubKeyToVerify_def)

lemma chain_inv_step: "chain_inv S s \<Longrightarrow> chain_inv S (chain_step S s x)"
proof -
  assume inv: "chain_inv S s"
  obtain b m where s: "s = (b, m)" by (cases s)
  with inv have m: "mempool_inv m" "list_all (well_signed S) (confirmedTransactions m)"
    by (auto simp: chain_inv_def)
  show ?thesis
  proof (cases x)
    case (SubmitTx tx)
    with s m show ?thesis by (simp add: chain_inv_def submit_inv submit_pool)
  next
    case ProductionTurn
    obtain b1 m1 where p: "produceBlock S b (Some m) = (b1, Some m1)"
      and t: "chain_step S (b, m) ProductionTurn = (checkAnchorCommitment b1, m1)"
      using turn_cases [OF m(1)] by blast
    note pool = produce_pool [OF m(1) p]
    have "list_all (well_signed S) (confirmedTransactions m1)"
    proof (cases "block_txs S b m = []")
      case False
      then show ?thesis
        unfolding pool(4) [OF False] using m(2) set_last_n
        by (fastforce simp: list_all_iff well_signed_mark block_txs_def)
    qed (simp add: pool(3) m(2))
    with pool(1) show ?thesis unfolding s ProductionTurn t by (simp add: chain_inv_def)
  next
    case RecordTx
    with s m show ?thesis by (simp add: chain_inv_def)
  qed
qed

interpretation chain_run: component "chain_step S" "chain_inv S" for S :: "('pk, 'sg) secp"
  by unfold_locales (rule chain_inv_step)

text \<open>
  The invariant with the clock of the chain: after \<open>n\<close> turns the height is \<open>n\<close>, the anchor is at
  the last multiple of the commitment interval, and the confirmed queue is in height order.
\<close>

definition anchored_at :: "u64 \<Rightarrow> nat \<Rightarrow> nat" where
  "anchored_at c n = (if c = 0 then n else unat c * (n div unat c))"

definition chain_clock :: "bp_config \<Rightarrow> nat \<Rightarrow> block_producer \<times> mempool \<Rightarrow> bool" where
  "chain_clock cfg n = (\<lambda>(b, m).
     bp_config b = cfg \<and> unat (bs_blockHeight (bp_state b)) = n \<and>
     unat (bs_lastAnchorHeight (bp_state b)) = anchored_at (commitmentInterval cfg) n \<and>
     bs_lastBlockTimestampMs (bp_state b) = of_nat n * blockIntervalMs cfg \<and>
     sorted (map (unat \<circ> tx_blockHeight) (confirmedTransactions m)) \<and>
     list_all (\<lambda>t. unat (tx_blockHeight t) \<le> n) (confirmedTransactions m))"

definition is_turn :: "chain_op \<Rightarrow> bool" where
  "is_turn x \<longleftrightarrow> x = ProductionTurn"

lemma anchored_step:
  assumes "Suc n < 2 ^ 64" "unat h = Suc n" "unat a = anchored_at c n"
  shows "unat (if c \<le> h - a then h else a) = anchored_at c (Suc n)"
proof -
  have le: "unat a \<le> n" by (simp add: assms(3) anchored_at_def)
  then have d: "unat (h - a) = Suc n - unat a"
    by (subst unat_sub) (simp_all add: word_le_nat_alt assms(2))
  show ?thesis
  proof (cases "c = 0")
    case False
    then have c: "0 < unat c" by (simp add: unat_gt_0)
    let ?q = "n div unat c"
    have a: "unat a = unat c * ?q" using False by (simp add: assms(3) anchored_at_def)
    have split: "n = unat c * ?q + n mod unat c" by simp
    have "Suc n div unat c = (if Suc (n mod unat c) = unat c then Suc ?q else ?q)"
      using c by (simp add: div_Suc mod_Suc)
    moreover have "c \<le> h - a \<longleftrightarrow> Suc (n mod unat c) = unat c"
    proof -
      have "Suc n - unat a = Suc (n mod unat c)" using split a by linarith
      moreover have "n mod unat c < unat c" using c by simp
      ultimately show ?thesis unfolding word_le_nat_alt d by linarith
    qed
    moreover have "Suc n = unat c + unat c * ?q" if "Suc (n mod unat c) = unat c"
      using that split by linarith
    ultimately show ?thesis
      using False a assms(2) by (auto simp: anchored_at_def)
  qed (simp add: anchored_at_def assms(2))
qed

lemma sorted_last_n: "sorted (map f xs) \<Longrightarrow> sorted (map f (last_n n xs))"
  by (simp add: last_n_def sorted_wrt_drop flip: drop_map)

lemma chain_clock_turn:
  assumes "chain_clock cfg n (b, m)" "mempool_inv m" "Suc n < 2 ^ 64"
  shows "chain_clock cfg (Suc n) (chain_step S (b, m) ProductionTurn)"
proof -
  obtain b1 m1 where p: "produceBlock S b (Some m) = (b1, Some m1)"
    and t: "chain_step S (b, m) ProductionTurn = (checkAnchorCommitment b1, m1)"
    using turn_cases [OF assms(2)] by blast
  note pool = produce_pool [OF assms(2) p] and st = produce_state [OF assms(2) p]
  let ?h = "bs_blockHeight (bp_state b) + 1"
  have c: "bp_config b = cfg" "unat (bs_blockHeight (bp_state b)) = n"
    "unat (bs_lastAnchorHeight (bp_state b)) = anchored_at (commitmentInterval cfg) n"
    "sorted (map (unat \<circ> tx_blockHeight) (confirmedTransactions m))"
    "list_all (\<lambda>t. unat (tx_blockHeight t) \<le> n) (confirmedTransactions m)"
    using assms(1) by (auto simp: chain_clock_def)
  have h: "unat ?h = Suc n" using c(2) assms(3) by (simp add: unat_word_ariths)
  have h': "?h = of_nat (Suc n)" unfolding h [symmetric] by (simp only: of_nat_unat ucast_id)
  have "unat (bs_lastAnchorHeight (bp_state (checkAnchorCommitment b1))) =
      anchored_at (commitmentInterval cfg) (Suc n)"
    using anchored_step [OF assms(3) h c(3)] st c(1)
    by (auto simp: checkAnchorCommitment_def Let_def split: if_splits)
  moreover have "sorted (map (unat \<circ> tx_blockHeight) (confirmedTransactions m1)) \<and>
      list_all (\<lambda>t. unat (tx_blockHeight t) \<le> Suc n) (confirmedTransactions m1)"
  proof (cases "block_txs S b m = []")
    case True
    with c show ?thesis by (auto simp: pool(3) list_all_iff)
  next
    case False
    have "sorted (map (unat \<circ> tx_blockHeight)
        (confirmedTransactions m @ map (mark_confirmed ?h) (block_txs S b m)))"
      using c(4,5) h by (auto simp: sorted_append list_all_iff o_def le_Suc_eq map_replicate_const)
    moreover have "list_all (\<lambda>t. unat (tx_blockHeight t) \<le> Suc n)
        (confirmedTransactions m @ map (mark_confirmed ?h) (block_txs S b m))"
      using c(5) h by (auto simp: list_all_iff)
    ultimately show ?thesis
      unfolding pool(4) [OF False] using set_last_n by (fastforce simp: list_all_iff intro: sorted_last_n)
  qed
  ultimately show ?thesis
    unfolding t using st c(1) h h' by (simp add: chain_clock_def)
qed

lemma chain_clock_other:
  assumes "chain_clock cfg n s" "\<not> is_turn x"
  shows "chain_clock cfg n (chain_step S s x)"
  using assms by (cases s; cases x) (auto simp: chain_clock_def is_turn_def submit_pool)

lemma chain_clock_run:
  "length (filter is_turn ops) < 2 ^ 64 \<Longrightarrow>
   chain_clock cfg (length (filter is_turn ops)) (foldl (chain_step S) (new_producer cfg, new_mempool) ops)"
proof (induction ops rule: rev_induct)
  case Nil
  then show ?case
    by (simp add: chain_clock_def new_producer_def new_mempool_def anchored_at_def)
next
  case (snoc x ops)
  let ?s = "foldl (chain_step S) (new_producer cfg, new_mempool) ops"
  have inv: "chain_inv S ?s"
    by (rule chain_run.run_inv) (simp add: chain_inv_def mempool_inv_new, simp add: new_mempool_def)
  have IH: "chain_clock cfg (length (filter is_turn ops)) ?s" using snoc by (auto split: if_splits)
  show ?case
  proof (cases "is_turn x")
    case True
    then have x: "x = ProductionTurn" by (simp add: is_turn_def)
    obtain b m where s: "?s = (b, m)" by (cases ?s)
    with inv have "mempool_inv m" by (simp add: chain_inv_def)
    from chain_clock_turn [OF IH [unfolded s] this] snoc.prems show ?thesis
      by (simp add: True x [symmetric] s del: chain_step.simps)
  qed (use IH in \<open>simp add: chain_clock_other\<close>)
qed

text \<open>
  C22. The life of the chain, from an empty pool, for fewer than 2^64 turns of the producer
  thread between any submissions: every confirmed transaction carries a well-formed hash, a
  sender, a receiver and a signature that the verifier accepts; the confirmed queue is in block
  order and never ahead of the chain; the height counts the turns, the block time is the height
  times the interval, and the last anchor is at the last multiple of the commitment interval.
\<close>

theorem chain_confirms_signed_in_order:
  fixes S :: "('pk, 'sg) secp"
  assumes "length (filter is_turn ops) < 2 ^ 64"
  shows "chain_inv S (foldl (chain_step S) (new_producer cfg, new_mempool) ops) \<and>
    chain_clock cfg (length (filter is_turn ops)) (foldl (chain_step S) (new_producer cfg, new_mempool) ops)"
  using chain_clock_run [OF assms] chain_run.run_inv [of S "(new_producer cfg, new_mempool)" ops]
  by (simp add: chain_inv_def mempool_inv_new) (simp add: new_mempool_def)

section \<open>The front of the queue\<close>

text \<open>
  What the producer does not confirm stays where it is: while the first \<open>N\<close> pending transactions
  are refused, nothing behind them is looked at.
\<close>

definition jam_inv :: "('pk, 'sg) secp \<Rightarrow> transaction list \<Rightarrow> block_producer \<times> mempool \<Rightarrow> bool" where
  "jam_inv S bad = (\<lambda>(b, m). mempool_inv m \<and>
     unat (maxTransactionsPerBlock (bp_config b)) = length bad \<and> list_all (\<lambda>t. \<not> well_signed S t) bad \<and>
     confirmedTransactions m = [] \<and> take (length bad) (pendingTransactions m) = bad)"

lemma jam_inv_step: "jam_inv S bad s \<Longrightarrow> jam_inv S bad (chain_step S s x)"
proof -
  assume inv: "jam_inv S bad s"
  obtain b m where s: "s = (b, m)" by (cases s)
  with inv have m: "mempool_inv m" "unat (maxTransactionsPerBlock (bp_config b)) = length bad"
    "list_all (\<lambda>t. \<not> well_signed S t) bad" "confirmedTransactions m = []"
    "take (length bad) (pendingTransactions m) = bad"
    by (auto simp: jam_inv_def)
  then have le: "length bad \<le> length (pendingTransactions m)" by (metis nat_le_linear take_all_iff)
  show ?thesis
  proof (cases x)
    case (SubmitTx tx)
    with s m le show ?thesis by (simp add: jam_inv_def submit_inv submit_pool)
  next
    case ProductionTurn
    have "block_txs S b m = []"
      using m by (auto simp: block_txs_def filter_empty_conv list_all_iff)
    moreover obtain b1 m1 where p: "produceBlock S b (Some m) = (b1, Some m1)"
      and t: "chain_step S (b, m) ProductionTurn = (checkAnchorCommitment b1, m1)"
      using turn_cases [OF m(1)] by blast
    ultimately have "m1 = m" "bp_config b1 = bp_config b"
      using produce_pool(3) [OF m(1) p] produce_state(2) [OF m(1) p] by auto
    with m show ?thesis unfolding s ProductionTurn t by (simp add: jam_inv_def)
  next
    case RecordTx
    with s m show ?thesis by (simp add: jam_inv_def)
  qed
qed

interpretation jam_run: component "chain_step S" "jam_inv S bad" for S :: "('pk, 'sg) secp" and bad
  by unfold_locales (rule jam_inv_step)

lemma submit_all:
  "distinct (map tx_hash (pendingTransactions m @ txs)) \<Longrightarrow> mempool_inv m \<Longrightarrow>
   \<exists>m'. foldl (chain_step S) (b, m) (map SubmitTx txs) = (b, m') \<and> mempool_inv m' \<and>
     pendingTransactions m' = pendingTransactions m @ txs \<and>
     confirmedTransactions m' = confirmedTransactions m"
proof (induction txs arbitrary: m)
  case (Cons tx txs)
  let ?m = "snd (addTransaction tx m)"
  have "tx_hash tx \<notin> tx_hash ` set (pendingTransactions m)" using Cons.prems by auto
  then have "pendingTransactions ?m = pendingTransactions m @ [tx]"
    using Cons.prems by (simp add: submit_pool)
  with Cons.IH [of ?m] Cons.prems show ?case
    by (auto simp: submit_inv submit_pool(2))
qed simp

text \<open>
  Refused transactions are never removed from the pool, and a block looks only at the first
  \<open>N\<close> pending ones. So \<open>N\<close> worthless submissions (no signature, say) into a fresh chain stop it for
  good: after them, whatever is submitted and however many blocks are produced, no transaction is
  ever confirmed.
\<close>

theorem refused_transactions_stop_the_chain:
  assumes "length bad = unat (maxTransactionsPerBlock cfg)" "distinct (map tx_hash bad)"
    and "list_all (\<lambda>t. \<not> well_signed S t) bad"
  shows "confirmedTransactions (snd (foldl (chain_step S) (new_producer cfg, new_mempool)
    (map SubmitTx bad @ ops))) = []"
proof -
  obtain m where m: "foldl (chain_step S) (new_producer cfg, new_mempool) (map SubmitTx bad) =
      (new_producer cfg, m)" "mempool_inv m" "pendingTransactions m = bad" "confirmedTransactions m = []"
    using submit_all [of new_mempool bad S "new_producer cfg"] assms(2)
    by (auto simp: mempool_inv_new) (auto simp: new_mempool_def)
  with assms have "jam_inv S bad (new_producer cfg, m)"
    by (simp add: jam_inv_def new_producer_def)
  from jam_run.run_inv [OF this, of ops] m(1) show ?thesis
    by (auto simp: jam_inv_def split_beta)
qed

section \<open>What a signature and a hash bind\<close>

definition squat_inv :: "('pk, 'sg) secp \<Rightarrow> string \<Rightarrow> block_producer \<times> mempool \<Rightarrow> bool" where
  "squat_inv S h = (\<lambda>(b, m). mempool_inv m \<and> h \<in> bp_rejectedTxs b \<and>
     h \<notin> tx_hash ` set (confirmedTransactions m))"

lemma squat_inv_step: "squat_inv S h s \<Longrightarrow> squat_inv S h (chain_step S s x)"
proof -
  assume inv: "squat_inv S h s"
  obtain b m where s: "s = (b, m)" by (cases s)
  with inv have m: "mempool_inv m" "h \<in> bp_rejectedTxs b" "h \<notin> tx_hash ` set (confirmedTransactions m)"
    by (auto simp: squat_inv_def)
  show ?thesis
  proof (cases x)
    case ProductionTurn
    obtain b1 m1 where p: "produceBlock S b (Some m) = (b1, Some m1)"
      and t: "chain_step S (b, m) ProductionTurn = (checkAnchorCommitment b1, m1)"
      using turn_cases [OF m(1)] by blast
    note pool = produce_pool [OF m(1) p] and st = produce_state [OF m(1) p]
    have "h \<notin> tx_hash ` set (confirmedTransactions m1)"
    proof (cases "block_txs S b m = []")
      case False
      with m(2) have "h \<notin> tx_hash ` set (block_txs S b m)" by (auto simp: block_txs_def)
      then show ?thesis
        unfolding pool(4) [OF False] using m(3) set_last_n by fastforce
    qed (use pool(3) m(3) in simp)
    with pool(1) m(2) st(1) show ?thesis unfolding s ProductionTurn t by (simp add: squat_inv_def)
  qed (use s m in \<open>simp_all add: squat_inv_def submit_inv submit_pool\<close>)
qed

interpretation squat_run: component "chain_step S" "squat_inv S h" for S :: "('pk, 'sg) secp" and h
  by unfold_locales (rule squat_inv_step)

lemma first_submission:
  "addTransaction tx new_mempool =
     (True, \<lparr>pendingTransactions = [tx], confirmedTransactions = [], txHashIndex = {tx_hash tx}\<rparr>)"
  by (simp add: addTransaction_def new_mempool_def)

lemma single_pool_inv:
  "mempool_inv \<lparr>pendingTransactions = [tx], confirmedTransactions = [], txHashIndex = {tx_hash tx}\<rparr>"
  by (simp add: mempool_inv_def)

text \<open>
  The hash of a submission is taken as given and refusals are remembered by hash: a
  worthless transaction that names the hash of somebody's transaction, and is seen by one block,
  keeps every transaction with that hash from ever being confirmed.
\<close>

theorem squatted_hash_never_confirmed:
  assumes "\<not> well_signed S bogus" "0 < maxTransactionsPerBlock cfg"
  shows "tx_hash bogus \<notin> tx_hash ` set (confirmedTransactions (snd (foldl (chain_step S)
    (new_producer cfg, new_mempool) ([SubmitTx bogus, ProductionTurn] @ ops))))"
proof -
  let ?m = "\<lparr>pendingTransactions = [bogus], confirmedTransactions = [], txHashIndex = {tx_hash bogus}\<rparr>"
  let ?b = "new_producer cfg"
  obtain b1 m1 where p: "produceBlock S ?b (Some ?m) = (b1, Some m1)"
    and t: "chain_step S (?b, ?m) ProductionTurn = (checkAnchorCommitment b1, m1)"
    using turn_cases [OF single_pool_inv] by blast
  have none: "block_txs S ?b ?m = []"
    using assms(1) by (auto simp: block_txs_def filter_empty_conv dest: in_set_takeD)
  have "0 < unat (maxTransactionsPerBlock cfg)" using assms(2) by (simp add: word_less_nat_alt)
  then have "tx_hash bogus \<in> bp_rejectedTxs b1"
    using produce_state(1) [OF single_pool_inv p] assms(1) by (auto simp: new_producer_def take_Cons')
  with produce_pool(1,3) [OF single_pool_inv p] none
  have "squat_inv S (tx_hash bogus) (checkAnchorCommitment b1, m1)" by (simp add: squat_inv_def)
  from squat_run.run_inv [OF this, of ops] t show ?thesis
    by (auto simp: squat_inv_def split_beta first_submission simp del: chain_step.simps(2))
qed

text \<open>
  The signature is checked over the transaction hash alone, against the key the transaction
  brings, and neither the hash nor the key is tied to the rest. From any transaction that
  verifies with its own key, replacing sender, receiver, amount and data gives a transaction
  that the next block confirms, in the name of any sender.
\<close>

theorem forged_transfer_confirmed:
  fixes amount :: u64 and payload :: string
  assumes "well_signed S tx" "tx_publicKey tx \<noteq> []" "victim \<noteq> []" "thief \<noteq> []"
    and "0 < maxTransactionsPerBlock cfg"
  defines "forged \<equiv> tx\<lparr>tx_from := victim, tx_to := thief, tx_amount := amount, tx_data := payload\<rparr>"
  shows "confirmedTransactions (snd (foldl (chain_step S) (new_producer cfg, new_mempool)
    [SubmitTx forged, ProductionTurn])) = [mark_confirmed 1 forged]"
proof -
  let ?m = "\<lparr>pendingTransactions = [forged], confirmedTransactions = [], txHashIndex = {tx_hash forged}\<rparr>"
  let ?b = "new_producer cfg"
  have signed: "well_signed S forged"
    using assms(1-4) by (simp add: well_signed_def pubKeyToVerify_def forged_def)
  obtain b1 m1 where p: "produceBlock S ?b (Some ?m) = (b1, Some m1)"
    and t: "chain_step S (?b, ?m) ProductionTurn = (checkAnchorCommitment b1, m1)"
    using turn_cases [OF single_pool_inv] by blast
  have "0 < unat (maxTransactionsPerBlock cfg)" using assms(5) by (simp add: word_less_nat_alt)
  then have "block_txs S ?b ?m = [forged]"
    using signed by (simp add: block_txs_def new_producer_def take_Cons')
  with produce_pool(4) [OF single_pool_inv p] t show ?thesis
    by (simp add: first_submission last_n_def new_producer_def del: chain_step.simps(2))
qed

section \<open>Witnesses\<close>

text \<open>A verifier that accepts every signature under every key.\<close>

definition lax_secp :: "(bytes, bytes) secp" where
  "lax_secp = \<lparr>secp_context = True, secp_pubkey_parse = Some, secp_parse_compact = Some,
     secp_parse_der = Some, secp_normalize = id, secp_verify = (\<lambda>_ _ _. True)\<rparr>"

definition signed_tx :: transaction where
  "signed_tx = (demo_tx (replicate 64 CHR ''0''))\<lparr>tx_signature := ''00'', tx_publicKey := ''02''\<rparr>"

definition tiny_config :: bp_config where
  "tiny_config = default_bp_config\<lparr>maxTransactionsPerBlock := 1\<rparr>"

lemma signed_tx_ok: "well_signed lax_secp signed_tx"
  by code_simp

lemma unsigned_tx_bad: "\<not> well_signed lax_secp (demo_tx h)"
  by (simp add: well_signed_def demo_tx_def)

theorem chain_confirms_signed_in_order_witness:
  "chain_clock tiny_config 1 (foldl (chain_step lax_secp) (new_producer tiny_config, new_mempool)
     [SubmitTx signed_tx, ProductionTurn])"
  using chain_confirms_signed_in_order [of "[SubmitTx signed_tx, ProductionTurn]" lax_secp tiny_config]
  by (simp add: is_turn_def del: chain_step.simps)

theorem refused_transactions_stop_the_chain_witness:
  "confirmedTransactions (snd (foldl (chain_step lax_secp) (new_producer tiny_config, new_mempool)
     [SubmitTx (demo_tx ''x''), SubmitTx signed_tx, ProductionTurn, ProductionTurn])) = []"
  using refused_transactions_stop_the_chain [of "[demo_tx ''x'']" tiny_config lax_secp
      "[SubmitTx signed_tx, ProductionTurn, ProductionTurn]"]
  by (simp add: unsigned_tx_bad tiny_config_def del: chain_step.simps)

theorem squatted_hash_never_confirmed_witness:
  "confirmedTransactions (snd (foldl (chain_step lax_secp) (new_producer default_bp_config, new_mempool)
     ([SubmitTx (demo_tx (tx_hash signed_tx)), ProductionTurn] @ [SubmitTx signed_tx, ProductionTurn])))
   \<noteq> [mark_confirmed 2 signed_tx]"
  using squatted_hash_never_confirmed [OF unsigned_tx_bad, of default_bp_config "tx_hash signed_tx"
      "[SubmitTx signed_tx, ProductionTurn]"]
  by (auto simp: default_bp_config_def demo_tx_def simp del: chain_step.simps)

theorem forged_transfer_confirmed_witness:
  "map tx_from (confirmedTransactions (snd (foldl (chain_step lax_secp)
     (new_producer tiny_config, new_mempool)
     [SubmitTx (signed_tx\<lparr>tx_from := ''victim'', tx_to := ''thief'', tx_amount := 1000,
        tx_data := []\<rparr>), ProductionTurn]))) = [''victim'']"
  using forged_transfer_confirmed [OF signed_tx_ok, where victim = "''victim''" and thief = "''thief''"
      and cfg = tiny_config and amount = 1000 and payload = "[]"]
  by (simp add: signed_tx_def tiny_config_def default_bp_config_def del: chain_step.simps)

end
