(* ===== verification/ReplayTick.thy ===== *)
theory ReplayTick
  imports Codec
begin

text \<open>
  The binary image of a federation tick: \<open>include/l4/ReplayTick.h\<close> and
  \<open>src/l4/ReplayTick.cpp\<close>. Structs that the code copies as one block of memory are kept as
  their bytes, of the length the code's \<open>static_assert\<close>s state; the fields the code writes one
  by one are fields here. Vectors of such structs are read item by item, which by
  \<open>read_n_blob\<close> fails exactly when the code's one bulk copy does. That a count larger than the
  memory makes \<open>resize\<close> throw before the bounds check does is not modelled: both are exceptions.
\<close>

section \<open>Data\<close>

definition sizeof_scheduler_state :: nat where "sizeof_scheduler_state = 64"
definition sizeof_engine_state :: nat where "sizeof_engine_state = 640"
definition sizeof_execution_envelope :: nat where "sizeof_execution_envelope = 256"
definition sizeof_gossip_summary :: nat where "sizeof_gossip_summary = 128"
definition sizeof_node_padding :: nat where "sizeof_node_padding = 23"
definition sizeof_peer_sync_state :: nat where "sizeof_peer_sync_state = 512"
definition sizeof_mesh_envelope :: nat where "sizeof_mesh_envelope = 384"
definition sizeof_transport_message :: nat where "sizeof_transport_message = 192"
definition sizeof_queue_padding :: nat where "sizeof_queue_padding = 40"
definition sizeof_coherence_summary :: nat where "sizeof_coherence_summary = 128"
definition sizeof_telemetry :: nat where "sizeof_telemetry = 64"
definition sizeof_clock :: nat where "sizeof_clock = 24"

record node_image =
  ni_engine_state :: bytes
  ni_last_envelope :: bytes
  ni_gossip_summary :: bytes
  ni_node_id_hash :: u64
  ni_step_counter :: u64
  ni_state_root_status :: u8
  ni_padding :: bytes
  ni_peer_sync_states :: "bytes list"

record replay_event =
  re_type :: u8
  re_height :: u64
  re_block_hash :: bytes
  re_txid :: bytes

record view_image =
  vi_nodes :: "node_image list"
  vi_mesh_envelopes :: "bytes list"
  vi_messages :: "bytes list"
  vi_queue_padding :: bytes
  vi_total_nodes :: u64
  vi_total_steps :: u64
  vi_coherence_summary :: bytes
  vi_clock :: bytes
  vi_replay_events :: "replay_event list"

record replay_tick =
  rt_scheduler_state :: bytes
  rt_view :: view_image
  rt_telemetry :: bytes
  rt_height :: u64
  rt_clock :: bytes
  rt_replay_events :: "replay_event list"

definition zero_clock :: bytes where
  "zero_clock = replicate sizeof_clock 0"

section \<open>Serialisation\<close>

definition write_node :: "node_image \<Rightarrow> bytes" where
  "write_node n =
     ni_engine_state n @ ni_last_envelope n @ ni_gossip_summary n @
     write_u64 (ni_node_id_hash n) @ write_u64 (ni_step_counter n) @
     [ni_state_root_status n] @ ni_padding n @
     write_vec (\<lambda>p. p) (ni_peer_sync_states n)"

definition write_event :: "replay_event \<Rightarrow> bytes" where
  "write_event e = [re_type e] @ write_u64 (re_height e) @ re_block_hash e @ re_txid e"

definition serialize :: "replay_tick \<Rightarrow> bytes" where
  "serialize t =
     (let v = rt_view t in
      le_bytes 4 (2 :: u32) @ rt_scheduler_state t @
      write_vec write_node (vi_nodes v) @
      write_vec (\<lambda>e. e) (vi_mesh_envelopes v) @
      write_vec (\<lambda>m. m) (vi_messages v) @ vi_queue_padding v @
      write_u64 (vi_total_nodes v) @ write_u64 (vi_total_steps v) @ vi_coherence_summary v @
      rt_telemetry t @
      write_u64 (rt_height t) @ rt_clock t @ write_vec write_event (rt_replay_events t))"

section \<open>Deserialisation\<close>

definition read_u8 :: "bytes \<Rightarrow> string + u8 \<times> bytes" where
  "read_u8 bs = bindE (read_bytes 1 bs) (\<lambda>(b, r). Inr (hd b, r))"

definition read_node :: "bytes \<Rightarrow> string + node_image \<times> bytes" where
  "read_node bs =
     bindE (read_bytes sizeof_engine_state bs) (\<lambda>(eng, bs).
     bindE (read_bytes sizeof_execution_envelope bs) (\<lambda>(env, bs).
     bindE (read_bytes sizeof_gossip_summary bs) (\<lambda>(gos, bs).
     bindE (read_u64 bs) (\<lambda>(nid, bs).
     bindE (read_u64 bs) (\<lambda>(steps, bs).
     bindE (read_u8 bs) (\<lambda>(status, bs).
     bindE (read_bytes sizeof_node_padding bs) (\<lambda>(pad, bs).
     bindE (read_vec (read_bytes sizeof_peer_sync_state) bs) (\<lambda>(peers, bs).
     Inr (\<lparr>ni_engine_state = eng, ni_last_envelope = env, ni_gossip_summary = gos,
           ni_node_id_hash = nid, ni_step_counter = steps, ni_state_root_status = status,
           ni_padding = pad, ni_peer_sync_states = peers\<rparr>, bs)))))))))"

definition read_event :: "bytes \<Rightarrow> string + replay_event \<times> bytes" where
  "read_event bs =
     bindE (read_u8 bs) (\<lambda>(ty, bs).
     bindE (read_u64 bs) (\<lambda>(h, bs).
     bindE (read_bytes 32 bs) (\<lambda>(bh, bs).
     bindE (read_bytes 32 bs) (\<lambda>(tx, bs).
     Inr (\<lparr>re_type = ty, re_height = h, re_block_hash = bh, re_txid = tx\<rparr>, bs)))))"

definition deserialize :: "bytes \<Rightarrow> string + replay_tick" where
  "deserialize raw =
     bindE (read_bytes 4 raw) (\<lambda>(ver, bs).
     bindE (read_bytes sizeof_scheduler_state bs) (\<lambda>(sched, bs).
     bindE (read_vec read_node bs) (\<lambda>(nodes, bs).
     bindE (read_vec (read_bytes sizeof_mesh_envelope) bs) (\<lambda>(envs, bs).
     bindE (read_vec (read_bytes sizeof_transport_message) bs) (\<lambda>(msgs, bs).
     bindE (read_bytes sizeof_queue_padding bs) (\<lambda>(qpad, bs).
     bindE (read_u64 bs) (\<lambda>(tn, bs).
     bindE (read_u64 bs) (\<lambda>(ts, bs).
     bindE (read_bytes sizeof_coherence_summary bs) (\<lambda>(coh, bs).
     bindE (read_bytes sizeof_telemetry bs) (\<lambda>(tel, bs).
     let view = \<lparr>vi_nodes = nodes, vi_mesh_envelopes = envs, vi_messages = msgs,
                 vi_queue_padding = qpad, vi_total_nodes = tn, vi_total_steps = ts,
                 vi_coherence_summary = coh, vi_clock = zero_clock, vi_replay_events = []\<rparr>
     in if le_word ver \<ge> (2 :: u32) then
          bindE (read_u64 bs) (\<lambda>(h, bs).
          bindE (read_bytes sizeof_clock bs) (\<lambda>(clk, bs).
          bindE (read_vec read_event bs) (\<lambda>(evs, bs).
          Inr \<lparr>rt_scheduler_state = sched, rt_view = view, rt_telemetry = tel,
               rt_height = h, rt_clock = clk, rt_replay_events = evs\<rparr>)))
        else
          Inr \<lparr>rt_scheduler_state = sched, rt_view = view, rt_telemetry = tel,
               rt_height = 0, rt_clock = zero_clock, rt_replay_events = []\<rparr>))))))))))"

lemma read_n_blob:
  "read_n (read_bytes s) n bs =
     (if length bs < n * s then Inl ''Buffer underflow during deserialize''
      else Inr (map (\<lambda>i. take s (drop (i * s) bs)) [0..<n], drop (n * s) bs))"
proof (induction n arbitrary: bs)
  case (Suc n)
  have "map (\<lambda>i. take s (drop (i * s) bs)) [0..<Suc n] =
      take s bs # map (\<lambda>i. take s (drop (i * s) (drop s bs))) [0..<n]"
    by (simp add: upt_conv_Cons map_Suc_upt [symmetric] add.commute del: upt_Suc)
  then show ?case by (auto simp: Suc read_bytes_def [of s bs] add.commute simp del: upt_Suc)
qed simp

section \<open>Well-formed images\<close>

definition wf_node :: "node_image \<Rightarrow> bool" where
  "wf_node n \<longleftrightarrow>
     length (ni_engine_state n) = sizeof_engine_state \<and>
     length (ni_last_envelope n) = sizeof_execution_envelope \<and>
     length (ni_gossip_summary n) = sizeof_gossip_summary \<and>
     length (ni_padding n) = sizeof_node_padding \<and>
     list_all (\<lambda>p. length p = sizeof_peer_sync_state) (ni_peer_sync_states n) \<and>
     length (ni_peer_sync_states n) < 2 ^ 64"

definition wf_event :: "replay_event \<Rightarrow> bool" where
  "wf_event e \<longleftrightarrow> length (re_block_hash e) = 32 \<and> length (re_txid e) = 32"

definition wf_view :: "view_image \<Rightarrow> bool" where
  "wf_view v \<longleftrightarrow>
     list_all wf_node (vi_nodes v) \<and> length (vi_nodes v) < 2 ^ 64 \<and>
     list_all (\<lambda>e. length e = sizeof_mesh_envelope) (vi_mesh_envelopes v) \<and>
     length (vi_mesh_envelopes v) < 2 ^ 64 \<and>
     list_all (\<lambda>m. length m = sizeof_transport_message) (vi_messages v) \<and>
     length (vi_messages v) < 2 ^ 64 \<and>
     length (vi_queue_padding v) = sizeof_queue_padding \<and>
     length (vi_coherence_summary v) = sizeof_coherence_summary"

definition wf_tick :: "replay_tick \<Rightarrow> bool" where
  "wf_tick t \<longleftrightarrow> wf_view (rt_view t) \<and>
     length (rt_scheduler_state t) = sizeof_scheduler_state \<and>
     length (rt_telemetry t) = sizeof_telemetry \<and>
     length (rt_clock t) = sizeof_clock \<and>
     list_all wf_event (rt_replay_events t) \<and> length (rt_replay_events t) < 2 ^ 64"

lemma read_u8_Cons [simp]: "read_u8 (b # r) = Inr (b, r)"
  by (simp add: read_u8_def read_bytes_def)

interpretation event: codec write_event read_event wf_event
  by unfold_locales (simp add: write_event_def read_event_def wf_event_def)

interpretation node: codec write_node read_node wf_node
  by unfold_locales (simp add: write_node_def read_node_def wf_node_def blob.read_vec_write)

lemmas vec_read_write = node.read_vec_write event.read_vec_write blob.read_vec_write

text \<open>What a stored tick keeps: all but the view's own copies of the clock and the events.\<close>

definition stored_part :: "replay_tick \<Rightarrow> replay_tick" where
  "stored_part t = t\<lparr>rt_view := (rt_view t)\<lparr>vi_clock := zero_clock, vi_replay_events := []\<rparr>\<rparr>"

lemma serialize_append:
  "wf_tick t \<Longrightarrow> deserialize (serialize t @ junk) = Inr (stored_part t)"
  by (simp add: serialize_def deserialize_def wf_tick_def wf_view_def Let_def vec_read_write
      stored_part_def)

text \<open>
  C4. A tick of any shape (any number of nodes, peers, envelopes, messages and events, each
  struct of its fixed size) is read back from its image exactly, field by field, except that the
  view's own clock and event list come back as zero and empty: they are not in the image.
\<close>

theorem replay_tick_roundtrip:
  assumes "wf_tick t"
  shows "deserialize (serialize t) = Inr (stored_part t)"
  using serialize_append [OF assms, of "[]"] by simp

definition empty_view :: view_image where
  "empty_view = \<lparr>vi_nodes = [], vi_mesh_envelopes = [], vi_messages = [],
     vi_queue_padding = replicate sizeof_queue_padding 0, vi_total_nodes = 0, vi_total_steps = 0,
     vi_coherence_summary = replicate sizeof_coherence_summary 0, vi_clock = zero_clock,
     vi_replay_events = []\<rparr>"

definition sample_node :: node_image where
  "sample_node = \<lparr>ni_engine_state = replicate sizeof_engine_state 1,
     ni_last_envelope = replicate sizeof_execution_envelope 2,
     ni_gossip_summary = replicate sizeof_gossip_summary 3, ni_node_id_hash = 4,
     ni_step_counter = 5, ni_state_root_status = 1, ni_padding = replicate sizeof_node_padding 0,
     ni_peer_sync_states = [replicate sizeof_peer_sync_state 7]\<rparr>"

definition sample_tick :: "u64 \<Rightarrow> replay_tick" where
  "sample_tick h = \<lparr>rt_scheduler_state = replicate sizeof_scheduler_state 0,
     rt_view = empty_view\<lparr>vi_nodes := [sample_node]\<rparr>,
     rt_telemetry = replicate sizeof_telemetry 9, rt_height = h, rt_clock = zero_clock,
     rt_replay_events = [\<lparr>re_type = 1, re_height = h, re_block_hash = replicate 32 8,
       re_txid = replicate 32 6\<rparr>]\<rparr>"

lemma wf_sample_tick: "wf_tick (sample_tick h)"
  by (simp add: wf_tick_def wf_view_def wf_node_def wf_event_def sample_tick_def sample_node_def
      empty_view_def zero_clock_def)

theorem replay_tick_roundtrip_witness:
  "map_sum id rt_height (deserialize (serialize (sample_tick 77))) = Inr 77"
  unfolding replay_tick_roundtrip [OF wf_sample_tick] by (simp add: stored_part_def sample_tick_def)

text \<open>Ticks with the same image have the same stored part.\<close>

lemma serialize_inj:
  "wf_tick t \<Longrightarrow> wf_tick u \<Longrightarrow> serialize t = serialize u \<Longrightarrow> stored_part t = stored_part u"
  using serialize_append [of t "[]"] serialize_append [of u "[]"] by simp

end
