(* ===== verification/Compressor.thy ===== *)
theory Compressor
  imports ReplayTick
begin

text \<open>
  The deterministic compressor of federation ticks: \<open>include/l5/*.h\<close>,
  \<open>src/l5/DeterministicCompressor.cpp\<close> and \<open>src/l5/CompressionConfig.cpp\<close>. A compressor object
  is a record that both directions update; a thrown \<open>runtime_error\<close> is returned as the left
  injection beside the state the exception leaves behind. Loops over an index become recursion
  on the unread bytes.
\<close>

section \<open>The three stages\<close>

definition fnv1a_step :: "u32 \<Rightarrow> u8 \<Rightarrow> u32" where
  "fnv1a_step h b = xor h (ucast b) * 16777619"

definition fnv1a_32 :: "bytes \<Rightarrow> u32" where
  "fnv1a_32 data = foldl fnv1a_step 2166136261 data"

definition stable_hash :: "bytes \<Rightarrow> bytes" where
  "stable_hash raw = raw @ le_bytes 4 (fnv1a_32 raw)"

definition delta_encode :: "bytes \<Rightarrow> bytes \<Rightarrow> bytes" where
  "delta_encode previous current =
     (let min_len = min (length previous) (length current) in
      le_bytes 8 (of_nat (length current) :: u64) @
      map (\<lambda>i. current ! i - previous ! i) [0..<min_len] @
      map (\<lambda>i. current ! i) [min_len..<length current])"

definition delta_decode :: "bytes \<Rightarrow> bytes \<Rightarrow> string + bytes" where
  "delta_decode previous delta =
     (if length delta < 8 then Inl ''Delta decode failed: Insufficient data''
      else let curr_size = (le_word (take 8 delta) :: u64) in
        if of_nat (length delta - 8) \<noteq> curr_size then Inl ''Delta decode failed: Size mismatch''
        else let min_len = min (length previous) (unat curr_size) in
          Inr (map (\<lambda>i. delta ! (8 + i) + previous ! i) [0..<min_len] @
               map (\<lambda>i. delta ! (8 + i)) [min_len..<unat curr_size]))"

text \<open>The inner loop of \<open>rle_encode\<close>: how far the run of a byte goes, at most to 255.\<close>

fun run_count :: "nat \<Rightarrow> u8 \<Rightarrow> bytes \<Rightarrow> nat" where
  "run_count c b [] = c"
| "run_count c b (x # xs) = (if x = b \<and> c < 255 then run_count (c + 1) b xs else c)"

lemma run_count_ge: "c \<le> run_count c b xs"
  by (induction c b xs rule: run_count.induct) auto

function rle_encode :: "bytes \<Rightarrow> bytes" where
  "rle_encode [] = []"
| "rle_encode (b # bs) =
     (let count = run_count 1 b bs in of_nat count # b # rle_encode (drop (count - 1) bs))"
  by pat_completeness auto

termination
  by (relation "measure length") auto

fun rle_pairs :: "bytes \<Rightarrow> bytes" where
  "rle_pairs (c # v # r) = replicate (unat c) v @ rle_pairs r"
| "rle_pairs _ = []"

definition rle_decode :: "bytes \<Rightarrow> string + bytes" where
  "rle_decode raw =
     (if length raw mod 2 \<noteq> 0 then Inl ''RLE decode failed: Invalid format''
      else Inr (rle_pairs raw))"

section \<open>The compressor\<close>

record compression_config =
  enable_delta :: bool
  enable_rle :: bool
  enable_stable_hash :: bool
  max_compressed_bytes :: nat

definition default_config :: compression_config where
  "default_config = \<lparr>enable_delta = True, enable_rle = True, enable_stable_hash = True,
     max_compressed_bytes = 1048576\<rparr>"

record compressor =
  config :: compression_config
  previous_serialized :: bytes
  has_previous :: bool

definition new_compressor :: "compression_config \<Rightarrow> compressor" where
  "new_compressor cfg = \<lparr>config = cfg, previous_serialized = [], has_previous = False\<rparr>"

definition compress_tick :: "replay_tick \<Rightarrow> compressor \<Rightarrow> (string + bytes) \<times> compressor" where
  "compress_tick tick c =
     (let current_serialized = serialize tick;
          delta = (if enable_delta (config c) \<and> has_previous c
                   then delta_encode (previous_serialized c) current_serialized
                   else current_serialized);
          c1 = c\<lparr>previous_serialized := current_serialized, has_previous := True\<rparr>;
          rle = (if enable_rle (config c) then rle_encode delta else delta);
          hashed = (if enable_stable_hash (config c) then stable_hash rle else rle)
      in if length hashed > max_compressed_bytes (config c)
         then (Inl ''Deterministic compression overflow'', c1)
         else (Inr hashed, c1))"

definition check_hash :: "bytes \<Rightarrow> string + bytes" where
  "check_hash data =
     (if length data < 4 then Inl ''Decompression failed: Missing hash''
      else let expected_hash = (le_word (drop (length data - 4) data) :: u32);
               rle_input = take (length data - 4) data
           in if fnv1a_32 rle_input \<noteq> expected_hash then Inl ''Decompression failed: Hash mismatch''
              else Inr rle_input)"

definition decompress_tick :: "bytes \<Rightarrow> compressor \<Rightarrow> (string + replay_tick) \<times> compressor" where
  "decompress_tick data c =
     (case bindE (if enable_stable_hash (config c) then check_hash data else Inr data) (\<lambda>rle_input.
           bindE (if enable_rle (config c) then rle_decode rle_input else Inr rle_input) (\<lambda>rle_decoded.
           if enable_delta (config c) \<and> has_previous c
           then delta_decode (previous_serialized c) rle_decoded else Inr rle_decoded)) of
        Inl e \<Rightarrow> (Inl e, c)
      | Inr delta_decoded \<Rightarrow>
          (deserialize delta_decoded,
           c\<lparr>previous_serialized := delta_decoded, has_previous := True\<rparr>))"

section \<open>Run lengths\<close>

lemma run_count_prefix:
  "run_count c b xs = c + k \<Longrightarrow> k \<le> length xs \<and> take k xs = replicate k b"
proof (induction xs arbitrary: c k)
  case (Cons x xs)
  show ?case
  proof (cases "x = b \<and> c < 255")
    case True
    with Cons.prems have r: "run_count (c + 1) b xs = c + k" by simp
    with run_count_ge [of "c + 1" b xs] obtain j where "k = Suc j" by (cases k) auto
    with r Cons.IH [of "c + 1" j] True show ?thesis by simp
  next
    case False
    with Cons.prems show ?thesis by auto
  qed
qed auto

lemma run_count_le: "c \<le> 255 \<Longrightarrow> run_count c b xs \<le> 255"
  by (induction c b xs rule: run_count.induct) auto

lemma rle_pairs_encode: "rle_pairs (rle_encode bs) = bs"
proof (induction bs rule: rle_encode.induct)
  case (2 b bs)
  define k where "k = run_count 1 b bs - 1"
  have k: "run_count 1 b bs = 1 + k" using run_count_ge [of 1 b bs] by (simp add: k_def)
  then have pre: "take k bs = replicate k b" using run_count_prefix by blast
  have "unat (of_nat (1 + k) :: u8) = 1 + k"
    using run_count_le [of 1 b bs] k by (simp add: unsigned_of_nat take_bit_nat_eq_self del: of_nat_Suc of_nat_add)
  moreover have "replicate k b @ drop k bs = bs"
    using append_take_drop_id [of k bs] pre by simp
  ultimately show ?case using "2.IH" k by (simp add: Let_def)
qed simp

lemma even_length_rle: "even (length (rle_encode bs))"
  by (induction bs rule: rle_encode.induct) (auto simp: Let_def)

lemma rle_roundtrip: "rle_decode (rle_encode bs) = Inr bs"
  using even_length_rle [of bs] by (simp add: rle_decode_def rle_pairs_encode)

lemma delta_roundtrip:
  assumes "length cur < 2 ^ 64"
  shows "delta_decode prev (delta_encode prev cur) = Inr cur"
proof -
  let ?m = "min (length prev) (length cur)"
  have l: "length (delta_encode prev cur) = 8 + length cur"
    by (simp add: delta_encode_def Let_def)
  have n: "unat (of_nat (length cur) :: u64) = length cur"
    using assms by (simp add: unsigned_of_nat take_bit_nat_eq_self)
  have hd: "take 8 (delta_encode prev cur) = le_bytes 8 (of_nat (length cur) :: u64)"
    by (simp add: delta_encode_def Let_def)
  have lo: "i < ?m \<Longrightarrow> delta_encode prev cur ! (8 + i) = cur ! i - prev ! i" for i
    by (simp add: delta_encode_def Let_def nth_append)
  have hi: "?m \<le> i \<Longrightarrow> i < length cur \<Longrightarrow> delta_encode prev cur ! (8 + i) = cur ! i" for i
    by (auto simp: delta_encode_def Let_def nth_append)
  have "map (\<lambda>i. delta_encode prev cur ! (8 + i) + prev ! i) [0..<?m] @
      map (\<lambda>i. delta_encode prev cur ! (8 + i)) [?m..<length cur] = map ((!) cur) [0..<length cur]"
    by (rule nth_equalityI) (auto simp: nth_append lo hi)
  then show ?thesis
    by (simp add: delta_decode_def l hd n Let_def map_nth)
qed

lemma check_stable_hash: "check_hash (stable_hash bs) = Inr bs"
  by (simp add: check_hash_def stable_hash_def Let_def)

section \<open>Streams\<close>

text \<open>A sender compresses ticks one after another and stops at the first exception.\<close>

fun compress_all :: "replay_tick list \<Rightarrow> compressor \<Rightarrow> string + bytes list" where
  "compress_all [] c = Inr []"
| "compress_all (t # ts) c =
     (case compress_tick t c of
        (Inl e, c1) \<Rightarrow> Inl e
      | (Inr d, c1) \<Rightarrow> bindE (compress_all ts c1) (\<lambda>ds. Inr (d # ds)))"

fun decompress_all :: "bytes list \<Rightarrow> compressor \<Rightarrow> string + replay_tick list" where
  "decompress_all [] c = Inr []"
| "decompress_all (d # ds) c =
     (case decompress_tick d c of
        (Inl e, c1) \<Rightarrow> Inl e
      | (Inr t, c1) \<Rightarrow> bindE (decompress_all ds c1) (\<lambda>ts. Inr (t # ts)))"

lemma decompress_compress:
  assumes "compress_tick t c = (Inr d, c1)" "wf_tick t" "length (serialize t) < 2 ^ 64"
  shows "decompress_tick d c = (Inr (stored_part t), c1)"
  using assms serialize_append [OF assms(2), of "[]"]
  by (auto simp: compress_tick_def decompress_tick_def Let_def check_stable_hash rle_roundtrip
      delta_roundtrip split: if_splits)

lemma stream_roundtrip:
  assumes "compress_all ts c = Inr ds" "list_all wf_tick ts"
    "list_all (\<lambda>t. length (serialize t) < 2 ^ 64) ts"
  shows "decompress_all ds c = Inr (map stored_part ts)"
  using assms
proof (induction ts arbitrary: c ds)
  case (Cons t ts)
  from Cons.prems(1) obtain d c1 ds' where d: "compress_tick t c = (Inr d, c1)"
    and r: "compress_all ts c1 = Inr ds'" and ds: "ds = d # ds'"
    by (auto simp: bindE_Inr split: prod.splits sum.splits)
  then show ?case
    using decompress_compress [OF d] Cons.IH [OF r] Cons.prems(2,3) by simp
qed simp

text \<open>
  C5. A compressed federation stream decompresses to the ticks that were recorded: for every
  configuration of the stages, whatever the length of the stream, if the sender hit no size cap
  then a receiver that starts in the sender's initial state recovers every tick, in order.
\<close>

theorem compressed_stream_roundtrip:
  assumes "compress_all ts c = Inr ds" "list_all wf_tick ts"
    "list_all (\<lambda>t. length (serialize t) < 2 ^ 64) ts"
  shows "decompress_all ds c = Inr (map stored_part ts)"
  using assms by (rule stream_roundtrip)

section \<open>Corruption\<close>

lemma fnv_prime_inverse: "(16777619 :: u32) * 899433627 = 1"
  by simp

lemma fnv_step_state: "fnv1a_step h b = fnv1a_step g b \<longleftrightarrow> h = g"
proof
  assume "fnv1a_step h b = fnv1a_step g b"
  then have "xor h (ucast b) * 16777619 * 899433627 = xor g (ucast b) * 16777619 * 899433627"
    by (simp only: fnv1a_step_def)
  then have "xor h (ucast b) = xor g (ucast b)"
    by (simp only: mult.assoc fnv_prime_inverse mult_1_right)
  then have "xor (xor h (ucast b)) (ucast b) = xor (xor g (ucast b)) (ucast b)" by simp
  then show "h = g" by (simp only: xor.assoc xor_self_eq xor.right_neutral)
qed simp

lemma fnv_step_byte: "fnv1a_step h b = fnv1a_step h c \<longleftrightarrow> b = c"
proof
  assume "fnv1a_step h b = fnv1a_step h c"
  then have "xor h (ucast b) * 16777619 * 899433627 = xor h (ucast c) * 16777619 * 899433627"
    by (simp only: fnv1a_step_def)
  then have "xor h (xor h (ucast b)) = xor h (xor h (ucast c :: u32))"
    by (simp only: mult.assoc fnv_prime_inverse mult_1_right)
  then have "(ucast b :: u32) = ucast c" by (simp add: xor.assoc [symmetric])
  then show "b = c" by transfer (simp add: take_bit_take_bit)
qed simp

lemma fnv_fold_state: "foldl fnv1a_step h bs = foldl fnv1a_step g bs \<longleftrightarrow> h = g"
  by (induction bs arbitrary: h g) (auto simp: fnv_step_state)

lemma fnv_one_byte: "fnv1a_32 (l @ x # r) = fnv1a_32 (l @ y # r) \<longleftrightarrow> x = y"
  by (simp add: fnv1a_32_def fnv_fold_state fnv_step_byte)

lemma fnv_detects:
  assumes "i < length bs" "x \<noteq> bs ! i"
  shows "fnv1a_32 (bs[i := x]) \<noteq> fnv1a_32 bs"
  using assms(2) fnv_one_byte [of "take i bs" x "drop (Suc i) bs" "bs ! i"]
  by (simp add: upd_conv_take_nth_drop [OF assms(1)] id_take_nth_drop [OF assms(1), symmetric])

lemma check_hash_corrupt:
  assumes "i < length (stable_hash raw)" "x \<noteq> stable_hash raw ! i"
  shows "check_hash ((stable_hash raw)[i := x]) = Inl ''Decompression failed: Hash mismatch''"
proof (cases "i < length raw")
  case True
  then have "(stable_hash raw)[i := x] = raw[i := x] @ le_bytes 4 (fnv1a_32 raw)"
    by (simp add: stable_hash_def list_update_append1)
  moreover have "fnv1a_32 (raw[i := x]) \<noteq> fnv1a_32 raw"
    using assms True by (intro fnv_detects) (auto simp: stable_hash_def nth_append)
  ultimately show ?thesis by (simp add: check_hash_def Let_def)
next
  case False
  let ?j = "i - length raw" and ?h = "le_bytes 4 (fnv1a_32 raw)"
  from False assms have j: "?j < 4" "x \<noteq> ?h ! ?j" by (auto simp: stable_hash_def nth_append)
  have "(stable_hash raw)[i := x] = raw @ ?h[?j := x]"
    using False by (simp add: stable_hash_def list_update_append)
  moreover have "?h[?j := x] \<noteq> ?h" using j by (metis length_le_bytes nth_list_update_eq)
  then have "(le_word (?h[?j := x]) :: u32) \<noteq> le_word ?h"
    by (subst le_word_inj [of _ 4]) simp_all
  ultimately show ?thesis by (auto simp: check_hash_def Let_def)
qed

text \<open>
  C6. With the stable hash on, no single corrupted byte survives: if any one byte of a
  compressed tick, payload or hash, arrives changed, decompression fails with a hash mismatch
  and the receiver's state is what it was.
\<close>

theorem corrupted_byte_rejected:
  assumes "compress_tick t c = (Inr data, c1)" "enable_stable_hash (config c)"
    "i < length data" "x \<noteq> data ! i" "enable_stable_hash (config d)"
  shows "decompress_tick (data[i := x]) d = (Inl ''Decompression failed: Hash mismatch'', d)"
proof -
  obtain rle where "data = stable_hash rle"
    using assms(1,2) by (auto simp: compress_tick_def Let_def split: if_splits)
  with assms(3-5) check_hash_corrupt show ?thesis by (simp add: decompress_tick_def)
qed

section \<open>The size cap\<close>

lemma length_delta [simp]: "length (delta_encode p cur) = 8 + length cur"
  by (simp add: delta_encode_def Let_def)

lemma length_rle: "length (rle_encode bs) \<le> 2 * length bs"
proof (induction bs rule: rle_encode.induct)
  case (2 b bs)
  then show ?case by (auto simp: Let_def intro: le_trans)
qed simp

text \<open>A tick whose image takes less than half the cap (and twelve bytes) always fits.\<close>

lemma compress_fits:
  assumes "2 * (length (serialize t) + 8) + 4 \<le> max_compressed_bytes (config c)"
  shows "\<exists>d. compress_tick t c =
    (Inr d, c\<lparr>previous_serialized := serialize t, has_previous := True\<rparr>)"
  using assms length_rle [of "serialize t"]
    length_rle [of "delta_encode (previous_serialized c) (serialize t)"]
  by (auto simp: compress_tick_def Let_def stable_hash_def)

lemma compress_all_fits:
  "list_all (\<lambda>t. 2 * (length (serialize t) + 8) + 4 \<le> max_compressed_bytes (config c)) ts \<Longrightarrow>
   \<exists>ds. compress_all ts c = Inr ds"
proof (induction ts arbitrary: c)
  case (Cons t ts)
  let ?c1 = "c\<lparr>previous_serialized := serialize t, has_previous := True\<rparr>"
  obtain d where "compress_tick t c = (Inr d, ?c1)"
    using compress_fits [of t c] Cons.prems by auto
  moreover obtain ds where "compress_all ts ?c1 = Inr ds"
    using Cons.IH [of ?c1] Cons.prems by auto
  ultimately show ?case by simp
qed simp

lemma length_write_vec: "length (write_vec wr xs) = 8 + (\<Sum>x\<leftarrow>xs. length (wr x))"
  by (simp add: write_vec_def length_concat o_def)

lemmas image_lengths = serialize_def write_node_def write_event_def length_write_vec Let_def
  sizeof_scheduler_state_def sizeof_engine_state_def sizeof_execution_envelope_def
  sizeof_gossip_summary_def sizeof_node_padding_def sizeof_peer_sync_state_def
  sizeof_queue_padding_def sizeof_coherence_summary_def sizeof_telemetry_def sizeof_clock_def

lemma length_sample: "length (serialize (sample_tick h)) = 2037"
  by (simp add: image_lengths sample_tick_def sample_node_def empty_view_def zero_clock_def)

lemma sample_fits: "\<exists>ds. compress_all [sample_tick 1, sample_tick 2] (new_compressor default_config) = Inr ds"
  by (rule compress_all_fits) (simp add: length_sample new_compressor_def default_config_def)

theorem compressed_stream_roundtrip_witness:
  "\<exists>ds. compress_all [sample_tick 1, sample_tick 2] (new_compressor default_config) = Inr ds \<and>
     decompress_all ds (new_compressor default_config) =
       Inr (map stored_part [sample_tick 1, sample_tick 2])"
proof -
  obtain ds where "compress_all [sample_tick 1, sample_tick 2] (new_compressor default_config) = Inr ds"
    using sample_fits by blast
  moreover from compressed_stream_roundtrip [OF this]
  have "decompress_all ds (new_compressor default_config) =
      Inr (map stored_part [sample_tick 1, sample_tick 2])"
    by (simp add: wf_sample_tick length_sample)
  ultimately show ?thesis by blast
qed

theorem corrupted_byte_rejected_witness:
  "\<exists>data. fst (compress_tick (sample_tick 1) (new_compressor default_config)) = Inr data \<and>
     decompress_tick (data[0 := data ! 0 + 1]) (new_compressor default_config) =
       (Inl ''Decompression failed: Hash mismatch'', new_compressor default_config)"
proof -
  let ?c = "new_compressor default_config"
  obtain data where d: "compress_tick (sample_tick 1) ?c =
      (Inr data, ?c\<lparr>previous_serialized := serialize (sample_tick 1), has_previous := True\<rparr>)"
    using compress_fits [of "sample_tick 1" ?c]
    by (auto simp: length_sample new_compressor_def default_config_def)
  then have "data \<noteq> []"
    by (auto simp: compress_tick_def Let_def new_compressor_def default_config_def stable_hash_def
        split: if_splits)
  with corrupted_byte_rejected [OF d, of 0 "data ! 0 + 1" ?c] d show ?thesis
    by (simp add: new_compressor_def default_config_def)
qed

text \<open>
  The size cap leaves the two ends out of step. \<open>compress_tick\<close> throws after it has already
  replaced its reference image, and nothing was sent: the next tick that does fit is then
  encoded against an image the receiver never saw, and a receiver that was in step decodes a
  different image from it without any error from the hash, the run lengths or the delta.
\<close>

theorem overflow_desynchronises:
  assumes "compress_tick t1 c = (Inl e, c1)" "compress_tick t2 c1 = (Inr d, c2)"
    and delta: "enable_delta (config c)" "has_previous c"
    and len: "length (serialize t2) < 2 ^ 64"
    and diff: "i < length (serialize t2)" "i < length (serialize t1)"
      "i < length (previous_serialized c)" "serialize t1 ! i \<noteq> previous_serialized c ! i"
  shows "has_previous (snd (decompress_tick d c)) \<and>
    previous_serialized (snd (decompress_tick d c)) \<noteq> serialize t2 \<and>
    length (previous_serialized (snd (decompress_tick d c))) = length (serialize t2)"
proof -
  let ?p = "previous_serialized c" and ?q = "serialize t1" and ?s = "serialize t2"
  have c1: "c1 = c\<lparr>previous_serialized := ?q, has_previous := True\<rparr>"
    using assms(1) by (auto simp: compress_tick_def Let_def split: if_splits)
  have n: "unat (of_nat (length ?s) :: u64) = length ?s"
    using len by (simp add: unsigned_of_nat take_bit_nat_eq_self)
  have at: "j < length ?s \<Longrightarrow> delta_encode ?q ?s ! (8 + j) = (if j < length ?q then ?s ! j - ?q ! j else ?s ! j)" for j
    by (auto simp: delta_encode_def Let_def nth_append min_def)
  have hd: "take 8 (delta_encode ?q ?s) = le_bytes 8 (of_nat (length ?s) :: u64)"
    by (simp add: delta_encode_def Let_def)
  obtain out where out: "delta_decode ?p (delta_encode ?q ?s) = Inr out"
    and olen: "length out = length ?s" and onth: "out ! i = ?s ! i - ?q ! i + ?p ! i"
    using diff by (auto simp: delta_decode_def hd n Let_def nth_append at min_def)
  have "out \<noteq> ?s"
  proof
    assume "out = ?s"
    with onth have "?p ! i - ?q ! i = 0" by (simp add: algebra_simps)
    with diff(4) show False by simp
  qed
  moreover have "previous_serialized (snd (decompress_tick d c)) = out \<and> has_previous (snd (decompress_tick d c))"
    using assms(2) delta c1 out
    by (auto simp: compress_tick_def decompress_tick_def Let_def check_stable_hash rle_roundtrip
        split: if_splits)
  ultimately show ?thesis using olen by simp
qed

definition small_cap :: compressor where
  "small_cap = \<lparr>config = \<lparr>enable_delta = True, enable_rle = False, enable_stable_hash = False,
       max_compressed_bytes = 2000\<rparr>,
     previous_serialized = serialize ((sample_tick 1)\<lparr>rt_replay_events := []\<rparr>),
     has_previous = True\<rparr>"

definition busy_tick :: replay_tick where
  "busy_tick = (sample_tick 2)\<lparr>rt_scheduler_state := replicate sizeof_scheduler_state 1\<rparr>"

definition quiet_tick :: replay_tick where
  "quiet_tick = (sample_tick 3)\<lparr>rt_replay_events := []\<rparr>"

lemma length_no_events: "length (serialize ((sample_tick h)\<lparr>rt_replay_events := []\<rparr>)) = 1964"
  by (simp add: image_lengths sample_tick_def sample_node_def empty_view_def zero_clock_def)

lemma length_busy: "length (serialize busy_tick) = 2037"
  by (simp add: image_lengths busy_tick_def sample_tick_def sample_node_def empty_view_def zero_clock_def)

theorem overflow_desynchronises_witness:
  "\<exists>d. fst (compress_tick quiet_tick (snd (compress_tick busy_tick small_cap))) = Inr d \<and>
     previous_serialized (snd (decompress_tick d small_cap)) \<noteq> serialize quiet_tick"
proof -
  let ?c1 = "small_cap\<lparr>previous_serialized := serialize busy_tick\<rparr>"
  let ?d = "delta_encode (serialize busy_tick) (serialize quiet_tick)"
  have 1: "compress_tick busy_tick small_cap = (Inl ''Deterministic compression overflow'', ?c1)"
    by (simp add: compress_tick_def small_cap_def Let_def length_busy)
  have 2: "compress_tick quiet_tick ?c1 = (Inr ?d, ?c1\<lparr>previous_serialized := serialize quiet_tick\<rparr>)"
    by (simp add: compress_tick_def small_cap_def Let_def quiet_tick_def length_no_events)
  have "serialize busy_tick ! 4 \<noteq> previous_serialized small_cap ! 4"
    by (simp add: small_cap_def busy_tick_def serialize_def Let_def nth_append
        sample_tick_def sizeof_scheduler_state_def)
  with overflow_desynchronises [OF 1 2, of 4] 1 2 show ?thesis
    by (simp add: small_cap_def quiet_tick_def length_no_events length_busy)
qed

end
