(* ===== verification/L1Sync.thy ===== *)
theory L1Sync
  imports Hex "HOL-Library.Multiset"
begin

text \<open>
  Deterministic ingestion of Bitcoin headers and mempool deltas: \<open>include/l1_sync/*.hpp\<close>,
  \<open>src/l1_sync/mainnet_sync.cpp\<close> and \<open>src/l1_sync/reorg_detector.cpp\<close>. A 32-byte array is a
  byte list. The two doubles of the clock only ever hold integers and are naturals here; the
  floating-point metrics of \<open>simulate_sync_cycle_metrics\<close>, which nothing else reads, are not
  modelled. \<open>ingest_headers\<close> leaves some fields of a fresh \<open>SyncEvent\<close> uninitialised: their
  contents are the argument \<open>uninit\<close>.
\<close>

section \<open>Data\<close>

record block_header =
  bh_version :: "32 word"
  bh_prev_hash :: bytes
  bh_merkle_root :: bytes
  bh_timestamp :: u32
  bh_nBits :: u32
  bh_nonce :: u32
  bh_hash :: bytes
  bh_height :: u64

record mempool_delta =
  md_is_add :: bool
  md_txid :: bytes
  md_fee :: u64
  md_size :: u32

datatype mempool_entry = MempoolEntry (me_txid: bytes) (me_fee: u64) (me_size: u32)

text \<open>\<open>MempoolEntry::operator<\<close>: transaction id, then fee, then size.\<close>

definition mempool_before :: "mempool_entry \<Rightarrow> mempool_entry \<Rightarrow> bool" where
  "mempool_before a b \<longleftrightarrow>
     (if me_txid a \<noteq> me_txid b then me_txid a < me_txid b
      else if me_fee a \<noteq> me_fee b then me_fee a < me_fee b
      else me_size a < me_size b)"

instantiation mempool_entry :: linorder
begin

definition less_mempool_entry :: "mempool_entry \<Rightarrow> mempool_entry \<Rightarrow> bool" where
  "less_mempool_entry a b \<longleftrightarrow> mempool_before a b"

definition less_eq_mempool_entry :: "mempool_entry \<Rightarrow> mempool_entry \<Rightarrow> bool" where
  "less_eq_mempool_entry a b \<longleftrightarrow> a < b \<or> a = (b :: mempool_entry)"

instance
proof
  fix a b c :: mempool_entry
  show "(a < b) = (a \<le> b \<and> \<not> b \<le> a)"
    by (auto simp: less_eq_mempool_entry_def less_mempool_entry_def mempool_before_def split: if_splits)
  show "a \<le> a" by (simp add: less_eq_mempool_entry_def)
  show "a \<le> b \<Longrightarrow> b \<le> c \<Longrightarrow> a \<le> c"
    by (auto simp: less_eq_mempool_entry_def less_mempool_entry_def mempool_before_def split: if_splits)
  show "a \<le> b \<Longrightarrow> b \<le> a \<Longrightarrow> a = b"
    by (auto simp: less_eq_mempool_entry_def less_mempool_entry_def mempool_before_def split: if_splits)
  show "a \<le> b \<or> b \<le> a"
    by (cases a; cases b) (auto simp: less_eq_mempool_entry_def less_mempool_entry_def mempool_before_def)
qed

end

datatype sync_event_type = HeaderApplied | ReorgDetected | MempoolDeltaApplied

record sync_event =
  se_type :: sync_event_type
  se_height :: u64
  se_reorg_target_height :: u64
  se_block_hash :: bytes
  se_txid :: bytes

record clock_state =
  ck_height :: u64
  ck_consensus_time :: nat
  ck_interval_seconds :: nat

record sync_manager =
  max_buffer_size :: nat
  header_buffer :: "block_header list"
  mempool :: "mempool_entry list"
  clock :: clock_state
  pending_events :: "sync_event list"

definition new_sync_manager :: "nat \<Rightarrow> sync_manager" where
  "new_sync_manager max_buf_size =
     \<lparr>max_buffer_size = max_buf_size, header_buffer = [], mempool = [],
      clock = \<lparr>ck_height = 0, ck_consensus_time = 0, ck_interval_seconds = 600\<rparr>,
      pending_events = []\<rparr>"

section \<open>Reorganisations\<close>

record reorg_resolution =
  reorg_occurred :: bool
  rollback_height :: u64
  detached_blocks :: "bytes list"
  attached_blocks :: "bytes list"

fun branch_point :: "bytes list \<Rightarrow> bytes list \<Rightarrow> nat" where
  "branch_point (x # xs) (y # ys) = (if x = y then Suc (branch_point xs ys) else 0)"
| "branch_point _ _ = 0"

definition detect_and_resolve :: "bytes list \<Rightarrow> bytes list \<Rightarrow> reorg_resolution" where
  "detect_and_resolve current_chain new_chain =
     (let branch_idx = branch_point current_chain new_chain in
      if branch_idx < length current_chain then
        \<lparr>reorg_occurred = True, rollback_height = of_nat branch_idx,
         detached_blocks = drop branch_idx current_chain,
         attached_blocks = drop branch_idx new_chain\<rparr>
      else \<lparr>reorg_occurred = False, rollback_height = 0, detached_blocks = [], attached_blocks = []\<rparr>)"

section \<open>Headers\<close>

text \<open>The buffer with its newest header last; the loop pops from that end.\<close>

function pop_fallback :: "block_header \<Rightarrow> block_header list \<Rightarrow> block_header list" where
  "pop_fallback header buf =
     (if buf \<noteq> [] \<and> (bh_height (last buf) \<ge> bh_height header \<or>
                       bh_hash (last buf) \<noteq> bh_prev_hash header)
      then pop_fallback header (butlast buf) else buf)"
  by pat_completeness auto

termination
  by (relation "measure (\<lambda>(_, buf). length buf)") auto

declare pop_fallback.simps [simp del]

definition resolve_tip :: "sync_event \<Rightarrow> block_header \<Rightarrow> sync_manager \<Rightarrow> sync_manager" where
  "resolve_tip uninit header m =
     (if header_buffer m = [] then m
      else let tip = last (header_buffer m) in
        if bh_hash tip \<noteq> bh_prev_hash header \<or> bh_height header \<le> bh_height tip then
          let resolution = detect_and_resolve (map bh_hash (header_buffer m)) [bh_hash header] in
          if reorg_occurred resolution then
            m\<lparr>pending_events := pending_events m @
                 [uninit\<lparr>se_type := ReorgDetected, se_height := bh_height tip,
                         se_reorg_target_height := rollback_height resolution,
                         se_block_hash := bh_hash header\<rparr>],
              header_buffer := take (unat (rollback_height resolution)) (header_buffer m)\<rparr>
          else m\<lparr>header_buffer := pop_fallback header (header_buffer m)\<rparr>
        else m)"

definition push_header :: "sync_event \<Rightarrow> block_header \<Rightarrow> sync_manager \<Rightarrow> sync_manager" where
  "push_header uninit header m =
     (let buf = header_buffer m @ [header] in
      m\<lparr>header_buffer := (if length buf > max_buffer_size m then tl buf else buf),
        pending_events := pending_events m @
          [uninit\<lparr>se_type := HeaderApplied, se_height := bh_height header,
                  se_block_hash := bh_hash header\<rparr>]\<rparr>)"

definition ingest_header :: "sync_event \<Rightarrow> sync_manager \<Rightarrow> block_header \<Rightarrow> sync_manager" where
  "ingest_header uninit m header =
     (let m1 = resolve_tip uninit header m in
      if bh_version header <s 1 then m1 else push_header uninit header m1)"

definition update_clock :: "sync_manager \<Rightarrow> sync_manager" where
  "update_clock m =
     (if header_buffer m = [] then m
      else let times = sort (map bh_timestamp (take 11 (rev (header_buffer m)))) in
        m\<lparr>clock := (clock m)\<lparr>ck_height := bh_height (last (header_buffer m)),
             ck_consensus_time := (if times \<noteq> [] then unat (times ! (length times div 2))
                                   else ck_consensus_time (clock m))\<rparr>\<rparr>)"

definition ingest_headers :: "sync_event \<Rightarrow> block_header list \<Rightarrow> sync_manager \<Rightarrow> sync_manager" where
  "ingest_headers uninit headers m = update_clock (foldl (ingest_header uninit) m headers)"

section \<open>Mempool deltas\<close>

definition delta_event :: "u64 \<Rightarrow> bytes \<Rightarrow> bytes \<Rightarrow> sync_event" where
  "delta_event current_height current_hash txid =
     \<lparr>se_type = MempoolDeltaApplied, se_height = current_height, se_reorg_target_height = 0,
      se_block_hash = current_hash, se_txid = txid\<rparr>"

text \<open>One delta on the unsorted snapshot, the events and the flag \<open>changed\<close>.\<close>

definition apply_delta ::
    "u64 \<Rightarrow> bytes \<Rightarrow> mempool_entry list \<times> sync_event list \<times> bool \<Rightarrow> mempool_delta \<Rightarrow>
     mempool_entry list \<times> sync_event list \<times> bool" where
  "apply_delta height hash = (\<lambda>(pool, evs, changed) d.
     if md_is_add d then
       (pool @ [MempoolEntry (md_txid d) (md_fee d) (md_size d)],
        evs @ [delta_event height hash (md_txid d)], True)
     else
       let kept = filter (\<lambda>e. me_txid e \<noteq> md_txid d) pool in
       if length kept \<noteq> length pool
       then (kept, evs @ [delta_event height hash (md_txid d)], True)
       else (pool, evs, changed))"

definition ingest_mempool_deltas :: "mempool_delta list \<Rightarrow> sync_manager \<Rightarrow> sync_manager" where
  "ingest_mempool_deltas deltas m =
     (let hash = (if header_buffer m \<noteq> [] then bh_hash (last (header_buffer m)) else replicate 32 0);
          (pool, evs, changed) = foldl (apply_delta (ck_height (clock m)) hash)
             (mempool m, pending_events m, False) deltas
      in m\<lparr>mempool := (if changed then sort pool else pool), pending_events := evs\<rparr>)"

definition drain_sync_events :: "sync_manager \<Rightarrow> sync_event list \<times> sync_manager" where
  "drain_sync_events m = (pending_events m, m\<lparr>pending_events := []\<rparr>)"

definition entry_sum :: "u64 \<Rightarrow> mempool_entry \<Rightarrow> u64" where
  "entry_sum acc e = foldl (\<lambda>s b. s + ucast b) (acc + me_fee e + ucast (me_size e)) (me_txid e)"

definition compute_utxo_reflection_hash :: "sync_manager \<Rightarrow> string" where
  "compute_utxo_reflection_hash m =
     (let sm = foldl entry_sum (ck_height (clock m)) (mempool m) in
      map (\<lambda>i. ''0123456789abcdef'' ! unat (and (drop_bit ((7 - i) * 4) sm) 0x0F)) [0..<8])"

end
