(* ===== verification/L1Sync_Props.thy ===== *)
theory L1Sync_Props
  imports L1Sync
begin

text \<open>
  Properties of L1 ingestion: what a reorganisation does to the header window, when the window is
  a chain, the median clock, and the mempool snapshot against its abstract specification, a
  multiset of entries.
\<close>

section \<open>Reorganisations\<close>

lemma branch_point_single: "branch_point xs [y] \<le> 1"
  by (cases xs) auto

lemma take_branch: "length (take (branch_point xs [y]) zs) \<le> 1"
  using branch_point_single [of xs y] by simp

abbreviation off_tip :: "sync_manager \<Rightarrow> block_header \<Rightarrow> bool" where
  "off_tip m h \<equiv> header_buffer m \<noteq> [] \<and>
     (bh_hash (last (header_buffer m)) \<noteq> bh_prev_hash h \<or>
      bh_height h \<le> bh_height (last (header_buffer m)))"

lemma pop_fallback_length: "length (pop_fallback h buf) \<le> length buf"
  by (induction h buf rule: pop_fallback.induct) (subst pop_fallback.simps, auto)

lemma branch_all: "\<not> branch_point (map bh_hash buf) [x] < length buf \<Longrightarrow> length buf \<le> 1"
  using branch_point_single [of "map bh_hash buf" x] by linarith

lemma resolve_off_tip:
  assumes "off_tip m h"
  shows "length (header_buffer (resolve_tip u h m)) \<le> 1"
    and "\<forall>e \<in> set (drop (length (pending_events m)) (pending_events (resolve_tip u h m))).
      se_reorg_target_height e \<le> 1"
proof -
  let ?b = "branch_point (map bh_hash (header_buffer m)) [bh_hash h]"
  have b: "?b \<le> 1" by (rule branch_point_single)
  then have u: "unat (of_nat ?b :: u64) = ?b" "(of_nat ?b :: u64) \<le> 1"
    by (cases ?b; simp add: word_le_nat_alt)+
  have f: "length (pop_fallback h (header_buffer m)) \<le> 1" if "\<not> ?b < length (header_buffer m)"
    using pop_fallback_length [of h "header_buffer m"] branch_all [OF that] by linarith
  show "length (header_buffer (resolve_tip u h m)) \<le> 1"
    using assms b u f by (auto simp: resolve_tip_def detect_and_resolve_def Let_def)
  show "\<forall>e \<in> set (drop (length (pending_events m)) (pending_events (resolve_tip u h m))).
      se_reorg_target_height e \<le> 1"
    using assms u by (auto simp: resolve_tip_def detect_and_resolve_def Let_def)
qed

text \<open>
  A reorganisation throws the whole header window away. Whenever a header does not extend the
  tip, at most the oldest buffered header survives beside the new one, however deep the window
  was, and every reorganisation event reports target height 0 or 1: an index into the window,
  where its consumers expect a chain height. This holds for a header with an invalid version too.
\<close>

theorem reorg_drops_window:
  assumes "off_tip m h"
  shows "length (header_buffer (ingest_header u m h)) \<le> 2 \<and>
    (\<forall>e \<in> set (drop (length (pending_events m)) (pending_events (ingest_header u m h))).
       se_type e = ReorgDetected \<longrightarrow> se_reorg_target_height e \<le> 1)"
proof -
  have "length (pending_events m) \<le> length (pending_events (resolve_tip u h m))"
    by (simp add: resolve_tip_def Let_def)
  with resolve_off_tip [OF assms, of u] show ?thesis
    by (auto simp: ingest_header_def push_header_def Let_def)
qed

definition demo_header :: "nat \<Rightarrow> nat \<Rightarrow> nat \<Rightarrow> block_header" where
  "demo_header prev hash height = \<lparr>bh_version = 1, bh_prev_hash = replicate 32 (of_nat prev),
     bh_merkle_root = replicate 32 0, bh_timestamp = of_nat height, bh_nBits = 0, bh_nonce = 0,
     bh_hash = replicate 32 (of_nat hash), bh_height = of_nat height\<rparr>"

definition demo_window :: sync_manager where
  "demo_window = (new_sync_manager 144)\<lparr>header_buffer :=
     [demo_header 0 1 100, demo_header 1 2 101, demo_header 2 3 102]\<rparr>"

theorem reorg_drops_window_witness:
  "\<forall>u. length (header_buffer (ingest_header u demo_window (demo_header 2 9 102))) \<le> 2"
  using reorg_drops_window [of demo_window "demo_header 2 9 102"]
  by (simp add: demo_window_def demo_header_def new_sync_manager_def)

section \<open>The window as a chain\<close>

definition chain :: "block_header list \<Rightarrow> bool" where
  "chain = successively (\<lambda>a b. bh_prev_hash b = bh_hash a \<and> bh_height a < bh_height b)"

lemma chain_snoc:
  "chain (buf @ [h]) \<longleftrightarrow> chain buf \<and>
     (buf = [] \<or> (bh_prev_hash h = bh_hash (last buf) \<and> bh_height (last buf) < bh_height h))"
  by (cases "buf = []") (auto simp: chain_def successively_append_iff)

lemma chain_tl: "chain buf \<Longrightarrow> chain (tl buf)"
  by (cases buf) (auto simp: chain_def successively_Cons)

lemma resolve_chain:
  assumes "chain (header_buffer m)" "bh_hash h \<notin> bh_hash ` set (header_buffer m)"
  shows "chain (header_buffer (resolve_tip u h m) @ [h]) \<and>
    (header_buffer (resolve_tip u h m) = header_buffer m \<or> header_buffer (resolve_tip u h m) = [])"
proof (cases "off_tip m h")
  case True
  then obtain x xs where "header_buffer m = x # xs" by (cases "header_buffer m") auto
  with assms(2) have "branch_point (map bh_hash (header_buffer m)) [bh_hash h] = 0" by auto
  with True show ?thesis by (simp add: resolve_tip_def detect_and_resolve_def Let_def chain_def)
next
  case False
  then have "resolve_tip u h m = m" by (auto simp: resolve_tip_def Let_def)
  with False assms(1) show ?thesis by (auto simp: chain_snoc not_le)
qed

lemma ingest_chain:
  assumes "chain (header_buffer m)" "bh_hash h \<notin> bh_hash ` set (header_buffer m)"
  shows "chain (header_buffer (ingest_header u m h)) \<and>
    set (header_buffer (ingest_header u m h)) \<subseteq> insert h (set (header_buffer m))"
proof -
  let ?buf = "header_buffer (resolve_tip u h m)"
  have c: "chain (?buf @ [h])" "?buf = header_buffer m \<or> ?buf = []"
    using resolve_chain [OF assms] by auto
  then have "chain ?buf" by (simp add: chain_snoc)
  moreover have "chain (tl (?buf @ [h]))" using c(1) by (rule chain_tl)
  moreover have "set (tl (?buf @ [h])) \<subseteq> insert h (set (header_buffer m))"
    using c(2) by (auto dest: list.set_sel(2) [rotated])
  ultimately show ?thesis using c by (auto simp: ingest_header_def push_header_def Let_def)
qed

lemma length_ingest:
  "length (header_buffer m) \<le> max_buffer_size m \<Longrightarrow>
   length (header_buffer (ingest_header u m h)) \<le> max_buffer_size m \<and>
   max_buffer_size (ingest_header u m h) = max_buffer_size m"
proof -
  assume b: "length (header_buffer m) \<le> max_buffer_size m"
  have "length (header_buffer (resolve_tip u h m)) \<le> length (header_buffer m)"
    "max_buffer_size (resolve_tip u h m) = max_buffer_size m"
    using pop_fallback_length [of h "header_buffer m"]
    by (auto simp: resolve_tip_def Let_def)
  with b show ?thesis by (auto simp: ingest_header_def push_header_def Let_def)
qed

lemma update_clock_buffer: "header_buffer (update_clock m) = header_buffer m"
  by (simp add: update_clock_def Let_def)

text \<open>
  The header window is a bounded chain: if a batch brings only new block hashes, then after
  it, as before, each buffered header points to its predecessor, heights increase strictly, and
  the window holds at most its configured number of headers. (The hypothesis is needed: a header
  that repeats the oldest buffered hash is appended to a window that it does not extend.)
\<close>

theorem header_window_chain:
  assumes "chain (header_buffer m)" "length (header_buffer m) \<le> max_buffer_size m"
    "distinct (map bh_hash hs)" "bh_hash ` set hs \<inter> bh_hash ` set (header_buffer m) = {}"
  shows "chain (header_buffer (ingest_headers u hs m)) \<and>
    length (header_buffer (ingest_headers u hs m)) \<le> max_buffer_size m"
proof -
  have "chain (header_buffer (foldl (ingest_header u) m hs)) \<and>
      length (header_buffer (foldl (ingest_header u) m hs)) \<le> max_buffer_size m"
    using assms
  proof (induction hs arbitrary: m)
    case (Cons h hs)
    let ?m = "ingest_header u m h"
    have h: "bh_hash h \<notin> bh_hash ` set (header_buffer m)" using Cons.prems by auto
    have "bh_hash ` set hs \<inter> bh_hash ` insert h (set (header_buffer m)) = {}"
      using Cons.prems by auto
    then have "bh_hash ` set hs \<inter> bh_hash ` set (header_buffer ?m) = {}"
      using ingest_chain [OF Cons.prems(1) h, of u] by blast
    with Cons.IH [of ?m] ingest_chain [OF Cons.prems(1) h, of u] length_ingest [OF Cons.prems(2), of u h] Cons.prems
    show ?case by auto
  qed simp
  then show ?thesis by (simp only: ingest_headers_def update_clock_buffer)
qed

theorem header_window_chain_witness:
  "\<forall>u. chain (header_buffer (ingest_headers u [demo_header 3 4 103, demo_header 3 5 103] demo_window))"
  using header_window_chain [of demo_window "[demo_header 3 4 103, demo_header 3 5 103]"]
  by (simp add: demo_window_def demo_header_def new_sync_manager_def chain_def word_less_nat_alt)

section \<open>The clock\<close>

lemma sorted_below:
  "sorted xs \<Longrightarrow> k < length xs \<Longrightarrow> length (filter (\<lambda>x. x < xs ! k) xs) \<le> k"
proof -
  assume s: "sorted xs" and k: "k < length xs"
  have "filter (\<lambda>x. x < xs ! k) (drop k xs) = []"
    using s k by (auto simp: filter_empty_conv in_set_conv_nth not_less sorted_nth_mono)
  then have "filter (\<lambda>x. x < xs ! k) xs = filter (\<lambda>x. x < xs ! k) (take k xs)"
    by (metis append_Nil2 append_take_drop_id filter_append)
  then show ?thesis using length_filter_le [of _ "take k xs"] k by simp
qed

lemma sorted_above:
  "sorted xs \<Longrightarrow> k < length xs \<Longrightarrow> length (filter (\<lambda>x. xs ! k < x) xs) \<le> length xs - Suc k"
proof -
  assume s: "sorted xs" and k: "k < length xs"
  have "filter (\<lambda>x. xs ! k < x) (take (Suc k) xs) = []"
    using s k by (auto simp: filter_empty_conv in_set_conv_nth not_less sorted_nth_mono)
  then have "filter (\<lambda>x. xs ! k < x) xs = filter (\<lambda>x. xs ! k < x) (drop (Suc k) xs)"
    by (metis append_Nil append_take_drop_id filter_append)
  then show ?thesis using length_filter_le [of _ "drop (Suc k) xs"] by simp
qed

lemma length_filter_sort: "length (filter P (sort xs)) = length (filter P xs)"
proof -
  have "size (filter_mset P (mset (sort xs))) = size (filter_mset P (mset xs))" by simp
  then show ?thesis by (simp only: mset_filter [symmetric] size_mset)
qed

lemma sort_Nil_iff: "sort xs = [] \<longleftrightarrow> xs = []"
  by (metis length_0_conv length_sort)

lemma median_of:
  fixes ts :: "'a::linorder list"
  assumes "ts \<noteq> []"
  defines "c \<equiv> sort ts ! (length ts div 2)"
  shows "c \<in> set ts" and "length (filter (\<lambda>t. t < c) ts) \<le> length ts div 2"
    and "length (filter (\<lambda>t. c < t) ts) \<le> (length ts - 1) div 2"
proof -
  have k: "length ts div 2 < length (sort ts)" using assms(1) by (cases ts) auto
  show "c \<in> set ts" using nth_mem [OF k] by (simp add: c_def)
  show "length (filter (\<lambda>t. t < c) ts) \<le> length ts div 2"
    using sorted_below [OF sorted_sort k] by (simp only: length_filter_sort c_def)
  have "length (filter (\<lambda>t. c < t) ts) \<le> length (sort ts) - Suc (length ts div 2)"
    using sorted_above [OF sorted_sort k] by (simp only: length_filter_sort c_def)
  then show "length (filter (\<lambda>t. c < t) ts) \<le> (length ts - 1) div 2" by simp
qed

lemma unat_less_filter: "(\<lambda>t. unat t < unat c) = (\<lambda>t. t < (c :: 'a::len word))"
    "(\<lambda>t. unat c < unat t) = (\<lambda>t. (c :: 'a::len word) < t)"
  by (simp_all add: fun_eq_iff word_less_nat_alt)

text \<open>
  The consensus time is the median of the last (at most eleven) buffered timestamps: it is
  one of them, at most half of them are smaller and at most half are greater, so no minority of
  headers can move it outside the range of the others.
\<close>

theorem clock_is_median:
  assumes "header_buffer m \<noteq> []"
  shows "let ts = map bh_timestamp (take 11 (rev (header_buffer m)));
      c = ck_consensus_time (clock (update_clock m)) in
    c \<in> unat ` set ts \<and> length (filter (\<lambda>t. unat t < c) ts) \<le> length ts div 2 \<and>
    length (filter (\<lambda>t. c < unat t) ts) \<le> (length ts - 1) div 2 \<and>
    ck_height (clock (update_clock m)) = bh_height (last (header_buffer m))"
proof -
  define ts where "ts = map bh_timestamp (take 11 (rev (header_buffer m)))"
  have ne: "ts \<noteq> []" using assms by (simp add: ts_def)
  then have c: "ck_consensus_time (clock (update_clock m)) = unat (sort ts ! (length ts div 2))"
    using assms by (simp add: update_clock_def Let_def sort_Nil_iff ts_def [symmetric])
  have h: "ck_height (clock (update_clock m)) = bh_height (last (header_buffer m))"
    using assms by (simp add: update_clock_def Let_def)
  show ?thesis
    unfolding Let_def ts_def [symmetric] c h unat_less_filter using median_of [OF ne] by blast
qed

theorem clock_is_median_witness:
  "ck_height (clock (update_clock demo_window)) = 102"
  using clock_is_median [of demo_window] by (simp add: demo_window_def demo_header_def Let_def)

section \<open>The mempool\<close>

text \<open>The specification: a multiset of entries, and what one delta does to it.\<close>

definition abs_delta :: "mempool_entry multiset \<Rightarrow> mempool_delta \<Rightarrow> mempool_entry multiset" where
  "abs_delta M d =
     (if md_is_add d then add_mset (MempoolEntry (md_txid d) (md_fee d) (md_size d)) M
      else filter_mset (\<lambda>e. me_txid e \<noteq> md_txid d) M)"

lemma filter_same_length: "length (filter P xs) = length xs \<Longrightarrow> filter P xs = xs"
  by (metis filter_True length_filter_less less_irrefl)

lemma apply_delta_abs:
  "apply_delta h k (pool, evs, ch) d = (pool', evs', ch') \<Longrightarrow>
   mset pool' = abs_delta (mset pool) d \<and> (ch' \<or> (\<not> ch \<and> pool' = pool))"
  by (auto simp: apply_delta_def abs_delta_def Let_def dest: filter_same_length
      simp flip: mset_filter split: if_splits)

lemma apply_deltas_abs:
  "foldl (apply_delta h k) (pool, evs, ch) ds = (pool', evs', ch') \<Longrightarrow>
   mset pool' = foldl abs_delta (mset pool) ds \<and> (ch' \<or> (\<not> ch \<and> pool' = pool))"
proof (induction ds arbitrary: pool evs ch)
  case (Cons d ds)
  obtain p e c where s: "apply_delta h k (pool, evs, ch) d = (p, e, c)" by (metis prod_cases3)
  with Cons.prems have "foldl (apply_delta h k) (p, e, c) ds = (pool', evs', ch')" by simp
  from Cons.IH [OF this] apply_delta_abs [OF s] show ?case by auto
qed auto

text \<open>
  The snapshot refines its specification: after a batch of deltas the mempool is exactly the
  sorted list of the multiset that the deltas, one by one, make of the old entries. So the
  snapshot, and the hash computed over it, depend only on which entries are in it, not on the
  order in which they arrived.
\<close>

theorem mempool_refines_multiset:
  assumes "sorted (mempool m)"
  shows "mempool (ingest_mempool_deltas ds m) =
    sorted_list_of_multiset (foldl abs_delta (mset (mempool m)) ds)"
proof -
  let ?h = "if header_buffer m \<noteq> [] then bh_hash (last (header_buffer m)) else replicate 32 0"
  obtain pool evs ch where r: "foldl (apply_delta (ck_height (clock m)) ?h)
      (mempool m, pending_events m, False) ds = (pool, evs, ch)" by (metis prod_cases3)
  from apply_deltas_abs [OF r]
  have "mset pool = foldl abs_delta (mset (mempool m)) ds" "ch \<or> pool = mempool m" by auto
  moreover have "mempool (ingest_mempool_deltas ds m) = (if ch then sort pool else pool)"
    using r by (simp add: ingest_mempool_deltas_def Let_def)
  ultimately show ?thesis
    using assms by (metis sorted_list_of_multiset_mset sorted_sort_id)
qed

theorem mempool_refines_multiset_witness:
  "mempool (ingest_mempool_deltas
     [\<lparr>md_is_add = True, md_txid = [2], md_fee = 5, md_size = 1\<rparr>,
      \<lparr>md_is_add = True, md_txid = [1], md_fee = 7, md_size = 1\<rparr>,
      \<lparr>md_is_add = False, md_txid = [2], md_fee = 0, md_size = 0\<rparr>] (new_sync_manager 144)) =
   [MempoolEntry [1] 7 1]"
  using mempool_refines_multiset [of "new_sync_manager 144"]
  by (simp add: new_sync_manager_def abs_delta_def)

end
