(* ===== verification/ReplayEngine.thy ===== *)
theory ReplayEngine
  imports Compressor L1Sync_Props
begin

text \<open>
  Recording and replaying ticks: \<open>include/l4/ReplayBuffer.h\<close>, \<open>src/l4/ReplayBuffer.cpp\<close>,
  and \<open>step\<close>, \<open>replay_tick\<close> and \<open>verify_tick\<close> of \<open>src/l4/ReplayEngine.cpp\<close>. The JSON export of
  a tick is the parameter \<open>to_json\<close>. A default-constructed queue leaves its padding
  uninitialised, so \<open>step\<close> takes those bytes as an argument. Reading and writing replay files is
  not modelled.
\<close>

section \<open>From sync events to a tick\<close>

record replay_state =
  rs_current_height :: u64
  rs_last_reorg_height :: u64
  rs_applied_event_count :: u64

record replay_input =
  rin_events :: "sync_event list"
  rin_clock :: bytes

text \<open>One event: the height of the tick so far, and the events written so far.\<close>

definition replay_one :: "u64 \<times> replay_event list \<Rightarrow> sync_event \<Rightarrow> u64 \<times> replay_event list" where
  "replay_one = (\<lambda>(height, res) ev.
     case se_type ev of
       HeaderApplied \<Rightarrow>
         (se_height ev, res @ [\<lparr>re_type = 0, re_height = se_height ev,
            re_block_hash = se_block_hash ev, re_txid = replicate 32 0\<rparr>])
     | ReorgDetected \<Rightarrow>
         (se_reorg_target_height ev, res @ [\<lparr>re_type = 1, re_height = se_reorg_target_height ev,
            re_block_hash = se_block_hash ev, re_txid = replicate 32 0\<rparr>])
     | MempoolDeltaApplied \<Rightarrow>
         (height, res @ [\<lparr>re_type = 2, re_height = height,
            re_block_hash = se_block_hash ev, re_txid = se_txid ev\<rparr>]))"

definition replay_step :: "bytes \<Rightarrow> replay_state \<Rightarrow> replay_input \<Rightarrow> replay_tick" where
  "replay_step qpad previous inp =
     (let (height, res) = foldl replay_one (rs_current_height previous, []) (rin_events inp) in
      \<lparr>rt_scheduler_state = replicate sizeof_scheduler_state 0,
       rt_view = \<lparr>vi_nodes = [], vi_mesh_envelopes = [], vi_messages = [], vi_queue_padding = qpad,
         vi_total_nodes = 0, vi_total_steps = 0,
         vi_coherence_summary = replicate sizeof_coherence_summary 0, vi_clock = rin_clock inp,
         vi_replay_events = res\<rparr>,
       rt_telemetry = replicate sizeof_telemetry 0, rt_height = height, rt_clock = rin_clock inp,
       rt_replay_events = res\<rparr>)"

section \<open>The replay buffer\<close>

record replay_buffer =
  scheduler_snapshots :: "bytes list"
  view_snapshots :: "view_image list"
  telemetry_snapshots :: "bytes list"
  compressed_ticks :: "bytes list"
  rb_compressor :: compressor
  external_json_ticks :: "string list"

definition new_replay_buffer :: replay_buffer where
  "new_replay_buffer = \<lparr>scheduler_snapshots = [], view_snapshots = [], telemetry_snapshots = [],
     compressed_ticks = [], rb_compressor = new_compressor default_config, external_json_ticks = []\<rparr>"

definition recorded_tick :: "bytes \<Rightarrow> view_image \<Rightarrow> bytes \<Rightarrow> replay_tick" where
  "recorded_tick sched view tel =
     \<lparr>rt_scheduler_state = sched, rt_view = view, rt_telemetry = tel, rt_height = 0,
      rt_clock = vi_clock view, rt_replay_events = vi_replay_events view\<rparr>"

definition record_tick ::
    "(nat \<Rightarrow> replay_tick \<Rightarrow> string) \<Rightarrow> bytes \<Rightarrow> view_image \<Rightarrow> bytes \<Rightarrow> replay_buffer \<Rightarrow>
     (string + unit) \<times> replay_buffer" where
  "record_tick to_json sched view tel b =
     (let tick = recorded_tick sched view tel in
      case compress_tick tick (rb_compressor b) of
        (Inl e, c) \<Rightarrow> (Inl e, b\<lparr>rb_compressor := c\<rparr>)
      | (Inr compressed, c) \<Rightarrow>
          (Inr (), b\<lparr>rb_compressor := c,
             compressed_ticks := compressed_ticks b @ [compressed],
             external_json_ticks := external_json_ticks b @
               [to_json (length (scheduler_snapshots b)) tick],
             scheduler_snapshots := scheduler_snapshots b @ [sched],
             view_snapshots := view_snapshots b @ [view],
             telemetry_snapshots := telemetry_snapshots b @ [tel]\<rparr>))"

definition replay_tick_at :: "nat \<Rightarrow> replay_buffer \<Rightarrow> (bytes \<times> view_image \<times> bytes) option" where
  "replay_tick_at i b =
     (if i \<ge> length (scheduler_snapshots b) then None
      else Some (scheduler_snapshots b ! i, view_snapshots b ! i, telemetry_snapshots b ! i))"

definition verify_tick :: "nat \<Rightarrow> bytes \<Rightarrow> view_image \<Rightarrow> bytes \<Rightarrow> replay_buffer \<Rightarrow> bool" where
  "verify_tick i sched view tel b =
     (if i \<ge> length (scheduler_snapshots b) then False
      else if sched \<noteq> scheduler_snapshots b ! i then False
      else if tel \<noteq> telemetry_snapshots b ! i then False
      else let v = view_snapshots b ! i in
        if vi_total_nodes view \<noteq> vi_total_nodes v then False
        else if vi_total_steps view \<noteq> vi_total_steps v then False
        else if vi_coherence_summary view \<noteq> vi_coherence_summary v then False
        else if vi_clock view \<noteq> vi_clock v then False
        else if vi_replay_events view \<noteq> vi_replay_events v then False
        else if vi_nodes view \<noteq> vi_nodes v then False
        else if vi_mesh_envelopes view \<noteq> vi_mesh_envelopes v then False
        else vi_messages view = vi_messages v)"

section \<open>Recording a run\<close>

text \<open>Ticks recorded one after another, up to the first exception.\<close>

fun record_all ::
    "(nat \<Rightarrow> replay_tick \<Rightarrow> string) \<Rightarrow> (bytes \<times> view_image \<times> bytes) list \<Rightarrow> replay_buffer \<Rightarrow>
     string + replay_buffer" where
  "record_all js [] b = Inr b"
| "record_all js ((s, v, t) # xs) b =
     (case record_tick js s v t b of (Inl e, b1) \<Rightarrow> Inl e | (Inr _, b1) \<Rightarrow> record_all js xs b1)"

abbreviation tick_of :: "bytes \<times> view_image \<times> bytes \<Rightarrow> replay_tick" where
  "tick_of x \<equiv> (\<lambda>(s, v, t). recorded_tick s v t) x"

lemma record_all_snapshots:
  "record_all js xs b = Inr b' \<Longrightarrow>
   scheduler_snapshots b' = scheduler_snapshots b @ map fst xs \<and>
   view_snapshots b' = view_snapshots b @ map (fst \<circ> snd) xs \<and>
   telemetry_snapshots b' = telemetry_snapshots b @ map (snd \<circ> snd) xs \<and>
   (\<exists>ds. compress_all (map tick_of xs) (rb_compressor b) = Inr ds \<and>
         compressed_ticks b' = compressed_ticks b @ ds)"
proof (induction js xs b rule: record_all.induct)
  case (2 js s v t xs b)
  obtain d c where d: "compress_tick (recorded_tick s v t) (rb_compressor b) = (Inr d, c)"
    using "2.prems" by (auto simp: record_tick_def Let_def split: prod.splits sum.splits)
  show ?case
    using "2.IH" "2.prems" by (fastforce simp: record_tick_def Let_def d)
qed simp

text \<open>
  C14. A recorded run is reproducible from the buffer in both of its forms: if recording hit no
  exception, then at every index \<open>replay_tick\<close> returns the recorded state, \<open>verify_tick\<close> accepts
  exactly the states that agree with it up to the queue's padding, and decompressing the
  compressed ticks with a fresh compressor gives the recorded ticks in order.
\<close>

theorem recorded_run_reproducible:
  assumes "record_all js xs new_replay_buffer = Inr b"
    "list_all (\<lambda>x. wf_tick (tick_of x) \<and> length (serialize (tick_of x)) < 2 ^ 64) xs"
  shows "(\<forall>i < length xs. replay_tick_at i b = Some (xs ! i)) \<and>
    (\<forall>i s v t q. verify_tick i s v t b \<longleftrightarrow> i < length xs \<and>
       (s, v\<lparr>vi_queue_padding := q\<rparr>, t) =
         (\<lambda>(s', v', t'). (s', v'\<lparr>vi_queue_padding := q\<rparr>, t')) (xs ! i)) \<and>
    decompress_all (compressed_ticks b) (new_compressor default_config) =
      Inr (map (\<lambda>x. stored_part (tick_of x)) xs)"
proof -
  obtain ds where ds: "compress_all (map tick_of xs) (new_compressor default_config) = Inr ds"
    and b: "scheduler_snapshots b = map fst xs" "view_snapshots b = map (fst \<circ> snd) xs"
      "telemetry_snapshots b = map (snd \<circ> snd) xs" "compressed_ticks b = ds"
    using record_all_snapshots [OF assms(1)] by (auto simp: new_replay_buffer_def)
  have "decompress_all ds (new_compressor default_config) = Inr (map stored_part (map tick_of xs))"
    using stream_roundtrip [OF ds] assms(2) by (simp add: list_all_iff)
  moreover have "verify_tick i s v t b \<longleftrightarrow> i < length xs \<and>
      (s, v\<lparr>vi_queue_padding := q\<rparr>, t) =
        (\<lambda>(s', v', t'). (s', v'\<lparr>vi_queue_padding := q\<rparr>, t')) (xs ! i)" for i s v t q
    by (cases "xs ! i"; cases v; cases "fst (snd (xs ! i))")
      (auto simp: verify_tick_def b Let_def)
  ultimately show ?thesis by (simp add: replay_tick_at_def b o_def)
qed

definition demo_record :: "bytes \<times> view_image \<times> bytes" where
  "demo_record = (replicate sizeof_scheduler_state 0, empty_view\<lparr>vi_nodes := [sample_node]\<rparr>,
     replicate sizeof_telemetry 9)"

lemma demo_record_wf:
  "wf_tick (tick_of demo_record) \<and> length (serialize (tick_of demo_record)) = 1964"
  by (simp add: demo_record_def recorded_tick_def wf_tick_def wf_view_def wf_node_def
      sample_node_def empty_view_def zero_clock_def image_lengths)

lemma demo_recorded: "\<exists>b. record_all js [demo_record] new_replay_buffer = Inr b"
proof -
  obtain s v t where x: "demo_record = (s, v, t)" by (cases demo_record)
  obtain d c where "compress_tick (recorded_tick s v t) (rb_compressor new_replay_buffer) = (Inr d, c)"
    using compress_fits [of "tick_of demo_record" "rb_compressor new_replay_buffer"] demo_record_wf
    by (auto simp: x new_replay_buffer_def new_compressor_def default_config_def)
  then show ?thesis by (simp add: x record_tick_def Let_def)
qed

theorem recorded_run_reproducible_witness:
  "\<forall>js. \<exists>b. record_all js [demo_record] new_replay_buffer = Inr b \<and>
     replay_tick_at 0 b = Some demo_record \<and>
     decompress_all (compressed_ticks b) (new_compressor default_config) =
       Inr [stored_part (tick_of demo_record)]"
proof
  fix js
  obtain b where b: "record_all js [demo_record] new_replay_buffer = Inr b" using demo_recorded by blast
  from recorded_run_reproducible [OF b] demo_record_wf
  show "\<exists>b. record_all js [demo_record] new_replay_buffer = Inr b \<and>
      replay_tick_at 0 b = Some demo_record \<and>
      decompress_all (compressed_ticks b) (new_compressor default_config) =
        Inr [stored_part (tick_of demo_record)]"
    using b by auto
qed

section \<open>Rollback heights\<close>

datatype sync_op = Headers sync_event "block_header list" | Deltas "mempool_delta list" | Drain

fun sync_step :: "sync_manager \<Rightarrow> sync_op \<Rightarrow> sync_manager" where
  "sync_step m (Headers u hs) = ingest_headers u hs m"
| "sync_step m (Deltas ds) = ingest_mempool_deltas ds m"
| "sync_step m Drain = snd (drain_sync_events m)"

definition low_targets :: "sync_event list \<Rightarrow> bool" where
  "low_targets evs \<longleftrightarrow>
     list_all (\<lambda>e. se_reorg_target_height e \<le> 1) (filter (\<lambda>e. se_type e = ReorgDetected) evs)"

lemma low_resolve:
  "low_targets (pending_events m) \<Longrightarrow> low_targets (pending_events (resolve_tip u h m))"
proof -
  have "unat (of_nat (branch_point xs [y]) :: u64) \<le> 1" for xs y
    using branch_point_single [of xs y] by (cases "branch_point xs [y]") auto
  then show "low_targets (pending_events m) \<Longrightarrow> low_targets (pending_events (resolve_tip u h m))"
    by (auto simp: resolve_tip_def detect_and_resolve_def low_targets_def Let_def word_le_nat_alt)
qed

lemma low_ingest_header:
  "low_targets (pending_events m) \<Longrightarrow> low_targets (pending_events (ingest_header u m h))"
  using low_resolve [of m u h] by (auto simp: ingest_header_def push_header_def low_targets_def Let_def)

lemma low_ingest_headers:
  "low_targets (pending_events m) \<Longrightarrow> low_targets (pending_events (ingest_headers u hs m))"
proof -
  have "low_targets (pending_events (foldl (ingest_header u) m hs))"
    if "low_targets (pending_events m)" for m
    using that by (induction hs arbitrary: m) (auto intro: low_ingest_header)
  then show "low_targets (pending_events m) \<Longrightarrow> low_targets (pending_events (ingest_headers u hs m))"
    by (simp add: ingest_headers_def update_clock_def Let_def)
qed

lemma low_apply_deltas:
  "low_targets evs \<Longrightarrow> foldl (apply_delta h k) (pool, evs, ch) ds = (pool', evs', ch') \<Longrightarrow> low_targets evs'"
proof (induction ds arbitrary: pool evs ch)
  case (Cons d ds)
  obtain p e c where s: "apply_delta h k (pool, evs, ch) d = (p, e, c)" by (metis prod_cases3)
  have "low_targets e"
    using s Cons.prems(1)
    by (auto simp: apply_delta_def low_targets_def delta_event_def Let_def split: if_splits)
  with Cons.IH Cons.prems s show ?case by simp
qed simp

lemma low_step: "low_targets (pending_events m) \<Longrightarrow> low_targets (pending_events (sync_step m x))"
proof (cases x)
  case (Deltas ds)
  assume low: "low_targets (pending_events m)"
  let ?h = "if header_buffer m \<noteq> [] then bh_hash (last (header_buffer m)) else replicate 32 0"
  obtain pool evs ch where r: "foldl (apply_delta (ck_height (clock m)) ?h)
      (mempool m, pending_events m, False) ds = (pool, evs, ch)" by (metis prod_cases3)
  from low_apply_deltas [OF low r] r show ?thesis
    by (simp add: Deltas ingest_mempool_deltas_def Let_def)
next
  case Drain
  then show ?thesis by (simp add: drain_sync_events_def low_targets_def)
qed (simp add: low_ingest_headers)

interpretation sync_run: component sync_step "\<lambda>m. low_targets (pending_events m)"
  by unfold_locales (rule low_step)

lemma low_new: "low_targets (pending_events (new_sync_manager n))"
  by (simp add: low_targets_def new_sync_manager_def)

lemma replay_rollbacks:
  "low_targets evs \<Longrightarrow> list_all (\<lambda>r. re_height r \<le> 1) (filter (\<lambda>r. re_type r = 1) res) \<Longrightarrow>
   list_all (\<lambda>r. re_height r \<le> 1) (filter (\<lambda>r. re_type r = 1) (snd (foldl replay_one (h, res) evs)))"
proof (induction evs arbitrary: h res)
  case (Cons e evs)
  obtain h1 res1 where s: "replay_one (h, res) e = (h1, res1)" by (metis prod.exhaust)
  have "list_all (\<lambda>r. re_height r \<le> 1) (filter (\<lambda>r. re_type r = 1) res1)"
    using s Cons.prems
    by (auto simp: replay_one_def low_targets_def split: sync_event_type.splits if_splits)
  moreover have "low_targets evs" using Cons.prems(1) by (auto simp: low_targets_def split: if_splits)
  ultimately show ?case using Cons.IH s by simp
qed simp

end
