(* ===== verification/BitVM.thy ===== *)
theory BitVM
  imports Codec
begin

text \<open>
  The restricted Bitcoin script interpreter: \<open>include/runtime/BitVMInterpreter.h\<close> and
  \<open>src/runtime/BitVMInterpreter.cpp\<close>. A C++ vector used as a stack is a list whose head is the
  back of the vector. SHA-256 and the two parsers of libsecp256k1 are parameters of the step
  (\<open>sha\<close>, \<open>pk_parse\<close>, \<open>der_parse\<close>); nothing is assumed of them.
\<close>

section \<open>Data\<close>

datatype opcode =
  OP_0 | OP_1 | OP_NOP | OP_IF | OP_NOTIF | OP_ELSE | OP_ENDIF | OP_VERIFY | OP_RETURN
| OP_TOALTSTACK | OP_FROMALTSTACK | OP_DROP | OP_DUP | OP_SWAP | OP_EQUAL | OP_EQUALVERIFY
| OP_SHA256 | OP_CHECKSIG | OP_CHECKSIGVERIFY | OP_PUSH | OP_OTHER u8

text \<open>\<open>static_cast<OpCode>\<close> of a byte.\<close>

definition opcode_table :: "(u8 \<times> opcode) list" where
  "opcode_table = [(0x00, OP_0), (0x51, OP_1), (0x61, OP_NOP), (0x63, OP_IF), (0x64, OP_NOTIF),
     (0x67, OP_ELSE), (0x68, OP_ENDIF), (0x69, OP_VERIFY), (0x6a, OP_RETURN),
     (0x6b, OP_TOALTSTACK), (0x6c, OP_FROMALTSTACK), (0x75, OP_DROP), (0x76, OP_DUP),
     (0x7c, OP_SWAP), (0x87, OP_EQUAL), (0x88, OP_EQUALVERIFY), (0xa8, OP_SHA256),
     (0xac, OP_CHECKSIG), (0xad, OP_CHECKSIGVERIFY), (0xff, OP_PUSH)]"

definition opcode_of :: "u8 \<Rightarrow> opcode" where
  "opcode_of b = (case map_of opcode_table b of Some c \<Rightarrow> c | None \<Rightarrow> OP_OTHER b)"

record instruction =
  opc :: opcode
  idata :: "bytes option"

record interp =
  stack :: "bytes list"
  alt_stack :: "bytes list"
  script :: "instruction list"
  ip :: nat
  execution_success :: bool
  error_message :: string
  if_stack :: "bool list"
  executing :: bool

record rust_prover_output =
  proof_root :: bytes
  state_root :: bytes
  challenge_root :: bytes
  is_valid :: bool

section \<open>Parsing\<close>

text \<open>The push cases read a length of \<open>k\<close> little-endian bytes and then that many bytes of data.\<close>

definition take_push :: "nat \<Rightarrow> bytes \<Rightarrow> string \<Rightarrow> string + bytes \<times> bytes" where
  "take_push push_len r err =
     (if push_len > length r then Inl err else Inr (take push_len r, drop push_len r))"

definition parse_one :: "u8 \<Rightarrow> bytes \<Rightarrow> string + instruction \<times> bytes" where
  "parse_one b r =
     (let push = (\<lambda>(d, r'). Inr (\<lparr>opc = OP_PUSH, idata = Some d\<rparr>, r')) in
      if 0 < b \<and> b \<le> 0x4b then
        bindE (take_push (unat b) r ''Invalid OP_PUSH data length'') push
      else if b = 0x4c then
        if length r < 1 then Inl ''Invalid OP_PUSHDATA1 length''
        else bindE (take_push (unat (le_word (take 1 r) :: u64)) (drop 1 r)
               ''Invalid OP_PUSHDATA1 data length'') push
      else if b = 0x4d then
        if length r < 2 then Inl ''Invalid OP_PUSHDATA2 length''
        else bindE (take_push (unat (le_word (take 2 r) :: u64)) (drop 2 r)
               ''Invalid OP_PUSHDATA2 data length'') push
      else if b = 0x4e then
        if length r < 4 then Inl ''Invalid OP_PUSHDATA4 length''
        else bindE (take_push (unat (le_word (take 4 r) :: u64)) (drop 4 r)
               ''Invalid OP_PUSHDATA4 data length'') push
      else if b = 0xff then Inl ''Unsupported opcode 0xff''
      else Inr (\<lparr>opc = opcode_of b, idata = None\<rparr>, r))"

lemma take_push_length: "take_push n r e = Inr (d, r') \<Longrightarrow> length r' \<le> length r"
  by (auto simp: take_push_def split: if_splits)

lemma parse_one_length: "parse_one b r = Inr (i, r') \<Longrightarrow> length r' \<le> length r"
  by (auto simp: parse_one_def Let_def bindE_Inr dest!: take_push_length split: if_splits)

function parseScript :: "bytes \<Rightarrow> string + instruction list" where
  "parseScript [] = Inr []"
| "parseScript (b # r) =
     (case parse_one b r of
        Inl e \<Rightarrow> Inl e
      | Inr (i, r') \<Rightarrow> bindE (parseScript r') (\<lambda>is. Inr (i # is)))"
  by pat_completeness auto

termination
  by (relation "measure length") (auto dest: parse_one_length)

section \<open>One step\<close>

definition fail :: "string \<Rightarrow> interp \<Rightarrow> interp" where
  "fail msg s = s\<lparr>execution_success := False, error_message := msg\<rparr>"

text \<open>The loop that reads a stack item as a condition.\<close>

fun cast_to_bool :: "bytes \<Rightarrow> bool" where
  "cast_to_bool [] = False"
| "cast_to_bool (b # bs) = (if b \<noteq> 0 then \<not> (bs = [] \<and> b = 0x80) else cast_to_bool bs)"

text \<open>Conditionals run in every state, the other opcodes only in an executing one.\<close>

definition step_if :: "bool \<Rightarrow> interp \<Rightarrow> interp" where
  "step_if negate s =
     (if executing s then
        case stack s of
          [] \<Rightarrow> fail ''Stack underflow on OP_IF/OP_NOTIF'' s
        | t # st \<Rightarrow>
            let condition = (if negate then \<not> cast_to_bool t else cast_to_bool t) in
            s\<lparr>stack := st, if_stack := condition # if_stack s,
              executing := (if \<not> condition then False else executing s)\<rparr>
      else s\<lparr>if_stack := False # if_stack s\<rparr>)"

definition step_else :: "interp \<Rightarrow> interp" where
  "step_else s =
     (case if_stack s of
        [] \<Rightarrow> fail ''OP_ELSE without OP_IF'' s
      | c # cs \<Rightarrow> s\<lparr>if_stack := (\<not> c) # cs, executing := list_all id ((\<not> c) # cs)\<rparr>)"

definition step_endif :: "interp \<Rightarrow> interp" where
  "step_endif s =
     (case if_stack s of
        [] \<Rightarrow> fail ''OP_ENDIF without OP_IF'' s
      | c # cs \<Rightarrow> s\<lparr>if_stack := cs, executing := list_all id cs\<rparr>)"

definition no_sighash :: string where
  "no_sighash = ''real ECDSA verification requires external sighash context''"

definition step_checksig :: "(bytes \<Rightarrow> bool) \<Rightarrow> (bytes \<Rightarrow> bool) \<Rightarrow> interp \<Rightarrow> interp" where
  "step_checksig pk der s =
     (case stack s of
        pubkey # sig # st \<Rightarrow>
          (let s1 = (if pk pubkey \<and> der sig
                     then s\<lparr>error_message := ''OP_CHECKSIG failed: '' @ no_sighash\<rparr> else s)
           in s1\<lparr>stack := [] # st\<rparr>)
      | _ \<Rightarrow> fail ''Stack underflow on OP_CHECKSIG'' s)"

text \<open>The verdict \<open>valid\<close> stays false whatever the parsers answer, so they have no effect here.\<close>

definition step_checksigverify :: "interp \<Rightarrow> interp" where
  "step_checksigverify s =
     (case stack s of
        pubkey # sig # st \<Rightarrow>
          fail (''OP_CHECKSIGVERIFY failed: '' @ no_sighash) (s\<lparr>stack := st\<rparr>)
      | _ \<Rightarrow> fail ''Stack underflow on OP_CHECKSIGVERIFY'' s)"

fun step_exec ::
    "(bytes \<Rightarrow> bytes) \<Rightarrow> (bytes \<Rightarrow> bool) \<Rightarrow> (bytes \<Rightarrow> bool) \<Rightarrow> instruction \<Rightarrow> interp \<Rightarrow> interp" where
  "step_exec sha pk der i s =
     (case opc i of
        OP_PUSH \<Rightarrow> (case idata i of
            Some d \<Rightarrow> s\<lparr>stack := d # stack s\<rparr> | None \<Rightarrow> fail ''OP_PUSH missing data'' s)
      | OP_0 \<Rightarrow> s\<lparr>stack := [] # stack s\<rparr>
      | OP_1 \<Rightarrow> s\<lparr>stack := [1] # stack s\<rparr>
      | OP_NOP \<Rightarrow> s
      | OP_DROP \<Rightarrow> (case stack s of
            [] \<Rightarrow> fail ''Stack underflow on OP_DROP'' s | _ # st \<Rightarrow> s\<lparr>stack := st\<rparr>)
      | OP_DUP \<Rightarrow> (case stack s of
            [] \<Rightarrow> fail ''Stack underflow on OP_DUP'' s | a # st \<Rightarrow> s\<lparr>stack := a # a # st\<rparr>)
      | OP_SWAP \<Rightarrow> (case stack s of
            t # nxt # st \<Rightarrow> s\<lparr>stack := nxt # t # st\<rparr>
          | _ \<Rightarrow> fail ''Stack underflow on OP_SWAP'' s)
      | OP_EQUAL \<Rightarrow> (case stack s of
            a # b # st \<Rightarrow> s\<lparr>stack := (if a = b then [1] else []) # st\<rparr>
          | _ \<Rightarrow> fail ''Stack underflow on OP_EQUAL'' s)
      | OP_EQUALVERIFY \<Rightarrow> (case stack s of
            a # b # st \<Rightarrow>
              if a \<noteq> b then fail ''OP_EQUALVERIFY failed'' (s\<lparr>stack := st\<rparr>) else s\<lparr>stack := st\<rparr>
          | _ \<Rightarrow> fail ''Stack underflow on OP_EQUALVERIFY'' s)
      | OP_VERIFY \<Rightarrow> (case stack s of
            [] \<Rightarrow> fail ''Stack underflow on OP_VERIFY'' s
          | a # st \<Rightarrow>
              if \<not> cast_to_bool a then fail ''OP_VERIFY failed'' (s\<lparr>stack := st\<rparr>)
              else s\<lparr>stack := st\<rparr>)
      | OP_SHA256 \<Rightarrow> (case stack s of
            [] \<Rightarrow> fail ''Stack underflow on OP_SHA256'' s | d # st \<Rightarrow> s\<lparr>stack := sha d # st\<rparr>)
      | OP_TOALTSTACK \<Rightarrow> (case stack s of
            [] \<Rightarrow> fail ''Stack underflow on OP_TOALTSTACK'' s
          | a # st \<Rightarrow> s\<lparr>stack := st, alt_stack := a # alt_stack s\<rparr>)
      | OP_FROMALTSTACK \<Rightarrow> (case alt_stack s of
            [] \<Rightarrow> fail ''Alt-stack underflow on OP_FROMALTSTACK'' s
          | a # st \<Rightarrow> s\<lparr>stack := a # stack s, alt_stack := st\<rparr>)
      | OP_RETURN \<Rightarrow> fail ''OP_RETURN encountered'' s
      | OP_CHECKSIG \<Rightarrow> step_checksig pk der s
      | OP_CHECKSIGVERIFY \<Rightarrow> step_checksigverify s
      | _ \<Rightarrow> fail ''Unsupported opcode'' s)"

definition step ::
    "(bytes \<Rightarrow> bytes) \<Rightarrow> (bytes \<Rightarrow> bool) \<Rightarrow> (bytes \<Rightarrow> bool) \<Rightarrow> interp \<Rightarrow> interp" where
  "step sha pk der s =
     (if \<not> execution_success s \<or> ip s \<ge> length (script s) then s
      else let i = script s ! ip s; s1 = s\<lparr>ip := ip s + 1\<rparr> in
        if opc i = OP_IF \<or> opc i = OP_NOTIF then step_if (opc i = OP_NOTIF) s1
        else if opc i = OP_ELSE then step_else s1
        else if opc i = OP_ENDIF then step_endif s1
        else if \<not> executing s1 then s1
        else step_exec sha pk der i s1)"

lemma fail_sel [simp]:
  "stack (fail m s) = stack s" "alt_stack (fail m s) = alt_stack s" "script (fail m s) = script s"
  "ip (fail m s) = ip s" "if_stack (fail m s) = if_stack s" "executing (fail m s) = executing s"
  "\<not> execution_success (fail m s)" "error_message (fail m s) = m"
  by (simp_all add: fail_def)

declare step_exec.simps [simp del]

lemmas step_exec_defs = step_exec.simps step_checksig_def step_checksigverify_def

lemma step_exec_frame:
  "script (step_exec sha pk der i s) = script s" "ip (step_exec sha pk der i s) = ip s"
  "if_stack (step_exec sha pk der i s) = if_stack s"
  "executing (step_exec sha pk der i s) = executing s"
  by (simp_all add: step_exec_defs Let_def split: opcode.split option.split list.split)

lemma step_control_frame:
  "script (step_if n s) = script s" "ip (step_if n s) = ip s"
  "script (step_else s) = script s" "ip (step_else s) = ip s"
  "script (step_endif s) = script s" "ip (step_endif s) = ip s"
  by (simp_all add: step_if_def step_else_def step_endif_def Let_def split: list.split)

lemmas step_frame = step_exec_frame step_control_frame

lemma step_script [simp]: "script (step sha pk der s) = script s"
  by (simp add: step_def Let_def step_frame)

lemma step_ip: "execution_success s \<Longrightarrow> ip s < length (script s) \<Longrightarrow> ip (step sha pk der s) = ip s + 1"
  by (simp add: step_def Let_def step_frame)

section \<open>Execution\<close>

function exec_loop ::
    "(bytes \<Rightarrow> bytes) \<Rightarrow> (bytes \<Rightarrow> bool) \<Rightarrow> (bytes \<Rightarrow> bool) \<Rightarrow> interp \<Rightarrow> interp" where
  "exec_loop sha pk der s =
     (if execution_success s \<and> ip s < length (script s)
      then exec_loop sha pk der (step sha pk der s) else s)"
  by pat_completeness auto

termination
  by (relation "measure (\<lambda>(_, _, _, s). length (script s) - ip s)") (auto simp: step_ip)

declare exec_loop.simps [simp del]

definition init_state :: "instruction list \<Rightarrow> bytes list \<Rightarrow> interp" where
  "init_state scr initialStack =
     \<lparr>stack = rev initialStack, alt_stack = [], script = scr, ip = 0, execution_success = True,
      error_message = [], if_stack = [], executing = True\<rparr>"

definition execute ::
    "(bytes \<Rightarrow> bytes) \<Rightarrow> (bytes \<Rightarrow> bool) \<Rightarrow> (bytes \<Rightarrow> bool) \<Rightarrow> instruction list \<Rightarrow> bytes list \<Rightarrow> interp" where
  "execute sha pk der scr initialStack = exec_loop sha pk der (init_state scr initialStack)"

definition execute_bytes ::
    "(bytes \<Rightarrow> bytes) \<Rightarrow> (bytes \<Rightarrow> bool) \<Rightarrow> (bytes \<Rightarrow> bool) \<Rightarrow> bytes \<Rightarrow> bytes list \<Rightarrow> string + interp" where
  "execute_bytes sha pk der raw initialStack =
     bindE (parseScript raw) (\<lambda>scr. Inr (execute sha pk der scr initialStack))"

definition verifyRustProverOutput :: "interp \<Rightarrow> rust_prover_output \<Rightarrow> bool" where
  "verifyRustProverOutput s out =
     (if \<not> execution_success s then False
      else case stack s of [] \<Rightarrow> False | t # _ \<Rightarrow> t = state_root out)"

end
