(* ===== verification/BitVM_Props.thy ===== *)
theory BitVM_Props
  imports BitVM
begin

text \<open>
  Properties of the script interpreter: bounded execution and its control-flow invariant, the
  independence of the verdict from signatures, the skipping of dead branches, the parser against
  an encoder, and the hash-lock script run from its raw bytes.
\<close>

section \<open>Runs\<close>

abbreviation running :: "interp \<Rightarrow> bool" where
  "running s \<equiv> execution_success s \<and> ip s < length (script s)"

lemma step_stuck: "\<not> running s \<Longrightarrow> step sha pk der s = s"
  by (auto simp: step_def)

lemma run_stuck: "\<not> running s \<Longrightarrow> (step sha pk der ^^ n) s = s"
  by (induction n) (auto simp: step_stuck)

lemma run_script [simp]: "script ((step sha pk der ^^ n) s) = script s"
  by (induction n) auto

lemma exec_loop_run:
  "length (script s) - ip s \<le> n \<Longrightarrow> exec_loop sha pk der s = (step sha pk der ^^ n) s"
proof (induction n arbitrary: s)
  case 0
  then show ?case by (subst exec_loop.simps) simp
next
  case (Suc n)
  show ?case
  proof (cases "running s")
    case True
    then have "exec_loop sha pk der s = exec_loop sha pk der (step sha pk der s)"
      by (subst exec_loop.simps) simp
    also have "\<dots> = (step sha pk der ^^ n) (step sha pk der s)"
      using True Suc.prems by (intro Suc.IH) (simp add: step_ip)
    finally show ?thesis by (simp add: funpow_swap1)
  next
    case False
    then have "exec_loop sha pk der s = s" by (subst exec_loop.simps) auto
    with run_stuck [OF False] show ?thesis by (simp add: step_stuck [OF False])
  qed
qed

text \<open>The branch flag is the conjunction of the condition stack, and the pointer stays in range.\<close>

definition interp_inv :: "interp \<Rightarrow> bool" where
  "interp_inv s \<longleftrightarrow> executing s = list_all id (if_stack s) \<and> ip s \<le> length (script s)"

lemma interp_inv_step: "interp_inv s \<Longrightarrow> interp_inv (step sha pk der s)"
  by (auto simp: interp_inv_def step_def step_if_def step_else_def step_endif_def Let_def
      step_exec_frame split: list.split)

lemma interp_inv_run: "interp_inv s \<Longrightarrow> interp_inv ((step sha pk der ^^ n) s)"
  by (induction n) (auto intro: interp_inv_step)

lemma interp_inv_init: "interp_inv (init_state scr st)"
  by (simp add: interp_inv_def init_state_def)

lemma execute_run:
  "length scr \<le> n \<Longrightarrow> execute sha pk der scr st = (step sha pk der ^^ n) (init_state scr st)"
  by (simp add: execute_def exec_loop_run init_state_def)

text \<open>
  C7. Every script stops: execution is the step function applied once per instruction. A run
  that succeeds has consumed the whole script, one that fails stopped at or before its end, and
  in either case the branch flag agrees with the stack of open conditions.
\<close>

theorem execute_bounded:
  "let f = execute sha pk der scr st in
     f = (step sha pk der ^^ length scr) (init_state scr st) \<and>
     (if execution_success f then ip f = length scr else ip f \<le> length scr) \<and>
     executing f = list_all id (if_stack f)"
proof -
  let ?f = "execute sha pk der scr st"
  have f: "?f = (step sha pk der ^^ length scr) (init_state scr st)" by (simp add: execute_run)
  have inv: "interp_inv ?f" unfolding f by (rule interp_inv_run) (rule interp_inv_init)
  have scr: "script ?f = scr" by (simp add: f init_state_def)
  have "\<not> running ?f"
  proof -
    have "\<not> running (exec_loop sha pk der s)" for s
      by (induction s rule: exec_loop.induct [of _ sha pk der]) (subst (1 2 3) exec_loop.simps; simp)
    then show ?thesis by (simp add: execute_def)
  qed
  with inv scr show ?thesis
    unfolding Let_def interp_inv_def by (intro conjI f) (auto simp del: funpow.simps)
qed

section \<open>Signatures\<close>

text \<open>A state without its error text.\<close>

definition quiet :: "interp \<Rightarrow> interp" where
  "quiet s = s\<lparr>error_message := []\<rparr>"

lemma quiet_fields: "quiet s = quiet t \<longleftrightarrow>
   stack s = stack t \<and> alt_stack s = alt_stack t \<and> script s = script t \<and> ip s = ip t \<and>
   execution_success s = execution_success t \<and> if_stack s = if_stack t \<and> executing s = executing t"
  by (cases s; cases t) (auto simp: quiet_def)

lemma quiet_fail [simp]: "quiet (fail m s) = quiet (s\<lparr>execution_success := False\<rparr>)"
  by (simp add: quiet_def fail_def)

lemma quiet_exec:
  "quiet s = quiet t \<Longrightarrow> quiet (step_exec sha pk der i s) = quiet (step_exec sha pk' der' i t)"
  by (cases "opc i")
    (auto simp: step_exec_defs quiet_fields Let_def split: option.split list.split)

lemma quiet_step:
  "quiet s = quiet t \<Longrightarrow> quiet (step sha pk der s) = quiet (step sha pk' der' t)"
  using quiet_exec [of "s\<lparr>ip := ip s + 1\<rparr>" "t\<lparr>ip := ip s + 1\<rparr>" sha pk der "script s ! ip s" pk' der']
  by (auto simp: step_def Let_def step_if_def step_else_def step_endif_def quiet_fields
      split: list.split)

text \<open>
  The verdict never depends on a signature: whatever the two parsers of the cryptographic
  library answer, execution ends with the same stacks, the same pointer and the same success
  flag; only the error text can differ.
\<close>

theorem execute_ignores_signatures:
  "quiet (execute sha pk der scr st) = quiet (execute sha pk' der' scr st)"
proof -
  have "quiet ((step sha pk der ^^ n) s) = quiet ((step sha pk' der' ^^ n) s)" for n s
    by (induction n) (auto intro: quiet_step)
  then show ?thesis by (simp add: execute_run [OF order_refl])
qed

lemma run_failed: "\<not> execution_success s \<Longrightarrow> (step sha pk der ^^ n) s = s"
  by (rule run_stuck) simp

text \<open>
  Signature checks are fail-closed: a run that reaches an \<open>OP_CHECKSIGVERIFY\<close> in an
  executing branch ends in failure, whatever public key and signature are on the stack, and an
  \<open>OP_CHECKSIG\<close> with two items on the stack replaces them by the empty (false) item.
\<close>

theorem checksig_fail_closed:
  assumes "s = (step sha pk der ^^ n) (init_state scr st)" "running s" "executing s"
  shows "case opc (script s ! ip s) of
      OP_CHECKSIGVERIFY \<Rightarrow> \<not> execution_success (execute sha pk der scr st)
    | OP_CHECKSIG \<Rightarrow>
        (case stack s of
           p # q # r \<Rightarrow> stack (step sha pk der s) = [] # r \<and> execution_success (step sha pk der s)
         | _ \<Rightarrow> \<not> execution_success (execute sha pk der scr st))
    | _ \<Rightarrow> True"
proof -
  have final: "execute sha pk der scr st = step sha pk der s"
    if "\<not> execution_success (step sha pk der s)"
  proof -
    have "execute sha pk der scr st = (step sha pk der ^^ (length scr + Suc n)) (init_state scr st)"
      by (rule execute_run) simp
    also have "\<dots> = (step sha pk der ^^ length scr) (step sha pk der s)"
      by (simp only: funpow_add o_apply funpow.simps(2) assms(1))
    finally show ?thesis using run_failed [OF that] by simp
  qed
  show ?thesis
    using assms(2,3) final
    by (auto simp: step_def Let_def step_exec_defs split: opcode.split list.split)
qed

theorem checksig_fail_closed_witness:
  "\<not> execution_success (execute (\<lambda>b. b) (\<lambda>_. True) (\<lambda>_. True)
     [\<lparr>opc = OP_CHECKSIGVERIFY, idata = None\<rparr>] [[3], [2]])"
  using checksig_fail_closed [where sha = "\<lambda>b. b" and pk = "\<lambda>_. True" and der = "\<lambda>_. True" and
      n = 0 and scr = "[\<lparr>opc = OP_CHECKSIGVERIFY, idata = None\<rparr>]" and st = "[[3], [2]]"]
  by (simp add: init_state_def)

section \<open>Parsing\<close>

text \<open>A reference encoder: the shortest push, the opcode byte otherwise.\<close>

fun opcode_byte :: "opcode \<Rightarrow> u8" where
  "opcode_byte (OP_OTHER b) = b"
| "opcode_byte c = (case find (\<lambda>p. snd p = c) opcode_table of Some p \<Rightarrow> fst p | None \<Rightarrow> 0)"

definition encode_instr :: "instruction \<Rightarrow> bytes" where
  "encode_instr i =
     (case idata i of
        None \<Rightarrow> [opcode_byte (opc i)]
      | Some d \<Rightarrow>
          let n = length d in
          if 0 < n \<and> n \<le> 75 then of_nat n # d
          else if n < 2 ^ 8 then 0x4c # le_bytes 1 (of_nat n :: u64) @ d
          else if n < 2 ^ 16 then 0x4d # le_bytes 2 (of_nat n :: u64) @ d
          else 0x4e # le_bytes 4 (of_nat n :: u64) @ d)"

text \<open>The instructions a parsed script can hold.\<close>

definition wf_instr :: "instruction \<Rightarrow> bool" where
  "wf_instr i \<longleftrightarrow>
     (case idata i of
        Some d \<Rightarrow> opc i = OP_PUSH \<and> length d < 2 ^ 32
      | None \<Rightarrow> opcode_of (opcode_byte (opc i)) = opc i \<and>
          (let b = opcode_byte (opc i) in (b = 0 \<or> 0x4e < b) \<and> b \<noteq> 0xff))"

lemma opcode_byte_of: "opcode_byte (opcode_of b) = b"
proof (cases "map_of opcode_table b")
  case (Some c)
  then have "(b, c) \<in> set opcode_table" by (rule map_of_SomeD)
  then show ?thesis unfolding opcode_of_def Some by (auto simp: opcode_table_def)
qed (simp add: opcode_of_def)

lemma opcode_of_byte: "opcode_of (opcode_byte (opcode_of b)) = opcode_of b"
  by (simp add: opcode_byte_of)

lemma take_push_append [simp]: "length d = n \<Longrightarrow> take_push n (d @ r) e = Inr (d, r)"
  by (auto simp: take_push_def)

lemma le_small: "n < 2 ^ (8 * k) \<Longrightarrow> k \<le> 8 \<Longrightarrow> unat (le_word (le_bytes k (of_nat n :: u64)) :: u64) = n"
proof -
  assume n: "n < 2 ^ (8 * k)" and k: "k \<le> 8"
  have "(2 :: nat) ^ (8 * k) \<le> 2 ^ 64" using k by (intro power_increasing) auto
  with n have "unat (of_nat n :: u64) = n" by (simp add: unsigned_of_nat take_bit_nat_eq_self)
  then show ?thesis using n by (simp add: le_word_le_bytes unsigned_take_bit_eq take_bit_nat_eq_self)
qed

lemma parse_push:
  assumes "length d < 2 ^ 32"
  shows "\<exists>b t. encode_instr \<lparr>opc = OP_PUSH, idata = Some d\<rparr> @ r = b # t \<and>
    parse_one b t = Inr (\<lparr>opc = OP_PUSH, idata = Some d\<rparr>, r)"
proof -
  let ?n = "length d"
  consider (direct) "0 < ?n" "?n \<le> 75" | (one) "\<not> (0 < ?n \<and> ?n \<le> 75)" "?n < 2 ^ 8"
    | (two) "75 < ?n" "\<not> ?n < 2 ^ 8" "?n < 2 ^ 16" | (four) "75 < ?n" "\<not> ?n < 2 ^ 8" "\<not> ?n < 2 ^ 16"
    by force
  then show ?thesis
  proof cases
    case direct
    then have u: "unat (of_nat ?n :: u8) = ?n" by (simp add: unsigned_of_nat take_bit_nat_eq_self)
    with direct have "0 < (of_nat ?n :: u8)" "(of_nat ?n :: u8) \<le> 0x4b"
      by (simp_all add: word_less_nat_alt word_le_nat_alt)
    with direct u show ?thesis by (simp add: encode_instr_def parse_one_def Let_def)
  next
    case one
    then show ?thesis using le_small [of ?n 1]
      by (auto simp: encode_instr_def parse_one_def Let_def simp del: le_bytes.simps)
  next
    case two
    then show ?thesis using le_small [of ?n 2]
      by (auto simp: encode_instr_def parse_one_def Let_def simp del: le_bytes.simps)
  next
    case four
    then show ?thesis using le_small [of ?n 4] assms
      by (auto simp: encode_instr_def parse_one_def Let_def simp del: le_bytes.simps)
  qed
qed

lemma parse_plain:
  "b = 0 \<or> 0x4e < b \<Longrightarrow> b \<noteq> 0xff \<Longrightarrow> parse_one b r = Inr (\<lparr>opc = opcode_of b, idata = None\<rparr>, r)"
proof -
  assume b: "b = 0 \<or> 0x4e < b" "b \<noteq> 0xff"
  then have "\<not> (0 < b \<and> b \<le> 0x4b)" "b \<noteq> 0x4c" "b \<noteq> 0x4d" "b \<noteq> 0x4e"
    by (auto simp: word_less_nat_alt word_le_nat_alt)
  with b(2) show ?thesis by (auto simp: parse_one_def Let_def)
qed

lemma byte_gap: "(75 :: u8) < b \<Longrightarrow> b \<le> 78 \<Longrightarrow> b = 76 \<or> b = 77 \<or> b = 78"
  unfolding word_less_nat_alt word_le_nat_alt word_unat_eq_iff by simp linarith

lemma parse_other:
  "wf_instr i \<Longrightarrow> idata i = None \<Longrightarrow> parse_one (opcode_byte (opc i)) r = Inr (i, r)"
  by (auto simp: wf_instr_def Let_def parse_plain)

lemma parse_encode_one:
  assumes "wf_instr i"
  shows "\<exists>b t. encode_instr i @ r = b # t \<and> parse_one b t = Inr (i, r)"
proof (cases "idata i")
  case None
  with assms parse_other show ?thesis by (simp add: encode_instr_def)
next
  case (Some d)
  with assms have "i = \<lparr>opc = OP_PUSH, idata = Some d\<rparr>" "length d < 2 ^ 32"
    by (auto simp: wf_instr_def)
  with parse_push show ?thesis by simp
qed

lemma parse_encode: "list_all wf_instr is \<Longrightarrow> parseScript (concat (map encode_instr is)) = Inr is"
proof (induction "is")
  case (Cons i "is")
  obtain b t where "encode_instr i @ concat (map encode_instr is) = b # t"
    "parse_one b t = Inr (i, concat (map encode_instr is))"
    using parse_encode_one [of i "concat (map encode_instr is)"] Cons.prems by auto
  with Cons show ?case by simp
qed simp

lemma take_push_wf: "take_push n r e = Inr (d, r') \<Longrightarrow> length d = n"
  by (auto simp: take_push_def split: if_splits)

lemma le_word_bound: "length bs \<le> 4 \<Longrightarrow> unat (le_word bs :: u64) < 2 ^ 32"
proof -
  assume l: "length bs \<le> 4"
  then have "le_bytes (length bs) (le_word bs :: u64) = bs" by (intro le_bytes_le_word) simp
  then have "(le_word bs :: u64) = take_bit (8 * length bs) (le_word bs)"
    by (metis le_word_le_bytes)
  then have "unat (le_word bs :: u64) = take_bit (8 * length bs) (unat (le_word bs :: u64))"
    by (metis unsigned_take_bit_eq)
  then have "unat (le_word bs :: u64) < 2 ^ (8 * length bs)" by (metis take_bit_nat_less_exp)
  also have "(2 :: nat) ^ (8 * length bs) \<le> 2 ^ 32" using l by (intro power_increasing) auto
  finally show ?thesis .
qed

lemma unat_u8_bound: "unat (b :: u8) < 2 ^ 32"
  using unat_bound [of b] by simp

lemma parse_one_wf: "parse_one b r = Inr (i, r') \<Longrightarrow> wf_instr i"
  using unat_u8_bound [of b] le_word_bound [of "take 1 r"] le_word_bound [of "take 2 r"]
    le_word_bound [of "take 4 r"]
  by (auto simp: parse_one_def Let_def bindE_Inr wf_instr_def opcode_byte_of not_less not_le
      word_gt_0 dest!: take_push_wf dest: byte_gap split: if_splits)

lemma parse_wf: "parseScript bs = Inr is \<Longrightarrow> list_all wf_instr is"
proof (induction bs arbitrary: "is" rule: parseScript.induct)
  case (2 b r)
  from "2.prems" obtain i r' js where p: "parse_one b r = Inr (i, r')"
    and js: "parseScript r' = Inr js" "is = i # js"
    by (auto simp: bindE_Inr split: sum.splits)
  with "2.IH" parse_one_wf [OF p] show ?case by auto
qed simp


section \<open>Dead branches\<close>

text \<open>Conditionals of a script fragment match up, \<open>d\<close> of them being open at its start.\<close>

fun balanced :: "nat \<Rightarrow> instruction list \<Rightarrow> bool" where
  "balanced d [] = (d = 0)"
| "balanced d (i # is) =
     (if opc i = OP_IF \<or> opc i = OP_NOTIF then balanced (Suc d) is
      else if opc i = OP_ELSE then 0 < d \<and> balanced d is
      else if opc i = OP_ENDIF then 0 < d \<and> balanced (d - 1) is
      else balanced d is)"

lemma drop_Cons_nth: "drop n xs = x # r \<Longrightarrow> n < length xs \<and> xs ! n = x \<and> drop (Suc n) xs = r"
  by (metis drop_Suc drop_eq_Nil hd_drop_conv_nth list.distinct(1) list.sel(1,3) not_less tl_drop)

lemma skip_body:
  assumes "drop (ip s) (script s) = body @ r" "balanced (length ds) body"
    "execution_success s" "\<not> executing s" "if_stack s = ds @ False # cs"
  shows "(step sha pk der ^^ length body) s = s\<lparr>ip := ip s + length body, if_stack := False # cs\<rparr>"
  using assms
proof (induction body arbitrary: s ds)
  case Nil
  then show ?case by (cases s) simp
next
  case (Cons i body)
  then have at: "ip s < length (script s)" "script s ! ip s = i" "drop (Suc (ip s)) (script s) = body @ r"
    using drop_Cons_nth by fastforce+
  let ?t = "step sha pk der s"
  obtain es where t: "?t = s\<lparr>ip := Suc (ip s), if_stack := es @ False # cs\<rparr>"
    and bal: "balanced (length es) body"
  proof (cases "opc i = OP_IF \<or> opc i = OP_NOTIF")
    case True
    with Cons.prems at show thesis
      by (intro that [of "False # ds"]) (auto simp: step_def step_if_def Let_def)
  next
    case F: False
    show thesis
    proof (cases "opc i = OP_ELSE \<or> opc i = OP_ENDIF")
      case True
      with F Cons.prems(2) obtain d ds' where ds: "ds = d # ds'" by (cases ds) (auto split: if_splits)
      from True show thesis
      proof
        assume "opc i = OP_ELSE"
        with ds Cons.prems at show thesis
          by (intro that [of "(\<not> d) # ds'"]) (auto simp: step_def step_else_def Let_def)
      next
        assume "opc i = OP_ENDIF"
        with ds Cons.prems at show thesis
          by (intro that [of ds']) (auto simp: step_def step_endif_def Let_def)
      qed
    next
      case False
      with F Cons.prems at show thesis
        by (intro that [of ds]) (auto simp: step_def Let_def split: if_splits)
    qed
  qed
  have "(step sha pk der ^^ length body) ?t = ?t\<lparr>ip := ip ?t + length body, if_stack := False # cs\<rparr>"
    using Cons.prems at t bal by (intro Cons.IH [of ?t es]) simp_all
  then show ?case by (simp add: funpow_swap1 t)
qed

text \<open>
  A branch not taken has no effect: from an executing state whose next instructions are
  \<open>OP_IF\<close>, a body with matching conditionals and \<open>OP_ENDIF\<close>, with a false item on top of the
  stack, the interpreter arrives behind the \<open>OP_ENDIF\<close> with only the condition popped. The body
  may hold anything, unsupported opcodes, returns, nested branches and pushes included.
\<close>

theorem dead_branch_skipped:
  assumes code: "drop (ip s) (script s) = j # body @ e # r" "opc j = OP_IF" "opc e = OP_ENDIF"
    and bal: "balanced 0 body"
    and s: "execution_success s" "executing s" "interp_inv s"
    and top: "stack s = t # st" "\<not> cast_to_bool t"
  shows "(step sha pk der ^^ (length body + 2)) s = s\<lparr>stack := st, ip := ip s + length body + 2\<rparr>"
proof -
  let ?step = "step sha pk der"
  let ?s1 = "s\<lparr>stack := st, ip := Suc (ip s), if_stack := False # if_stack s, executing := False\<rparr>"
  let ?s2 = "?s1\<lparr>ip := Suc (ip s) + length body\<rparr>"
  note at = drop_Cons_nth [OF code(1)]
  have 1: "?step s = ?s1"
    using at s top code(2) by (simp add: step_def step_if_def Let_def)
  have 2: "(?step ^^ length body) ?s1 = ?s2"
    using skip_body [of ?s1 body "e # r" "[]" "if_stack s"] at bal s by simp
  have "drop (length body) (drop (Suc (ip s)) (script s)) = e # r" using at by simp
  then have "drop (Suc (ip s) + length body) (script s) = e # r" by (simp add: add.commute)
  from drop_Cons_nth [OF this] have 3: "?step ?s2 = s\<lparr>stack := st, ip := ip s + length body + 2\<rparr>"
    using code(3) s by (cases s) (simp add: step_def step_endif_def Let_def interp_inv_def)
  have "(?step ^^ (length body + 2)) s = ?step ((?step ^^ length body) (?step s))"
    by (simp add: numeral_2_eq_2 funpow_swap1)
  with 1 2 3 show ?thesis by simp
qed

theorem dead_branch_skipped_witness:
  "(step (\<lambda>b. b) (\<lambda>_. True) (\<lambda>_. True) ^^ 3)
     (init_state [\<lparr>opc = OP_IF, idata = None\<rparr>, \<lparr>opc = OP_RETURN, idata = None\<rparr>,
        \<lparr>opc = OP_ENDIF, idata = None\<rparr>] [[0, 0x80]]) =
   (init_state [\<lparr>opc = OP_IF, idata = None\<rparr>, \<lparr>opc = OP_RETURN, idata = None\<rparr>,
        \<lparr>opc = OP_ENDIF, idata = None\<rparr>] [])\<lparr>ip := 3\<rparr>"
  using dead_branch_skipped [of "init_state [\<lparr>opc = OP_IF, idata = None\<rparr>,
      \<lparr>opc = OP_RETURN, idata = None\<rparr>, \<lparr>opc = OP_ENDIF, idata = None\<rparr>] [[0, 0x80]]"
      "\<lparr>opc = OP_IF, idata = None\<rparr>" "[\<lparr>opc = OP_RETURN, idata = None\<rparr>]"
      "\<lparr>opc = OP_ENDIF, idata = None\<rparr>" "[]" "[0, 0x80]" "[]" "\<lambda>b. b" "\<lambda>_. True" "\<lambda>_. True"]
  by (simp add: init_state_def interp_inv_def numeral_3_eq_3)

section \<open>A hash lock from raw bytes\<close>

text \<open>
  C9. The hash-lock script \<open>OP_SHA256 <d> OP_EQUALVERIFY\<close>, given as raw bytes, is parsed and
  run to the verdict it stands for: on a stack holding a root below a preimage it succeeds
  exactly when the preimage hashes to the digest, and the prover output is then accepted exactly
  when its state root is that root.
\<close>

theorem hash_lock_verdict:
  assumes "length d = 32"
  shows "\<exists>f. execute_bytes sha pk der ([0xa8, 0x20] @ d @ [0x88]) (below @ [root, p]) = Inr f \<and>
    execution_success f = (sha p = d) \<and>
    verifyRustProverOutput f out = (sha p = d \<and> state_root out = root)"
proof -
  let ?scr = "[\<lparr>opc = OP_SHA256, idata = None\<rparr>, \<lparr>opc = OP_PUSH, idata = Some d\<rparr>,
    \<lparr>opc = OP_EQUALVERIFY, idata = None\<rparr>]"
  have "concat (map encode_instr ?scr) = [0xa8, 0x20] @ d @ [0x88]"
    using assms by (simp add: encode_instr_def opcode_table_def Let_def)
  moreover have "list_all wf_instr ?scr"
    using assms by (simp add: wf_instr_def opcode_table_def opcode_of_def Let_def)
  ultimately have parse: "parseScript ([0xa8, 0x20] @ d @ [0x88]) = Inr ?scr"
    using parse_encode by metis
  have "execute sha pk der ?scr (below @ [root, p]) =
      (step sha pk der ^^ Suc (Suc (Suc 0))) (init_state ?scr (below @ [root, p]))"
    by (rule execute_run) simp
  then show ?thesis unfolding execute_bytes_def parse bindE_simps
    by (simp add: init_state_def step_def step_exec_defs verifyRustProverOutput_def Let_def
        eq_commute)
qed

theorem hash_lock_verdict_witness:
  "\<exists>f. execute_bytes (\<lambda>b. replicate 32 (of_nat (length b))) (\<lambda>_. False) (\<lambda>_. False)
       ([0xa8, 0x20] @ replicate 32 3 @ [0x88]) [[7], [1, 2, 3]] = Inr f \<and> execution_success f"
  using hash_lock_verdict [of "replicate 32 3" "\<lambda>b. replicate 32 (of_nat (length b))"
      "\<lambda>_. False" "\<lambda>_. False" "[]" "[7]" "[1, 2, 3]"] by auto

end
