(* ===== verification/SPV.thy ===== *)
theory SPV
  imports Hex
begin

text \<open>
  The SPV proof check of the bridge, class \<open>SPVProof\<close> of
  \<open>src/l2/ailee_sidechain_bridge.h\<close>. SHA-256 is the parameter \<open>sha\<close>; the code always reads a
  32-byte digest, which is the hypothesis \<open>length (sha b) = 32\<close> where a property needs it.
\<close>

record proof_data =
  pf_txId :: string
  pf_voutIndex :: u32
  pf_transaction :: bytes
  pf_merkleProof :: "bytes list"
  pf_blockHash :: string
  pf_blockHeight :: u64
  pf_blockIndex :: u32

definition no_proof :: proof_data where
  "no_proof = \<lparr>pf_txId = [], pf_voutIndex = 0, pf_transaction = [], pf_merkleProof = [],
     pf_blockHash = [], pf_blockHeight = 0, pf_blockIndex = 0\<rparr>"

definition doubleSHA256 :: "(bytes \<Rightarrow> bytes) \<Rightarrow> bytes \<Rightarrow> bytes" where
  "doubleSHA256 sha d = sha (sha d)"

text \<open>One level of the Merkle path; vectors compare lexicographically.\<close>

definition merkle_level :: "(bytes \<Rightarrow> bytes) \<Rightarrow> bytes \<Rightarrow> bytes \<Rightarrow> bytes" where
  "merkle_level sha currentHash sibling =
     (let combined = (if currentHash < sibling then currentHash @ sibling
                      else sibling @ currentHash)
      in doubleSHA256 sha combined)"

definition spv_verify :: "(bytes \<Rightarrow> bytes) \<Rightarrow> proof_data \<Rightarrow> bytes \<Rightarrow> bool" where
  "spv_verify sha proof blockHeader =
     (if length blockHeader < 80 then False
      else let merkleRoot = take 32 (drop 36 blockHeader);
               txHash = doubleSHA256 sha (pf_transaction proof);
               currentHash = foldl (merkle_level sha) txHash (pf_merkleProof proof)
           in currentHash = merkleRoot)"

section \<open>Completeness\<close>

text \<open>A Merkle tree over transactions, hashed the way the check hashes.\<close>

datatype mtree = Leaf bytes | Node mtree mtree

fun mroot :: "(bytes \<Rightarrow> bytes) \<Rightarrow> mtree \<Rightarrow> bytes" where
  "mroot sha (Leaf tx) = doubleSHA256 sha tx"
| "mroot sha (Node l r) = merkle_level sha (mroot sha l) (mroot sha r)"

text \<open>Every leaf with the siblings on its way up.\<close>

fun paths :: "(bytes \<Rightarrow> bytes) \<Rightarrow> mtree \<Rightarrow> (bytes \<times> bytes list) list" where
  "paths sha (Leaf tx) = [(tx, [])]"
| "paths sha (Node l r) =
     map (\<lambda>(tx, ss). (tx, ss @ [mroot sha r])) (paths sha l) @
     map (\<lambda>(tx, ss). (tx, ss @ [mroot sha l])) (paths sha r)"

lemma append_eq_sorted:
  "length a = length b \<Longrightarrow> (if a < b then a @ b else b @ a) = (if b < a then b @ a else a @ (b :: bytes))"
  by (auto simp: not_less dest: order.antisym)

lemma merkle_level_comm:
  "length a = length b \<Longrightarrow> merkle_level sha a b = merkle_level sha b a"
  unfolding merkle_level_def Let_def by (simp only: append_eq_sorted)

lemma length_mroot: "(\<And>b. length (sha b) = n) \<Longrightarrow> length (mroot sha t) = n"
  by (cases t) (auto simp: doubleSHA256_def merkle_level_def Let_def)

lemma paths_root:
  assumes "\<And>b. length (sha b) = 32"
  shows "(tx, ss) \<in> set (paths sha t) \<Longrightarrow>
    foldl (merkle_level sha) (doubleSHA256 sha tx) ss = mroot sha t"
proof (induction t arbitrary: ss)
  case (Node l r)
  have "length (mroot sha l) = length (mroot sha r)" using assms by (simp add: length_mroot)
  with Node show ?case by (auto simp: merkle_level_comm)
qed simp

text \<open>A header of 80 bytes that carries a given root.\<close>

definition header_of :: "bytes \<Rightarrow> bytes" where
  "header_of r = replicate 36 0 @ r @ replicate 12 0"

lemma verify_header_of:
  "length r = 32 \<Longrightarrow> spv_verify sha p (header_of r) \<longleftrightarrow>
     foldl (merkle_level sha) (doubleSHA256 sha (pf_transaction p)) (pf_merkleProof p) = r"
  by (simp add: spv_verify_def header_of_def Let_def)

section \<open>Binding\<close>

lemma merkle_level_inj:
  assumes "length c = 32" "length d = 32" "length s = 32" "c \<noteq> d"
    and "merkle_level sha c s = merkle_level sha d s"
  shows "\<exists>x y. x \<noteq> y \<and> doubleSHA256 sha x = doubleSHA256 sha y"
proof -
  let ?x = "if c < s then c @ s else s @ c" and ?y = "if d < s then d @ s else s @ d"
  have "?x \<noteq> ?y" using assms(1-4) by (auto simp: append_eq_append_conv split: if_splits)
  with assms(5) show ?thesis unfolding merkle_level_def Let_def by blast
qed

lemma merkle_path_binding:
  assumes "length c = 32" "length d = 32" "list_all (\<lambda>s. length s = 32) ss" "c \<noteq> d"
    and "\<And>b. length (sha b) = 32"
    and "foldl (merkle_level sha) c ss = foldl (merkle_level sha) d ss"
  shows "\<exists>x y. x \<noteq> y \<and> doubleSHA256 sha x = doubleSHA256 sha y"
  using assms
proof (induction ss arbitrary: c d)
  case (Cons s ss)
  show ?case
  proof (cases "merkle_level sha c s = merkle_level sha d s")
    case True
    with Cons.prems show ?thesis by (intro merkle_level_inj [of c d s sha]) auto
  next
    case False
    have "length (merkle_level sha e s) = 32" for e
      using Cons.prems(5) by (simp add: merkle_level_def doubleSHA256_def Let_def)
    with False Cons.prems show ?thesis by (intro Cons.IH [of "merkle_level sha c s" "merkle_level sha d s"]) auto
  qed
qed simp


definition toy_sha :: "bytes \<Rightarrow> bytes" where
  "toy_sha b = take 32 (b @ replicate 32 0)"

lemma length_toy_sha: "length (toy_sha b) = 32"
  by (simp add: toy_sha_def)


end
