(* ===== verification/Peg.thy ===== *)
theory Peg
  imports SPV OMap
begin

text \<open>
  The objects the sidechain bridge manages, \<open>src/l2/ailee_sidechain_bridge.h\<close>: federation
  signers and their manager, peg-ins, peg-outs, atomic swaps and the statistics. An object behind
  a \<open>shared_ptr\<close> is a record; a method that changes it returns the new record, paired with its
  \<open>bool\<close> where it has one. The clock of an operation is its argument \<open>now\<close>. The floating-point
  averages and the health score of the statistics are not modelled; all integers are 64-bit.
\<close>

definition MIN_CONFIRMATIONS_PEGIN :: u64 where "MIN_CONFIRMATIONS_PEGIN = 6"
definition MIN_CONFIRMATIONS_PEGOUT :: u64 where "MIN_CONFIRMATIONS_PEGOUT = 100"
definition FEDERATION_SIZE :: nat where "FEDERATION_SIZE = 15"
definition FEDERATION_THRESHOLD :: nat where "FEDERATION_THRESHOLD = 10"
definition MIN_PEGIN_AMOUNT :: u64 where "MIN_PEGIN_AMOUNT = 10000"
definition MAX_PEGIN_AMOUNT :: u64 where "MAX_PEGIN_AMOUNT = 10000000000"
definition BRIDGE_FEE_SATOSHIS :: u64 where "BRIDGE_FEE_SATOSHIS = 1000"

datatype peg_status =
  INITIATED | PENDING_BTC_CONF | BTC_CONFIRMED | MINTED | BURN_INITIATED | PENDING_PEGOUT
| COMPLETED | FAILED | EMERGENCY_RECOVERY

section \<open>Federation\<close>

record signer =
  sg_signerId :: string
  sg_publicKey :: string
  sg_btcAddress :: string
  sg_stake :: u64
  sg_reputationScore :: u64
  sg_signatureCount :: u64
  sg_missedSignatures :: u64
  sg_active :: bool
  sg_joinedTime :: u64

definition new_signer :: "string \<Rightarrow> string \<Rightarrow> string \<Rightarrow> u64 \<Rightarrow> u64 \<Rightarrow> signer" where
  "new_signer sid pubKey btcAddr stake now =
     \<lparr>sg_signerId = sid, sg_publicKey = pubKey, sg_btcAddress = btcAddr, sg_stake = stake,
      sg_reputationScore = 100, sg_signatureCount = 0, sg_missedSignatures = 0, sg_active = True,
      sg_joinedTime = now\<rparr>"

definition recordSignature :: "signer \<Rightarrow> signer" where
  "recordSignature s =
     (let s1 = s\<lparr>sg_signatureCount := sg_signatureCount s + 1\<rparr> in
      if sg_reputationScore s1 < 100
      then s1\<lparr>sg_reputationScore := min 100 (sg_reputationScore s1 + 1)\<rparr> else s1)"

definition recordMissedSignature :: "signer \<Rightarrow> signer" where
  "recordMissedSignature s =
     (let s1 = s\<lparr>sg_missedSignatures := sg_missedSignatures s + 1,
                 sg_reputationScore := max 0 (sg_reputationScore s - 5)\<rparr>
      in if sg_missedSignatures s1 \<ge> 10 then s1\<lparr>sg_active := False\<rparr> else s1)"

type_synonym federation = "(string, signer) omap"

definition addSigner :: "signer \<Rightarrow> federation \<Rightarrow> bool \<times> federation" where
  "addSigner s f =
     (if om_size f \<ge> FEDERATION_SIZE then (False, f) else (True, om_put (sg_signerId s) s f))"

definition removeSigner :: "string \<Rightarrow> federation \<Rightarrow> bool \<times> federation" where
  "removeSigner sid f = (om_get f sid \<noteq> None, om_del sid f)"

definition getActiveSigners :: "federation \<Rightarrow> string list" where
  "getActiveSigners f = map fst (filter (\<lambda>p. sg_active (snd p)) (om_entries f))"

definition getActiveSignerCount :: "federation \<Rightarrow> nat" where
  "getActiveSignerCount f = length (getActiveSigners f)"

definition hasQuorum :: "federation \<Rightarrow> bool" where
  "hasQuorum f \<longleftrightarrow> getActiveSignerCount f \<ge> FEDERATION_THRESHOLD"

section \<open>Peg-ins\<close>

record pegin =
  pi_pegId :: string
  pi_btcTxId :: string
  pi_btcVout :: u32
  pi_btcAmount :: u64
  pi_btcSourceAddress :: string
  pi_aileeDestAddress :: string
  pi_btcBlockHeight :: u64
  pi_btcConfirmations :: u64
  pi_aileeMintAmount :: u64
  pi_initiatedTime :: u64
  pi_completedTime :: u64
  pi_status :: peg_status
  pi_spvProof :: proof_data

definition calculateMintAmount :: "u64 \<Rightarrow> u64" where
  "calculateMintAmount amount =
     (if amount > BRIDGE_FEE_SATOSHIS then amount - BRIDGE_FEE_SATOSHIS else 0)"

definition pegin_id :: "(bytes \<Rightarrow> bytes) \<Rightarrow> string \<Rightarrow> u32 \<Rightarrow> string" where
  "pegin_id sha txId vout = hex_of (sha (str_bytes (txId @ to_dec (unat vout))))"

definition new_pegin ::
    "(bytes \<Rightarrow> bytes) \<Rightarrow> u64 \<Rightarrow> string \<Rightarrow> u32 \<Rightarrow> u64 \<Rightarrow> string \<Rightarrow> string \<Rightarrow> pegin" where
  "new_pegin sha now txId vout amount btcSource aileeDest =
     \<lparr>pi_pegId = pegin_id sha txId vout, pi_btcTxId = txId, pi_btcVout = vout,
      pi_btcAmount = amount, pi_btcSourceAddress = btcSource, pi_aileeDestAddress = aileeDest,
      pi_btcBlockHeight = 0, pi_btcConfirmations = 0,
      pi_aileeMintAmount = calculateMintAmount amount, pi_initiatedTime = now,
      pi_completedTime = 0, pi_status = INITIATED, pi_spvProof = no_proof\<rparr>"

definition pegin_validateAmount :: "pegin \<Rightarrow> bool" where
  "pegin_validateAmount p \<longleftrightarrow>
     pi_btcAmount p \<ge> MIN_PEGIN_AMOUNT \<and> pi_btcAmount p \<le> MAX_PEGIN_AMOUNT"

definition pegin_updateConfirmations :: "u64 \<Rightarrow> u64 \<Rightarrow> pegin \<Rightarrow> bool \<times> pegin" where
  "pegin_updateConfirmations blockHeight currentHeight p =
     (let p1 = p\<lparr>pi_btcBlockHeight := blockHeight,
                 pi_btcConfirmations :=
                   (if currentHeight > blockHeight then currentHeight - blockHeight else 0)\<rparr>
      in if pi_btcConfirmations p1 \<ge> MIN_CONFIRMATIONS_PEGIN \<and> pi_status p1 = PENDING_BTC_CONF
         then (True, p1\<lparr>pi_status := BTC_CONFIRMED\<rparr>) else (False, p1))"

definition attachSPVProof :: "proof_data \<Rightarrow> pegin \<Rightarrow> bool \<times> pegin" where
  "attachSPVProof proof p = (True, p\<lparr>pi_spvProof := proof, pi_status := PENDING_BTC_CONF\<rparr>)"

definition completeMint :: "u64 \<Rightarrow> pegin \<Rightarrow> bool \<times> pegin" where
  "completeMint now p =
     (if pi_status p \<noteq> BTC_CONFIRMED then (False, p)
      else (True, p\<lparr>pi_status := MINTED, pi_completedTime := now\<rparr>))"

section \<open>Peg-outs\<close>

record pegout =
  po_pegId :: string
  po_aileeSourceAddress :: string
  po_btcDestAddress :: string
  po_aileeBurnAmount :: u64
  po_btcReleaseAmount :: u64
  po_aileeBurnTxHeight :: u64
  po_aileeConfirmations :: u64
  po_btcReleaseTxId :: string
  po_anchorCommitmentHash :: string
  po_initiatedTime :: u64
  po_completedTime :: u64
  po_status :: peg_status
  po_signatures :: "(string, bytes) omap"

definition calculateReleaseAmount :: "u64 \<Rightarrow> u64" where
  "calculateReleaseAmount amount =
     (if amount > BRIDGE_FEE_SATOSHIS then amount - BRIDGE_FEE_SATOSHIS else 0)"

definition pegout_id :: "(bytes \<Rightarrow> bytes) \<Rightarrow> u64 \<Rightarrow> string \<Rightarrow> u64 \<Rightarrow> string" where
  "pegout_id sha now addr amount =
     hex_of (sha (str_bytes (addr @ to_dec (unat amount) @ to_dec (unat now))))"

definition new_pegout ::
    "(bytes \<Rightarrow> bytes) \<Rightarrow> u64 \<Rightarrow> string \<Rightarrow> string \<Rightarrow> u64 \<Rightarrow> string \<Rightarrow> pegout" where
  "new_pegout sha now aileeSource btcDest amount anchorHash =
     \<lparr>po_pegId = pegout_id sha now aileeSource amount, po_aileeSourceAddress = aileeSource,
      po_btcDestAddress = btcDest, po_aileeBurnAmount = amount,
      po_btcReleaseAmount = calculateReleaseAmount amount, po_aileeBurnTxHeight = 0,
      po_aileeConfirmations = 0, po_btcReleaseTxId = [], po_anchorCommitmentHash = anchorHash,
      po_initiatedTime = now, po_completedTime = 0, po_status = BURN_INITIATED,
      po_signatures = om_empty\<rparr>"

definition pegout_updateConfirmations :: "u64 \<Rightarrow> u64 \<Rightarrow> pegout \<Rightarrow> bool \<times> pegout" where
  "pegout_updateConfirmations burnHeight currentHeight p =
     (let p1 = p\<lparr>po_aileeBurnTxHeight := burnHeight,
                 po_aileeConfirmations :=
                   (if currentHeight > burnHeight then currentHeight - burnHeight else 0)\<rparr>
      in if po_aileeConfirmations p1 \<ge> MIN_CONFIRMATIONS_PEGOUT \<and> po_status p1 = BURN_INITIATED
         then (True, p1\<lparr>po_status := PENDING_PEGOUT\<rparr>) else (False, p1))"

definition addSignature :: "string \<Rightarrow> bytes \<Rightarrow> pegout \<Rightarrow> bool \<times> pegout" where
  "addSignature sid sig p =
     (if po_status p \<noteq> PENDING_PEGOUT then (False, p)
      else (True, p\<lparr>po_signatures := om_put sid sig (po_signatures p)\<rparr>))"

definition hasRequiredSignatures :: "nat \<Rightarrow> pegout \<Rightarrow> bool" where
  "hasRequiredSignatures threshold p \<longleftrightarrow> om_size (po_signatures p) \<ge> threshold"

definition completeRelease :: "u64 \<Rightarrow> string \<Rightarrow> pegout \<Rightarrow> bool \<times> pegout" where
  "completeRelease now btcTxId p =
     (if po_status p \<noteq> PENDING_PEGOUT then (False, p)
      else (True, p\<lparr>po_btcReleaseTxId := btcTxId, po_status := COMPLETED, po_completedTime := now\<rparr>))"

section \<open>Atomic swaps\<close>

record swap =
  sw_swapId :: string
  sw_partyA :: string
  sw_partyB :: string
  sw_amountA :: u64
  sw_amountB :: u64
  sw_hashLock :: string
  sw_timelock :: u64
  sw_claimedByA :: bool
  sw_claimedByB :: bool
  sw_refundedA :: bool
  sw_refundedB :: bool

definition swap_id :: "(bytes \<Rightarrow> bytes) \<Rightarrow> u64 \<Rightarrow> string \<Rightarrow> string \<Rightarrow> string" where
  "swap_id sha now pA pB = hex_of (sha (str_bytes (pA @ pB @ to_dec (unat now))))"

definition new_swap ::
    "(bytes \<Rightarrow> bytes) \<Rightarrow> u64 \<Rightarrow> string \<Rightarrow> string \<Rightarrow> u64 \<Rightarrow> u64 \<Rightarrow> string \<Rightarrow> u64 \<Rightarrow> swap" where
  "new_swap sha now pA pB amtA amtB hash lockTime =
     \<lparr>sw_swapId = swap_id sha now pA pB, sw_partyA = pA, sw_partyB = pB, sw_amountA = amtA,
      sw_amountB = amtB, sw_hashLock = hash, sw_timelock = lockTime, sw_claimedByA = False,
      sw_claimedByB = False, sw_refundedA = False, sw_refundedB = False\<rparr>"

definition claim :: "(bytes \<Rightarrow> bytes) \<Rightarrow> u64 \<Rightarrow> string \<Rightarrow> string \<Rightarrow> swap \<Rightarrow> bool \<times> swap" where
  "claim sha now party secret s =
     (let secretHash = hex_of (sha (str_bytes secret)) in
      if secretHash \<noteq> sw_hashLock s then (False, s)
      else if now \<ge> sw_timelock s then (False, s)
      else if party = sw_partyA s \<and> \<not> sw_claimedByA s then (True, s\<lparr>sw_claimedByA := True\<rparr>)
      else if party = sw_partyB s \<and> \<not> sw_claimedByB s then (True, s\<lparr>sw_claimedByB := True\<rparr>)
      else (False, s))"

definition refund :: "u64 \<Rightarrow> string \<Rightarrow> swap \<Rightarrow> bool \<times> swap" where
  "refund now party s =
     (if now < sw_timelock s then (False, s)
      else if party = sw_partyA s \<and> \<not> sw_claimedByA s \<and> \<not> sw_refundedA s
        then (True, s\<lparr>sw_refundedA := True\<rparr>)
      else if party = sw_partyB s \<and> \<not> sw_claimedByB s \<and> \<not> sw_refundedB s
        then (True, s\<lparr>sw_refundedB := True\<rparr>)
      else (False, s))"

definition isComplete :: "swap \<Rightarrow> bool" where
  "isComplete s \<longleftrightarrow> sw_claimedByA s \<and> sw_claimedByB s"

section \<open>Statistics\<close>

record bridge_stats =
  st_totalPegins :: u64
  st_totalPegouts :: u64
  st_totalVolumeBTC :: u64
  st_currentLockedBTC :: u64
  st_currentMintedAILEE :: u64
  st_totalFeesCollected :: u64

definition new_stats :: bridge_stats where
  "new_stats = \<lparr>st_totalPegins = 0, st_totalPegouts = 0, st_totalVolumeBTC = 0,
     st_currentLockedBTC = 0, st_currentMintedAILEE = 0, st_totalFeesCollected = 0\<rparr>"

definition recordPegin :: "u64 \<Rightarrow> bridge_stats \<Rightarrow> bridge_stats" where
  "recordPegin amount s =
     s\<lparr>st_totalPegins := st_totalPegins s + 1,
       st_totalVolumeBTC := st_totalVolumeBTC s + amount,
       st_currentLockedBTC := st_currentLockedBTC s + amount,
       st_currentMintedAILEE := st_currentMintedAILEE s + (amount - BRIDGE_FEE_SATOSHIS),
       st_totalFeesCollected := st_totalFeesCollected s + BRIDGE_FEE_SATOSHIS\<rparr>"

definition recordPegout :: "u64 \<Rightarrow> bridge_stats \<Rightarrow> bridge_stats" where
  "recordPegout amount s =
     s\<lparr>st_totalPegouts := st_totalPegouts s + 1,
       st_totalVolumeBTC := st_totalVolumeBTC s + amount,
       st_currentLockedBTC := st_currentLockedBTC s - amount,
       st_currentMintedAILEE := st_currentMintedAILEE s - amount,
       st_totalFeesCollected := st_totalFeesCollected s + BRIDGE_FEE_SATOSHIS\<rparr>"

end
