(* ===== verification/Bridge.thy ===== *)
theory Bridge
  imports Peg
begin

text \<open>
  The orchestrator \<open>SidechainBridge\<close> of \<open>src/l2/ailee_sidechain_bridge.h\<close>, constructed
  without a storage (its default argument), so that the persistence branches are not taken. The
  hash function and the functions of libsecp256k1 that the signature check calls are the fields
  of the parameter \<open>crypto\<close>. Methods return the bridge beside their result.
\<close>

section \<open>State\<close>

record crypto =
  cr_sha :: "bytes \<Rightarrow> bytes"
  cr_pubkey_parse :: "bytes \<Rightarrow> bytes option"
  cr_sig_compact :: "bytes \<Rightarrow> bytes option"
  cr_sig_der :: "bytes \<Rightarrow> bytes option"
  cr_sig_normalize :: "bytes \<Rightarrow> bytes"
  cr_ecdsa_verify :: "bytes \<Rightarrow> bytes \<Rightarrow> bytes \<Rightarrow> bool"

record anchor_commitment =
  ac_l2StateRoot :: string
  ac_timestampMs :: u64
  ac_recoveryMetadata :: string
  ac_payload :: string
  ac_hash :: string
  ac_commitmentBytes :: bytes
  ac_tweakedTaprootKey :: bytes

record bridge =
  br_federation :: federation
  br_statistics :: bridge_stats
  br_pegins :: "(string, pegin) omap"
  br_pegouts :: "(string, pegout) omap"
  br_atomicSwaps :: "(string, swap) omap"
  br_anchorCommitments :: "(string, anchor_commitment) omap"
  br_emergencyMode :: bool

definition new_bridge :: bridge where
  "new_bridge = \<lparr>br_federation = om_empty, br_statistics = new_stats, br_pegins = om_empty,
     br_pegouts = om_empty, br_atomicSwaps = om_empty, br_anchorCommitments = om_empty,
     br_emergencyMode = False\<rparr>"

definition addFederationSigner ::
    "u64 \<Rightarrow> string \<Rightarrow> string \<Rightarrow> string \<Rightarrow> u64 \<Rightarrow> bridge \<Rightarrow> bool \<times> bridge" where
  "addFederationSigner now sid pubKey btcAddr stake b =
     (let (ok, f) = addSigner (new_signer sid pubKey btcAddr stake now) (br_federation b)
      in (ok, b\<lparr>br_federation := f\<rparr>))"

section \<open>Peg-in\<close>

definition initiatePegIn ::
    "crypto \<Rightarrow> u64 \<Rightarrow> string \<Rightarrow> u32 \<Rightarrow> u64 \<Rightarrow> string \<Rightarrow> string \<Rightarrow> bridge \<Rightarrow> string \<times> bridge" where
  "initiatePegIn c now btcTxId vout amount btcSource aileeDest b =
     (let p = new_pegin (cr_sha c) now btcTxId vout amount btcSource aileeDest in
      if \<not> pegin_validateAmount p then ([], b)
      else (pi_pegId p, b\<lparr>br_pegins := om_put (pi_pegId p) p (br_pegins b)\<rparr>))"

definition submitSPVProof ::
    "crypto \<Rightarrow> string \<Rightarrow> proof_data \<Rightarrow> bytes \<Rightarrow> bridge \<Rightarrow> bool \<times> bridge" where
  "submitSPVProof c pegId proof blockHeader b =
     (case om_get (br_pegins b) pegId of
        None \<Rightarrow> (False, b)
      | Some p \<Rightarrow>
          if \<not> spv_verify (cr_sha c) proof blockHeader then (False, b)
          else let (ok, p1) = attachSPVProof proof p
               in (ok, b\<lparr>br_pegins := om_put pegId p1 (br_pegins b)\<rparr>))"

definition updatePegInConfirmations :: "string \<Rightarrow> u64 \<Rightarrow> u64 \<Rightarrow> bridge \<Rightarrow> bool \<times> bridge" where
  "updatePegInConfirmations pegId btcBlockHeight currentBtcHeight b =
     (case om_get (br_pegins b) pegId of
        None \<Rightarrow> (False, b)
      | Some p \<Rightarrow>
          let (ok, p1) = pegin_updateConfirmations btcBlockHeight currentBtcHeight p
          in (ok, b\<lparr>br_pegins := om_put pegId p1 (br_pegins b)\<rparr>))"

definition completePegInMint :: "u64 \<Rightarrow> string \<Rightarrow> bridge \<Rightarrow> bool \<times> bridge" where
  "completePegInMint now pegId b =
     (case om_get (br_pegins b) pegId of
        None \<Rightarrow> (False, b)
      | Some p \<Rightarrow>
          (case completeMint now p of
             (True, p1) \<Rightarrow>
               (True, b\<lparr>br_pegins := om_put pegId p1 (br_pegins b),
                        br_statistics := recordPegin (pi_btcAmount p1) (br_statistics b)\<rparr>)
           | (False, p1) \<Rightarrow> (False, b)))"

section \<open>Peg-out\<close>

definition initiatePegOut ::
    "crypto \<Rightarrow> u64 \<Rightarrow> string \<Rightarrow> string \<Rightarrow> u64 \<Rightarrow> string \<Rightarrow> bridge \<Rightarrow> string \<times> bridge" where
  "initiatePegOut c now aileeSource btcDest amount anchorHash b =
     (if anchorHash = [] then ([], b)
      else if om_get (br_anchorCommitments b) anchorHash = None then ([], b)
      else let p = new_pegout (cr_sha c) now aileeSource btcDest amount anchorHash
           in (po_pegId p, b\<lparr>br_pegouts := om_put (po_pegId p) p (br_pegouts b)\<rparr>))"

definition updatePegOutConfirmations :: "string \<Rightarrow> u64 \<Rightarrow> u64 \<Rightarrow> bridge \<Rightarrow> bool \<times> bridge" where
  "updatePegOutConfirmations pegId burnHeight currentHeight b =
     (case om_get (br_pegouts b) pegId of
        None \<Rightarrow> (False, b)
      | Some p \<Rightarrow>
          let (ok, p1) = pegout_updateConfirmations burnHeight currentHeight p
          in (ok, b\<lparr>br_pegouts := om_put pegId p1 (br_pegouts b)\<rparr>))"

definition pegout_payload :: "string \<Rightarrow> string \<Rightarrow> string \<Rightarrow> u64 \<Rightarrow> u64 \<Rightarrow> string \<Rightarrow> string" where
  "pegout_payload pegId src dst burn release anchorHash =
     pegId @ ''|'' @ src @ ''|'' @ dst @ ''|'' @ to_dec (unat burn) @ ''|'' @
     to_dec (unat release) @ ''|'' @ anchorHash"

definition verifyPegOutSignature ::
    "crypto \<Rightarrow> string \<Rightarrow> string \<Rightarrow> string \<Rightarrow> u64 \<Rightarrow> u64 \<Rightarrow> string \<Rightarrow> string \<Rightarrow> bytes \<Rightarrow> bool" where
  "verifyPegOutSignature c pegId src dst burn release anchorHash signerPubKeyHex signature =
     (if length signature < 64 then False
      else
        let hash1 = cr_sha c (str_bytes (pegout_payload pegId src dst burn release anchorHash));
            hash2 = cr_sha c hash1
        in case cr_pubkey_parse c (hex_decode signerPubKeyHex) of
             None \<Rightarrow> False
           | Some pubkey \<Rightarrow>
               let compact = (if length signature = 64 then cr_sig_compact c signature else None);
                   parsed = (case compact of Some s \<Rightarrow> Some s | None \<Rightarrow> cr_sig_der c signature)
               in case parsed of
                    None \<Rightarrow> False
                  | Some sig \<Rightarrow> cr_ecdsa_verify c (cr_sig_normalize c sig) hash2 pubkey)"

definition isPegOutAnchorAuthorized :: "bridge \<Rightarrow> pegout \<Rightarrow> bool" where
  "isPegOutAnchorAuthorized b p \<longleftrightarrow>
     po_anchorCommitmentHash p \<noteq> [] \<and>
     om_get (br_anchorCommitments b) (po_anchorCommitmentHash p) \<noteq> None"

definition signPegOut :: "crypto \<Rightarrow> string \<Rightarrow> string \<Rightarrow> bytes \<Rightarrow> bridge \<Rightarrow> bool \<times> bridge" where
  "signPegOut c pegId signerId signature b =
     (case om_get (br_pegouts b) pegId of
        None \<Rightarrow> (False, b)
      | Some p \<Rightarrow>
          if \<not> isPegOutAnchorAuthorized b p then (False, b)
          else case om_get (br_federation b) signerId of
            None \<Rightarrow> (False, b)
          | Some s \<Rightarrow>
              if \<not> sg_active s then (False, b)
              else if \<not> verifyPegOutSignature c pegId (po_aileeSourceAddress p)
                       (po_btcDestAddress p) (po_aileeBurnAmount p) (po_btcReleaseAmount p)
                       (po_anchorCommitmentHash p) (sg_publicKey s) signature
              then (False, b)
              else case addSignature signerId signature p of
                (True, p1) \<Rightarrow>
                  (True, b\<lparr>br_pegouts := om_put pegId p1 (br_pegouts b),
                           br_federation := om_put signerId (recordSignature s) (br_federation b)\<rparr>)
              | (False, p1) \<Rightarrow> (False, b))"

definition completePegOut :: "u64 \<Rightarrow> string \<Rightarrow> string \<Rightarrow> bridge \<Rightarrow> bool \<times> bridge" where
  "completePegOut now pegId btcTxId b =
     (case om_get (br_pegouts b) pegId of
        None \<Rightarrow> (False, b)
      | Some p \<Rightarrow>
          if \<not> isPegOutAnchorAuthorized b p then (False, b)
          else if \<not> hasRequiredSignatures FEDERATION_THRESHOLD p then (False, b)
          else case completeRelease now btcTxId p of
            (True, p1) \<Rightarrow>
              (True, b\<lparr>br_pegouts := om_put pegId p1 (br_pegouts b),
                       br_statistics := recordPegout (po_aileeBurnAmount p1) (br_statistics b)\<rparr>)
          | (False, p1) \<Rightarrow> (False, b))"

section \<open>Swaps, emergency mode, anchors\<close>

definition createAtomicSwap ::
    "crypto \<Rightarrow> u64 \<Rightarrow> string \<Rightarrow> string \<Rightarrow> u64 \<Rightarrow> u64 \<Rightarrow> string \<Rightarrow> u64 \<Rightarrow> bridge \<Rightarrow> string \<times> bridge" where
  "createAtomicSwap c now partyA partyB amountA amountB hashLock timelockDuration b =
     (let timelock = now + timelockDuration;
          s = new_swap (cr_sha c) now partyA partyB amountA amountB hashLock timelock
      in (sw_swapId s, b\<lparr>br_atomicSwaps := om_put (sw_swapId s) s (br_atomicSwaps b)\<rparr>))"

definition claimAtomicSwap ::
    "crypto \<Rightarrow> u64 \<Rightarrow> string \<Rightarrow> string \<Rightarrow> string \<Rightarrow> bridge \<Rightarrow> bool \<times> bridge" where
  "claimAtomicSwap c now swapId party secret b =
     (case om_get (br_atomicSwaps b) swapId of
        None \<Rightarrow> (False, b)
      | Some s \<Rightarrow> let (ok, s1) = claim (cr_sha c) now party secret s
                  in (ok, b\<lparr>br_atomicSwaps := om_put swapId s1 (br_atomicSwaps b)\<rparr>))"

definition refundAtomicSwap :: "u64 \<Rightarrow> string \<Rightarrow> string \<Rightarrow> bridge \<Rightarrow> bool \<times> bridge" where
  "refundAtomicSwap now swapId party b =
     (case om_get (br_atomicSwaps b) swapId of
        None \<Rightarrow> (False, b)
      | Some s \<Rightarrow> let (ok, s1) = refund now party s
                  in (ok, b\<lparr>br_atomicSwaps := om_put swapId s1 (br_atomicSwaps b)\<rparr>))"

definition activateEmergencyMode :: "bridge \<Rightarrow> bool \<times> bridge" where
  "activateEmergencyMode b = (True, b\<lparr>br_emergencyMode := True\<rparr>)"

definition deactivateEmergencyMode :: "bridge \<Rightarrow> bool \<times> bridge" where
  "deactivateEmergencyMode b =
     (if \<not> hasQuorum (br_federation b) then (False, b)
      else (True, b\<lparr>br_emergencyMode := False\<rparr>))"

text \<open>\<open>std::tolower\<close> in the C locale, on every character.\<close>

definition tolower :: "char \<Rightarrow> char" where
  "tolower ch = (let n = (of_char ch :: nat) in if 65 \<le> n \<and> n \<le> 90 then char_of (n + 32) else ch)"

definition registerAnchorCommitment ::
    "crypto \<Rightarrow> anchor_commitment \<Rightarrow> string \<Rightarrow> bridge \<Rightarrow> bool \<times> bridge" where
  "registerAnchorCommitment c anchor expectedStateRoot b =
     (if ac_l2StateRoot anchor \<noteq> expectedStateRoot then (False, b)
      else if map tolower (sha256Hex (cr_sha c) (ac_payload anchor)) \<noteq> map tolower (ac_hash anchor)
      then (False, b)
      else (True, b\<lparr>br_anchorCommitments :=
                    om_put (ac_hash anchor) anchor (br_anchorCommitments b)\<rparr>))"

section \<open>Snapshot\<close>

fun status_code :: "peg_status \<Rightarrow> int" where
  "status_code INITIATED = 0"
| "status_code PENDING_BTC_CONF = 1"
| "status_code BTC_CONFIRMED = 2"
| "status_code MINTED = 3"
| "status_code BURN_INITIATED = 4"
| "status_code PENDING_PEGOUT = 5"
| "status_code COMPLETED = 6"
| "status_code FAILED = 7"
| "status_code EMERGENCY_RECOVERY = 8"

record pegin_snapshot =
  pis_pegId :: string
  pis_btcTxId :: string
  pis_vout :: u32
  pis_btcAmount :: u64
  pis_btcSource :: string
  pis_aileeDest :: string
  pis_confirmations :: u64
  pis_initiatedTime :: u64
  pis_completedTime :: u64
  pis_status :: int

record pegout_snapshot =
  pos_pegId :: string
  pos_aileeSource :: string
  pos_btcDest :: string
  pos_aileeBurnAmount :: u64
  pos_btcReleaseAmount :: u64
  pos_initiatedTime :: u64
  pos_completedTime :: u64
  pos_status :: int
  pos_anchorCommitmentHash :: string

record bridge_snapshot =
  bs_pegins :: "pegin_snapshot list"
  bs_pegouts :: "pegout_snapshot list"

definition snapshotBridgeState :: "bridge \<Rightarrow> bridge_snapshot" where
  "snapshotBridgeState b =
     \<lparr>bs_pegins = map (\<lambda>(pegId, d). \<lparr>pis_pegId = pegId, pis_btcTxId = pi_btcTxId d,
          pis_vout = pi_btcVout d, pis_btcAmount = pi_btcAmount d,
          pis_btcSource = pi_btcSourceAddress d, pis_aileeDest = pi_aileeDestAddress d,
          pis_confirmations = pi_btcConfirmations d, pis_initiatedTime = pi_initiatedTime d,
          pis_completedTime = pi_completedTime d, pis_status = status_code (pi_status d)\<rparr>)
        (om_entries (br_pegins b)),
      bs_pegouts = map (\<lambda>(pegId, d). \<lparr>pos_pegId = pegId,
          pos_aileeSource = po_aileeSourceAddress d, pos_btcDest = po_btcDestAddress d,
          pos_aileeBurnAmount = po_aileeBurnAmount d,
          pos_btcReleaseAmount = po_btcReleaseAmount d, pos_initiatedTime = po_initiatedTime d,
          pos_completedTime = po_completedTime d, pos_status = status_code (po_status d),
          pos_anchorCommitmentHash = po_anchorCommitmentHash d\<rparr>)
        (om_entries (br_pegouts b))\<rparr>"

section \<open>Operations as data\<close>

datatype bridge_op =
  AddFedSigner u64 string string string u64
| RemoveSigner string
| MissedSignature string
| InitiatePegIn u64 string u32 u64 string string
| SubmitSPV string proof_data bytes
| UpdatePegIn string u64 u64
| CompleteMint u64 string
| InitiatePegOut u64 string string u64 string
| UpdatePegOut string u64 u64
| SignPegOut string string bytes
| CompletePegOut u64 string string
| CreateSwap u64 string string u64 u64 string u64
| ClaimSwap u64 string string string
| RefundSwap u64 string string
| ActivateEmergency
| DeactivateEmergency
| RegisterAnchor anchor_commitment string

text \<open>
  \<open>getFederation\<close> hands out the manager, so its callers can also remove a signer and record a
  missed signature on one.
\<close>

fun bridge_step :: "crypto \<Rightarrow> bridge \<Rightarrow> bridge_op \<Rightarrow> bridge" where
  "bridge_step c b (AddFedSigner now sid pk addr stake) = snd (addFederationSigner now sid pk addr stake b)"
| "bridge_step c b (RemoveSigner sid) =
     b\<lparr>br_federation := snd (removeSigner sid (br_federation b))\<rparr>"
| "bridge_step c b (MissedSignature sid) =
     (case om_get (br_federation b) sid of None \<Rightarrow> b
      | Some s \<Rightarrow> b\<lparr>br_federation := om_put sid (recordMissedSignature s) (br_federation b)\<rparr>)"
| "bridge_step c b (InitiatePegIn now tx vout amt src dst) = snd (initiatePegIn c now tx vout amt src dst b)"
| "bridge_step c b (SubmitSPV i p h) = snd (submitSPVProof c i p h b)"
| "bridge_step c b (UpdatePegIn i h h') = snd (updatePegInConfirmations i h h' b)"
| "bridge_step c b (CompleteMint now i) = snd (completePegInMint now i b)"
| "bridge_step c b (InitiatePegOut now src dst amt a) = snd (initiatePegOut c now src dst amt a b)"
| "bridge_step c b (UpdatePegOut i h h') = snd (updatePegOutConfirmations i h h' b)"
| "bridge_step c b (SignPegOut i s sig) = snd (signPegOut c i s sig b)"
| "bridge_step c b (CompletePegOut now i tx) = snd (completePegOut now i tx b)"
| "bridge_step c b (CreateSwap now pA pB a a' h d) = snd (createAtomicSwap c now pA pB a a' h d b)"
| "bridge_step c b (ClaimSwap now i p s) = snd (claimAtomicSwap c now i p s b)"
| "bridge_step c b (RefundSwap now i p) = snd (refundAtomicSwap now i p b)"
| "bridge_step c b ActivateEmergency = snd (activateEmergencyMode b)"
| "bridge_step c b DeactivateEmergency = snd (deactivateEmergencyMode b)"
| "bridge_step c b (RegisterAnchor a r) = snd (registerAnchorCommitment c a r b)"

end
