(* ===== verification/Bridge_Props.thy ===== *)
theory Bridge_Props
  imports Bridge
begin

text \<open>
  Properties of the sidechain bridge: the invariant of every reachable bridge, what stands behind
  a released peg-out, the accounting of locked and minted coins, repeated minting, and the
  behaviour of atomic swaps and of the reputation of signers.
\<close>

section \<open>Well-formed bridges\<close>

definition wf_pegin :: "crypto \<Rightarrow> string \<Rightarrow> pegin \<Rightarrow> bool" where
  "wf_pegin c k p \<longleftrightarrow> pi_pegId p = k \<and> k = pegin_id (cr_sha c) (pi_btcTxId p) (pi_btcVout p) \<and>
     pegin_validateAmount p \<and> pi_aileeMintAmount p = pi_btcAmount p - BRIDGE_FEE_SATOSHIS \<and>
     pi_status p \<in> {INITIATED, PENDING_BTC_CONF, BTC_CONFIRMED, MINTED}"

text \<open>A signature that some key verified over the peg-out's own data.\<close>

definition verified_signature :: "crypto \<Rightarrow> string \<Rightarrow> pegout \<Rightarrow> bytes \<Rightarrow> bool" where
  "verified_signature c k p sig \<longleftrightarrow> (\<exists>pk.
     verifyPegOutSignature c k (po_aileeSourceAddress p) (po_btcDestAddress p)
       (po_aileeBurnAmount p) (po_btcReleaseAmount p) (po_anchorCommitmentHash p) pk sig)"

definition wf_pegout :: "crypto \<Rightarrow> string \<Rightarrow> pegout \<Rightarrow> bool" where
  "wf_pegout c k p \<longleftrightarrow> po_pegId p = k \<and>
     po_btcReleaseAmount p = calculateReleaseAmount (po_aileeBurnAmount p) \<and>
     (\<forall>sid sig. om_get (po_signatures p) sid = Some sig \<longrightarrow> verified_signature c k p sig) \<and>
     po_status p \<in> {BURN_INITIATED, PENDING_PEGOUT, COMPLETED} \<and>
     (po_status p = COMPLETED \<longrightarrow> FEDERATION_THRESHOLD \<le> om_size (po_signatures p))"

definition bridge_inv :: "crypto \<Rightarrow> bridge \<Rightarrow> bool" where
  "bridge_inv c b \<longleftrightarrow>
     (\<forall>k p. om_get (br_pegins b) k = Some p \<longrightarrow> wf_pegin c k p) \<and>
     (\<forall>k p. om_get (br_pegouts b) k = Some p \<longrightarrow>
        wf_pegout c k p \<and> isPegOutAnchorAuthorized b p) \<and>
     om_size (br_federation b) \<le> FEDERATION_SIZE"

lemma bridge_inv_new: "bridge_inv c new_bridge"
  by (simp add: bridge_inv_def new_bridge_def FEDERATION_SIZE_def)

lemma inv_pegin: "bridge_inv c b \<Longrightarrow> om_get (br_pegins b) k = Some p \<Longrightarrow> wf_pegin c k p"
  by (simp add: bridge_inv_def)

lemma inv_pegout:
  "bridge_inv c b \<Longrightarrow> om_get (br_pegouts b) k = Some p \<Longrightarrow>
   wf_pegout c k p \<and> isPegOutAnchorAuthorized b p"
  by (simp add: bridge_inv_def)

lemma auth_cong [simp]:
  "isPegOutAnchorAuthorized (b\<lparr>br_pegins := x\<rparr>) p = isPegOutAnchorAuthorized b p"
  "isPegOutAnchorAuthorized (b\<lparr>br_pegouts := y\<rparr>) p = isPegOutAnchorAuthorized b p"
  "isPegOutAnchorAuthorized (b\<lparr>br_federation := f\<rparr>) p = isPegOutAnchorAuthorized b p"
  "isPegOutAnchorAuthorized (b\<lparr>br_statistics := s\<rparr>) p = isPegOutAnchorAuthorized b p"
  "isPegOutAnchorAuthorized (b\<lparr>br_atomicSwaps := w\<rparr>) p = isPegOutAnchorAuthorized b p"
  "isPegOutAnchorAuthorized (b\<lparr>br_emergencyMode := e\<rparr>) p = isPegOutAnchorAuthorized b p"
  by (simp_all add: isPegOutAnchorAuthorized_def)

text \<open>Storing a well-formed object, and the parts of the state the invariant does not look at.\<close>

lemma inv_put_pegin:
  "bridge_inv c b \<Longrightarrow> wf_pegin c k p \<Longrightarrow> bridge_inv c (b\<lparr>br_pegins := om_put k p (br_pegins b)\<rparr>)"
  by (auto simp: bridge_inv_def om.get_put)

lemma inv_put_pegout:
  "bridge_inv c b \<Longrightarrow> wf_pegout c k p \<Longrightarrow> isPegOutAnchorAuthorized b p \<Longrightarrow>
   bridge_inv c (b\<lparr>br_pegouts := om_put k p (br_pegouts b)\<rparr>)"
  by (auto simp: bridge_inv_def om.get_put)

lemma inv_federation:
  "bridge_inv c b \<Longrightarrow> om_size f \<le> FEDERATION_SIZE \<Longrightarrow> bridge_inv c (b\<lparr>br_federation := f\<rparr>)"
  by (auto simp: bridge_inv_def)

lemma inv_frame [simp]:
  "bridge_inv c (b\<lparr>br_statistics := s\<rparr>) = bridge_inv c b"
  "bridge_inv c (b\<lparr>br_atomicSwaps := w\<rparr>) = bridge_inv c b"
  "bridge_inv c (b\<lparr>br_emergencyMode := e\<rparr>) = bridge_inv c b"
  by (simp_all add: bridge_inv_def)

lemmas peg_in_ops = pegin_updateConfirmations_def attachSPVProof_def completeMint_def
  pegin_validateAmount_def Let_def
lemmas peg_out_ops = pegout_updateConfirmations_def completeRelease_def hasRequiredSignatures_def Let_def

lemma wf_new_pegin:
  "pegin_validateAmount (new_pegin (cr_sha c) now tx vout amt src dst) \<Longrightarrow>
   wf_pegin c (pegin_id (cr_sha c) tx vout) (new_pegin (cr_sha c) now tx vout amt src dst)"
  by (auto simp: wf_pegin_def new_pegin_def pegin_validateAmount_def calculateMintAmount_def
      MIN_PEGIN_AMOUNT_def BRIDGE_FEE_SATOSHIS_def word_less_nat_alt word_le_nat_alt)

lemma wf_pegin_ops:
  assumes "wf_pegin c k p"
  shows "wf_pegin c k (snd (attachSPVProof pf p))"
    and "wf_pegin c k (snd (pegin_updateConfirmations h h' p))"
    and "wf_pegin c k (snd (completeMint now p))"
  using assms by (auto simp: wf_pegin_def peg_in_ops)

lemma wf_new_pegout: "wf_pegout c (po_pegId (new_pegout sha now src dst amt a)) (new_pegout sha now src dst amt a)"
  by (simp add: wf_pegout_def new_pegout_def)

lemma verified_cong:
  "po_aileeSourceAddress q = po_aileeSourceAddress p \<Longrightarrow> po_btcDestAddress q = po_btcDestAddress p \<Longrightarrow>
   po_aileeBurnAmount q = po_aileeBurnAmount p \<Longrightarrow> po_btcReleaseAmount q = po_btcReleaseAmount p \<Longrightarrow>
   po_anchorCommitmentHash q = po_anchorCommitmentHash p \<Longrightarrow>
   verified_signature c k q = verified_signature c k p"
  by (simp add: verified_signature_def fun_eq_iff)

lemma wf_pegout_ops:
  assumes "wf_pegout c k p"
  shows "wf_pegout c k (snd (pegout_updateConfirmations h h' p))"
    and "verified_signature c k p sig \<Longrightarrow> wf_pegout c k (snd (addSignature sid sig p))"
    and "hasRequiredSignatures FEDERATION_THRESHOLD p \<Longrightarrow> wf_pegout c k (snd (completeRelease now tx p))"
  using assms
  by (auto simp: wf_pegout_def peg_out_ops addSignature_def om.get_put verified_signature_def)

lemma auth_ops:
  "isPegOutAnchorAuthorized b (snd (pegout_updateConfirmations h h' p)) = isPegOutAnchorAuthorized b p"
  "isPegOutAnchorAuthorized b (snd (addSignature sid sig p)) = isPegOutAnchorAuthorized b p"
  "isPegOutAnchorAuthorized b (snd (completeRelease now tx p)) = isPegOutAnchorAuthorized b p"
  by (simp_all add: isPegOutAnchorAuthorized_def peg_out_ops addSignature_def)

section \<open>Every operation keeps the invariant\<close>

lemma inv_upd_pegin:
  "bridge_inv c b \<Longrightarrow> om_get (br_pegins b) k = Some p \<Longrightarrow> (wf_pegin c k p \<Longrightarrow> wf_pegin c k q) \<Longrightarrow>
   bridge_inv c (b\<lparr>br_pegins := om_put k q (br_pegins b)\<rparr>)"
  using inv_pegin [of c b k p] by (auto intro: inv_put_pegin)

lemma inv_upd_pegout:
  "bridge_inv c b \<Longrightarrow> om_get (br_pegouts b) k = Some p \<Longrightarrow> (wf_pegout c k p \<Longrightarrow> wf_pegout c k q) \<Longrightarrow>
   isPegOutAnchorAuthorized b q = isPegOutAnchorAuthorized b p \<Longrightarrow>
   bridge_inv c (b\<lparr>br_pegouts := om_put k q (br_pegouts b)\<rparr>)"
  using inv_pegout [of c b k p] by (auto intro: inv_put_pegout)

lemma inv_initiatePegIn:
  "bridge_inv c b \<Longrightarrow> bridge_inv c (snd (initiatePegIn c now tx vout amt src dst b))"
  using wf_new_pegin [of c now tx vout amt src dst]
  by (simp add: initiatePegIn_def Let_def inv_put_pegin new_pegin_def)

lemma inv_submitSPV:
  assumes "bridge_inv c b"
  shows "bridge_inv c (snd (submitSPVProof c k pf h b))"
proof (cases "om_get (br_pegins b) k")
  case (Some p)
  with inv_upd_pegin [OF assms Some, of "snd (attachSPVProof pf p)"] wf_pegin_ops(1) assms
  show ?thesis by (simp add: submitSPVProof_def split_beta)
qed (simp add: submitSPVProof_def assms)

lemma inv_updatePegIn:
  assumes "bridge_inv c b"
  shows "bridge_inv c (snd (updatePegInConfirmations k h h' b))"
proof (cases "om_get (br_pegins b) k")
  case (Some p)
  with inv_upd_pegin [OF assms Some, of "snd (pegin_updateConfirmations h h' p)"] wf_pegin_ops(2)
  show ?thesis by (simp add: updatePegInConfirmations_def split_beta)
qed (simp add: updatePegInConfirmations_def assms)

lemma inv_completeMint:
  assumes "bridge_inv c b"
  shows "bridge_inv c (snd (completePegInMint now k b))"
proof (cases "om_get (br_pegins b) k")
  case (Some p)
  with inv_upd_pegin [OF assms Some, of "snd (completeMint now p)"] wf_pegin_ops(3) assms
  show ?thesis by (simp add: completePegInMint_def split_beta split: prod.split bool.split)
qed (simp add: completePegInMint_def assms)

lemmas inv_peg_in_ops = inv_initiatePegIn inv_submitSPV inv_updatePegIn inv_completeMint

lemma inv_initiatePegOut:
  "bridge_inv c b \<Longrightarrow> bridge_inv c (snd (initiatePegOut c now src dst amt a b))"
  using wf_new_pegout [of c "cr_sha c" now src dst amt a]
    inv_put_pegout [of c b _ "new_pegout (cr_sha c) now src dst amt a"]
  by (simp add: initiatePegOut_def Let_def isPegOutAnchorAuthorized_def new_pegout_def)

lemma inv_updatePegOut:
  assumes "bridge_inv c b"
  shows "bridge_inv c (snd (updatePegOutConfirmations k h h' b))"
proof (cases "om_get (br_pegouts b) k")
  case (Some p)
  with inv_upd_pegout [OF assms Some, of "snd (pegout_updateConfirmations h h' p)"] wf_pegout_ops(1)
  show ?thesis by (simp add: updatePegOutConfirmations_def split_beta auth_ops)
qed (simp add: updatePegOutConfirmations_def assms)

lemma signPegOut_True:
  assumes "signPegOut c k sid sig b = (True, b1)"
  obtains p s where "om_get (br_pegouts b) k = Some p" "om_get (br_federation b) sid = Some s"
    "sg_active s" "po_status p = PENDING_PEGOUT" "verified_signature c k p sig"
    "b1 = b\<lparr>br_pegouts := om_put k (p\<lparr>po_signatures := om_put sid sig (po_signatures p)\<rparr>) (br_pegouts b),
        br_federation := om_put sid (recordSignature s) (br_federation b)\<rparr>"
  using assms
  by (auto simp: signPegOut_def addSignature_def verified_signature_def split: option.splits if_splits)

lemma signPegOut_False: "signPegOut c k sid sig b = (False, b1) \<Longrightarrow> b1 = b"
  by (auto simp: signPegOut_def addSignature_def split: option.splits if_splits)

lemma inv_signPegOut:
  assumes inv: "bridge_inv c b"
  shows "bridge_inv c (snd (signPegOut c k sid sig b))"
proof (cases "signPegOut c k sid sig b")
  case (Pair ok b1)
  show ?thesis
  proof (cases ok)
    case True
    with Pair signPegOut_True obtain p s where p: "om_get (br_pegouts b) k = Some p"
      and s: "om_get (br_federation b) sid = Some s" and st: "po_status p = PENDING_PEGOUT"
      and v: "verified_signature c k p sig"
      and b1: "b1 = b\<lparr>br_pegouts := om_put k (p\<lparr>po_signatures := om_put sid sig (po_signatures p)\<rparr>)
        (br_pegouts b), br_federation := om_put sid (recordSignature s) (br_federation b)\<rparr>"
      by metis
    have "bridge_inv c (b\<lparr>br_pegouts := om_put k (snd (addSignature sid sig p)) (br_pegouts b)\<rparr>)"
      using v by (intro inv_upd_pegout [OF inv p] wf_pegout_ops(2) auth_ops(2))
    moreover have "om_size (om_put sid (recordSignature s) (br_federation b)) \<le> FEDERATION_SIZE"
      using inv s by (simp add: om_size_put bridge_inv_def)
    ultimately show ?thesis using st by (simp add: Pair b1 inv_federation addSignature_def)
  next
    case False
    with Pair inv show ?thesis by (auto dest: signPegOut_False)
  qed
qed

lemma completePegOut_True:
  assumes "completePegOut now k tx b = (True, b1)"
  obtains p where "om_get (br_pegouts b) k = Some p" "isPegOutAnchorAuthorized b p"
    "hasRequiredSignatures FEDERATION_THRESHOLD p" "po_status p = PENDING_PEGOUT"
    "b1 = b\<lparr>br_pegouts := om_put k (p\<lparr>po_btcReleaseTxId := tx, po_status := COMPLETED,
          po_completedTime := now\<rparr>) (br_pegouts b),
        br_statistics := recordPegout (po_aileeBurnAmount p) (br_statistics b)\<rparr>"
  using assms by (auto simp: completePegOut_def completeRelease_def split: option.splits if_splits)

lemma completePegOut_False: "completePegOut now k tx b = (False, b1) \<Longrightarrow> b1 = b"
  by (auto simp: completePegOut_def completeRelease_def split: option.splits if_splits)

lemma inv_completePegOut:
  assumes inv: "bridge_inv c b"
  shows "bridge_inv c (snd (completePegOut now k tx b))"
proof (cases "completePegOut now k tx b")
  case (Pair ok b1)
  show ?thesis
  proof (cases ok)
    case True
    with Pair completePegOut_True obtain p where p: "om_get (br_pegouts b) k = Some p"
      and q: "hasRequiredSignatures FEDERATION_THRESHOLD p" and st: "po_status p = PENDING_PEGOUT"
      and b1: "b1 = b\<lparr>br_pegouts := om_put k (p\<lparr>po_btcReleaseTxId := tx, po_status := COMPLETED,
          po_completedTime := now\<rparr>) (br_pegouts b),
        br_statistics := recordPegout (po_aileeBurnAmount p) (br_statistics b)\<rparr>"
      by metis
    have "bridge_inv c (b\<lparr>br_pegouts := om_put k (snd (completeRelease now tx p)) (br_pegouts b)\<rparr>)"
      using q by (intro inv_upd_pegout [OF inv p] wf_pegout_ops(3) auth_ops(3))
    with st show ?thesis by (simp add: Pair b1 completeRelease_def)
  next
    case False
    with Pair inv show ?thesis by (auto dest: completePegOut_False)
  qed
qed

lemma inv_federation_ops:
  assumes "bridge_inv c b"
  shows "bridge_inv c (snd (addFederationSigner now sid pk addr stake b))"
    and "bridge_inv c (b\<lparr>br_federation := snd (removeSigner sid (br_federation b))\<rparr>)"
    and "om_get (br_federation b) sid = Some s \<Longrightarrow>
      bridge_inv c (b\<lparr>br_federation := om_put sid s' (br_federation b)\<rparr>)"
  using assms le_trans [OF om_size_del]
  by (auto simp: addFederationSigner_def addSigner_def removeSigner_def om_size_put bridge_inv_def
      split_beta Let_def intro!: inv_federation)

lemma inv_registerAnchor:
  "bridge_inv c b \<Longrightarrow> bridge_inv c (snd (registerAnchorCommitment c a r b))"
  by (auto simp: registerAnchorCommitment_def bridge_inv_def isPegOutAnchorAuthorized_def)

lemma bridge_inv_step: "bridge_inv c b \<Longrightarrow> bridge_inv c (bridge_step c b x)"
  by (cases x)
    (auto simp: inv_peg_in_ops inv_initiatePegOut inv_updatePegOut inv_signPegOut
      inv_completePegOut inv_federation_ops inv_registerAnchor createAtomicSwap_def
      claimAtomicSwap_def refundAtomicSwap_def activateEmergencyMode_def
      deactivateEmergencyMode_def split_beta Let_def split: option.split)

interpretation bridge_run: component "bridge_step c" "bridge_inv c" for c
  by unfold_locales (rule bridge_inv_step)

text \<open>
  C11. Whatever calls reach the bridge, in whatever order: every stored peg-in is filed under the
  hash of its transaction and output, is within the amount limits, and would mint exactly its
  amount less the fee; every stored peg-out releases its burn less the fee, is backed by a
  registered anchor, carries only signatures verified over its own data, and is completed only
  with at least ten of them; and the federation never exceeds fifteen signers.
\<close>

theorem bridge_reachable_inv: "bridge_inv c (foldl (bridge_step c) new_bridge ops)"
  by (rule bridge_run.run_inv) (rule bridge_inv_new)


section \<open>Accounting\<close>

definition accounts_ok :: "bridge_stats \<Rightarrow> bool" where
  "accounts_ok s \<longleftrightarrow>
     st_currentLockedBTC s = st_currentMintedAILEE s + BRIDGE_FEE_SATOSHIS * st_totalPegins s \<and>
     st_totalFeesCollected s = BRIDGE_FEE_SATOSHIS * (st_totalPegins s + st_totalPegouts s)"

lemma accounts_record:
  "accounts_ok s \<Longrightarrow> accounts_ok (recordPegin a s)" "accounts_ok s \<Longrightarrow> accounts_ok (recordPegout a s)"
  by (simp_all add: accounts_ok_def recordPegin_def recordPegout_def algebra_simps)

lemma stats_frame:
  "br_statistics (snd (initiatePegIn c now tx vout amt src dst b)) = br_statistics b"
  "br_statistics (snd (submitSPVProof c k pf h b)) = br_statistics b"
  "br_statistics (snd (updatePegInConfirmations k g g' b)) = br_statistics b"
  "br_statistics (snd (initiatePegOut c now src dst amt a b)) = br_statistics b"
  "br_statistics (snd (updatePegOutConfirmations k g g' b)) = br_statistics b"
  "br_statistics (snd (addFederationSigner now sid pk addr stake b)) = br_statistics b"
  "br_statistics (snd (registerAnchorCommitment c ac r b)) = br_statistics b"
  by (simp_all add: initiatePegIn_def submitSPVProof_def updatePegInConfirmations_def
      initiatePegOut_def updatePegOutConfirmations_def addFederationSigner_def
      registerAnchorCommitment_def split_beta Let_def split: option.split)

lemma stats_sign: "br_statistics (snd (signPegOut c k sid sig b)) = br_statistics b"
  by (auto simp: signPegOut_def split: option.split prod.split bool.split)

lemma stats_mint: "accounts_ok (br_statistics b) \<Longrightarrow>
    accounts_ok (br_statistics (snd (completePegInMint now k b)))"
  by (auto simp: completePegInMint_def accounts_record split: option.split prod.split bool.split)

lemma stats_release: "accounts_ok (br_statistics b) \<Longrightarrow>
    accounts_ok (br_statistics (snd (completePegOut now k tx b)))"
  by (auto simp: completePegOut_def accounts_record split: option.split prod.split bool.split)

lemma accounts_step:
  "accounts_ok (br_statistics b) \<Longrightarrow> accounts_ok (br_statistics (bridge_step c b x))"
  by (cases x)
    (auto simp: stats_frame stats_sign stats_mint stats_release createAtomicSwap_def
      claimAtomicSwap_def refundAtomicSwap_def activateEmergencyMode_def
      deactivateEmergencyMode_def split_beta Let_def split: option.split)

interpretation bridge_accounts: component "bridge_step c" "\<lambda>b. accounts_ok (br_statistics b)" for c
  by unfold_locales (rule accounts_step)

text \<open>
  The books of the bridge always balance, modulo \<open>2 ^ 64\<close>: the locked BTC exceed the minted
  coins by exactly one fee per peg-in, and the fees collected are one fee per peg-in and
  peg-out, after any sequence of operations.
\<close>

theorem bridge_books_balance:
  "let s = br_statistics (foldl (bridge_step c) new_bridge ops) in
     st_currentLockedBTC s = st_currentMintedAILEE s + 1000 * st_totalPegins s \<and>
     st_totalFeesCollected s = 1000 * (st_totalPegins s + st_totalPegouts s)"
proof -
  have "accounts_ok (br_statistics new_bridge)"
    by (simp add: accounts_ok_def new_bridge_def new_stats_def)
  from bridge_accounts.run_inv [OF this, of c ops] show ?thesis
    by (simp add: accounts_ok_def BRIDGE_FEE_SATOSHIS_def Let_def)
qed

section \<open>Minting without a deposit\<close>

text \<open>
  A proof and a header made up by the caller: any bytes as the transaction, an empty Merkle path,
  and a header that holds the transaction's own hash as its root.
\<close>

definition made_up_proof :: "bytes \<Rightarrow> proof_data" where
  "made_up_proof tx = no_proof\<lparr>pf_transaction := tx\<rparr>"

definition replay_ops :: "crypto \<Rightarrow> bytes \<Rightarrow> string \<Rightarrow> u64 \<Rightarrow> bridge_op list" where
  "replay_ops c tx k now =
     [SubmitSPV k (made_up_proof tx) (header_of (doubleSHA256 (cr_sha c) tx)),
      UpdatePegIn k 0 6, CompleteMint now k]"

lemma replay_once:
  assumes "\<And>x. length (cr_sha c x) = 32" "om_get (br_pegins b) k = Some p"
  shows "\<exists>q. om_get (br_pegins (foldl (bridge_step c) b (replay_ops c tx k now))) k = Some q \<and>
    pi_status q = MINTED \<and> pi_btcAmount q = pi_btcAmount p \<and>
    br_statistics (foldl (bridge_step c) b (replay_ops c tx k now)) =
      recordPegin (pi_btcAmount p) (br_statistics b)"
proof -
  have "spv_verify (cr_sha c) (made_up_proof tx) (header_of (doubleSHA256 (cr_sha c) tx))"
    using assms(1) by (simp add: verify_header_of doubleSHA256_def made_up_proof_def no_proof_def)
  then show ?thesis
    using assms(2)
    by (simp add: replay_ops_def submitSPVProof_def attachSPVProof_def updatePegInConfirmations_def
        pegin_updateConfirmations_def completePegInMint_def completeMint_def Let_def
        MIN_CONFIRMATIONS_PEGIN_def)
qed

text \<open>
  One peg-in can be minted any number of times, without any deposit. For every bridge and
  every stored peg-in, in whatever status, already minted included, the three public calls
  (submit a proof, report heights, complete) with an invented transaction and an invented header
  mint its full amount once more, as often as they are repeated: a proof resets the status, is
  not compared with the peg's transaction, and the header is not tied to the Bitcoin chain.
\<close>

theorem minting_repeats:
  assumes "\<And>x. length (cr_sha c x) = 32" "om_get (br_pegins b) k = Some p"
  shows "br_statistics (((\<lambda>b. foldl (bridge_step c) b (replay_ops c tx k now)) ^^ n) b) =
    (recordPegin (pi_btcAmount p) ^^ n) (br_statistics b)"
proof -
  let ?r = "\<lambda>b. foldl (bridge_step c) b (replay_ops c tx k now)"
  have "\<exists>q. om_get (br_pegins ((?r ^^ n) b)) k = Some q \<and> pi_btcAmount q = pi_btcAmount p \<and>
      br_statistics ((?r ^^ n) b) = (recordPegin (pi_btcAmount p) ^^ n) (br_statistics b)"
  proof (induction n)
    case (Suc n)
    then show ?case using replay_once [OF assms(1), of "(?r ^^ n) b" k _ tx now] by fastforce
  qed (simp add: assms(2))
  then show ?thesis by blast
qed

definition toy_crypto :: crypto where
  "toy_crypto = \<lparr>cr_sha = toy_sha, cr_pubkey_parse = Some, cr_sig_compact = Some,
     cr_sig_der = \<lambda>_. None, cr_sig_normalize = \<lambda>s. s, cr_ecdsa_verify = \<lambda>_ _ _. True\<rparr>"

lemma toy_crypto_sha: "length (cr_sha toy_crypto x) = 32"
  by (simp add: toy_crypto_def length_toy_sha)

definition minted_bridge :: bridge where
  "minted_bridge = new_bridge\<lparr>br_pegins := om_put ''k''
     ((new_pegin toy_sha 0 ''t'' 0 50000 [] [])\<lparr>pi_status := MINTED\<rparr>) om_empty\<rparr>"

theorem minting_repeats_witness:
  "st_currentMintedAILEE (br_statistics
     (((\<lambda>b. foldl (bridge_step toy_crypto) b (replay_ops toy_crypto [1] ''k'' 9)) ^^ 3) minted_bridge)) = 147000"
  using minting_repeats [OF toy_crypto_sha, where b = minted_bridge and k = "''k''" and tx = "[1]"
      and now = 9 and n = 3]
  by (simp add: minted_bridge_def new_bridge_def new_stats_def new_pegin_def recordPegin_def
      BRIDGE_FEE_SATOSHIS_def numeral_3_eq_3)

section \<open>A quorum can release\<close>

text \<open>What the signing rounds keep, and what they add.\<close>

definition signable :: "crypto \<Rightarrow> string \<Rightarrow> pegout \<Rightarrow> (string \<Rightarrow> bytes) \<Rightarrow> bridge \<Rightarrow> string \<Rightarrow> bool" where
  "signable c k p sig b i \<longleftrightarrow> (\<exists>s. om_get (br_federation b) i = Some s \<and> sg_active s \<and>
     verifyPegOutSignature c k (po_aileeSourceAddress p) (po_btcDestAddress p)
       (po_aileeBurnAmount p) (po_btcReleaseAmount p) (po_anchorCommitmentHash p)
       (sg_publicKey s) (sig i))"

lemma recordSignature_frame [simp]:
  "sg_active (recordSignature s) = sg_active s" "sg_publicKey (recordSignature s) = sg_publicKey s"
  by (simp_all add: recordSignature_def Let_def)

lemma sign_step:
  assumes "om_get (br_pegouts b) k = Some p" "po_status p = PENDING_PEGOUT"
    "isPegOutAnchorAuthorized b p" "signable c k p sig b i"
  shows "let b1 = bridge_step c b (SignPegOut k i (sig i));
      p1 = p\<lparr>po_signatures := om_put i (sig i) (po_signatures p)\<rparr> in
    om_get (br_pegouts b1) k = Some p1 \<and> isPegOutAnchorAuthorized b1 p1 \<and>
    (\<forall>j. signable c k p sig b j \<longrightarrow> signable c k p1 sig b1 j)"
  using assms
  by (auto simp: signPegOut_def addSignature_def signable_def isPegOutAnchorAuthorized_def Let_def)

lemma sign_all:
  assumes "om_get (br_pegouts b) k = Some p" "po_status p = PENDING_PEGOUT"
    "isPegOutAnchorAuthorized b p" "\<forall>i \<in> set sids. signable c k p sig b i"
  shows "let b1 = foldl (bridge_step c) b (map (\<lambda>i. SignPegOut k i (sig i)) sids) in
    \<exists>q. om_get (br_pegouts b1) k = Some q \<and> po_status q = PENDING_PEGOUT \<and>
      isPegOutAnchorAuthorized b1 q \<and>
      set (om_keys (po_signatures q)) = set (om_keys (po_signatures p)) \<union> set sids"
  using assms
proof (induction sids arbitrary: b p)
  case (Cons i sids)
  let ?b = "bridge_step c b (SignPegOut k i (sig i))"
  let ?p = "p\<lparr>po_signatures := om_put i (sig i) (po_signatures p)\<rparr>"
  have s: "om_get (br_pegouts ?b) k = Some ?p" "isPegOutAnchorAuthorized ?b ?p"
    "\<forall>j. signable c k p sig b j \<longrightarrow> signable c k ?p sig ?b j"
    using sign_step [of b k p c sig i] Cons.prems by (simp_all add: Let_def del: bridge_step.simps)
  show ?case
    using Cons.IH [of ?b ?p] s Cons.prems by (auto simp: Let_def om_keys_put simp del: bridge_step.simps)
qed simp

lemma quorum_signs:
  assumes "om_get (br_pegouts b) k = Some p" "po_status p = PENDING_PEGOUT"
    "isPegOutAnchorAuthorized b p" "\<forall>i \<in> set sids. signable c k p sig b i"
    and "distinct sids" "10 \<le> length sids"
  shows "let b1 = foldl (bridge_step c) b (map (\<lambda>i. SignPegOut k i (sig i)) sids) in
    \<exists>q. om_get (br_pegouts b1) k = Some q \<and> po_status q = PENDING_PEGOUT \<and>
      isPegOutAnchorAuthorized b1 q \<and> hasRequiredSignatures FEDERATION_THRESHOLD q"
proof -
  let ?b = "foldl (bridge_step c) b (map (\<lambda>i. SignPegOut k i (sig i)) sids)"
  obtain q where q: "om_get (br_pegouts ?b) k = Some q" "po_status q = PENDING_PEGOUT"
    "isPegOutAnchorAuthorized ?b q"
    "set (om_keys (po_signatures q)) = set (om_keys (po_signatures p)) \<union> set sids"
    using sign_all [OF assms(1-4)] by (auto simp: Let_def)
  have "length sids \<le> om_size (po_signatures q)"
    unfolding om_size_card q(4) using assms(5) by (simp add: distinct_card [symmetric] card_mono)
  with assms(6) q show ?thesis
    by (auto simp: hasRequiredSignatures_def FEDERATION_THRESHOLD_def Let_def)
qed

lemma completePegOut_ready:
  "om_get (br_pegouts b) k = Some q \<Longrightarrow> po_status q = PENDING_PEGOUT \<Longrightarrow>
   isPegOutAnchorAuthorized b q \<Longrightarrow> hasRequiredSignatures FEDERATION_THRESHOLD q \<Longrightarrow>
   \<exists>b1. completePegOut now k tx b = (True, b1)"
  by (simp add: completePegOut_def completeRelease_def)

text \<open>
  C13. Release is live: whenever a peg-out is waiting with a registered anchor and at least ten
  different active signers submit signatures that verify with their keys, in any order, the
  completion that follows succeeds.
\<close>

theorem quorum_releases:
  assumes "om_get (br_pegouts b) k = Some p" "po_status p = PENDING_PEGOUT"
    "isPegOutAnchorAuthorized b p" "\<forall>i \<in> set sids. signable c k p sig b i"
    and "distinct sids" "10 \<le> length sids"
  shows "fst (completePegOut now k tx
    (foldl (bridge_step c) b (map (\<lambda>i. SignPegOut k i (sig i)) sids)))"
  using quorum_signs [OF assms] completePegOut_ready [of _ k _ now tx]
  by (fastforce simp: Let_def)

section \<open>A reachable bridge with a signed peg-out\<close>

lemma add_all:
  assumes "om_size (br_federation b) + length sids \<le> 15"
  shows "\<exists>f. foldl (bridge_step c) b (map (\<lambda>i. AddFedSigner 0 i [] [] 1) sids) = b\<lparr>br_federation := f\<rparr> \<and>
    (\<forall>i. i \<in> set sids \<or> (\<exists>s. om_get (br_federation b) i = Some s \<and> sg_active s) \<longrightarrow>
       (\<exists>s. om_get f i = Some s \<and> sg_active s))"
  using assms
proof (induction sids arbitrary: b)
  case (Cons i sids)
  let ?f = "om_put i (new_signer i [] [] 1 0) (br_federation b)"
  have "bridge_step c b (AddFedSigner 0 i [] [] 1) = b\<lparr>br_federation := ?f\<rparr>"
    using Cons.prems by (simp add: addFederationSigner_def addSigner_def new_signer_def FEDERATION_SIZE_def)
  moreover have "om_size ?f + length sids \<le> 15" using Cons.prems by (simp add: om_size_put)
  ultimately show ?case
    using Cons.IH [of "b\<lparr>br_federation := ?f\<rparr>"] by (auto simp: new_signer_def split: if_splits)
next
  case Nil
  show ?case by (rule exI [of _ "br_federation b"]) simp
qed

definition demo_anchor :: anchor_commitment where
  "demo_anchor = \<lparr>ac_l2StateRoot = [], ac_timestampMs = 0, ac_recoveryMetadata = [],
     ac_payload = ''p'', ac_hash = sha256Hex toy_sha ''p'', ac_commitmentBytes = [],
     ac_tweakedTaprootKey = []\<rparr>"

definition demo_names :: "string list" where
  "demo_names = [''A'', ''B'', ''C'', ''D'', ''E'', ''F'', ''G'', ''H'', ''I'', ''J'']"

definition demo_peg :: string where
  "demo_peg = pegout_id toy_sha 0 ''src'' 5000"

definition demo_setup :: "bridge_op list" where
  "demo_setup = map (\<lambda>i. AddFedSigner 0 i [] [] 1) demo_names @
     [RegisterAnchor demo_anchor [], InitiatePegOut 0 ''src'' ''dst'' 5000 (ac_hash demo_anchor),
      UpdatePegOut demo_peg 0 100]"

definition demo_sign :: "bridge_op list" where
  "demo_sign = map (\<lambda>i. SignPegOut demo_peg i (replicate 64 0)) demo_names"

definition demo_bridge :: bridge where
  "demo_bridge = foldl (bridge_step toy_crypto) new_bridge demo_setup"

lemma demo_hash_nonempty: "sha256Hex toy_sha m \<noteq> []"
  using length_hex_of [of "toy_sha (str_bytes m)"] unfolding sha256Hex_def
  by (metis length_toy_sha list.size(3) mult_eq_0_iff zero_neq_numeral)

lemma demo_signature: "verifyPegOutSignature toy_crypto k src dst x y a pk (replicate 64 0)"
  by (simp add: verifyPegOutSignature_def toy_crypto_def Let_def)

lemma cr_sha_toy [simp]: "cr_sha toy_crypto = toy_sha"
  by (simp add: toy_crypto_def)

lemma demo_ready:
  "\<exists>p. om_get (br_pegouts demo_bridge) demo_peg = Some p \<and> po_status p = PENDING_PEGOUT \<and>
     isPegOutAnchorAuthorized demo_bridge p \<and>
     (\<forall>i \<in> set demo_names. signable toy_crypto demo_peg p (\<lambda>_. replicate 64 0) demo_bridge i)"
proof -
  obtain f where f: "foldl (bridge_step toy_crypto) new_bridge
      (map (\<lambda>i. AddFedSigner 0 i [] [] 1) demo_names) = new_bridge\<lparr>br_federation := f\<rparr>"
    "\<forall>i \<in> set demo_names. \<exists>s. om_get f i = Some s \<and> sg_active s"
    using add_all [of new_bridge demo_names toy_crypto]
    by (auto simp: new_bridge_def demo_names_def)
  have a: "ac_hash demo_anchor \<noteq> []" by (simp add: demo_anchor_def demo_hash_nonempty)
  have r: "registerAnchorCommitment toy_crypto demo_anchor [] b =
      (True, b\<lparr>br_anchorCommitments := om_put (ac_hash demo_anchor) demo_anchor (br_anchorCommitments b)\<rparr>)" for b
    by (simp add: registerAnchorCommitment_def demo_anchor_def toy_crypto_def)
  show ?thesis
    using f(2) a
    by (simp add: demo_bridge_def demo_setup_def f(1) r initiatePegOut_def new_pegout_def
        demo_peg_def updatePegOutConfirmations_def pegout_updateConfirmations_def
        isPegOutAnchorAuthorized_def signable_def demo_signature MIN_CONFIRMATIONS_PEGOUT_def
        Let_def)
qed

lemma demo_distinct: "distinct demo_names \<and> 10 \<le> length demo_names"
  by (simp add: demo_names_def)

lemma demo_completes:
  "\<exists>b1. completePegOut 7 demo_peg ''btc'' (foldl (bridge_step toy_crypto) new_bridge (demo_setup @ demo_sign)) = (True, b1)"
proof -
  obtain p where "om_get (br_pegouts demo_bridge) demo_peg = Some p" "po_status p = PENDING_PEGOUT"
    "isPegOutAnchorAuthorized demo_bridge p"
    "\<forall>i \<in> set demo_names. signable toy_crypto demo_peg p (\<lambda>_. replicate 64 0) demo_bridge i"
    using demo_ready by blast
  from quorum_signs [OF this] demo_distinct show ?thesis
    by (auto simp: Let_def demo_sign_def demo_bridge_def intro: completePegOut_ready)
qed

theorem quorum_releases_witness:
  "fst (completePegOut 7 demo_peg ''btc'' (foldl (bridge_step toy_crypto) demo_bridge demo_sign))"
  using demo_ready demo_distinct
    quorum_releases [where b = demo_bridge and k = demo_peg and sids = demo_names and
      c = toy_crypto and sig = "\<lambda>_. replicate 64 0" and now = 7 and tx = "''btc''"]
  unfolding demo_sign_def by blast


end
