(* ===== verification/Swap_Props.thy ===== *)
theory Swap_Props
  imports Peg
begin

text \<open>
  Atomic swaps and the reputation of signers: the objects of \<open>Peg\<close> taken alone, under sequences
  of calls.
\<close>

section \<open>Swaps over time\<close>

datatype swap_op = Claim u64 string string | Refund u64 string

fun op_time :: "swap_op \<Rightarrow> u64" where
  "op_time (Claim t _ _) = t"
| "op_time (Refund t _) = t"

fun swap_step :: "(bytes \<Rightarrow> bytes) \<Rightarrow> swap \<Rightarrow> swap_op \<Rightarrow> swap" where
  "swap_step sha s (Claim t party secret) = snd (claim sha t party secret s)"
| "swap_step sha s (Refund t party) = snd (refund t party s)"

text \<open>A refund can only have happened once the time lock had passed.\<close>

definition swap_inv :: "u64 \<Rightarrow> swap \<Rightarrow> bool" where
  "swap_inv t s \<longleftrightarrow>
     (sw_refundedA s \<or> sw_refundedB s \<longrightarrow> sw_timelock s \<le> t) \<and>
     \<not> (sw_claimedByA s \<and> sw_refundedA s) \<and> \<not> (sw_claimedByB s \<and> sw_refundedB s)"

lemma swap_inv_step: "swap_inv t s \<Longrightarrow> t \<le> op_time x \<Longrightarrow> swap_inv (op_time x) (swap_step sha s x)"
  by (cases x) (auto simp: swap_inv_def claim_def refund_def Let_def)

lemma swap_inv_run:
  "swap_inv t s \<Longrightarrow> sorted (t # map op_time xs) \<Longrightarrow>
   swap_inv (last (t # map op_time xs)) (foldl (swap_step sha) s xs)"
proof (induction xs arbitrary: t s)
  case (Cons x xs)
  then have "swap_inv (op_time x) (swap_step sha s x)" by (auto intro: swap_inv_step)
  from Cons.IH [OF this] Cons.prems show ?case by auto
qed simp

text \<open>
  As long as the clock does not run backwards, no party can both claim and be refunded:
  after any sequence of claims and refunds by anyone, with any secrets, a claimed side of the
  swap is not refunded and a refunded one not claimed.
\<close>

theorem swap_exclusive:
  assumes "sorted (map op_time ops)"
  shows "let s = foldl (swap_step sha) (new_swap sha now pA pB a a' h lock) ops in
    \<not> (sw_claimedByA s \<and> sw_refundedA s) \<and> \<not> (sw_claimedByB s \<and> sw_refundedB s)"
proof -
  have "swap_inv 0 (new_swap sha now pA pB a a' h lock)" by (simp add: swap_inv_def new_swap_def)
  from swap_inv_run [OF this, of ops sha] assms show ?thesis by (auto simp: swap_inv_def Let_def)
qed

theorem swap_exclusive_witness:
  "let s = foldl (swap_step toy_sha)
     (new_swap toy_sha 0 ''a'' ''b'' 1 2 (hex_of (toy_sha (str_bytes ''s''))) 50)
     [Claim 10 ''a'' ''s'', Refund 60 ''a'', Refund 61 ''b''] in
   \<not> (sw_claimedByA s \<and> sw_refundedA s) \<and> \<not> (sw_claimedByB s \<and> sw_refundedB s)"
  by (rule swap_exclusive) simp

text \<open>
  The swap is not atomic across its two sides: after the first party has claimed with the
  secret, the second party, if it has not claimed by the time lock, is still refunded. The swap
  ends with one side's claim and the other side's refund both granted.
\<close>

theorem swap_claim_and_refund:
  assumes "hex_of (sha (str_bytes secret)) = h" "pA \<noteq> pB" "t1 < lock" "lock \<le> t2"
  shows "let s0 = new_swap sha now pA pB a a' h lock;
      (ok1, s1) = claim sha t1 pA secret s0; (ok2, s2) = refund t2 pB s1 in
    ok1 \<and> ok2 \<and> sw_claimedByA s2 \<and> sw_refundedB s2 \<and> \<not> isComplete s2"
  using assms by (auto simp: new_swap_def claim_def refund_def isComplete_def Let_def not_less)

theorem swap_claim_and_refund_witness:
  "let s0 = new_swap toy_sha 0 ''a'' ''b'' 1 2 (hex_of (toy_sha (str_bytes ''s''))) 50;
      (ok1, s1) = claim toy_sha 10 ''a'' ''s'' s0; (ok2, s2) = refund 60 ''b'' s1 in
    ok1 \<and> ok2 \<and> sw_claimedByA s2 \<and> sw_refundedB s2 \<and> \<not> isComplete s2"
  by (rule swap_claim_and_refund) simp_all

section \<open>Reputation\<close>

lemma misses:
  "sg_reputationScore ((recordMissedSignature ^^ n) s) = sg_reputationScore s - 5 * of_nat n"
  "sg_missedSignatures ((recordMissedSignature ^^ n) s) = sg_missedSignatures s + of_nat n"
  by (induction n) (simp_all add: recordMissedSignature_def Let_def algebra_simps)

lemma inactive_stays: "\<not> sg_active s \<Longrightarrow> \<not> sg_active ((recordMissedSignature ^^ n) s)"
  by (induction n) (simp_all add: recordMissedSignature_def Let_def)

text \<open>
  The reputation of a signer is not clamped at zero. It is an unsigned word, so
  \<open>max(0, score - 5)\<close> is the wrapped difference: after 20 missed signatures a new signer stands at
  zero and the 21st lifts it to \<open>2 ^ 64 - 5\<close>, which later recorded signatures leave in place.
\<close>

theorem reputation_wraps:
  "sg_reputationScore ((recordMissedSignature ^^ 20) (new_signer i pk addr st now)) = 0 \<and>
   unat (sg_reputationScore ((recordMissedSignature ^^ 21) (new_signer i pk addr st now))) = 2 ^ 64 - 5 \<and>
   sg_reputationScore ((recordSignature ^^ n) ((recordMissedSignature ^^ 21) (new_signer i pk addr st now))) =
     sg_reputationScore ((recordMissedSignature ^^ 21) (new_signer i pk addr st now))"
proof -
  have 21: "sg_reputationScore ((recordMissedSignature ^^ 21) (new_signer i pk addr st now)) = - 5"
    by (simp add: misses new_signer_def)
  have keep: "sg_reputationScore ((recordSignature ^^ n) s) = - 5" if "sg_reputationScore s = - 5" for s n
    using that by (induction n) (simp_all add: recordSignature_def Let_def word_less_nat_alt)
  show ?thesis using keep [OF 21] by (simp add: 21 misses new_signer_def)
qed

end
