(* ===== verification/L2Engine.thy ===== *)
theory L2Engine
  imports Codec
begin

text \<open>
  The deterministic L2 engine: \<open>include/l2/*.h\<close> and \<open>EpochScheduler.cpp\<close>,
  \<open>StateRootPipeline.cpp\<close>, \<open>RecoveryPayload.cpp\<close>, \<open>ExecutionContext.cpp\<close>,
  \<open>DeterministicEngine.cpp\<close> under \<open>src/l2/\<close>. Each struct is a record without its padding, which
  the code zeroes. SHA-256 is the parameter \<open>sha\<close> of every function that hashes.
\<close>

section \<open>Data\<close>

record reflection_snapshot =
  rf_height :: u64
  rf_anchor_hash :: bytes
  rf_anchor_block_height :: u64
  rf_old_height :: u64
  rf_new_height :: u64
  rf_old_anchor_hash :: bytes
  rf_new_anchor_hash :: bytes

record l1_anchor =
  an_anchorHash :: bytes
  an_l2StateRoot :: bytes
  an_bitcoinTxId :: bytes
  an_bitcoinHeight :: u64
  an_broadcastTime :: u64
  an_confirmations :: u32
  an_retryCount :: u16
  an_status :: u8

record settlement_ingestion =
  si_latest_anchor :: l1_anchor
  si_total_anchors_processed :: u64
  si_latest_confirmations :: u32
  si_reorgs_detected :: u32

record mesh_coherence =
  mc_self_id :: bytes
  mc_other_id :: bytes
  mc_score :: u32
  mc_l1_height_match :: bool
  mc_anchor_match :: bool
  mc_epoch_match :: bool
  mc_state_root_match :: bool

record epoch_state =
  es_epoch_hash :: bytes
  es_epoch_number :: u64
  es_l1_height :: u64
  es_l1_anchor_hash :: bytes
  es_protocol_version :: u32
  es_node_identity_hash :: bytes

record state_root_rec =
  sr_root_hash :: bytes
  sr_l1_height_basis :: u64
  sr_ingestion_count :: u32
  sr_coherence_score :: u32

record recovery_payload =
  rp_payload_hash :: bytes
  rp_target_state_root :: bytes
  rp_target_epoch_hash :: bytes
  rp_l1_height :: u64
  rp_node_identity_hash :: bytes

record execution_context =
  xc_context_hash :: bytes
  xc_epoch_hash :: bytes
  xc_state_root_hash :: bytes
  xc_node_identity_hash :: bytes
  xc_l1_height :: u64
  xc_mesh_coherence_score :: u32

record execution_envelope =
  ee_context :: execution_context
  ee_signature :: bytes

record engine_state =
  en_epoch :: epoch_state
  en_state_root :: state_root_rec
  en_recovery :: recovery_payload
  en_context :: execution_context
  en_step_counter :: u64

text \<open>The values that \<open>memset(\<dots>, 0, \<dots>)\<close> leaves.\<close>

definition zero32 :: bytes where
  "zero32 = replicate 32 0"

definition zero_reflection :: reflection_snapshot where
  "zero_reflection = \<lparr>rf_height = 0, rf_anchor_hash = zero32, rf_anchor_block_height = 0,
     rf_old_height = 0, rf_new_height = 0, rf_old_anchor_hash = zero32, rf_new_anchor_hash = zero32\<rparr>"

definition zero_settlement :: settlement_ingestion where
  "zero_settlement = \<lparr>si_latest_anchor = \<lparr>an_anchorHash = zero32, an_l2StateRoot = zero32,
       an_bitcoinTxId = zero32, an_bitcoinHeight = 0, an_broadcastTime = 0, an_confirmations = 0,
       an_retryCount = 0, an_status = 0\<rparr>,
     si_total_anchors_processed = 0, si_latest_confirmations = 0, si_reorgs_detected = 0\<rparr>"

definition zero_coherence :: mesh_coherence where
  "zero_coherence = \<lparr>mc_self_id = zero32, mc_other_id = zero32, mc_score = 0,
     mc_l1_height_match = False, mc_anchor_match = False, mc_epoch_match = False,
     mc_state_root_match = False\<rparr>"

definition zero_epoch_state :: epoch_state where
  "zero_epoch_state = \<lparr>es_epoch_hash = zero32, es_epoch_number = 0, es_l1_height = 0,
     es_l1_anchor_hash = zero32, es_protocol_version = 0, es_node_identity_hash = zero32\<rparr>"

definition zero_state_root :: state_root_rec where
  "zero_state_root = \<lparr>sr_root_hash = zero32, sr_l1_height_basis = 0, sr_ingestion_count = 0,
     sr_coherence_score = 0\<rparr>"

definition zero_recovery :: recovery_payload where
  "zero_recovery = \<lparr>rp_payload_hash = zero32, rp_target_state_root = zero32,
     rp_target_epoch_hash = zero32, rp_l1_height = 0, rp_node_identity_hash = zero32\<rparr>"

definition zero_context :: execution_context where
  "zero_context = \<lparr>xc_context_hash = zero32, xc_epoch_hash = zero32, xc_state_root_hash = zero32,
     xc_node_identity_hash = zero32, xc_l1_height = 0, xc_mesh_coherence_score = 0\<rparr>"

definition zero_engine_state :: engine_state where
  "zero_engine_state = \<lparr>en_epoch = zero_epoch_state, en_state_root = zero_state_root,
     en_recovery = zero_recovery, en_context = zero_context, en_step_counter = 0\<rparr>"

section \<open>The stages of a step\<close>

definition compute_epoch_state ::
    "(bytes \<Rightarrow> bytes) \<Rightarrow> reflection_snapshot \<Rightarrow> bytes \<Rightarrow> u32 \<Rightarrow> epoch_state" where
  "compute_epoch_state sha rfl node_identity protocol_version =
     (let height = rf_height rfl;
          buffer = le_bytes 8 height @ le_bytes 8 height @ rf_anchor_hash rfl @
            le_bytes 4 protocol_version @ node_identity
      in \<lparr>es_epoch_hash = sha buffer, es_epoch_number = height, es_l1_height = height,
          es_l1_anchor_hash = rf_anchor_hash rfl, es_protocol_version = protocol_version,
          es_node_identity_hash = node_identity\<rparr>)"

definition compute_state_root ::
    "(bytes \<Rightarrow> bytes) \<Rightarrow> reflection_snapshot \<Rightarrow> settlement_ingestion \<Rightarrow> mesh_coherence \<Rightarrow> state_root_rec" where
  "compute_state_root sha rfl ingestion coherence =
     (let buffer = le_bytes 8 (rf_height rfl) @ rf_anchor_hash rfl @
            le_bytes 4 (si_latest_confirmations ingestion) @ le_bytes 4 (mc_score coherence)
      in \<lparr>sr_root_hash = sha buffer, sr_l1_height_basis = rf_height rfl,
          sr_ingestion_count = si_latest_confirmations ingestion,
          sr_coherence_score = mc_score coherence\<rparr>)"

definition build_recovery_payload ::
    "(bytes \<Rightarrow> bytes) \<Rightarrow> state_root_rec \<Rightarrow> epoch_state \<Rightarrow> bytes \<Rightarrow> recovery_payload" where
  "build_recovery_payload sha root epoch node_identity =
     (let buffer = sr_root_hash root @ es_epoch_hash epoch @ le_bytes 8 (es_l1_height epoch) @
            node_identity
      in \<lparr>rp_payload_hash = sha buffer, rp_target_state_root = sr_root_hash root,
          rp_target_epoch_hash = es_epoch_hash epoch, rp_l1_height = es_l1_height epoch,
          rp_node_identity_hash = node_identity\<rparr>)"

definition build_execution_context ::
    "(bytes \<Rightarrow> bytes) \<Rightarrow> bytes \<Rightarrow> epoch_state \<Rightarrow> state_root_rec \<Rightarrow> mesh_coherence \<Rightarrow> execution_context" where
  "build_execution_context sha node_identity epoch root coherence =
     (let buffer = es_epoch_hash epoch @ sr_root_hash root @ node_identity @
            le_bytes 8 (es_l1_height epoch) @ le_bytes 4 (mc_score coherence)
      in \<lparr>xc_context_hash = sha buffer, xc_epoch_hash = es_epoch_hash epoch,
          xc_state_root_hash = sr_root_hash root, xc_node_identity_hash = node_identity,
          xc_l1_height = es_l1_height epoch, xc_mesh_coherence_score = mc_score coherence\<rparr>)"

section \<open>The engine\<close>

definition engine_step ::
    "(bytes \<Rightarrow> bytes) \<Rightarrow> reflection_snapshot \<Rightarrow> settlement_ingestion \<Rightarrow> mesh_coherence \<Rightarrow> bytes \<Rightarrow>
     u32 \<Rightarrow> engine_state \<Rightarrow> engine_state" where
  "engine_step sha rfl ingestion coherence node_id protocol_version s =
     (let epoch = compute_epoch_state sha rfl node_id protocol_version;
          root = compute_state_root sha rfl ingestion coherence;
          recovery = build_recovery_payload sha root epoch node_id;
          context = build_execution_context sha node_id epoch root coherence
      in s\<lparr>en_epoch := epoch, en_state_root := root, en_recovery := recovery,
           en_context := context, en_step_counter := en_step_counter s + 1\<rparr>)"

record engine_run_summary =
  er_final_state :: engine_state
  er_total_steps :: u64
  er_final_coherence :: u32
  er_vector_mismatch :: bool

definition run_offline ::
    "(bytes \<Rightarrow> bytes) \<Rightarrow> reflection_snapshot list \<Rightarrow> settlement_ingestion list \<Rightarrow>
     mesh_coherence list \<Rightarrow> bytes \<Rightarrow> u32 \<Rightarrow> engine_run_summary" where
  "run_offline sha snapshots ingestions coherences node_id protocol_version =
     (let min_len = min (length snapshots) (min (length ingestions) (length coherences));
          mismatch = (length snapshots \<noteq> length ingestions \<or> length ingestions \<noteq> length coherences);
          final = foldl (\<lambda>s i. engine_step sha (snapshots ! i) (ingestions ! i) (coherences ! i)
                     node_id protocol_version s) zero_engine_state [0..<min_len]
      in \<lparr>er_final_state = final, er_total_steps = en_step_counter final,
          er_final_coherence = (if min_len > 0 then mc_score (coherences ! (min_len - 1)) else 0),
          er_vector_mismatch = mismatch\<rparr>)"

section \<open>Properties\<close>

text \<open>A step overwrites everything but the counter.\<close>

lemma engine_step_history:
  "engine_step sha r i c n v s = (engine_step sha r i c n v zero_engine_state)
     \<lparr>en_step_counter := en_step_counter s + 1\<rparr>"
  by (cases s) (simp add: engine_step_def Let_def zero_engine_state_def)

lemma engine_fold:
  "foldl (\<lambda>s i. engine_step sha (rs ! i) (ss ! i) (cs ! i) nid v s) zero_engine_state [0..<k] =
   (if k = 0 then zero_engine_state
    else (engine_step sha (rs ! (k - 1)) (ss ! (k - 1)) (cs ! (k - 1)) nid v zero_engine_state)
      \<lparr>en_step_counter := of_nat k\<rparr>)"
proof (induction k)
  case (Suc k)
  let ?f = "\<lambda>s i. engine_step sha (rs ! i) (ss ! i) (cs ! i) nid v s"
  have "en_step_counter (foldl ?f zero_engine_state [0..<k]) = of_nat k"
    using Suc by (simp add: zero_engine_state_def)
  then show ?case
    by (simp add: engine_step_history [of _ _ _ _ _ _ "foldl ?f zero_engine_state [0..<k]"] add.commute)
qed simp

text \<open>
  An offline run has no hidden history. However long the input vectors are, the final state is
  the one a fresh engine computes from the last complete triple of inputs alone, with the step
  counter set to the number of complete triples (modulo \<open>2 ^ 64\<close>); the reported coherence is
  the last one used, and the mismatch flag is raised exactly when the vectors differ in length.
\<close>

theorem run_offline_last_input:
  "let n = min (length rs) (min (length ss) (length cs));
       r = run_offline sha rs ss cs nid v in
   er_final_state r =
     (if n = 0 then zero_engine_state
      else (engine_step sha (rs ! (n - 1)) (ss ! (n - 1)) (cs ! (n - 1)) nid v zero_engine_state)
        \<lparr>en_step_counter := of_nat n\<rparr>) \<and>
   er_total_steps r = of_nat n \<and>
   er_final_coherence r = (if n = 0 then 0 else mc_score (cs ! (n - 1))) \<and>
   er_vector_mismatch r = (\<not> (length rs = length ss \<and> length ss = length cs))"
proof (cases "min (length rs) (min (length ss) (length cs))")
  case 0
  then show ?thesis by (simp add: run_offline_def zero_engine_state_def)
next
  case (Suc k)
  then show ?thesis by (simp add: run_offline_def engine_fold Let_def del: upt_Suc)
qed

end
