(* ===== verification/PeerSync.thy ===== *)
theory PeerSync
  imports L2Engine
begin

text \<open>
  What a node tells its peers and what it concludes from what they tell it:
  \<open>src/MeshCoherence.cpp\<close> (the score of two snapshots), \<open>src/l3/GossipLayer.cpp\<close>
  and \<open>src/l3/PeerSync.cpp\<close>. The hook that reports the peer to a discovery service runs only when
  one is bound and does not touch the results; it is left out.
\<close>

section \<open>Coherence of two snapshots\<close>

record mesh_snapshot =
  ms_node_id :: bytes
  ms_latest_l1_height :: u64
  ms_latest_anchor_hash :: bytes
  ms_latest_l2_epoch :: u64
  ms_latest_state_root :: bytes

definition compute_mesh_coherence :: "mesh_snapshot \<Rightarrow> mesh_snapshot \<Rightarrow> mesh_coherence" where
  "compute_mesh_coherence self other =
     (let r = zero_coherence\<lparr>mc_self_id := ms_node_id self, mc_other_id := ms_node_id other\<rparr>;
          r = (if ms_latest_l1_height self = ms_latest_l1_height other
               then r\<lparr>mc_score := mc_score r + 1, mc_l1_height_match := True\<rparr> else r);
          r = (if ms_latest_anchor_hash self = ms_latest_anchor_hash other
               then r\<lparr>mc_score := mc_score r + 1, mc_anchor_match := True\<rparr> else r);
          r = (if ms_latest_l2_epoch self = ms_latest_l2_epoch other
               then r\<lparr>mc_score := mc_score r + 1, mc_epoch_match := True\<rparr> else r)
      in if ms_latest_state_root self = ms_latest_state_root other
         then r\<lparr>mc_score := mc_score r + 1, mc_state_root_match := True\<rparr> else r)"

record coherence_totals =
  mt_self_id :: bytes
  mt_total_nodes :: u32
  mt_fully_coherent_nodes :: u32
  mt_partially_coherent_nodes :: u32
  mt_divergent_nodes :: u32

definition summarize_mesh_coherence :: "mesh_snapshot \<Rightarrow> mesh_snapshot list \<Rightarrow> coherence_totals" where
  "summarize_mesh_coherence self others =
     foldl (\<lambda>s other. let score = mc_score (compute_mesh_coherence self other) in
         if score = 4 then s\<lparr>mt_fully_coherent_nodes := mt_fully_coherent_nodes s + 1\<rparr>
         else if score > 0 then s\<lparr>mt_partially_coherent_nodes := mt_partially_coherent_nodes s + 1\<rparr>
         else s\<lparr>mt_divergent_nodes := mt_divergent_nodes s + 1\<rparr>)
       \<lparr>mt_self_id = ms_node_id self, mt_total_nodes = of_nat (length others),
        mt_fully_coherent_nodes = 0, mt_partially_coherent_nodes = 0, mt_divergent_nodes = 0\<rparr>
       others"

section \<open>Gossip\<close>

record gossip_summary =
  gs_node_identity_fingerprint :: bytes
  gs_state_root_hash :: bytes
  gs_epoch_hash :: bytes
  gs_epoch_height :: u64
  gs_coherence_score :: u64
  gs_flags :: u8

record gossip_message =
  gm_summary :: gossip_summary
  gm_sequence_number :: u64
  gm_message_hash :: bytes

record gossip_envelope =
  ge_remote_summary :: gossip_summary
  ge_received_sequence :: u64
  ge_normalized_hash :: bytes
  ge_flags :: u32

definition GOSSIP_FLAG_HEALTHY :: u8 where
  "GOSSIP_FLAG_HEALTHY = 1"

text \<open>The struct's memory: its fields in order and fifteen bytes of zeroed padding.\<close>

definition summary_image :: "gossip_summary \<Rightarrow> bytes" where
  "summary_image s = gs_node_identity_fingerprint s @ gs_state_root_hash s @ gs_epoch_hash s @
     le_bytes 8 (gs_epoch_height s) @ le_bytes 8 (gs_coherence_score s) @ [gs_flags s] @
     replicate 15 0"

definition build_gossip_message ::
    "(bytes \<Rightarrow> bytes) \<Rightarrow> execution_envelope \<Rightarrow> mesh_coherence \<Rightarrow> u64 \<Rightarrow> gossip_message" where
  "build_gossip_message sha envelope coherence current_sequence =
     (let x = ee_context envelope;
          summary = \<lparr>gs_node_identity_fingerprint = xc_node_identity_hash x,
            gs_state_root_hash = xc_state_root_hash x, gs_epoch_hash = xc_epoch_hash x,
            gs_epoch_height = xc_l1_height x, gs_coherence_score = ucast (mc_score coherence),
            gs_flags = (if mc_score coherence = 4 then or 0 GOSSIP_FLAG_HEALTHY else 0)\<rparr>;
          sequence_number = current_sequence + 1
      in \<lparr>gm_summary = summary, gm_sequence_number = sequence_number,
          gm_message_hash = sha (summary_image summary @ le_bytes 8 sequence_number)\<rparr>)"

definition receive_gossip_message :: "(bytes \<Rightarrow> bytes) \<Rightarrow> gossip_message \<Rightarrow> gossip_envelope" where
  "receive_gossip_message sha m =
     \<lparr>ge_remote_summary = gm_summary m, ge_received_sequence = gm_sequence_number m,
      ge_normalized_hash = sha (summary_image (gm_summary m)), ge_flags = 0\<rparr>"

section \<open>Peer synchronisation\<close>

datatype sync_status = IN_SYNC | STALE | NEEDS_RECOVERY | AHEAD | BEHIND

definition STALE_THRESHOLD :: u64 where
  "STALE_THRESHOLD = 8"

text \<open>
  \<open>coherence_delta\<close> is the difference of two \<open>int64_t\<close>; it is kept as the word that holds it, to be
  read with \<open>sint\<close>.
\<close>

record peer_sync_state =
  ps_local_envelope :: execution_envelope
  ps_remote_envelope :: gossip_envelope
  ps_coherence_delta :: u64
  ps_sync_status :: sync_status

definition classify_sync :: "u64 \<Rightarrow> u64 \<Rightarrow> bool \<Rightarrow> sync_status" where
  "classify_sync local_epoch remote_epoch roots_match =
     (if remote_epoch + STALE_THRESHOLD < local_epoch \<or> local_epoch + STALE_THRESHOLD < remote_epoch
      then STALE
      else if local_epoch = remote_epoch \<and> roots_match then IN_SYNC
      else if local_epoch = remote_epoch \<and> \<not> roots_match then NEEDS_RECOVERY
      else if local_epoch > remote_epoch then AHEAD
      else BEHIND)"

definition compute_peer_sync :: "execution_envelope \<Rightarrow> gossip_envelope \<Rightarrow> peer_sync_state" where
  "compute_peer_sync l r =
     (let x = ee_context l; s = ge_remote_summary r in
      \<lparr>ps_local_envelope = l, ps_remote_envelope = r,
       ps_coherence_delta = ucast (xc_mesh_coherence_score x) - gs_coherence_score s,
       ps_sync_status = classify_sync (xc_l1_height x) (gs_epoch_height s)
         (xc_state_root_hash x = gs_state_root_hash s)\<rparr>)"

record peer_sync_summary =
  pm_local_epoch :: u64
  pm_remote_epoch :: u64
  pm_delta :: u64
  pm_sync_status :: u8

primrec sync_status_code :: "sync_status \<Rightarrow> u8" where
  "sync_status_code IN_SYNC = 0"
| "sync_status_code STALE = 1"
| "sync_status_code NEEDS_RECOVERY = 2"
| "sync_status_code AHEAD = 3"
| "sync_status_code BEHIND = 4"

definition summarize_peer_sync :: "peer_sync_state \<Rightarrow> peer_sync_summary" where
  "summarize_peer_sync s =
     \<lparr>pm_local_epoch = xc_l1_height (ee_context (ps_local_envelope s)),
      pm_remote_epoch = gs_epoch_height (ge_remote_summary (ps_remote_envelope s)),
      pm_delta = ps_coherence_delta s, pm_sync_status = sync_status_code (ps_sync_status s)\<rparr>"

section \<open>Properties\<close>

text \<open>What the receiver of a node's gossip concludes.\<close>

definition hears :: "(bytes \<Rightarrow> bytes) \<Rightarrow> execution_envelope \<Rightarrow> mesh_coherence \<Rightarrow> u64 \<Rightarrow>
    execution_envelope \<Rightarrow> peer_sync_state" where
  "hears sha sender coherence sq receiver =
     compute_peer_sync receiver (receive_gossip_message sha (build_gossip_message sha sender coherence sq))"

lemma hears_status:
  "ps_sync_status (hears sha s c sq r) =
   classify_sync (xc_l1_height (ee_context r)) (xc_l1_height (ee_context s))
     (xc_state_root_hash (ee_context r) = xc_state_root_hash (ee_context s))"
  by (simp add: hears_def compute_peer_sync_def receive_gossip_message_def build_gossip_message_def Let_def)

primrec mirror :: "sync_status \<Rightarrow> sync_status" where
  "mirror IN_SYNC = IN_SYNC"
| "mirror STALE = STALE"
| "mirror NEEDS_RECOVERY = NEEDS_RECOVERY"
| "mirror AHEAD = BEHIND"
| "mirror BEHIND = AHEAD"

lemma classify_mirror: "classify_sync b a m = mirror (classify_sync a b m)"
  by (auto simp: classify_sync_def)

lemma threshold_no_wrap:
  "unat a < 2 ^ 64 - 8 \<Longrightarrow> (a + STALE_THRESHOLD < (b :: u64)) = (unat a + 8 < unat b)"
  by (simp add: STALE_THRESHOLD_def word_less_nat_alt unat_word_ariths)

lemma classify_exact:
  assumes "unat a < 2 ^ 64 - 8" "unat b < 2 ^ 64 - 8"
  shows "classify_sync a b m =
    (if unat b + 8 < unat a \<or> unat a + 8 < unat b then STALE
     else if a = b then (if m then IN_SYNC else NEEDS_RECOVERY)
     else if b < a then AHEAD else BEHIND)"
  using threshold_no_wrap [OF assms(1), of b] threshold_no_wrap [OF assms(2), of a]
  unfolding classify_sync_def by auto

lemma classify_top_epochs:
  assumes "2 ^ 64 - 8 \<le> unat (a :: u64)"
  shows "classify_sync a a m = STALE"
proof -
  have "unat (a + STALE_THRESHOLD) = (unat a + 8) mod 2 ^ 64"
    by (simp add: STALE_THRESHOLD_def unat_word_ariths)
  also have "\<dots> < unat a"
    using assms unat_bound [of a] by (simp add: mod_if)
  finally show ?thesis by (simp add: classify_sync_def word_less_nat_alt)
qed

text \<open>
  C16. When two nodes gossip to each other, whatever their sequence numbers and advertised
  coherence, their conclusions are mirror images: one is ahead exactly when the other is behind,
  and the other three statuses are shared. Below the last eight epochs of the 64-bit range the
  status is the exact one: stale beyond a distance of eight, else decided by epoch and root. From
  there on the threshold wraps, and a node that hears its own epoch and root reports itself stale.
\<close>

theorem gossip_sync_exact:
  fixes a b :: execution_envelope
  defines "ea \<equiv> xc_l1_height (ee_context a)" and "eb \<equiv> xc_l1_height (ee_context b)"
  shows "ps_sync_status (hears sha b c sq a) = mirror (ps_sync_status (hears sha a c' sq' b))
    \<and> (unat ea < 2 ^ 64 - 8 \<and> unat eb < 2 ^ 64 - 8 \<longrightarrow>
        ps_sync_status (hears sha b c sq a) =
          (if unat eb + 8 < unat ea \<or> unat ea + 8 < unat eb then STALE
           else if ea = eb then
             (if xc_state_root_hash (ee_context a) = xc_state_root_hash (ee_context b)
              then IN_SYNC else NEEDS_RECOVERY)
           else if eb < ea then AHEAD else BEHIND))
    \<and> (2 ^ 64 - 8 \<le> unat ea \<longrightarrow> ps_sync_status (hears sha a c sq a) = STALE)"
proof (intro conjI impI)
  show "ps_sync_status (hears sha b c sq a) = mirror (ps_sync_status (hears sha a c' sq' b))"
    unfolding hears_status
    by (subst eq_commute [of "xc_state_root_hash (ee_context a)"]) (rule classify_mirror)
next
  assume "unat ea < 2 ^ 64 - 8 \<and> unat eb < 2 ^ 64 - 8"
  then show "ps_sync_status (hears sha b c sq a) =
      (if unat eb + 8 < unat ea \<or> unat ea + 8 < unat eb then STALE
       else if ea = eb then
         (if xc_state_root_hash (ee_context a) = xc_state_root_hash (ee_context b)
          then IN_SYNC else NEEDS_RECOVERY)
       else if eb < ea then AHEAD else BEHIND)"
    unfolding hears_status ea_def eb_def by (intro classify_exact) auto
next
  assume "2 ^ 64 - 8 \<le> unat ea"
  then show "ps_sync_status (hears sha a c sq a) = STALE"
    unfolding hears_status ea_def by (rule classify_top_epochs)
qed

definition envelope_at :: "u64 \<Rightarrow> bytes \<Rightarrow> execution_envelope" where
  "envelope_at h root = \<lparr>ee_context = zero_context\<lparr>xc_l1_height := h, xc_state_root_hash := root\<rparr>,
     ee_signature = replicate 64 0\<rparr>"

theorem gossip_sync_exact_witness:
  "ps_sync_status (hears id (envelope_at 12 zero32) zero_coherence 3 (envelope_at 4 zero32)) = BEHIND
   \<and> ps_sync_status (hears id (envelope_at 13 zero32) zero_coherence 3 (envelope_at 4 zero32)) = STALE
   \<and> ps_sync_status (hears id (envelope_at (- 1) zero32) zero_coherence 3 (envelope_at (- 1) zero32)) = STALE"
  using gossip_sync_exact [THEN conjunct2, THEN conjunct1, of "envelope_at 4 zero32" "envelope_at 12 zero32" id zero_coherence 3]
    gossip_sync_exact [THEN conjunct2, THEN conjunct1, of "envelope_at 4 zero32" "envelope_at 13 zero32" id zero_coherence 3]
    gossip_sync_exact [THEN conjunct2, THEN conjunct2, of "envelope_at (- 1) zero32" id zero_coherence 3]
  by (simp add: envelope_at_def word_less_nat_alt unsigned_minus_1_eq_mask mask_eq_exp_minus_1)

end
