(* ===== verification/Cluster.thy ===== *)
theory Cluster
  imports PeerSync ReplayTick "HOL-Library.Product_Lexorder"
begin

text \<open>
  The view of a cluster and the functions on it: \<open>include/l4/ClusterTypes.h\<close>,
  \<open>src/l4/RecoveryCoordinator.cpp\<close>, \<open>MeshAnchor.cpp\<close>, \<open>StateRootPropagation.cpp\<close>,
  \<open>DeterministicTransport.cpp\<close> and \<open>compute_cluster_coherence\<close> of \<open>ClusterSim.cpp\<close>. Loops that
  look for the first element are \<open>find\<close>, loops that build a vector are \<open>map\<close> and \<open>filter\<close>, loops
  that keep a best element are folds. \<open>std::sort\<close> leaves the order of equal keys open; here it is
  the stable sort, so statements that depend on the order of nodes with equal ids do not carry
  over. \<open>memcmp\<close> of two hashes is the lexicographic order of byte lists.
\<close>

section \<open>Data\<close>

datatype root_status = ROOT_UNKNOWN | CONSISTENT | INCONSISTENT

record cluster_node =
  cn_engine_state :: engine_state
  cn_last_envelope :: execution_envelope
  cn_last_gossip_summary :: gossip_summary
  cn_peer_sync_states :: "peer_sync_state list"
  cn_node_id_hash :: u64
  cn_step_counter :: u64
  cn_state_root_status :: root_status

record coherence_summary =
  co_in_sync_count :: u64
  co_ahead_count :: u64
  co_behind_count :: u64
  co_needs_recovery_count :: u64
  co_stale_count :: u64
  co_global_coherence_score :: u64
  co_recovered_nodes_count :: u64
  co_unrecoverable_nodes_count :: u64
  co_consistent_state_root_nodes :: u64
  co_inconsistent_state_root_nodes :: u64

record mesh_epoch =
  me_epoch_height :: u64
  me_epoch_hash :: bytes
  me_mesh_state_root :: bytes

record mesh_anchor =
  ma_anchor_id :: u64
  ma_epoch :: mesh_epoch
  ma_total_nodes :: u64
  ma_in_sync_nodes :: u64
  ma_recovered_nodes :: u64
  ma_anchor_hash :: bytes

record mesh_propagation_envelope =
  mp_source_node_id_hash :: u64
  mp_anchor :: mesh_anchor
  mp_propagation_hash :: bytes

record transport_message =
  tm_source_node_id_hash :: u64
  tm_dest_node_id_hash :: u64
  tm_epoch_height :: u64
  tm_message_type :: u8
  tm_payload :: bytes
  tm_message_hash :: bytes

record cluster_view =
  cv_nodes :: "cluster_node list"
  cv_mesh_envelopes :: "mesh_propagation_envelope list"
  cv_total_nodes :: u64
  cv_total_steps :: u64
  cv_transport_queue :: "transport_message list"
  cv_coherence_summary :: coherence_summary
  cv_clock :: bytes
  cv_replay_events :: "replay_event list"

text \<open>What a node says about itself is in its last envelope.\<close>

abbreviation cn_epoch :: "cluster_node \<Rightarrow> u64" where
  "cn_epoch n \<equiv> xc_l1_height (ee_context (cn_last_envelope n))"

abbreviation cn_root :: "cluster_node \<Rightarrow> bytes" where
  "cn_root n \<equiv> xc_state_root_hash (ee_context (cn_last_envelope n))"

section \<open>Recovery\<close>

datatype recovery_reason = STATE_MISMATCH | REASON_BEHIND | REASON_STALE | UNRECOVERABLE

record recovery_request =
  rq_requester_node_id_hash :: u64
  rq_target_epoch :: u64
  rq_target_state_root :: bytes
  rq_reason :: recovery_reason

record recovery_response =
  rs_requester_node_id_hash :: u64
  rs_provider_node_id_hash :: u64
  rs_epoch :: u64
  rs_state_root :: bytes
  rs_payload :: recovery_payload
  rs_full_recovery :: bool

abbreviation good_status :: "sync_status \<Rightarrow> bool" where
  "good_status s \<equiv> s = IN_SYNC \<or> s = AHEAD"

definition recovery_reason_of :: "cluster_node \<Rightarrow> recovery_reason option" where
  "recovery_reason_of node =
     (if \<not> list_ex (\<lambda>s. good_status (ps_sync_status s)) (cn_peer_sync_states node) then None
      else if cn_peer_sync_states node = [] then None
      else let latest = last (cn_peer_sync_states node) in
        case ps_sync_status latest of
          NEEDS_RECOVERY \<Rightarrow> Some STATE_MISMATCH
        | BEHIND \<Rightarrow>
            (let local_epoch = xc_l1_height (ee_context (ps_local_envelope latest));
                 remote_epoch = gs_epoch_height (ge_remote_summary (ps_remote_envelope latest))
             in if remote_epoch > local_epoch \<and> remote_epoch - local_epoch \<ge> 8
                then Some REASON_BEHIND else None)
        | STALE \<Rightarrow> Some REASON_STALE
        | _ \<Rightarrow> None)"

definition recovery_request_of :: "cluster_node \<Rightarrow> recovery_reason \<Rightarrow> recovery_request" where
  "recovery_request_of node reason =
     \<lparr>rq_requester_node_id_hash = cn_node_id_hash node, rq_target_epoch = cn_epoch node,
      rq_target_state_root = cn_root node, rq_reason = reason\<rparr>"

definition build_recovery_requests :: "cluster_view \<Rightarrow> recovery_request list" where
  "build_recovery_requests view =
     concat (map (\<lambda>node. case recovery_reason_of node of
         None \<Rightarrow> [] | Some reason \<Rightarrow> [recovery_request_of node reason]) (cv_nodes view))"

definition eligible_provider :: "recovery_request \<Rightarrow> cluster_node \<Rightarrow> bool" where
  "eligible_provider req node \<longleftrightarrow>
     cn_node_id_hash node \<noteq> rq_requester_node_id_hash req \<and>
     cn_peer_sync_states node \<noteq> [] \<and>
     good_status (ps_sync_status (last (cn_peer_sync_states node))) \<and>
     \<not> cn_epoch node < rq_target_epoch req \<and>
     list_ex (\<lambda>b. b \<noteq> 0) (cn_root node)"

definition better_provider :: "cluster_node option \<Rightarrow> cluster_node \<Rightarrow> cluster_node option" where
  "better_provider best node =
     (case best of
        None \<Rightarrow> Some node
      | Some b \<Rightarrow>
          if cn_node_id_hash node < cn_node_id_hash b then Some node
          else if cn_node_id_hash node = cn_node_id_hash b \<and> cn_root node < cn_root b then Some node
          else Some b)"

definition best_provider :: "recovery_request \<Rightarrow> cluster_node list \<Rightarrow> cluster_node option" where
  "best_provider req nodes =
     foldl (\<lambda>best node. if eligible_provider req node then better_provider best node else best)
       None nodes"

definition recovery_response_of :: "recovery_request \<Rightarrow> cluster_node \<Rightarrow> recovery_response" where
  "recovery_response_of req p =
     \<lparr>rs_requester_node_id_hash = rq_requester_node_id_hash req,
      rs_provider_node_id_hash = cn_node_id_hash p, rs_epoch = cn_epoch p,
      rs_state_root = cn_root p, rs_payload = en_recovery (cn_engine_state p),
      rs_full_recovery = True\<rparr>"

definition match_recovery_responses ::
    "cluster_view \<Rightarrow> recovery_request list \<Rightarrow> recovery_response list" where
  "match_recovery_responses view requests =
     concat (map (\<lambda>req. case best_provider req (cv_nodes view) of
         None \<Rightarrow> [] | Some p \<Rightarrow> [recovery_response_of req p]) requests)"

definition apply_recovery :: "cluster_node \<Rightarrow> recovery_response \<Rightarrow> cluster_node" where
  "apply_recovery node response =
     (if \<not> rs_full_recovery response then node
      else let eng = cn_engine_state node; env = cn_last_envelope node in
        node\<lparr>cn_engine_state := eng
               \<lparr>en_epoch := (en_epoch eng)\<lparr>es_l1_height := rs_epoch response\<rparr>,
                en_state_root := (en_state_root eng)\<lparr>sr_root_hash := rs_state_root response\<rparr>,
                en_context := (en_context eng)\<lparr>xc_l1_height := rs_epoch response,
                  xc_state_root_hash := rs_state_root response\<rparr>,
                en_recovery := rs_payload response\<rparr>,
             cn_last_envelope := env\<lparr>ee_context := (ee_context env)
               \<lparr>xc_l1_height := rs_epoch response, xc_state_root_hash := rs_state_root response\<rparr>\<rparr>,
             cn_peer_sync_states := [],
             cn_step_counter := cn_step_counter node + 1\<rparr>)"

section \<open>Cluster coherence\<close>

definition zero_coherence_summary :: coherence_summary where
  "zero_coherence_summary = \<lparr>co_in_sync_count = 0, co_ahead_count = 0, co_behind_count = 0,
     co_needs_recovery_count = 0, co_stale_count = 0, co_global_coherence_score = 0,
     co_recovered_nodes_count = 0, co_unrecoverable_nodes_count = 0,
     co_consistent_state_root_nodes = 0, co_inconsistent_state_root_nodes = 0\<rparr>"

fun has_recovered :: "bool \<Rightarrow> peer_sync_state list \<Rightarrow> bool" where
  "has_recovered was_bad [] = False"
| "has_recovered was_bad (st # sts) =
     (let was_bad' = (was_bad \<or> ps_sync_status st = NEEDS_RECOVERY \<or> ps_sync_status st = BEHIND)
      in if was_bad' \<and> ps_sync_status st = IN_SYNC then True else has_recovered was_bad' sts)"

definition count_node :: "coherence_summary \<Rightarrow> cluster_node \<Rightarrow> coherence_summary" where
  "count_node s node =
     (let s = (if cn_peer_sync_states node \<noteq> [] then
                 let s = (case ps_sync_status (last (cn_peer_sync_states node)) of
                            IN_SYNC \<Rightarrow> s\<lparr>co_in_sync_count := co_in_sync_count s + 1\<rparr>
                          | AHEAD \<Rightarrow> s\<lparr>co_ahead_count := co_ahead_count s + 1\<rparr>
                          | BEHIND \<Rightarrow> s\<lparr>co_behind_count := co_behind_count s + 1\<rparr>
                          | NEEDS_RECOVERY \<Rightarrow>
                              s\<lparr>co_needs_recovery_count := co_needs_recovery_count s + 1\<rparr>
                          | STALE \<Rightarrow> s\<lparr>co_stale_count := co_stale_count s + 1\<rparr>)
                 in if has_recovered False (cn_peer_sync_states node)
                    then s\<lparr>co_recovered_nodes_count := co_recovered_nodes_count s + 1\<rparr> else s
               else s\<lparr>co_stale_count := co_stale_count s + 1\<rparr>)
      in case cn_state_root_status node of
           CONSISTENT \<Rightarrow> s\<lparr>co_consistent_state_root_nodes := co_consistent_state_root_nodes s + 1\<rparr>
         | INCONSISTENT \<Rightarrow>
             s\<lparr>co_inconsistent_state_root_nodes := co_inconsistent_state_root_nodes s + 1\<rparr>
         | ROOT_UNKNOWN \<Rightarrow> s)"

definition compute_cluster_coherence :: "cluster_view \<Rightarrow> coherence_summary" where
  "compute_cluster_coherence view =
     (if cv_total_nodes view = 0 then zero_coherence_summary
      else let pending_reqs = build_recovery_requests view;
               matched_resps = match_recovery_responses view pending_reqs;
               s = foldl count_node (zero_coherence_summary\<lparr>co_unrecoverable_nodes_count :=
                     of_nat (length pending_reqs) - of_nat (length matched_resps)\<rparr>) (cv_nodes view)
           in s\<lparr>co_global_coherence_score := co_in_sync_count s * 100 div cv_total_nodes view\<rparr>)"

section \<open>Mesh epochs and anchors\<close>

definition zero_mesh_epoch :: mesh_epoch where
  "zero_mesh_epoch = \<lparr>me_epoch_height = 0, me_epoch_hash = zero32, me_mesh_state_root = zero32\<rparr>"

definition build_mesh_epoch :: "(bytes \<Rightarrow> bytes) \<Rightarrow> cluster_view \<Rightarrow> mesh_epoch" where
  "build_mesh_epoch sha view =
     (if cv_nodes view = [] then zero_mesh_epoch
      else let epoch_height = cn_epoch (hd (cv_nodes view));
               sorted_nodes = sort_key cn_node_id_hash (cv_nodes view)
           in \<lparr>me_epoch_height = epoch_height,
               me_epoch_hash = sha (le_bytes 8 epoch_height @ concat (map cn_root sorted_nodes)),
               me_mesh_state_root = sha (concat (map cn_root sorted_nodes))\<rparr>)"

definition anchor_id_of :: "bytes \<Rightarrow> u64" where
  "anchor_id_of h = foldl (\<lambda>acc i. or acc (push_bit (i * 8) (ucast (h ! i)))) 0 [0..<8]"

definition build_mesh_anchor :: "(bytes \<Rightarrow> bytes) \<Rightarrow> mesh_epoch \<Rightarrow> cluster_view \<Rightarrow> mesh_anchor" where
  "build_mesh_anchor sha epoch view =
     (let coherence = compute_cluster_coherence view;
          in_sync = co_in_sync_count coherence;
          recovered = co_recovered_nodes_count coherence
      in \<lparr>ma_anchor_id = anchor_id_of (me_epoch_hash epoch), ma_epoch = epoch,
          ma_total_nodes = cv_total_nodes view, ma_in_sync_nodes = in_sync,
          ma_recovered_nodes = recovered,
          ma_anchor_hash = sha (me_epoch_hash epoch @ me_mesh_state_root epoch @
            le_bytes 8 (cv_total_nodes view) @ le_bytes 8 in_sync @ le_bytes 8 recovered)\<rparr>)"

definition build_mesh_propagation_envelope ::
    "(bytes \<Rightarrow> bytes) \<Rightarrow> u64 \<Rightarrow> mesh_anchor \<Rightarrow> mesh_propagation_envelope" where
  "build_mesh_propagation_envelope sha source anchor =
     \<lparr>mp_source_node_id_hash = source, mp_anchor = anchor,
      mp_propagation_hash = sha (le_bytes 8 source @ ma_anchor_hash anchor)\<rparr>"

definition compute_mesh_coherence_score :: "mesh_anchor \<Rightarrow> u64" where
  "compute_mesh_coherence_score anchor =
     (if ma_total_nodes anchor = 0 then 0 else ma_in_sync_nodes anchor * 100 div ma_total_nodes anchor)"

section \<open>State root announcements\<close>

record state_root_announcement =
  sa_source_node_id_hash :: u64
  sa_epoch_height :: u64
  sa_state_root :: bytes
  sa_announcement_hash :: bytes

record validation_result =
  vr_node_id_hash :: u64
  vr_epoch_height :: u64
  vr_accepted :: bool
  vr_rejected :: bool
  vr_reason_code :: u8

definition announcement_of :: "(bytes \<Rightarrow> bytes) \<Rightarrow> cluster_node \<Rightarrow> state_root_announcement" where
  "announcement_of sha node =
     \<lparr>sa_source_node_id_hash = cn_node_id_hash node, sa_epoch_height = cn_epoch node,
      sa_state_root = cn_root node,
      sa_announcement_hash =
        sha (le_bytes 8 (cn_node_id_hash node) @ le_bytes 8 (cn_epoch node) @ cn_root node)\<rparr>"

definition build_state_root_announcements ::
    "(bytes \<Rightarrow> bytes) \<Rightarrow> cluster_view \<Rightarrow> state_root_announcement list" where
  "build_state_root_announcements sha view =
     sort_key sa_source_node_id_hash (map (announcement_of sha) (cv_nodes view))"

definition validate_node ::
    "mesh_anchor \<Rightarrow> state_root_announcement list \<Rightarrow> cluster_node \<Rightarrow> validation_result" where
  "validate_node anchor announcements node =
     (let height = me_epoch_height (ma_epoch anchor);
          res = (\<lambda>ok code. \<lparr>vr_node_id_hash = cn_node_id_hash node, vr_epoch_height = height,
                   vr_accepted = ok, vr_rejected = \<not> ok, vr_reason_code = code\<rparr>)
      in case find (\<lambda>a. sa_source_node_id_hash a = cn_node_id_hash node) announcements of
           Some a \<Rightarrow>
             if sa_epoch_height a = height \<and> sa_state_root a = me_mesh_state_root (ma_epoch anchor)
             then res True 0
             else if sa_epoch_height a < height then res False 2 else res False 1
         | None \<Rightarrow> res False 3)"

definition validate_state_roots ::
    "cluster_view \<Rightarrow> mesh_anchor \<Rightarrow> state_root_announcement list \<Rightarrow> validation_result list" where
  "validate_state_roots view anchor announcements =
     sort_key vr_node_id_hash (map (validate_node anchor announcements) (cv_nodes view))"

section \<open>Transport\<close>

definition enqueue_transport_message ::
    "(bytes \<Rightarrow> bytes) \<Rightarrow> transport_message \<Rightarrow> transport_message list \<Rightarrow> transport_message list" where
  "enqueue_transport_message sha msg queue =
     queue @ [msg\<lparr>tm_message_hash := sha (le_bytes 8 (tm_source_node_id_hash msg) @
       le_bytes 8 (tm_dest_node_id_hash msg) @ le_bytes 8 (tm_epoch_height msg) @
       [tm_message_type msg] @ tm_payload msg)\<rparr>]"

definition drain_transport_messages_for_node ::
    "u64 \<Rightarrow> transport_message list \<Rightarrow> transport_message list \<times> transport_message list" where
  "drain_transport_messages_for_node dest queue =
     (sort_key (\<lambda>m. (tm_epoch_height m, tm_source_node_id_hash m, tm_message_type m))
        (filter (\<lambda>m. tm_dest_node_id_hash m = dest) queue),
      filter (\<lambda>m. tm_dest_node_id_hash m \<noteq> dest) queue)"

text \<open>The three \<open>pack_\<dots>_payload\<close> functions have the same body.\<close>

definition pack_envelope_payload :: "u64 \<Rightarrow> bytes \<Rightarrow> bytes" where
  "pack_envelope_payload epoch_height state_root =
     le_bytes 8 epoch_height @ state_root @ replicate (128 - 8 - 32) 0"

section \<open>A fresh cluster\<close>

definition zero_gossip_summary :: gossip_summary where
  "zero_gossip_summary = \<lparr>gs_node_identity_fingerprint = zero32, gs_state_root_hash = zero32,
     gs_epoch_hash = zero32, gs_epoch_height = 0, gs_coherence_score = 0, gs_flags = 0\<rparr>"

text \<open>\<open>ClusterNodeState{}\<close> with its id set.\<close>

definition fresh_node :: "u64 \<Rightarrow> cluster_node" where
  "fresh_node i = \<lparr>cn_engine_state = zero_engine_state,
     cn_last_envelope = \<lparr>ee_context = zero_context, ee_signature = replicate 64 0\<rparr>,
     cn_last_gossip_summary = zero_gossip_summary, cn_peer_sync_states = [], cn_node_id_hash = i,
     cn_step_counter = 0, cn_state_root_status = ROOT_UNKNOWN\<rparr>"

definition fresh_view :: "cluster_node list \<Rightarrow> cluster_view" where
  "fresh_view nodes = \<lparr>cv_nodes = nodes, cv_mesh_envelopes = [],
     cv_total_nodes = of_nat (length nodes), cv_total_steps = 0, cv_transport_queue = [],
     cv_coherence_summary = zero_coherence_summary, cv_clock = zero_clock, cv_replay_events = []\<rparr>"

end
