(* ===== verification/Scheduler.thy ===== *)
theory Scheduler
  imports Cluster ReplayEngine
begin

text \<open>
  The scheduler that drives a cluster: \<open>src/l4/DeterministicScheduler.cpp\<close>, the telemetry and
  dashboard it fills (\<open>DeterministicTelemetry.cpp\<close>, \<open>DeterministicDashboard.cpp\<close>), and the
  cluster of \<open>ClusterSim.cpp\<close> that owns it. One tick replays the pending sync events and runs one
  of nine phases. The parameters are \<open>sha\<close> (SHA-256), \<open>clk\<close> (the memory of a clock, two doubles
  included) and \<open>qpad\<close> (the uninitialised padding of the queue in a replay tick). \<open>engines[i]\<close> is
  undefined behaviour when there are fewer engines than nodes; both callers keep one per node.
  The JSON endpoints and the file output of \<open>run_cluster_simulation\<close> are not modelled.
\<close>

section \<open>Data\<close>

record scheduler_state =
  ss_tick_count :: u64
  ss_epoch_height :: u64
  ss_last_anchor_id :: u64
  ss_last_mesh_state_root_hash :: u64
  ss_cluster_stable :: bool

record telemetry_sample =
  ts_tick_count :: u64
  ts_epoch_height :: u64
  ts_total_nodes :: u64
  ts_in_sync_nodes :: u64
  ts_consistent_state_root_nodes :: u64
  ts_inconsistent_state_root_nodes :: u64
  ts_global_coherence_score :: u64

record scheduler =
  sd_state :: scheduler_state
  sd_current_epoch :: mesh_epoch
  sd_current_anchor :: mesh_anchor
  sd_current_announcements :: "state_root_announcement list"
  sd_telemetry :: "telemetry_sample list"
  sd_last_snapshot :: string
  sd_mainnet_sync :: sync_manager
  sd_previous_replay_state :: replay_state
  sd_latest_replay_tick :: replay_tick
  sd_last_sync_events :: "sync_event list"

text \<open>What a tick works on: the scheduler itself and the two arguments it updates.\<close>

record tick_state =
  tk_scheduler :: scheduler
  tk_view :: cluster_view
  tk_engines :: "engine_state list"

datatype scheduler_phase =
  ENGINE_STEP | GOSSIP_PEER_SYNC | RECOVERY | MESH_EPOCH_BUILD | MESH_ANCHOR_BUILD |
  STATE_ROOT_ANNOUNCEMENTS | STATE_ROOT_VALIDATION | TRANSPORT_DELIVERY | COHERENCE_UPDATE

definition phase_of :: "u64 \<Rightarrow> scheduler_phase" where
  "phase_of tick_count =
     [ENGINE_STEP, GOSSIP_PEER_SYNC, RECOVERY, MESH_EPOCH_BUILD, MESH_ANCHOR_BUILD,
      STATE_ROOT_ANNOUNCEMENTS, STATE_ROOT_VALIDATION, TRANSPORT_DELIVERY, COHERENCE_UPDATE]
     ! unat (tick_count mod 9)"

section \<open>Telemetry and dashboard\<close>

definition record_telemetry_sample ::
    "cluster_view \<Rightarrow> scheduler_state \<Rightarrow> telemetry_sample list \<Rightarrow> telemetry_sample list" where
  "record_telemetry_sample view st buffer =
     (let c = cv_coherence_summary view in
      buffer @ [\<lparr>ts_tick_count = ss_tick_count st, ts_epoch_height = ss_epoch_height st,
        ts_total_nodes = cv_total_nodes view, ts_in_sync_nodes = co_in_sync_count c,
        ts_consistent_state_root_nodes = co_consistent_state_root_nodes c,
        ts_inconsistent_state_root_nodes = co_inconsistent_state_root_nodes c,
        ts_global_coherence_score = co_global_coherence_score c\<rparr>])"

definition sample_json :: "telemetry_sample \<Rightarrow> string" where
  "sample_json s =
     ''{'' @ ''\"tick\":'' @ to_dec (unat (ts_tick_count s)) @ '',''
     @ ''\"epoch\":'' @ to_dec (unat (ts_epoch_height s)) @ '',''
     @ ''\"total_nodes\":'' @ to_dec (unat (ts_total_nodes s)) @ '',''
     @ ''\"in_sync_nodes\":'' @ to_dec (unat (ts_in_sync_nodes s)) @ '',''
     @ ''\"consistent_state_root_nodes\":'' @ to_dec (unat (ts_consistent_state_root_nodes s)) @ '',''
     @ ''\"inconsistent_state_root_nodes\":'' @ to_dec (unat (ts_inconsistent_state_root_nodes s)) @ '',''
     @ ''\"global_coherence_score\":'' @ to_dec (unat (ts_global_coherence_score s)) @ ''}''"

fun samples_json :: "telemetry_sample list \<Rightarrow> string" where
  "samples_json [] = ''''"
| "samples_json [s] = sample_json s"
| "samples_json (s # t # ss) = sample_json s @ '','' @ samples_json (t # ss)"

definition build_snapshot :: "telemetry_sample list \<Rightarrow> string" where
  "build_snapshot buffer = ''{ \"telemetry\": ['' @ samples_json buffer @ ''] }''"

section \<open>The phases\<close>

definition engine_step_node :: "(bytes \<Rightarrow> bytes) \<Rightarrow> tick_state \<Rightarrow> nat \<Rightarrow> tick_state" where
  "engine_step_node sha tk i =
     (let view = tk_view tk;
          node = cv_nodes view ! i;
          sync_clock = clock (sd_mainnet_sync (tk_scheduler tk));
          dummy_settlement = zero_settlement\<lparr>si_latest_anchor :=
            (si_latest_anchor zero_settlement)\<lparr>an_bitcoinHeight := ck_height sync_clock,
              an_broadcastTime := of_nat (ck_consensus_time sync_clock)\<rparr>\<rparr>;
          node_id = le_bytes 8 (cn_node_id_hash node) @ replicate 24 0;
          new_state = engine_step sha zero_reflection dummy_settlement zero_coherence node_id 1
            (tk_engines tk ! i);
          envelope = \<lparr>ee_context = en_context new_state, ee_signature = replicate 64 0\<rparr>;
          steps = cn_step_counter node + 1;
          node' = node\<lparr>cn_engine_state := new_state, cn_last_envelope := envelope,
            cn_step_counter := steps,
            cn_last_gossip_summary :=
              gm_summary (build_gossip_message sha envelope zero_coherence steps)\<rparr>
      in tk\<lparr>tk_view := view\<lparr>cv_nodes := (cv_nodes view)[i := node']\<rparr>,
            tk_engines := (tk_engines tk)[i := new_state]\<rparr>)"

definition engine_phase :: "(bytes \<Rightarrow> bytes) \<Rightarrow> tick_state \<Rightarrow> tick_state" where
  "engine_phase sha tk = foldl (engine_step_node sha) tk [0..<length (cv_nodes (tk_view tk))]"

definition gossip_pair ::
    "(bytes \<Rightarrow> bytes) \<Rightarrow> cluster_node list \<Rightarrow> nat \<times> nat \<Rightarrow> cluster_node list" where
  "gossip_pair sha nodes = (\<lambda>(sender_idx, receiver_idx).
     if sender_idx \<ge> length nodes \<or> receiver_idx \<ge> length nodes then nodes
     else let sender = nodes ! sender_idx;
              receiver = nodes ! receiver_idx;
              gossip_msg = build_gossip_message sha (cn_last_envelope sender) zero_coherence
                (cn_step_counter sender);
              sync_state = compute_peer_sync (cn_last_envelope receiver)
                (receive_gossip_message sha gossip_msg)
          in nodes[receiver_idx := receiver
               \<lparr>cn_peer_sync_states := cn_peer_sync_states receiver @ [sync_state]\<rparr>])"

definition gossip_phase ::
    "(bytes \<Rightarrow> bytes) \<Rightarrow> (nat \<times> nat) list \<Rightarrow> tick_state \<Rightarrow> tick_state" where
  "gossip_phase sha schedule tk =
     tk\<lparr>tk_view := (tk_view tk)\<lparr>cv_nodes := foldl (gossip_pair sha) (cv_nodes (tk_view tk)) schedule\<rparr>\<rparr>"

definition recover_node :: "tick_state \<Rightarrow> recovery_response \<Rightarrow> tick_state" where
  "recover_node tk response =
     (let nodes = cv_nodes (tk_view tk) in
      case find (\<lambda>i. cn_node_id_hash (nodes ! i) = rs_requester_node_id_hash response) [0..<length nodes] of
        None \<Rightarrow> tk
      | Some i \<Rightarrow> let node = apply_recovery (nodes ! i) response in
          tk\<lparr>tk_view := (tk_view tk)\<lparr>cv_nodes := nodes[i := node]\<rparr>,
             tk_engines := (tk_engines tk)[i := cn_engine_state node]\<rparr>)"

definition recovery_phase :: "tick_state \<Rightarrow> tick_state" where
  "recovery_phase tk =
     (let requests = build_recovery_requests (tk_view tk)
      in foldl recover_node tk (match_recovery_responses (tk_view tk) requests))"

definition mesh_epoch_phase :: "(bytes \<Rightarrow> bytes) \<Rightarrow> tick_state \<Rightarrow> tick_state" where
  "mesh_epoch_phase sha tk =
     (let s = tk_scheduler tk; epoch = build_mesh_epoch sha (tk_view tk) in
      tk\<lparr>tk_scheduler := s\<lparr>sd_current_epoch := epoch,
           sd_state := (sd_state s)\<lparr>ss_epoch_height := me_epoch_height epoch,
             ss_last_mesh_state_root_hash := le_word (take 8 (me_mesh_state_root epoch))\<rparr>\<rparr>\<rparr>)"

definition mesh_anchor_phase :: "(bytes \<Rightarrow> bytes) \<Rightarrow> tick_state \<Rightarrow> tick_state" where
  "mesh_anchor_phase sha tk =
     (let s = tk_scheduler tk; view = tk_view tk;
          anchor = build_mesh_anchor sha (sd_current_epoch s) view in
      tk\<lparr>tk_scheduler := s\<lparr>sd_current_anchor := anchor,
           sd_state := (sd_state s)\<lparr>ss_last_anchor_id := ma_anchor_id anchor\<rparr>\<rparr>,
         tk_view := view\<lparr>cv_mesh_envelopes :=
           map (\<lambda>n. build_mesh_propagation_envelope sha (cn_node_id_hash n) anchor) (cv_nodes view)\<rparr>\<rparr>)"

definition announcement_phase :: "(bytes \<Rightarrow> bytes) \<Rightarrow> tick_state \<Rightarrow> tick_state" where
  "announcement_phase sha tk = tk\<lparr>tk_scheduler := (tk_scheduler tk)
     \<lparr>sd_current_announcements := build_state_root_announcements sha (tk_view tk)\<rparr>\<rparr>"

definition status_from :: "validation_result list \<Rightarrow> cluster_node \<Rightarrow> root_status" where
  "status_from results node =
     (case find (\<lambda>r. vr_node_id_hash r = cn_node_id_hash node) results of
        None \<Rightarrow> ROOT_UNKNOWN
      | Some r \<Rightarrow> if vr_accepted r then CONSISTENT else if vr_rejected r then INCONSISTENT
                  else ROOT_UNKNOWN)"

definition validation_phase :: "tick_state \<Rightarrow> tick_state" where
  "validation_phase tk =
     (let s = tk_scheduler tk; view = tk_view tk;
          results = validate_state_roots view (sd_current_anchor s) (sd_current_announcements s) in
      tk\<lparr>tk_view := view\<lparr>cv_nodes :=
        map (\<lambda>n. n\<lparr>cn_state_root_status := status_from results n\<rparr>) (cv_nodes view)\<rparr>\<rparr>)"

definition message_to :: "u64 \<Rightarrow> u8 \<Rightarrow> u64 \<Rightarrow> bytes \<Rightarrow> cluster_node \<Rightarrow> transport_message" where
  "message_to source type epoch_height root target =
     \<lparr>tm_source_node_id_hash = source, tm_dest_node_id_hash = cn_node_id_hash target,
      tm_epoch_height = epoch_height, tm_message_type = type,
      tm_payload = pack_envelope_payload epoch_height root, tm_message_hash = zero32\<rparr>"

definition messages_from ::
    "state_root_announcement list \<Rightarrow> mesh_anchor \<Rightarrow> cluster_node list \<Rightarrow> cluster_node \<Rightarrow>
     transport_message list" where
  "messages_from announcements anchor nodes node =
     map (message_to (cn_node_id_hash node) 0 (cn_epoch node) (cn_root node)) nodes @
     concat (map (\<lambda>a. map (message_to (cn_node_id_hash node) 1 (sa_epoch_height a) (sa_state_root a)) nodes)
       (filter (\<lambda>a. sa_source_node_id_hash a = cn_node_id_hash node) announcements)) @
     map (message_to (cn_node_id_hash node) 2 (me_epoch_height (ma_epoch anchor))
       (me_mesh_state_root (ma_epoch anchor))) nodes"

definition transport_phase :: "(bytes \<Rightarrow> bytes) \<Rightarrow> tick_state \<Rightarrow> tick_state" where
  "transport_phase sha tk =
     (let s = tk_scheduler tk; view = tk_view tk; nodes = cv_nodes view;
          sent = concat (map (messages_from (sd_current_announcements s) (sd_current_anchor s) nodes) nodes);
          queue = foldl (\<lambda>q m. enqueue_transport_message sha m q) (cv_transport_queue view) sent;
          drained = foldl (\<lambda>q n. snd (drain_transport_messages_for_node (cn_node_id_hash n) q)) queue nodes
      in tk\<lparr>tk_view := view\<lparr>cv_transport_queue := drained\<rparr>\<rparr>)"

definition coherence_phase :: "tick_state \<Rightarrow> tick_state" where
  "coherence_phase tk =
     (let s = tk_scheduler tk; view = tk_view tk;
          summary = compute_cluster_coherence view;
          st = (sd_state s)\<lparr>ss_cluster_stable := (co_global_coherence_score summary = 100)\<rparr>;
          view = view\<lparr>cv_coherence_summary := summary, cv_total_steps := cv_total_steps view + 1\<rparr>;
          telemetry = record_telemetry_sample view st (sd_telemetry s)
      in tk\<lparr>tk_scheduler := s\<lparr>sd_state := st, sd_telemetry := telemetry,
              sd_last_snapshot := build_snapshot telemetry\<rparr>,
            tk_view := view\<rparr>)"

definition run_phase ::
    "(bytes \<Rightarrow> bytes) \<Rightarrow> (nat \<times> nat) list \<Rightarrow> scheduler_phase \<Rightarrow> tick_state \<Rightarrow> tick_state" where
  "run_phase sha schedule phase tk =
     (case phase of
        ENGINE_STEP \<Rightarrow> engine_phase sha tk
      | GOSSIP_PEER_SYNC \<Rightarrow> gossip_phase sha schedule tk
      | RECOVERY \<Rightarrow> recovery_phase tk
      | MESH_EPOCH_BUILD \<Rightarrow> mesh_epoch_phase sha tk
      | MESH_ANCHOR_BUILD \<Rightarrow> mesh_anchor_phase sha tk
      | STATE_ROOT_ANNOUNCEMENTS \<Rightarrow> announcement_phase sha tk
      | STATE_ROOT_VALIDATION \<Rightarrow> validation_phase tk
      | TRANSPORT_DELIVERY \<Rightarrow> transport_phase sha tk
      | COHERENCE_UPDATE \<Rightarrow> coherence_phase tk)"

section \<open>A tick\<close>

text \<open>The first half: the pending sync events become a replay tick and the replay state moves on.\<close>

definition advance_replay_state :: "replay_tick \<Rightarrow> replay_state \<Rightarrow> replay_state" where
  "advance_replay_state tick rs =
     foldl (\<lambda>rs ev. if re_type ev = 1 then rs\<lparr>rs_last_reorg_height := re_height ev\<rparr> else rs)
       (rs\<lparr>rs_current_height := rt_height tick,
           rs_applied_event_count := rs_applied_event_count rs + of_nat (length (rt_replay_events tick))\<rparr>)
       (rt_replay_events tick)"

definition replay_pending ::
    "(clock_state \<Rightarrow> bytes) \<Rightarrow> bytes \<Rightarrow> tick_state \<Rightarrow> tick_state" where
  "replay_pending clk qpad tk =
     (let s = tk_scheduler tk;
          (events, sync) = drain_sync_events (sd_mainnet_sync s);
          tick = replay_step qpad (sd_previous_replay_state s)
            \<lparr>rin_events = events, rin_clock = clk (clock sync)\<rparr>
      in tk\<lparr>tk_scheduler := s\<lparr>sd_mainnet_sync := sync, sd_last_sync_events := events,
              sd_previous_replay_state := advance_replay_state tick (sd_previous_replay_state s),
              sd_latest_replay_tick := tick\<rparr>,
            tk_view := (tk_view tk)\<lparr>cv_clock := rt_clock tick, cv_replay_events := rt_replay_events tick\<rparr>\<rparr>)"

definition count_tick :: "tick_state \<Rightarrow> tick_state" where
  "count_tick tk =
     (let s = tk_scheduler tk in
      tk\<lparr>tk_scheduler := s\<lparr>sd_state := (sd_state s)\<lparr>ss_tick_count := ss_tick_count (sd_state s) + 1\<rparr>\<rparr>\<rparr>)"

definition run_tick ::
    "(bytes \<Rightarrow> bytes) \<Rightarrow> (clock_state \<Rightarrow> bytes) \<Rightarrow> bytes \<Rightarrow> (nat \<times> nat) list \<Rightarrow> tick_state \<Rightarrow> tick_state" where
  "run_tick sha clk qpad schedule tk =
     (let tk = replay_pending clk qpad tk;
          phase = phase_of (ss_tick_count (sd_state (tk_scheduler tk)))
      in count_tick (run_phase sha schedule phase tk))"

section \<open>The cluster\<close>

definition new_scheduler :: "replay_tick \<Rightarrow> scheduler" where
  "new_scheduler tick0 =
     \<lparr>sd_state = \<lparr>ss_tick_count = 0, ss_epoch_height = 0, ss_last_anchor_id = 0,
        ss_last_mesh_state_root_hash = 0, ss_cluster_stable = False\<rparr>,
      sd_current_epoch = zero_mesh_epoch,
      sd_current_anchor = \<lparr>ma_anchor_id = 0, ma_epoch = zero_mesh_epoch, ma_total_nodes = 0,
        ma_in_sync_nodes = 0, ma_recovered_nodes = 0, ma_anchor_hash = zero32\<rparr>,
      sd_current_announcements = [], sd_telemetry = [], sd_last_snapshot = '''',
      sd_mainnet_sync = new_sync_manager 144,
      sd_previous_replay_state = \<lparr>rs_current_height = 0, rs_last_reorg_height = 0,
        rs_applied_event_count = 0\<rparr>,
      sd_latest_replay_tick = tick0, sd_last_sync_events = []\<rparr>"

record cluster_sim =
  cs_inbox :: "execution_envelope list"
  cs_outbox :: "execution_envelope list"
  cs_ticks :: tick_state
  cs_gossip_schedule :: "(nat \<times> nat) list"

definition new_cluster :: "replay_tick \<Rightarrow> cluster_sim" where
  "new_cluster tick0 =
     (let nodes = map (\<lambda>i. fresh_node (of_nat i + 1)) [0..<4] in
      \<lparr>cs_inbox = [], cs_outbox = [],
       cs_ticks = \<lparr>tk_scheduler = new_scheduler tick0, tk_view = fresh_view nodes,
         tk_engines = map cn_engine_state nodes\<rparr>,
       cs_gossip_schedule =
         concat (map (\<lambda>i. map (\<lambda>j. (i, j)) (filter (\<lambda>j. i \<noteq> j) [0..<4])) [0..<4])\<rparr>)"

definition run_cluster_cycle ::
    "(bytes \<Rightarrow> bytes) \<Rightarrow> (clock_state \<Rightarrow> bytes) \<Rightarrow> bytes \<Rightarrow> cluster_sim \<Rightarrow> cluster_sim" where
  "run_cluster_cycle sha clk qpad c =
     c\<lparr>cs_ticks := (run_tick sha clk qpad (cs_gossip_schedule c) ^^ 9) (cs_ticks c)\<rparr>"

definition inject_envelope :: "execution_envelope \<Rightarrow> cluster_sim \<Rightarrow> cluster_sim" where
  "inject_envelope env c = c\<lparr>cs_inbox := cs_inbox c @ [env]\<rparr>"

definition collect_outgoing_envelopes :: "cluster_sim \<Rightarrow> execution_envelope list \<times> cluster_sim" where
  "collect_outgoing_envelopes c = (cs_outbox c, c\<lparr>cs_outbox := []\<rparr>)"

end
