(* ===== verification/Cluster_Props.thy ===== *)
theory Cluster_Props
  imports Cluster
begin

text \<open>
  Properties of the cluster functions: which node answers a recovery request and what adopting
  the answer does (C38), and which nodes the validation of state roots accepts (C39).
\<close>

section \<open>Recovery\<close>

text \<open>The order in which the code prefers providers, and the fold that finds the first of them.\<close>

abbreviation provider_key :: "cluster_node \<Rightarrow> u64 \<times> bytes" where
  "provider_key n \<equiv> (cn_node_id_hash n, cn_root n)"

lemma better_provider_key:
  "better_provider best n = Some p \<Longrightarrow>
   (p = n \<or> best = Some p) \<and> provider_key p \<le> provider_key n \<and>
   (\<forall>b. best = Some b \<longrightarrow> provider_key p \<le> provider_key b)"
  by (auto simp: better_provider_def split: option.splits if_splits)

lemma better_provider_Some: "\<exists>p. better_provider best n = Some p"
  by (simp add: better_provider_def split: option.splits)

lemma best_provider_fold:
  fixes req nodes best
  defines "r \<equiv> foldl (\<lambda>b n. if eligible_provider req n then better_provider b n else b) best nodes"
  shows "(r = None \<longleftrightarrow> best = None \<and> (\<forall>n \<in> set nodes. \<not> eligible_provider req n)) \<and>
    (\<forall>p. r = Some p \<longrightarrow> (best = Some p \<or> p \<in> set nodes \<and> eligible_provider req p) \<and>
       (\<forall>b. best = Some b \<longrightarrow> provider_key p \<le> provider_key b) \<and>
       (\<forall>n \<in> set nodes. eligible_provider req n \<longrightarrow> provider_key p \<le> provider_key n))"
  unfolding r_def
proof (induction nodes arbitrary: best)
  case (Cons n nodes)
  show ?case
  proof (cases "eligible_provider req n")
    case True
    obtain q where q: "better_provider best n = Some q"
      using better_provider_Some by blast
    note key = better_provider_key [OF q]
    show ?thesis
      using Cons.IH [of "Some q"] key True by (auto simp: q)
  qed (use Cons.IH [of best] in auto)
qed auto

lemma best_provider_None:
  "best_provider req nodes = None \<longleftrightarrow> (\<forall>n \<in> set nodes. \<not> eligible_provider req n)"
  using best_provider_fold [of req None nodes] by (simp add: best_provider_def)

lemma best_provider_SomeD:
  "best_provider req nodes = Some p \<Longrightarrow> p \<in> set nodes \<and> eligible_provider req p \<and>
     (\<forall>n \<in> set nodes. eligible_provider req n \<longrightarrow> provider_key p \<le> provider_key n)"
  using best_provider_fold [of req None nodes] by (simp add: best_provider_def)


lemma match_recovery_in:
  "r \<in> set (match_recovery_responses view reqs) \<longleftrightarrow>
   (\<exists>req \<in> set reqs. \<exists>p. best_provider req (cv_nodes view) = Some p \<and> r = recovery_response_of req p)"
  by (force simp: match_recovery_responses_def split: option.splits)

lemma build_requests_in:
  "req \<in> set (build_recovery_requests view) \<longleftrightarrow>
   (\<exists>n \<in> set (cv_nodes view). \<exists>reason. recovery_reason_of n = Some reason \<and>
      req = recovery_request_of n reason)"
  by (force simp: build_recovery_requests_def split: option.splits)

lemma same_id_same_node:
  "distinct (map f xs) \<Longrightarrow> x \<in> set xs \<Longrightarrow> y \<in> set xs \<Longrightarrow> f x = f y \<Longrightarrow> x = y"
  by (metis distinct_map inj_onD)

text \<open>A recovered node has no peer state left, so it asks for nothing.\<close>

lemma apply_recovery_full:
  assumes "rs_full_recovery r"
  shows "cn_node_id_hash (apply_recovery n r) = cn_node_id_hash n"
    "cn_epoch (apply_recovery n r) = rs_epoch r" "cn_root (apply_recovery n r) = rs_state_root r"
    "en_recovery (cn_engine_state (apply_recovery n r)) = rs_payload r"
    "recovery_reason_of (apply_recovery n r) = None"
  using assms by (simp_all add: apply_recovery_def Let_def recovery_reason_of_def)

text \<open>
  What an answer promises: another node of the view, eligible and the first of the eligible ones
  in the order of ids, has given its root, epoch and payload, and adopting the answer takes over
  those without changing the id, without going back to a lower epoch, and leaves no request.
\<close>

definition sound_answer ::
    "cluster_view \<Rightarrow> cluster_node \<Rightarrow> recovery_reason \<Rightarrow> cluster_node \<Rightarrow> recovery_response \<Rightarrow> bool" where
  "sound_answer view n reason p r \<longleftrightarrow>
     rs_requester_node_id_hash r = cn_node_id_hash n \<and>
     rs_provider_node_id_hash r = cn_node_id_hash p \<and> p \<noteq> n \<and>
     eligible_provider (recovery_request_of n reason) p \<and>
     (\<forall>q \<in> set (cv_nodes view). eligible_provider (recovery_request_of n reason) q \<longrightarrow>
        cn_node_id_hash p \<le> cn_node_id_hash q) \<and>
     cn_node_id_hash (apply_recovery n r) = cn_node_id_hash n \<and>
     cn_root (apply_recovery n r) = cn_root p \<and>
     cn_epoch (apply_recovery n r) = cn_epoch p \<and> cn_epoch n \<le> cn_epoch (apply_recovery n r) \<and>
     en_recovery (cn_engine_state (apply_recovery n r)) = en_recovery (cn_engine_state p) \<and>
     recovery_reason_of (apply_recovery n r) = None"

lemma best_provider_sound:
  assumes "best_provider (recovery_request_of n reason) (cv_nodes view) = Some p"
  shows "p \<in> set (cv_nodes view) \<and>
    sound_answer view n reason p (recovery_response_of (recovery_request_of n reason) p)"
    (is "_ \<and> sound_answer _ _ _ _ ?r")
proof -
  note best = best_provider_SomeD [OF assms]
  have full: "rs_full_recovery ?r" by (simp add: recovery_response_of_def)
  have "p \<noteq> n" "\<not> cn_epoch p < cn_epoch n"
    using best by (auto simp: eligible_provider_def recovery_request_of_def)
  then show ?thesis
    using best unfolding sound_answer_def apply_recovery_full [OF full]
    by (auto simp: recovery_response_of_def recovery_request_of_def)
qed

text \<open>
  C17. Recovery between the nodes of a view. Every response answers the request of one node
  soundly: with the root, epoch and payload of another node, the first by id among those that are
  in sync or ahead, not behind the requester, and have a nonzero root; adopting it never lowers
  the requester's epoch and ends its request. And a request is left unanswered exactly when no
  node of the view is eligible to answer it.
\<close>

theorem recovery_matching:
  "(\<forall>r \<in> set (match_recovery_responses view (build_recovery_requests view)).
      \<exists>n \<in> set (cv_nodes view). \<exists>p \<in> set (cv_nodes view). \<exists>reason.
        recovery_reason_of n = Some reason \<and> sound_answer view n reason p r)
   \<and> (\<forall>n \<in> set (cv_nodes view). \<forall>reason. recovery_reason_of n = Some reason \<longrightarrow>
        (\<forall>q \<in> set (cv_nodes view). \<not> eligible_provider (recovery_request_of n reason) q) \<or>
        (\<exists>p r. r \<in> set (match_recovery_responses view (build_recovery_requests view)) \<and>
           sound_answer view n reason p r))"
proof (intro conjI ballI allI impI)
  fix r assume "r \<in> set (match_recovery_responses view (build_recovery_requests view))"
  then obtain n reason p where "n \<in> set (cv_nodes view)" "recovery_reason_of n = Some reason"
    and "best_provider (recovery_request_of n reason) (cv_nodes view) = Some p"
    and "r = recovery_response_of (recovery_request_of n reason) p"
    by (auto simp: match_recovery_in build_requests_in)
  then show "\<exists>n \<in> set (cv_nodes view). \<exists>p \<in> set (cv_nodes view). \<exists>reason.
      recovery_reason_of n = Some reason \<and> sound_answer view n reason p r"
    using best_provider_sound by blast
next
  fix n reason assume n: "n \<in> set (cv_nodes view)" "recovery_reason_of n = Some reason"
  let ?req = "recovery_request_of n reason"
  have req: "?req \<in> set (build_recovery_requests view)" using n by (auto simp: build_requests_in)
  show "(\<forall>q \<in> set (cv_nodes view). \<not> eligible_provider ?req q) \<or>
      (\<exists>p r. r \<in> set (match_recovery_responses view (build_recovery_requests view)) \<and>
         sound_answer view n reason p r)"
  proof (cases "best_provider ?req (cv_nodes view)")
    case (Some p)
    with req have "recovery_response_of ?req p \<in>
        set (match_recovery_responses view (build_recovery_requests view))"
      by (auto simp: match_recovery_in)
    then show ?thesis using best_provider_sound [OF Some] by blast
  qed (simp add: best_provider_None)
qed
definition demo_sync :: "sync_status \<Rightarrow> peer_sync_state" where
  "demo_sync s = \<lparr>ps_local_envelope = cn_last_envelope (fresh_node 0),
     ps_remote_envelope = \<lparr>ge_remote_summary = zero_gossip_summary, ge_received_sequence = 0,
       ge_normalized_hash = zero32, ge_flags = 0\<rparr>,
     ps_coherence_delta = 0, ps_sync_status = s\<rparr>"

definition demo_requester :: cluster_node where
  "demo_requester =
     (fresh_node 3)\<lparr>cn_peer_sync_states := [demo_sync IN_SYNC, demo_sync NEEDS_RECOVERY]\<rparr>"

definition demo_provider :: cluster_node where
  "demo_provider = (fresh_node 7)\<lparr>cn_peer_sync_states := [demo_sync IN_SYNC],
     cn_last_envelope := \<lparr>ee_context = zero_context\<lparr>xc_state_root_hash := replicate 32 1\<rparr>,
       ee_signature = replicate 64 0\<rparr>\<rparr>"

lemma demo_eligible:
  "eligible_provider (recovery_request_of demo_requester STATE_MISMATCH) demo_provider"
  "recovery_reason_of demo_requester = Some STATE_MISMATCH"
  by (simp_all add: eligible_provider_def recovery_request_of_def recovery_reason_of_def demo_requester_def
      demo_provider_def fresh_node_def demo_sync_def zero_context_def list_ex_iff)

theorem recovery_matching_witness:
  "let view = fresh_view [demo_requester, demo_provider] in
   \<exists>p r. r \<in> set (match_recovery_responses view (build_recovery_requests view)) \<and>
     sound_answer view demo_requester STATE_MISMATCH p r"
  using recovery_matching [of "fresh_view [demo_requester, demo_provider]"] demo_eligible
  by (auto simp: fresh_view_def Let_def)


section \<open>Validation of state roots\<close>

lemma find_by_key:
  assumes "distinct (map key xs)" "x \<in> set xs"
  shows "find (\<lambda>y. key y = key x) xs = Some x"
  using assms by (induction xs) (auto simp: rev_image_eqI)

lemma distinct_sort_key_map: "distinct (map f (sort_key f xs)) = distinct (map f xs)"
  by (simp add: distinct_map)

lemma find_sorted:
  assumes "distinct (map key xs)" "x \<in> set xs"
  shows "find (\<lambda>y. key y = key x) (sort_key key xs) = Some x"
  by (rule find_by_key) (simp_all add: assms distinct_sort_key_map)

text \<open>
  The verdict on the state roots of a view with distinct ids, against the anchor and the
  announcements built from that same view. A node is accepted exactly when it has the epoch of
  the first node and its own root is the hash of the concatenated roots of all nodes; it is
  rejected otherwise, as stale when its epoch is lower. So a cluster that agrees on one root \<open>r\<close>
  is accepted only if \<open>r\<close> is the hash of its own repetition.
\<close>

theorem validation_verdict:
  assumes "distinct (map cn_node_id_hash (cv_nodes view))" "n \<in> set (cv_nodes view)"
    and "ma_epoch anchor = build_mesh_epoch sha view"
  defines "ok \<equiv> cn_epoch n = cn_epoch (hd (cv_nodes view)) \<and>
      cn_root n = sha (concat (map cn_root (sort_key cn_node_id_hash (cv_nodes view))))"
  shows "find (\<lambda>r. vr_node_id_hash r = cn_node_id_hash n)
      (validate_state_roots view anchor (build_state_root_announcements sha view)) =
    Some \<lparr>vr_node_id_hash = cn_node_id_hash n, vr_epoch_height = cn_epoch (hd (cv_nodes view)),
      vr_accepted = ok, vr_rejected = \<not> ok,
      vr_reason_code = (if ok then 0 else if cn_epoch n < cn_epoch (hd (cv_nodes view)) then 2 else 1)\<rparr>
    \<and> ((\<forall>m \<in> set (cv_nodes view). cn_root m = r) \<longrightarrow> ok \<longrightarrow>
         r = sha (concat (replicate (length (cv_nodes view)) r)))"
proof -
  let ?anns = "build_state_root_announcements sha view"
  have ids: "sa_source_node_id_hash \<circ> announcement_of sha = cn_node_id_hash"
    "vr_node_id_hash \<circ> validate_node anchor ?anns = cn_node_id_hash"
    by (auto simp: fun_eq_iff announcement_of_def validate_node_def Let_def split: option.splits)
  have ann: "find (\<lambda>a. sa_source_node_id_hash a = cn_node_id_hash n) ?anns = Some (announcement_of sha n)"
    using find_sorted [of sa_source_node_id_hash "map (announcement_of sha) (cv_nodes view)" "announcement_of sha n"]
      assms(1,2) by (simp add: ids build_state_root_announcements_def) (simp add: announcement_of_def)
  have res: "find (\<lambda>r. vr_node_id_hash r = cn_node_id_hash n) (validate_state_roots view anchor ?anns) =
      Some (validate_node anchor ?anns n)"
    using find_sorted [of vr_node_id_hash "map (validate_node anchor ?anns) (cv_nodes view)" "validate_node anchor ?anns n"]
      assms(1,2) by (simp add: ids validate_state_roots_def fun_cong [OF ids(2), simplified])
  have epoch: "me_epoch_height (ma_epoch anchor) = cn_epoch (hd (cv_nodes view))"
    "me_mesh_state_root (ma_epoch anchor) =
       sha (concat (map cn_root (sort_key cn_node_id_hash (cv_nodes view))))"
    using assms(2) by (auto simp: assms(3) build_mesh_epoch_def Let_def)
  have "ok \<Longrightarrow> r = sha (concat (replicate (length (cv_nodes view)) r))"
    if r: "\<forall>m \<in> set (cv_nodes view). cn_root m = r"
  proof -
    have "map cn_root (sort_key cn_node_id_hash (cv_nodes view)) = replicate (length (cv_nodes view)) r"
      using r by (subst map_cong [OF refl, of _ cn_root "\<lambda>_. r"]) (simp_all add: map_replicate_const)
    then show "ok \<Longrightarrow> r = sha (concat (replicate (length (cv_nodes view)) r))"
      using r assms(2) by (simp add: ok_def)
  qed
  then show ?thesis
    unfolding res by (simp add: validate_node_def ann epoch ok_def announcement_of_def Let_def)
qed


theorem validation_verdict_witness:
  "let view = fresh_view [fresh_node 7, fresh_node 3]; sha = (\<lambda>_. replicate 32 1);
       anchor = build_mesh_anchor sha (build_mesh_epoch sha view) view in
   map_option vr_reason_code (find (\<lambda>r. vr_node_id_hash r = 3)
     (validate_state_roots view anchor (build_state_root_announcements sha view))) = Some 1"
proof -
  let ?v = "fresh_view [fresh_node 7, fresh_node 3]"
  let ?sha = "\<lambda>_. replicate 32 1 :: bytes"
  have "cn_root (fresh_node 3) \<noteq> replicate 32 1"
    by (simp add: fresh_node_def zero_context_def zero32_def replicate_eq_replicate)
  then show ?thesis
    using validation_verdict [of ?v "fresh_node 3" "build_mesh_anchor ?sha (build_mesh_epoch ?sha ?v) ?v" ?sha]
    by (simp add: fresh_view_def fresh_node_def build_mesh_anchor_def Let_def zero_context_def)
qed

end
