(* ===== verification/Scheduler_Props.thy ===== *)
theory Scheduler_Props
  imports Scheduler Cluster_Props
begin

text \<open>
  What the scheduler does to a cluster over many ticks (C40). The invariant \<open>settled t\<close> collects
  what holds after \<open>t\<close> ticks: each conjunct appears at the phase that establishes it and no later
  phase destroys it.
\<close>

section \<open>The invariant\<close>

text \<open>The root that every engine step computes from the all-zero inputs it is given.\<close>

definition idle_root :: "(bytes \<Rightarrow> bytes) \<Rightarrow> bytes" where
  "idle_root sha = sha (replicate 48 0)"

abbreviation nodes_of :: "tick_state \<Rightarrow> cluster_node list" where
  "nodes_of tk \<equiv> cv_nodes (tk_view tk)"

abbreviation sched_of :: "tick_state \<Rightarrow> scheduler" where
  "sched_of tk \<equiv> tk_scheduler tk"

definition shaped :: "u64 list \<Rightarrow> tick_state \<Rightarrow> bool" where
  "shaped ids tk \<longleftrightarrow> map cn_node_id_hash (nodes_of tk) = ids \<and> length (tk_engines tk) = length ids \<and>
     cv_total_nodes (tk_view tk) = of_nat (length ids) \<and> cv_transport_queue (tk_view tk) = [] \<and>
     ss_epoch_height (sd_state (sched_of tk)) = 0 \<and>
     list_all (\<lambda>n. list_all (\<lambda>s. ps_sync_status s = IN_SYNC) (cn_peer_sync_states n)) (nodes_of tk)"

definition idle :: "(bytes \<Rightarrow> bytes) \<Rightarrow> cluster_node \<Rightarrow> bool" where
  "idle sha n \<longleftrightarrow> cn_epoch n = 0 \<and> cn_root n = idle_root sha"

definition heard :: "cluster_node \<Rightarrow> bool" where
  "heard n \<longleftrightarrow> cn_peer_sync_states n \<noteq> []"

definition mesh_root :: "(bytes \<Rightarrow> bytes) \<Rightarrow> nat \<Rightarrow> bytes" where
  "mesh_root sha k = sha (concat (replicate k (idle_root sha)))"

definition idle_epoch :: "(bytes \<Rightarrow> bytes) \<Rightarrow> nat \<Rightarrow> mesh_epoch \<Rightarrow> bool" where
  "idle_epoch sha k e \<longleftrightarrow> me_epoch_height e = 0 \<and> me_mesh_state_root e = mesh_root sha k"

definition idle_announcements ::
    "(bytes \<Rightarrow> bytes) \<Rightarrow> u64 list \<Rightarrow> state_root_announcement list \<Rightarrow> bool" where
  "idle_announcements sha ids as \<longleftrightarrow> sa_source_node_id_hash ` set as = set ids \<and>
     list_all (\<lambda>a. sa_epoch_height a = 0 \<and> sa_state_root a = idle_root sha) as"

definition verdict :: "(bytes \<Rightarrow> bytes) \<Rightarrow> nat \<Rightarrow> root_status" where
  "verdict sha k = (if idle_root sha = mesh_root sha k then CONSISTENT else INCONSISTENT)"

definition judged :: "root_status \<Rightarrow> cluster_node \<Rightarrow> bool" where
  "judged v n \<longleftrightarrow> cn_state_root_status n = v"

definition in_full_sync :: "nat \<Rightarrow> tick_state \<Rightarrow> bool" where
  "in_full_sync k tk \<longleftrightarrow>
     co_in_sync_count (cv_coherence_summary (tk_view tk)) = of_nat k \<and>
     co_global_coherence_score (cv_coherence_summary (tk_view tk)) = 100 \<and>
     ss_cluster_stable (sd_state (sched_of tk))"

definition covers :: "(nat \<times> nat) list \<Rightarrow> nat \<Rightarrow> bool" where
  "covers schedule k \<longleftrightarrow> (\<forall>j < k. \<exists>i < k. (i, j) \<in> set schedule)"

definition settled ::
    "(bytes \<Rightarrow> bytes) \<Rightarrow> u64 list \<Rightarrow> nat \<Rightarrow> tick_state \<Rightarrow> bool" where
  "settled sha ids t tk \<longleftrightarrow>
     shaped ids tk \<and>
     length (sd_telemetry (sched_of tk)) = t div 9 \<and>
     cv_total_steps (tk_view tk) = of_nat (t div 9) \<and>
     (1 \<le> t \<longrightarrow> list_all (idle sha) (nodes_of tk)) \<and>
     (2 \<le> t \<longrightarrow> list_all heard (nodes_of tk)) \<and>
     (4 \<le> t \<longrightarrow> idle_epoch sha (length ids) (sd_current_epoch (sched_of tk))) \<and>
     (5 \<le> t \<longrightarrow> idle_epoch sha (length ids) (ma_epoch (sd_current_anchor (sched_of tk)))) \<and>
     (6 \<le> t \<longrightarrow> idle_announcements sha ids (sd_current_announcements (sched_of tk))) \<and>
     (7 \<le> t \<longrightarrow> list_all (judged (verdict sha (length ids))) (nodes_of tk)) \<and>
     (9 \<le> t \<longrightarrow> in_full_sync (length ids) tk)"

text \<open>Which conjuncts of the invariant a tick of phase \<open>p\<close> can find established.\<close>

lemma phase_time:
  assumes "t mod 9 = p"
  shows "p \<le> t" "k \<le> Suc t \<Longrightarrow> k \<le> 9 \<Longrightarrow> k \<noteq> Suc p \<Longrightarrow> k \<le> t"
    "p \<noteq> 8 \<Longrightarrow> Suc t div 9 = t div 9" "p = 8 \<Longrightarrow> Suc t div 9 = Suc (t div 9)"
  using assms by (auto simp: div_Suc mod_Suc le_Suc_eq)

section \<open>The engine phase\<close>

lemma zero_image: "le_bytes 8 (0 :: u64) @ zero32 @ le_bytes 4 (0 :: u32) @ le_bytes 4 (0 :: u32) = replicate 48 0"
  by (simp add: zero32_def numeral_eq_Suc)

lemma engine_step_idle:
  assumes "rf_height r = 0" "rf_anchor_hash r = zero32" "si_latest_confirmations s = 0" "mc_score c = 0"
  shows "xc_l1_height (en_context (engine_step sha r s c nid v e)) = 0"
    "xc_state_root_hash (en_context (engine_step sha r s c nid v e)) = idle_root sha"
  using assms zero_image
  by (simp_all add: engine_step_def compute_epoch_state_def compute_state_root_def
      build_execution_context_def idle_root_def Let_def)


text \<open>The nodes before and after a run of the loop over the first \<open>k\<close> of them.\<close>

abbreviation but_nodes :: "cluster_view \<Rightarrow> cluster_view" where
  "but_nodes v \<equiv> v\<lparr>cv_nodes := []\<rparr>"

definition stepped :: "(bytes \<Rightarrow> bytes) \<Rightarrow> nat \<Rightarrow> tick_state \<Rightarrow> tick_state \<Rightarrow> bool" where
  "stepped sha k tk tk' \<longleftrightarrow>
     sched_of tk' = sched_of tk \<and> but_nodes (tk_view tk') = but_nodes (tk_view tk) \<and>
     length (tk_engines tk') = length (tk_engines tk) \<and>
     length (nodes_of tk') = length (nodes_of tk) \<and>
     (\<forall>i < length (nodes_of tk). let n = nodes_of tk ! i; n' = nodes_of tk' ! i in
        cn_node_id_hash n' = cn_node_id_hash n \<and> cn_peer_sync_states n' = cn_peer_sync_states n \<and>
        cn_state_root_status n' = cn_state_root_status n \<and> (i < k \<longrightarrow> idle sha n'))"

lemma engine_step_node_effect:
  "\<exists>n e. engine_step_node sha tk i =
       tk\<lparr>tk_view := (tk_view tk)\<lparr>cv_nodes := (nodes_of tk)[i := n]\<rparr>, tk_engines := (tk_engines tk)[i := e]\<rparr> \<and>
     cn_node_id_hash n = cn_node_id_hash (nodes_of tk ! i) \<and>
     cn_peer_sync_states n = cn_peer_sync_states (nodes_of tk ! i) \<and>
     cn_state_root_status n = cn_state_root_status (nodes_of tk ! i) \<and> idle sha n"
  unfolding engine_step_node_def Let_def
  by (intro exI conjI, rule refl)
    (simp_all add: idle_def engine_step_idle zero_reflection_def zero_settlement_def zero_coherence_def)

lemma stepped_next:
  assumes "stepped sha k tk tk'"
  shows "stepped sha (Suc k) tk (engine_step_node sha tk' k)"
proof -
  obtain n e where eq: "engine_step_node sha tk' k =
       tk'\<lparr>tk_view := (tk_view tk')\<lparr>cv_nodes := (nodes_of tk')[k := n]\<rparr>, tk_engines := (tk_engines tk')[k := e]\<rparr>"
    and n: "cn_node_id_hash n = cn_node_id_hash (nodes_of tk' ! k)"
      "cn_peer_sync_states n = cn_peer_sync_states (nodes_of tk' ! k)"
      "cn_state_root_status n = cn_state_root_status (nodes_of tk' ! k)" "idle sha n"
    using engine_step_node_effect [of sha tk' k] by blast
  have upd: "((nodes_of tk')[k := n]) ! i = (if i = k then n else nodes_of tk' ! i)" if "i < length (nodes_of tk)" for i
    using assms that by (simp add: stepped_def nth_list_update)
  show ?thesis
    using assms n unfolding eq stepped_def Let_def by (auto simp: upd less_Suc_eq)
qed

lemma stepped_phase: "stepped sha (length (nodes_of tk)) tk (engine_phase sha tk)"
proof -
  have "stepped sha k tk (foldl (engine_step_node sha) tk [0..<k])" for k
    by (induction k) (simp add: stepped_def, simp add: stepped_next)
  then show ?thesis by (simp add: engine_phase_def)
qed

text \<open>What a phase that only rewrites nodes and engines has to show.\<close>

lemma settled_nodes:
  assumes "settled sha ids t tk"
    and "tk_scheduler tk' = tk_scheduler tk" "but_nodes (tk_view tk') = but_nodes (tk_view tk)"
    and "length (tk_engines tk') = length (tk_engines tk)"
    and "map cn_node_id_hash (nodes_of tk') = map cn_node_id_hash (nodes_of tk)"
    and "list_all (\<lambda>n. list_all (\<lambda>s. ps_sync_status s = IN_SYNC) (cn_peer_sync_states n)) (nodes_of tk')"
    and "list_all (idle sha) (nodes_of tk')" "2 \<le> Suc t \<Longrightarrow> list_all heard (nodes_of tk')"
    and "7 \<le> Suc t \<Longrightarrow> list_all (judged (verdict sha (length ids))) (nodes_of tk')"
    and "\<not> t mod 9 \<in> {3, 4, 5, 8}"
  shows "settled sha ids (Suc t) tk'"
proof -
  have "Suc t div 9 = t div 9" "4 \<le> Suc t \<Longrightarrow> 4 \<le> t" "5 \<le> Suc t \<Longrightarrow> 5 \<le> t"
    "6 \<le> Suc t \<Longrightarrow> 6 \<le> t" "9 \<le> Suc t \<Longrightarrow> 9 \<le> t"
    using assms(10) phase_time(2) [OF refl, of _ t] phase_time(3) [OF refl, of t]
    by simp_all
  moreover have "cv_total_nodes (tk_view tk') = cv_total_nodes (tk_view tk)"
      "cv_transport_queue (tk_view tk') = cv_transport_queue (tk_view tk)"
      "cv_total_steps (tk_view tk') = cv_total_steps (tk_view tk)"
      "cv_coherence_summary (tk_view tk') = cv_coherence_summary (tk_view tk)"
    using assms(3) [THEN arg_cong [of _ _ cv_total_nodes]] assms(3) [THEN arg_cong [of _ _ cv_transport_queue]]
      assms(3) [THEN arg_cong [of _ _ cv_total_steps]] assms(3) [THEN arg_cong [of _ _ cv_coherence_summary]]
    by simp_all
  ultimately show ?thesis
    using assms(1,2,4-9) by (simp add: settled_def shaped_def in_full_sync_def)
qed

lemma settled_engine:
  assumes s: "settled sha ids t tk" and t: "t mod 9 = 0"
  shows "settled sha ids (Suc t) (engine_phase sha tk)"
proof (rule settled_nodes [OF s])
  note st = stepped_phase [of sha tk, unfolded stepped_def Let_def]
  let ?nodes = "nodes_of (engine_phase sha tk)"
  have len: "length ?nodes = length (nodes_of tk)" using st by simp
  show "map cn_node_id_hash ?nodes = map cn_node_id_hash (nodes_of tk)"
    using st by (simp add: list_eq_iff_nth_eq)
  show "list_all (\<lambda>n. list_all (\<lambda>s. ps_sync_status s = IN_SYNC) (cn_peer_sync_states n)) ?nodes"
    using st s by (simp add: list_all_length settled_def shaped_def)
  show "list_all (idle sha) ?nodes" using st len by (simp add: list_all_length)
  show "list_all heard ?nodes" if "2 \<le> Suc t"
    using st s t that by (auto simp: list_all_length settled_def heard_def)
  show "list_all (judged (verdict sha (length ids))) ?nodes" if "7 \<le> Suc t"
  proof -
    have "7 \<le> t" using phase_time(2) [OF t that] by simp
    then show ?thesis using st s by (simp add: list_all_length settled_def judged_def)
  qed
qed (use stepped_phase [of sha tk, unfolded stepped_def] t in simp_all)


section \<open>Gossip\<close>

text \<open>Nodes that differ from the old ones in their peer states at most, as the gossip loop leaves them.\<close>

definition gossiped :: "cluster_node list \<Rightarrow> cluster_node list \<Rightarrow> bool" where
  "gossiped old new \<longleftrightarrow> length new = length old \<and>
     (\<forall>i < length old. let n = old ! i; n' = new ! i in
        cn_node_id_hash n' = cn_node_id_hash n \<and> cn_last_envelope n' = cn_last_envelope n \<and>
        cn_state_root_status n' = cn_state_root_status n \<and>
        (\<exists>new_states. cn_peer_sync_states n' = cn_peer_sync_states n @ new_states \<and>
           list_all (\<lambda>s. ps_sync_status s = IN_SYNC) new_states))"

lemma gossiped_refl: "gossiped ns ns"
  by (simp add: gossiped_def)

lemma idle_in_sync: "idle sha a \<Longrightarrow> idle sha b \<Longrightarrow> ps_sync_status (hears sha (cn_last_envelope a) c q (cn_last_envelope b)) = IN_SYNC"
  by (simp add: hears_status idle_def classify_sync_def STALE_THRESHOLD_def)

lemma gossip_pair_step:
  assumes "list_all (idle sha) new" "gossiped old new"
  shows "gossiped old (gossip_pair sha new (i, j)) \<and> list_all (idle sha) (gossip_pair sha new (i, j)) \<and>
    (\<forall>k < length old. heard (new ! k) \<or> (k = j \<and> i < length old) \<longrightarrow> heard (gossip_pair sha new (i, j) ! k))"
proof (cases "i < length new \<and> j < length new")
  case True
  let ?ps = "hears sha (cn_last_envelope (new ! i)) zero_coherence (cn_step_counter (new ! i)) (cn_last_envelope (new ! j))"
  let ?n = "(new ! j)\<lparr>cn_peer_sync_states := cn_peer_sync_states (new ! j) @ [?ps]\<rparr>"
  have eq: "gossip_pair sha new (i, j) = new[j := ?n]"
    using True by (simp add: gossip_pair_def hears_def Let_def)
  have idle: "idle sha (new ! i)" "idle sha (new ! j)"
    using True assms(1) by (simp_all add: list_all_length)
  have upd: "new[j := ?n] ! k = (if k = j then ?n else new ! k)" if "k < length old" for k
    using assms(2) that by (simp add: gossiped_def nth_list_update)
  have "idle sha ?n" using idle(2) by (simp add: idle_def)
  then have "list_all (idle sha) (new[j := ?n])"
    using True assms by (simp add: list_all_length nth_list_update)
  moreover have "gossiped old (new[j := ?n])"
    using assms(2) idle_in_sync [OF idle] unfolding gossiped_def Let_def
    by (auto simp: upd gossiped_def)
  ultimately show ?thesis
    unfolding eq by (auto simp: upd heard_def)
next
  case False
  then show ?thesis
    using assms by (auto simp: gossip_pair_def gossiped_def)
qed

lemma gossip_fold:
  assumes "list_all (idle sha) nodes"
  shows "gossiped nodes (foldl (gossip_pair sha) nodes ps) \<and>
    list_all (idle sha) (foldl (gossip_pair sha) nodes ps) \<and>
    (\<forall>j < length nodes. heard (nodes ! j) \<or> (\<exists>i < length nodes. (i, j) \<in> set ps) \<longrightarrow>
       heard (foldl (gossip_pair sha) nodes ps ! j))"
proof (induction ps rule: rev_induct)
  case Nil
  then show ?case using assms by (simp add: gossiped_refl)
next
  case (snoc p ps)
  obtain i j where p: "p = (i, j)" by (cases p)
  show ?case
    using gossip_pair_step [of sha "foldl (gossip_pair sha) nodes ps" nodes i j] snoc.IH
    by (auto simp: p)
qed

lemma settled_gossip:
  assumes s: "settled sha ids t tk" and t: "t mod 9 = 1" and c: "covers schedule (length ids)"
  shows "settled sha ids (Suc t) (gossip_phase sha schedule tk)"
proof (rule settled_nodes [OF s])
  let ?nodes = "foldl (gossip_pair sha) (nodes_of tk) schedule"
  have t1: "1 \<le> t" and t7: "7 \<le> Suc t \<Longrightarrow> 7 \<le> t" using phase_time [OF t] by simp_all
  then have idle: "list_all (idle sha) (nodes_of tk)" using s by (simp add: settled_def)
  note g = gossip_fold [OF idle, of schedule, unfolded gossiped_def Let_def]
  have len: "length (nodes_of tk) = length ids" using s by (auto simp: settled_def shaped_def)
  show "map cn_node_id_hash (nodes_of (gossip_phase sha schedule tk)) = map cn_node_id_hash (nodes_of tk)"
    using g by (simp add: gossip_phase_def list_eq_iff_nth_eq)
  show "list_all (idle sha) (nodes_of (gossip_phase sha schedule tk))"
    using g by (simp add: gossip_phase_def)
  show "list_all heard (nodes_of (gossip_phase sha schedule tk))"
    using g c len by (simp add: gossip_phase_def list_all_length covers_def)
  show "list_all (judged (verdict sha (length ids))) (nodes_of (gossip_phase sha schedule tk))" if "7 \<le> Suc t"
    using g s t7 [OF that] by (simp add: gossip_phase_def list_all_length settled_def judged_def)
  have "list_all (\<lambda>s. ps_sync_status s = IN_SYNC) (cn_peer_sync_states (?nodes ! i))"
    if i: "i < length (nodes_of tk)" for i
  proof -
    obtain extra where "cn_peer_sync_states (?nodes ! i) = cn_peer_sync_states (nodes_of tk ! i) @ extra"
      "list_all (\<lambda>s. ps_sync_status s = IN_SYNC) extra"
      using g [THEN conjunct1, THEN conjunct2, rule_format, OF i] by blast
    then show ?thesis using s nth_mem [OF i] by (auto simp: settled_def shaped_def list_all_iff)
  qed
  then show "list_all (\<lambda>n. list_all (\<lambda>s. ps_sync_status s = IN_SYNC) (cn_peer_sync_states n))
      (nodes_of (gossip_phase sha schedule tk))"
    using g by (simp add: gossip_phase_def list_all_length [of _ "?nodes"])
qed (use t in \<open>simp_all add: gossip_phase_def\<close>)

section \<open>Recovery\<close>

lemma in_sync_no_request:
  "list_all (\<lambda>s. ps_sync_status s = IN_SYNC) (cn_peer_sync_states n) \<Longrightarrow> recovery_reason_of n = None"
  by (cases "cn_peer_sync_states n" rule: rev_cases) (auto simp: recovery_reason_of_def)

lemma shaped_no_requests: "shaped ids tk \<Longrightarrow> build_recovery_requests (tk_view tk) = []"
  by (auto simp: shaped_def build_recovery_requests_def list_all_iff in_sync_no_request)

lemma settled_recovery:
  assumes s: "settled sha ids t tk" and t: "t mod 9 = 2"
  shows "settled sha ids (Suc t) (recovery_phase tk)"
proof -
  have "recovery_phase tk = tk"
    using s shaped_no_requests [of ids tk]
    by (simp add: recovery_phase_def settled_def match_recovery_responses_def)
  moreover have "2 \<le> t" "7 \<le> Suc t \<Longrightarrow> 7 \<le> t" using phase_time [OF t] by simp_all
  ultimately show ?thesis
    using s t by (intro settled_nodes [OF s]) (simp_all add: settled_def shaped_def)
qed


section \<open>Epoch, anchor and announcements\<close>

lemma idle_roots:
  "list_all (idle sha) ns \<Longrightarrow> map cn_root (sort_key f ns) = replicate (length ns) (idle_root sha)"
  by (subst map_cong [OF refl, of _ cn_root "\<lambda>_. idle_root sha"])
    (simp_all add: map_replicate_const list_all_iff idle_def)

lemma idle_view_epoch:
  assumes "shaped ids tk" "list_all (idle sha) (nodes_of tk)" "ids \<noteq> []"
  shows "idle_epoch sha (length ids) (build_mesh_epoch sha (tk_view tk))"
    "me_epoch_height (build_mesh_epoch sha (tk_view tk)) = 0"
proof -
  have "nodes_of tk \<noteq> []" "length (nodes_of tk) = length ids" using assms(1,3) by (auto simp: shaped_def)
  moreover from this have "idle sha (hd (nodes_of tk))" using assms(2) by (simp add: list_all_iff)
  ultimately show "idle_epoch sha (length ids) (build_mesh_epoch sha (tk_view tk))"
      "me_epoch_height (build_mesh_epoch sha (tk_view tk)) = 0"
    using idle_roots [OF assms(2), of cn_node_id_hash]
    by (simp_all add: build_mesh_epoch_def idle_epoch_def mesh_root_def idle_def Let_def)
qed

lemma settled_epoch:
  assumes s: "settled sha ids t tk" and t: "t mod 9 = 3" and ne: "ids \<noteq> []"
  shows "settled sha ids (Suc t) (mesh_epoch_phase sha tk)"
proof -
  have "Suc t div 9 = t div 9" "3 \<le> t" "5 \<le> Suc t \<Longrightarrow> 5 \<le> t" "6 \<le> Suc t \<Longrightarrow> 6 \<le> t"
    "7 \<le> Suc t \<Longrightarrow> 7 \<le> t" "9 \<le> Suc t \<Longrightarrow> 9 \<le> t"
    using phase_time [OF t] by simp_all
  moreover have "idle_epoch sha (length ids) (build_mesh_epoch sha (tk_view tk))"
      "me_epoch_height (build_mesh_epoch sha (tk_view tk)) = 0"
    using s \<open>3 \<le> t\<close> ne by (auto simp: settled_def intro: idle_view_epoch)
  ultimately show ?thesis
    using s by (simp add: settled_def shaped_def in_full_sync_def mesh_epoch_phase_def Let_def)
qed

lemma settled_anchor:
  assumes s: "settled sha ids t tk" and t: "t mod 9 = 4"
  shows "settled sha ids (Suc t) (mesh_anchor_phase sha tk)"
proof -
  have "Suc t div 9 = t div 9" "4 \<le> t" "6 \<le> Suc t \<Longrightarrow> 6 \<le> t"
    "7 \<le> Suc t \<Longrightarrow> 7 \<le> t" "9 \<le> Suc t \<Longrightarrow> 9 \<le> t"
    using phase_time [OF t] by simp_all
  then show ?thesis
    using s by (simp add: settled_def shaped_def in_full_sync_def mesh_anchor_phase_def
        build_mesh_anchor_def Let_def)
qed

lemma settled_announce:
  assumes s: "settled sha ids t tk" and t: "t mod 9 = 5"
  shows "settled sha ids (Suc t) (announcement_phase sha tk)"
proof -
  have "Suc t div 9 = t div 9" "5 \<le> t" "7 \<le> Suc t \<Longrightarrow> 7 \<le> t" "9 \<le> Suc t \<Longrightarrow> 9 \<le> t"
    using phase_time [OF t] by simp_all
  moreover have "idle_announcements sha ids (build_state_root_announcements sha (tk_view tk))"
    using s \<open>5 \<le> t\<close>
    by (auto simp: settled_def shaped_def idle_announcements_def build_state_root_announcements_def
        announcement_of_def list_all_iff idle_def image_image)
  ultimately show ?thesis
    using s by (simp add: settled_def shaped_def in_full_sync_def announcement_phase_def)
qed

section \<open>Validation\<close>

lemma idle_validation:
  assumes "idle_epoch sha k (ma_epoch anchor)" "idle_announcements sha ids anns"
    and "cn_node_id_hash n \<in> set ids"
  shows "vr_accepted (validate_node anchor anns n) \<longleftrightarrow> verdict sha k = CONSISTENT"
    "vr_rejected (validate_node anchor anns n) \<longleftrightarrow> verdict sha k = INCONSISTENT"
proof -
  have "cn_node_id_hash n \<in> sa_source_node_id_hash ` set anns"
    using assms(2,3) by (simp add: idle_announcements_def)
  then obtain b where "b \<in> set anns" "sa_source_node_id_hash b = cn_node_id_hash n"
    by force
  then obtain a where a: "find (\<lambda>a. sa_source_node_id_hash a = cn_node_id_hash n) anns = Some a"
    by (cases "find (\<lambda>a. sa_source_node_id_hash a = cn_node_id_hash n) anns") (auto simp: find_None_iff)
  then have "a \<in> set anns" by (auto simp: find_Some_iff)
  then have "sa_epoch_height a = 0" "sa_state_root a = idle_root sha"
    using assms(2) by (auto simp: idle_announcements_def list_all_iff)
  then show "vr_accepted (validate_node anchor anns n) \<longleftrightarrow> verdict sha k = CONSISTENT"
    "vr_rejected (validate_node anchor anns n) \<longleftrightarrow> verdict sha k = INCONSISTENT"
    using assms(1) by (simp_all add: validate_node_def a idle_epoch_def verdict_def Let_def)
qed

lemma status_of_idle:
  assumes "idle_epoch sha k (ma_epoch anchor)" "idle_announcements sha ids anns"
    and "map cn_node_id_hash (cv_nodes view) = ids" "n \<in> set (cv_nodes view)"
  shows "status_from (validate_state_roots view anchor anns) n = verdict sha k"
proof -
  let ?rs = "validate_state_roots view anchor anns"
  have id: "vr_node_id_hash (validate_node anchor anns m) = cn_node_id_hash m" for m
    by (simp add: validate_node_def Let_def split: option.splits)
  have rs: "set ?rs = validate_node anchor anns ` set (cv_nodes view)"
    by (simp add: validate_state_roots_def)
  then obtain r where r: "find (\<lambda>r. vr_node_id_hash r = cn_node_id_hash n) ?rs = Some r"
    using assms(4) id by (cases "find (\<lambda>r. vr_node_id_hash r = cn_node_id_hash n) ?rs") (auto simp: find_None_iff)
  then have "r \<in> set ?rs" by (auto simp: find_Some_iff)
  then obtain m where "m \<in> set (cv_nodes view)" "r = validate_node anchor anns m"
    by (auto simp: rs)
  with assms(3) idle_validation [OF assms(1,2), of m] show ?thesis
    by (cases "verdict sha k") (auto simp: status_from_def r verdict_def)
qed

lemma settled_validate:
  assumes s: "settled sha ids t tk" and t: "t mod 9 = 6"
  shows "settled sha ids (Suc t) (validation_phase tk)"
proof -
  let ?s = "sched_of tk"
  have t6: "6 \<le> t" using phase_time(1) [OF t] .
  then have "idle_epoch sha (length ids) (ma_epoch (sd_current_anchor ?s))"
    "idle_announcements sha ids (sd_current_announcements ?s)"
    "map cn_node_id_hash (nodes_of tk) = ids"
    using s by (simp_all add: settled_def shaped_def)
  from status_of_idle [OF this] have
    "list_all (judged (verdict sha (length ids))) (nodes_of (validation_phase tk))"
    by (simp add: validation_phase_def Let_def list_all_iff judged_def)
  moreover have "list_all (idle sha) (nodes_of (validation_phase tk))"
    "list_all heard (nodes_of (validation_phase tk))"
    "map cn_node_id_hash (nodes_of (validation_phase tk)) = map cn_node_id_hash (nodes_of tk)"
    "list_all (\<lambda>n. list_all (\<lambda>s. ps_sync_status s = IN_SYNC) (cn_peer_sync_states n)) (nodes_of (validation_phase tk))"
    using s t6 by (simp_all add: settled_def shaped_def validation_phase_def Let_def list_all_iff idle_def heard_def o_def)
  ultimately show ?thesis
    using t by (intro settled_nodes [OF s]) (simp_all add: validation_phase_def Let_def)
qed


section \<open>Transport\<close>

lemma drain_all:
  "foldl (\<lambda>q n. snd (drain_transport_messages_for_node (cn_node_id_hash n) q)) queue ns =
   filter (\<lambda>m. tm_dest_node_id_hash m \<notin> cn_node_id_hash ` set ns) queue"
  by (induction ns arbitrary: queue)
    (auto simp: drain_transport_messages_for_node_def intro: filter_cong)

lemma enqueue_all:
  "tm_dest_node_id_hash ` set (foldl (\<lambda>q m. enqueue_transport_message sha m q) q ms) =
   tm_dest_node_id_hash ` set q \<union> tm_dest_node_id_hash ` set ms"
  by (induction ms arbitrary: q) (auto simp: enqueue_transport_message_def)

text \<open>Every message goes to a node of the view, so the queue is empty after the drain.\<close>

lemma transport_drains:
  assumes "cv_transport_queue (tk_view tk) = []"
  shows "transport_phase sha tk = tk"
proof -
  let ?ns = "nodes_of tk"
  let ?sent = "concat (map (messages_from (sd_current_announcements (sched_of tk))
      (sd_current_anchor (sched_of tk)) ?ns) ?ns)"
  have "tm_dest_node_id_hash ` set ?sent \<subseteq> cn_node_id_hash ` set ?ns"
    by (auto simp: messages_from_def message_to_def)
  then have "tm_dest_node_id_hash ` set (foldl (\<lambda>q m. enqueue_transport_message sha m q) [] ?sent)
      \<subseteq> cn_node_id_hash ` set ?ns"
    unfolding enqueue_all by simp
  then have "filter (\<lambda>m. tm_dest_node_id_hash m \<notin> cn_node_id_hash ` set ?ns)
      (foldl (\<lambda>q m. enqueue_transport_message sha m q) [] ?sent) = []"
    by (auto simp: filter_empty_conv)
  then show ?thesis
    by (simp add: transport_phase_def drain_all assms Let_def)
qed

lemma settled_transport:
  assumes s: "settled sha ids t tk" and t: "t mod 9 = 7"
  shows "settled sha ids (Suc t) (transport_phase sha tk)"
proof -
  have "transport_phase sha tk = tk"
    using s by (intro transport_drains) (simp add: settled_def shaped_def)
  moreover have "Suc t div 9 = t div 9" "7 \<le> t" "9 \<le> Suc t \<Longrightarrow> 9 \<le> t" using phase_time [OF t] by simp_all
  ultimately show ?thesis using s by (simp add: settled_def)
qed

section \<open>Coherence\<close>

lemma count_synced:
  assumes "list_all (\<lambda>s. ps_sync_status s = IN_SYNC) (cn_peer_sync_states n)" "heard n"
  shows "co_in_sync_count (count_node c n) = co_in_sync_count c + 1"
proof -
  have "ps_sync_status (last (cn_peer_sync_states n)) = IN_SYNC"
    using assms by (simp add: heard_def list_all_iff)
  then show ?thesis
    using assms(2) by (simp add: count_node_def heard_def Let_def split: root_status.split)
qed

lemma count_all_synced:
  "list_all (\<lambda>n. list_all (\<lambda>s. ps_sync_status s = IN_SYNC) (cn_peer_sync_states n)) ns \<Longrightarrow>
   list_all heard ns \<Longrightarrow>
   co_in_sync_count (foldl count_node c ns) = co_in_sync_count c + of_nat (length ns)"
  by (induction ns arbitrary: c) (auto simp: count_synced)

lemma full_score:
  assumes "0 < k" "100 * k < 2 ^ 64"
  shows "of_nat k * 100 div (of_nat k :: u64) = 100" "(of_nat k :: u64) \<noteq> 0"
proof -
  have "unat (of_nat k :: u64) = k" "unat (of_nat k * 100 :: u64) = k * 100"
    using assms by (simp_all add: unat_of_nat unat_word_ariths)
  with assms(1) show "of_nat k * 100 div (of_nat k :: u64) = 100" "(of_nat k :: u64) \<noteq> 0"
    by (simp_all add: word_arith_nat_div) auto
qed

lemma settled_coherence:
  assumes s: "settled sha ids t tk" and t: "t mod 9 = 8"
    and k: "ids \<noteq> []" "100 * length ids < 2 ^ 64"
  shows "settled sha ids (Suc t) (coherence_phase tk)"
proof -
  have "Suc t div 9 = Suc (t div 9)" "8 \<le> t" using phase_time [OF t] by simp_all
  have len: "length (nodes_of tk) = length ids" "cv_total_nodes (tk_view tk) = of_nat (length ids)"
    using s by (auto simp: settled_def shaped_def)
  note score = full_score [of "length ids"]
  have "co_in_sync_count (compute_cluster_coherence (tk_view tk)) = of_nat (length ids) \<and>
      co_global_coherence_score (compute_cluster_coherence (tk_view tk)) = 100"
    using s \<open>8 \<le> t\<close> k score len
    by (simp add: compute_cluster_coherence_def Let_def settled_def shaped_def count_all_synced
        zero_coherence_summary_def)
  then show ?thesis
    using s \<open>8 \<le> t\<close> \<open>Suc t div 9 = Suc (t div 9)\<close>
    by (simp add: settled_def shaped_def in_full_sync_def coherence_phase_def
        record_telemetry_sample_def Let_def)
qed


section \<open>Ticks\<close>

lemma recover_sched: "sched_of (foldl recover_node tk rs) = sched_of tk"
proof (induction rs arbitrary: tk)
  case (Cons r rs)
  have "sched_of (recover_node tk r) = sched_of tk"
    by (simp add: recover_node_def Let_def split: option.split)
  then show ?case by (simp add: Cons.IH)
qed simp

lemma run_phase_tick_count:
  "ss_tick_count (sd_state (sched_of (run_phase sha schedule p tk))) = ss_tick_count (sd_state (sched_of tk))"
  using stepped_phase [of sha tk]
  by (cases p) (simp_all add: run_phase_def stepped_def gossip_phase_def recovery_phase_def recover_sched
      mesh_epoch_phase_def mesh_anchor_phase_def announcement_phase_def validation_phase_def
      transport_phase_def coherence_phase_def Let_def)

lemma phase_of_nat:
  assumes "t < 2 ^ 64"
  shows "phase_of (of_nat t) =
     [ENGINE_STEP, GOSSIP_PEER_SYNC, RECOVERY, MESH_EPOCH_BUILD, MESH_ANCHOR_BUILD,
      STATE_ROOT_ANNOUNCEMENTS, STATE_ROOT_VALIDATION, TRANSPORT_DELIVERY, COHERENCE_UPDATE] ! (t mod 9)"
proof -
  have "unat ((of_nat t :: u64) mod 9) = t mod 9"
    using assms by (simp add: unat_mod unat_of_nat)
  then show ?thesis by (simp add: phase_of_def)
qed

lemma nine_phases: "(i :: nat) < 9 \<Longrightarrow> i \<in> {0, 1, 2, 3, 4, 5, 6, 7, 8}"
proof -
  assume "i < 9"
  then have "i \<in> set [0..<9]" by simp
  then show ?thesis by (auto simp: upt_rec)
qed

lemma settled_phase:
  assumes "settled sha ids t tk" "t < 2 ^ 64"
    and "ids \<noteq> []" "100 * length ids < 2 ^ 64" "covers schedule (length ids)"
  shows "settled sha ids (Suc t) (run_phase sha schedule (phase_of (of_nat t)) tk)"
proof -
  note cases = settled_engine settled_gossip settled_recovery settled_epoch settled_anchor
    settled_announce settled_validate settled_transport settled_coherence [OF _ _ assms(3,4)]
  consider "t mod 9 = 0" | "t mod 9 = 1" | "t mod 9 = 2" | "t mod 9 = 3" | "t mod 9 = 4"
    | "t mod 9 = 5" | "t mod 9 = 6" | "t mod 9 = 7" | "t mod 9 = 8"
    using nine_phases [of "t mod 9"] by auto
  then show ?thesis
    by cases (simp_all add: phase_of_nat [OF assms(2)] run_phase_def cases assms)
qed

text \<open>A tick in a world where headers and mempool deltas may have arrived since the last one.\<close>

definition fed_tick ::
    "(bytes \<Rightarrow> bytes) \<Rightarrow> (clock_state \<Rightarrow> bytes) \<Rightarrow> bytes \<Rightarrow> (nat \<times> nat) list \<Rightarrow> tick_state \<Rightarrow>
     sync_op list \<Rightarrow> tick_state" where
  "fed_tick sha clk qpad schedule tk ops =
     run_tick sha clk qpad schedule (tk\<lparr>tk_scheduler := (tk_scheduler tk)\<lparr>sd_mainnet_sync :=
       foldl sync_step (sd_mainnet_sync (tk_scheduler tk)) ops\<rparr>\<rparr>)"

definition ticked :: "(bytes \<Rightarrow> bytes) \<Rightarrow> u64 list \<Rightarrow> nat \<Rightarrow> tick_state \<Rightarrow> bool" where
  "ticked sha ids t tk \<longleftrightarrow> settled sha ids t tk \<and> ss_tick_count (sd_state (sched_of tk)) = of_nat t"

lemma ticked_fed_tick:
  assumes "ticked sha ids t tk" "t < 2 ^ 64"
    and "ids \<noteq> []" "100 * length ids < 2 ^ 64" "covers schedule (length ids)"
  shows "ticked sha ids (Suc t) (fed_tick sha clk qpad schedule tk ops)"
proof -
  let ?fed = "tk\<lparr>tk_scheduler := (tk_scheduler tk)\<lparr>sd_mainnet_sync :=
       foldl sync_step (sd_mainnet_sync (tk_scheduler tk)) ops\<rparr>\<rparr>"
  let ?tk = "replay_pending clk qpad ?fed"
  have "settled sha ids t ?tk" "ss_tick_count (sd_state (sched_of ?tk)) = of_nat t"
    using assms(1) by (simp_all add: ticked_def settled_def shaped_def in_full_sync_def
        replay_pending_def Let_def split_beta)
  moreover have "settled sha ids (Suc t) (count_tick tk')" if "settled sha ids (Suc t) tk'" for tk'
    using that by (simp add: settled_def shaped_def in_full_sync_def count_tick_def Let_def)
  ultimately show ?thesis
    using settled_phase [OF _ assms(2-5), of sha ?tk]
    by (simp add: ticked_def fed_tick_def run_tick_def Let_def run_phase_tick_count)
      (simp add: count_tick_def run_phase_tick_count Let_def)
qed

lemma ticked_run:
  assumes "ids \<noteq> []" "100 * length ids < 2 ^ 64" "covers schedule (length ids)"
    and "ticked sha ids 0 tk" "length feeds \<le> 2 ^ 64"
  shows "ticked sha ids (length feeds) (foldl (fed_tick sha clk qpad schedule) tk feeds)"
  using assms(5)
proof (induction feeds rule: rev_induct)
  case (snoc ops feeds)
  then show ?case using ticked_fed_tick [OF _ _ assms(1-3)] by simp
qed (simp add: assms(4))

lemma new_cluster_ticked: "ticked sha [1, 2, 3, 4] 0 (cs_ticks (new_cluster tick0))"
  by (simp add: new_cluster_def ticked_def settled_def shaped_def fresh_view_def fresh_node_def
      new_scheduler_def upt_rec Let_def)

lemma new_cluster_covers: "covers (cs_gossip_schedule (new_cluster tick0)) (length [1, 2, 3, 4 :: u64])"
  by (auto simp: covers_def new_cluster_def Let_def numeral_eq_Suc less_Suc_eq)

text \<open>
  C18. The default cluster of four nodes never learns of Bitcoin. Whatever headers and mempool
  deltas arrive between its ticks, after \<open>k > 0\<close> full cycles every node is still at epoch 0 with the
  root of the all-zero inputs, the mesh epoch is 0, the transport queue is empty, and the cluster
  reports itself stable with all four nodes in sync and a coherence score of 100. At the same time
  every node's state root has been marked inconsistent, unless the hash of four copies of the
  root happens to be the root itself.
\<close>

theorem cluster_idles:
  fixes sha :: "bytes \<Rightarrow> bytes" and clk :: "clock_state \<Rightarrow> bytes" and qpad :: bytes
    and feeds :: "sync_op list list" and tick0 :: replay_tick and k :: nat
  assumes "length feeds = 9 * k" "0 < k" "9 * k < 2 ^ 64"
  defines "c \<equiv> new_cluster tick0"
  defines "tk \<equiv> foldl (fed_tick sha clk qpad (cs_gossip_schedule c)) (cs_ticks c) feeds"
    and "root \<equiv> sha (replicate 48 0)"
  shows "map cn_node_id_hash (nodes_of tk) = [1, 2, 3, 4] \<and>
    list_all (\<lambda>n. cn_epoch n = 0 \<and> cn_root n = root \<and>
        cn_state_root_status n =
          (if root = sha (root @ root @ root @ root) then CONSISTENT else INCONSISTENT)) (nodes_of tk) \<and>
    cv_transport_queue (tk_view tk) = [] \<and>
    co_in_sync_count (cv_coherence_summary (tk_view tk)) = 4 \<and>
    co_global_coherence_score (cv_coherence_summary (tk_view tk)) = 100 \<and>
    ss_cluster_stable (sd_state (sched_of tk)) \<and> ss_epoch_height (sd_state (sched_of tk)) = 0 \<and>
    ss_tick_count (sd_state (sched_of tk)) = of_nat (9 * k) \<and>
    cv_total_steps (tk_view tk) = of_nat k \<and> length (sd_telemetry (sched_of tk)) = k"
proof -
  have "ticked sha [1, 2, 3, 4] (length feeds) tk"
    unfolding tk_def c_def
    by (rule ticked_run [OF _ _ new_cluster_covers new_cluster_ticked]) (use assms(1,3) in simp_all)
  moreover have "mesh_root sha (length [1, 2, 3, 4 :: u64]) = sha (root @ root @ root @ root)"
    by (simp add: mesh_root_def idle_root_def root_def)
  ultimately show ?thesis
    using assms(2) unfolding assms(1)
    by (simp add: ticked_def settled_def shaped_def in_full_sync_def verdict_def idle_def judged_def
        list_all_iff root_def idle_root_def)
qed

theorem cluster_idles_witness:
  "\<forall>clk qpad tick0. let c = new_cluster tick0;
       tk = foldl (fed_tick (\<lambda>bs. replicate 32 (of_nat (length bs))) clk qpad (cs_gossip_schedule c))
              (cs_ticks c) (replicate 9 []) in
   ss_cluster_stable (sd_state (sched_of tk)) \<and>
   list_all (\<lambda>n. cn_state_root_status n = INCONSISTENT) (nodes_of tk)"
  using cluster_idles [of "replicate 9 []" 1 "\<lambda>bs. replicate 32 (of_nat (length bs))"]
  by (simp add: Let_def list_all_iff replicate_eq_replicate)

end
