(* ===== verification/Double.thy ===== *)
theory Double
  imports Complex_Main Prelude
begin

text \<open>
  The C++ type \<open>double\<close> as far as the modelled code uses it: values with their special cases,
  comparisons, \<open>std::max\<close> and \<open>std::min\<close>, the correctly rounded product, and the rounding of a
  decimal literal to the nearest \<open>double\<close> (ties to even, subnormals and overflow included). The sign
  and payload of a NaN are not kept.
\<close>

datatype double = Fin rat | NegZero | PInf | NInf | NaN

fun d_finite :: "double \<Rightarrow> bool" where
  "d_finite (Fin _) = True"
| "d_finite NegZero = True"
| "d_finite _ = False"

fun d_rat :: "double \<Rightarrow> rat" where
  "d_rat (Fin r) = r"
| "d_rat _ = 0"

section \<open>Comparisons\<close>

text \<open>Every comparison with a NaN is false; the infinities are at the two ends.\<close>

fun d_less :: "double \<Rightarrow> double \<Rightarrow> bool" where
  "d_less NaN _ = False"
| "d_less _ NaN = False"
| "d_less PInf _ = False"
| "d_less NInf b = (b \<noteq> NInf)"
| "d_less a PInf = True"
| "d_less a NInf = False"
| "d_less a b = (d_rat a < d_rat b)"

fun d_le :: "double \<Rightarrow> double \<Rightarrow> bool" where
  "d_le NaN _ = False"
| "d_le _ NaN = False"
| "d_le a b = (\<not> d_less b a)"

definition d_max :: "double \<Rightarrow> double \<Rightarrow> double" where
  "d_max a b = (if d_less a b then b else a)"

definition d_min :: "double \<Rightarrow> double \<Rightarrow> double" where
  "d_min a b = (if d_less b a then b else a)"

lemma d_less_finite [simp]:
  "d_finite a \<Longrightarrow> d_finite b \<Longrightarrow> d_less a b \<longleftrightarrow> d_rat a < d_rat b"
  by (cases a; cases b) auto

lemma d_le_finite [simp]:
  "d_finite a \<Longrightarrow> d_finite b \<Longrightarrow> d_le a b \<longleftrightarrow> d_rat a \<le> d_rat b"
  by (cases a; cases b) auto

lemma d_max_finite [simp]: "d_finite a \<Longrightarrow> d_finite b \<Longrightarrow> d_finite (d_max a b)"
  by (simp add: d_max_def)

lemma d_min_finite [simp]: "d_finite a \<Longrightarrow> d_finite b \<Longrightarrow> d_finite (d_min a b)"
  by (simp add: d_min_def)

lemma d_rat_max [simp]: "d_finite a \<Longrightarrow> d_finite b \<Longrightarrow> d_rat (d_max a b) = max (d_rat a) (d_rat b)"
  by (simp add: d_max_def max_def)

lemma d_rat_min [simp]: "d_finite a \<Longrightarrow> d_finite b \<Longrightarrow> d_rat (d_min a b) = min (d_rat a) (d_rat b)"
  by (simp add: d_min_def min_def)

section \<open>Rounding\<close>

fun bit_count :: "nat \<Rightarrow> nat" where
  "bit_count n = (if n = 0 then 0 else Suc (bit_count (n div 2)))"

declare bit_count.simps [simp del]

definition pow2 :: "int \<Rightarrow> rat" where
  "pow2 e = (if 0 \<le> e then 2 ^ nat e else 1 / 2 ^ nat (- e))"

definition round_half_even :: "rat \<Rightarrow> int" where
  "round_half_even x =
     (let f = \<lfloor>x\<rfloor>; d = x - of_int f in
      if d < 1 / 2 then f else if 1 / 2 < d then f + 1 else if even f then f else f + 1)"

text \<open>The exponent of the last place of a positive value: 53 bits, and never below \<open>2 ^ -1074\<close>.\<close>

definition last_place :: "rat \<Rightarrow> int" where
  "last_place x =
     (let (a, b) = quotient_of x;
          k = int (bit_count (nat a)) - int (bit_count (nat b))
      in max (-1074) (if x < pow2 k then k - 53 else k - 52))"

definition round_double :: "rat \<Rightarrow> double" where
  "round_double x =
     (if x = 0 then Fin 0
      else let e = last_place \<bar>x\<bar>;
               v = of_int (round_half_even (\<bar>x\<bar> / pow2 e)) * pow2 e
           in if 2 ^ 1024 \<le> v then (if 0 < x then PInf else NInf)
              else if v = 0 then (if 0 < x then Fin 0 else NegZero)
              else Fin (if 0 < x then v else - v))"

fun d_negative :: "double \<Rightarrow> bool" where
  "d_negative (Fin r) = (r < 0)"
| "d_negative NegZero = True"
| "d_negative NInf = True"
| "d_negative _ = False"

definition d_mul :: "double \<Rightarrow> double \<Rightarrow> double" where
  "d_mul a b =
     (let neg = (d_negative a \<noteq> d_negative b) in
      if a = NaN \<or> b = NaN then NaN
      else if \<not> d_finite a \<or> \<not> d_finite b then
        if (d_finite a \<and> d_rat a = 0) \<or> (d_finite b \<and> d_rat b = 0) then NaN
        else if neg then NInf else PInf
      else if d_rat a * d_rat b = 0 then (if neg then NegZero else Fin 0)
      else round_double (d_rat a * d_rat b))"

text \<open>The literals of the code that no binary fraction equals.\<close>

lemma quotient_of_numerals: "quotient_of (numeral a / numeral b) = Rat.normalize (numeral a, numeral b)"
  using quotient_of_Fract [of "numeral a" "numeral b"] by (simp add: Fract_of_int_quotient)

lemma literal_parts:
  "quotient_of (3/10) = (3, 10)" "quotient_of (3/5) = (3, 5)" "quotient_of (7/10) = (7, 10)"
  "quotient_of (4/5) = (4, 5)"
  "bit_count 3 = 2" "bit_count 4 = 3" "bit_count 5 = 3" "bit_count 7 = 3" "bit_count 10 = 4"
  by (simp_all only: quotient_of_numerals) (code_simp | simp add: bit_count.simps)+

lemma literal_places:
  "last_place (3/10) = - 54" "last_place (3/5) = - 53" "last_place (7/10) = - 53"
  "last_place (4/5) = - 53"
  by (simp_all add: last_place_def literal_parts pow2_def)

lemma floor_numerals: "\<lfloor>numeral a / numeral b :: rat\<rfloor> = numeral a div numeral b"
  by (metis floor_divide_of_int_eq of_int_numeral)

lemma literals:
  "round_double (3/10) = Fin (5404319552844595 / 2 ^ 54)"
  "round_double (3/5) = Fin (5404319552844595 / 2 ^ 53)"
  "round_double (7/10) = Fin (6305039478318694 / 2 ^ 53)"
  "round_double (4/5) = Fin (7205759403792794 / 2 ^ 53)"
  by (simp_all add: round_double_def literal_places pow2_def round_half_even_def Let_def
      floor_numerals)

section \<open>Printing\<close>

text \<open>\<open>std::to_string\<close>: six digits after the point, rounded to even.\<close>

definition pad6 :: "nat \<Rightarrow> string" where
  "pad6 n = map (\<lambda>i. digit_char (n div 10 ^ (5 - i) mod 10)) [0..<6]"

definition to_str6 :: "double \<Rightarrow> string" where
  "to_str6 x =
     (if x = NaN then ''nan'' else if x = PInf then ''inf'' else if x = NInf then ''-inf''
      else let n = nat (round_half_even (\<bar>d_rat x\<bar> * 10 ^ 6)) in
        (if d_negative x then ''-'' else '''') @ to_dec (n div 10 ^ 6) @ ''.'' @ pad6 (n mod 10 ^ 6))"

end
