(* ===== verification/Governance.thy ===== *)
theory Governance
  imports Double Hex
begin

text \<open>
  The constitution and the approval gate: \<open>include/ailee/governance/GovernanceConstitution.hpp\<close>,
  \<open>include/ailee/approval/ApprovalGate.hpp\<close>, \<open>src/ailee/approval/ApprovalGate.cpp\<close>.
\<close>

section \<open>The constitution\<close>

record constitution_rules =
  min_quorum_threshold :: u32
  max_allowable_posture_score :: double
  min_posture_score :: double
  min_temporal_coherence :: double
  require_operator_signature :: bool
  require_system_signature :: bool
  constitution_id :: string

definition default_rules :: constitution_rules where
  "default_rules = \<lparr>min_quorum_threshold = 3, max_allowable_posture_score = Fin (5/2),
     min_posture_score = Fin (5/2), min_temporal_coherence = round_double (7/10),
     require_operator_signature = True, require_system_signature = True,
     constitution_id = ''v38.0.0-canonical-constitution''\<rparr>"

text \<open>The constructor copies the score only when the two differ, \<open>update_rules\<close> always.\<close>

definition new_constitution :: "constitution_rules \<Rightarrow> constitution_rules" where
  "new_constitution rules =
     (if d_le (max_allowable_posture_score rules) (min_posture_score rules) \<and>
         d_le (min_posture_score rules) (max_allowable_posture_score rules)
      then rules
      else rules\<lparr>min_posture_score := max_allowable_posture_score rules\<rparr>)"

definition update_rules :: "constitution_rules \<Rightarrow> constitution_rules" where
  "update_rules new_rules = new_rules\<lparr>min_posture_score := max_allowable_posture_score new_rules\<rparr>"

definition validate_rules :: "constitution_rules \<Rightarrow> bool" where
  "validate_rules r \<longleftrightarrow>
     min_quorum_threshold r > 0 \<and>
     d_finite (max_allowable_posture_score r) \<and>
     d_le (Fin 0) (max_allowable_posture_score r) \<and> d_le (max_allowable_posture_score r) (Fin 10) \<and>
     d_finite (min_temporal_coherence r) \<and>
     d_le (Fin 0) (min_temporal_coherence r) \<and> d_le (min_temporal_coherence r) (Fin 1)"

section \<open>The gate\<close>

record approval_factors =
  quorum_count :: u32
  total_validators :: u32
  operator_signature_valid :: bool
  system_signature_valid :: bool
  zk_state_consistent :: bool
  posture_score :: double
  temporal_coherence_index :: double
  zk_recursion_root :: string

record gate_decision =
  gd_approved :: bool
  gd_quorum_passed :: bool
  gd_signatures_valid :: bool
  gd_zk_valid :: bool
  gd_posture_passed :: bool
  gd_coherence_passed :: bool
  gd_rejection_reason :: string
  gd_evaluated_factors :: "string list"

definition empty_decision :: gate_decision where
  "empty_decision = \<lparr>gd_approved = False, gd_quorum_passed = False, gd_signatures_valid = False,
     gd_zk_valid = False, gd_posture_passed = False, gd_coherence_passed = False,
     gd_rejection_reason = '''', gd_evaluated_factors = []\<rparr>"

definition is_sha256_hex :: "string \<Rightarrow> bool" where
  "is_sha256_hex v \<longleftrightarrow>
     \<not> (length v \<noteq> 66 \<or> v ! 0 \<noteq> CHR ''0'' \<or> v ! 1 \<noteq> CHR ''x'') \<and>
     list_all (\<lambda>c. hex_val c \<noteq> None) (drop 2 v)"

definition zero_root :: string where
  "zero_root = ''0x0000000000000000000000000000000000000000000000000000000000000000''"

abbreviation pass_fail :: "bool \<Rightarrow> string" where
  "pass_fail b \<equiv> (if b then ''PASS'' else ''FAIL'')"

abbreviation u32_dec :: "u32 \<Rightarrow> string" where
  "u32_dec w \<equiv> to_dec (unat w)"

text \<open>The five factors.\<close>

definition quorum_passes :: "constitution_rules \<Rightarrow> approval_factors \<Rightarrow> bool" where
  "quorum_passes rules factors \<longleftrightarrow>
     quorum_count factors \<ge> min_quorum_threshold rules \<and>
     total_validators factors \<ge> min_quorum_threshold rules \<and>
     quorum_count factors \<le> total_validators factors"

definition operator_ok :: "constitution_rules \<Rightarrow> approval_factors \<Rightarrow> bool" where
  "operator_ok rules factors \<longleftrightarrow>
     \<not> require_operator_signature rules \<or> operator_signature_valid factors"

definition system_ok :: "constitution_rules \<Rightarrow> approval_factors \<Rightarrow> bool" where
  "system_ok rules factors \<longleftrightarrow> \<not> require_system_signature rules \<or> system_signature_valid factors"

definition root_non_zero :: "string \<Rightarrow> bool" where
  "root_non_zero rt \<longleftrightarrow> rt \<noteq> zero_root \<and> rt \<noteq> ''0x0''"

definition zk_passes :: "approval_factors \<Rightarrow> bool" where
  "zk_passes factors \<longleftrightarrow>
     zk_state_consistent factors \<and> zk_recursion_root factors \<noteq> '''' \<and>
     root_non_zero (zk_recursion_root factors) \<and> is_sha256_hex (zk_recursion_root factors)"

definition posture_passes :: "constitution_rules \<Rightarrow> approval_factors \<Rightarrow> bool" where
  "posture_passes rules factors \<longleftrightarrow>
     d_finite (posture_score factors) \<and> d_le (Fin 0) (posture_score factors) \<and>
     d_le (posture_score factors) (Fin 10) \<and>
     d_le (posture_score factors) (max_allowable_posture_score rules)"

definition coherence_passes :: "constitution_rules \<Rightarrow> approval_factors \<Rightarrow> bool" where
  "coherence_passes rules factors \<longleftrightarrow>
     d_finite (temporal_coherence_index factors) \<and>
     d_le (Fin 0) (temporal_coherence_index factors) \<and>
     d_le (temporal_coherence_index factors) (Fin 1) \<and>
     d_le (min_temporal_coherence rules) (temporal_coherence_index factors)"

definition factor_report :: "constitution_rules \<Rightarrow> approval_factors \<Rightarrow> string list" where
  "factor_report rules factors =
     (let rt = zk_recursion_root factors in
      [''Factor 1 Quorum: '' @ u32_dec (quorum_count factors) @ ''/'' @
         u32_dec (total_validators factors) @ '' (min threshold: '' @
         u32_dec (min_quorum_threshold rules) @ '') -> '' @ pass_fail (quorum_passes rules factors),
       ''Factor 2 Signatures: operator='' @ (if operator_ok rules factors then ''OK'' else ''INVALID'') @
         '', system='' @ (if system_ok rules factors then ''OK'' else ''INVALID'') @ '' -> '' @
         pass_fail (operator_ok rules factors \<and> system_ok rules factors),
       ''Factor 3 ZK State: '' @ (if zk_passes factors then ''CONSISTENT'' else ''INCONSISTENT'') @
         '' (root: '' @ (if rt \<noteq> '''' then if root_non_zero rt then ''VALID'' else ''ZERO_STALE''
                         else ''EMPTY'') @ '')'',
       ''Factor 4 Posture Score: '' @ to_str6 (posture_score factors) @ '' <= '' @
         to_str6 (max_allowable_posture_score rules) @ '' -> '' @ pass_fail (posture_passes rules factors),
       ''Factor 5 Temporal Coherence: '' @ to_str6 (temporal_coherence_index factors) @ '' >= '' @
         to_str6 (min_temporal_coherence rules) @ '' -> '' @ pass_fail (coherence_passes rules factors)])"

definition rejection :: "constitution_rules \<Rightarrow> approval_factors \<Rightarrow> string" where
  "rejection rules factors =
     (if \<not> quorum_passes rules factors then ''Quorum threshold not met''
      else if \<not> (operator_ok rules factors \<and> system_ok rules factors)
      then ''Invalid operator or system signatures''
      else if \<not> zk_passes factors then ''ZK proof state inconsistent or stale recursion root''
      else if \<not> posture_passes rules factors then ''Posture risk score exceeds safety thresholds''
      else if \<not> coherence_passes rules factors then ''Temporal coherence index below threshold''
      else '''')"

definition evaluate_factors :: "constitution_rules \<Rightarrow> approval_factors \<Rightarrow> gate_decision" where
  "evaluate_factors rules factors =
     (if \<not> validate_rules rules then
        empty_decision\<lparr>gd_rejection_reason := ''Invalid governance constitution'',
          gd_evaluated_factors := [''Governance constitution -> FAIL'']\<rparr>
      else
        let signatures = (operator_ok rules factors \<and> system_ok rules factors);
            approved = (quorum_passes rules factors \<and> signatures \<and> zk_passes factors \<and>
              posture_passes rules factors \<and> coherence_passes rules factors)
        in \<lparr>gd_approved = approved, gd_quorum_passed = quorum_passes rules factors,
            gd_signatures_valid = signatures, gd_zk_valid = zk_passes factors,
            gd_posture_passed = posture_passes rules factors,
            gd_coherence_passed = coherence_passes rules factors,
            gd_rejection_reason = (if \<not> approved then rejection rules factors else ''''),
            gd_evaluated_factors = factor_report rules factors\<rparr>)"

section \<open>Properties\<close>

lemma gate_fields:
  "gd_approved (evaluate_factors r f) \<longleftrightarrow> validate_rules r \<and> quorum_passes r f \<and>
     operator_ok r f \<and> system_ok r f \<and> zk_passes f \<and> posture_passes r f \<and> coherence_passes r f"
  by (simp add: evaluate_factors_def empty_decision_def Let_def)

text \<open>The five verdicts of a decision, in the order of the code, each with its reason.\<close>

definition verdicts :: "gate_decision \<Rightarrow> (bool \<times> string) list" where
  "verdicts d =
     [(gd_quorum_passed d, ''Quorum threshold not met''),
      (gd_signatures_valid d, ''Invalid operator or system signatures''),
      (gd_zk_valid d, ''ZK proof state inconsistent or stale recursion root''),
      (gd_posture_passed d, ''Posture risk score exceeds safety thresholds''),
      (gd_coherence_passed d, ''Temporal coherence index below threshold'')]"

definition first_reason :: "(bool \<times> string) list \<Rightarrow> string" where
  "first_reason vs = (case dropWhile fst vs of [] \<Rightarrow> '''' | v # _ \<Rightarrow> snd v)"

lemma rejection_names_first:
  assumes "validate_rules r"
  shows "gd_rejection_reason (evaluate_factors r f) = first_reason (verdicts (evaluate_factors r f))"
  using assms by (simp add: evaluate_factors_def verdicts_def rejection_def first_reason_def Let_def)

lemma sha256_hex_shape: "is_sha256_hex v \<Longrightarrow> v \<noteq> '''' \<and> v \<noteq> ''0x0''"
  by (auto simp: is_sha256_hex_def)

text \<open>
  The gate has no bypass. It approves exactly when the constitution is within its bounds, the
  quorum reaches a positive threshold that the validator set can hold, every required signature
  is valid, the recursion root is consistent, well formed and not zero, and both scores are
  finite and on the right side of the thresholds. A rejection under a valid constitution names
  the first of the five factors that failed.
\<close>

theorem gate_no_bypass:
  "(gd_approved (evaluate_factors r f) \<longleftrightarrow>
      0 < min_quorum_threshold r \<and> min_quorum_threshold r \<le> quorum_count f \<and>
      quorum_count f \<le> total_validators f \<and>
      operator_ok r f \<and> system_ok r f \<and>
      zk_state_consistent f \<and> is_sha256_hex (zk_recursion_root f) \<and> zk_recursion_root f \<noteq> zero_root \<and>
      d_finite (posture_score f) \<and> d_finite (max_allowable_posture_score r) \<and>
      0 \<le> d_rat (posture_score f) \<and> d_rat (posture_score f) \<le> d_rat (max_allowable_posture_score r) \<and>
      d_rat (max_allowable_posture_score r) \<le> 10 \<and>
      d_finite (temporal_coherence_index f) \<and> d_finite (min_temporal_coherence r) \<and>
      0 \<le> d_rat (min_temporal_coherence r) \<and>
      d_rat (min_temporal_coherence r) \<le> d_rat (temporal_coherence_index f) \<and>
      d_rat (temporal_coherence_index f) \<le> 1)
   \<and> gd_rejection_reason (evaluate_factors r f) =
      (if \<not> validate_rules r then ''Invalid governance constitution''
       else first_reason (verdicts (evaluate_factors r f)))"
proof (rule conjI)
  show "gd_rejection_reason (evaluate_factors r f) =
      (if \<not> validate_rules r then ''Invalid governance constitution''
       else first_reason (verdicts (evaluate_factors r f)))"
  proof (cases "validate_rules r")
    case True
    then show ?thesis by (simp add: rejection_names_first)
  qed (simp add: evaluate_factors_def)
next
  have "zk_passes f \<longleftrightarrow> zk_state_consistent f \<and> is_sha256_hex (zk_recursion_root f) \<and>
      zk_recursion_root f \<noteq> zero_root"
    using sha256_hex_shape [of "zk_recursion_root f"] by (auto simp: zk_passes_def root_non_zero_def)
  then show "gd_approved (evaluate_factors r f) \<longleftrightarrow>
      0 < min_quorum_threshold r \<and> min_quorum_threshold r \<le> quorum_count f \<and>
      quorum_count f \<le> total_validators f \<and>
      operator_ok r f \<and> system_ok r f \<and>
      zk_state_consistent f \<and> is_sha256_hex (zk_recursion_root f) \<and> zk_recursion_root f \<noteq> zero_root \<and>
      d_finite (posture_score f) \<and> d_finite (max_allowable_posture_score r) \<and>
      0 \<le> d_rat (posture_score f) \<and> d_rat (posture_score f) \<le> d_rat (max_allowable_posture_score r) \<and>
      d_rat (max_allowable_posture_score r) \<le> 10 \<and>
      d_finite (temporal_coherence_index f) \<and> d_finite (min_temporal_coherence r) \<and>
      0 \<le> d_rat (min_temporal_coherence r) \<and>
      d_rat (min_temporal_coherence r) \<le> d_rat (temporal_coherence_index f) \<and>
      d_rat (temporal_coherence_index f) \<le> 1"
    unfolding gate_fields
    by (auto simp: validate_rules_def quorum_passes_def posture_passes_def coherence_passes_def)
qed

end
