(* ===== verification/Alcoa.thy ===== *)
theory Alcoa
  imports Governance
begin

text \<open>
  The ALCOA ledger: \<open>include/ailee/ledger/AlcoaLedger.hpp\<close> and
  \<open>src/ailee/ledger/AlcoaLedger.cpp\<close>. SHA-256 is the parameter \<open>sha\<close>, the stream's formatting of a
  \<open>double\<close> with seventeen digits the parameter \<open>fmt\<close>, the wall clock the argument \<open>now\<close>.
\<close>

section \<open>Data\<close>

record alcoa_entry =
  ae_operator_id :: string
  ae_system_id :: string
  ae_operator_signature :: string
  ae_human_readable_summary :: string
  ae_regime_label :: string
  ae_compartment_label :: string
  ae_timestamp_utc :: u64
  ae_epoch_id :: u64
  ae_epoch_hash :: string
  ae_entry_id :: string
  ae_parent_entry_id :: string
  ae_source_system :: string
  ae_posture_regime_id :: string
  ae_posture_score :: double
  ae_zk_recursion_root :: string
  ae_temporal_coherence_index :: double
  ae_signal_energy :: double
  ae_coherence_score :: double

definition empty_entry :: alcoa_entry where
  "empty_entry = \<lparr>ae_operator_id = '''', ae_system_id = '''', ae_operator_signature = '''',
     ae_human_readable_summary = '''', ae_regime_label = '''', ae_compartment_label = '''',
     ae_timestamp_utc = 0, ae_epoch_id = 0, ae_epoch_hash = '''', ae_entry_id = '''',
     ae_parent_entry_id = '''', ae_source_system = '''', ae_posture_regime_id = '''',
     ae_posture_score = Fin 0, ae_zk_recursion_root = '''', ae_temporal_coherence_index = Fin 0,
     ae_signal_energy = Fin 0, ae_coherence_score = Fin 0\<rparr>"

section \<open>Operations\<close>

definition entry_fields :: "(double \<Rightarrow> string) \<Rightarrow> alcoa_entry \<Rightarrow> string list" where
  "entry_fields fmt e =
     [ae_parent_entry_id e, ae_operator_id e, ae_system_id e, ae_operator_signature e,
      ae_human_readable_summary e, ae_regime_label e, ae_compartment_label e,
      to_dec (unat (ae_timestamp_utc e)), to_dec (unat (ae_epoch_id e)), ae_epoch_hash e,
      ae_source_system e, ae_posture_regime_id e, fmt (ae_posture_score e),
      ae_zk_recursion_root e, fmt (ae_temporal_coherence_index e), fmt (ae_signal_energy e),
      fmt (ae_coherence_score e)]"

fun join_bars :: "string list \<Rightarrow> string" where
  "join_bars [] = ''''"
| "join_bars [s] = s"
| "join_bars (s # t # ss) = s @ ''|'' @ join_bars (t # ss)"

definition compute_entry_hash ::
    "(bytes \<Rightarrow> bytes) \<Rightarrow> (double \<Rightarrow> string) \<Rightarrow> alcoa_entry \<Rightarrow> string" where
  "compute_entry_hash sha fmt e =
     ''alcoa-0x'' @ take 32 (hex_of (sha (str_bytes (join_bars (entry_fields fmt e)))))"

definition record_entry ::
    "(bytes \<Rightarrow> bytes) \<Rightarrow> (double \<Rightarrow> string) \<Rightarrow> u64 \<Rightarrow> alcoa_entry \<Rightarrow> alcoa_entry list \<Rightarrow>
     string \<times> alcoa_entry list" where
  "record_entry sha fmt now entry entries =
     (let entry = (if ae_timestamp_utc entry = 0 then entry\<lparr>ae_timestamp_utc := now\<rparr> else entry);
          entry = (if entries = [] then
                     (if ae_parent_entry_id entry = '''' then entry\<lparr>ae_parent_entry_id := zero_root\<rparr>
                      else entry)
                   else
                     (if ae_parent_entry_id entry = ''''
                      then entry\<lparr>ae_parent_entry_id := ae_entry_id (last entries)\<rparr> else entry));
          entry = entry\<lparr>ae_entry_id := compute_entry_hash sha fmt entry\<rparr>
      in (ae_entry_id entry, entries @ [entry]))"

definition alcoa_ok :: "alcoa_entry \<Rightarrow> bool" where
  "alcoa_ok e \<longleftrightarrow>
     (let attributable = (ae_operator_id e \<noteq> '''' \<and> ae_operator_signature e \<noteq> '''');
          legible = (ae_human_readable_summary e \<noteq> '''' \<and> ae_regime_label e \<noteq> '''');
          contemporaneous = (ae_timestamp_utc e > 0 \<and> ae_epoch_hash e \<noteq> '''');
          original = (ae_entry_id e \<noteq> '''');
          accurate = (ae_posture_regime_id e \<noteq> '''' \<and>
            d_finite (ae_posture_score e) \<and> d_finite (ae_temporal_coherence_index e) \<and>
            d_finite (ae_signal_energy e) \<and> d_finite (ae_coherence_score e) \<and>
            d_le (Fin 0) (ae_posture_score e) \<and> d_le (ae_posture_score e) (Fin 10) \<and>
            d_le (Fin 0) (ae_temporal_coherence_index e) \<and> d_le (ae_temporal_coherence_index e) (Fin 1) \<and>
            d_le (Fin 0) (ae_coherence_score e) \<and> d_le (ae_coherence_score e) (Fin 1))
      in attributable \<and> legible \<and> contemporaneous \<and> original \<and> accurate)"

definition verify_entry ::
    "(bytes \<Rightarrow> bytes) \<Rightarrow> (double \<Rightarrow> string) \<Rightarrow> string \<Rightarrow> alcoa_entry list \<Rightarrow> bool" where
  "verify_entry sha fmt entry_id entries =
     (case find (\<lambda>e. ae_entry_id e = entry_id) entries of
        Some e \<Rightarrow> alcoa_ok e \<and> ae_entry_id e = compute_entry_hash sha fmt e
      | None \<Rightarrow> False)"

definition verify_chain ::
    "(bytes \<Rightarrow> bytes) \<Rightarrow> (double \<Rightarrow> string) \<Rightarrow> alcoa_entry list \<Rightarrow> bool" where
  "verify_chain sha fmt entries =
     (if entries = [] then True
      else list_all (\<lambda>i. verify_entry sha fmt (ae_entry_id (entries ! i)) entries \<and>
             (if i = 0 then ae_parent_entry_id (entries ! i) = zero_root
              else ae_parent_entry_id (entries ! i) = ae_entry_id (entries ! (i - 1))))
           [0..<length entries])"

definition get_latest_entry :: "alcoa_entry list \<Rightarrow> alcoa_entry" where
  "get_latest_entry entries = (if entries = [] then empty_entry else last entries)"

lemma entry_hash_nonempty [simp]: "compute_entry_hash sha fmt e \<noteq> []"
  by (simp add: compute_entry_hash_def)

section \<open>The chain\<close>

text \<open>Entries that are fine one by one and linked: what \<open>verify_chain\<close> is meant to check.\<close>

definition sound_entry :: "(bytes \<Rightarrow> bytes) \<Rightarrow> (double \<Rightarrow> string) \<Rightarrow> alcoa_entry \<Rightarrow> bool" where
  "sound_entry sha fmt e \<longleftrightarrow> alcoa_ok e \<and> ae_entry_id e = compute_entry_hash sha fmt e"

fun linked :: "string \<Rightarrow> alcoa_entry list \<Rightarrow> bool" where
  "linked parent [] = True"
| "linked parent (e # es) = (ae_parent_entry_id e = parent \<and> linked (ae_entry_id e) es)"

definition sound_chain :: "(bytes \<Rightarrow> bytes) \<Rightarrow> (double \<Rightarrow> string) \<Rightarrow> alcoa_entry list \<Rightarrow> bool" where
  "sound_chain sha fmt es \<longleftrightarrow> list_all (sound_entry sha fmt) es \<and> linked zero_root es"

lemma linked_snoc: "linked p (es @ [e]) \<longleftrightarrow> linked p es \<and>
    ae_parent_entry_id e = (if es = [] then p else ae_entry_id (last es))"
  by (induction p es rule: linked.induct) auto

lemma linked_iff:
  "linked p es \<longleftrightarrow> (\<forall>i < length es. ae_parent_entry_id (es ! i) =
     (if i = 0 then p else ae_entry_id (es ! (i - 1))))"
proof (induction es rule: rev_induct)
  case (snoc e es)
  let ?B = "\<lambda>xs i. ae_parent_entry_id (xs ! i) = (if i = 0 then p else ae_entry_id (xs ! (i - 1)))"
  have "?B (es @ [e]) i = ?B es i" if "i < length es" for i
    using that less_imp_diff_less [OF that, of 1] by (simp add: nth_append)
  then have "(\<forall>i < length es. ?B (es @ [e]) i) \<longleftrightarrow> linked p es"
    using snoc.IH by simp
  moreover have "?B (es @ [e]) (length es) \<longleftrightarrow>
      ae_parent_entry_id e = (if es = [] then p else ae_entry_id (last es))"
    by (simp add: nth_append last_conv_nth)
  moreover have "(\<forall>i < length (es @ [e]). ?B (es @ [e]) i) \<longleftrightarrow>
      ?B (es @ [e]) (length es) \<and> (\<forall>i < length es. ?B (es @ [e]) i)"
    unfolding length_append_singleton by (rule All_less_Suc)
  ultimately show ?case unfolding linked_snoc by blast
qed simp

lemma verify_entry_sound:
  "list_all (sound_entry sha fmt) es \<Longrightarrow> e \<in> set es \<Longrightarrow> verify_entry sha fmt (ae_entry_id e) es"
proof -
  assume all: "list_all (sound_entry sha fmt) es" and e: "e \<in> set es"
  then obtain d where d: "find (\<lambda>x. ae_entry_id x = ae_entry_id e) es = Some d"
    by (cases "find (\<lambda>x. ae_entry_id x = ae_entry_id e) es") (auto simp: find_None_iff)
  then have "d \<in> set es" by (auto simp: find_Some_iff)
  with all d show ?thesis by (simp add: verify_entry_def list_all_iff sound_entry_def)
qed

text \<open>
  The check looks every id up and judges the first entry that carries it, so an entry whose id
  occurs earlier is never judged itself; with distinct ids the check is exact.
\<close>

lemma verify_chain_sound: "sound_chain sha fmt es \<Longrightarrow> verify_chain sha fmt es"
  by (auto simp: sound_chain_def verify_chain_def linked_iff list_all_iff intro: verify_entry_sound)

lemma verify_chain_exact:
  assumes "distinct (map ae_entry_id es)"
  shows "verify_chain sha fmt es \<longleftrightarrow> sound_chain sha fmt es"
proof
  assume v: "verify_chain sha fmt es"
  have "sound_entry sha fmt e" if e: "e \<in> set es" for e
  proof -
    from e obtain i where i: "i < length es" "es ! i = e" by (auto simp: in_set_conv_nth)
    have "find (\<lambda>x. ae_entry_id x = ae_entry_id e) es = Some e"
      using assms e by (induction es) (auto simp: rev_image_eqI)
    moreover have "verify_entry sha fmt (ae_entry_id (es ! i)) es"
      using v i by (cases "es = []") (auto simp: verify_chain_def list_all_iff)
    ultimately show ?thesis using i by (simp add: verify_entry_def sound_entry_def)
  qed
  moreover have "linked zero_root es"
    using v by (cases "es = []") (auto simp: verify_chain_def linked_iff list_all_iff)
  ultimately show "sound_chain sha fmt es" by (simp add: sound_chain_def list_all_iff)
qed (rule verify_chain_sound)

lemma record_extends:
  assumes "sound_chain sha fmt es" "ae_parent_entry_id e = ''''"
    "alcoa_ok (e\<lparr>ae_timestamp_utc := (if ae_timestamp_utc e = 0 then now else ae_timestamp_utc e),
       ae_entry_id := ''x''\<rparr>)"
  shows "sound_chain sha fmt (snd (record_entry sha fmt now e es))"
proof -
  define d where "d = last (snd (record_entry sha fmt now e es))"
  have es: "snd (record_entry sha fmt now e es) = es @ [d]"
    by (simp add: d_def record_entry_def Let_def)
  have id: "ae_entry_id d = compute_entry_hash sha fmt d"
    by (simp add: d_def record_entry_def Let_def compute_entry_hash_def entry_fields_def)
  then have "ae_entry_id d \<noteq> ''''" by (simp add: compute_entry_hash_def)
  then have "alcoa_ok d"
    using assms(2,3) by (auto simp: d_def record_entry_def Let_def alcoa_ok_def split: if_splits)
  moreover have "ae_parent_entry_id d = (if es = [] then zero_root else ae_entry_id (last es))"
    using assms(2) by (simp add: d_def record_entry_def Let_def)
  ultimately show ?thesis
    using assms(1) id by (simp add: es sound_chain_def linked_snoc sound_entry_def)
qed

end
