(* ===== verification/Posture.thy ===== *)
theory Posture
  imports Double
begin

text \<open>
  Posture and interpretation: \<open>src/ailee/posture/PostureEngine.cpp\<close>,
  \<open>src/ailee/interpretation/InterpretationEngine.cpp\<close> and their headers. The risk score is a sum
  of 1.5, 2.0 and 3.0 that stays at most 10, so every addition is exact and the sum is kept as a
  rational; the deviation of the block interval is compared with 300, which the rounding of a
  64-bit integer to a \<open>double\<close> cannot change, so it is computed on the integer.
\<close>

section \<open>Posture\<close>

datatype posture_regime = NEUTRAL | PARABOLIC | RISK_OFF | CHOP | STRESS | RECOVERY_REGIME

record posture_input =
  pi_current_fee_rate :: double
  pi_high_fee_band :: double
  pi_recent_volatility :: double
  pi_block_interval_avg :: u64
  pi_time_since_last_block :: u64
  pi_daily_change_pct :: double
  pi_signal_coherence :: double

record posture_result =
  pr_risk_score :: double
  pr_regime :: posture_regime
  pr_regime_id :: string
  pr_summary :: string
  pr_confidence :: double
  pr_temporal_coherence_index :: double
  pr_canonical_signal_energy :: "double option"

definition clamp01 :: "double \<Rightarrow> double" where
  "clamp01 x = d_max (Fin 0) (d_min (Fin 1) x)"

definition malformed :: "posture_input \<Rightarrow> bool" where
  "malformed i \<longleftrightarrow> \<not> d_finite (pi_current_fee_rate i) \<or> \<not> d_finite (pi_high_fee_band i) \<or>
     \<not> d_finite (pi_recent_volatility i) \<or> \<not> d_finite (pi_daily_change_pct i) \<or>
     \<not> d_finite (pi_signal_coherence i)"

definition risk_score :: "double \<Rightarrow> double \<Rightarrow> double \<Rightarrow> u64 \<Rightarrow> u64 \<Rightarrow> rat" where
  "risk_score fee band volatility interval_avg since_last =
     (let fee_risk = (if d_less (d_mul band (Fin (3/2))) fee then 3
                      else if d_less band fee then 3/2 else 0);
          volatility_risk = (if d_less (round_double (4/5)) volatility then 3
                             else if d_less (Fin (1/2)) volatility then 3/2 else 0);
          interval_risk = (if \<bar>int (unat interval_avg) - 600\<bar> > 300 then 2 else 0);
          delay_risk = (if since_last > 1800 then 2 else 0)
      in min 10 (max 0 (fee_risk + volatility_risk + interval_risk + delay_risk)))"

definition classify_regime :: "double \<Rightarrow> double \<Rightarrow> rat \<Rightarrow> double \<Rightarrow> posture_regime \<times> string" where
  "classify_regime volatility change score coherence =
     (if d_less (round_double (7/10)) volatility \<and> d_less (Fin 5) change then (PARABOLIC, ''parabolic'')
      else if d_less (round_double (7/10)) volatility \<and> d_less change (Fin (-5))
      then (RISK_OFF, ''risk-off'')
      else if d_less volatility (round_double (3/10)) then (CHOP, ''chop'')
      else if score \<ge> 7 then (STRESS, ''stress'')
      else if score < 3 \<and> d_less (round_double (4/5)) coherence then (RECOVERY_REGIME, ''recovery'')
      else (NEUTRAL, ''neutral''))"

definition summary_of :: "rat \<Rightarrow> string" where
  "summary_of score =
     (if score < 3 then ''Network conditions stable with high temporal coherence.''
      else if score < 6 then ''Moderate volatility or fee pressure. Operational within bounds.''
      else if score < 17/2 then ''Elevated network stress or delay. Caution advised.''
      else ''Extreme network stress. Non-critical operations deferred.'')"

definition evaluate_posture :: "posture_input \<Rightarrow> posture_result" where
  "evaluate_posture i =
     (if malformed i then
        \<lparr>pr_risk_score = Fin 10, pr_regime = STRESS, pr_regime_id = ''stress'',
         pr_summary = ''Malformed non-finite telemetry; operations fail closed.'',
         pr_confidence = Fin 0, pr_temporal_coherence_index = Fin 0,
         pr_canonical_signal_energy = None\<rparr>
      else
        let fee = d_max (Fin 0) (if pi_current_fee_rate i = NaN then Fin 0 else pi_current_fee_rate i);
            band = d_max (Fin 1) (if pi_high_fee_band i = NaN then Fin 50 else pi_high_fee_band i);
            volatility = clamp01 (if pi_recent_volatility i = NaN then Fin 0 else pi_recent_volatility i);
            coherence = clamp01 (if pi_signal_coherence i = NaN then Fin 1 else pi_signal_coherence i);
            score = risk_score fee band volatility (pi_block_interval_avg i) (pi_time_since_last_block i);
            (regime, regime_id) = classify_regime volatility (pi_daily_change_pct i) score coherence
        in \<lparr>pr_risk_score = Fin score, pr_regime = regime, pr_regime_id = regime_id,
            pr_summary = summary_of score,
            pr_confidence = (if pi_time_since_last_block i > 3600 then Fin (1/2) else Fin 1),
            pr_temporal_coherence_index = coherence, pr_canonical_signal_energy = Some fee\<rparr>)"

definition posture_regime_to_string :: "posture_regime \<Rightarrow> string" where
  "posture_regime_to_string r = (case r of NEUTRAL \<Rightarrow> ''NEUTRAL'' | PARABOLIC \<Rightarrow> ''PARABOLIC''
     | RISK_OFF \<Rightarrow> ''RISK_OFF'' | CHOP \<Rightarrow> ''CHOP'' | STRESS \<Rightarrow> ''STRESS'' | RECOVERY_REGIME \<Rightarrow> ''RECOVERY'')"

section \<open>Interpretation\<close>

datatype interpretation_regime =
  NOMINAL | ELEVATED_VOLATILITY | MEMPOOL_CONGESTION | TEMPORAL_DRIFT | CRITICAL_ISOLATION

record interpretation_input =
  ii_volatility :: double
  ii_fee_rate :: double
  ii_high_fee_band :: double
  ii_block_lag_seconds :: u64
  ii_coherence_score :: double

record interpretation_result =
  ir_regime :: interpretation_regime
  ir_regime_name :: string
  ir_confidence :: double
  ir_recommendation :: string
  ir_triggered_rules :: "string list"

definition interpretation_regime_to_string :: "interpretation_regime \<Rightarrow> string" where
  "interpretation_regime_to_string r = (case r of NOMINAL \<Rightarrow> ''NOMINAL''
     | ELEVATED_VOLATILITY \<Rightarrow> ''ELEVATED_VOLATILITY'' | MEMPOOL_CONGESTION \<Rightarrow> ''MEMPOOL_CONGESTION''
     | TEMPORAL_DRIFT \<Rightarrow> ''TEMPORAL_DRIFT'' | CRITICAL_ISOLATION \<Rightarrow> ''CRITICAL_ISOLATION'')"

definition interpret_state :: "interpretation_input \<Rightarrow> interpretation_result" where
  "interpret_state i =
     (if ii_block_lag_seconds i > 3600 \<or> d_less (ii_coherence_score i) (round_double (3/10)) then
        \<lparr>ir_regime = CRITICAL_ISOLATION, ir_regime_name = ''CRITICAL_ISOLATION'',
         ir_confidence = round_double (95/100),
         ir_recommendation = ''Isolate non-essential sub-systems and await temporal re-alignment.'',
         ir_triggered_rules = [''RULE_CRITICAL_LAG_OR_DECOHERENCE'']\<rparr>
      else if ii_block_lag_seconds i > 1800 then
        \<lparr>ir_regime = TEMPORAL_DRIFT, ir_regime_name = ''TEMPORAL_DRIFT'',
         ir_confidence = round_double (90/100),
         ir_recommendation = ''Re-synchronize with Bitcoin L1 anchor nodes.'',
         ir_triggered_rules = [''RULE_TEMPORAL_DRIFT_EXCEEDED'']\<rparr>
      else if d_less (ii_high_fee_band i) (ii_fee_rate i) \<and> d_less (Fin 0) (ii_high_fee_band i) then
        \<lparr>ir_regime = MEMPOOL_CONGESTION, ir_regime_name = ''MEMPOOL_CONGESTION'',
         ir_confidence = round_double (88/100),
         ir_recommendation = ''Adjust transaction batching and optimize fee strategies.'',
         ir_triggered_rules = [''RULE_MEMPOOL_CONGESTION'']\<rparr>
      else if d_less (round_double (3/5)) (ii_volatility i) then
        \<lparr>ir_regime = ELEVATED_VOLATILITY, ir_regime_name = ''ELEVATED_VOLATILITY'',
         ir_confidence = round_double (85/100),
         ir_recommendation = ''Monitor posture metrics closely; maintain conservative posture.'',
         ir_triggered_rules = [''RULE_VOLATILITY_THRESHOLD'']\<rparr>
      else
        \<lparr>ir_regime = NOMINAL, ir_regime_name = ''NOMINAL'', ir_confidence = round_double (99/100),
         ir_recommendation = ''System operating within nominal deterministic bounds.'',
         ir_triggered_rules = [''RULE_NOMINAL_EXECUTION'']\<rparr>)"

section \<open>Lemmas\<close>

lemma clamp01_finite [simp]: "d_finite x \<Longrightarrow> d_finite (clamp01 x)"
  by (simp add: clamp01_def)

lemma clamp01_bounds:
  "d_finite x \<Longrightarrow> 0 \<le> d_rat (clamp01 x) \<and> d_rat (clamp01 x) \<le> 1"
  by (simp add: clamp01_def)

lemma risk_score_values:
  "risk_score f b v a s \<in> {0, 3/2, 2, 3, 7/2, 4, 9/2, 5, 11/2, 6, 13/2, 7, 17/2, 8, 10}"
  unfolding risk_score_def Let_def by simp

lemma risk_score_bounds: "0 \<le> risk_score f b v a s" "risk_score f b v a s \<le> 10"
  by (simp_all add: risk_score_def Let_def)

lemma posture_finite:
  assumes "\<not> malformed i"
  shows "d_finite (pr_risk_score (evaluate_posture i))" "0 \<le> d_rat (pr_risk_score (evaluate_posture i))"
    "d_rat (pr_risk_score (evaluate_posture i)) \<le> 10"
    "d_finite (pr_temporal_coherence_index (evaluate_posture i))"
    "0 \<le> d_rat (pr_temporal_coherence_index (evaluate_posture i))"
    "d_rat (pr_temporal_coherence_index (evaluate_posture i)) \<le> 1"
  using assms clamp01_bounds risk_score_bounds
  by (auto simp: evaluate_posture_def malformed_def Let_def split_beta)

text \<open>
  A score within the default limit of 2.5 means at most one mild irregularity: a fee just over
  the band, or some volatility, or a slow interval average, or a late block; so the fee is at
  most one and a half times the band and the volatility at most 0.8.
\<close>

lemma low_risk_score:
  "risk_score f b v a s \<le> 5/2 \<longleftrightarrow>
     \<not> d_less (d_mul b (Fin (3/2))) f \<and> \<not> d_less (round_double (4/5)) v \<and>
     of_bool (d_less b f) + of_bool (d_less (Fin (1/2)) v) + of_bool (\<bar>int (unat a) - 600\<bar> > 300) +
       of_bool (s > 1800) \<le> (1 :: nat)"
  unfolding risk_score_def Let_def by auto

end
