(* ===== verification/Compartments.thy ===== *)
theory Compartments
  imports OMap "HOL-Library.Sublist"
begin

text \<open>
  The compartment state machine: \<open>include/ailee/compartments/CompartmentStateMachine.hpp\<close> and
  \<open>src/ailee/compartments/CompartmentStateMachine.cpp\<close>. Every operation holds the mutex for its
  whole body, so operations are atomic; the wall clock is an argument of those that read it.
\<close>

datatype compartment_state = ISOLATED | MONITORED | ACTIVE | SUSPENDED | QUARANTINED

record compartment_info =
  compartment_id :: string
  ci_name :: string
  ci_state :: compartment_state
  last_transition_timestamp :: u64
  isolation_policy :: string

type_synonym machine = "(string, compartment_info) omap"

definition no_compartment :: compartment_info where
  "no_compartment = \<lparr>compartment_id = '''', ci_name = '''', ci_state = ISOLATED,
     last_transition_timestamp = 0, isolation_policy = ''''\<rparr>"

definition is_valid_transition :: "compartment_state \<Rightarrow> compartment_state \<Rightarrow> bool" where
  "is_valid_transition current target \<longleftrightarrow>
     (if current = target then True
      else case current of
        ISOLATED \<Rightarrow> target = MONITORED \<or> target = QUARANTINED
      | MONITORED \<Rightarrow> target = ACTIVE \<or> target = ISOLATED \<or> target = SUSPENDED \<or> target = QUARANTINED
      | ACTIVE \<Rightarrow> target = MONITORED \<or> target = SUSPENDED \<or> target = QUARANTINED
      | SUSPENDED \<Rightarrow> target = MONITORED \<or> target = ISOLATED \<or> target = QUARANTINED
      | QUARANTINED \<Rightarrow> target = ISOLATED)"

definition register_compartment :: "u64 \<Rightarrow> string \<Rightarrow> string \<Rightarrow> machine \<Rightarrow> bool \<times> machine" where
  "register_compartment now i name m =
     (if om_get m i \<noteq> None then (False, m)
      else (True, om_put i \<lparr>compartment_id = i, ci_name = name, ci_state = ISOLATED,
              last_transition_timestamp = now, isolation_policy = ''default-strict-isolation''\<rparr> m))"

definition transition_state ::
    "u64 \<Rightarrow> string \<Rightarrow> compartment_state \<Rightarrow> string \<Rightarrow> bool \<Rightarrow> machine \<Rightarrow> bool \<times> machine" where
  "transition_state now i new_state reason force m =
     (case om_get m i of
        None \<Rightarrow> (False, m)
      | Some info \<Rightarrow>
          if \<not> force \<and> \<not> is_valid_transition (ci_state info) new_state then (False, m)
          else (True, om_put i (info\<lparr>ci_state := new_state, last_transition_timestamp := now,
                  isolation_policy := (if reason \<noteq> '''' then reason else isolation_policy info)\<rparr>) m))"

definition get_compartment :: "string \<Rightarrow> machine \<Rightarrow> compartment_info" where
  "get_compartment i m = (case om_get m i of Some info \<Rightarrow> info | None \<Rightarrow> no_compartment)"

definition list_compartments :: "machine \<Rightarrow> compartment_info list" where
  "list_compartments m = map snd (om_entries m)"

definition is_isolated :: "string \<Rightarrow> machine \<Rightarrow> bool" where
  "is_isolated i m = (case om_get m i of
       Some info \<Rightarrow> ci_state info = ISOLATED \<or> ci_state info = QUARANTINED
     | None \<Rightarrow> True)"

definition state_to_string :: "compartment_state \<Rightarrow> string" where
  "state_to_string s = (case s of ISOLATED \<Rightarrow> ''ISOLATED'' | MONITORED \<Rightarrow> ''MONITORED''
     | ACTIVE \<Rightarrow> ''ACTIVE'' | SUSPENDED \<Rightarrow> ''SUSPENDED'' | QUARANTINED \<Rightarrow> ''QUARANTINED'')"

text \<open>The constructor; each step reads the clock anew, the model takes one reading for all.\<close>

definition new_machine :: "u64 \<Rightarrow> machine" where
  "new_machine now =
     (let reg = (\<lambda>i name m. snd (register_compartment now i name m));
          force = (\<lambda>i s m. snd (transition_state now i s ''System initialization'' True m)) in
      (force ''network-relay'' MONITORED \<circ> force ''alcoa-ledger'' ACTIVE
       \<circ> force ''governance-gate'' ACTIVE \<circ> force ''core-execution'' ACTIVE
       \<circ> reg ''network-relay'' ''P2P Network & Relay'' \<circ> reg ''alcoa-ledger'' ''ALCOA Ledger Subsystem''
       \<circ> reg ''governance-gate'' ''Governance Approval Gate''
       \<circ> reg ''core-execution'' ''Core Execution Engine'') om_empty)"

section \<open>Runs\<close>

datatype machine_op =
  Register string string u64
| Transition string compartment_state string bool u64

fun machine_step :: "machine \<Rightarrow> machine_op \<Rightarrow> machine" where
  "machine_step m (Register i name now) = snd (register_compartment now i name m)"
| "machine_step m (Transition i s reason force now) = snd (transition_state now i s reason force m)"

fun unforced :: "machine_op \<Rightarrow> bool" where
  "unforced (Transition _ _ _ force _) = (\<not> force)"
| "unforced _ = True"

text \<open>The states that the operations of a run ask for, for one compartment.\<close>

fun requested :: "string \<Rightarrow> machine_op list \<Rightarrow> compartment_state list" where
  "requested i [] = []"
| "requested i (Transition j s _ _ _ # ops) = (if j = i then s # requested i ops else requested i ops)"
| "requested i (Register _ _ _ # ops) = requested i ops"

fun way_to_active :: "compartment_state \<Rightarrow> compartment_state list" where
  "way_to_active QUARANTINED = [ISOLATED, MONITORED, ACTIVE]"
| "way_to_active ISOLATED = [MONITORED, ACTIVE]"
| "way_to_active SUSPENDED = [MONITORED, ACTIVE]"
| "way_to_active MONITORED = [ACTIVE]"
| "way_to_active ACTIVE = []"

lemma way_step: "is_valid_transition s t \<Longrightarrow> subseq (way_to_active s) (t # way_to_active t)"
  by (cases s; cases t) (auto simp: is_valid_transition_def)

lemma step_state:
  assumes "om_get m i = Some info" "unforced op"
  obtains info' where "om_get (machine_step m op) i = Some info'"
    "ci_state info' = ci_state info \<or>
     (\<exists>s. requested i [op] = [s] \<and> ci_state info' = s \<and> is_valid_transition (ci_state info) s)"
proof (cases op)
  case (Register j name now)
  with assms show ?thesis
    by (cases "om_get m j"; cases "j = i") (auto simp: register_compartment_def intro: that)
next
  case (Transition j s reason force now)
  with assms show ?thesis
    by (cases "om_get m j"; cases "j = i"; cases "is_valid_transition (ci_state info) s")
      (auto simp: transition_state_def intro: that)
qed

lemma requested_Cons: "requested i (op # ops) = requested i [op] @ requested i ops"
  by (cases op) auto

lemma way_of_run:
  "list_all unforced ops \<Longrightarrow> om_get m i = Some info \<Longrightarrow>
   om_get (foldl machine_step m ops) i = Some info' \<Longrightarrow> ci_state info' = ACTIVE \<Longrightarrow>
   subseq (way_to_active (ci_state info)) (requested i ops)"
proof (induction ops arbitrary: m info)
  case (Cons op ops)
  from Cons.prems(1,2) obtain info1 where i1: "om_get (machine_step m op) i = Some info1"
    and s1: "ci_state info1 = ci_state info \<or>
      (\<exists>s. requested i [op] = [s] \<and> ci_state info1 = s \<and> is_valid_transition (ci_state info) s)"
    by (auto elim: step_state)
  have way: "subseq (way_to_active (ci_state info1)) (requested i ops)"
    using Cons.IH [OF _ i1] Cons.prems by simp
  from s1 show ?case
  proof
    assume "ci_state info1 = ci_state info"
    with way show ?case
      unfolding requested_Cons [of i op ops] by (simp add: list_emb_append2)
  next
    assume "\<exists>s. requested i [op] = [s] \<and> ci_state info1 = s \<and> is_valid_transition (ci_state info) s"
    then have r: "requested i [op] = [ci_state info1]" "is_valid_transition (ci_state info) (ci_state info1)"
      by auto
    have "subseq (ci_state info1 # way_to_active (ci_state info1)) (ci_state info1 # requested i ops)"
      using way by simp
    with way_step [OF r(2)] show ?case
      unfolding requested_Cons [of i op ops] r(1) append_Cons append_Nil
      by (rule subseq_order.order_trans)
  qed
qed simp

text \<open>
  C19. The way back from quarantine. Without the force flag a compartment never leaves the machine,
  and one that starts quarantined and ends active has been asked, in this order, to become
  isolated, monitored and active, whatever else was requested of it and of others in between.
\<close>

theorem quarantine_recovery:
  assumes "list_all unforced ops" "om_get m i = Some info" "ci_state info = QUARANTINED"
  shows "\<exists>info'. om_get (foldl machine_step m ops) i = Some info' \<and>
    (ci_state info' = ACTIVE \<longrightarrow> subseq [ISOLATED, MONITORED, ACTIVE] (requested i ops))"
proof -
  have "\<exists>info'. om_get (foldl machine_step m ops) i = Some info'"
    using assms(1,2)
  proof (induction ops arbitrary: m info)
    case (Cons op ops)
    then show ?case by (auto elim: step_state)
  qed simp
  then show ?thesis
    using way_of_run [OF assms(1,2)] assms(3) by fastforce
qed


theorem quarantine_recovery_witness:
  "let m = om_put ''x'' (no_compartment\<lparr>ci_state := QUARANTINED\<rparr>) om_empty;
       ask = (\<lambda>s. Transition ''x'' s ''drill'' False 7) in
   map_option ci_state (om_get (foldl machine_step m
     [ask ACTIVE, ask ISOLATED, ask ACTIVE, ask MONITORED, ask ACTIVE]) ''x'') = Some ACTIVE \<and>
   subseq [ISOLATED, MONITORED, ACTIVE] [ACTIVE, ISOLATED, ACTIVE, MONITORED, ACTIVE]"
  using quarantine_recovery [of "map (\<lambda>s. Transition ''x'' s ''drill'' False 7)
      [ACTIVE, ISOLATED, ACTIVE, MONITORED, ACTIVE]" "om_put ''x'' (no_compartment\<lparr>ci_state := QUARANTINED\<rparr>) om_empty" "''x''"]
  by (simp add: Let_def transition_state_def is_valid_transition_def)

end
