(* ===== verification/Runtime_Protocol.thy ===== *)
theory Runtime_Protocol
  imports Alcoa Posture Compartments
begin

text \<open>
  The runtime protocol: \<open>include/ailee/protocol/RuntimeProtocol.hpp\<close> and
  \<open>src/ailee/protocol/RuntimeProtocol.cpp\<close>. One call runs posture, interpretation and the approval
  gate and records the evidence in the ledger; the state is the gate's constitution, the ledger
  and the compartments.
\<close>

section \<open>State and operation\<close>

record runtime_protocol =
  rp_constitution :: constitution_rules
  rp_ledger :: "alcoa_entry list"
  rp_machine :: machine

record runtime_state =
  rt_version :: string
  rt_posture :: posture_result
  rt_interpretation :: interpretation_result
  rt_last_gate_decision :: gate_decision
  rt_last_ledger_entry :: alcoa_entry
  rt_healthy :: bool

definition new_protocol :: "u64 \<Rightarrow> runtime_protocol" where
  "new_protocol now = \<lparr>rp_constitution = new_constitution default_rules, rp_ledger = [],
     rp_machine = new_machine now\<rparr>"

definition interpretation_of :: "posture_input \<Rightarrow> interpretation_result" where
  "interpretation_of p =
     (let posture = evaluate_posture p in
      interpret_state \<lparr>ii_volatility = pi_recent_volatility p,
        ii_fee_rate = (case pr_canonical_signal_energy posture of Some e \<Rightarrow> e | None \<Rightarrow> pi_current_fee_rate p),
        ii_high_fee_band = pi_high_fee_band p,
        ii_block_lag_seconds = pi_time_since_last_block p,
        ii_coherence_score = pr_temporal_coherence_index posture\<rparr>)"

definition bound_factors :: "posture_input \<Rightarrow> approval_factors \<Rightarrow> approval_factors" where
  "bound_factors p factors =
     (let posture = evaluate_posture p in
      factors\<lparr>posture_score := pr_risk_score posture,
              temporal_coherence_index := pr_temporal_coherence_index posture\<rparr>)"

definition evidence_entry ::
    "posture_result \<Rightarrow> double \<Rightarrow> approval_factors \<Rightarrow> string \<Rightarrow> string \<Rightarrow> alcoa_entry" where
  "evidence_entry posture energy factors operator_id operator_sig =
     empty_entry\<lparr>ae_operator_id := operator_id, ae_system_id := ''ailee-v37-core'',
       ae_operator_signature := operator_sig, ae_human_readable_summary := pr_summary posture,
       ae_regime_label := pr_regime_id posture, ae_compartment_label := ''core-execution'',
       ae_epoch_id := 3700, ae_epoch_hash := ''0x'' @ pr_regime_id posture @ ''-hash-v37'',
       ae_source_system := ''AILEE-Trust-Layer-38.0.0'', ae_posture_regime_id := pr_regime_id posture,
       ae_posture_score := pr_risk_score posture,
       ae_zk_recursion_root :=
         (if zk_recursion_root factors = '''' then ''0x0000000000000000000000000000000000000000''
          else zk_recursion_root factors),
       ae_temporal_coherence_index := pr_temporal_coherence_index posture,
       ae_signal_energy := energy, ae_coherence_score := pr_temporal_coherence_index posture\<rparr>"

definition evaluate_and_record ::
    "(bytes \<Rightarrow> bytes) \<Rightarrow> (double \<Rightarrow> string) \<Rightarrow> u64 \<Rightarrow> posture_input \<Rightarrow> approval_factors \<Rightarrow> string \<Rightarrow>
     string \<Rightarrow> runtime_protocol \<Rightarrow> runtime_state \<times> runtime_protocol" where
  "evaluate_and_record sha fmt now p factors operator_id operator_sig rp =
     (let posture = evaluate_posture p;
          interp = interpretation_of p;
          decision = evaluate_factors (rp_constitution rp) (bound_factors p factors);
          state = \<lparr>rt_version = ''38.0.0'', rt_posture = posture, rt_interpretation = interp,
            rt_last_gate_decision = decision, rt_last_ledger_entry = empty_entry, rt_healthy = True\<rparr>
      in case pr_canonical_signal_energy posture of
           None \<Rightarrow> (state\<lparr>rt_healthy := False\<rparr>, rp)
         | Some energy \<Rightarrow>
             let ledger = snd (record_entry sha fmt now
                   (evidence_entry posture energy factors operator_id operator_sig) (rp_ledger rp))
             in (state\<lparr>rt_last_ledger_entry := get_latest_entry ledger,
                       rt_healthy := gd_approved decision \<and> ir_regime interp = NOMINAL\<rparr>,
                 rp\<lparr>rp_ledger := ledger\<rparr>))"

section \<open>What a decision rests on\<close>

lemma default_constitution:
  "rp_constitution (new_protocol now) = default_rules" "validate_rules default_rules"
  by (simp_all add: new_protocol_def new_constitution_def default_rules_def validate_rules_def literals)

lemma recorded_decision:
  "rt_last_gate_decision (fst (evaluate_and_record sha fmt now p f i sg rp)) =
     evaluate_factors (rp_constitution rp) (bound_factors p f)"
  "rt_healthy (fst (evaluate_and_record sha fmt now p f i sg rp)) \<longleftrightarrow>
     \<not> malformed p \<and> gd_approved (evaluate_factors (rp_constitution rp) (bound_factors p f)) \<and>
     ir_regime (interpretation_of p) = NOMINAL"
  by (auto simp: evaluate_and_record_def Let_def evaluate_posture_def split_beta split: option.splits)

lemma malformed_rejected:
  "validate_rules r \<Longrightarrow> d_rat (max_allowable_posture_score r) < 10 \<Longrightarrow> malformed p \<Longrightarrow>
   \<not> posture_passes r (bound_factors p f)"
  by (simp add: posture_passes_def bound_factors_def evaluate_posture_def validate_rules_def Let_def)

text \<open>How many of the four mild irregularities the telemetry shows.\<close>

definition irregularities :: "posture_input \<Rightarrow> nat" where
  "irregularities p =
     of_bool (max 1 (d_rat (pi_high_fee_band p)) < max 0 (d_rat (pi_current_fee_rate p))) +
     of_bool (1/2 < d_rat (pi_recent_volatility p)) +
     of_bool (\<bar>int (unat (pi_block_interval_avg p)) - 600\<bar> > 300) +
     of_bool (1800 < pi_time_since_last_block p)"

lemma calm_posture:
  assumes "\<not> malformed p"
  shows "d_rat (pr_risk_score (evaluate_posture p)) \<le> 5/2 \<Longrightarrow>
    irregularities p \<le> 1 \<and> d_rat (pi_recent_volatility p) \<le> d_rat (round_double (4/5))"
proof -
  let ?fee = "d_max (Fin 0) (pi_current_fee_rate p)" and ?band = "d_max (Fin 1) (pi_high_fee_band p)"
  let ?v = "clamp01 (pi_recent_volatility p)"
  have fin: "d_finite (pi_current_fee_rate p)" "d_finite (pi_high_fee_band p)"
      "d_finite (pi_recent_volatility p)"
    and nan: "pi_current_fee_rate p \<noteq> NaN" "pi_high_fee_band p \<noteq> NaN" "pi_recent_volatility p \<noteq> NaN"
    using assms by (auto simp: malformed_def)
  have score: "d_rat (pr_risk_score (evaluate_posture p)) =
      risk_score ?fee ?band ?v (pi_block_interval_avg p) (pi_time_since_last_block p)"
    using assms nan by (simp add: evaluate_posture_def Let_def split_beta)
  assume "d_rat (pr_risk_score (evaluate_posture p)) \<le> 5/2"
  then have low: "\<not> d_less (round_double (4/5)) ?v"
    "of_bool (d_less ?band ?fee) + of_bool (d_less (Fin (1/2)) ?v) +
     of_bool (\<bar>int (unat (pi_block_interval_avg p)) - 600\<bar> > 300) +
     of_bool (pi_time_since_last_block p > 1800) \<le> (1 :: nat)"
    unfolding score low_risk_score by blast+
  have "d_less ?band ?fee \<longleftrightarrow>
      max 1 (d_rat (pi_high_fee_band p)) < max 0 (d_rat (pi_current_fee_rate p))"
    using fin by simp
  moreover have "d_less (Fin (1/2)) ?v \<longleftrightarrow> 1/2 < d_rat (pi_recent_volatility p)"
    using fin by (auto simp: clamp01_def)
  moreover have "d_rat (pi_recent_volatility p) \<le> d_rat (round_double (4/5))"
    using low(1) fin by (auto simp: literals clamp01_def)
  ultimately show ?thesis using low(2) by (simp add: irregularities_def)
qed

text \<open>
  C20. What an approval of the default protocol rests on. Whatever numbers the caller puts into the
  posture fields of its request, the decision is the one for the measured posture. An approval
  implies finite telemetry with at most one of the four irregularities, a volatility of at most
  0.8, a measured coherence of at least 0.7 (as doubles), a quorum of three within the validator
  set, both signatures, and a consistent, well-formed, nonzero root. A healthy state implies an
  approval, a coherence above 0.3 and a block within the last half hour.
\<close>

theorem approval_rests_on_telemetry:
  fixes p :: posture_input and f :: approval_factors and rp :: runtime_protocol
    and sha :: "bytes \<Rightarrow> bytes" and fmt :: "double \<Rightarrow> string" and now :: u64 and i sg :: string
  defines "st \<equiv> fst (evaluate_and_record sha fmt now p f i sg rp)"
  assumes "rp_constitution rp = default_rules"
  shows "rt_last_gate_decision (fst (evaluate_and_record sha fmt now p
      (f\<lparr>posture_score := x, temporal_coherence_index := y\<rparr>) i sg rp)) = rt_last_gate_decision st
    \<and> (gd_approved (rt_last_gate_decision st) \<longrightarrow>
        \<not> malformed p \<and> irregularities p \<le> 1 \<and>
        d_rat (pi_recent_volatility p) \<le> d_rat (round_double (4/5)) \<and>
        d_rat (round_double (7/10)) \<le> d_rat (pi_signal_coherence p) \<and>
        3 \<le> quorum_count f \<and> quorum_count f \<le> total_validators f \<and>
        operator_signature_valid f \<and> system_signature_valid f \<and> zk_state_consistent f \<and>
        is_sha256_hex (zk_recursion_root f) \<and> zk_recursion_root f \<noteq> zero_root)
    \<and> (rt_healthy st \<longrightarrow> gd_approved (rt_last_gate_decision st) \<and> pi_time_since_last_block p \<le> 1800)"
proof (intro conjI impI)
  show "rt_last_gate_decision (fst (evaluate_and_record sha fmt now p
      (f\<lparr>posture_score := x, temporal_coherence_index := y\<rparr>) i sg rp)) = rt_last_gate_decision st"
    by (simp add: st_def recorded_decision bound_factors_def Let_def)
next
  assume "gd_approved (rt_last_gate_decision st)"
  then have ok: "quorum_passes default_rules (bound_factors p f)" "operator_ok default_rules (bound_factors p f)"
    "system_ok default_rules (bound_factors p f)" "zk_passes (bound_factors p f)"
    "posture_passes default_rules (bound_factors p f)" "coherence_passes default_rules (bound_factors p f)"
    by (simp_all add: st_def recorded_decision gate_fields assms(2))
  have fin: "\<not> malformed p"
    using ok(5) malformed_rejected [OF default_constitution(2), of p f] by (auto simp: default_rules_def)
  moreover have "d_rat (pr_risk_score (evaluate_posture p)) \<le> 5/2"
    using ok(5) posture_finite [OF fin]
    by (simp add: posture_passes_def bound_factors_def default_rules_def Let_def)
  note calm_posture [OF fin this]
  moreover have "d_rat (round_double (7/10)) \<le> d_rat (pi_signal_coherence p)"
  proof -
    have "pi_signal_coherence p \<noteq> NaN" "d_finite (pi_signal_coherence p)"
      using fin by (auto simp: malformed_def)
    then show ?thesis
      using ok(6) fin
      by (simp add: coherence_passes_def bound_factors_def default_rules_def evaluate_posture_def
          Let_def split_beta clamp01_def literals max_def min_def split: if_splits)
  qed
  ultimately show "\<not> malformed p" "irregularities p \<le> 1"
    "d_rat (pi_recent_volatility p) \<le> d_rat (round_double (4/5))"
    "d_rat (round_double (7/10)) \<le> d_rat (pi_signal_coherence p)"
    by simp_all
  show "3 \<le> quorum_count f" "quorum_count f \<le> total_validators f" "operator_signature_valid f"
    "system_signature_valid f" "zk_state_consistent f" "is_sha256_hex (zk_recursion_root f)"
    "zk_recursion_root f \<noteq> zero_root"
    using ok(1-4) by (simp_all add: quorum_passes_def operator_ok_def system_ok_def zk_passes_def
        root_non_zero_def bound_factors_def default_rules_def Let_def)
next
  assume h: "rt_healthy st"
  then show "gd_approved (rt_last_gate_decision st)"
    by (simp add: st_def recorded_decision)
  from h show "pi_time_since_last_block p \<le> 1800"
    by (auto simp: st_def recorded_decision interpretation_of_def interpret_state_def Let_def
        split: if_splits)
qed

section \<open>The ledger of a run\<close>

record runtime_call =
  rc_now :: u64
  rc_posture :: posture_input
  rc_factors :: approval_factors
  rc_operator :: string
  rc_signature :: string

definition run_call ::
    "(bytes \<Rightarrow> bytes) \<Rightarrow> (double \<Rightarrow> string) \<Rightarrow> runtime_protocol \<Rightarrow> runtime_call \<Rightarrow> runtime_protocol" where
  "run_call sha fmt rp c = snd (evaluate_and_record sha fmt (rc_now c) (rc_posture c) (rc_factors c)
     (rc_operator c) (rc_signature c) rp)"

definition signed_call :: "runtime_call \<Rightarrow> bool" where
  "signed_call c \<longleftrightarrow> rc_operator c \<noteq> '''' \<and> rc_signature c \<noteq> '''' \<and> rc_now c > 0"

lemma summary_nonempty: "summary_of x \<noteq> ''''"
  by (simp add: summary_of_def)

lemma regime_nonempty: "snd (classify_regime v c s k) \<noteq> ''''"
  by (simp add: classify_regime_def)

lemma evidence_ok:
  assumes "\<not> malformed p" "pr_canonical_signal_energy (evaluate_posture p) = Some e"
    "operator \<noteq> ''''" "signature \<noteq> ''''" "now > 0"
  shows "alcoa_ok ((evidence_entry (evaluate_posture p) e f operator signature)
    \<lparr>ae_timestamp_utc := now, ae_entry_id := ''x''\<rparr>)"
proof -
  have "d_finite e"
    using assms(1,2) by (auto simp: evaluate_posture_def malformed_def Let_def split_beta)
  moreover have "pr_summary (evaluate_posture p) \<noteq> ''''" "pr_regime_id (evaluate_posture p) \<noteq> ''''"
    using assms(1) by (auto simp: evaluate_posture_def Let_def split_beta summary_nonempty regime_nonempty)
  ultimately show ?thesis
    using posture_finite [OF assms(1)] assms(3-5)
    by (simp add: alcoa_ok_def evidence_entry_def empty_entry_def)
qed

lemma run_call_malformed: "malformed (rc_posture c) \<Longrightarrow> run_call sha fmt rp c = rp"
  by (simp add: run_call_def evaluate_and_record_def evaluate_posture_def Let_def)

lemma run_call_records:
  assumes "\<not> malformed (rc_posture c)"
  obtains e where "pr_canonical_signal_energy (evaluate_posture (rc_posture c)) = Some e"
    "run_call sha fmt rp c = rp\<lparr>rp_ledger := snd (record_entry sha fmt (rc_now c)
       (evidence_entry (evaluate_posture (rc_posture c)) e (rc_factors c) (rc_operator c) (rc_signature c))
       (rp_ledger rp))\<rparr>"
  using assms
  by (auto simp: run_call_def evaluate_and_record_def evaluate_posture_def Let_def split_beta)

lemma run_call_sound:
  assumes "signed_call c" "sound_chain sha fmt (rp_ledger rp)"
  shows "sound_chain sha fmt (rp_ledger (run_call sha fmt rp c))"
proof (cases "malformed (rc_posture c)")
  case False
  then obtain e where e: "pr_canonical_signal_energy (evaluate_posture (rc_posture c)) = Some e"
    and run: "run_call sha fmt rp c = rp\<lparr>rp_ledger := snd (record_entry sha fmt (rc_now c)
       (evidence_entry (evaluate_posture (rc_posture c)) e (rc_factors c) (rc_operator c) (rc_signature c))
       (rp_ledger rp))\<rparr>"
    by (rule run_call_records)
  have "ae_timestamp_utc (evidence_entry (evaluate_posture (rc_posture c)) e (rc_factors c)
      (rc_operator c) (rc_signature c)) = 0"
    "ae_parent_entry_id (evidence_entry (evaluate_posture (rc_posture c)) e (rc_factors c)
      (rc_operator c) (rc_signature c)) = ''''"
    by (simp_all add: evidence_entry_def empty_entry_def)
  moreover have "alcoa_ok ((evidence_entry (evaluate_posture (rc_posture c)) e (rc_factors c)
      (rc_operator c) (rc_signature c))\<lparr>ae_timestamp_utc := rc_now c, ae_entry_id := ''x''\<rparr>)"
    using evidence_ok [OF False e] assms(1) by (simp add: signed_call_def)
  ultimately show ?thesis
    unfolding run by (simp add: record_extends [OF assms(2)])
qed (simp add: assms run_call_malformed)

lemma record_length: "length (snd (record_entry sha fmt now e es)) = Suc (length es)"
  by (simp add: record_entry_def Let_def)

lemma run_call_length:
  "length (rp_ledger (run_call sha fmt rp c)) =
   length (rp_ledger rp) + of_bool (\<not> malformed (rc_posture c))"
proof (cases "malformed (rc_posture c)")
  case False
  then show ?thesis by (rule run_call_records [of c sha fmt rp]) (simp add: False record_length)
qed (simp add: run_call_malformed)

lemma run_call_frame:
  "rp_constitution (run_call sha fmt rp c) = rp_constitution rp \<and>
   rp_machine (run_call sha fmt rp c) = rp_machine rp"
proof (cases "malformed (rc_posture c)")
  case False
  then show ?thesis by (rule run_call_records [of c sha fmt rp]) simp
qed (simp add: run_call_malformed)

text \<open>What holds of the ledger survives every signed call, so it survives every run of them.\<close>

interpretation ledger_run:
  component "\<lambda>rp c. if signed_call c then run_call sha fmt rp c else rp"
    "\<lambda>rp. sound_chain sha fmt (rp_ledger rp)" for sha fmt
  by unfold_locales (auto intro: run_call_sound)

text \<open>
  C21. The ledger of the protocol. Over every sequence of calls that name an operator, carry a
  signature and read a positive clock, starting from the fresh protocol, the ledger is a chain of
  complete entries, each with the hash of its own content and the id of its predecessor, and
  \<open>verify_chain\<close> accepts it. It has exactly one entry per call with finite telemetry: malformed
  telemetry leaves no trace. The constitution and the compartments never change.
\<close>

theorem runtime_ledger_chain:
  fixes sha :: "bytes \<Rightarrow> bytes" and fmt :: "double \<Rightarrow> string" and now :: u64
  assumes "list_all signed_call calls"
  defines "rp \<equiv> foldl (run_call sha fmt) (new_protocol now) calls"
  shows "sound_chain sha fmt (rp_ledger rp) \<and> verify_chain sha fmt (rp_ledger rp) \<and>
    length (rp_ledger rp) = length (filter (\<lambda>c. \<not> malformed (rc_posture c)) calls) \<and>
    rp_constitution rp = default_rules \<and> rp_machine rp = new_machine now"
proof -
  have "foldl (run_call sha fmt) r cs =
      foldl (\<lambda>rp c. if signed_call c then run_call sha fmt rp c else rp) r cs"
    if "list_all signed_call cs" for r cs
    using that by (induction cs arbitrary: r) auto
  then have "sound_chain sha fmt (rp_ledger rp)"
    using ledger_run.run_inv [of sha fmt "new_protocol now" calls] assms
    by (simp add: new_protocol_def sound_chain_def)
  moreover have "length (rp_ledger (foldl (run_call sha fmt) r calls)) =
      length (rp_ledger r) + length (filter (\<lambda>c. \<not> malformed (rc_posture c)) calls)" for r
    by (induction calls arbitrary: r) (simp_all add: run_call_length)
  moreover have "rp_constitution (foldl (run_call sha fmt) r calls) = rp_constitution r"
    "rp_machine (foldl (run_call sha fmt) r calls) = rp_machine r" for r
    by (induction calls arbitrary: r) (simp_all add: run_call_frame)
  moreover have "rp_ledger (new_protocol now) = []" "rp_machine (new_protocol now) = new_machine now"
    by (simp_all add: new_protocol_def)
  ultimately show ?thesis
    by (simp add: rp_def verify_chain_sound default_constitution)
qed

section \<open>What the hash does not bind\<close>

lemma join_bars_Cons: "ss \<noteq> [] \<Longrightarrow> join_bars (s # ss) = s @ ''|'' @ join_bars ss"
  by (cases ss) simp_all

text \<open>Moving a separator from one field into the next leaves the hashed text as it was.\<close>

definition shift_operator :: "string \<Rightarrow> string \<Rightarrow> alcoa_entry \<Rightarrow> alcoa_entry" where
  "shift_operator a b e = e\<lparr>ae_operator_id := a, ae_system_id := b @ ''|'' @ ae_system_id e\<rparr>"

lemma shift_operator_hash:
  "ae_operator_id e = a @ ''|'' @ b \<Longrightarrow>
   compute_entry_hash sha fmt (shift_operator a b e) = compute_entry_hash sha fmt e"
  by (simp add: compute_entry_hash_def entry_fields_def join_bars_Cons shift_operator_def)

text \<open>
  The ledger does not protect the attribution of an entry. In any sound chain, an entry whose
  operator id contains the separator can be rewritten to name another operator (the part before
  the separator): its id stays, the chain stays sound, and \<open>verify_chain\<close> accepts it, whatever
  the hash function.
\<close>

theorem attribution_not_bound:
  fixes sha :: "bytes \<Rightarrow> bytes" and fmt :: "double \<Rightarrow> string"
  assumes "sound_chain sha fmt es" "k < length es" "ae_operator_id (es ! k) = a @ ''|'' @ b" "a \<noteq> ''''"
  defines "es' \<equiv> es[k := shift_operator a b (es ! k)]"
  shows "sound_chain sha fmt es' \<and> verify_chain sha fmt es' \<and>
    ae_operator_id (es' ! k) = a \<and> map ae_entry_id es' = map ae_entry_id es"
proof -
  let ?e = "shift_operator a b (es ! k)"
  have keep: "ae_entry_id ?e = ae_entry_id (es ! k)" "ae_parent_entry_id ?e = ae_parent_entry_id (es ! k)"
    by (simp_all add: shift_operator_def)
  have old: "sound_entry sha fmt (es ! k)"
    using assms(1,2) by (simp add: sound_chain_def list_all_length)
  then have "sound_entry sha fmt ?e"
    using shift_operator_hash [OF assms(3)] assms(4) keep(1)
    by (simp add: sound_entry_def alcoa_ok_def Let_def) (simp add: shift_operator_def)
  then have "list_all (sound_entry sha fmt) es'"
    using assms(1,2) by (simp add: es'_def sound_chain_def list_all_length nth_list_update)
  moreover have len: "length es' = length es" by (simp add: es'_def)
  moreover have same: "ae_entry_id (es' ! i) = ae_entry_id (es ! i)"
    "ae_parent_entry_id (es' ! i) = ae_parent_entry_id (es ! i)" if "i < length es" for i
    using that assms(2) keep by (auto simp: es'_def nth_list_update)
  have "linked zero_root es'"
    unfolding linked_iff
  proof (intro allI impI)
    fix i assume i: "i < length es'"
    then have "ae_parent_entry_id (es ! i) = (if i = 0 then zero_root else ae_entry_id (es ! (i - 1)))"
      using assms(1) unfolding sound_chain_def linked_iff len by blast
    with i show "ae_parent_entry_id (es' ! i) = (if i = 0 then zero_root else ae_entry_id (es' ! (i - 1)))"
      by (simp add: len same)
  qed
  ultimately have "sound_chain sha fmt es'"
    by (simp add: sound_chain_def)
  moreover have "map ae_entry_id es' = map ae_entry_id es"
    by (simp add: list_eq_iff_nth_eq len same)
  ultimately show ?thesis
    using assms(2) by (simp add: verify_chain_sound es'_def shift_operator_def)
qed

text \<open>A chain of two entries by the default protocol, the operator id of the second with a bar.\<close>

definition calm_input :: posture_input where
  "calm_input = \<lparr>pi_current_fee_rate = Fin 10, pi_high_fee_band = Fin 50, pi_recent_volatility = Fin (1/4),
     pi_block_interval_avg = 600, pi_time_since_last_block = 30, pi_daily_change_pct = Fin 1,
     pi_signal_coherence = Fin 1\<rparr>"

definition good_factors :: approval_factors where
  "good_factors = \<lparr>quorum_count = 3, total_validators = 4, operator_signature_valid = True,
     system_signature_valid = True, zk_state_consistent = True, posture_score = NaN,
     temporal_coherence_index = NaN, zk_recursion_root = ''0x'' @ replicate 64 (CHR ''1'')\<rparr>"

definition demo_calls :: "runtime_call list" where
  "demo_calls = [\<lparr>rc_now = 5, rc_posture = calm_input, rc_factors = good_factors,
       rc_operator = ''alice'', rc_signature = ''s1''\<rparr>,
     \<lparr>rc_now = 6, rc_posture = calm_input\<lparr>pi_recent_volatility := NaN\<rparr>, rc_factors = good_factors,
       rc_operator = ''alice'', rc_signature = ''s2''\<rparr>,
     \<lparr>rc_now = 9, rc_posture = calm_input, rc_factors = good_factors,
       rc_operator = ''bob|mallory'', rc_signature = ''s3''\<rparr>]"

theorem runtime_ledger_chain_witness:
  "\<forall>sha fmt. verify_chain sha fmt (rp_ledger (foldl (run_call sha fmt) (new_protocol 1) demo_calls)) \<and>
     length (rp_ledger (foldl (run_call sha fmt) (new_protocol 1) demo_calls)) = 2"
proof (intro allI)
  fix sha fmt
  show "verify_chain sha fmt (rp_ledger (foldl (run_call sha fmt) (new_protocol 1) demo_calls)) \<and>
     length (rp_ledger (foldl (run_call sha fmt) (new_protocol 1) demo_calls)) = 2"
    using runtime_ledger_chain [of demo_calls sha fmt 1]
    by (simp add: demo_calls_def signed_call_def malformed_def calm_input_def)
qed

lemma calm_posture_values:
  "\<not> malformed calm_input" "pr_risk_score (evaluate_posture calm_input) = Fin 0"
  "pr_temporal_coherence_index (evaluate_posture calm_input) = Fin 1"
  "pr_canonical_signal_energy (evaluate_posture calm_input) = Some (Fin 10)"
  "ir_regime (interpretation_of calm_input) = NOMINAL"
proof -
  have "d_mul (Fin 50) (Fin (3/2)) = Fin 75"
    by code_simp
  then show "\<not> malformed calm_input" "pr_risk_score (evaluate_posture calm_input) = Fin 0"
    "pr_temporal_coherence_index (evaluate_posture calm_input) = Fin 1"
    "pr_canonical_signal_energy (evaluate_posture calm_input) = Some (Fin 10)"
    "ir_regime (interpretation_of calm_input) = NOMINAL"
    by (simp_all add: calm_input_def malformed_def evaluate_posture_def risk_score_def clamp01_def
        d_max_def d_min_def literals interpretation_of_def interpret_state_def Let_def split_beta)
qed

lemma demo_root: "zk_passes (bound_factors calm_input good_factors)"
  by (simp add: zk_passes_def root_non_zero_def bound_factors_def good_factors_def is_sha256_hex_def
      zero_root_def hex_val_def numeral_eq_Suc Let_def)

lemma calm_approved: "gd_approved (evaluate_factors default_rules (bound_factors calm_input good_factors))"
  unfolding gate_fields
  using default_constitution(2) demo_root
  by (simp add: quorum_passes_def operator_ok_def system_ok_def posture_passes_def
      coherence_passes_def bound_factors_def calm_posture_values good_factors_def default_rules_def
      literals Let_def)

theorem approval_rests_on_telemetry_witness:
  "\<forall>sha fmt. gd_approved (rt_last_gate_decision (fst (evaluate_and_record sha fmt 5 calm_input
       (good_factors\<lparr>posture_score := Fin 9, temporal_coherence_index := Fin 0\<rparr>) ''op'' ''sig'' (new_protocol 1))))
     \<and> irregularities calm_input \<le> 1"
proof (intro allI)
  fix sha fmt
  let ?run = "\<lambda>f. rt_last_gate_decision (fst (evaluate_and_record sha fmt 5 calm_input f ''op'' ''sig'' (new_protocol 1)))"
  have "gd_approved (?run good_factors)"
    using calm_approved by (simp add: recorded_decision default_constitution)
  then show "gd_approved (?run (good_factors\<lparr>posture_score := Fin 9, temporal_coherence_index := Fin 0\<rparr>))
     \<and> irregularities calm_input \<le> 1"
    using approval_rests_on_telemetry [OF default_constitution(1), where sha = sha and fmt = fmt
        and now = 5 and p = calm_input and f = good_factors and i = "''op''" and sg = "''sig''"
        and x = "Fin 9" and y = "Fin 0" and now1 = 1] by simp
qed

theorem attribution_not_bound_witness:
  "\<forall>sha fmt. \<exists>es. verify_chain sha fmt es \<and> ae_operator_id (es ! 0) = ''bob'' \<and>
     ae_system_id (es ! 0) = ''mallory|ailee-v37-core''"
proof (intro allI)
  fix sha fmt
  let ?e = "evidence_entry (evaluate_posture calm_input) (Fin 10) good_factors ''bob|mallory'' ''sig''"
  let ?es = "snd (record_entry sha fmt 5 ?e [])"
  have e: "ae_timestamp_utc ?e = 0" "ae_parent_entry_id ?e = ''''" "ae_operator_id ?e = ''bob|mallory''"
    "ae_system_id ?e = ''ailee-v37-core''"
    by (simp_all add: evidence_entry_def empty_entry_def)
  have "sound_chain sha fmt ?es"
    using evidence_ok [OF calm_posture_values(1,4), of "''bob|mallory''" "''sig''" 5 good_factors]
    by (intro record_extends) (simp_all add: sound_chain_def e)
  moreover have es: "length ?es = 1" "ae_operator_id (?es ! 0) = ''bob'' @ ''|'' @ ''mallory''"
    "ae_system_id (?es ! 0) = ''ailee-v37-core''"
    by (simp_all add: record_entry_def Let_def e)
  ultimately have "verify_chain sha fmt (?es[0 := shift_operator ''bob'' ''mallory'' (?es ! 0)]) \<and>
      ae_operator_id (?es[0 := shift_operator ''bob'' ''mallory'' (?es ! 0)] ! 0) = ''bob''"
    using attribution_not_bound [of sha fmt ?es 0 "''bob''" "''mallory''"] by simp
  moreover have "ae_system_id (?es[0 := shift_operator ''bob'' ''mallory'' (?es ! 0)] ! 0) =
      ''mallory|ailee-v37-core''"
    using es by (simp add: shift_operator_def)
  ultimately show "\<exists>es. verify_chain sha fmt es \<and> ae_operator_id (es ! 0) = ''bob'' \<and>
     ae_system_id (es ! 0) = ''mallory|ailee-v37-core''" by blast
qed

end
