(* ===== verification/IStream.thy ===== *)
theory IStream
  imports Hex
begin

text \<open>
  The part of \<open>std::istringstream\<close> that the text formats of the repository use: the unread
  characters with the eof and fail bits, the extraction of characters, integers and quoted
  strings, \<open>std::getline\<close>, and the conversions \<open>std::stoi\<close> and \<open>std::stoull\<close>. An extraction takes
  the old value of its target, because a stream that is not good leaves it untouched. The lemmas
  say what is read back from a printed field: the field, and what follows it.
\<close>

section \<open>Streams\<close>

record istream =
  is_buf :: string
  is_eof :: bool
  is_fail :: bool

definition open_string :: "string \<Rightarrow> istream" where
  "open_string s = \<lparr>is_buf = s, is_eof = False, is_fail = False\<rparr>"

definition is_good :: "istream \<Rightarrow> bool" where
  "is_good s \<longleftrightarrow> \<not> is_eof s \<and> \<not> is_fail s"

text \<open>What a formatted extraction does first: give up on a bad stream, skip white space.\<close>

definition sentry :: "istream \<Rightarrow> istream" where
  "sentry s =
     (if \<not> is_good s then s\<lparr>is_fail := True\<rparr>
      else let b = dropWhile is_space (is_buf s) in
        if b = [] then \<lparr>is_buf = [], is_eof = True, is_fail = True\<rparr> else s\<lparr>is_buf := b\<rparr>)"

definition read_char :: "char \<Rightarrow> istream \<Rightarrow> char \<times> istream" where
  "read_char old s =
     (let s1 = sentry s in
      if is_fail s1 then (old, s1) else (hd (is_buf s1), s1\<lparr>is_buf := tl (is_buf s1)\<rparr>))"

text \<open>A character with white space not skipped.\<close>

definition read_raw :: "istream \<Rightarrow> char \<times> istream" where
  "read_raw s =
     (if \<not> is_good s then (CHR 0x00, s\<lparr>is_fail := True\<rparr>)
      else case is_buf s of
        [] \<Rightarrow> (CHR 0x00, s\<lparr>is_eof := True, is_fail := True\<rparr>)
      | c # cs \<Rightarrow> (c, s\<lparr>is_buf := cs\<rparr>))"

definition read_word :: "string \<Rightarrow> istream \<Rightarrow> string \<times> istream" where
  "read_word old s =
     (let s1 = sentry s in
      if is_fail s1 then (old, s1)
      else let b = is_buf s1; rest = dropWhile (\<lambda>c. \<not> is_space c) b in
        (takeWhile (\<lambda>c. \<not> is_space c) b, \<lparr>is_buf = rest, is_eof = (rest = []), is_fail = False\<rparr>))"

definition is_digit :: "char \<Rightarrow> bool" where
  "is_digit c = (let n = (of_char c :: nat) in 48 \<le> n \<and> n \<le> 57)"

definition dec_value :: "string \<Rightarrow> nat" where
  "dec_value ds = foldl (\<lambda>a c. 10 * a + (of_char c - 48)) 0 ds"

definition split_sign :: "string \<Rightarrow> bool \<times> string" where
  "split_sign b =
     (case b of
        [] \<Rightarrow> (False, [])
      | c # cs \<Rightarrow> if c = CHR ''-'' then (True, cs) else if c = CHR ''+'' then (False, cs) else (False, b))"

text \<open>Unsigned: out of range gives the largest value, a minus sign negates modulo the width.\<close>

definition read_unsigned :: "'a::len word \<Rightarrow> istream \<Rightarrow> 'a word \<times> istream" where
  "read_unsigned old s =
     (let s1 = sentry s in
      if is_fail s1 then (old, s1)
      else let (neg, b) = split_sign (is_buf s1); ds = takeWhile is_digit b;
               rest = dropWhile is_digit b; v = dec_value ds; e = (rest = []) in
        if ds = [] then (0, \<lparr>is_buf = rest, is_eof = e, is_fail = True\<rparr>)
        else if v \<ge> 2 ^ LENGTH('a) then (- 1, \<lparr>is_buf = rest, is_eof = e, is_fail = True\<rparr>)
        else (if neg then - of_nat v else of_nat v, \<lparr>is_buf = rest, is_eof = e, is_fail = False\<rparr>))"

definition int32_max :: int where "int32_max = 2147483647"
definition int32_min :: int where "int32_min = - 2147483648"

definition read_int :: "int \<Rightarrow> istream \<Rightarrow> int \<times> istream" where
  "read_int old s =
     (let s1 = sentry s in
      if is_fail s1 then (old, s1)
      else let (neg, b) = split_sign (is_buf s1); ds = takeWhile is_digit b;
               rest = dropWhile is_digit b; v = (if neg then - int (dec_value ds) else int (dec_value ds));
               e = (rest = []) in
        if ds = [] then (0, \<lparr>is_buf = rest, is_eof = e, is_fail = True\<rparr>)
        else if v < int32_min then (int32_min, \<lparr>is_buf = rest, is_eof = e, is_fail = True\<rparr>)
        else if v > int32_max then (int32_max, \<lparr>is_buf = rest, is_eof = e, is_fail = True\<rparr>)
        else (v, \<lparr>is_buf = rest, is_eof = e, is_fail = False\<rparr>))"

definition getline :: "char \<Rightarrow> string \<Rightarrow> istream \<Rightarrow> string \<times> istream" where
  "getline delim old s =
     (if \<not> is_good s then (old, s\<lparr>is_fail := True\<rparr>)
      else let b = is_buf s; line = takeWhile (\<lambda>c. c \<noteq> delim) b; rest = dropWhile (\<lambda>c. c \<noteq> delim) b in
        (line, \<lparr>is_buf = tl rest, is_eof = (rest = []), is_fail = (b = [])\<rparr>))"

text \<open>\<open>std::quoted\<close>: the body of a quoted string, with the backslash as escape.\<close>

fun quoted_body :: "string \<Rightarrow> string \<Rightarrow> string \<times> istream" where
  "quoted_body acc [] = (acc, \<lparr>is_buf = [], is_eof = True, is_fail = True\<rparr>)"
| "quoted_body acc (c # cs) =
     (if c = CHR 0x5C then
        (case cs of
           [] \<Rightarrow> (acc, \<lparr>is_buf = [], is_eof = True, is_fail = True\<rparr>)
         | d # ds \<Rightarrow> quoted_body (acc @ [d]) ds)
      else if c = CHR 0x22 then (acc, \<lparr>is_buf = cs, is_eof = False, is_fail = False\<rparr>)
      else quoted_body (acc @ [c]) cs)"

definition read_quoted :: "string \<Rightarrow> istream \<Rightarrow> string \<times> istream" where
  "read_quoted old s =
     (let (c, s1) = read_char (CHR 0x00) s in
      if \<not> is_good s1 then (old, s1)
      else if c \<noteq> CHR 0x22 then read_word old (s1\<lparr>is_buf := c # is_buf s1\<rparr>)
      else quoted_body [] (is_buf s1))"

definition quoted :: "string \<Rightarrow> string" where
  "quoted s = CHR 0x22 #
     concat (map (\<lambda>c. if c = CHR 0x22 \<or> c = CHR 0x5C then [CHR 0x5C, c] else [c]) s) @ [CHR 0x22]"

text \<open>Extraction under a condition: \<open>if (!(iss >> a && ...)) return nullopt\<close>.\<close>

definition guarded :: "('a \<times> istream) \<Rightarrow> ('a \<Rightarrow> istream \<Rightarrow> 'b option) \<Rightarrow> 'b option" where
  "guarded p k = (if is_fail (snd p) then None else k (fst p) (snd p))"

section \<open>Conversions of strings\<close>

text \<open>\<open>std::stoi\<close> and \<open>std::stoull\<close>: \<open>None\<close> is the exception.\<close>

definition stoi :: "string \<Rightarrow> int option" where
  "stoi str =
     (let (neg, b) = split_sign (dropWhile is_space str); ds = takeWhile is_digit b;
          v = (if neg then - int (dec_value ds) else int (dec_value ds)) in
      if ds = [] \<or> v < int32_min \<or> int32_max < v then None else Some v)"

definition stoull :: "string \<Rightarrow> u64 option" where
  "stoull str =
     (let (neg, b) = split_sign (dropWhile is_space str); ds = takeWhile is_digit b;
          v = dec_value ds in
      if ds = [] \<or> 2 ^ 64 \<le> v then None else Some (if neg then - of_nat v else of_nat v))"

definition to_dec_int :: "int \<Rightarrow> string" where
  "to_dec_int i = (if i < 0 then CHR ''-'' # to_dec (nat (- i)) else to_dec (nat i))"

section \<open>Reading back what was printed\<close>

lemma code_digit_char: "d < 10 \<Longrightarrow> (of_char (digit_char d) :: nat) = 48 + d"
  by (simp add: digit_char_def)

lemma digit_char_digit: "d < 10 \<Longrightarrow> is_digit (digit_char d)"
  by (simp add: is_digit_def code_digit_char Let_def)

lemma digit_plain: "is_digit c \<Longrightarrow> \<not> is_space c \<and> c \<noteq> CHR ''-'' \<and> c \<noteq> CHR ''+'' \<and> c \<noteq> CHR ''|''"
  by (auto simp: is_digit_def is_space_def Let_def)

lemma to_dec_digits: "list_all is_digit (to_dec n)"
proof (induction n rule: less_induct)
  case (less n)
  show ?case
    using less.IH [of "n div 10"] by (subst to_dec.simps) (simp add: digit_char_digit)
qed

lemma dec_value_snoc: "dec_value (ds @ [c]) = 10 * dec_value ds + (of_char c - 48)"
  by (simp add: dec_value_def)

lemma dec_value_append: "dec_value (xs @ ys) = dec_value xs * 10 ^ length ys + dec_value ys"
proof (induction ys rule: rev_induct)
  case (snoc y ys)
  have "dec_value (xs @ ys @ [y]) = 10 * dec_value (xs @ ys) + (of_char y - 48)"
    using dec_value_snoc [of "xs @ ys" y] by simp
  with snoc show ?case by (simp add: dec_value_snoc algebra_simps)
qed (simp add: dec_value_def)

lemma dec_value_zeros: "dec_value (replicate k CHR ''0'') = 0"
  by (induction k) (simp_all add: dec_value_def)

lemma dec_value_to_dec [simp]: "dec_value (to_dec n) = n"
proof (induction n rule: less_induct)
  case (less n)
  show ?case
  proof (cases "n < 10")
    case True
    then show ?thesis
      by (subst to_dec.simps) (simp add: dec_value_def code_digit_char)
  next
    case False
    then have "dec_value (to_dec (n div 10)) = n div 10" by (intro less.IH) simp
    with False show ?thesis
      by (subst to_dec.simps) (simp add: dec_value_snoc code_digit_char)
  qed
qed

text \<open>A number ends where no digit follows.\<close>

definition ends_number :: "string \<Rightarrow> bool" where
  "ends_number rest \<longleftrightarrow> rest = [] \<or> \<not> is_digit (hd rest)"

lemma ends_number_simps [simp]:
  "ends_number []" "ends_number (c # cs) \<longleftrightarrow> \<not> is_digit c"
  by (simp_all add: ends_number_def)

lemma takeWhile_digits:
  assumes "list_all is_digit ds" "ends_number rest"
  shows "takeWhile is_digit (ds @ rest) = ds \<and> dropWhile is_digit (ds @ rest) = rest"
  using assms by (induction ds) (auto simp: ends_number_def dropWhile_eq_self_iff takeWhile_eq_Nil_iff)

lemma digits_to_dec [simp]:
  assumes "ends_number rest"
  shows "takeWhile is_digit (to_dec n @ rest) = to_dec n" "dropWhile is_digit (to_dec n @ rest) = rest"
  using takeWhile_digits [OF to_dec_digits assms] by auto

lemma takeWhile_to_dec [simp]: "takeWhile is_digit (to_dec n) = to_dec n"
  using to_dec_digits [of n] by (simp add: list_all_iff)

lemma to_dec_head: "\<exists>d ds. to_dec n = d # ds \<and> is_digit d"
  using to_dec_digits [of n] to_dec_nonempty [of n] by (cases "to_dec n") auto

lemma split_sign_to_dec [simp]: "split_sign (to_dec n @ rest) = (False, to_dec n @ rest)"
  using to_dec_head [of n] by (auto simp: split_sign_def dest: digit_plain)

lemma drop_space_to_dec [simp]:
  "list_all is_space ws \<Longrightarrow> dropWhile is_space (ws @ to_dec n @ rest) = to_dec n @ rest"
  using to_dec_head [of n] by (induction ws) (auto dest: digit_plain)

lemma read_unsigned_shown:
  assumes "list_all is_space ws" "ends_number rest"
  shows "read_unsigned old \<lparr>is_buf = ws @ to_dec (unat (w :: 'a::len word)) @ rest, is_eof = False, is_fail = False\<rparr> =
    (w, \<lparr>is_buf = rest, is_eof = (rest = []), is_fail = False\<rparr>)"
  using assms unat_bound [of w]
  by (simp add: read_unsigned_def sentry_def is_good_def Let_def not_le)

lemma read_int_shown:
  assumes "list_all is_space ws" "ends_number rest" "0 \<le> i" "i \<le> int32_max"
  shows "read_int old \<lparr>is_buf = ws @ to_dec_int i @ rest, is_eof = False, is_fail = False\<rparr> =
    (i, \<lparr>is_buf = rest, is_eof = (rest = []), is_fail = False\<rparr>)"
  using assms by (simp add: read_int_def to_dec_int_def sentry_def is_good_def Let_def int32_min_def)

lemma stoi_shown: "0 \<le> i \<Longrightarrow> i \<le> int32_max \<Longrightarrow> stoi (to_dec_int i) = Some i"
  using drop_space_to_dec [of "[]" "nat i" "[]"] split_sign_to_dec [of "nat i" "[]"]
  by (simp add: stoi_def to_dec_int_def Let_def int32_min_def)

lemma stoull_shown: "stoull (to_dec (unat w)) = Some w"
  using drop_space_to_dec [of "[]" "unat w" "[]"] split_sign_to_dec [of "unat w" "[]"]
    unat_bound [of w]
  by (simp add: stoull_def Let_def not_le)

lemma takeWhile_field:
  "d \<notin> set field \<Longrightarrow> takeWhile (\<lambda>c. c \<noteq> d) (field @ d # rest) = field"
  "d \<notin> set field \<Longrightarrow> dropWhile (\<lambda>c. c \<noteq> d) (field @ d # rest) = d # rest"
  by (induction field) auto

lemma takeWhile_last:
  "d \<notin> set field \<Longrightarrow> takeWhile (\<lambda>c. c \<noteq> d) field = field"
  "d \<notin> set field \<Longrightarrow> dropWhile (\<lambda>c. c \<noteq> d) field = []"
  by (induction field) auto

lemma getline_field:
  assumes "d \<notin> set field"
  shows "getline d old \<lparr>is_buf = field @ d # rest, is_eof = False, is_fail = False\<rparr> =
    (field, \<lparr>is_buf = rest, is_eof = False, is_fail = False\<rparr>)"
  by (simp add: getline_def is_good_def takeWhile_field [OF assms])

lemma getline_last:
  "getline d old \<lparr>is_buf = b, is_eof = False, is_fail = False\<rparr> =
    (takeWhile (\<lambda>c. c \<noteq> d) b,
     \<lparr>is_buf = tl (dropWhile (\<lambda>c. c \<noteq> d) b), is_eof = (d \<notin> set b), is_fail = (b = [])\<rparr>)"
  by (auto simp: getline_def is_good_def)

lemma read_char_plain:
  "\<not> is_space c \<Longrightarrow> read_char old \<lparr>is_buf = c # cs, is_eof = False, is_fail = False\<rparr> =
     (c, \<lparr>is_buf = cs, is_eof = False, is_fail = False\<rparr>)"
  by (simp add: read_char_def sentry_def is_good_def)

lemma quoted_body_escaped:
  "quoted_body acc (concat (map (\<lambda>c. if c = CHR 0x22 \<or> c = CHR 0x5C then [CHR 0x5C, c] else [c]) s)
     @ CHR 0x22 # rest) = (acc @ s, \<lparr>is_buf = rest, is_eof = False, is_fail = False\<rparr>)"
  by (induction s arbitrary: acc) auto

lemma read_quoted_shown:
  assumes "list_all is_space ws"
  shows "read_quoted old \<lparr>is_buf = ws @ quoted s @ rest, is_eof = False, is_fail = False\<rparr> =
    (s, \<lparr>is_buf = rest, is_eof = False, is_fail = False\<rparr>)"
proof -
  have "dropWhile is_space (ws @ quoted s @ rest) = quoted s @ rest"
    using assms by (induction ws) (auto simp: quoted_def is_space_def)
  then show ?thesis
    using quoted_body_escaped [of "[]" s rest]
    by (simp add: read_quoted_def read_char_def sentry_def is_good_def Let_def) (simp add: quoted_def)
qed

lemma guarded_simps [simp]:
  "guarded (v, \<lparr>is_buf = b, is_eof = e, is_fail = f\<rparr>) k =
     (if f then None else k v \<lparr>is_buf = b, is_eof = e, is_fail = f\<rparr>)"
  by (simp add: guarded_def)

end
