(* ===== verification/Reorg.thy ===== *)
theory Reorg
  imports IStream OMap
begin

text \<open>
  The reorganisation detector: \<open>include/ReorgDetector.h\<close> and \<open>src/l1/ReorgDetector.cpp\<close>. It keeps
  block hashes, anchor records and the history of reorganisations as text in a RocksDB store.
  The store is the parameter \<open>kv\<close>: a read, an atomic batch of writes, and an iterator started
  at a key (RocksDB iterators see the store as it was when they were made). Every method is
  here, with the errors of the store as branches.
\<close>

section \<open>The store\<close>

datatype kv_read = Found string | NotFound | ReadError

datatype kv_write = Put string string | Delete string

record 'db kv =
  kv_get :: "'db \<Rightarrow> string \<Rightarrow> kv_read"
  kv_write :: "'db \<Rightarrow> kv_write list \<Rightarrow> bool \<times> 'db"
  kv_seek :: "'db \<Rightarrow> string \<Rightarrow> (string \<times> string) list"
  kv_get_rep :: "'db \<Rightarrow> string \<Rightarrow> kv_read"
  kv_put_rep :: "'db \<Rightarrow> string \<Rightarrow> string \<Rightarrow> bool \<times> 'db"

text \<open>The loop \<open>for (Seek(prefix); Valid() && key has prefix; Next())\<close>.\<close>

definition kv_scan :: "'db kv \<Rightarrow> 'db \<Rightarrow> string \<Rightarrow> (string \<times> string) list" where
  "kv_scan K db prefix = takeWhile (\<lambda>(k, _). take (length prefix) k = prefix) (kv_seek K db prefix)"

section \<open>Records and keys\<close>

datatype anchor_status = PENDING | CONFIRMED | INVALIDATED_REORG | FAILED_ORPHANED | OtherStatus int

fun anchor_status_code :: "anchor_status \<Rightarrow> int" where
  "anchor_status_code PENDING = 0"
| "anchor_status_code CONFIRMED = 1"
| "anchor_status_code INVALIDATED_REORG = 2"
| "anchor_status_code FAILED_ORPHANED = 3"
| "anchor_status_code (OtherStatus i) = i"

text \<open>\<open>static_cast<AnchorStatus>(int)\<close>: an enumeration can hold any value of its type.\<close>

definition anchor_status_of :: "int \<Rightarrow> anchor_status" where
  "anchor_status_of i =
     (if i = 0 then PENDING else if i = 1 then CONFIRMED else if i = 2 then INVALIDATED_REORG
      else if i = 3 then FAILED_ORPHANED else OtherStatus i)"

record anchor_record =
  an_anchorHash :: string
  an_bitcoinTxId :: string
  an_bitcoinHeight :: u64
  an_confirmations :: u64
  an_broadcastTime :: u64
  an_retryCount :: u32
  an_status :: anchor_status
  an_l2StateRoot :: string

record reorg_event =
  rv_reorgHeight :: u64
  rv_oldBlockHash :: string
  rv_newBlockHash :: string
  rv_detectedAtTime :: u64
  rv_invalidatedAnchors :: "string list"

text \<open>\<open>std::setw(20) << std::setfill('0')\<close>.\<close>

definition pad20 :: "string \<Rightarrow> string" where
  "pad20 s = replicate (20 - length s) CHR ''0'' @ s"

definition makeBlockKey :: "u64 \<Rightarrow> string" where
  "makeBlockKey height = ''block:'' @ pad20 (to_dec (unat height))"

definition makeAnchorKey :: "string \<Rightarrow> string" where
  "makeAnchorKey anchorHash = ''anchor:'' @ anchorHash"

definition makeReorgEventKey :: "u64 \<Rightarrow> string" where
  "makeReorgEventKey eventId = ''reorg:'' @ pad20 (to_dec (unat eventId))"

definition parseHeightFromKey :: "string \<Rightarrow> u64 option" where
  "parseHeightFromKey key =
     (if length key \<le> length ''block:'' then None else stoull (drop (length ''block:'') key))"

section \<open>Text images\<close>

abbreviation bar :: string where "bar \<equiv> ''|''"

definition serializeAnchor :: "anchor_record \<Rightarrow> string" where
  "serializeAnchor a =
     an_anchorHash a @ bar @ an_bitcoinTxId a @ bar @ to_dec (unat (an_bitcoinHeight a)) @ bar @
     to_dec (unat (an_confirmations a)) @ bar @ to_dec (unat (an_broadcastTime a)) @ bar @
     to_dec (unat (an_retryCount a)) @ bar @ to_dec_int (anchor_status_code (an_status a)) @ bar @
     an_l2StateRoot a"

definition deserializeAnchor :: "string \<Rightarrow> anchor_record option" where
  "deserializeAnchor data =
     guarded (getline CHR ''|'' [] (open_string data)) (\<lambda>anchorHash s.
     guarded (getline CHR ''|'' [] s) (\<lambda>bitcoinTxId s.
     guarded (read_unsigned 0 s) (\<lambda>bitcoinHeight s. guarded (read_char CHR 0x00 s) (\<lambda>_ s.
     guarded (read_unsigned 0 s) (\<lambda>confirmations s. guarded (read_char CHR 0x00 s) (\<lambda>_ s.
     guarded (read_unsigned 0 s) (\<lambda>broadcastTime s. guarded (read_char CHR 0x00 s) (\<lambda>_ s.
     guarded (read_unsigned 0 s) (\<lambda>retryCount s. guarded (read_char CHR 0x00 s) (\<lambda>_ s.
     guarded (getline CHR ''|'' [] s) (\<lambda>statusStr s.
     guarded (getline CHR 0x0A [] s) (\<lambda>l2StateRoot s.
       case stoi statusStr of
         None \<Rightarrow> None
       | Some i \<Rightarrow> Some \<lparr>an_anchorHash = anchorHash, an_bitcoinTxId = bitcoinTxId,
           an_bitcoinHeight = bitcoinHeight, an_confirmations = confirmations,
           an_broadcastTime = broadcastTime, an_retryCount = retryCount,
           an_status = anchor_status_of i, an_l2StateRoot = l2StateRoot\<rparr>))))))))))))"

definition serializeReorgEvent :: "reorg_event \<Rightarrow> string" where
  "serializeReorgEvent e =
     to_dec (unat (rv_reorgHeight e)) @ bar @ rv_oldBlockHash e @ bar @ rv_newBlockHash e @ bar @
     to_dec (unat (rv_detectedAtTime e)) @ bar @ to_dec (length (rv_invalidatedAnchors e)) @
     concat (map (\<lambda>anchor. bar @ anchor) (rv_invalidatedAnchors e))"

text \<open>
  The loop that reads the invalidated anchors: \<open>i\<close> is how many are still to be read. The second
  attempt is for a last item on which the stream has ended.
\<close>

fun read_anchors :: "nat \<Rightarrow> string list \<Rightarrow> istream \<Rightarrow> string list option" where
  "read_anchors 0 acc s = Some acc"
| "read_anchors (Suc i) acc s =
     (let (_, s1) = read_char CHR 0x00 s;
          (h, s2) = (if is_fail s1 then ([], s1) else getline CHR ''|'' [] s1) in
      if \<not> is_fail s2 then read_anchors i (acc @ [h]) s2
      else if i = 0 \<and> is_eof s2 then
        (let (w, s3) = read_word h (s2\<lparr>is_eof := False, is_fail := False\<rparr>)
         in read_anchors i (acc @ [w]) s3)
      else None)"

definition deserializeReorgEvent :: "string \<Rightarrow> reorg_event option" where
  "deserializeReorgEvent data =
     guarded (read_unsigned 0 (open_string data)) (\<lambda>reorgHeight s.
     guarded (read_char CHR 0x00 s) (\<lambda>_ s.
     guarded (getline CHR ''|'' [] s) (\<lambda>oldBlockHash s.
     guarded (getline CHR ''|'' [] s) (\<lambda>newBlockHash s.
     guarded (read_unsigned 0 s) (\<lambda>detectedAtTime s. guarded (read_char CHR 0x00 s) (\<lambda>_ s.
     guarded (read_unsigned (0 :: u64) s) (\<lambda>anchorCount s.
       map_option (\<lambda>anchors. \<lparr>rv_reorgHeight = reorgHeight, rv_oldBlockHash = oldBlockHash,
           rv_newBlockHash = newBlockHash, rv_detectedAtTime = detectedAtTime,
           rv_invalidatedAnchors = anchors\<rparr>)
         (read_anchors (unat anchorCount) [] s))))))))"

section \<open>The detector\<close>

text \<open>
  The open store (or none, before \<open>initialize\<close> and after \<open>close\<close>), whether a callback is set and
  the events it has been called with. The texts of error messages are left out; \<open>std::stoull\<close>'s
  exceptions are caught by the code and are the \<open>None\<close> branches.
\<close>

record 'db reorg_detector =
  rd_confirmationThreshold :: u64
  rd_maxAnchorPendingTime :: u64
  rd_db :: "'db option"
  rd_callback :: bool
  rd_delivered :: "reorg_event list"

definition new_detector :: "u64 \<Rightarrow> u64 \<Rightarrow> 'db reorg_detector" where
  "new_detector threshold maxPending = \<lparr>rd_confirmationThreshold = threshold,
     rd_maxAnchorPendingTime = maxPending, rd_db = None, rd_callback = False, rd_delivered = []\<rparr>"

text \<open>
  What RocksDB answers is given: the first attempt to open with both column families, the plain
  open that creates the database, and the second attempt after the family was created.
\<close>

definition initialize_db ::
    "'db option \<Rightarrow> 'db option \<Rightarrow> 'db option \<Rightarrow> 'db reorg_detector \<Rightarrow> bool \<times> 'db reorg_detector" where
  "initialize_db first plain second d =
     (let opened = (case first of Some db \<Rightarrow> Some db
                    | None \<Rightarrow> (case plain of None \<Rightarrow> None | Some _ \<Rightarrow> second)) in
      case opened of None \<Rightarrow> (False, d) | Some db \<Rightarrow> (True, d\<lparr>rd_db := Some db\<rparr>))"

definition close_db :: "'db reorg_detector \<Rightarrow> 'db reorg_detector" where
  "close_db d = d\<lparr>rd_db := None\<rparr>"

definition setReorgCallback :: "bool \<Rightarrow> 'db reorg_detector \<Rightarrow> 'db reorg_detector" where
  "setReorgCallback on d = d\<lparr>rd_callback := on\<rparr>"

definition db_write ::
    "'db kv \<Rightarrow> kv_write list \<Rightarrow> 'db reorg_detector \<Rightarrow> bool \<times> 'db reorg_detector" where
  "db_write K ws d =
     (case rd_db d of
        None \<Rightarrow> (False, d)
      | Some db \<Rightarrow> (let (ok, db1) = kv_write K db ws in (ok, d\<lparr>rd_db := Some db1\<rparr>)))"

definition trackBlock ::
    "'db kv \<Rightarrow> u64 \<Rightarrow> string \<Rightarrow> 'db reorg_detector \<Rightarrow> bool \<times> 'db reorg_detector" where
  "trackBlock K height blockHash d = db_write K [Put (makeBlockKey height) blockHash] d"

definition registerAnchor ::
    "'db kv \<Rightarrow> anchor_record \<Rightarrow> 'db reorg_detector \<Rightarrow> bool \<times> 'db reorg_detector" where
  "registerAnchor K a d = db_write K [Put (makeAnchorKey (an_anchorHash a)) (serializeAnchor a)] d"

definition getAnchorStatus :: "'db kv \<Rightarrow> string \<Rightarrow> 'db reorg_detector \<Rightarrow> anchor_record option" where
  "getAnchorStatus K anchorHash d =
     (case rd_db d of
        None \<Rightarrow> None
      | Some db \<Rightarrow> (case kv_get K db (makeAnchorKey anchorHash) of
          NotFound \<Rightarrow> None | ReadError \<Rightarrow> None | Found v \<Rightarrow> deserializeAnchor v))"

definition getBlockHashAtHeight :: "'db kv \<Rightarrow> u64 \<Rightarrow> 'db reorg_detector \<Rightarrow> string option" where
  "getBlockHashAtHeight K height d =
     (case rd_db d of
        None \<Rightarrow> None
      | Some db \<Rightarrow> (case kv_get K db (makeBlockKey height) of
          NotFound \<Rightarrow> None | ReadError \<Rightarrow> None | Found v \<Rightarrow> Some v))"

definition updateAnchorConfirmations ::
    "'db kv \<Rightarrow> string \<Rightarrow> u64 \<Rightarrow> 'db reorg_detector \<Rightarrow> bool \<times> 'db reorg_detector" where
  "updateAnchorConfirmations K anchorHash confirmations d =
     (case getAnchorStatus K anchorHash d of
        None \<Rightarrow> (False, d)
      | Some a \<Rightarrow>
          (let a1 = a\<lparr>an_confirmations := confirmations\<rparr>;
               a2 = (if rd_confirmationThreshold d \<le> confirmations \<and> an_status a1 = PENDING
                     then a1\<lparr>an_status := CONFIRMED\<rparr> else a1)
           in registerAnchor K a2 d))"

definition updateAnchorStatus ::
    "'db kv \<Rightarrow> string \<Rightarrow> anchor_status \<Rightarrow> 'db reorg_detector \<Rightarrow> bool \<times> 'db reorg_detector" where
  "updateAnchorStatus K anchorHash newStatus d =
     (case getAnchorStatus K anchorHash d of
        None \<Rightarrow> (False, d)
      | Some a \<Rightarrow> registerAnchor K (a\<lparr>an_status := newStatus\<rparr>) d)"

text \<open>The loop body of \<open>handleReorg\<close> on one entry of the iterator.\<close>

definition invalidate_entry ::
    "'db kv \<Rightarrow> u64 \<Rightarrow> string list \<times> 'db reorg_detector \<Rightarrow> string \<times> string \<Rightarrow> string list \<times> 'db reorg_detector" where
  "invalidate_entry K reorgHeight = (\<lambda>(inv, d) (k, v).
     case deserializeAnchor v of
       None \<Rightarrow> (inv, d)
     | Some a \<Rightarrow>
         if reorgHeight \<le> an_bitcoinHeight a \<and> an_status a \<noteq> INVALIDATED_REORG
         then let a1 = a\<lparr>an_status := INVALIDATED_REORG, an_confirmations := 0\<rparr>
              in (inv @ [an_anchorHash a1], snd (registerAnchor K a1 d))
         else (inv, d))"

definition handleReorg ::
    "'db kv \<Rightarrow> u64 \<Rightarrow> 'db reorg_detector \<Rightarrow> string list \<times> 'db reorg_detector" where
  "handleReorg K reorgHeight d =
     (case rd_db d of
        None \<Rightarrow> ([], d)
      | Some db \<Rightarrow> foldl (invalidate_entry K reorgHeight) ([], d) (kv_scan K db ''anchor:''))"

definition storeReorgEvent ::
    "'db kv \<Rightarrow> reorg_event \<Rightarrow> 'db reorg_detector \<Rightarrow> bool \<times> 'db reorg_detector" where
  "storeReorgEvent K event d =
     (case rd_db d of
        None \<Rightarrow> (False, d)
      | Some db \<Rightarrow>
          (let counter = (case kv_get K db ''reorg_counter'' of
                 Found s \<Rightarrow> (case stoull s of Some n \<Rightarrow> n | None \<Rightarrow> 0) | _ \<Rightarrow> 0)
           in db_write K [Put (makeReorgEventKey counter) (serializeReorgEvent event),
                          Put ''reorg_counter'' (to_dec (unat (counter + 1)))] d))"

definition detectReorg ::
    "'db kv \<Rightarrow> u64 \<Rightarrow> string \<Rightarrow> u64 \<Rightarrow> 'db reorg_detector \<Rightarrow> reorg_event option \<times> 'db reorg_detector" where
  "detectReorg K height newBlockHash timestamp d =
     (case rd_db d of
        None \<Rightarrow> (None, d)
      | Some db \<Rightarrow> (case kv_get K db (makeBlockKey height) of
          NotFound \<Rightarrow> (None, snd (trackBlock K height newBlockHash d))
        | ReadError \<Rightarrow> (None, d)
        | Found oldBlockHash \<Rightarrow>
            if oldBlockHash \<noteq> newBlockHash then
              (let (invalidated, d1) = handleReorg K height d;
                   event = \<lparr>rv_reorgHeight = height, rv_oldBlockHash = oldBlockHash,
                     rv_newBlockHash = newBlockHash, rv_detectedAtTime = timestamp,
                     rv_invalidatedAnchors = invalidated\<rparr>;
                   d2 = snd (storeReorgEvent K event d1);
                   d3 = snd (trackBlock K height newBlockHash d2);
                   d4 = (if rd_callback d3 then d3\<lparr>rd_delivered := rd_delivered d3 @ [event]\<rparr> else d3)
               in (Some event, d4))
            else (None, d)))"

section \<open>Queries and pruning\<close>

definition stored_anchors :: "'db kv \<Rightarrow> 'db reorg_detector \<Rightarrow> anchor_record list" where
  "stored_anchors K d =
     (case rd_db d of
        None \<Rightarrow> []
      | Some db \<Rightarrow> List.map_filter (\<lambda>(k, v). deserializeAnchor v) (kv_scan K db ''anchor:''))"

definition getOrphanedAnchors :: "'db kv \<Rightarrow> u64 \<Rightarrow> 'db reorg_detector \<Rightarrow> anchor_record list" where
  "getOrphanedAnchors K currentTime d =
     filter (\<lambda>a. an_status a = PENDING \<and>
         rd_maxAnchorPendingTime d < currentTime - an_broadcastTime a \<and> an_confirmations a = 0)
       (stored_anchors K d)"

definition getAnchorsByStatus :: "'db kv \<Rightarrow> anchor_status \<Rightarrow> 'db reorg_detector \<Rightarrow> anchor_record list" where
  "getAnchorsByStatus K status d = filter (\<lambda>a. an_status a = status) (stored_anchors K d)"

definition getRecentReorgHistory :: "'db kv \<Rightarrow> nat \<Rightarrow> 'db reorg_detector \<Rightarrow> reorg_event list" where
  "getRecentReorgHistory K maxEvents d =
     (case rd_db d of
        None \<Rightarrow> []
      | Some db \<Rightarrow>
          (let allEvents = List.map_filter (\<lambda>(k, v).
                 case deserializeReorgEvent v of
                   None \<Rightarrow> None
                 | Some e \<Rightarrow> map_option (\<lambda>i. (i, e)) (stoull (drop (length ''reorg:'') k)))
               (kv_scan K db ''reorg:'')
           in map snd (take maxEvents (sort_key (\<lambda>p. u64_max - fst p) allEvents))))"

definition getReorgHistory :: "'db kv \<Rightarrow> 'db reorg_detector \<Rightarrow> reorg_event list" where
  "getReorgHistory K d = getRecentReorgHistory K (2 ^ 64 - 1) d"

text \<open>
  Pruning reads \<open>heights[heights.size() - keepLastN]\<close>, which for \<open>keepLastN = 0\<close> is one past the
  end: what is found there is the parameter \<open>past_end\<close>.
\<close>

definition pruneOldBlocks ::
    "'db kv \<Rightarrow> u64 \<Rightarrow> u64 \<Rightarrow> 'db reorg_detector \<Rightarrow> bool \<times> 'db reorg_detector" where
  "pruneOldBlocks K past_end keepLastN d =
     (case rd_db d of
        None \<Rightarrow> (False, d)
      | Some db \<Rightarrow>
          (let heights = sort (List.map_filter (\<lambda>(k, _). parseHeightFromKey k) (kv_scan K db ''block:'')) in
           if length heights \<le> unat keepLastN then (True, d)
           else let i = length heights - unat keepLastN;
                    cutoff = (if i < length heights then heights ! i else past_end)
                in db_write K (map (\<lambda>h. Delete (makeBlockKey h)) (filter (\<lambda>h. h < cutoff) heights)) d))"

definition shouldHaltForDeepReorg :: "u64 \<Rightarrow> 'db reorg_detector \<Rightarrow> bool" where
  "shouldHaltForDeepReorg depth d \<longleftrightarrow> rd_confirmationThreshold d < depth"

definition setReputation :: "'db kv \<Rightarrow> string \<Rightarrow> string \<Rightarrow> 'db reorg_detector \<Rightarrow> bool \<times> 'db reorg_detector" where
  "setReputation K peerId repData d =
     (case rd_db d of
        None \<Rightarrow> (False, d)
      | Some db \<Rightarrow> (let (ok, db1) = kv_put_rep K db peerId repData in (ok, d\<lparr>rd_db := Some db1\<rparr>)))"

definition getReputation :: "'db kv \<Rightarrow> string \<Rightarrow> 'db reorg_detector \<Rightarrow> string option" where
  "getReputation K peerId d =
     (case rd_db d of
        None \<Rightarrow> None
      | Some db \<Rightarrow> (case kv_get_rep K db peerId of Found v \<Rightarrow> Some v | _ \<Rightarrow> None))"

end
