(* ===== verification/Reorg_Text.thy ===== *)
theory Reorg_Text
  imports Reorg
begin

text \<open>
  The text images and the keys of the reorganisation detector: what is read back from a stored
  anchor and from a stored event, and that keys of different kinds and numbers never meet.
\<close>

section \<open>Anchor records as text\<close>

lemmas read_u64_bar = read_unsigned_shown [of "[]" "CHR ''|'' # cs" for cs, simplified]

lemma bar_not_digit [simp]: "\<not> is_digit CHR ''|''" "\<not> is_space CHR ''|''"
  by (simp_all add: is_digit_def is_space_def)

definition known_status :: "anchor_status \<Rightarrow> bool" where
  "known_status st \<longleftrightarrow> st \<in> {PENDING, CONFIRMED, INVALIDATED_REORG, FAILED_ORPHANED}"

lemma known_status_code:
  "known_status st \<Longrightarrow> stoi (to_dec_int (anchor_status_code st)) = Some (anchor_status_code st)"
  "known_status st \<Longrightarrow> anchor_status_of (anchor_status_code st) = st"
  by (auto simp: known_status_def anchor_status_of_def int32_max_def intro!: stoi_shown)

lemma bar_to_dec_int: "0 \<le> i \<Longrightarrow> CHR ''|'' \<notin> set (to_dec_int i)"
  using to_dec_digits [of "nat i"] by (auto simp: to_dec_int_def list_all_iff)

text \<open>The fields the text image does not escape.\<close>

definition plain_anchor :: "anchor_record \<Rightarrow> bool" where
  "plain_anchor a \<longleftrightarrow> CHR ''|'' \<notin> set (an_anchorHash a) \<and> CHR ''|'' \<notin> set (an_bitcoinTxId a) \<and>
     known_status (an_status a)"

lemma deserialize_serialize:
  assumes "plain_anchor a"
  shows "deserializeAnchor (serializeAnchor a) =
    (if an_l2StateRoot a = [] then None
     else Some (a\<lparr>an_l2StateRoot := takeWhile (\<lambda>c. c \<noteq> CHR 0x0A) (an_l2StateRoot a)\<rparr>))"
proof -
  have "CHR ''|'' \<notin> set (to_dec_int (anchor_status_code (an_status a)))"
    using assms by (auto simp: plain_anchor_def known_status_def intro!: bar_to_dec_int)
  with assms show ?thesis
    by (simp add: plain_anchor_def deserializeAnchor_def serializeAnchor_def open_string_def getline_field
        read_u64_bar read_char_plain getline_last [of "CHR 0x0A"] known_status_code)
qed

section \<open>Reorganisation events as text\<close>

definition plain_hash :: "string \<Rightarrow> bool" where
  "plain_hash h \<longleftrightarrow> CHR ''|'' \<notin> set h \<and> 2 \<le> length h \<and> \<not> is_space (hd h)"

definition plain_event :: "reorg_event \<Rightarrow> bool" where
  "plain_event e \<longleftrightarrow> CHR ''|'' \<notin> set (rv_oldBlockHash e) \<and> CHR ''|'' \<notin> set (rv_newBlockHash e) \<and>
     list_all plain_hash (rv_invalidatedAnchors e) \<and> length (rv_invalidatedAnchors e) < 2 ^ 64"

text \<open>What is read back: every anchor after the first has lost its first character.\<close>

fun clipped :: "string list \<Rightarrow> string list" where
  "clipped [] = []"
| "clipped (h # hs) = h # map tl hs"

lemma clipped_short: "length hs \<le> 1 \<Longrightarrow> clipped hs = hs"
  by (cases hs) auto

lemma plain_hash_Cons:
  assumes "plain_hash h"
  obtains c d cs where "h = c # d # cs" "\<not> is_space c" "CHR ''|'' \<notin> set (d # cs)" "c \<noteq> CHR ''|''"
  using assms by (cases h; cases "tl h") (auto simp: plain_hash_def)

lemma read_anchors_clipped:
  "list_all plain_hash (h # hs) \<Longrightarrow>
   read_anchors (Suc (length hs)) acc \<lparr>is_buf = h @ concat (map (\<lambda>a. bar @ a) hs), is_eof = False, is_fail = False\<rparr>
     = Some (acc @ tl h # map tl hs)"
proof (induction hs arbitrary: h acc)
  case Nil
  then obtain c d cs where "h = c # d # cs" "\<not> is_space c" "CHR ''|'' \<notin> set (d # cs)"
    by (auto elim: plain_hash_Cons)
  then show ?case
    by (auto simp: read_char_plain getline_last takeWhile_last)
next
  case (Cons h' hs)
  then obtain c d cs where h: "h = c # d # cs" "\<not> is_space c" "CHR ''|'' \<notin> set (d # cs)"
    by (auto elim: plain_hash_Cons)
  have "read_anchors (Suc (length (h' # hs))) acc
      \<lparr>is_buf = h @ concat (map (\<lambda>a. bar @ a) (h' # hs)), is_eof = False, is_fail = False\<rparr> =
    read_anchors (Suc (length hs)) (acc @ [tl h])
      \<lparr>is_buf = h' @ concat (map (\<lambda>a. bar @ a) hs), is_eof = False, is_fail = False\<rparr>"
    using getline_field [OF h(3)] h by (simp add: read_char_plain del: read_anchors.simps(2))
       (simp add: read_char_plain)
  with Cons show ?case by (simp del: read_anchors.simps)
qed

lemma read_anchors_all:
  assumes "list_all plain_hash hs"
  shows "read_anchors (length hs) [] \<lparr>is_buf = concat (map (\<lambda>a. bar @ a) hs), is_eof = (hs = []), is_fail = False\<rparr>
    = Some (clipped hs)"
proof (cases hs)
  case (Cons h rest)
  then have h: "CHR ''|'' \<notin> set h" "h \<noteq> []" using assms by (auto simp: plain_hash_def)
  show ?thesis
  proof (cases rest)
    case Nil
    with Cons h show ?thesis by (simp add: read_char_plain getline_last takeWhile_last)
  next
    case (Cons h' hs')
    have "read_anchors (Suc (length hs')) [h]
        \<lparr>is_buf = h' @ concat (map (\<lambda>a. bar @ a) hs'), is_eof = False, is_fail = False\<rparr> =
        Some ([h] @ tl h' # map tl hs')"
      using assms Cons \<open>hs = h # rest\<close> by (intro read_anchors_clipped) simp
    with Cons \<open>hs = h # rest\<close> h(1) show ?thesis
      by (simp add: read_char_plain getline_field del: read_anchors.simps(2))
         (simp add: read_char_plain getline_field)
  qed
qed simp

lemma deserialize_event:
  assumes "plain_event e"
  shows "deserializeReorgEvent (serializeReorgEvent e) =
    Some (e\<lparr>rv_invalidatedAnchors := clipped (rv_invalidatedAnchors e)\<rparr>)"
proof -
  let ?hs = "rv_invalidatedAnchors e"
  have count: "unat (of_nat (length ?hs) :: u64) = length ?hs"
    using assms by (intro unat_of_small) (simp add: plain_event_def)
  have tail: "ends_number (concat (map (\<lambda>a. bar @ a) ?hs))" by (cases ?hs) simp_all
  have "read_unsigned (0 :: u64) \<lparr>is_buf = to_dec (length ?hs) @ concat (map (\<lambda>a. bar @ a) ?hs),
      is_eof = False, is_fail = False\<rparr> = (of_nat (length ?hs),
      \<lparr>is_buf = concat (map (\<lambda>a. bar @ a) ?hs), is_eof = (?hs = []), is_fail = False\<rparr>)"
    using read_unsigned_shown [of "[]" _ 0 "of_nat (length ?hs) :: u64", OF _ tail]
    by (simp add: count)
  with assms show ?thesis
    using read_anchors_all [of ?hs]
    by (simp add: plain_event_def deserializeReorgEvent_def serializeReorgEvent_def open_string_def getline_field
        read_u64_bar read_char_plain count)
qed

section \<open>Keys\<close>

lemma length_to_dec: "0 < k \<Longrightarrow> n < 10 ^ k \<Longrightarrow> length (to_dec n) \<le> k"
proof (induction k arbitrary: n)
  case (Suc k)
  show ?case
  proof (cases "n < 10")
    case True
    then show ?thesis by (subst to_dec.simps) simp
  next
    case False
    with Suc.prems have "0 < k" "n div 10 < 10 ^ k" by (auto simp: div_less_iff_less_mult intro: ccontr)
    with Suc.IH [of "n div 10"] False show ?thesis by (subst to_dec.simps) simp
  qed
qed simp

lemma is_digit_zero: "is_digit CHR ''0''" "\<not> is_space CHR ''0''"
  by (simp_all add: is_digit_def is_space_def)

lemma pad20_digits: "list_all is_digit (pad20 (to_dec n))"
  using to_dec_digits [of n] by (auto simp: pad20_def list_all_iff is_digit_zero)

lemma pad20_head: "\<exists>d ds. pad20 (to_dec n) = d # ds \<and> is_digit d"
proof -
  have "pad20 (to_dec n) \<noteq> []" by (simp add: pad20_def)
  then show ?thesis using pad20_digits [of n] by (cases "pad20 (to_dec n)") auto
qed

lemma stoull_pad20: "stoull (pad20 (to_dec (unat w))) = Some w"
proof -
  let ?p = "pad20 (to_dec (unat w))"
  have p: "?p \<noteq> []" "dropWhile is_space ?p = ?p" "split_sign ?p = (False, ?p)"
    using pad20_head [of "unat w"] by (auto simp: split_sign_def dest: digit_plain)
  have d: "takeWhile is_digit ?p = ?p"
    using pad20_digits [of "unat w"] by (simp add: list_all_iff)
  have v: "dec_value ?p = unat w" by (simp add: pad20_def dec_value_append dec_value_zeros)
  show ?thesis
    using unat_bound [of w] by (simp add: stoull_def p d v Let_def not_le)
qed

lemma parse_block_key: "parseHeightFromKey (makeBlockKey h) = Some h"
  using pad20_head [of "unat h"] by (auto simp: parseHeightFromKey_def makeBlockKey_def stoull_pad20)

lemma block_key_inj [simp]: "makeBlockKey a = makeBlockKey b \<longleftrightarrow> a = b"
  by (metis option.inject parse_block_key)

lemma pad20_inj: "pad20 (to_dec (unat a)) = pad20 (to_dec (unat (b :: u64))) \<longleftrightarrow> a = b"
  by (metis option.inject stoull_pad20)

lemma event_key_inj [simp]: "makeReorgEventKey a = makeReorgEventKey b \<longleftrightarrow> a = b"
  by (simp add: makeReorgEventKey_def pad20_inj)

lemma anchor_key_inj [simp]: "makeAnchorKey a = makeAnchorKey b \<longleftrightarrow> a = b"
  by (simp add: makeAnchorKey_def)

lemma keys_apart [simp]:
  "makeBlockKey h \<noteq> makeAnchorKey k" "makeAnchorKey k \<noteq> makeBlockKey h"
  "makeBlockKey h \<noteq> makeReorgEventKey i" "makeReorgEventKey i \<noteq> makeBlockKey h"
  "makeAnchorKey k \<noteq> makeReorgEventKey i" "makeReorgEventKey i \<noteq> makeAnchorKey k"
  "makeBlockKey h \<noteq> ''reorg_counter''" "makeAnchorKey k \<noteq> ''reorg_counter''"
  "makeReorgEventKey i \<noteq> ''reorg_counter''" "''reorg_counter'' \<noteq> makeBlockKey h"
  "''reorg_counter'' \<noteq> makeAnchorKey k" "''reorg_counter'' \<noteq> makeReorgEventKey i"
  by (simp_all add: makeBlockKey_def makeAnchorKey_def makeReorgEventKey_def)

end
