(* ===== verification/Reorg_Props.thy ===== *)
theory Reorg_Props
  imports Reorg_Text "HOL-Library.Multiset"
begin

text \<open>
  The reorganisation detector over a store that does not fail, as an implementation of three
  maps: block hashes, anchors, and the list of detections. Each operation is simulated, and with
  it every run and every query.
\<close>

section \<open>A reliable store\<close>

fun apply_write :: "(string, string) omap \<Rightarrow> kv_write \<Rightarrow> (string, string) omap" where
  "apply_write m (Put k v) = om_put k v m"
| "apply_write m (Delete k) = om_del k m"

text \<open>
  The documented behaviour of RocksDB when no operation fails, for a function \<open>view\<close> from the
  store to the entries it holds: a read returns the entry, a batch is applied as a whole and in
  order, an iterator from a key visits the entries from that key on in bytewise order.
\<close>

definition kv_reliable :: "'db kv \<Rightarrow> ('db \<Rightarrow> (string, string) omap) \<Rightarrow> bool" where
  "kv_reliable K view \<longleftrightarrow>
     (\<forall>db k. kv_get K db k = (case om_get (view db) k of None \<Rightarrow> NotFound | Some v \<Rightarrow> Found v)) \<and>
     (\<forall>db ws. fst (kv_write K db ws) \<and> view (snd (kv_write K db ws)) = foldl apply_write (view db) ws) \<and>
     (\<forall>db k. kv_seek K db k = filter (\<lambda>p. k \<le> fst p) (om_entries (view db)))"

definition mem_kv :: "(string, string) omap kv" where
  "mem_kv = \<lparr>kv_get = (\<lambda>db k. case om_get db k of None \<Rightarrow> NotFound | Some v \<Rightarrow> Found v),
     kv_write = (\<lambda>db ws. (True, foldl apply_write db ws)),
     kv_seek = (\<lambda>db k. filter (\<lambda>p. k \<le> fst p) (om_entries db)),
     kv_get_rep = (\<lambda>db k. NotFound), kv_put_rep = (\<lambda>db k v. (False, db))\<rparr>"

lemma mem_kv_reliable: "kv_reliable mem_kv id"
  by (simp add: kv_reliable_def mem_kv_def)

lemma kv_reliableD:
  assumes "kv_reliable K view"
  shows "kv_get K db k = (case om_get (view db) k of None \<Rightarrow> NotFound | Some v \<Rightarrow> Found v)"
    and "fst (kv_write K db ws)"
    and "view (snd (kv_write K db ws)) = foldl apply_write (view db) ws"
    and "kv_seek K db k = filter (\<lambda>p. k \<le> fst p) (om_entries (view db))"
  using assms by (auto simp: kv_reliable_def)

text \<open>The prefix loop visits exactly the entries with the prefix.\<close>

lemma prefix_ge: "take (length p) k = p \<Longrightarrow> (p :: string) \<le> k"
proof (induction p arbitrary: k)
  case (Cons c p)
  then show ?case by (cases k) auto
qed simp

lemma prefix_between:
  "(p :: string) \<le> j \<Longrightarrow> j \<le> k \<Longrightarrow> take (length p) k = p \<Longrightarrow> take (length p) j = p"
proof (induction p arbitrary: j k)
  case (Cons c p)
  then show ?case by (cases j; cases k) auto
qed simp

lemma takeWhile_initial:
  assumes "sorted_wrt (<) (map fst xs)"
    and "\<And>j k. j < k \<Longrightarrow> k \<in> fst ` set xs \<Longrightarrow> j \<in> fst ` set xs \<Longrightarrow> P k \<Longrightarrow> P j"
  shows "takeWhile (\<lambda>p. P (fst p)) xs = filter (\<lambda>p. P (fst p)) xs"
  using assms
proof (induction xs)
  case (Cons x xs)
  have IH: "takeWhile (\<lambda>p. P (fst p)) xs = filter (\<lambda>p. P (fst p)) xs"
  proof (rule Cons.IH)
    fix j k assume "j < k" "k \<in> fst ` set xs" "j \<in> fst ` set xs" "P k"
    then show "P j" using Cons.prems(2) [of j k] by simp
  qed (use Cons.prems(1) in simp)
  have "P (fst x)" if "y \<in> set xs" "P (fst y)" for y
    using Cons.prems(1) Cons.prems(2) [of "fst x" "fst y"] that by simp
  then have "\<not> P (fst x) \<Longrightarrow> filter (\<lambda>p. P (fst p)) xs = []"
    unfolding filter_empty_conv by blast
  with IH show ?case by simp
qed simp

lemma kv_scan_entries:
  assumes "kv_reliable K view"
  shows "kv_scan K db p = filter (\<lambda>e. take (length p) (fst e) = p) (om_entries (view db))"
proof -
  let ?xs = "filter (\<lambda>e. p \<le> fst e) (om_entries (view db))"
  have "sorted_wrt (<) (map fst ?xs)"
    using om_sorted [of "view db"] by (simp add: sorted_wrt_map sorted_wrt_filter)
  then have "takeWhile (\<lambda>e. take (length p) (fst e) = p) ?xs = filter (\<lambda>e. take (length p) (fst e) = p) ?xs"
    by (rule takeWhile_initial) (auto intro: prefix_between order.strict_implies_order)
  also have "\<dots> = filter (\<lambda>e. take (length p) (fst e) = p) (om_entries (view db))"
    by (auto simp: prefix_ge intro!: filter_cong)
  finally show ?thesis
    by (simp add: kv_scan_def kv_reliableD(4) [OF assms] case_prod_beta')
qed

section \<open>The detector as three maps\<close>

record detector_view =
  dv_blocks :: "u64 \<Rightarrow> string option"
  dv_anchors :: "string \<Rightarrow> anchor_record option"
  dv_history :: "reorg_event list"

definition readable_anchor :: "anchor_record \<Rightarrow> bool" where
  "readable_anchor a \<longleftrightarrow> plain_anchor a \<and> an_l2StateRoot a \<noteq> [] \<and> CHR 0x0A \<notin> set (an_l2StateRoot a)"

lemma readable_roundtrip: "readable_anchor a \<Longrightarrow> deserializeAnchor (serializeAnchor a) = Some a"
  by (simp add: readable_anchor_def deserialize_serialize takeWhile_last)

lemma readable_update:
  "readable_anchor a \<Longrightarrow> known_status st \<Longrightarrow> readable_anchor (a\<lparr>an_status := st\<rparr>)"
  "readable_anchor a \<Longrightarrow> readable_anchor (a\<lparr>an_confirmations := c\<rparr>)"
  by (simp_all add: readable_anchor_def plain_anchor_def)

text \<open>The history under its keys: event \<open>i\<close> under the key of \<open>i\<close>, and the counter.\<close>

definition history_entry :: "reorg_event list \<Rightarrow> string \<Rightarrow> string option" where
  "history_entry es k = map_of (map (\<lambda>i. (makeReorgEventKey (of_nat i), serializeReorgEvent (es ! i)))
     [0..<length es]) k"

definition represents :: "(string, string) omap \<Rightarrow> detector_view \<Rightarrow> bool" where
  "represents m V \<longleftrightarrow>
     (\<forall>h. om_get m (makeBlockKey h) = dv_blocks V h) \<and>
     (\<forall>k. om_get m (makeAnchorKey k) = map_option serializeAnchor (dv_anchors V k)) \<and>
     (\<forall>k a. dv_anchors V k = Some a \<longrightarrow> readable_anchor a \<and> an_anchorHash a = k) \<and>
     (\<forall>k. take 6 k = ''reorg:'' \<longrightarrow> om_get m k = history_entry (dv_history V) k) \<and>
     om_get m ''reorg_counter'' =
       (if dv_history V = [] then None else Some (to_dec (length (dv_history V)))) \<and>
     (\<forall>k. take 6 k = ''block:'' \<longrightarrow> om_get m k \<noteq> None \<longrightarrow> k \<in> range makeBlockKey)"

lemma key_prefixes [simp]:
  "take 6 (makeBlockKey h) = ''block:''" "take 6 (makeAnchorKey k) = ''anchor''"
  "take 6 (makeReorgEventKey i) = ''reorg:''"
  by (simp_all add: makeBlockKey_def makeAnchorKey_def makeReorgEventKey_def)

lemma represents_empty: "represents om_empty \<lparr>dv_blocks = Map.empty, dv_anchors = Map.empty, dv_history = []\<rparr>"
  by (simp add: represents_def history_entry_def)

lemma represents_block:
  "represents m V \<Longrightarrow> represents (om_put (makeBlockKey h) b m) (V\<lparr>dv_blocks := (dv_blocks V)(h \<mapsto> b)\<rparr>)"
  by (auto simp: represents_def)

lemma represents_anchor:
  "represents m V \<Longrightarrow> readable_anchor a \<Longrightarrow>
   represents (om_put (makeAnchorKey (an_anchorHash a)) (serializeAnchor a) m)
     (V\<lparr>dv_anchors := (dv_anchors V)(an_anchorHash a \<mapsto> a)\<rparr>)"
  by (auto simp: represents_def)

lemma history_entry_snoc:
  assumes "length es < 2 ^ 64"
  shows "history_entry (es @ [e]) k =
    (if k = makeReorgEventKey (of_nat (length es)) then Some (serializeReorgEvent e) else history_entry es k)"
proof -
  let ?f = "\<lambda>es. \<lambda>i. (makeReorgEventKey (of_nat i), serializeReorgEvent (es ! i))"
  have old: "map (?f (es @ [e])) [0..<length es] = map (?f es) [0..<length es]"
    by (simp add: nth_append)
  have "makeReorgEventKey (of_nat (length es)) \<notin> fst ` set (map (?f es) [0..<length es])"
  proof
    assume "makeReorgEventKey (of_nat (length es)) \<in> fst ` set (map (?f es) [0..<length es])"
    then obtain i where i: "i < length es" "(of_nat (length es) :: u64) = of_nat i" by auto
    have "unat (of_nat (length es) :: u64) = length es" "unat (of_nat i :: u64) = i"
      using assms i(1) by (simp_all add: unat_of_small)
    with i show False by (metis less_irrefl)
  qed
  then have "map_of (map (?f es) [0..<length es]) (makeReorgEventKey (of_nat (length es))) = None"
    by (simp only: map_of_eq_None_iff not_False_eq_True)
  then show ?thesis
    by (auto simp: history_entry_def old map_add_def split: option.split)
qed

lemma represents_event:
  assumes "represents m V" "length (dv_history V) < 2 ^ 64"
  shows "represents (om_put ''reorg_counter'' (to_dec (Suc (length (dv_history V))))
      (om_put (makeReorgEventKey (of_nat (length (dv_history V)))) (serializeReorgEvent e) m))
    (V\<lparr>dv_history := dv_history V @ [e]\<rparr>)"
  using assms by (auto simp: represents_def history_entry_snoc)

section \<open>The operations on the maps\<close>

text \<open>An open detector and the maps its store stands for.\<close>

definition shows_view :: "('db \<Rightarrow> (string, string) omap) \<Rightarrow> 'db reorg_detector \<Rightarrow> detector_view \<Rightarrow> bool" where
  "shows_view view d V \<longleftrightarrow> (\<exists>db. rd_db d = Some db \<and> represents (view db) V)"

definition invalidates :: "u64 \<Rightarrow> anchor_record \<Rightarrow> bool" where
  "invalidates h a \<longleftrightarrow> h \<le> an_bitcoinHeight a \<and> an_status a \<noteq> INVALIDATED_REORG"

definition invalidated_record :: "u64 \<Rightarrow> anchor_record \<Rightarrow> anchor_record" where
  "invalidated_record h a =
     (if invalidates h a then a\<lparr>an_status := INVALIDATED_REORG, an_confirmations := 0\<rparr> else a)"

definition hit_anchors :: "u64 \<Rightarrow> detector_view \<Rightarrow> string set" where
  "hit_anchors h V = {k. \<exists>a. dv_anchors V k = Some a \<and> invalidates h a}"

definition view_detect :: "u64 \<Rightarrow> string \<Rightarrow> u64 \<Rightarrow> detector_view \<Rightarrow> reorg_event option \<times> detector_view" where
  "view_detect h new t V =
     (case dv_blocks V h of
        None \<Rightarrow> (None, V\<lparr>dv_blocks := (dv_blocks V)(h \<mapsto> new)\<rparr>)
      | Some old \<Rightarrow>
          if old = new then (None, V)
          else let e = \<lparr>rv_reorgHeight = h, rv_oldBlockHash = old, rv_newBlockHash = new,
                 rv_detectedAtTime = t, rv_invalidatedAnchors = sorted_list_of_set (hit_anchors h V)\<rparr>
            in (Some e, V\<lparr>dv_anchors := map_option (invalidated_record h) \<circ> dv_anchors V,
                  dv_history := dv_history V @ [e], dv_blocks := (dv_blocks V)(h \<mapsto> new)\<rparr>))"

lemma db_write_reliable:
  assumes "kv_reliable K view" "rd_db d = Some db"
  obtains db1 where "db_write K ws d = (True, d\<lparr>rd_db := Some db1\<rparr>)"
    and "view db1 = foldl apply_write (view db) ws"
proof -
  have "db_write K ws d = (True, d\<lparr>rd_db := Some (snd (kv_write K db ws))\<rparr>)"
    using assms kv_reliableD(2) [OF assms(1), of db ws] by (auto simp: db_write_def split_beta Let_def)
  then show ?thesis using that kv_reliableD(3) [OF assms(1), of db ws] by blast
qed

lemma register_view:
  assumes "kv_reliable K view" "shows_view view d V" "readable_anchor a"
  shows "\<exists>db1. registerAnchor K a d = (True, d\<lparr>rd_db := Some db1\<rparr>) \<and>
    represents (view db1) (V\<lparr>dv_anchors := (dv_anchors V)(an_anchorHash a \<mapsto> a)\<rparr>)"
proof -
  obtain db where db: "rd_db d = Some db" "represents (view db) V"
    using assms(2) by (auto simp: shows_view_def)
  obtain db1 where "registerAnchor K a d = (True, d\<lparr>rd_db := Some db1\<rparr>)"
    "view db1 = om_put (makeAnchorKey (an_anchorHash a)) (serializeAnchor a) (view db)"
    using db_write_reliable [OF assms(1) db(1), of "[Put (makeAnchorKey (an_anchorHash a)) (serializeAnchor a)]"]
    by (auto simp: registerAnchor_def)
  with represents_anchor [OF db(2) assms(3)] show ?thesis by auto
qed

lemma anchor_status_view:
  assumes "kv_reliable K view" "shows_view view d V"
  shows "getAnchorStatus K k d = dv_anchors V k"
proof -
  obtain db where db: "rd_db d = Some db" "represents (view db) V"
    using assms(2) by (auto simp: shows_view_def)
  then show ?thesis
    by (auto simp: getAnchorStatus_def kv_reliableD(1) [OF assms(1)] represents_def readable_roundtrip
        split: option.splits)
qed

lemma block_view:
  assumes "kv_reliable K view" "shows_view view d V"
  shows "getBlockHashAtHeight K h d = dv_blocks V h"
  using assms(2)
  by (auto simp: shows_view_def getBlockHashAtHeight_def kv_reliableD(1) [OF assms(1)] represents_def
      split: option.splits)

abbreviation anchor_entry :: "detector_view \<Rightarrow> string \<Rightarrow> string \<times> string" where
  "anchor_entry V k \<equiv> (makeAnchorKey k, serializeAnchor (the (dv_anchors V k)))"

lemma invalidate_fold:
  assumes "kv_reliable K view"
  shows "shows_view view d V \<Longrightarrow> distinct ks \<Longrightarrow> set ks \<subseteq> dom (dv_anchors V) \<Longrightarrow>
    \<exists>db1. foldl (invalidate_entry K h) (acc, d) (map (anchor_entry V) ks) =
        (acc @ filter (\<lambda>k. k \<in> hit_anchors h V) ks, d\<lparr>rd_db := Some db1\<rparr>) \<and>
      represents (view db1) (V\<lparr>dv_anchors := \<lambda>k. if k \<in> set ks
        then map_option (invalidated_record h) (dv_anchors V k) else dv_anchors V k\<rparr>)"
proof (induction ks arbitrary: acc d V)
  case Nil
  then show ?case by (auto simp: shows_view_def intro!: exI [of _ "the (rd_db d)"])
next
  case (Cons k ks)
  obtain db a where db: "rd_db d = Some db" "represents (view db) V" and a: "dv_anchors V k = Some a"
    using Cons.prems by (auto simp: shows_view_def)
  have ok: "readable_anchor a" "an_anchorHash a = k" using db(2) a by (auto simp: represents_def)
  let ?V = "V\<lparr>dv_anchors := (dv_anchors V)(k \<mapsto> invalidated_record h a)\<rparr>"
  let ?acc = "acc @ (if invalidates h a then [k] else [])"
  obtain d1 where d1: "invalidate_entry K h (acc, d) (anchor_entry V k) = (?acc, d\<lparr>rd_db := Some d1\<rparr>)"
    "represents (view d1) ?V"
  proof (cases "invalidates h a")
    case True
    let ?a = "a\<lparr>an_status := INVALIDATED_REORG, an_confirmations := 0\<rparr>"
    have "readable_anchor ?a"
      using ok(1) by (simp add: readable_update known_status_def)
    from register_view [OF assms Cons.prems(1) this] True a ok that show ?thesis
      by (auto simp: invalidate_entry_def readable_roundtrip invalidated_record_def invalidates_def)
  next
    case False
    then have "?V = V" using a by (cases V) (auto simp: invalidated_record_def)
    with False a ok db that [of db] show ?thesis
      by (auto simp: invalidate_entry_def readable_roundtrip invalidates_def)
  qed
  have entries: "map (anchor_entry V) ks = map (anchor_entry ?V) ks"
    using Cons.prems(2) by auto
  have hits: "filter (\<lambda>k. k \<in> hit_anchors h V) ks = filter (\<lambda>k. k \<in> hit_anchors h ?V) ks"
    using Cons.prems(2) by (intro filter_cong) (auto simp: hit_anchors_def)
  have "shows_view view (d\<lparr>rd_db := Some d1\<rparr>) ?V" "set ks \<subseteq> dom (dv_anchors ?V)"
    using d1(2) Cons.prems(3) by (auto simp: shows_view_def)
  from Cons.IH [OF this(1) _ this(2), of ?acc] Cons.prems(2)
  obtain db1 where db1: "foldl (invalidate_entry K h) (?acc, d\<lparr>rd_db := Some d1\<rparr>) (map (anchor_entry ?V) ks) =
      (?acc @ filter (\<lambda>k. k \<in> hit_anchors h ?V) ks, d\<lparr>rd_db := Some db1\<rparr>)"
    "represents (view db1) (?V\<lparr>dv_anchors := \<lambda>k. if k \<in> set ks
        then map_option (invalidated_record h) (dv_anchors ?V k) else dv_anchors ?V k\<rparr>)"
    by auto
  have khit: "k \<in> hit_anchors h V \<longleftrightarrow> invalidates h a" using a by (simp add: hit_anchors_def)
  have "foldl (invalidate_entry K h) (acc, d) (map (anchor_entry V) (k # ks)) =
      (acc @ filter (\<lambda>k. k \<in> hit_anchors h V) (k # ks), d\<lparr>rd_db := Some db1\<rparr>)"
    unfolding list.map foldl.simps d1(1) entries db1(1) filter.simps khit hits by simp
  moreover have "(\<lambda>j. if j \<in> set ks then map_option (invalidated_record h) (dv_anchors ?V j) else dv_anchors ?V j) =
      (\<lambda>j. if j \<in> set (k # ks) then map_option (invalidated_record h) (dv_anchors V j) else dv_anchors V j)"
    using Cons.prems(2) a by (auto simp: fun_eq_iff)
  ultimately show ?case
    using db1(2) by (intro exI [of _ db1]) simp
qed

lemma anchor_key_less: "makeAnchorKey a < makeAnchorKey b \<longleftrightarrow> a < b"
  by (simp add: makeAnchorKey_def)

lemma anchor_prefix: "take 7 k = ''anchor:'' \<longleftrightarrow> (\<exists>h. k = makeAnchorKey h)"
proof
  assume "take 7 k = ''anchor:''"
  then have "k = makeAnchorKey (drop 7 k)" by (metis append_take_drop_id makeAnchorKey_def)
  then show "\<exists>h. k = makeAnchorKey h" ..
qed (auto simp: makeAnchorKey_def)

lemma scan_anchors:
  assumes "kv_reliable K view" "represents (view db) V"
  shows "kv_scan K db ''anchor:'' = map (anchor_entry V) (sorted_list_of_set (dom (dv_anchors V)))"
    and "finite (dom (dv_anchors V))"
proof -
  let ?xs = "filter (\<lambda>e. take 7 (fst e) = ''anchor:'') (om_entries (view db))"
  let ?ks = "map (drop 7 \<circ> fst) ?xs"
  have entry: "e = anchor_entry V (drop 7 (fst e)) \<and> drop 7 (fst e) \<in> dom (dv_anchors V)" if mem: "e \<in> set ?xs" for e
  proof -
    obtain h v where e: "e = (makeAnchorKey h, v)" "(makeAnchorKey h, v) \<in> set (om_entries (view db))"
      using mem anchor_prefix [of "fst e"] by - (cases e, auto)
    then have "map_option serializeAnchor (dv_anchors V h) = Some v"
      using assms(2) by (auto simp: om.entries_get represents_def)
    with e show ?thesis by (auto simp: makeAnchorKey_def)
  qed
  have xs: "?xs = map (anchor_entry V) ?ks"
    using map_idI [of ?xs "\<lambda>e. anchor_entry V (drop 7 (fst e))"] entry by (simp add: o_def)
  have "sorted_wrt (<) (map fst ?xs)"
    using om_sorted [of "view db"] by (simp add: sorted_wrt_map sorted_wrt_filter)
  then have "sorted_wrt (<) (map makeAnchorKey ?ks)"
    by (subst (asm) xs) (simp add: o_def)
  then have sorted: "sorted_wrt (<) ?ks" by (simp add: sorted_wrt_map anchor_key_less)
  have keys: "set ?ks = dom (dv_anchors V)"
  proof
    show "set ?ks \<subseteq> dom (dv_anchors V)" using entry by auto
    show "dom (dv_anchors V) \<subseteq> set ?ks"
    proof
      fix k assume "k \<in> dom (dv_anchors V)"
      then obtain v where "om_get (view db) (makeAnchorKey k) = Some v"
        using assms(2) by (auto simp: represents_def)
      then have "(makeAnchorKey k, v) \<in> set ?xs" by (auto simp: om.entries_get anchor_prefix)
      then show "k \<in> set ?ks" by (auto simp: makeAnchorKey_def intro!: image_eqI)
    qed
  qed
  show "finite (dom (dv_anchors V))" unfolding keys [symmetric] by (rule finite_set)
  have "sorted_list_of_set (dom (dv_anchors V)) = ?ks"
    unfolding keys [symmetric] using sorted
    by (intro sorted_list_of_set.idem_if_sorted_distinct) (simp_all add: strict_sorted_iff)
  moreover have "kv_scan K db ''anchor:'' = ?xs"
  proof -
    have len: "length ''anchor:'' = 7" by simp
    show ?thesis unfolding kv_scan_entries [OF assms(1)] len ..
  qed
  ultimately show "kv_scan K db ''anchor:'' = map (anchor_entry V) (sorted_list_of_set (dom (dv_anchors V)))"
    using xs by simp
qed

lemma represents_finite: "represents (view db) V \<Longrightarrow> finite (hit_anchors h V)"
  using scan_anchors(2) [OF mem_kv_reliable, of "view db" V]
  by (rule finite_subset [rotated]) (auto simp: hit_anchors_def)

lemma handle_view:
  assumes "kv_reliable K view" "shows_view view d V"
  shows "\<exists>db1. handleReorg K h d = (sorted_list_of_set (hit_anchors h V), d\<lparr>rd_db := Some db1\<rparr>) \<and>
    represents (view db1) (V\<lparr>dv_anchors := map_option (invalidated_record h) \<circ> dv_anchors V\<rparr>)"
proof -
  obtain db where db: "rd_db d = Some db" "represents (view db) V"
    using assms(2) by (auto simp: shows_view_def)
  let ?ks = "sorted_list_of_set (dom (dv_anchors V))"
  note scan = scan_anchors [OF assms(1) db(2)]
  have "filter (\<lambda>k. k \<in> hit_anchors h V) ?ks = sorted_list_of_set {k \<in> dom (dv_anchors V). k \<in> hit_anchors h V}"
    using scan(2) sorted_list_of_set.idem_if_sorted_distinct [of "filter (\<lambda>k. k \<in> hit_anchors h V) ?ks"]
    by (simp add: sorted_wrt_filter)
  also have "{k \<in> dom (dv_anchors V). k \<in> hit_anchors h V} = hit_anchors h V"
    by (auto simp: hit_anchors_def)
  finally have hits: "filter (\<lambda>k. k \<in> hit_anchors h V) ?ks = sorted_list_of_set (hit_anchors h V)" .
  have anchors: "(\<lambda>k. if k \<in> dom (dv_anchors V) then map_option (invalidated_record h) (dv_anchors V k)
      else dv_anchors V k) = map_option (invalidated_record h) \<circ> dv_anchors V"
    by (auto simp: fun_eq_iff domIff)
  from invalidate_fold [OF assms, of ?ks h "[]"] scan(2) show ?thesis
    by (simp add: handleReorg_def db(1) scan(1) hits anchors)
qed

lemma store_event_view:
  assumes "kv_reliable K view" "shows_view view d V" "length (dv_history V) < 2 ^ 64 - 1"
  shows "\<exists>db1. storeReorgEvent K e d = (True, d\<lparr>rd_db := Some db1\<rparr>) \<and>
    represents (view db1) (V\<lparr>dv_history := dv_history V @ [e]\<rparr>)"
proof -
  obtain db where db: "rd_db d = Some db" "represents (view db) V"
    using assms(2) by (auto simp: shows_view_def)
  let ?n = "of_nat (length (dv_history V)) :: u64"
  have n: "unat ?n = length (dv_history V)" "unat (?n + 1) = Suc (length (dv_history V))"
    using assms(3) by (simp_all add: unat_of_small unat_word_ariths)
  have counter: "(case kv_get K db ''reorg_counter'' of
      Found s \<Rightarrow> (case stoull s of Some n \<Rightarrow> n | None \<Rightarrow> 0) | _ \<Rightarrow> 0) = ?n"
    using db(2) stoull_shown [of ?n]
    by (simp add: represents_def kv_reliableD(1) [OF assms(1)] n)
  let ?ws = "[Put (makeReorgEventKey ?n) (serializeReorgEvent e), Put ''reorg_counter'' (to_dec (unat (?n + 1)))]"
  obtain db1 where "db_write K ?ws d = (True, d\<lparr>rd_db := Some db1\<rparr>)"
    "view db1 = foldl apply_write (view db) ?ws"
    by (rule db_write_reliable [OF assms(1) db(1)])
  moreover have "represents (foldl apply_write (view db) ?ws) (V\<lparr>dv_history := dv_history V @ [e]\<rparr>)"
    using represents_event [OF db(2), of e] assms(3) by (simp add: n)
  ultimately show ?thesis
    unfolding storeReorgEvent_def db(1) by (intro exI [of _ db1]) (simp add: counter Let_def)
qed

lemma track_view:
  assumes "kv_reliable K view" "shows_view view d V"
  shows "\<exists>db1. trackBlock K h b d = (True, d\<lparr>rd_db := Some db1\<rparr>) \<and>
    represents (view db1) (V\<lparr>dv_blocks := (dv_blocks V)(h \<mapsto> b)\<rparr>)"
proof -
  obtain db where db: "rd_db d = Some db" "represents (view db) V"
    using assms(2) by (auto simp: shows_view_def)
  obtain db1 where "db_write K [Put (makeBlockKey h) b] d = (True, d\<lparr>rd_db := Some db1\<rparr>)"
    "view db1 = foldl apply_write (view db) [Put (makeBlockKey h) b]"
    by (rule db_write_reliable [OF assms(1) db(1)])
  with represents_block [OF db(2), of h b] show ?thesis by (auto simp: trackBlock_def)
qed

lemma detect_view:
  assumes "kv_reliable K view" "shows_view view d V" "length (dv_history V) < 2 ^ 64 - 1"
  shows "fst (detectReorg K h new t d) = fst (view_detect h new t V) \<and>
    shows_view view (snd (detectReorg K h new t d)) (snd (view_detect h new t V)) \<and>
    rd_confirmationThreshold (snd (detectReorg K h new t d)) = rd_confirmationThreshold d"
proof -
  obtain db where db: "rd_db d = Some db" "represents (view db) V"
    using assms(2) by (auto simp: shows_view_def)
  have get: "kv_get K db (makeBlockKey h) = (case dv_blocks V h of None \<Rightarrow> NotFound | Some v \<Rightarrow> Found v)"
    using db(2) by (simp add: kv_reliableD(1) [OF assms(1)] represents_def)
  show ?thesis
  proof (cases "dv_blocks V h")
    case None
    then show ?thesis
      using track_view [OF assms(1,2), of h new]
      by (auto simp: detectReorg_def db(1) get view_detect_def shows_view_def)
  next
    case (Some old)
    show ?thesis
    proof (cases "old = new")
      case False
      let ?e = "\<lparr>rv_reorgHeight = h, rv_oldBlockHash = old, rv_newBlockHash = new, rv_detectedAtTime = t,
        rv_invalidatedAnchors = sorted_list_of_set (hit_anchors h V)\<rparr>"
      obtain db1 where s1: "handleReorg K h d = (sorted_list_of_set (hit_anchors h V), d\<lparr>rd_db := Some db1\<rparr>)"
        "represents (view db1) (V\<lparr>dv_anchors := map_option (invalidated_record h) \<circ> dv_anchors V\<rparr>)"
        using handle_view [OF assms(1,2)] by blast
      obtain db2 where s2: "storeReorgEvent K ?e (d\<lparr>rd_db := Some db1\<rparr>) = (True, d\<lparr>rd_db := Some db2\<rparr>)"
        "represents (view db2) (V\<lparr>dv_anchors := map_option (invalidated_record h) \<circ> dv_anchors V,
           dv_history := dv_history V @ [?e]\<rparr>)"
        using store_event_view [OF assms(1), of "d\<lparr>rd_db := Some db1\<rparr>" _ ?e] s1(2) assms(3)
        by (fastforce simp: shows_view_def)
      obtain db3 where s3: "trackBlock K h new (d\<lparr>rd_db := Some db2\<rparr>) = (True, d\<lparr>rd_db := Some db3\<rparr>)"
        "represents (view db3) (V\<lparr>dv_anchors := map_option (invalidated_record h) \<circ> dv_anchors V,
           dv_history := dv_history V @ [?e], dv_blocks := (dv_blocks V)(h \<mapsto> new)\<rparr>)"
        using track_view [OF assms(1), of "d\<lparr>rd_db := Some db2\<rparr>" _ h new] s2(2)
        by (fastforce simp: shows_view_def)
      with False Some s1 s2 show ?thesis
        by (auto simp: detectReorg_def db(1) get view_detect_def shows_view_def Let_def)
    qed (use Some assms(2) in \<open>auto simp: detectReorg_def db(1) get view_detect_def\<close>)
  qed
qed

section \<open>Pruning\<close>

definition view_prune :: "nat \<Rightarrow> detector_view \<Rightarrow> detector_view" where
  "view_prune n V =
     (let heights = sorted_list_of_set (dom (dv_blocks V)) in
      V\<lparr>dv_blocks := dv_blocks V |` set (drop (length heights - n) heights)\<rparr>)"

lemma representsD:
  assumes "represents m V"
  shows "om_get m (makeBlockKey h) = dv_blocks V h"
    and "om_get m k = Some v \<Longrightarrow> take 6 k = ''block:'' \<Longrightarrow> k \<in> range makeBlockKey"
    and "take 6 k = ''reorg:'' \<Longrightarrow> om_get m k = history_entry (dv_history V) k"
  using assms by (simp_all add: represents_def)

lemma scan_blocks:
  assumes "kv_reliable K view" "represents (view db) V"
  shows "sort (List.map_filter (\<lambda>(k, _). parseHeightFromKey k) (kv_scan K db ''block:'')) =
      sorted_list_of_set (dom (dv_blocks V))" (is "sort ?hs = _")
    and "finite (dom (dv_blocks V))"
proof -
  have len: "length ''block:'' = 6" by simp
  let ?xs = "filter (\<lambda>e. take 6 (fst e) = ''block:'') (om_entries (view db))"
  have scan: "kv_scan K db ''block:'' = ?xs" unfolding kv_scan_entries [OF assms(1)] len ..
  have key: "fst e \<in> range makeBlockKey" if mem: "e \<in> set ?xs" for e
    using mem representsD(2) [OF assms(2), of "fst e" "snd e"] om.entries_get [of "fst e" "snd e" "view db"]
    by simp
  have "map makeBlockKey (List.map_filter (\<lambda>(k, _). parseHeightFromKey k) es) = map fst es"
    if "\<forall>e \<in> set es. fst e \<in> range makeBlockKey" for es :: "(string \<times> string) list"
    using that by (induction es) (auto simp: map_filter_simps parse_block_key)
  then have hs: "map makeBlockKey ?hs = map fst ?xs" unfolding scan using key by blast
  have distinct: "distinct ?hs"
  proof -
    have "distinct (map makeBlockKey ?hs)" unfolding hs by (rule distinct_map_filter) (rule om_distinct)
    then show ?thesis by (simp only: distinct_map)
  qed
  have set: "set ?hs = dom (dv_blocks V)"
  proof -
    have "h \<in> set ?hs \<longleftrightarrow> h \<in> dom (dv_blocks V)" for h
    proof -
      have "h \<in> set ?hs \<longleftrightarrow> makeBlockKey h \<in> set (map makeBlockKey ?hs)" by auto
      also have "\<dots> \<longleftrightarrow> (\<exists>v. (makeBlockKey h, v) \<in> set (om_entries (view db)))"
        unfolding hs by force
      also have "\<dots> \<longleftrightarrow> h \<in> dom (dv_blocks V)"
        by (auto simp: om.entries_get representsD(1) [OF assms(2)])
      finally show ?thesis .
    qed
    then show ?thesis by blast
  qed
  show "finite (dom (dv_blocks V))" unfolding set [symmetric] by (rule finite_set)
  show "sort ?hs = sorted_list_of_set (dom (dv_blocks V))"
    unfolding set [symmetric] using distinct by (simp add: sorted_list_of_set_sort_remdups distinct_remdups_id)
qed

lemma fold_delete:
  "om_get (foldl apply_write m (map Delete ks)) k = (if k \<in> set ks then None else om_get m k)"
  by (induction ks arbitrary: m) auto

lemma represents_delete_blocks:
  assumes "represents m V"
  shows "represents (foldl apply_write m (map (\<lambda>h. Delete (makeBlockKey h)) hs))
    (V\<lparr>dv_blocks := dv_blocks V |` (- set hs)\<rparr>)"
proof -
  have "map (\<lambda>h. Delete (makeBlockKey h)) hs = map Delete (map makeBlockKey hs)" by simp
  then have "om_get (foldl apply_write m (map (\<lambda>h. Delete (makeBlockKey h)) hs)) k =
      (if k \<in> makeBlockKey ` set hs then None else om_get m k)" for k
    by (simp only: fold_delete set_map)
  with assms show ?thesis
    by (auto simp: represents_def restrict_map_def image_iff)
qed

lemma sorted_tail:
  assumes "sorted hs" "distinct hs" "i < length hs"
  shows "h \<in> set (drop i hs) \<longleftrightarrow> h \<in> set hs \<and> \<not> h < hs ! i"
proof -
  have order: "\<not> hs ! j < hs ! i \<longleftrightarrow> i \<le> j" if "j < length hs" for j
  proof
    assume "\<not> hs ! j < hs ! i"
    then show "i \<le> j"
      using sorted_nth_mono [OF assms(1), of j i] nth_eq_iff_index_eq [OF assms(2) that assms(3)] assms(3)
      by (cases "i \<le> j") auto
  qed (use sorted_nth_mono [OF assms(1)] that in \<open>simp add: not_less\<close>)
  have "x \<in> set (drop i hs) \<longleftrightarrow> (\<exists>j. i \<le> j \<and> j < length hs \<and> hs ! j = x)" for x
  proof
    assume "x \<in> set (drop i hs)"
    then obtain k where "k < length hs - i" "drop i hs ! k = x" by (auto simp: in_set_conv_nth)
    then show "\<exists>j. i \<le> j \<and> j < length hs \<and> hs ! j = x" by (intro exI [of _ "i + k"]) auto
  next
    assume "\<exists>j. i \<le> j \<and> j < length hs \<and> hs ! j = x"
    then obtain j where "i \<le> j" "j < length hs" "hs ! j = x" by blast
    then have "drop i hs ! (j - i) = x" "j - i < length (drop i hs)" by auto
    then show "x \<in> set (drop i hs)" by (metis nth_mem)
  qed
  then have "h \<in> set (drop i hs) \<longleftrightarrow> (\<exists>j. j < length hs \<and> hs ! j = h \<and> i \<le> j)" by blast
  also have "\<dots> \<longleftrightarrow> (\<exists>j. j < length hs \<and> hs ! j = h \<and> \<not> hs ! j < hs ! i)" 
    by (intro iff_exI conj_cong refl) (rule order [symmetric])
  also have "\<dots> \<longleftrightarrow> h \<in> set hs \<and> \<not> h < hs ! i" unfolding in_set_conv_nth by blast
  finally show ?thesis .
qed

lemma prune_view:
  assumes "kv_reliable K view" "shows_view view d V" "0 < n"
  shows "\<exists>db1. pruneOldBlocks K past_end n d = (True, d\<lparr>rd_db := Some db1\<rparr>) \<and>
    represents (view db1) (view_prune (unat n) V)"
proof -
  obtain db where db: "rd_db d = Some db" "represents (view db) V"
    using assms(2) by (auto simp: shows_view_def)
  let ?hs = "sorted_list_of_set (dom (dv_blocks V))"
  note scan = scan_blocks [OF assms(1) db(2)]
  have set: "set ?hs = dom (dv_blocks V)" using scan(2) by simp
  show ?thesis
  proof (cases "length ?hs \<le> unat n")
    case True
    then have "view_prune (unat n) V = V"
      using set by (cases V) (auto simp: view_prune_def restrict_map_def fun_eq_iff domIff)
    with True db show ?thesis
      by (auto simp: pruneOldBlocks_def scan(1) Let_def intro!: exI [of _ db])
  next
    case False
    let ?i = "length ?hs - unat n"
    have i: "?i < length ?hs" using False assms(3) by (simp add: word_less_nat_alt)
    let ?old = "filter (\<lambda>h. h < ?hs ! ?i) ?hs"
    obtain db1 where w: "db_write K (map (\<lambda>h. Delete (makeBlockKey h)) ?old) d = (True, d\<lparr>rd_db := Some db1\<rparr>)"
      "view db1 = foldl apply_write (view db) (map (\<lambda>h. Delete (makeBlockKey h)) ?old)"
      by (rule db_write_reliable [OF assms(1) db(1)])
    have kept: "h \<in> set (drop ?i ?hs) \<longleftrightarrow> h \<in> set ?hs \<and> \<not> h < ?hs ! ?i" for h
      using i by (intro sorted_tail) simp_all
    have "dv_blocks V |` (- set ?old) = dv_blocks V |` set (drop ?i ?hs)"
      using set kept by (auto simp: restrict_map_def fun_eq_iff domIff)
    then have "represents (view db1) (view_prune (unat n) V)"
      using represents_delete_blocks [OF db(2), of ?old] unfolding w(2) view_prune_def Let_def by simp
    moreover have "pruneOldBlocks K past_end n d = (True, d\<lparr>rd_db := Some db1\<rparr>)"
      using w(1) False i unfolding pruneOldBlocks_def db(1) by (simp add: scan(1) Let_def)
    ultimately show ?thesis by blast
  qed
qed

section \<open>The history\<close>

abbreviation clip_event :: "reorg_event \<Rightarrow> reorg_event" where
  "clip_event e \<equiv> e\<lparr>rv_invalidatedAnchors := clipped (rv_invalidatedAnchors e)\<rparr>"

lemma history_entry_iff:
  assumes "length es \<le> 2 ^ 64"
  shows "history_entry es k = Some v \<longleftrightarrow>
    (\<exists>i < length es. k = makeReorgEventKey (of_nat i) \<and> v = serializeReorgEvent (es ! i))"
proof -
  have "inj_on (\<lambda>i. of_nat i :: u64) {0..<length es}"
    by (rule inj_on_inverseI [of _ unat]) (use assms in \<open>auto intro!: unat_of_small\<close>)
  then have "distinct (map fst (map (\<lambda>i. (makeReorgEventKey (of_nat i), serializeReorgEvent (es ! i))) [0..<length es]))"
    by (simp add: o_def distinct_map inj_on_def)
  from map_of_eq_Some_iff [OF this, of k v] show ?thesis
    by (auto simp: history_entry_def)
qed

lemma scan_history:
  assumes "kv_reliable K view" "represents (view db) V" "list_all plain_event (dv_history V)"
    and "length (dv_history V) < 2 ^ 64"
  defines "events \<equiv> List.map_filter (\<lambda>(k, v).
      case deserializeReorgEvent v of
        None \<Rightarrow> None
      | Some e \<Rightarrow> map_option (\<lambda>i. (i, e)) (stoull (drop (length ''reorg:'') k))) (kv_scan K db ''reorg:'')"
    and "recent \<equiv> rev (map (\<lambda>i. (of_nat i :: u64, clip_event (dv_history V ! i))) [0..<length (dv_history V)])"
  shows "sort_key (\<lambda>p. u64_max - fst p) events = recent"
proof -
  let ?n = "length (dv_history V)"
  let ?xs = "filter (\<lambda>e. take 6 (fst e) = ''reorg:'') (om_entries (view db))"
  have len: "length ''reorg:'' = 6" by simp
  have scan: "kv_scan K db ''reorg:'' = ?xs" unfolding kv_scan_entries [OF assms(1)] len ..
  have mem: "(k, v) \<in> set ?xs \<longleftrightarrow>
      (\<exists>i < ?n. k = makeReorgEventKey (of_nat i) \<and> v = serializeReorgEvent (dv_history V ! i))" for k v
    using assms(4) by (auto simp: om.entries_get representsD(3) [OF assms(2)] history_entry_iff)
  have decode: "deserializeReorgEvent (serializeReorgEvent (dv_history V ! i)) = Some (clip_event (dv_history V ! i))"
    "stoull (drop 6 (makeReorgEventKey (of_nat i))) = Some (of_nat i)" if "i < ?n" for i
    using assms(3) that by (auto simp: deserialize_event list_all_length makeReorgEventKey_def stoull_pad20)
  let ?ev = "\<lambda>e. (the (stoull (drop 6 (fst e))), the (deserializeReorgEvent (snd e)))"
  have "List.map_filter (\<lambda>(k, v). case deserializeReorgEvent v of None \<Rightarrow> None
      | Some e \<Rightarrow> map_option (\<lambda>i. (i, e)) (stoull (drop (length ''reorg:'') k))) xs = map ?ev xs"
    if "\<forall>(k, v) \<in> set xs. \<exists>i < ?n. k = makeReorgEventKey (of_nat i) \<and> v = serializeReorgEvent (dv_history V ! i)" for xs
    using that unfolding len by (induction xs) (auto simp: map_filter_simps decode)
  then have events: "events = map ?ev ?xs" unfolding events_def scan using mem by blast
  have ev: "set events = (\<lambda>i. (of_nat i, clip_event (dv_history V ! i))) ` {0..<?n}"
  proof -
    have "set ?xs = (\<lambda>i. (makeReorgEventKey (of_nat i), serializeReorgEvent (dv_history V ! i))) ` {0..<?n}"
      (is "_ = ?S")
    proof (rule set_eqI)
      fix e :: "string \<times> string"
      show "e \<in> set ?xs \<longleftrightarrow> e \<in> ?S" using mem [of "fst e" "snd e"] by (cases e) force
    qed
    then show ?thesis unfolding events set_map by (simp add: image_image decode)
  qed
  let ?f = "\<lambda>p. u64_max - fst p"
  have idx: "inj_on (\<lambda>i. of_nat i :: u64) {0..<?n}"
    by (rule inj_on_inverseI [of _ unat]) (use assms(4) in \<open>auto intro!: unat_of_small\<close>)
  have inj: "inj_on ?f (set events)"
    using idx by (auto simp: ev inj_on_def)
  have "distinct (map fst ?xs)" by (rule distinct_map_filter) (rule om_distinct)
  moreover have "map fst ?xs = map (makeReorgEventKey \<circ> fst) events"
    unfolding events using mem decode by (fastforce intro: map_cong)
  ultimately have distinct: "distinct (map fst events)" by (simp add: distinct_map comp_inj_on_iff inj_on_def)
  have eq: "set (sort_key ?f events) = set recent" by (simp add: ev recent_def)
  show ?thesis
  proof (rule map_sorted_distinct_set_unique [of ?f])
    show "inj_on ?f (set (sort_key ?f events) \<union> set recent)" using inj eq by simp
    show "sorted (map ?f (sort_key ?f events))" by simp
    have "distinct (map ?f events)" using distinct by (simp add: distinct_map inj_on_def)
    then show "distinct (map ?f (sort_key ?f events))" by (simp add: distinct_map)
    have "sorted_wrt (\<lambda>i j. u64_max - of_nat j \<le> (u64_max - of_nat i :: u64)) [0..<?n]"
    proof (rule sorted_wrt_mono_rel [OF _ sorted_wrt_upt])
      fix i j assume "i \<in> set [0..<?n]" "j \<in> set [0..<?n]" "i < j"
      then show "u64_max - of_nat j \<le> (u64_max - of_nat i :: u64)"
        using assms(4) unfolding word_le_nat_alt unat_max_minus by (simp add: unat_of_small)
    qed
    then show "sorted (map ?f recent)"
      unfolding recent_def rev_map [symmetric] sorted_wrt_rev map_map sorted_wrt_map o_def by simp
    show "distinct (map ?f recent)" using idx by (auto simp: recent_def distinct_map inj_on_def)
  qed (rule eq)
qed

lemma history_view:
  assumes "kv_reliable K view" "shows_view view d V" "list_all plain_event (dv_history V)"
    and "length (dv_history V) < 2 ^ 64"
  shows "getRecentReorgHistory K n d = take n (rev (map clip_event (dv_history V)))"
proof -
  obtain db where db: "rd_db d = Some db" "represents (view db) V"
    using assms(2) by (auto simp: shows_view_def)
  have "map snd (rev (map (\<lambda>i. (of_nat i :: u64, clip_event (dv_history V ! i))) [0..<length (dv_history V)])) =
      rev (map clip_event (dv_history V))"
    unfolding rev_map map_map o_def snd_conv by (intro nth_equalityI) (simp_all add: rev_nth)
  then show ?thesis
    unfolding getRecentReorgHistory_def db(1) option.case Let_def scan_history [OF assms(1) db(2) assms(3,4)]
    by (simp only: take_map [symmetric])
qed

section \<open>Runs\<close>

datatype reorg_op = TrackBlock u64 string | DetectReorg u64 string u64 | RegisterAnchor anchor_record
  | UpdateConfirmations string u64 | UpdateStatus string anchor_status | PruneBlocks u64

fun detector_step :: "'db kv \<Rightarrow> u64 \<Rightarrow> 'db reorg_detector \<Rightarrow> reorg_op \<Rightarrow> 'db reorg_detector" where
  "detector_step K past_end d (TrackBlock h b) = snd (trackBlock K h b d)"
| "detector_step K past_end d (DetectReorg h b t) = snd (detectReorg K h b t d)"
| "detector_step K past_end d (RegisterAnchor a) = snd (registerAnchor K a d)"
| "detector_step K past_end d (UpdateConfirmations k c) = snd (updateAnchorConfirmations K k c d)"
| "detector_step K past_end d (UpdateStatus k st) = snd (updateAnchorStatus K k st d)"
| "detector_step K past_end d (PruneBlocks n) = snd (pruneOldBlocks K past_end n d)"

fun view_step :: "u64 \<Rightarrow> detector_view \<Rightarrow> reorg_op \<Rightarrow> detector_view" where
  "view_step th V (TrackBlock h b) = V\<lparr>dv_blocks := (dv_blocks V)(h \<mapsto> b)\<rparr>"
| "view_step th V (DetectReorg h b t) = snd (view_detect h b t V)"
| "view_step th V (RegisterAnchor a) = V\<lparr>dv_anchors := (dv_anchors V)(an_anchorHash a \<mapsto> a)\<rparr>"
| "view_step th V (UpdateConfirmations k c) =
     (case dv_anchors V k of
        None \<Rightarrow> V
      | Some a \<Rightarrow> V\<lparr>dv_anchors := (dv_anchors V)(k \<mapsto> a\<lparr>an_confirmations := c,
          an_status := if th \<le> c \<and> an_status a = PENDING then CONFIRMED else an_status a\<rparr>)\<rparr>)"
| "view_step th V (UpdateStatus k st) =
     (case dv_anchors V k of
        None \<Rightarrow> V
      | Some a \<Rightarrow> V\<lparr>dv_anchors := (dv_anchors V)(k \<mapsto> a\<lparr>an_status := st\<rparr>)\<rparr>)"
| "view_step th V (PruneBlocks n) = view_prune (unat n) V"

fun clean_op :: "reorg_op \<Rightarrow> bool" where
  "clean_op (RegisterAnchor a) = readable_anchor a"
| "clean_op (UpdateStatus k st) = known_status st"
| "clean_op (PruneBlocks n) = (0 < n)"
| "clean_op _ = True"

lemma detector_step_view:
  assumes "kv_reliable K view" "shows_view view d V" "clean_op x" "length (dv_history V) < 2 ^ 64 - 1"
  shows "shows_view view (detector_step K past_end d x) (view_step (rd_confirmationThreshold d) V x) \<and>
    rd_confirmationThreshold (detector_step K past_end d x) = rd_confirmationThreshold d \<and>
    length (dv_history (view_step (rd_confirmationThreshold d) V x)) \<le> Suc (length (dv_history V))"
proof (cases x)
  case (TrackBlock h b)
  with track_view [OF assms(1,2), of h b] show ?thesis by (auto simp: shows_view_def)
next
  case (DetectReorg h b t)
  with detect_view [OF assms(1,2,4), of h b t] show ?thesis
    by (auto simp: view_detect_def Let_def split: option.splits)
next
  case (RegisterAnchor a)
  with register_view [OF assms(1,2), of a] assms(3) show ?thesis by (auto simp: shows_view_def)
next
  case (UpdateConfirmations k c)
  show ?thesis
  proof (cases "dv_anchors V k")
    case None
    with UpdateConfirmations assms(2) show ?thesis
      by (simp add: updateAnchorConfirmations_def anchor_status_view [OF assms(1,2)])
  next
    case (Some a)
    let ?a = "a\<lparr>an_confirmations := c, an_status := if rd_confirmationThreshold d \<le> c \<and> an_status a = PENDING
        then CONFIRMED else an_status a\<rparr>"
    have "readable_anchor a" "an_anchorHash a = k"
      using assms(2) Some by (auto simp: shows_view_def represents_def)
    then have "readable_anchor ?a" "an_anchorHash ?a = k"
      by (auto simp: readable_anchor_def plain_anchor_def known_status_def)
    with register_view [OF assms(1,2), of ?a] Some UpdateConfirmations show ?thesis
      by (auto simp: updateAnchorConfirmations_def anchor_status_view [OF assms(1,2)] shows_view_def Let_def)
  qed
next
  case (UpdateStatus k st)
  show ?thesis
  proof (cases "dv_anchors V k")
    case None
    with UpdateStatus assms(2) show ?thesis
      by (simp add: updateAnchorStatus_def anchor_status_view [OF assms(1,2)])
  next
    case (Some a)
    have "readable_anchor a" "an_anchorHash a = k"
      using assms(2) Some by (auto simp: shows_view_def represents_def)
    with register_view [OF assms(1,2), of "a\<lparr>an_status := st\<rparr>"] Some UpdateStatus assms(3) show ?thesis
      by (auto simp: updateAnchorStatus_def anchor_status_view [OF assms(1,2)] shows_view_def readable_update)
  qed
next
  case (PruneBlocks n)
  with prune_view [OF assms(1,2), of n past_end] assms(3) show ?thesis
    by (auto simp: shows_view_def view_prune_def Let_def)
qed

abbreviation empty_view :: detector_view where
  "empty_view \<equiv> \<lparr>dv_blocks = Map.empty, dv_anchors = Map.empty, dv_history = []\<rparr>"

lemma detector_run_view:
  assumes "kv_reliable K view" "shows_view view d empty_view"
  shows "list_all clean_op ops \<Longrightarrow> length ops < 2 ^ 64 \<Longrightarrow>
    shows_view view (foldl (detector_step K past_end) d ops) (foldl (view_step (rd_confirmationThreshold d)) empty_view ops) \<and>
    rd_confirmationThreshold (foldl (detector_step K past_end) d ops) = rd_confirmationThreshold d \<and>
    length (dv_history (foldl (view_step (rd_confirmationThreshold d)) empty_view ops)) \<le> length ops"
proof (induction ops rule: rev_induct)
  case (snoc x ops)
  let ?d = "foldl (detector_step K past_end) d ops"
  let ?V = "foldl (view_step (rd_confirmationThreshold d)) empty_view ops"
  have IH: "shows_view view ?d ?V" "rd_confirmationThreshold ?d = rd_confirmationThreshold d"
    "length (dv_history ?V) \<le> length ops"
    using snoc by auto
  have "length (dv_history ?V) < 2 ^ 64 - 1" using IH(3) snoc.prems by simp
  from detector_step_view [OF assms(1) IH(1) _ this, of x past_end] snoc.prems IH(2,3) show ?case
    by simp
qed (simp add: assms(2))


text \<open>
  The text form of a reorganisation event, read back: of the invalidated anchors the first is
  intact and every later one has lost its first character, because the separator that the reader
  expects in front of it has already been consumed.
\<close>

theorem event_text_clips_anchors:
  assumes "plain_event e"
  shows "deserializeReorgEvent (serializeReorgEvent e) =
    Some (e\<lparr>rv_invalidatedAnchors := clipped (rv_invalidatedAnchors e)\<rparr>)"
  using assms by (rule deserialize_event)

text \<open>
  The text form of an anchor whose hash and transaction id have no separator: it is read
  back as it was, up to a line break in the state root, unless the state root is empty. An anchor
  without a state root is accepted and stored, and from then on it cannot be read: its status is
  unknown, its confirmations cannot be updated, and no reorganisation invalidates it.
\<close>

theorem anchor_text_roundtrip:
  assumes "plain_anchor a"
  shows "deserializeAnchor (serializeAnchor a) =
      (if an_l2StateRoot a = [] then None
       else Some (a\<lparr>an_l2StateRoot := takeWhile (\<lambda>c. c \<noteq> CHR 0x0A) (an_l2StateRoot a)\<rparr>)) \<and>
    (an_l2StateRoot a = [] \<longrightarrow> kv_reliable K view \<longrightarrow> rd_db d = Some db \<longrightarrow>
      (let (ok, d1) = registerAnchor K a d in
       ok \<and> getAnchorStatus K (an_anchorHash a) d1 = None \<and>
       \<not> fst (updateAnchorConfirmations K (an_anchorHash a) c d1)))"
proof -
  have "(let (ok, d1) = registerAnchor K a d in
       ok \<and> getAnchorStatus K (an_anchorHash a) d1 = None \<and>
       \<not> fst (updateAnchorConfirmations K (an_anchorHash a) c d1))"
    if root: "an_l2StateRoot a = []" and K: "kv_reliable K view" and db: "rd_db d = Some db"
  proof -
    obtain db1 where "registerAnchor K a d = (True, d\<lparr>rd_db := Some db1\<rparr>)"
      "view db1 = om_put (makeAnchorKey (an_anchorHash a)) (serializeAnchor a) (view db)"
      using db_write_reliable [OF K db, of "[Put (makeAnchorKey (an_anchorHash a)) (serializeAnchor a)]"]
      by (auto simp: registerAnchor_def)
    moreover from this have "getAnchorStatus K (an_anchorHash a) (d\<lparr>rd_db := Some db1\<rparr>) = None"
      using deserialize_serialize [OF assms] root by (simp add: getAnchorStatus_def kv_reliableD(1) [OF K])
    ultimately show ?thesis by (simp add: updateAnchorConfirmations_def)
  qed
  with deserialize_serialize [OF assms] show ?thesis by simp
qed

section \<open>Witnesses\<close>

definition demo_anchor :: anchor_record where
  "demo_anchor = \<lparr>an_anchorHash = ''aa'', an_bitcoinTxId = ''t'', an_bitcoinHeight = 7,
     an_confirmations = 2, an_broadcastTime = 0, an_retryCount = 0, an_status = PENDING,
     an_l2StateRoot = ''r''\<rparr>"

definition demo_detector :: "(string, string) omap reorg_detector" where
  "demo_detector = (new_detector 6 3600000)\<lparr>rd_db := Some om_empty\<rparr>"


definition demo_event :: reorg_event where
  "demo_event = \<lparr>rv_reorgHeight = 5, rv_oldBlockHash = ''A'', rv_newBlockHash = ''B'', rv_detectedAtTime = 0,
     rv_invalidatedAnchors = [''aa'', ''bb'']\<rparr>"

theorem event_text_clips_anchors_witness:
  "map_option rv_invalidatedAnchors (deserializeReorgEvent (serializeReorgEvent demo_event)) =
     Some [''aa'', ''b'']"
proof -
  have "plain_event demo_event"
    by (simp add: plain_event_def demo_event_def plain_hash_def is_space_def)
  from event_text_clips_anchors [OF this] show ?thesis by (simp add: demo_event_def)
qed

theorem anchor_text_roundtrip_witness:
  "let (ok, d1) = registerAnchor mem_kv (demo_anchor\<lparr>an_l2StateRoot := []\<rparr>) demo_detector in
     ok \<and> getAnchorStatus mem_kv ''aa'' d1 = None"
proof -
  have "plain_anchor (demo_anchor\<lparr>an_l2StateRoot := []\<rparr>)"
    by (simp add: demo_anchor_def plain_anchor_def known_status_def)
  from anchor_text_roundtrip [OF this, of mem_kv id demo_detector om_empty] show ?thesis
    by (simp add: mem_kv_reliable demo_detector_def demo_anchor_def split_beta Let_def)
qed

end
