(* ===== verification/Settlement.thy ===== *)
theory Settlement
  imports Reorg_Props
begin

text \<open>
  The settlement ingestion engine: \<open>include/SettlementIngestion.h\<close> and
  \<open>src/l1/SettlementIngestion.cpp\<close>. It reads and writes anchors as 128-byte memory images in the
  same store as the reorganisation detector, under keys of its own.
\<close>

section \<open>The memory image\<close>

record cache_anchor =
  ca_anchorHash :: bytes
  ca_l2StateRoot :: bytes
  ca_bitcoinTxId :: bytes
  ca_bitcoinHeight :: u64
  ca_broadcastTime :: u64
  ca_confirmations :: u32
  ca_retryCount :: u16
  ca_status :: u8
  ca_padding :: bytes

definition wf_cache_anchor :: "cache_anchor \<Rightarrow> bool" where
  "wf_cache_anchor a \<longleftrightarrow> length (ca_anchorHash a) = 32 \<and> length (ca_l2StateRoot a) = 32 \<and>
     length (ca_bitcoinTxId a) = 32 \<and> length (ca_padding a) = 9"

definition bytes_str :: "bytes \<Rightarrow> string" where
  "bytes_str bs = map (\<lambda>b. char_of (unat b)) bs"

definition anchor_image :: "cache_anchor \<Rightarrow> bytes" where
  "anchor_image a = ca_anchorHash a @ ca_l2StateRoot a @ ca_bitcoinTxId a @
     le_bytes 8 (ca_bitcoinHeight a) @ le_bytes 8 (ca_broadcastTime a) @
     le_bytes 4 (ca_confirmations a) @ le_bytes 2 (ca_retryCount a) @ le_bytes 1 (ca_status a) @
     ca_padding a"

definition anchor_of_image :: "bytes \<Rightarrow> cache_anchor" where
  "anchor_of_image b =
     \<lparr>ca_anchorHash = take 32 b, ca_l2StateRoot = take 32 (drop 32 b),
      ca_bitcoinTxId = take 32 (drop 64 b), ca_bitcoinHeight = le_word (take 8 (drop 96 b)),
      ca_broadcastTime = le_word (take 8 (drop 104 b)),
      ca_confirmations = le_word (take 4 (drop 112 b)), ca_retryCount = le_word (take 2 (drop 116 b)),
      ca_status = le_word (take 1 (drop 118 b)), ca_padding = take 9 (drop 119 b)\<rparr>"

section \<open>Hexadecimal fields\<close>

text \<open>
  \<open>utils::hexToBytes\<close>: the exception for a string that is too long is \<open>None\<close>. Pairs are written
  from the offset on; a last single character is a pair with a leading zero.
\<close>

fun write_pairs :: "nat \<Rightarrow> nat \<Rightarrow> string \<Rightarrow> bytes \<Rightarrow> bytes" where
  "write_pairs offset i [] out = out"
| "write_pairs offset i [c] out = out[(i + offset) div 2 := of_int (strtol16 [CHR ''0'', c])]"
| "write_pairs offset i (c # d # cs) out =
     write_pairs offset (i + 2) cs (out[(i + offset) div 2 := of_int (strtol16 [c, d])])"

definition hexToBytesN :: "string \<Rightarrow> nat \<Rightarrow> bytes option" where
  "hexToBytesN hex outLen =
     (if length hex > outLen * 2 then None
      else Some (write_pairs (outLen * 2 - length hex) 0 hex (replicate outLen 0)))"

definition bytesToHex :: "bytes \<Rightarrow> string" where
  "bytesToHex bs = concat (map hex_byte bs)"

definition getAnchorHashStr :: "cache_anchor \<Rightarrow> string" where
  "getAnchorHashStr a = bytesToHex (ca_anchorHash a)"
definition getL2StateRootStr :: "cache_anchor \<Rightarrow> string" where
  "getL2StateRootStr a = bytesToHex (ca_l2StateRoot a)"
definition getBitcoinTxIdStr :: "cache_anchor \<Rightarrow> string" where
  "getBitcoinTxIdStr a = bytesToHex (ca_bitcoinTxId a)"

definition setAnchorHashStr :: "string \<Rightarrow> cache_anchor \<Rightarrow> cache_anchor option" where
  "setAnchorHashStr hex a = map_option (\<lambda>b. a\<lparr>ca_anchorHash := b\<rparr>) (hexToBytesN hex 32)"
definition setL2StateRootStr :: "string \<Rightarrow> cache_anchor \<Rightarrow> cache_anchor option" where
  "setL2StateRootStr hex a = map_option (\<lambda>b. a\<lparr>ca_l2StateRoot := b\<rparr>) (hexToBytesN hex 32)"
definition setBitcoinTxIdStr :: "string \<Rightarrow> cache_anchor \<Rightarrow> cache_anchor option" where
  "setBitcoinTxIdStr hex a = map_option (\<lambda>b. a\<lparr>ca_bitcoinTxId := b\<rparr>) (hexToBytesN hex 32)"

section \<open>The engine\<close>

definition c_anchor_key :: "string \<Rightarrow> string" where
  "c_anchor_key hash = ''c_anchor:'' @ hash"

definition getAnchorZeroCopy :: "'db kv \<Rightarrow> string \<Rightarrow> 'db \<Rightarrow> cache_anchor option" where
  "getAnchorZeroCopy K anchorHashHex db =
     (if length anchorHashHex > 128 then None
      else case kv_get K db (c_anchor_key anchorHashHex) of
        Found v \<Rightarrow> if length v \<noteq> 128 then None else Some (anchor_of_image (str_bytes v))
      | _ \<Rightarrow> None)"

definition writeAnchorZeroCopy :: "'db kv \<Rightarrow> cache_anchor \<Rightarrow> 'db \<Rightarrow> bool \<times> 'db" where
  "writeAnchorZeroCopy K a db =
     kv_write K db [Put (c_anchor_key (concat (map hex_byte (ca_anchorHash a)))) (bytes_str (anchor_image a))]"

text \<open>The entries of the iterator that have the size of an image.\<close>

definition cached_anchors :: "'db kv \<Rightarrow> 'db \<Rightarrow> cache_anchor list" where
  "cached_anchors K db =
     map (\<lambda>(k, v). anchor_of_image (str_bytes v))
       (filter (\<lambda>(k, v). length v = 128) (kv_scan K db ''c_anchor:''))"

definition ingestConfirmedAnchors :: "'db kv \<Rightarrow> u64 \<Rightarrow> u64 \<Rightarrow> 'db \<Rightarrow> cache_anchor list" where
  "ingestConfirmedAnchors K currentL1Height confirmationThreshold db =
     filter (\<lambda>a.
       if ca_status a = of_int (anchor_status_code PENDING) then
         (if ca_bitcoinHeight a \<le> currentL1Height then
            (let depth = currentL1Height - ca_bitcoinHeight a + 1 in confirmationThreshold \<le> depth)
          else False)
       else ca_status a = of_int (anchor_status_code CONFIRMED)) (cached_anchors K db)"

definition ingestReorgInvalidations :: "'db kv \<Rightarrow> u64 \<Rightarrow> 'db \<Rightarrow> cache_anchor list" where
  "ingestReorgInvalidations K reorgHeight db =
     filter (\<lambda>a. reorgHeight \<le> ca_bitcoinHeight a \<and>
         ca_status a \<noteq> of_int (anchor_status_code INVALIDATED_REORG)) (cached_anchors K db)"

section \<open>Round trips\<close>

lemma str_bytes_bytes_str [simp]: "str_bytes (bytes_str bs) = bs"
proof -
  have "(of_char (char_of (unat b)) :: u8) = b" for b :: u8
  proof -
    have "(of_char (char_of (unat b)) :: nat) = unat b"
      using unat_bound [of b] by (simp add: mod_less)
    then have "(of_nat (of_char (char_of (unat b)) :: nat) :: u8) = b"
      by (simp only: of_nat_unat ucast_id)
    then show ?thesis by (simp only: of_nat_of_char)
  qed
  then show ?thesis by (simp add: str_bytes_def bytes_str_def o_def)
qed

lemma length_anchor_image: "wf_cache_anchor a \<Longrightarrow> length (anchor_image a) = 128"
  by (simp add: wf_cache_anchor_def anchor_image_def)

lemma le_word_16: "le_word (le_bytes 2 (w :: u16)) = w"
  by (rule le_word_full) simp

lemma le_word_8: "le_word (le_bytes (Suc 0) (w :: u8)) = w"
  by (rule le_word_full) simp

lemma anchor_image_roundtrip: "wf_cache_anchor a \<Longrightarrow> anchor_of_image (anchor_image a) = a"
  by (simp add: wf_cache_anchor_def anchor_image_def anchor_of_image_def le_word_16 le_word_8 del: le_bytes.simps)

lemma length_bytes_str [simp]: "length (bytes_str bs) = length bs"
  by (simp add: bytes_str_def)

lemma hex_of_bytes: "concat (map hex_byte bs) = hex_of bs"
  by (simp add: hex_of_def)

lemma write_pairs_hex:
  "length out = j + length bs \<Longrightarrow> write_pairs 0 (2 * j) (hex_of bs) out = take j out @ bs"
proof (induction bs arbitrary: j out)
  case (Cons b bs)
  let ?out = "out[j := b]"
  have "write_pairs 0 (2 * j) (hex_of (b # bs)) out = write_pairs 0 (2 * Suc j) (hex_of bs) ?out"
    using strtol_hex_byte [of b] by (simp add: hex_of_def hex_byte_def)
  also have "\<dots> = take (Suc j) ?out @ bs" using Cons.prems by (intro Cons.IH) simp
  also have "take (Suc j) ?out = take j out @ [b]"
    using Cons.prems by (simp add: take_Suc_conv_app_nth)
  finally show ?case by simp
qed (simp add: hex_of_def)

lemma hexToBytesN_hex: "length bs = n \<Longrightarrow> hexToBytesN (hex_of bs) n = Some bs"
  using write_pairs_hex [of "replicate n 0" 0 bs] by (simp add: hexToBytesN_def)

text \<open>
  A written anchor is found under the hexadecimal form of its hash, field for field; and the
  setters undo the getters of the three hash fields.
\<close>

theorem settlement_write_then_read:
  assumes "kv_reliable K view" "wf_cache_anchor a"
  shows "fst (writeAnchorZeroCopy K a db) \<and>
    getAnchorZeroCopy K (getAnchorHashStr a) (snd (writeAnchorZeroCopy K a db)) = Some a \<and>
    setAnchorHashStr (getAnchorHashStr a) b = Some (b\<lparr>ca_anchorHash := ca_anchorHash a\<rparr>) \<and>
    setL2StateRootStr (getL2StateRootStr a) b = Some (b\<lparr>ca_l2StateRoot := ca_l2StateRoot a\<rparr>) \<and>
    setBitcoinTxIdStr (getBitcoinTxIdStr a) b = Some (b\<lparr>ca_bitcoinTxId := ca_bitcoinTxId a\<rparr>)"
proof -
  have len: "length (ca_anchorHash a) = 32" "length (ca_l2StateRoot a) = 32" "length (ca_bitcoinTxId a) = 32"
    using assms(2) by (simp_all add: wf_cache_anchor_def)
  then show ?thesis
    using length_anchor_image [OF assms(2)]
    by (simp add: writeAnchorZeroCopy_def getAnchorZeroCopy_def getAnchorHashStr_def getL2StateRootStr_def
        getBitcoinTxIdStr_def setAnchorHashStr_def setL2StateRootStr_def setBitcoinTxIdStr_def bytesToHex_def
        kv_reliableD [OF assms(1)] hex_of_bytes anchor_image_roundtrip assms(2) hexToBytesN_hex)
qed

section \<open>The two anchor books\<close>

text \<open>Keys of the detector never have the engine's prefix.\<close>

definition foreign_key :: "string \<Rightarrow> bool" where
  "foreign_key k \<longleftrightarrow> take 9 k \<noteq> ''c_anchor:''"

fun write_key :: "kv_write \<Rightarrow> string" where
  "write_key (Put k v) = k"
| "write_key (Delete k) = k"

lemma foreign_keys:
  "foreign_key (makeBlockKey h)" "foreign_key (makeAnchorKey k)" "foreign_key (makeReorgEventKey i)"
  "foreign_key ''reorg_counter''"
  by (simp_all add: foreign_key_def makeBlockKey_def makeAnchorKey_def makeReorgEventKey_def)

lemma foreign_writes:
  "\<forall>w \<in> set ws. foreign_key (write_key w) \<Longrightarrow> \<not> foreign_key k \<Longrightarrow>
   om_get (foldl apply_write m ws) k = om_get m k"
proof (induction ws arbitrary: m)
  case (Cons w ws)
  then show ?case by (cases w) auto
qed simp

definition cache_of :: "('db \<Rightarrow> (string, string) omap) \<Rightarrow> 'db reorg_detector \<Rightarrow> (string \<Rightarrow> string option) option" where
  "cache_of view d =
     map_option (\<lambda>db k. if foreign_key k then None else om_get (view db) k) (rd_db d)"

lemma cache_write:
  assumes "kv_reliable K view" "\<forall>w \<in> set ws. foreign_key (write_key w)"
  shows "cache_of view (snd (db_write K ws d)) = cache_of view d"
  using foreign_writes [OF assms(2)]
  by (auto simp: db_write_def cache_of_def split_beta Let_def kv_reliableD(3) [OF assms(1)] fun_eq_iff
      split: option.split)

lemma cache_frame [simp]: "cache_of view (d\<lparr>rd_delivered := x\<rparr>) = cache_of view d"
  by (simp add: cache_of_def)

lemma cache_basic:
  assumes "kv_reliable K view"
  shows "cache_of view (snd (registerAnchor K a d)) = cache_of view d"
    and "cache_of view (snd (trackBlock K h b d)) = cache_of view d"
    and "cache_of view (snd (storeReorgEvent K e d)) = cache_of view d"
    and "cache_of view (snd (pruneOldBlocks K past_end n d)) = cache_of view d"
  by (auto simp: registerAnchor_def trackBlock_def storeReorgEvent_def pruneOldBlocks_def Let_def
      foreign_keys cache_write [OF assms] split: option.split)

lemma cache_invalidate:
  assumes "kv_reliable K view"
  shows "cache_of view (snd (foldl (invalidate_entry K h) s es)) = cache_of view (snd s)"
proof (induction es arbitrary: s)
  case (Cons e es)
  have "cache_of view (snd (invalidate_entry K h s e)) = cache_of view (snd s)"
    by (cases s; cases e) (auto simp: invalidate_entry_def Let_def cache_basic [OF assms] split: option.split)
  with Cons show ?case by simp
qed simp

lemma cache_handle:
  assumes "kv_reliable K view"
  shows "cache_of view (snd (handleReorg K h d)) = cache_of view d"
  using cache_invalidate [OF assms, of h "([], d)"] by (auto simp: handleReorg_def split: option.split)

lemma cache_step:
  assumes "kv_reliable K view"
  shows "cache_of view (detector_step K past_end d x) = cache_of view d"
proof (cases x)
  case (DetectReorg h b t)
  show ?thesis
    using cache_handle [OF assms, of h d] unfolding DetectReorg
    by (auto simp: detectReorg_def split_beta Let_def cache_basic [OF assms] split: option.split kv_read.split)
qed (auto simp: cache_basic [OF assms] updateAnchorConfirmations_def updateAnchorStatus_def Let_def
    split: option.split)

lemma cache_run:
  "kv_reliable K view \<Longrightarrow> cache_of view (foldl (detector_step K past_end) d ops) = cache_of view d"
  by (induction ops arbitrary: d) (simp_all add: cache_step)

lemma cached_of_cache:
  assumes "kv_reliable K view" "\<And>k. \<not> foreign_key k \<Longrightarrow> om_get (view db1) k = om_get (view db) k"
  shows "cached_anchors K db1 = cached_anchors K db"
proof -
  have len: "length ''c_anchor:'' = 9" by simp
  let ?es = "\<lambda>db. filter (\<lambda>e. take 9 (fst e) = ''c_anchor:'') (om_entries (view db))"
  have "?es db1 = ?es db"
  proof (rule map_sorted_distinct_set_unique [of fst])
    show eq: "set (?es db1) = set (?es db)"
      using assms(2) by (auto simp: om.entries_get foreign_key_def)
    show "inj_on fst (set (?es db1) \<union> set (?es db))"
      unfolding eq by (auto simp: inj_on_def om.entries_get)
    have sd: "sorted (map fst (?es db')) \<and> distinct (map fst (?es db'))" for db'
    proof -
      have "sorted_wrt (<) (map fst (?es db'))"
        using om_sorted [of "view db'"] by (simp add: sorted_wrt_map sorted_wrt_filter)
      then show ?thesis by (simp add: strict_sorted_iff)
    qed
    show "sorted (map fst (?es db1))" "distinct (map fst (?es db1))"
      "sorted (map fst (?es db))" "distinct (map fst (?es db))" using sd by blast+
  qed
  then show ?thesis unfolding cached_anchors_def kv_scan_entries [OF assms(1)] len by simp
qed

text \<open>
  The two anchor books of one store do not meet. Whatever the reorganisation detector does
  (registering anchors, confirming them, invalidating them in a reorganisation), what the
  settlement engine ingests does not change: it reports no anchor the detector registers, and goes
  on reporting as confirmed an anchor that a reorganisation has invalidated.
\<close>

theorem settlement_ignores_detector:
  fixes past_end :: u64
  assumes "kv_reliable K view" "rd_db d = Some db"
    and "rd_db (foldl (detector_step K past_end) d ops) = Some db1"
  shows "ingestConfirmedAnchors K h th db1 = ingestConfirmedAnchors K h th db \<and>
    ingestReorgInvalidations K h db1 = ingestReorgInvalidations K h db"
proof -
  have "om_get (view db1) k = om_get (view db) k" if "\<not> foreign_key k" for k
    using cache_run [OF assms(1), of past_end d ops] that
    by (simp add: cache_of_def assms(2,3) fun_eq_iff) metis
  from cached_of_cache [OF assms(1) this] show ?thesis
    by (simp add: ingestConfirmedAnchors_def ingestReorgInvalidations_def)
qed

definition demo_cached :: cache_anchor where
  "demo_cached = \<lparr>ca_anchorHash = replicate 32 7, ca_l2StateRoot = replicate 32 1,
     ca_bitcoinTxId = replicate 32 2, ca_bitcoinHeight = 7, ca_broadcastTime = 0, ca_confirmations = 0,
     ca_retryCount = 0, ca_status = 0, ca_padding = replicate 9 0\<rparr>"

theorem settlement_write_then_read_witness:
  "map_option ca_bitcoinHeight (getAnchorZeroCopy mem_kv (getAnchorHashStr demo_cached)
     (snd (writeAnchorZeroCopy mem_kv demo_cached om_empty))) = Some 7"
proof -
  have "wf_cache_anchor demo_cached" by (simp add: wf_cache_anchor_def demo_cached_def)
  from settlement_write_then_read [OF mem_kv_reliable this, of om_empty] show ?thesis
    by (simp add: demo_cached_def)
qed

theorem settlement_ignores_detector_witness:
  "ingestConfirmedAnchors mem_kv 100 6
     (the (rd_db (foldl (detector_step mem_kv 0) demo_detector [RegisterAnchor demo_anchor]))) = []"
proof -
  have "rd_db (foldl (detector_step mem_kv 0) demo_detector [RegisterAnchor demo_anchor]) =
      Some (om_put (makeAnchorKey ''aa'') (serializeAnchor demo_anchor) om_empty)"
    by (simp add: demo_detector_def registerAnchor_def db_write_def mem_kv_def demo_anchor_def)
  from settlement_ignores_detector [OF mem_kv_reliable _ this] show ?thesis
    by (simp add: demo_detector_def registerAnchor_def db_write_def mem_kv_def demo_anchor_def
        ingestConfirmedAnchors_def cached_anchors_def kv_scan_def)
qed

end
