(* ===== verification/L2State.thy ===== *)
theory L2State
  imports IStream Ledger Bridge
begin

text \<open>
  Snapshots of the L2 state: \<open>include/L2State.h\<close>, \<open>src/l2/L2State.cpp\<close> and the verification tool
  \<open>src/tools/ailee_l2_verify.cpp\<close>. A snapshot collects the ledger, the bridge and the queued
  tasks; its canonical text gives the state root, its file form is appended to a log and read
  back line by line. A file is the string of its contents; the hash function is a parameter.
  \<open>std::sort\<close> by id is \<open>sort_key\<close>: the order of entries with equal ids is the one point where the
  code leaves a choice that the model fixes.
\<close>

section \<open>Data\<close>

record task_snapshot =
  ts_taskId :: string
  ts_taskType :: int
  ts_priority :: int
  ts_submitterId :: string
  ts_submittedAtMs :: u64
  ts_payloadHash :: string
  ts_anchorCommitmentHash :: string

record anchor_snapshot =
  as_l2StateRoot :: string
  as_timestampMs :: u64
  as_recoveryMetadata :: string
  as_payload :: string
  as_hash :: string

record l2_snapshot =
  sn_timestampMs :: u64
  sn_balances :: "ledger_balance_snapshot list"
  sn_escrows :: "ledger_escrow_snapshot list"
  sn_pegins :: "pegin_snapshot list"
  sn_pegouts :: "pegout_snapshot list"
  sn_tasks :: "task_snapshot list"
  sn_anchor :: "anchor_snapshot option"

definition empty_snapshot :: l2_snapshot where
  "empty_snapshot = \<lparr>sn_timestampMs = 0, sn_balances = [], sn_escrows = [], sn_pegins = [],
     sn_pegouts = [], sn_tasks = [], sn_anchor = None\<rparr>"

record state_diff =
  df_height :: u64
  df_priorStateRoot :: string
  df_newStateRoot :: string
  df_serializedChanges :: bytes
  df_proofRefs :: "string list"
  df_timestampMs :: u64

definition sortSnapshot :: "l2_snapshot \<Rightarrow> l2_snapshot" where
  "sortSnapshot s = s\<lparr>sn_balances := sort_key lbs_peerId (sn_balances s),
     sn_escrows := sort_key les_taskId (sn_escrows s), sn_pegins := sort_key pis_pegId (sn_pegins s),
     sn_pegouts := sort_key pos_pegId (sn_pegouts s), sn_tasks := sort_key ts_taskId (sn_tasks s)\<rparr>"

section \<open>The state root\<close>

abbreviation dec64 :: "u64 \<Rightarrow> string" where "dec64 w \<equiv> to_dec (unat w)"

text \<open>A line of the canonical text: fields with a colon between them, and a line feed.\<close>

fun colons :: "string list \<Rightarrow> string" where
  "colons [] = []"
| "colons [f] = f"
| "colons (f # g # fs) = f @ '':'' @ colons (g # fs)"

abbreviation nl :: string where "nl \<equiv> [CHR 0x0A]"

definition bool_digit :: "bool \<Rightarrow> string" where
  "bool_digit b = (if b then ''1'' else ''0'')"

definition balance_fields :: "ledger_balance_snapshot \<Rightarrow> string list" where
  "balance_fields b = [''balance'', lbs_peerId b, dec64 (lbs_balance b)]"

definition escrow_fields :: "ledger_escrow_snapshot \<Rightarrow> string list" where
  "escrow_fields e = [''escrow'', les_taskId e, les_clientPeerId e, dec64 (les_amount e),
     bool_digit (les_locked e), dec64 (les_createdAt e)]"

definition pegin_fields :: "pegin_snapshot \<Rightarrow> string list" where
  "pegin_fields p = [''pegin'', pis_pegId p, pis_btcTxId p, to_dec (unat (pis_vout p)),
     dec64 (pis_btcAmount p), pis_btcSource p, pis_aileeDest p, to_dec_int (pis_status p),
     dec64 (pis_confirmations p), dec64 (pis_initiatedTime p), dec64 (pis_completedTime p)]"

definition pegout_fields :: "pegout_snapshot \<Rightarrow> string list" where
  "pegout_fields p = [''pegout'', pos_pegId p, pos_aileeSource p, pos_btcDest p,
     dec64 (pos_aileeBurnAmount p), dec64 (pos_btcReleaseAmount p), to_dec_int (pos_status p),
     pos_anchorCommitmentHash p, dec64 (pos_initiatedTime p), dec64 (pos_completedTime p)]"

definition task_fields :: "task_snapshot \<Rightarrow> string list" where
  "task_fields t = [''task'', ts_taskId t, to_dec_int (ts_taskType t), to_dec_int (ts_priority t),
     ts_submitterId t, dec64 (ts_submittedAtMs t), ts_payloadHash t, ts_anchorCommitmentHash t]"

definition canonical_rows :: "l2_snapshot \<Rightarrow> string list list" where
  "canonical_rows s =
     [''balances'', to_dec (length (sn_balances s))] # map balance_fields (sn_balances s) @
     [''escrows'', to_dec (length (sn_escrows s))] # map escrow_fields (sn_escrows s) @
     [''pegins'', to_dec (length (sn_pegins s))] # map pegin_fields (sn_pegins s) @
     [''pegouts'', to_dec (length (sn_pegouts s))] # map pegout_fields (sn_pegouts s) @
     [''tasks'', to_dec (length (sn_tasks s))] # map task_fields (sn_tasks s)"

definition canonicalizeSnapshot :: "l2_snapshot \<Rightarrow> string" where
  "canonicalizeSnapshot s =
     ''L2STATE|v1'' @ nl @ concat (map (\<lambda>row. colons row @ nl) (canonical_rows s))"

definition computeL2StateRoot :: "(bytes \<Rightarrow> bytes) \<Rightarrow> l2_snapshot \<Rightarrow> string" where
  "computeL2StateRoot sha s = sha256Hex sha (canonicalizeSnapshot (sortSnapshot s))"

text \<open>\<open>std::tolower\<close> in the C locale.\<close>

definition tolower_char :: "char \<Rightarrow> char" where
  "tolower_char c = (let n = (of_char c :: nat) in if 65 \<le> n \<and> n \<le> 90 then char_of (n + 32) else c)"

definition toLower :: "string \<Rightarrow> string" where
  "toLower s = map tolower_char s"

datatype anchor_error = RootMismatch string string | HashMismatch string string

definition validateAnchorCommitment ::
    "(bytes \<Rightarrow> bytes) \<Rightarrow> anchor_snapshot \<Rightarrow> string \<Rightarrow> anchor_error option" where
  "validateAnchorCommitment sha a expectedStateRoot =
     (if as_l2StateRoot a \<noteq> expectedStateRoot then Some (RootMismatch expectedStateRoot (as_l2StateRoot a))
      else let computedHash = sha256Hex sha (as_payload a) in
        if toLower computedHash \<noteq> toLower (as_hash a) then Some (HashMismatch computedHash (as_hash a))
        else None)"

section \<open>Capturing\<close>

record task_payload =
  tp_taskId :: string
  tp_taskType :: int
  tp_priority :: int
  tp_submitterId :: string
  tp_submittedAtMs :: u64
  tp_anchorCommitmentHash :: "string option"
  tp_payloadBytes :: bytes

definition hashPayloadBytes :: "(bytes \<Rightarrow> bytes) \<Rightarrow> bytes \<Rightarrow> string" where
  "hashPayloadBytes sha payload = (if payload = [] then [] else hex_of (sha payload))"

definition sortedTasks :: "task_payload list \<Rightarrow> task_payload list" where
  "sortedTasks tasks = sort_key tp_taskId tasks"

text \<open>The tasks are what the scheduling engine's queue holds.\<close>

definition captureSnapshot ::
    "(bytes \<Rightarrow> bytes) \<Rightarrow> ledger \<Rightarrow> bridge \<Rightarrow> task_payload list \<Rightarrow> anchor_snapshot option \<Rightarrow> u64 \<Rightarrow> l2_snapshot" where
  "captureSnapshot sha L b queue anchor now =
     sortSnapshot \<lparr>sn_timestampMs = now,
       sn_balances = ls_balances (snapshot L), sn_escrows = ls_escrows (snapshot L),
       sn_pegins = bs_pegins (snapshotBridgeState b), sn_pegouts = bs_pegouts (snapshotBridgeState b),
       sn_tasks = map (\<lambda>t. \<lparr>ts_taskId = tp_taskId t, ts_taskType = tp_taskType t,
           ts_priority = tp_priority t, ts_submitterId = tp_submitterId t,
           ts_submittedAtMs = tp_submittedAtMs t, ts_payloadHash = hashPayloadBytes sha (tp_payloadBytes t),
           ts_anchorCommitmentHash =
             (case tp_anchorCommitmentHash t of Some h \<Rightarrow> h | None \<Rightarrow> [])\<rparr>) (sortedTasks queue),
       sn_anchor = anchor\<rparr>"

section \<open>State differences\<close>

text \<open>\<open>verifyDiff\<close>: the Halo2 verifier behind the foreign function interface is the parameter \<open>halo2\<close>.\<close>

definition verifyDiff :: "(string \<Rightarrow> string \<Rightarrow> bool) \<Rightarrow> string \<Rightarrow> state_diff \<Rightarrow> bool" where
  "verifyDiff halo2 zkProofData d =
     (if df_priorStateRoot d = [] \<or> df_newStateRoot d = [] then False
      else let publicInput = df_priorStateRoot d @ '':'' @ df_newStateRoot d in
        if zkProofData = [] \<or> publicInput = [] then False else halo2 zkProofData publicInput)"

definition calculateStateDiff ::
    "(bytes \<Rightarrow> bytes) \<Rightarrow> l2_snapshot \<Rightarrow> l2_snapshot \<Rightarrow> u64 \<Rightarrow> state_diff" where
  "calculateStateDiff sha old new height =
     (let prior = computeL2StateRoot sha old; next_root = computeL2StateRoot sha new in
      \<lparr>df_height = height, df_priorStateRoot = prior, df_newStateRoot = next_root,
       df_serializedChanges = str_bytes (''DIFF_DATA:'' @ prior @ ''->'' @ next_root),
       df_proofRefs = [], df_timestampMs = sn_timestampMs new\<rparr>)"

definition applyStateDiff ::
    "(bytes \<Rightarrow> bytes) \<Rightarrow> l2_snapshot \<Rightarrow> state_diff \<Rightarrow> bool \<times> l2_snapshot" where
  "applyStateDiff sha s d =
     (if computeL2StateRoot sha s \<noteq> df_priorStateRoot d then (False, s)
      else (True, s\<lparr>sn_timestampMs :=
        if df_timestampMs d > 0 then df_timestampMs d else sn_timestampMs s + 1000\<rparr>))"

section \<open>The snapshot log\<close>

fun spaced :: "string list \<Rightarrow> string" where
  "spaced [] = []"
| "spaced [f] = f"
| "spaced (f # g # fs) = f @ '' '' @ spaced (g # fs)"

definition balance_line :: "ledger_balance_snapshot \<Rightarrow> string" where
  "balance_line b = spaced [''balance'', quoted (lbs_peerId b), dec64 (lbs_balance b)]"

definition escrow_line :: "ledger_escrow_snapshot \<Rightarrow> string" where
  "escrow_line e = spaced [''escrow'', quoted (les_taskId e), quoted (les_clientPeerId e),
     dec64 (les_amount e), bool_digit (les_locked e), dec64 (les_createdAt e)]"

definition pegin_line :: "pegin_snapshot \<Rightarrow> string" where
  "pegin_line p = spaced [''pegin'', quoted (pis_pegId p), quoted (pis_btcTxId p),
     to_dec (unat (pis_vout p)), dec64 (pis_btcAmount p), quoted (pis_btcSource p),
     quoted (pis_aileeDest p), to_dec_int (pis_status p), dec64 (pis_confirmations p),
     dec64 (pis_initiatedTime p), dec64 (pis_completedTime p)]"

definition pegout_line :: "pegout_snapshot \<Rightarrow> string" where
  "pegout_line p = spaced [''pegout'', quoted (pos_pegId p), quoted (pos_aileeSource p),
     quoted (pos_btcDest p), dec64 (pos_aileeBurnAmount p), dec64 (pos_btcReleaseAmount p),
     to_dec_int (pos_status p), quoted (pos_anchorCommitmentHash p), dec64 (pos_initiatedTime p),
     dec64 (pos_completedTime p)]"

definition task_line :: "task_snapshot \<Rightarrow> string" where
  "task_line t = spaced [''task'', quoted (ts_taskId t), to_dec_int (ts_taskType t),
     to_dec_int (ts_priority t), quoted (ts_submitterId t), dec64 (ts_submittedAtMs t),
     quoted (ts_payloadHash t), quoted (ts_anchorCommitmentHash t)]"

definition anchor_line :: "anchor_snapshot option \<Rightarrow> string" where
  "anchor_line a =
     (case a of
        None \<Rightarrow> ''anchor none''
      | Some a \<Rightarrow> spaced [''anchor'', quoted (as_l2StateRoot a), dec64 (as_timestampMs a),
          quoted (as_recoveryMetadata a), quoted (as_payload a), quoted (as_hash a)])"

definition kSnapshotHeader :: string where "kSnapshotHeader = ''SNAPSHOT v1''"
definition kSnapshotEnd :: string where "kSnapshotEnd = ''END_SNAPSHOT''"

definition snapshot_lines :: "l2_snapshot \<Rightarrow> string list" where
  "snapshot_lines s =
     [kSnapshotHeader, spaced [''timestamp_ms'', dec64 (sn_timestampMs s)],
      spaced [''balances'', to_dec (length (sn_balances s))]] @ map balance_line (sn_balances s) @
     [spaced [''escrows'', to_dec (length (sn_escrows s))]] @ map escrow_line (sn_escrows s) @
     [spaced [''pegins'', to_dec (length (sn_pegins s))]] @ map pegin_line (sn_pegins s) @
     [spaced [''pegouts'', to_dec (length (sn_pegouts s))]] @ map pegout_line (sn_pegouts s) @
     [spaced [''tasks'', to_dec (length (sn_tasks s))]] @ map task_line (sn_tasks s) @
     [anchor_line (sn_anchor s), kSnapshotEnd]"

text \<open>The file system answers whether the file opens and whether the writes succeed.\<close>

definition appendSnapshotToFile :: "bool \<Rightarrow> l2_snapshot \<Rightarrow> string \<Rightarrow> bool \<times> string" where
  "appendSnapshotToFile opens s contents =
     (if \<not> opens then (False, contents)
      else (True, contents @ concat (map (\<lambda>line. line @ nl) (snapshot_lines s))))"

subsection \<open>Reading\<close>

text \<open>\<open>std::getline\<close> over the file: the lines, the last one with or without its line feed.\<close>

function file_lines :: "string \<Rightarrow> string list" where
  "file_lines [] = []"
| "file_lines (c # cs) =
     takeWhile (\<lambda>x. x \<noteq> CHR 0x0A) (c # cs) # file_lines (tl (dropWhile (\<lambda>x. x \<noteq> CHR 0x0A) (c # cs)))"
  by pat_completeness auto
termination
proof (relation "measure length")
  fix c cs
  have "length (dropWhile (\<lambda>x. x \<noteq> CHR 0x0A) (c # cs)) \<le> length (c # cs)" by (rule length_dropWhile_le)
  then show "(tl (dropWhile (\<lambda>x. x \<noteq> CHR 0x0A) (c # cs)), c # cs) \<in> measure length"
    by (cases "dropWhile (\<lambda>x. x \<noteq> CHR 0x0A) (c # cs)") auto
qed simp

text \<open>\<open>readQuoted\<close>: the value, or nothing if the stream failed.\<close>

definition readQuoted :: "istream \<Rightarrow> (string \<times> istream) option" where
  "readQuoted s = (let (v, s1) = read_quoted [] s in if is_fail s1 then None else Some (v, s1))"

abbreviation field :: "istream \<Rightarrow> (string \<Rightarrow> istream \<Rightarrow> 'a option) \<Rightarrow> 'a option" where
  "field s k \<equiv> (case readQuoted s of None \<Rightarrow> None | Some (v, s1) \<Rightarrow> k v s1)"

definition read_balance :: "istream \<Rightarrow> ledger_balance_snapshot option" where
  "read_balance s = field s (\<lambda>peerId s.
     let (balance, s) = read_unsigned 0 s in
     Some \<lparr>lbs_peerId = peerId, lbs_balance = balance\<rparr>)"

definition read_escrow :: "istream \<Rightarrow> ledger_escrow_snapshot option" where
  "read_escrow s = field s (\<lambda>taskId s. field s (\<lambda>clientPeerId s.
     let (amount, s) = read_unsigned 0 s; (locked, s) = read_int 0 s; (createdAt, s) = read_unsigned 0 s in
     Some \<lparr>les_taskId = taskId, les_clientPeerId = clientPeerId, les_amount = amount,
       les_locked = (locked \<noteq> 0), les_createdAt = createdAt\<rparr>))"

definition read_pegin :: "istream \<Rightarrow> pegin_snapshot option" where
  "read_pegin s = field s (\<lambda>pegId s. field s (\<lambda>btcTxId s.
     let (vout, s) = read_unsigned 0 s; (btcAmount, s) = read_unsigned 0 s in
     field s (\<lambda>btcSource s. field s (\<lambda>aileeDest s.
       let (status, s) = read_int 0 s; (confirmations, s) = read_unsigned 0 s;
           (initiatedTime, s) = read_unsigned 0 s; (completedTime, s) = read_unsigned 0 s in
       Some \<lparr>pis_pegId = pegId, pis_btcTxId = btcTxId, pis_vout = vout, pis_btcAmount = btcAmount,
         pis_btcSource = btcSource, pis_aileeDest = aileeDest, pis_confirmations = confirmations,
         pis_initiatedTime = initiatedTime, pis_completedTime = completedTime, pis_status = status\<rparr>))))"

definition read_pegout :: "istream \<Rightarrow> pegout_snapshot option" where
  "read_pegout s = field s (\<lambda>pegId s. field s (\<lambda>aileeSource s. field s (\<lambda>btcDest s.
     let (burn, s) = read_unsigned 0 s; (release, s) = read_unsigned 0 s; (status, s) = read_int 0 s in
     field s (\<lambda>anchorHash s.
       let (initiatedTime, s) = read_unsigned 0 s; (completedTime, s) = read_unsigned 0 s in
       Some \<lparr>pos_pegId = pegId, pos_aileeSource = aileeSource, pos_btcDest = btcDest,
         pos_aileeBurnAmount = burn, pos_btcReleaseAmount = release, pos_initiatedTime = initiatedTime,
         pos_completedTime = completedTime, pos_status = status,
         pos_anchorCommitmentHash = anchorHash\<rparr>))))"

definition read_task :: "istream \<Rightarrow> task_snapshot option" where
  "read_task s = field s (\<lambda>taskId s.
     let (taskType, s) = read_int 0 s; (priority, s) = read_int 0 s in
     field s (\<lambda>submitterId s. let (submittedAtMs, s) = read_unsigned 0 s in
       field s (\<lambda>payloadHash s. field s (\<lambda>anchorHash s.
         Some \<lparr>ts_taskId = taskId, ts_taskType = taskType, ts_priority = priority,
           ts_submitterId = submitterId, ts_submittedAtMs = submittedAtMs,
           ts_payloadHash = payloadHash, ts_anchorCommitmentHash = anchorHash\<rparr>))))"

definition read_anchor :: "istream \<Rightarrow> anchor_snapshot option" where
  "read_anchor s = field s (\<lambda>root s. let (timestampMs, s) = read_unsigned 0 s in
     field s (\<lambda>metadata s. field s (\<lambda>payload s. field s (\<lambda>hash s.
       Some \<lparr>as_l2StateRoot = root, as_timestampMs = timestampMs, as_recoveryMetadata = metadata,
         as_payload = payload, as_hash = hash\<rparr>))))"

text \<open>\<open>iss >> std::ws\<close> and \<open>peek\<close>: the next character after white space, if the stream is good.\<close>

definition skip_ws :: "istream \<Rightarrow> istream" where
  "skip_ws s =
     (if \<not> is_good s then s\<lparr>is_fail := True\<rparr>
      else let b = dropWhile is_space (is_buf s) in s\<lparr>is_buf := b, is_eof := (b = [])\<rparr>)"

definition peek :: "istream \<Rightarrow> char option" where
  "peek s = (if \<not> is_good s \<or> is_buf s = [] then None else Some (hd (is_buf s)))"

definition parse_line :: "string \<Rightarrow> l2_snapshot \<Rightarrow> l2_snapshot" where
  "parse_line line cur =
     (let (tag, s) = read_word [] (open_string line) in
      if tag = ''timestamp_ms'' then cur\<lparr>sn_timestampMs := fst (read_unsigned (sn_timestampMs cur) s)\<rparr>
      else if tag = ''balance'' then
        (case read_balance s of None \<Rightarrow> cur | Some x \<Rightarrow> cur\<lparr>sn_balances := sn_balances cur @ [x]\<rparr>)
      else if tag = ''escrow'' then
        (case read_escrow s of None \<Rightarrow> cur | Some x \<Rightarrow> cur\<lparr>sn_escrows := sn_escrows cur @ [x]\<rparr>)
      else if tag = ''pegin'' then
        (case read_pegin s of None \<Rightarrow> cur | Some x \<Rightarrow> cur\<lparr>sn_pegins := sn_pegins cur @ [x]\<rparr>)
      else if tag = ''pegout'' then
        (case read_pegout s of None \<Rightarrow> cur | Some x \<Rightarrow> cur\<lparr>sn_pegouts := sn_pegouts cur @ [x]\<rparr>)
      else if tag = ''task'' then
        (case read_task s of None \<Rightarrow> cur | Some x \<Rightarrow> cur\<lparr>sn_tasks := sn_tasks cur @ [x]\<rparr>)
      else if tag = ''anchor'' then
        (let s1 = skip_ws s in
         if peek s1 = Some CHR ''n'' then cur\<lparr>sn_anchor := None\<rparr>
         else (case read_anchor s1 of None \<Rightarrow> cur | Some x \<Rightarrow> cur\<lparr>sn_anchor := Some x\<rparr>))
      else cur)"

record load_state =
  lo_current :: l2_snapshot
  lo_inSnapshot :: bool
  lo_latest :: "l2_snapshot option"

definition load_line :: "load_state \<Rightarrow> string \<Rightarrow> load_state" where
  "load_line st line =
     (if line = [] then st
      else if line = kSnapshotHeader then st\<lparr>lo_current := empty_snapshot, lo_inSnapshot := True\<rparr>
      else if line = kSnapshotEnd \<and> lo_inSnapshot st then
        st\<lparr>lo_latest := Some (lo_current st), lo_inSnapshot := False\<rparr>
      else if \<not> lo_inSnapshot st then st
      else st\<lparr>lo_current := parse_line line (lo_current st)\<rparr>)"

definition loadLatestSnapshot :: "string \<Rightarrow> l2_snapshot option" where
  "loadLatestSnapshot contents =
     lo_latest (foldl load_line \<lparr>lo_current = empty_snapshot, lo_inSnapshot = False, lo_latest = None\<rparr>
       (file_lines contents))"

definition loadLatestSnapshotFromFile :: "string option \<Rightarrow> l2_snapshot option" where
  "loadLatestSnapshotFromFile file = (case file of None \<Rightarrow> None | Some contents \<Rightarrow> loadLatestSnapshot contents)"

section \<open>The verification tool\<close>

definition l2_verify :: "(bytes \<Rightarrow> bytes) \<Rightarrow> l2_snapshot \<Rightarrow> bool" where
  "l2_verify sha s =
     (let computedRoot = computeL2StateRoot sha s in
      case sn_anchor s of
        None \<Rightarrow> False
      | Some a \<Rightarrow> validateAnchorCommitment sha a computedRoot = None \<and>
          list_all (\<lambda>p. pos_anchorCommitmentHash p \<noteq> [] \<and> pos_anchorCommitmentHash p = as_hash a)
            (sn_pegouts s))"

end
