(* ===== verification/L2State_Props.thy ===== *)
theory L2State_Props
  imports L2State
begin

text \<open>
  Snapshots: what the log gives back, what a state root binds and what it does not, and what a
  state difference does.
\<close>

section \<open>Lines\<close>

lemma space_facts [simp]: "is_space CHR '' ''" "\<not> is_digit CHR '' ''"
  by (simp_all add: is_space_def is_digit_def)

lemma read_tag:
  assumes "tag \<noteq> []" "list_all (\<lambda>c. \<not> is_space c) tag"
  shows "read_word [] (open_string (tag @ CHR '' '' # rest)) =
    (tag, \<lparr>is_buf = CHR '' '' # rest, is_eof = False, is_fail = False\<rparr>)"
proof -
  have "takeWhile (\<lambda>c. \<not> is_space c) (tag @ CHR '' '' # rest) = tag"
    "dropWhile (\<lambda>c. \<not> is_space c) (tag @ CHR '' '' # rest) = CHR '' '' # rest"
    using assms(2) by (induction tag) (auto simp: is_space_def)
  moreover have "dropWhile is_space (tag @ CHR '' '' # rest) = tag @ CHR '' '' # rest"
    using assms by (cases tag) auto
  ultimately show ?thesis
    using assms(1) by (simp add: read_word_def open_string_def sentry_def is_good_def Let_def)
qed

lemma field_shown:
  "readQuoted \<lparr>is_buf = CHR '' '' # quoted v @ rest, is_eof = False, is_fail = False\<rparr> =
     Some (v, \<lparr>is_buf = rest, is_eof = False, is_fail = False\<rparr>)"
  using read_quoted_shown [of "'' ''" "[]" v rest] by (simp add: readQuoted_def)

lemmas word_shown = read_unsigned_shown [of "'' ''", simplified]
lemmas int_shown = read_int_shown [of "'' ''", simplified]

lemma last_shown:
  "readQuoted \<lparr>is_buf = CHR '' '' # quoted v, is_eof = False, is_fail = False\<rparr> =
     Some (v, \<lparr>is_buf = [], is_eof = False, is_fail = False\<rparr>)"
  "read_unsigned old \<lparr>is_buf = CHR '' '' # to_dec (unat (w :: 'a::len word)), is_eof = False, is_fail = False\<rparr> =
     (w, \<lparr>is_buf = [], is_eof = True, is_fail = False\<rparr>)"
  using field_shown [of v "[]"] word_shown [of "[]" old w] by simp_all

definition small_int :: "int \<Rightarrow> bool" where
  "small_int i \<longleftrightarrow> 0 \<le> i \<and> i \<le> int32_max"

lemma bool_digit_read:
  "read_int 0 \<lparr>is_buf = CHR '' '' # bool_digit b @ CHR '' '' # rest, is_eof = False, is_fail = False\<rparr> =
     (if b then 1 else 0, \<lparr>is_buf = CHR '' '' # rest, is_eof = False, is_fail = False\<rparr>)"
proof -
  have digits: "to_dec_int 1 = ''1''" "to_dec_int 0 = ''0''" by code_simp+
  have "bool_digit b = to_dec_int (if b then 1 else 0)"
    using digits by (simp add: bool_digit_def)
  then show ?thesis using int_shown [of "CHR '' '' # rest" "if b then 1 else 0" 0] by (simp add: int32_max_def)
qed

lemma parse_balance: "parse_line (balance_line b) cur = cur\<lparr>sn_balances := sn_balances cur @ [b]\<rparr>"
  using read_tag [of "''balance''"]
  by (simp add: parse_line_def balance_line_def read_balance_def field_shown last_shown is_space_def)

lemma parse_escrow: "parse_line (escrow_line e) cur = cur\<lparr>sn_escrows := sn_escrows cur @ [e]\<rparr>"
  using read_tag [of "''escrow''"]
  by (simp add: parse_line_def escrow_line_def read_escrow_def field_shown last_shown word_shown
      bool_digit_read is_space_def)

definition sane_pegin :: "pegin_snapshot \<Rightarrow> bool" where
  "sane_pegin p \<longleftrightarrow> small_int (pis_status p)"

lemma parse_pegin:
  "sane_pegin p \<Longrightarrow> parse_line (pegin_line p) cur = cur\<lparr>sn_pegins := sn_pegins cur @ [p]\<rparr>"
  using read_tag [of "''pegin''"]
  by (simp add: parse_line_def pegin_line_def read_pegin_def field_shown last_shown word_shown int_shown
      sane_pegin_def small_int_def is_space_def)

definition sane_pegout :: "pegout_snapshot \<Rightarrow> bool" where
  "sane_pegout p \<longleftrightarrow> small_int (pos_status p)"

lemma parse_pegout:
  "sane_pegout p \<Longrightarrow> parse_line (pegout_line p) cur = cur\<lparr>sn_pegouts := sn_pegouts cur @ [p]\<rparr>"
  using read_tag [of "''pegout''"]
  by (simp add: parse_line_def pegout_line_def read_pegout_def field_shown last_shown word_shown int_shown
      sane_pegout_def small_int_def is_space_def)

definition sane_task :: "task_snapshot \<Rightarrow> bool" where
  "sane_task t \<longleftrightarrow> small_int (ts_taskType t) \<and> small_int (ts_priority t)"

lemma parse_task:
  "sane_task t \<Longrightarrow> parse_line (task_line t) cur = cur\<lparr>sn_tasks := sn_tasks cur @ [t]\<rparr>"
  using read_tag [of "''task''"]
  by (simp add: parse_line_def task_line_def read_task_def field_shown last_shown word_shown int_shown
      sane_task_def small_int_def is_space_def)

lemma parse_timestamp:
  "parse_line (spaced [''timestamp_ms'', dec64 t]) cur = cur\<lparr>sn_timestampMs := t\<rparr>"
  using read_tag [of "''timestamp_ms''"]
  by (simp add: parse_line_def last_shown is_space_def)

lemma parse_count:
  assumes "tag \<in> {''balances'', ''escrows'', ''pegins'', ''pegouts'', ''tasks''}"
  shows "parse_line (spaced [tag, to_dec n]) cur = cur"
  using assms read_tag [of tag "to_dec n"] by (auto simp: parse_line_def is_space_def)

lemma quoted_head: "quoted v = CHR 0x22 # tl (quoted v)"
  by (simp add: quoted_def)

lemma parse_anchor_some:
  "parse_line (anchor_line (Some a)) cur = cur\<lparr>sn_anchor := Some a\<rparr>"
proof -
  let ?rest = "'' '' @ dec64 (as_timestampMs a) @ '' '' @ quoted (as_recoveryMetadata a) @ '' '' @
    quoted (as_payload a) @ '' '' @ quoted (as_hash a)"
  have skip: "skip_ws \<lparr>is_buf = CHR '' '' # quoted (as_l2StateRoot a) @ ?rest, is_eof = False, is_fail = False\<rparr> =
      \<lparr>is_buf = quoted (as_l2StateRoot a) @ ?rest, is_eof = False, is_fail = False\<rparr>"
    by (subst quoted_head, subst (2) quoted_head) (simp add: skip_ws_def is_good_def is_space_def)
  have field: "readQuoted \<lparr>is_buf = quoted (as_l2StateRoot a) @ ?rest, is_eof = False, is_fail = False\<rparr> =
      Some (as_l2StateRoot a, \<lparr>is_buf = ?rest, is_eof = False, is_fail = False\<rparr>)"
    using read_quoted_shown [of "[]" "[]" "as_l2StateRoot a" ?rest] by (simp add: readQuoted_def)
  have "peek \<lparr>is_buf = quoted (as_l2StateRoot a) @ ?rest, is_eof = False, is_fail = False\<rparr> = Some CHR 0x22"
    by (subst quoted_head) (simp add: peek_def is_good_def)
  then show ?thesis
    using read_tag [of "''anchor''" "quoted (as_l2StateRoot a) @ ?rest"] skip field
    by (simp add: parse_line_def anchor_line_def read_anchor_def field_shown last_shown word_shown is_space_def)
qed

lemma parse_anchor:
  "sn_anchor cur = None \<Longrightarrow> parse_line (anchor_line a) cur = cur\<lparr>sn_anchor := a\<rparr>"
proof (cases a)
  case None
  assume "sn_anchor cur = None"
  have "skip_ws \<lparr>is_buf = CHR '' '' # ''none'', is_eof = False, is_fail = False\<rparr> =
      \<lparr>is_buf = ''none'', is_eof = False, is_fail = False\<rparr>"
    by (simp add: skip_ws_def is_good_def is_space_def)
  then show ?thesis
    using None read_tag [of "''anchor''" "''none''"]
    by (simp add: parse_line_def anchor_line_def peek_def is_good_def is_space_def)
qed (simp add: parse_anchor_some)

section \<open>Files\<close>

abbreviation one_line :: "string \<Rightarrow> bool" where
  "one_line l \<equiv> CHR 0x0A \<notin> set l"

lemma file_lines_line:
  assumes "one_line l"
  shows "file_lines (l @ CHR 0x0A # rest) = l # file_lines rest"
  using takeWhile_field [OF assms, of rest] by (cases l) auto

lemma file_lines_all:
  "list_all one_line ls \<Longrightarrow> file_lines (concat (map (\<lambda>line. line @ nl) ls)) = ls"
  by (induction ls) (simp_all add: file_lines_line)

lemma split_first_line:
  assumes "CHR 0x0A \<in> set f"
  obtains l g where "f = l @ CHR 0x0A # g" "one_line l"
  using split_list_first [OF assms] by blast

lemma file_lines_append:
  "f = [] \<or> last f = CHR 0x0A \<Longrightarrow> file_lines (f @ g) = file_lines f @ file_lines g"
proof (induction "length f" arbitrary: f rule: less_induct)
  case less
  show ?case
  proof (cases f)
    case (Cons c cs)
    then have "CHR 0x0A \<in> set f" using less.prems by (metis last_in_set list.distinct(1))
    then obtain l h where f: "f = l @ CHR 0x0A # h" "one_line l" by (rule split_first_line)
    then have "h = [] \<or> last h = CHR 0x0A" using less.prems by (cases "h = []") auto
    moreover have "length h < length f" using f by simp
    ultimately have "file_lines (h @ g) = file_lines h @ file_lines g" using less.hyps by blast
    with f show ?thesis by (simp add: file_lines_line)
  qed simp
qed

lemma load_plain:
  assumes "lo_inSnapshot st" "line \<noteq> []" "hd line \<noteq> CHR ''S''" "hd line \<noteq> CHR ''E''"
  shows "load_line st line = st\<lparr>lo_current := parse_line line (lo_current st)\<rparr>"
  using assms by (auto simp: load_line_def kSnapshotHeader_def kSnapshotEnd_def)

lemma load_all:
  assumes "\<And>x cur. x \<in> set xs \<Longrightarrow> parse_line (show_line x) cur = add cur x"
    and "\<And>x. x \<in> set xs \<Longrightarrow> show_line x \<noteq> [] \<and> hd (show_line x) \<noteq> CHR ''S'' \<and> hd (show_line x) \<noteq> CHR ''E''"
  shows "lo_inSnapshot st \<Longrightarrow>
    foldl load_line st (map show_line xs) = st\<lparr>lo_current := foldl add (lo_current st) xs\<rparr>"
  using assms by (induction xs arbitrary: st) (simp_all add: load_plain)

lemma push_balances: "foldl (\<lambda>c x. c\<lparr>sn_balances := sn_balances c @ [x]\<rparr>) cur xs = cur\<lparr>sn_balances := sn_balances cur @ xs\<rparr>"
  by (induction xs arbitrary: cur) simp_all

lemma push_escrows: "foldl (\<lambda>c x. c\<lparr>sn_escrows := sn_escrows c @ [x]\<rparr>) cur xs = cur\<lparr>sn_escrows := sn_escrows cur @ xs\<rparr>"
  by (induction xs arbitrary: cur) simp_all

lemma push_pegins: "foldl (\<lambda>c x. c\<lparr>sn_pegins := sn_pegins c @ [x]\<rparr>) cur xs = cur\<lparr>sn_pegins := sn_pegins cur @ xs\<rparr>"
  by (induction xs arbitrary: cur) simp_all

lemma push_pegouts: "foldl (\<lambda>c x. c\<lparr>sn_pegouts := sn_pegouts c @ [x]\<rparr>) cur xs = cur\<lparr>sn_pegouts := sn_pegouts cur @ xs\<rparr>"
  by (induction xs arbitrary: cur) simp_all

lemma push_tasks: "foldl (\<lambda>c x. c\<lparr>sn_tasks := sn_tasks c @ [x]\<rparr>) cur xs = cur\<lparr>sn_tasks := sn_tasks cur @ xs\<rparr>"
  by (induction xs arbitrary: cur) simp_all

lemmas push_folds = push_balances push_escrows push_pegins push_pegouts push_tasks

text \<open>Strings without a line feed, and enumerations within the range of an \<open>int\<close>.\<close>

definition sane_snapshot :: "l2_snapshot \<Rightarrow> bool" where
  "sane_snapshot s \<longleftrightarrow>
     list_all (\<lambda>b. one_line (lbs_peerId b)) (sn_balances s) \<and>
     list_all (\<lambda>e. one_line (les_taskId e) \<and> one_line (les_clientPeerId e)) (sn_escrows s) \<and>
     list_all (\<lambda>p. sane_pegin p \<and> one_line (pis_pegId p) \<and> one_line (pis_btcTxId p) \<and>
       one_line (pis_btcSource p) \<and> one_line (pis_aileeDest p)) (sn_pegins s) \<and>
     list_all (\<lambda>p. sane_pegout p \<and> one_line (pos_pegId p) \<and> one_line (pos_aileeSource p) \<and>
       one_line (pos_btcDest p) \<and> one_line (pos_anchorCommitmentHash p)) (sn_pegouts s) \<and>
     list_all (\<lambda>t. sane_task t \<and> one_line (ts_taskId t) \<and> one_line (ts_submitterId t) \<and>
       one_line (ts_payloadHash t) \<and> one_line (ts_anchorCommitmentHash t)) (sn_tasks s) \<and>
     (\<forall>a. sn_anchor s = Some a \<longrightarrow> one_line (as_l2StateRoot a) \<and> one_line (as_recoveryMetadata a) \<and>
       one_line (as_payload a) \<and> one_line (as_hash a))"

lemma load_sections:
  assumes "sane_snapshot s" "lo_inSnapshot st"
  shows "foldl load_line st (map balance_line (sn_balances s)) =
      st\<lparr>lo_current := (lo_current st)\<lparr>sn_balances := sn_balances (lo_current st) @ sn_balances s\<rparr>\<rparr>"
    and "foldl load_line st (map escrow_line (sn_escrows s)) =
      st\<lparr>lo_current := (lo_current st)\<lparr>sn_escrows := sn_escrows (lo_current st) @ sn_escrows s\<rparr>\<rparr>"
    and "foldl load_line st (map pegin_line (sn_pegins s)) =
      st\<lparr>lo_current := (lo_current st)\<lparr>sn_pegins := sn_pegins (lo_current st) @ sn_pegins s\<rparr>\<rparr>"
    and "foldl load_line st (map pegout_line (sn_pegouts s)) =
      st\<lparr>lo_current := (lo_current st)\<lparr>sn_pegouts := sn_pegouts (lo_current st) @ sn_pegouts s\<rparr>\<rparr>"
    and "foldl load_line st (map task_line (sn_tasks s)) =
      st\<lparr>lo_current := (lo_current st)\<lparr>sn_tasks := sn_tasks (lo_current st) @ sn_tasks s\<rparr>\<rparr>"
proof -
  note sane = assms(1) [unfolded sane_snapshot_def list_all_iff]
  show "foldl load_line st (map balance_line (sn_balances s)) =
      st\<lparr>lo_current := (lo_current st)\<lparr>sn_balances := sn_balances (lo_current st) @ sn_balances s\<rparr>\<rparr>"
    by (subst load_all [OF parse_balance _ assms(2)]) (simp_all add: balance_line_def push_folds)
  show "foldl load_line st (map escrow_line (sn_escrows s)) =
      st\<lparr>lo_current := (lo_current st)\<lparr>sn_escrows := sn_escrows (lo_current st) @ sn_escrows s\<rparr>\<rparr>"
    by (subst load_all [OF parse_escrow _ assms(2)]) (simp_all add: escrow_line_def push_folds)
  show "foldl load_line st (map pegin_line (sn_pegins s)) =
      st\<lparr>lo_current := (lo_current st)\<lparr>sn_pegins := sn_pegins (lo_current st) @ sn_pegins s\<rparr>\<rparr>"
    by (subst load_all [OF parse_pegin _ assms(2)]) (use sane in \<open>simp_all add: pegin_line_def push_folds\<close>)
  show "foldl load_line st (map pegout_line (sn_pegouts s)) =
      st\<lparr>lo_current := (lo_current st)\<lparr>sn_pegouts := sn_pegouts (lo_current st) @ sn_pegouts s\<rparr>\<rparr>"
    by (subst load_all [OF parse_pegout _ assms(2)]) (use sane in \<open>simp_all add: pegout_line_def push_folds\<close>)
  show "foldl load_line st (map task_line (sn_tasks s)) =
      st\<lparr>lo_current := (lo_current st)\<lparr>sn_tasks := sn_tasks (lo_current st) @ sn_tasks s\<rparr>\<rparr>"
    by (subst load_all [OF parse_task _ assms(2)]) (use sane in \<open>simp_all add: task_line_def push_folds\<close>)
qed

lemma load_count:
  assumes "lo_inSnapshot st" "tag \<in> {''balances'', ''escrows'', ''pegins'', ''pegouts'', ''tasks''}"
  shows "load_line st (spaced [tag, to_dec n]) = st"
  using assms(2) parse_count [OF assms(2), of n "lo_current st"]
  by (subst load_plain [OF assms(1)]) auto

lemma load_header: "load_line st kSnapshotHeader = st\<lparr>lo_current := empty_snapshot, lo_inSnapshot := True\<rparr>"
  by (simp add: load_line_def kSnapshotHeader_def)

lemma load_end:
  "lo_inSnapshot st \<Longrightarrow> load_line st kSnapshotEnd = st\<lparr>lo_latest := Some (lo_current st), lo_inSnapshot := False\<rparr>"
  by (simp add: load_line_def kSnapshotHeader_def kSnapshotEnd_def)

lemma load_time:
  "lo_inSnapshot st \<Longrightarrow> load_line st (spaced [''timestamp_ms'', dec64 t]) =
     st\<lparr>lo_current := (lo_current st)\<lparr>sn_timestampMs := t\<rparr>\<rparr>"
  by (subst load_plain) (simp_all add: parse_timestamp del: spaced.simps, simp_all)

lemma load_anchor:
  "lo_inSnapshot st \<Longrightarrow> sn_anchor (lo_current st) = None \<Longrightarrow> load_line st (anchor_line a) =
     st\<lparr>lo_current := (lo_current st)\<lparr>sn_anchor := a\<rparr>\<rparr>"
proof -
  assume "lo_inSnapshot st" "sn_anchor (lo_current st) = None"
  moreover have "anchor_line a \<noteq> [] \<and> hd (anchor_line a) = CHR ''a''"
    by (simp add: anchor_line_def split: option.split)
  ultimately show ?thesis by (simp add: load_plain parse_anchor)
qed

lemma load_lines:
  assumes "sane_snapshot s"
  shows "lo_latest (foldl load_line st (snapshot_lines s)) = Some s"
  unfolding snapshot_lines_def foldl_append foldl.simps load_header
  by (simp add: load_sections [OF assms] load_count load_end load_time load_anchor empty_snapshot_def
      del: spaced.simps)

lemma one_line_dec [simp]: "one_line (to_dec n)"
  using to_dec_digits [of n] by (auto simp: list_all_iff is_digit_def)

lemma one_line_dec_int [simp]: "one_line (to_dec_int i)"
  by (simp add: to_dec_int_def)

lemma line_feed_in [simp]:
  "CHR 0x0A \<in> set (quoted v) \<longleftrightarrow> CHR 0x0A \<in> set v" "CHR 0x0A \<notin> set (bool_digit b)"
  by (auto simp: quoted_def bool_digit_def)

lemma one_line_snapshot:
  assumes "sane_snapshot s"
  shows "list_all one_line (snapshot_lines s)"
proof -
  note sane = assms [unfolded sane_snapshot_def list_all_iff]
  have "one_line (anchor_line (sn_anchor s))"
    using sane by (auto simp: anchor_line_def split: option.split)
  then show ?thesis
    using sane unfolding list_all_iff snapshot_lines_def
    by (auto simp: kSnapshotHeader_def kSnapshotEnd_def balance_line_def escrow_line_def pegin_line_def
        pegout_line_def task_line_def)
qed

text \<open>
  C24. The snapshot log: whatever complete lines are in the file, appending a snapshot and loading
  gives back that snapshot, field for field, with quotes, backslashes and spaces in its strings;
  the only condition on strings is that they have no line feed.
\<close>

theorem snapshot_log_roundtrip:
  assumes "sane_snapshot s" "log = [] \<or> last log = CHR 0x0A"
  shows "loadLatestSnapshotFromFile (Some (snd (appendSnapshotToFile True s log))) = Some s"
  using load_lines [OF assms(1)] file_lines_append [OF assms(2)] file_lines_all [OF one_line_snapshot [OF assms(1)]]
  by (simp add: loadLatestSnapshotFromFile_def loadLatestSnapshot_def appendSnapshotToFile_def)

section \<open>State roots\<close>

lemma set_colons: "set (colons fs) \<subseteq> \<Union> (set ` set fs) \<union> {CHR '':''}"
  by (induction fs rule: colons.induct) auto

lemma colons_inj:
  "fs \<noteq> [] \<Longrightarrow> gs \<noteq> [] \<Longrightarrow> \<forall>f \<in> set fs. CHR '':'' \<notin> set f \<Longrightarrow> \<forall>g \<in> set gs. CHR '':'' \<notin> set g \<Longrightarrow>
   colons fs = colons gs \<Longrightarrow> fs = gs"
proof (induction fs arbitrary: gs rule: colons.induct)
  case (2 f)
  then show ?case by (cases gs rule: colons.cases) auto
next
  case (3 f g fs)
  show ?case
  proof (cases gs rule: colons.cases)
    case (3 f' g' fs')
    have "f @ CHR '':'' # colons (g # fs) = f' @ CHR '':'' # colons (g' # fs')"
      using "3.prems"(5) 3 by simp
    moreover have "CHR '':'' \<notin> set f" "CHR '':'' \<notin> set f'" using "3.prems" 3 by auto
    ultimately have "f = f' \<and> colons (g # fs) = colons (g' # fs')"
      by (metis list.inject takeWhile_field)
    with "3.IH" [of "g' # fs'"] "3.prems" 3 show ?thesis by simp
  qed (use "3.prems" in auto)
qed simp

definition clean_field :: "string \<Rightarrow> bool" where
  "clean_field f \<longleftrightarrow> CHR '':'' \<notin> set f \<and> CHR 0x0A \<notin> set f"

lemma rows_inj:
  assumes "\<forall>r \<in> set rs. r \<noteq> [] \<and> list_all clean_field r" "\<forall>r \<in> set ss. r \<noteq> [] \<and> list_all clean_field r"
    and "concat (map (\<lambda>row. colons row @ nl) rs) = concat (map (\<lambda>row. colons row @ nl) ss)"
  shows "rs = ss"
proof -
  have lines: "file_lines (concat (map (\<lambda>line. line @ nl) (map colons ts))) = map colons ts"
    if "\<forall>r \<in> set ts. r \<noteq> [] \<and> list_all clean_field r" for ts
  proof (rule file_lines_all)
    show "list_all one_line (map colons ts)"
      using that set_colons by (fastforce simp: list_all_iff clean_field_def)
  qed
  have "map colons rs = map colons ss"
    using lines [OF assms(1)] lines [OF assms(2)] assms(3) by (simp add: o_def)
  moreover have "inj_on colons (set rs \<union> set ss)"
    using assms(1,2) by (intro inj_onI colons_inj) (auto simp: list_all_iff clean_field_def)
  ultimately show ?thesis by (rule map_inj_on)
qed

lemma to_dec_inj: "to_dec m = to_dec n \<longleftrightarrow> m = n"
  by (metis dec_value_to_dec)

lemma dec_word_inj: "to_dec (unat (a :: 'a::len word)) = to_dec (unat b) \<longleftrightarrow> a = b"
  by (simp add: to_dec_inj word_unat_eq_iff)

lemma dec_int_inj: "small_int i \<Longrightarrow> small_int j \<Longrightarrow> to_dec_int i = to_dec_int j \<longleftrightarrow> i = j"
  by (auto simp: to_dec_int_def small_int_def to_dec_inj)

lemma bool_digit_inj: "bool_digit a = bool_digit b \<longleftrightarrow> a = b"
  by (simp add: bool_digit_def)

lemmas field_inj = dec_word_inj dec_int_inj bool_digit_inj

text \<open>Identifiers without the two separators of the canonical text.\<close>

definition clean_snapshot :: "l2_snapshot \<Rightarrow> bool" where
  "clean_snapshot s \<longleftrightarrow>
     list_all (\<lambda>b. clean_field (lbs_peerId b)) (sn_balances s) \<and>
     list_all (\<lambda>e. clean_field (les_taskId e) \<and> clean_field (les_clientPeerId e)) (sn_escrows s) \<and>
     list_all (\<lambda>p. sane_pegin p \<and> clean_field (pis_pegId p) \<and> clean_field (pis_btcTxId p) \<and>
       clean_field (pis_btcSource p) \<and> clean_field (pis_aileeDest p)) (sn_pegins s) \<and>
     list_all (\<lambda>p. sane_pegout p \<and> clean_field (pos_pegId p) \<and> clean_field (pos_aileeSource p) \<and>
       clean_field (pos_btcDest p) \<and> clean_field (pos_anchorCommitmentHash p)) (sn_pegouts s) \<and>
     list_all (\<lambda>t. sane_task t \<and> clean_field (ts_taskId t) \<and> clean_field (ts_submitterId t) \<and>
       clean_field (ts_payloadHash t) \<and> clean_field (ts_anchorCommitmentHash t)) (sn_tasks s)"

lemma clean_sort: "clean_snapshot (sortSnapshot s) = clean_snapshot s"
  by (simp add: clean_snapshot_def sortSnapshot_def list_all_iff)

lemma clean_dec [simp]: "clean_field (to_dec n)"
  using to_dec_digits [of n] by (auto simp: clean_field_def list_all_iff is_digit_def)

lemma clean_dec_int [simp]: "clean_field (to_dec_int i)"
  using clean_dec [of "nat i"] clean_dec [of "nat (- i)"] by (auto simp: clean_field_def to_dec_int_def)

lemma clean_bool [simp]: "clean_field (bool_digit b)"
  by (simp add: clean_field_def bool_digit_def)

lemma clean_rows:
  "clean_snapshot s \<Longrightarrow> \<forall>r \<in> set (canonical_rows s). r \<noteq> [] \<and> list_all clean_field r"
  by (auto simp: clean_snapshot_def canonical_rows_def list_all_iff balance_fields_def escrow_fields_def
      pegin_fields_def pegout_fields_def task_fields_def)
     (simp_all add: clean_field_def)

text \<open>A kind of record is recovered from the rows by its tag.\<close>

lemma rows_by_tag:
  "filter (\<lambda>r. hd r = ''balance'') (canonical_rows s) = map balance_fields (sn_balances s)"
  "filter (\<lambda>r. hd r = ''escrow'') (canonical_rows s) = map escrow_fields (sn_escrows s)"
  "filter (\<lambda>r. hd r = ''pegin'') (canonical_rows s) = map pegin_fields (sn_pegins s)"
  "filter (\<lambda>r. hd r = ''pegout'') (canonical_rows s) = map pegout_fields (sn_pegouts s)"
  "filter (\<lambda>r. hd r = ''task'') (canonical_rows s) = map task_fields (sn_tasks s)"
  by (simp_all add: canonical_rows_def filter_map o_def balance_fields_def escrow_fields_def pegin_fields_def
      pegout_fields_def task_fields_def)

lemma rows_determine:
  assumes "clean_snapshot s" "clean_snapshot t" "canonical_rows s = canonical_rows t"
  shows "sn_balances s = sn_balances t \<and> sn_escrows s = sn_escrows t \<and> sn_pegins s = sn_pegins t \<and>
    sn_pegouts s = sn_pegouts t \<and> sn_tasks s = sn_tasks t"
proof -
  note clean = assms(1,2) [unfolded clean_snapshot_def list_all_iff]
  have "map balance_fields (sn_balances s) = map balance_fields (sn_balances t)"
    "map escrow_fields (sn_escrows s) = map escrow_fields (sn_escrows t)"
    "map pegin_fields (sn_pegins s) = map pegin_fields (sn_pegins t)"
    "map pegout_fields (sn_pegouts s) = map pegout_fields (sn_pegouts t)"
    "map task_fields (sn_tasks s) = map task_fields (sn_tasks t)"
    using assms(3) by (simp_all only: rows_by_tag [symmetric])
  moreover have "inj_on balance_fields A" "inj_on escrow_fields B" for A B
    by (auto intro!: inj_onI simp: balance_fields_def escrow_fields_def field_inj)
  moreover have "inj_on pegin_fields (set (sn_pegins s) \<union> set (sn_pegins t))"
    "inj_on pegout_fields (set (sn_pegouts s) \<union> set (sn_pegouts t))"
    "inj_on task_fields (set (sn_tasks s) \<union> set (sn_tasks t))"
    using clean by (auto intro!: inj_onI simp: pegin_fields_def pegout_fields_def task_fields_def field_inj
        sane_pegin_def sane_pegout_def sane_task_def)
  ultimately show ?thesis using map_inj_on by meson
qed

text \<open>What the root speaks of: everything but the time and the anchor.\<close>

definition rooted_content :: "l2_snapshot \<Rightarrow> l2_snapshot" where
  "rooted_content s = (sortSnapshot s)\<lparr>sn_timestampMs := 0, sn_anchor := None\<rparr>"

lemma canonical_content: "canonicalizeSnapshot (sortSnapshot s) = canonicalizeSnapshot (rooted_content s)"
  by (simp add: canonicalizeSnapshot_def canonical_rows_def rooted_content_def)

text \<open>
  Two snapshots whose identifiers have no colon and no line feed have the same state root
  exactly when they agree on balances, escrows, pegs and tasks as sorted by id, unless the hash
  function collides on their two texts; the time and the anchor do not enter.
\<close>

theorem state_root_binds:
  assumes "clean_snapshot s" "clean_snapshot t"
    and "sha (str_bytes (canonicalizeSnapshot (rooted_content s))) =
         sha (str_bytes (canonicalizeSnapshot (rooted_content t))) \<Longrightarrow>
      canonicalizeSnapshot (rooted_content s) = canonicalizeSnapshot (rooted_content t)"
  shows "computeL2StateRoot sha s = computeL2StateRoot sha t \<longleftrightarrow> rooted_content s = rooted_content t"
proof
  assume "computeL2StateRoot sha s = computeL2StateRoot sha t"
  then have "canonicalizeSnapshot (rooted_content s) = canonicalizeSnapshot (rooted_content t)"
    using assms(3) by (simp add: computeL2StateRoot_def canonical_content sha256Hex_def hex_of_inj)
  moreover have clean: "clean_snapshot (rooted_content s)" "clean_snapshot (rooted_content t)"
    using assms(1,2) clean_sort [of s] clean_sort [of t] by (simp_all add: rooted_content_def clean_snapshot_def)
  ultimately have "canonical_rows (rooted_content s) = canonical_rows (rooted_content t)"
    by (intro rows_inj clean_rows) (simp_all add: canonicalizeSnapshot_def)
  from rows_determine [OF clean this] show "rooted_content s = rooted_content t"
    by (simp add: rooted_content_def l2_snapshot.equality)
qed (simp add: computeL2StateRoot_def canonical_content)

text \<open>
  With a colon in an identifier the root is ambiguous, for every hash function: an escrow of
  task \<open>a:b\<close> for client \<open>c\<close> and one of task \<open>a\<close> for client \<open>b:c\<close> give the same state root, with the
  same amount belonging to different clients.
\<close>

theorem state_root_ambiguous:
  "computeL2StateRoot sha (s\<lparr>sn_escrows := [e\<lparr>les_taskId := a @ '':'' @ b, les_clientPeerId := c\<rparr>]\<rparr>) =
   computeL2StateRoot sha (s\<lparr>sn_escrows := [e\<lparr>les_taskId := a, les_clientPeerId := b @ '':'' @ c\<rparr>]\<rparr>)"
  by (simp add: computeL2StateRoot_def canonicalizeSnapshot_def canonical_rows_def sortSnapshot_def
      escrow_fields_def)

text \<open>
  A state difference never changes the state it is applied to, beyond its time: the
  difference from one state to another applies to the first, leaves all of its contents and its
  root as they were, and so applies again and again; the new root it announces is not reached
  unless it is the old one.
\<close>

theorem diff_never_advances:
  "let d = calculateStateDiff sha old new height; (ok, s1) = applyStateDiff sha old d in
   ok \<and> rooted_content s1 = rooted_content old \<and> computeL2StateRoot sha s1 = df_priorStateRoot d \<and>
   fst (applyStateDiff sha s1 d) \<and>
   (computeL2StateRoot sha s1 = df_newStateRoot d \<longleftrightarrow> computeL2StateRoot sha old = computeL2StateRoot sha new)"
proof -
  have same: "rooted_content (old\<lparr>sn_timestampMs := x\<rparr>) = rooted_content old" for x
    by (simp add: rooted_content_def sortSnapshot_def)
  then have "computeL2StateRoot sha (old\<lparr>sn_timestampMs := x\<rparr>) = computeL2StateRoot sha old" for x
    by (simp add: computeL2StateRoot_def canonical_content)
  with same show ?thesis by (simp add: calculateStateDiff_def applyStateDiff_def Let_def)
qed

section \<open>Line feeds\<close>

lemma quoted_body_chars: "set (fst (quoted_body acc b)) \<subseteq> set acc \<union> set b"
  by (induction acc b rule: quoted_body.induct) (auto split: list.splits)

lemma sentry_chars:
  "set (is_buf (sentry s)) \<subseteq> set (is_buf s)" "\<not> is_fail (sentry s) \<Longrightarrow> is_buf (sentry s) \<noteq> []"
  by (auto simp: sentry_def is_good_def Let_def dest: set_dropWhileD split: if_splits)

lemma read_char_chars:
  "set (is_buf (snd (read_char d s))) \<subseteq> set (is_buf s)"
  "\<not> is_fail (snd (read_char d s)) \<Longrightarrow> fst (read_char d s) \<in> set (is_buf s)"
proof -
  have "set (tl (is_buf (sentry s))) \<subseteq> set (is_buf s)"
    using sentry_chars(1) [of s] by (cases "is_buf (sentry s)") auto
  then show "set (is_buf (snd (read_char d s))) \<subseteq> set (is_buf s)"
    using sentry_chars(1) [of s] by (simp add: read_char_def Let_def)
  show "\<not> is_fail (snd (read_char d s)) \<Longrightarrow> fst (read_char d s) \<in> set (is_buf s)"
    using sentry_chars [of s] by (auto simp: read_char_def Let_def split: if_splits)
qed

lemma read_word_chars: "set (fst (read_word old s)) \<subseteq> set old \<union> set (is_buf s)"
  using sentry_chars(1) [of s] by (auto simp: read_word_def Let_def dest: set_takeWhileD)

lemma read_word_rest: "set (is_buf (snd (read_word old s))) \<subseteq> set (is_buf s)"
proof -
  have "set (dropWhile P (is_buf (sentry s))) \<subseteq> set (is_buf s)" for P
    using sentry_chars(1) [of s] set_dropWhileD by fastforce
  then show ?thesis using sentry_chars(1) [of s] by (simp add: read_word_def Let_def)
qed

lemma read_quoted_chars: "set (fst (read_quoted [] s)) \<subseteq> set (is_buf s)"
proof -
  obtain c s1 where rc: "read_char (CHR 0x00) s = (c, s1)" by (cases "read_char (CHR 0x00) s")
  have s1: "set (is_buf s1) \<subseteq> set (is_buf s)" "is_good s1 \<Longrightarrow> c \<in> set (is_buf s)"
    using read_char_chars [of "CHR 0x00" s] by (simp_all add: rc is_good_def)
  show ?thesis
    using s1 quoted_body_chars [of "[]" "is_buf s1"] read_word_chars [of "[]" "s1\<lparr>is_buf := c # is_buf s1\<rparr>"]
    by (auto simp: read_quoted_def rc)
qed

text \<open>No balance that was read from a file has a line feed in its account.\<close>

definition no_line_feed :: "l2_snapshot \<Rightarrow> bool" where
  "no_line_feed s \<longleftrightarrow> list_all (\<lambda>b. one_line (lbs_peerId b)) (sn_balances s)"

lemma parse_line_feed:
  assumes "one_line line" "no_line_feed cur"
  shows "no_line_feed (parse_line line cur)"
proof -
  obtain tag s where rw: "read_word [] (open_string line) = (tag, s)"
    by (cases "read_word [] (open_string line)")
  have "set (is_buf s) \<subseteq> set line"
    using read_word_rest [of "[]" "open_string line"] unfolding rw by (simp add: open_string_def)
  then have "one_line (lbs_peerId b)" if "read_balance s = Some b" for b
    using that assms(1) read_quoted_chars [of s]
    by (auto simp: read_balance_def readQuoted_def split_beta Let_def split: if_splits option.splits)
  with assms(2) show ?thesis
    by (auto simp: parse_line_def rw Let_def no_line_feed_def split: option.split)
qed

lemma file_lines_one_line: "line \<in> set (file_lines f) \<Longrightarrow> one_line line"
  by (induction f rule: file_lines.induct) (auto dest: set_takeWhileD simp del: takeWhile.simps dropWhile.simps)

lemma no_line_feed_empty: "no_line_feed empty_snapshot"
  by (simp add: no_line_feed_def empty_snapshot_def)

definition load_inv :: "load_state \<Rightarrow> bool" where
  "load_inv st \<longleftrightarrow> no_line_feed (lo_current st) \<and> (\<forall>s. lo_latest st = Some s \<longrightarrow> no_line_feed s)"

lemma load_inv_step: "one_line line \<Longrightarrow> load_inv st \<Longrightarrow> load_inv (load_line st line)"
  by (auto simp: load_inv_def load_line_def parse_line_feed no_line_feed_empty)

lemma loaded_no_line_feed:
  assumes "loadLatestSnapshot f = Some s"
  shows "no_line_feed s"
proof -
  let ?st = "\<lparr>lo_current = empty_snapshot, lo_inSnapshot = False, lo_latest = None\<rparr>"
  have run: "load_inv (foldl load_line st ls)" if "load_inv st" "list_all one_line ls" for st ls
    using that by (induction ls arbitrary: st) (simp_all add: load_inv_step)
  have "load_inv ?st" by (simp add: load_inv_def no_line_feed_empty)
  moreover have "list_all one_line (file_lines f)" by (simp add: list_all_iff file_lines_one_line)
  ultimately have "load_inv (foldl load_line ?st (file_lines f))" by (rule run)
  with assms show ?thesis by (simp add: loadLatestSnapshot_def load_inv_def)
qed

text \<open>
  The ledger accepts any account id of up to 256 characters. A snapshot of a ledger in which
  some account id has a line feed is never loaded again, from any file: appended to the log, it
  is not what the log gives back.
\<close>

theorem line_feed_account_lost:
  assumes "om_get (balances L) p = Some amount" "CHR 0x0A \<in> set p"
  shows "loadLatestSnapshotFromFile (Some log) \<noteq> Some (captureSnapshot sha L b queue anchor now)"
proof
  assume "loadLatestSnapshotFromFile (Some log) = Some (captureSnapshot sha L b queue anchor now)"
  then have "no_line_feed (captureSnapshot sha L b queue anchor now)"
    using loaded_no_line_feed by (simp add: loadLatestSnapshotFromFile_def)
  moreover have "\<lparr>lbs_peerId = p, lbs_balance = amount\<rparr> \<in> set (sn_balances (captureSnapshot sha L b queue anchor now))"
    using assms(1) by (force simp: captureSnapshot_def sortSnapshot_def snapshot_def om.entries_get)
  ultimately show False using assms(2) by (auto simp: no_line_feed_def list_all_iff)
qed

section \<open>Witnesses\<close>

definition demo_snapshot :: l2_snapshot where
  "demo_snapshot = empty_snapshot\<lparr>sn_timestampMs := 7,
     sn_balances := [\<lparr>lbs_peerId = ''say \"hi\"'', lbs_balance = 5\<rparr>]\<rparr>"

theorem snapshot_log_roundtrip_witness:
  "loadLatestSnapshotFromFile (Some (snd (appendSnapshotToFile True demo_snapshot (''noise'' @ nl)))) =
     Some demo_snapshot"
proof -
  have "sane_snapshot demo_snapshot"
    by (simp add: sane_snapshot_def demo_snapshot_def empty_snapshot_def)
  from snapshot_log_roundtrip [OF this, of "''noise'' @ nl"] show ?thesis by simp
qed

theorem state_root_binds_witness:
  "computeL2StateRoot id demo_snapshot \<noteq> computeL2StateRoot id empty_snapshot"
proof -
  have clean: "clean_snapshot demo_snapshot" "clean_snapshot empty_snapshot"
    by (simp_all add: clean_snapshot_def demo_snapshot_def empty_snapshot_def clean_field_def)
  have "rooted_content demo_snapshot \<noteq> rooted_content empty_snapshot"
    by (simp add: rooted_content_def demo_snapshot_def empty_snapshot_def sortSnapshot_def)
  with state_root_binds [OF clean, of id] show ?thesis by (simp add: str_bytes_inj)
qed

theorem line_feed_account_lost_witness:
  "\<forall>log sha b queue anchor now. loadLatestSnapshotFromFile (Some log) \<noteq>
     Some (captureSnapshot sha (new_ledger\<lparr>balances := om_put (nl @ ''x'') 5 om_empty\<rparr>) b queue anchor now)"
  using line_feed_account_lost [of "new_ledger\<lparr>balances := om_put (nl @ ''x'') 5 om_empty\<rparr>" "nl @ ''x''" 5]
  by simp

end
