(* ===== verification/Double_Arith.thy ===== *)
theory Double_Arith
  imports Double
begin

text \<open>
  The remaining arithmetic of \<open>double\<close> that the code uses: negation, sum, difference and quotient,
  each the exact rational result rounded once, with the IEEE rules for zeros, infinities and NaN.
  Integers up to \<open>2 ^ 53\<close> are kept exactly.
\<close>

fun d_neg :: "double \<Rightarrow> double" where
  "d_neg (Fin r) = (if r = 0 then NegZero else Fin (- r))"
| "d_neg NegZero = Fin 0"
| "d_neg PInf = NInf"
| "d_neg NInf = PInf"
| "d_neg NaN = NaN"

fun d_abs :: "double \<Rightarrow> double" where
  "d_abs (Fin r) = Fin \<bar>r\<bar>"
| "d_abs NegZero = Fin 0"
| "d_abs NInf = PInf"
| "d_abs d = d"

definition d_add :: "double \<Rightarrow> double \<Rightarrow> double" where
  "d_add a b =
     (if a = NaN \<or> b = NaN then NaN
      else if \<not> d_finite a then (if \<not> d_finite b \<and> a \<noteq> b then NaN else a)
      else if \<not> d_finite b then b
      else if d_rat a + d_rat b = 0 then
        (if d_negative a \<and> d_negative b then NegZero else Fin 0)
      else round_double (d_rat a + d_rat b))"

definition d_sub :: "double \<Rightarrow> double \<Rightarrow> double" where
  "d_sub a b = d_add a (d_neg b)"

definition d_div :: "double \<Rightarrow> double \<Rightarrow> double" where
  "d_div a b =
     (let neg = (d_negative a \<noteq> d_negative b);
          zero = (if neg then NegZero else Fin 0); inf = (if neg then NInf else PInf) in
      if a = NaN \<or> b = NaN then NaN
      else if \<not> d_finite a then (if \<not> d_finite b then NaN else inf)
      else if \<not> d_finite b then zero
      else if d_rat b = 0 then (if d_rat a = 0 then NaN else inf)
      else if d_rat a = 0 then zero
      else round_double (d_rat a / d_rat b))"

section \<open>Casts\<close>

text \<open>Truncation towards zero; out of range the result is undefined in C++, here a parameter.\<close>

definition d_trunc :: "rat \<Rightarrow> int" where
  "d_trunc r = (if 0 \<le> r then \<lfloor>r\<rfloor> else \<lceil>r\<rceil>)"

definition cast_u64 :: "(double \<Rightarrow> 64 word) \<Rightarrow> double \<Rightarrow> 64 word" where
  "cast_u64 oob x =
     (if d_finite x \<and> - 1 < d_rat x \<and> d_rat x < 2 ^ 64
      then of_int (if 0 \<le> d_rat x then \<lfloor>d_rat x\<rfloor> else 0) else oob x)"

definition cast_i32 :: "(double \<Rightarrow> int) \<Rightarrow> double \<Rightarrow> int" where
  "cast_i32 oob x =
     (if d_finite x \<and> - (2 ^ 31) - 1 < d_rat x \<and> d_rat x < 2 ^ 31 then d_trunc (d_rat x) else oob x)"

definition cast_i64 :: "(double \<Rightarrow> int) \<Rightarrow> double \<Rightarrow> int" where
  "cast_i64 oob x =
     (if d_finite x \<and> - (2 ^ 63) - 1 < d_rat x \<and> d_rat x < 2 ^ 63 then d_trunc (d_rat x) else oob x)"

text \<open>Integers converted to \<open>double\<close>.\<close>

definition double_of_int :: "int \<Rightarrow> double" where
  "double_of_int i = round_double (of_int i)"

definition double_of_u64 :: "64 word \<Rightarrow> double" where
  "double_of_u64 w = round_double (of_nat (unat w))"

section \<open>Exact integers\<close>

lemma bit_count_bounds: "0 < n \<Longrightarrow> 2 ^ (bit_count n - 1) \<le> n \<and> n < 2 ^ bit_count n \<and> 0 < bit_count n"
proof (induction n rule: bit_count.induct)
  case (1 n)
  show ?case
  proof (cases "n div 2 = 0")
    case True
    with 1(2) have "n = 1" by linarith
    then show ?thesis by (simp add: bit_count.simps)
  next
    case False
    have rec: "bit_count n = Suc (bit_count (n div 2))"
      using 1(2) by (subst bit_count.simps) simp
    obtain m where m: "bit_count (n div 2) = Suc m" "2 ^ m \<le> n div 2" "n div 2 < 2 * 2 ^ m"
      using 1 False by (metis One_nat_def Suc_pred bot_nat_0.not_eq_extremum diff_Suc_1 power_Suc)
    then show ?thesis unfolding rec by auto
  qed
qed

lemma bit_count_le: "n < 2 ^ k \<Longrightarrow> bit_count n \<le> k"
proof (rule ccontr)
  assume "n < 2 ^ k" "\<not> bit_count n \<le> k"
  then have "k \<le> bit_count n - 1" by simp
  then have "(2::nat) ^ k \<le> 2 ^ (bit_count n - 1)" by (rule power_increasing) simp
  moreover have "0 < n"
    using \<open>\<not> bit_count n \<le> k\<close> by (cases "n = 0") (simp_all add: bit_count.simps)
  ultimately show False using bit_count_bounds [of n] \<open>n < 2 ^ k\<close> by linarith
qed

lemma last_place_nat:
  assumes "0 < n" "n < 2 ^ 53"
  shows "last_place (of_nat n) = int (bit_count n) - 53" and "bit_count n \<le> 53"
proof -
  note b = bit_count_bounds [OF assms(1)]
  have q: "quotient_of (of_nat n :: rat) = (int n, 1)"
    using quotient_of_int [of "int n"] by (simp add: of_int_of_nat_eq)
  have one: "bit_count 1 = 1" by (simp add: bit_count.simps)
  have "(2 :: rat) ^ (bit_count n - 1) \<le> of_nat n" using b by (metis of_nat_le_iff of_nat_numeral of_nat_power)
  then have "\<not> (of_nat n :: rat) < pow2 (int (bit_count n) - 1)"
    using b by (simp add: pow2_def nat_diff_distrib' not_less)
  moreover show le: "bit_count n \<le> 53" by (rule bit_count_le [OF assms(2)])
  ultimately show "last_place (of_nat n) = int (bit_count n) - 53"
    using one by (simp add: last_place_def q)
qed

lemma round_double_nat:
  assumes "n < 2 ^ 53"
  shows "round_double (of_nat n) = Fin (of_nat n)"
proof (cases "n = 0")
  case False
  then have p: "0 < n" by simp
  note l = last_place_nat [OF p assms]
  define j where "j = 53 - bit_count n"
  have e: "last_place (of_nat n) = - int j" using l by (simp add: j_def)
  have p2: "pow2 (- int j) = 1 / 2 ^ j" by (cases "j = 0") (simp_all add: pow2_def)
  have x: "of_nat n / (1 / 2 ^ j) = (of_int (int (n * 2 ^ j)) :: rat)" by simp
  have r: "round_half_even (of_int i) = i" for i by (simp add: round_half_even_def)
  have "(of_nat n :: rat) < 2 ^ 53" using assms by (metis of_nat_less_iff of_nat_numeral of_nat_power)
  also have "(2 :: rat) ^ 53 \<le> 2 ^ 1024" by (rule power_increasing) simp_all
  finally have "\<not> 2 ^ 1024 \<le> (of_nat n :: rat)" by simp
  moreover have "of_int (int (n * 2 ^ j)) * (1 / 2 ^ j) = (of_nat n :: rat)" by simp
  ultimately show ?thesis
    using p unfolding round_double_def by (simp only: e p2 x r Let_def abs_of_nat) simp
qed (simp add: round_double_def)

lemma d_add_nat:
  assumes "m + n < 2 ^ 53"
  shows "d_add (Fin (of_nat m)) (Fin (of_nat n)) = Fin (of_nat (m + n))"
  using round_double_nat [OF assms] by (auto simp: d_add_def simp flip: of_nat_add)

section \<open>Rounding a value of ordinary size\<close>

lemma round_half_even_near: "\<bar>of_int (round_half_even x) - x\<bar> \<le> 1 / 2"
  using floor_correct [of x] by (auto simp: round_half_even_def Let_def abs_le_iff)

lemma round_half_even_int [simp]: "round_half_even (of_int i) = i"
  by (simp add: round_half_even_def)

lemma round_half_even_nat [simp]: "round_half_even (of_nat n) = int n"
  using round_half_even_int [of "int n"] by simp

lemma round_half_even_ge: "of_int i \<le> x \<Longrightarrow> i \<le> round_half_even x"
  using le_floor_iff [of i x] by (simp add: round_half_even_def Let_def)

lemma round_half_even_le:
  assumes "x \<le> of_int i"
  shows "round_half_even x \<le> i"
proof (cases "x = of_int i")
  case False
  then have "x < of_int i" using assms by simp
  then have "\<lfloor>x\<rfloor> < i" by (simp add: floor_less_iff)
  then show ?thesis by (simp add: round_half_even_def Let_def)
qed simp

lemma pow2_eq: "pow2 e = 2 powi e"
  by (simp add: pow2_def power_int_def field_simps)

lemma last_place_small:
  assumes "0 < x" "pow2 (- 1022) \<le> x"
  shows "pow2 (last_place x) * 2 ^ 52 \<le> x"
proof -
  obtain a b where ab: "quotient_of x = (a, b)" by (cases "quotient_of x")
  have b: "0 < b" and x: "x = of_int a / of_int b"
    using quotient_of_denom_pos [OF ab] quotient_of_div [OF ab] by simp_all
  have a: "0 < a" using assms(1) b by (simp add: x zero_less_divide_iff)
  define p q where "p = bit_count (nat a)" and "q = bit_count (nat b)"
  have pa: "2 ^ (p - 1) \<le> nat a" "0 < p" and qb: "nat b < 2 ^ q"
    using bit_count_bounds [of "nat a"] bit_count_bounds [of "nat b"] a b by (simp_all add: p_def q_def)
  have "(2 :: rat) ^ (p - 1) \<le> of_int a" using pa(1) a
    by (metis int_nat_eq of_int_le_iff of_int_numeral of_int_of_nat_eq of_int_power of_nat_le_iff of_nat_numeral
        of_nat_power order_less_imp_le)
  moreover have "of_int b \<le> (2 :: rat) ^ q" using qb b
    by (metis int_nat_eq less_imp_le of_int_le_iff of_int_numeral of_int_of_nat_eq of_int_power of_nat_le_iff
        of_nat_numeral of_nat_power)
  ultimately have "2 ^ (p - 1) / 2 ^ q \<le> x" using a b unfolding x by (intro frac_le) simp_all
  moreover have "(2 :: rat) ^ (p - 1) / 2 ^ q = pow2 (int p - int q - 1)"
    using pa(2) power_int_diff [of "2 :: rat" "int p - 1" "int q"] power_int_of_nat [of "2 :: rat" "p - 1"]
    by (simp add: pow2_eq algebra_simps of_nat_diff)
  ultimately have low: "pow2 (int p - int q - 1) \<le> x" by simp
  have shift: "pow2 (e - 52) * 2 ^ 52 = pow2 e" for e
    using power_int_add [of "2 :: rat" "e - 52" 52] by (simp add: pow2_eq)
  define e where "e = (if x < pow2 (int p - int q) then int p - int q - 53 else int p - int q - 52)"
  have "pow2 e * 2 ^ 52 \<le> x"
    using low shift [of "int p - int q - 1"] shift [of "int p - int q"] by (auto simp: e_def)
  moreover have "pow2 (- 1074) * 2 ^ 52 \<le> x" using assms(2) shift [of "- 1022"] by simp
  moreover have "last_place x = max (- 1074) e" by (simp add: last_place_def ab p_def q_def e_def)
  ultimately show ?thesis by (simp add: max_def)
qed

lemma round_double_near:
  assumes "pow2 (- 1022) \<le> x" "x \<le> 2 ^ 1023"
  obtains v where "round_double x = Fin v" "\<bar>v - x\<bar> \<le> x / 2 ^ 53" "0 < v"
proof -
  have x: "0 < x" using assms(1) by (rule less_le_trans [rotated]) (simp add: pow2_eq)
  define u where "u = pow2 (last_place x)"
  have u: "0 < u" "u * 2 ^ 52 \<le> x" using last_place_small [OF x assms(1)] by (simp_all add: u_def pow2_eq)
  define v where "v = of_int (round_half_even (x / u)) * u"
  have "\<bar>v - x\<bar> = \<bar>of_int (round_half_even (x / u)) - x / u\<bar> * u"
    using u(1) abs_mult [of "of_int (round_half_even (x / u)) - x / u" u] by (simp add: v_def left_diff_distrib)
  also have "\<dots> \<le> 1 / 2 * u"
    using round_half_even_near [of "x / u"] u by (intro mult_right_mono) simp_all
  also have "\<dots> \<le> x / 2 ^ 53" using u(2) by simp
  finally have near: "\<bar>v - x\<bar> \<le> x / 2 ^ 53" .
  moreover have "x / 2 ^ 53 < x" using x by simp
  ultimately have v: "0 < v" "v < x + x" by linarith+
  have "x + x \<le> 2 ^ 1024" using assms(2) power_Suc [of "2 :: rat" 1023] by simp
  then have "v < 2 ^ 1024" using v(2) by linarith
  then have "round_double x = Fin v"
    using x v(1) by (simp add: round_double_def Let_def u_def [symmetric] v_def [symmetric] del: power_numeral)
  with near v(1) that show thesis by blast
qed

end
