(* ===== verification/Recovery.thy ===== *)
theory Recovery
  imports Secp OMap Double_Arith
begin

text \<open>
  The recovery protocol for lost coins, \<open>src/recovery/ailee_recovery_protocol.h\<close>: dispute
  evidence, ownership proofs, the delay function, claims, the validator network, the supply model
  and the protocol object over them. A claim behind its \<open>shared_ptr\<close> is only reached through the
  protocol's map, so it is a record in that map. A clock reading is the count of
  \<open>system_clock::now()\<close>, nanoseconds in libstdc++, and an argument of the operation that takes
  it. SHA-256 is the parameter \<open>sha\<close>, the signature library \<open>S\<close>; \<open>past_end\<close> is what
  \<open>isLeftBranch[i]\<close> reads behind the end of the vector. Log files are left out.
\<close>

definition MIN_INACTIVITY_YEARS :: u64 where "MIN_INACTIVITY_YEARS = 20"
definition CHALLENGE_PERIOD_DAYS :: u64 where "CHALLENGE_PERIOD_DAYS = 180"
definition VDF_DIFFICULTY :: u64 where "VDF_DIFFICULTY = 1000000"
definition VALIDATOR_QUORUM_PERCENT :: u64 where "VALIDATOR_QUORUM_PERCENT = 67"
definition DEFLATIONARY_SENSITIVITY :: double where
  "DEFLATIONARY_SENSITIVITY = round_double (1 / 1000)"
definition MARKET_VELOCITY_BASELINE :: double where "MARKET_VELOCITY_BASELINE = Fin 1"

section \<open>Evidence\<close>

record merkle_proof =
  mp_txId :: string
  mp_blockHeight :: u32
  mp_merkleHashes :: "bytes list"
  mp_isLeftBranch :: "bool list"
  mp_blockHeaderHash :: bytes

definition left_branch :: "(nat \<Rightarrow> bool) \<Rightarrow> merkle_proof \<Rightarrow> nat \<Rightarrow> bool" where
  "left_branch past_end p i =
     (if i < length (mp_isLeftBranch p) then mp_isLeftBranch p ! i else past_end i)"

definition merkle_verify :: "(bytes \<Rightarrow> bytes) \<Rightarrow> (nat \<Rightarrow> bool) \<Rightarrow> merkle_proof \<Rightarrow> bytes \<Rightarrow> bool" where
  "merkle_verify sha past_end p txHash =
     (let root_hash = foldl (\<lambda>current i.
            let h = mp_merkleHashes p ! i;
                combined = (if left_branch past_end p i then current @ h else h @ current)
            in sha (sha combined)) txHash [0..<length (mp_merkleHashes p)]
      in root_hash = mp_blockHeaderHash p)"

record evidence =
  de_transactionProof :: merkle_proof
  de_recentActivityTimestamp :: u64
  de_ownerSignature :: bytes
  de_ownerPublicKey :: bytes
  de_signedMessage :: string
  de_disputeReason :: string
  de_submissionTimestamp :: u64

text \<open>The signed hash is the first 32 characters of the message, padded with zeros.\<close>

definition pseudo_hash :: "string \<Rightarrow> bytes" where
  "pseudo_hash msg = map (\<lambda>i. if i < length msg then of_char (msg ! i) else 0) [0..<32]"

definition verifySignature :: "('pk, 'sg) secp \<Rightarrow> evidence \<Rightarrow> bool" where
  "verifySignature S e =
     (if de_ownerSignature e = [] \<or> de_ownerPublicKey e = [] then False
      else case secp_pubkey_parse S (de_ownerPublicKey e) of
        Some pubkey \<Rightarrow>
          (case secp_parse_der S (de_ownerSignature e) of
             Some sg \<Rightarrow> secp_verify S sg (pseudo_hash (de_signedMessage e)) pubkey
           | None \<Rightarrow> False)
      | None \<Rightarrow> False)"

definition evidence_isValid ::
    "('pk, 'sg) secp \<Rightarrow> (bytes \<Rightarrow> bytes) \<Rightarrow> (nat \<Rightarrow> bool) \<Rightarrow> evidence \<Rightarrow> bool" where
  "evidence_isValid S sha past_end e =
     (if \<not> verifySignature S e then False
      else merkle_verify sha past_end (de_transactionProof e)
             (sha (str_bytes (mp_txId (de_transactionProof e)))))"

section \<open>Ownership proofs and the delay function\<close>

record zk_proof =
  zp_commitment :: bytes
  zp_challenge :: bytes
  zp_response :: bytes
  zp_timestamp :: u64

definition generateOwnershipProof ::
    "(bytes \<Rightarrow> bytes) \<Rightarrow> u64 \<Rightarrow> string \<Rightarrow> bytes \<Rightarrow> string \<Rightarrow> zk_proof" where
  "generateOwnershipProof sha now addr witnessData claimantIdentifier =
     (let commitment = sha (witnessData @ str_bytes claimantIdentifier);
          challenge = sha commitment
      in \<lparr>zp_commitment = commitment, zp_challenge = challenge,
          zp_response = sha (challenge @ str_bytes addr), zp_timestamp = now\<rparr>)"

definition verifyProof :: "(bytes \<Rightarrow> bytes) \<Rightarrow> u64 \<Rightarrow> zk_proof \<Rightarrow> string \<Rightarrow> u64 \<Rightarrow> bool" where
  "verifyProof sha now proof addr maxAgeSeconds =
     (if now - zp_timestamp proof > maxAgeSeconds then False
      else if sha (zp_commitment proof) \<noteq> zp_challenge proof then False
      else sha (zp_challenge proof @ str_bytes addr) = zp_response proof)"

record vdf_output =
  vo_solution :: bytes
  vo_iterations :: u64
  vo_computeTimeMs :: u64

definition vdf_compute :: "(bytes \<Rightarrow> bytes) \<Rightarrow> u64 \<Rightarrow> bytes \<Rightarrow> u64 \<Rightarrow> vdf_output" where
  "vdf_compute sha ms input difficulty =
     \<lparr>vo_solution = (sha ^^ unat difficulty) input, vo_iterations = difficulty,
      vo_computeTimeMs = ms\<rparr>"

definition vdf_verify :: "(bytes \<Rightarrow> bytes) \<Rightarrow> bytes \<Rightarrow> vdf_output \<Rightarrow> bool" where
  "vdf_verify sha input output =
     ((sha ^^ unat (vo_iterations output)) input = vo_solution output)"

section \<open>Claims\<close>

datatype claim_status = INITIATED | CHALLENGE_PERIOD | DISPUTED | APPROVED | REJECTED | RECOVERED

record claim_data =
  cd_claimId :: string
  cd_bitcoinTxId :: string
  cd_voutIndex :: u32
  cd_claimantAddress :: string
  cd_inactivityTimestamp :: u64
  cd_claimTimestamp :: u64
  cd_challengeEndTime :: u64
  cd_anchorCommitmentHash :: "string option"
  cd_zkProof :: zk_proof
  cd_vdfOutput :: vdf_output
  cd_status :: claim_status
  cd_validatorVotes :: "(string, bool) omap"
  cd_disputes :: "evidence list"
  cd_hasValidDispute :: bool
  cd_disputeResolution :: string

definition generateClaimId :: "(bytes \<Rightarrow> bytes) \<Rightarrow> string \<Rightarrow> u32 \<Rightarrow> string" where
  "generateClaimId sha txId vout = hex_of (sha (str_bytes (txId @ to_dec (unat vout))))"

text \<open>
  The constructor. Times, proof and delay output are left uninitialised; they are taken from
  \<open>uninit\<close> and only read after \<open>initiateClaim\<close> has set them.
\<close>

definition new_claim :: "(bytes \<Rightarrow> bytes) \<Rightarrow> claim_data \<Rightarrow> string \<Rightarrow> u32 \<Rightarrow> claim_data" where
  "new_claim sha uninit txId vout =
     uninit\<lparr>cd_claimId := generateClaimId sha txId vout, cd_bitcoinTxId := txId,
       cd_voutIndex := vout, cd_claimantAddress := [], cd_anchorCommitmentHash := None,
       cd_status := INITIATED, cd_validatorVotes := om_empty, cd_disputes := [],
       cd_hasValidDispute := False, cd_disputeResolution := []\<rparr>"

definition required_inactivity :: u64 where
  "required_inactivity = MIN_INACTIVITY_YEARS * 365 * 24 * 3600"

text \<open>\<open>initiateClaim\<close> reads the clock once for itself and once in \<open>verifyProof\<close>.\<close>

definition initiateClaim ::
    "(bytes \<Rightarrow> bytes) \<Rightarrow> u64 \<Rightarrow> u64 \<Rightarrow> string \<Rightarrow> u64 \<Rightarrow> zk_proof \<Rightarrow> vdf_output \<Rightarrow> string option \<Rightarrow>
     claim_data \<Rightarrow> bool \<times> claim_data" where
  "initiateClaim sha currentTime verifyTime claimantAddr inactivityTime zkProof vdfOutput anchor c =
     (if currentTime < inactivityTime + required_inactivity then (False, c)
      else if \<not> verifyProof sha verifyTime zkProof (cd_bitcoinTxId c) 86400 then (False, c)
      else (True, c\<lparr>cd_claimantAddress := claimantAddr, cd_inactivityTimestamp := inactivityTime,
         cd_claimTimestamp := currentTime,
         cd_challengeEndTime := currentTime + CHALLENGE_PERIOD_DAYS * 24 * 3600,
         cd_anchorCommitmentHash := anchor, cd_zkProof := zkProof, cd_vdfOutput := vdfOutput,
         cd_status := CHALLENGE_PERIOD\<rparr>))"

definition claim_dispute ::
    "('pk, 'sg) secp \<Rightarrow> (bytes \<Rightarrow> bytes) \<Rightarrow> (nat \<Rightarrow> bool) \<Rightarrow> u64 \<Rightarrow> evidence \<Rightarrow> claim_data \<Rightarrow>
     bool \<times> claim_data" where
  "claim_dispute S sha past_end currentTime e c =
     (if cd_status c \<noteq> CHALLENGE_PERIOD then (False, c)
      else if currentTime \<ge> cd_challengeEndTime c then (False, c)
      else if \<not> evidence_isValid S sha past_end e then (False, c)
      else if mp_txId (de_transactionProof e) \<noteq> cd_bitcoinTxId c then (False, c)
      else if de_recentActivityTimestamp e > cd_inactivityTimestamp c then
        (True, c\<lparr>cd_hasValidDispute := True, cd_status := DISPUTED,
                 cd_disputes := cd_disputes c @ [e]\<rparr>)
      else (False, c))"

definition addValidatorVote :: "u64 \<Rightarrow> string \<Rightarrow> bool \<Rightarrow> claim_data \<Rightarrow> bool \<times> claim_data" where
  "addValidatorVote currentTime validatorId approve c =
     (if cd_status c \<noteq> CHALLENGE_PERIOD then (False, c)
      else if currentTime < cd_challengeEndTime c then (False, c)
      else (True, c\<lparr>cd_validatorVotes := om_put validatorId approve (cd_validatorVotes c)\<rparr>))"

definition approvals :: "claim_data \<Rightarrow> u64" where
  "approvals c = of_nat (length (filter snd (om_entries (cd_validatorVotes c))))"

definition required_approvals :: "u64 \<Rightarrow> u64" where
  "required_approvals totalValidators = (totalValidators * VALIDATOR_QUORUM_PERCENT) div 100"

definition finalizeApproval :: "u64 \<Rightarrow> claim_data \<Rightarrow> bool \<times> claim_data" where
  "finalizeApproval totalValidators c =
     (if cd_hasValidDispute c then
        (False, c\<lparr>cd_status := REJECTED,
           cd_disputeResolution := ''Rejected due to valid dispute evidence''\<rparr>)
      else if approvals c \<ge> required_approvals totalValidators then
        (True, c\<lparr>cd_status := APPROVED,
           cd_disputeResolution := ''Approved by validator consensus''\<rparr>)
      else
        (False, c\<lparr>cd_status := REJECTED,
           cd_disputeResolution := ''Insufficient validator approvals''\<rparr>))"

section \<open>Validators\<close>

record validator =
  vd_id :: string
  vd_address :: string
  vd_stake :: u64
  vd_reputation :: u64
  vd_active :: bool
  vd_totalVotes :: u64
  vd_correctVotes :: u64

type_synonym validator_network = "(string, validator) omap"

definition addValidator :: "validator \<Rightarrow> validator_network \<Rightarrow> validator_network" where
  "addValidator v net = om_put (vd_id v) v net"

definition removeValidator :: "string \<Rightarrow> validator_network \<Rightarrow> validator_network" where
  "removeValidator validatorId net = om_del validatorId net"

definition getActiveValidatorCount :: "validator_network \<Rightarrow> u64" where
  "getActiveValidatorCount net = of_nat (length (filter (\<lambda>p. vd_active (snd p)) (om_entries net)))"

definition isValidator :: "string \<Rightarrow> validator_network \<Rightarrow> bool" where
  "isValidator validatorId net =
     (case om_get net validatorId of None \<Rightarrow> False | Some v \<Rightarrow> vd_active v)"

definition updateValidatorReputation :: "string \<Rightarrow> bool \<Rightarrow> validator_network \<Rightarrow> validator_network" where
  "updateValidatorReputation validatorId voteWasCorrect net =
     (case om_get net validatorId of None \<Rightarrow> net
      | Some v \<Rightarrow>
          let v1 = v\<lparr>vd_totalVotes := vd_totalVotes v + 1\<rparr>;
              v2 = (if voteWasCorrect then
                      v1\<lparr>vd_correctVotes := vd_correctVotes v1 + 1,
                         vd_reputation := vd_reputation v1 + 1\<rparr>
                    else if vd_reputation v1 > 0 then v1\<lparr>vd_reputation := vd_reputation v1 - 2\<rparr>
                    else v1)
          in om_put validatorId v2 net)"

section \<open>Supply model\<close>

record supply_metrics =
  sm_totalBTCSupply :: double
  sm_cumulativeBurned :: double
  sm_recoveredBTC :: double
  sm_circulatingSupply :: double
  sm_deflationaryPressure :: double
  sm_marketVelocity :: double
  sm_timestamp :: u64

record supply_model =
  su_metrics :: supply_metrics
  su_history :: "supply_metrics list"

text \<open>The constructor leaves the timestamp uninitialised.\<close>

definition new_supply :: "u64 \<Rightarrow> supply_model" where
  "new_supply uninit =
     \<lparr>su_metrics = \<lparr>sm_totalBTCSupply = Fin 21000000, sm_cumulativeBurned = Fin 0,
        sm_recoveredBTC = Fin 0, sm_circulatingSupply = Fin 19500000,
        sm_deflationaryPressure = Fin 0, sm_marketVelocity = MARKET_VELOCITY_BASELINE,
        sm_timestamp = uninit\<rparr>, su_history = []\<rparr>"

definition d_is_zero :: "double \<Rightarrow> bool" where
  "d_is_zero x \<longleftrightarrow> d_finite x \<and> d_rat x = 0"

definition calculateDeflationaryPressure :: "supply_metrics \<Rightarrow> double" where
  "calculateDeflationaryPressure m =
     (if d_is_zero (sm_totalBTCSupply m) then Fin 0
      else let burnRatio = d_div (sm_cumulativeBurned m) (sm_totalBTCSupply m)
           in d_mul (d_mul DEFLATIONARY_SENSITIVITY burnRatio) (sm_marketVelocity m))"

definition store_metrics :: "u64 \<Rightarrow> supply_metrics \<Rightarrow> supply_model \<Rightarrow> supply_model" where
  "store_metrics now m u =
     (let m1 = m\<lparr>sm_deflationaryPressure := calculateDeflationaryPressure m,
                 sm_timestamp := now div 1000000\<rparr>
      in \<lparr>su_metrics = m1, su_history = su_history u @ [m1]\<rparr>)"

definition recordRecovery :: "u64 \<Rightarrow> double \<Rightarrow> supply_model \<Rightarrow> supply_model" where
  "recordRecovery now amountBTC u =
     (let m = su_metrics u in
      store_metrics now (m\<lparr>sm_recoveredBTC := d_add (sm_recoveredBTC m) amountBTC,
        sm_circulatingSupply := d_add (sm_circulatingSupply m) amountBTC\<rparr>) u)"

definition recordBurn :: "u64 \<Rightarrow> double \<Rightarrow> supply_model \<Rightarrow> supply_model" where
  "recordBurn now amountBTC u =
     (let m = su_metrics u in
      store_metrics now (m\<lparr>sm_cumulativeBurned := d_add (sm_cumulativeBurned m) amountBTC,
        sm_circulatingSupply := d_sub (sm_circulatingSupply m) amountBTC\<rparr>) u)"

definition projectDeflationaryImpact :: "double \<Rightarrow> u64 \<Rightarrow> supply_metrics \<Rightarrow> double" where
  "projectDeflationaryImpact proposedBurnAmount timeHorizonDays m =
     (let futureBurnRatio = d_div (d_add (sm_cumulativeBurned m) proposedBurnAmount)
                                  (sm_totalBTCSupply m);
          projectedPressure = d_mul (d_mul DEFLATIONARY_SENSITIVITY futureBurnRatio)
                                    (sm_marketVelocity m);
          days = round_double (of_nat (unat timeHorizonDays))
      in d_div (d_mul projectedPressure days) (Fin 365))"

section \<open>The protocol\<close>

record recovery =
  rp_claims :: "(string, claim_data) omap"
  rp_validators :: validator_network
  rp_supply :: supply_model

definition new_recovery :: "u64 \<Rightarrow> recovery" where
  "new_recovery uninit =
     \<lparr>rp_claims = om_empty, rp_validators = om_empty, rp_supply = new_supply uninit\<rparr>"

text \<open>
  The clock readings of \<open>submitClaim\<close>, in order: 0 the proof's timestamp, 1 the start of
  \<open>initiateClaim\<close>, 2 in \<open>verifyProof\<close>. Between 0 and 1 the delay function runs, for \<open>ms\<close>.
\<close>

definition submitClaim ::
    "(bytes \<Rightarrow> bytes) \<Rightarrow> claim_data \<Rightarrow> (nat \<Rightarrow> u64) \<Rightarrow> u64 \<Rightarrow> string \<Rightarrow> u32 \<Rightarrow> string \<Rightarrow> u64 \<Rightarrow> bytes \<Rightarrow>
     recovery \<Rightarrow> string \<times> recovery" where
  "submitClaim sha uninit clk ms bitcoinTxId voutIndex claimantAddress inactivityTimestamp witnessData p =
     (let claim0 = new_claim sha uninit bitcoinTxId voutIndex;
          zkProof = generateOwnershipProof sha (clk 0) bitcoinTxId witnessData claimantAddress;
          vdfOutput = vdf_compute sha ms (str_bytes bitcoinTxId) VDF_DIFFICULTY;
          (ok, claim) = initiateClaim sha (clk 1) (clk 2) claimantAddress inactivityTimestamp
                          zkProof vdfOutput None claim0
      in if \<not> ok then ([], p)
         else let claimId = cd_claimId claim
              in (claimId, p\<lparr>rp_claims := om_put claimId claim (rp_claims p)\<rparr>))"

definition set_claim :: "string \<Rightarrow> claim_data \<Rightarrow> recovery \<Rightarrow> recovery" where
  "set_claim claimId c p = p\<lparr>rp_claims := om_put claimId c (rp_claims p)\<rparr>"

definition disputeClaim ::
    "('pk, 'sg) secp \<Rightarrow> (bytes \<Rightarrow> bytes) \<Rightarrow> (nat \<Rightarrow> bool) \<Rightarrow> u64 \<Rightarrow> string \<Rightarrow> evidence \<Rightarrow> recovery \<Rightarrow>
     bool \<times> recovery" where
  "disputeClaim S sha past_end now claimId e p =
     (case om_get (rp_claims p) claimId of None \<Rightarrow> (False, p)
      | Some c \<Rightarrow>
          let (result, c1) = claim_dispute S sha past_end now e c
          in (result, set_claim claimId c1 p))"

definition voteOnClaim :: "u64 \<Rightarrow> string \<Rightarrow> string \<Rightarrow> bool \<Rightarrow> recovery \<Rightarrow> bool \<times> recovery" where
  "voteOnClaim now claimId validatorId approve p =
     (case om_get (rp_claims p) claimId of None \<Rightarrow> (False, p)
      | Some c \<Rightarrow>
          if \<not> isValidator validatorId (rp_validators p) then (False, p)
          else let (result, c1) = addValidatorVote now validatorId approve c
               in (result, set_claim claimId c1 p))"

definition finalizeClaim :: "u64 \<Rightarrow> string \<Rightarrow> recovery \<Rightarrow> bool \<times> recovery" where
  "finalizeClaim now claimId p =
     (case om_get (rp_claims p) claimId of None \<Rightarrow> (False, p)
      | Some c \<Rightarrow>
          let (approved, c1) = finalizeApproval (getActiveValidatorCount (rp_validators p)) c;
              p1 = set_claim claimId c1 p
          in if approved then (True, p1\<lparr>rp_supply := recordRecovery now (Fin 1) (rp_supply p1)\<rparr>)
             else (False, p1))"

definition getClaimStatus :: "string \<Rightarrow> recovery \<Rightarrow> claim_status" where
  "getClaimStatus claimId p =
     (case om_get (rp_claims p) claimId of None \<Rightarrow> REJECTED | Some c \<Rightarrow> cd_status c)"

definition getClaimDetails :: "string \<Rightarrow> recovery \<Rightarrow> claim_data option" where
  "getClaimDetails claimId p = om_get (rp_claims p) claimId"

text \<open>A call on the protocol, or on the network and supply objects it hands out.\<close>

datatype recovery_op =
  SubmitClaim "nat \<Rightarrow> u64" u64 string u32 string u64 bytes
| DisputeClaim u64 string evidence
| VoteOnClaim u64 string string bool
| FinalizeClaim u64 string
| AddValidator validator
| RemoveValidator string
| UpdateReputation string bool
| RecordBurn u64 double
| RecordRecovery u64 double

fun recovery_step ::
    "('pk, 'sg) secp \<Rightarrow> (bytes \<Rightarrow> bytes) \<Rightarrow> (nat \<Rightarrow> bool) \<Rightarrow> claim_data \<Rightarrow> recovery \<Rightarrow> recovery_op \<Rightarrow> recovery"
    where
  "recovery_step S sha past_end uninit p (SubmitClaim clk ms tx vout claimant inactive wit) =
     snd (submitClaim sha uninit clk ms tx vout claimant inactive wit p)"
| "recovery_step S sha past_end uninit p (DisputeClaim now k e) =
     snd (disputeClaim S sha past_end now k e p)"
| "recovery_step S sha past_end uninit p (VoteOnClaim now k v b) = snd (voteOnClaim now k v b p)"
| "recovery_step S sha past_end uninit p (FinalizeClaim now k) = snd (finalizeClaim now k p)"
| "recovery_step S sha past_end uninit p (AddValidator v) =
     p\<lparr>rp_validators := addValidator v (rp_validators p)\<rparr>"
| "recovery_step S sha past_end uninit p (RemoveValidator k) =
     p\<lparr>rp_validators := removeValidator k (rp_validators p)\<rparr>"
| "recovery_step S sha past_end uninit p (UpdateReputation k b) =
     p\<lparr>rp_validators := updateValidatorReputation k b (rp_validators p)\<rparr>"
| "recovery_step S sha past_end uninit p (RecordBurn now x) =
     p\<lparr>rp_supply := recordBurn now x (rp_supply p)\<rparr>"
| "recovery_step S sha past_end uninit p (RecordRecovery now x) =
     p\<lparr>rp_supply := recordRecovery now x (rp_supply p)\<rparr>"

end
