(* ===== verification/Recovery_Props.thy ===== *)
theory Recovery_Props
  imports Recovery
begin

text \<open>
  Properties of the recovery protocol. A claim is seen as a state machine: \<open>claim_move\<close> lists the
  moves one call can make it take, every call of the protocol is such a move for every claim id,
  and the histories of votes and approvals follow by induction over runs.
\<close>

section \<open>Submission\<close>

lemma proof_verifies:
  "verifyProof sha now (generateOwnershipProof sha t addr wit who) addr age \<longleftrightarrow> now - t \<le> age"
  by (auto simp: verifyProof_def generateOwnershipProof_def Let_def)

definition submission_accepted :: "(nat \<Rightarrow> u64) \<Rightarrow> u64 \<Rightarrow> bool" where
  "submission_accepted clk inactive \<longleftrightarrow>
     inactive + required_inactivity \<le> clk 1 \<and> clk 2 - clk 0 \<le> 86400"

definition opened_claim ::
    "(bytes \<Rightarrow> bytes) \<Rightarrow> claim_data \<Rightarrow> (nat \<Rightarrow> u64) \<Rightarrow> u64 \<Rightarrow> string \<Rightarrow> u32 \<Rightarrow> string \<Rightarrow> u64 \<Rightarrow> bytes \<Rightarrow> claim_data"
    where
  "opened_claim sha uninit clk ms tx vout who inactive wit =
     (new_claim sha uninit tx vout)\<lparr>cd_claimantAddress := who, cd_inactivityTimestamp := inactive,
        cd_claimTimestamp := clk 1, cd_challengeEndTime := clk 1 + CHALLENGE_PERIOD_DAYS * 24 * 3600,
        cd_anchorCommitmentHash := None,
        cd_zkProof := generateOwnershipProof sha (clk 0) tx wit who,
        cd_vdfOutput := vdf_compute sha ms (str_bytes tx) VDF_DIFFICULTY,
        cd_status := CHALLENGE_PERIOD\<rparr>"

lemma submit_eq:
  "submitClaim sha uninit clk ms tx vout who inactive wit p =
     (if submission_accepted clk inactive
      then (generateClaimId sha tx vout,
            set_claim (generateClaimId sha tx vout)
              (opened_claim sha uninit clk ms tx vout who inactive wit) p)
      else ([], p))"
proof -
  have "cd_bitcoinTxId (new_claim sha uninit tx vout) = tx" by (simp add: new_claim_def)
  then show ?thesis
    by (auto simp: submitClaim_def initiateClaim_def submission_accepted_def opened_claim_def
        set_claim_def new_claim_def proof_verifies Let_def not_less not_le)
qed

text \<open>
  A submission is accepted exactly when the clock count is not below the inactivity
  time plus 630720000 (a sum that wraps at \<open>2 ^ 64\<close>) and at most 86400 counts lie between the
  making of the ownership proof and its check; the delay function runs in between. Nothing else
  matters: witness data, claimant and transaction play no part, and a refused submission changes
  nothing. An accepted one opens a fresh challenge period under the claim id, whatever claim was
  stored there before.
\<close>

theorem submission_outcome:
  "submitClaim sha uninit clk ms tx vout who inactive wit p =
     (if inactive + 630720000 \<le> clk 1 \<and> clk 2 - clk 0 \<le> 86400
      then (generateClaimId sha tx vout,
            set_claim (generateClaimId sha tx vout)
              (opened_claim sha uninit clk ms tx vout who inactive wit) p)
      else ([], p))"
  by (simp add: submit_eq submission_accepted_def required_inactivity_def MIN_INACTIVITY_YEARS_def)

section \<open>Claims as a state machine\<close>

inductive claim_move ::
    "validator_network \<Rightarrow> string \<Rightarrow> recovery_op \<Rightarrow> claim_data option \<Rightarrow> claim_data option \<Rightarrow> bool"
  for net :: validator_network and k :: string and x :: recovery_op where
  stay: "claim_move net k x c c"
| opened: "x = SubmitClaim clk ms tx vout who inactive wit \<Longrightarrow> submission_accepted clk inactive \<Longrightarrow>
     cd_status c = CHALLENGE_PERIOD \<Longrightarrow> \<not> cd_hasValidDispute c \<Longrightarrow>
     cd_validatorVotes c = om_empty \<Longrightarrow> cd_disputes c = [] \<Longrightarrow> claim_move net k x c0 (Some c)"
| disputed: "x = DisputeClaim now k e \<Longrightarrow> cd_status c = CHALLENGE_PERIOD \<Longrightarrow>
     now < cd_challengeEndTime c \<Longrightarrow>
     claim_move net k x (Some c) (Some (c\<lparr>cd_hasValidDispute := True, cd_status := DISPUTED,
       cd_disputes := cd_disputes c @ [e]\<rparr>))"
| voted: "x = VoteOnClaim now k v b \<Longrightarrow> cd_status c = CHALLENGE_PERIOD \<Longrightarrow>
     cd_challengeEndTime c \<le> now \<Longrightarrow> isValidator v net \<Longrightarrow>
     claim_move net k x (Some c) (Some (c\<lparr>cd_validatorVotes := om_put v b (cd_validatorVotes c)\<rparr>))"
| finalized: "x = FinalizeClaim now k \<Longrightarrow>
     claim_move net k x (Some c) (Some (snd (finalizeApproval (getActiveValidatorCount net) c)))"

inductive_cases claim_moveE: "claim_move net k x c c1"

text \<open>Every call of the protocol is a move for every claim.\<close>

lemma step_moves:
  "claim_move (rp_validators p) k x (om_get (rp_claims p) k)
     (om_get (rp_claims (recovery_step S sha past_end uninit p x)) k)"
proof (cases x)
  case (SubmitClaim clk ms tx vout who inactive wit)
  show ?thesis
  proof (cases "submission_accepted clk inactive \<and> k = generateClaimId sha tx vout")
    case True
    then have "om_get (rp_claims (recovery_step S sha past_end uninit p x)) k =
        Some (opened_claim sha uninit clk ms tx vout who inactive wit)"
      by (simp add: SubmitClaim submit_eq set_claim_def)
    moreover have "claim_move (rp_validators p) k x c0
        (Some (opened_claim sha uninit clk ms tx vout who inactive wit))" for c0
      by (rule opened [OF SubmitClaim]) (use True in \<open>simp_all add: opened_claim_def new_claim_def\<close>)
    ultimately show ?thesis by simp
  next
    case False
    then show ?thesis
      by (auto simp: SubmitClaim submit_eq set_claim_def intro: stay)
  qed
next
  case (DisputeClaim now k' e)
  then show ?thesis
    by (auto simp: disputeClaim_def claim_dispute_def set_claim_def Let_def not_le om_put_same
        split: option.splits intro: stay disputed)
next
  case (VoteOnClaim now k' v b)
  then show ?thesis
    by (auto simp: voteOnClaim_def addValidatorVote_def set_claim_def Let_def not_less om_put_same
        split: option.splits intro: stay voted)
next
  case (FinalizeClaim now k')
  then show ?thesis
    by (auto simp: finalizeClaim_def set_claim_def split_beta Let_def
        split: option.splits intro: stay finalized)
qed (simp_all add: stay)

section \<open>Disputes are final\<close>

definition resubmits :: "(bytes \<Rightarrow> bytes) \<Rightarrow> string \<Rightarrow> recovery_op \<Rightarrow> bool" where
  "resubmits sha k x =
     (case x of SubmitClaim _ _ tx vout _ _ _ \<Rightarrow> generateClaimId sha tx vout = k | _ \<Rightarrow> False)"

definition disputed_by :: "evidence \<Rightarrow> claim_data option \<Rightarrow> bool" where
  "disputed_by e c = (case c of None \<Rightarrow> False
     | Some c \<Rightarrow> cd_hasValidDispute c \<and> e \<in> set (cd_disputes c) \<and> cd_status c \<in> {DISPUTED, REJECTED})"

lemma claim_kept:
  "\<not> resubmits sha k x \<Longrightarrow> om_get (rp_claims (recovery_step S sha past_end uninit p x)) k =
     (case x of SubmitClaim _ _ _ _ _ _ _ \<Rightarrow> om_get (rp_claims p) k
      | _ \<Rightarrow> om_get (rp_claims (recovery_step S sha past_end uninit p x)) k)"
  by (cases x) (auto simp: submit_eq set_claim_def resubmits_def)

lemma move_keeps_dispute:
  assumes "claim_move net k x c c1" "disputed_by e c" "\<nexists>clk ms tx vout who i w. x = SubmitClaim clk ms tx vout who i w"
  shows "disputed_by e c1"
  using assms by (cases rule: claim_move.cases) (auto simp: disputed_by_def finalizeApproval_def)

lemma dispute_step:
  assumes "disputed_by e (om_get (rp_claims p) k)" "\<not> resubmits sha k x"
  shows "disputed_by e (om_get (rp_claims (recovery_step S sha past_end uninit p x)) k)"
proof (cases "\<exists>clk ms tx vout who i w. x = SubmitClaim clk ms tx vout who i w")
  case True
  then show ?thesis using assms claim_kept [OF assms(2), of S past_end uninit p] by auto
next
  case False
  then show ?thesis by (rule move_keeps_dispute [OF step_moves assms(1)])
qed

lemma dispute_run:
  "disputed_by e (om_get (rp_claims p) k) \<Longrightarrow> list_all (\<lambda>x. \<not> resubmits sha k x) later \<Longrightarrow>
   disputed_by e (om_get (rp_claims (foldl (recovery_step S sha past_end uninit) p later)) k)"
  by (induction later arbitrary: p) (auto intro: dispute_step)

text \<open>
  C25. An accepted dispute is final: whatever calls follow it, further disputes, votes,
  finalizations and changes of the validator set included, the claim stays stored with the
  evidence, it is disputed or rejected and never approved, as long as the same output is not
  submitted again.
\<close>

theorem disputed_claim_never_approved:
  assumes "fst (disputeClaim S sha past_end now k e p)"
    and "list_all (\<lambda>x. \<not> resubmits sha k x) later"
    and "q = foldl (recovery_step S sha past_end uninit)
           (snd (disputeClaim S sha past_end now k e p)) later"
  shows "\<exists>c. getClaimDetails k q = Some c \<and> cd_status c \<in> {DISPUTED, REJECTED} \<and>
    cd_hasValidDispute c \<and> e \<in> set (cd_disputes c)"
proof -
  have "disputed_by e (om_get (rp_claims (snd (disputeClaim S sha past_end now k e p))) k)"
    using assms(1) by (auto simp: disputeClaim_def claim_dispute_def disputed_by_def set_claim_def
        Let_def split: option.splits if_splits)
  from dispute_run [OF this assms(2), of S past_end uninit] show ?thesis
    unfolding assms(3) by (auto simp: disputed_by_def getClaimDetails_def split: option.splits)
qed

section \<open>Where votes and approvals come from\<close>

lemma vote_history:
  assumes "p = foldl (recovery_step S sha past_end uninit) (new_recovery u) ops"
    and "om_get (rp_claims p) k = Some c" and "om_get (cd_validatorVotes c) v = Some b"
  shows "\<exists>l now r. ops = l @ VoteOnClaim now k v b # r \<and> cd_challengeEndTime c \<le> now \<and>
    isValidator v (rp_validators (foldl (recovery_step S sha past_end uninit) (new_recovery u) l))"
  using assms
proof (induction ops arbitrary: p c rule: rev_induct)
  case Nil
  then show ?case by (simp add: new_recovery_def)
next
  case (snoc x ops)
  let ?q = "foldl (recovery_step S sha past_end uninit) (new_recovery u) ops"
  have earlier: ?case
    if "om_get (rp_claims ?q) k = Some c0" "om_get (cd_validatorVotes c0) v = Some b"
      "cd_challengeEndTime c0 = cd_challengeEndTime c" for c0
    using snoc.IH [OF refl that(1,2)] that(3) by force
  have "claim_move (rp_validators ?q) k x (om_get (rp_claims ?q) k) (Some c)"
    using step_moves [of ?q k x S sha past_end uninit] snoc.prems by simp
  then show ?case
  proof (cases rule: claim_move.cases)
    case (voted now w d c0)
    show ?thesis
    proof (cases "w = v")
      case True
      with voted snoc.prems show ?thesis by (intro exI [of _ ops] exI [of _ now] exI [of _ "[]"]) auto
    next
      case False
      with voted snoc.prems earlier [of c0] show ?thesis by simp
    qed
  next
    case (finalized now c0)
    then have "cd_validatorVotes c = cd_validatorVotes c0" "cd_challengeEndTime c = cd_challengeEndTime c0"
      by (auto simp: finalizeApproval_def)
    with finalized snoc.prems show ?thesis by (intro earlier [of c0]) auto
  next
    case (disputed now e c0)
    with snoc.prems show ?thesis by (intro earlier [of c0]) auto
  next
    case stay
    with snoc.prems show ?thesis by (intro earlier [of c]) auto
  qed (use snoc.prems in auto)
qed

lemma approval_history:
  assumes "p = foldl (recovery_step S sha past_end uninit) (new_recovery u) ops"
    and "om_get (rp_claims p) k = Some c" and "cd_status c = APPROVED"
  shows "\<exists>l now r q c0. ops = l @ FinalizeClaim now k # r \<and>
    q = foldl (recovery_step S sha past_end uninit) (new_recovery u) l \<and>
    om_get (rp_claims q) k = Some c0 \<and> \<not> cd_hasValidDispute c0 \<and>
    required_approvals (getActiveValidatorCount (rp_validators q)) \<le> approvals c0 \<and>
    cd_validatorVotes c0 = cd_validatorVotes c"
  using assms
proof (induction ops arbitrary: p c rule: rev_induct)
  case Nil
  then show ?case by (simp add: new_recovery_def)
next
  case (snoc x ops)
  let ?q = "foldl (recovery_step S sha past_end uninit) (new_recovery u) ops"
  have earlier: ?case if "om_get (rp_claims ?q) k = Some c"
    using snoc.IH [OF refl that snoc.prems(3)] by force
  have "claim_move (rp_validators ?q) k x (om_get (rp_claims ?q) k) (Some c)"
    using step_moves [of ?q k x S sha past_end uninit] snoc.prems by simp
  then show ?case
  proof (cases rule: claim_move.cases)
    case stay
    then show ?thesis by (intro earlier) simp
  next
    case (finalized now c0)
    with snoc.prems(3) show ?thesis
      by (intro exI [of _ ops] exI [of _ now] exI [of _ "[]"] exI [of _ ?q] exI [of _ c0])
        (auto simp: finalizeApproval_def split: if_splits)
  qed (use snoc.prems in auto)
qed

text \<open>
  C26. An approved claim has a history: some finalization of it happened while it had no
  accepted dispute and at least \<open>n * 67 div 100\<close> recorded approvals, for the \<open>n\<close> validators
  active then, and every one of those approvals was cast by a validator active at the time of
  the vote, once the challenge period was over. (For at most one active validator the bound is
  0, and neither the status nor the time is looked at by the finalization.)
\<close>

theorem approved_claim_history:
  assumes "p = foldl (recovery_step S sha past_end uninit) (new_recovery u) ops"
    and "getClaimDetails k p = Some c" and "cd_status c = APPROVED"
  shows "\<exists>l now r q c0. ops = l @ FinalizeClaim now k # r \<and>
    q = foldl (recovery_step S sha past_end uninit) (new_recovery u) l \<and>
    getClaimDetails k q = Some c0 \<and> \<not> cd_hasValidDispute c0 \<and>
    required_approvals (getActiveValidatorCount (rp_validators q)) \<le> approvals c0 \<and>
    (\<forall>v. om_get (cd_validatorVotes c0) v = Some True \<longrightarrow>
       (\<exists>l1 t r1. l = l1 @ VoteOnClaim t k v True # r1 \<and> cd_challengeEndTime c0 \<le> t \<and>
         isValidator v (rp_validators (foldl (recovery_step S sha past_end uninit) (new_recovery u) l1))))"
proof -
  obtain l now r q c0 where *: "ops = l @ FinalizeClaim now k # r"
    "q = foldl (recovery_step S sha past_end uninit) (new_recovery u) l"
    "om_get (rp_claims q) k = Some c0" "\<not> cd_hasValidDispute c0"
    "required_approvals (getActiveValidatorCount (rp_validators q)) \<le> approvals c0"
    using approval_history [OF assms(1) assms(2) [unfolded getClaimDetails_def] assms(3)] by metis
  note votes = vote_history [OF *(2,3)]
  show ?thesis
    by (rule exI [of _ l], rule exI [of _ now], rule exI [of _ r], rule exI [of _ q],
        rule exI [of _ c0]) (use * votes in \<open>auto simp: getClaimDetails_def\<close>)
qed

text \<open>What one finalization does, in every state of the claim and at every time.\<close>

lemma finalize_cases:
  "finalizeClaim now k p =
     (case getClaimDetails k p of None \<Rightarrow> (False, p)
      | Some c \<Rightarrow>
          let ok = (\<not> cd_hasValidDispute c \<and>
                required_approvals (getActiveValidatorCount (rp_validators p)) \<le> approvals c);
              c1 = snd (finalizeApproval (getActiveValidatorCount (rp_validators p)) c);
              p1 = set_claim k c1 p
          in (ok, if ok then p1\<lparr>rp_supply := recordRecovery now (Fin 1) (rp_supply p)\<rparr> else p1))"
  by (auto simp: finalizeClaim_def finalizeApproval_def getClaimDetails_def set_claim_def Let_def
      split: option.split)

text \<open>With at most one active validator an undisputed claim is approved without a vote.\<close>

lemma approved_without_votes:
  "getClaimDetails k p = Some c \<Longrightarrow> \<not> cd_hasValidDispute c \<Longrightarrow>
   getActiveValidatorCount (rp_validators p) \<le> 1 \<Longrightarrow> fst (finalizeClaim now k p)"
proof -
  assume a: "getClaimDetails k p = Some c" "\<not> cd_hasValidDispute c"
    "getActiveValidatorCount (rp_validators p) \<le> 1"
  then have "getActiveValidatorCount (rp_validators p) = 0 \<or> getActiveValidatorCount (rp_validators p) = 1"
    by (auto simp: word_le_nat_alt word_unat_eq_iff)
  with a show ?thesis
    by (auto simp: finalize_cases required_approvals_def VALIDATOR_QUORUM_PERCENT_def Let_def)
qed

section \<open>The supply model\<close>

lemma sensitivity: "DEFLATIONARY_SENSITIVITY = Fin (4611686018427388 / 2 ^ 62)"
proof -
  have q: "quotient_of (1/1000) = (1, 1000)"
    using quotient_of_Fract [of 1 1000] by (simp add: Fract_of_int_quotient Rat.normalize_def)
  have b: "bit_count (Suc 0) = 1" "bit_count 1000 = 10" by (simp_all add: bit_count.simps)
  have "last_place (1/1000) = - 62" by (simp add: last_place_def q b pow2_def)
  then show ?thesis
    by (simp add: DEFLATIONARY_SENSITIVITY_def round_double_def pow2_def round_half_even_def Let_def
        floor_numerals)
qed

text \<open>The books after \<open>n\<close> approvals and nothing else.\<close>

definition supply_after :: "nat \<Rightarrow> supply_model \<Rightarrow> bool" where
  "supply_after n u \<longleftrightarrow> (let m = su_metrics u in
     sm_recoveredBTC m = Fin (of_nat n) \<and> sm_circulatingSupply m = Fin (of_nat (19500000 + n)) \<and>
     sm_totalBTCSupply m = Fin 21000000 \<and> sm_cumulativeBurned m = Fin 0 \<and>
     sm_marketVelocity m = Fin 1 \<and> sm_deflationaryPressure m = Fin 0 \<and> length (su_history u) = n)"

lemma no_burn_pressure:
  "sm_totalBTCSupply m = Fin 21000000 \<Longrightarrow> sm_cumulativeBurned m = Fin 0 \<Longrightarrow>
   sm_marketVelocity m = Fin 1 \<Longrightarrow> calculateDeflationaryPressure m = Fin 0"
  by (simp add: calculateDeflationaryPressure_def d_is_zero_def d_div_def d_mul_def sensitivity Let_def)

lemma supply_recover:
  assumes "supply_after n u" "19500000 + n + 1 < 2 ^ 53"
  shows "supply_after (Suc n) (recordRecovery now (Fin 1) u)"
proof -
  have "d_add (Fin (of_nat n)) (Fin 1) = Fin (of_nat (Suc n))"
    "d_add (Fin (of_nat (19500000 + n))) (Fin 1) = Fin (of_nat (19500000 + Suc n))"
    using d_add_nat [of n 1] d_add_nat [of "19500000 + n" 1] assms(2) by simp_all
  with assms(1) show ?thesis
    by (simp add: supply_after_def recordRecovery_def store_metrics_def Let_def no_burn_pressure)
qed

definition grants :: "recovery \<Rightarrow> recovery_op \<Rightarrow> bool" where
  "grants p x = (case x of FinalizeClaim now k \<Rightarrow> fst (finalizeClaim now k p) | _ \<Rightarrow> False)"

fun granted :: "(recovery \<Rightarrow> recovery_op \<Rightarrow> recovery) \<Rightarrow> recovery \<Rightarrow> recovery_op list \<Rightarrow> nat" where
  "granted step p [] = 0"
| "granted step p (x # xs) = (if grants p x then 1 else 0) + granted step (step p x) xs"

definition manual_entry :: "recovery_op \<Rightarrow> bool" where
  "manual_entry x = (case x of RecordBurn _ _ \<Rightarrow> True | RecordRecovery _ _ \<Rightarrow> True | _ \<Rightarrow> False)"

lemma supply_step:
  assumes "supply_after n (rp_supply p)" "19500000 + n + 1 < 2 ^ 53" "\<not> manual_entry x"
  shows "supply_after ((if grants p x then 1 else 0) + n)
    (rp_supply (recovery_step S sha past_end uninit p x))"
proof (cases x)
  case (FinalizeClaim now k)
  with assms supply_recover [OF assms(1,2), of now] show ?thesis
    by (auto simp: grants_def finalize_cases set_claim_def Let_def split: option.split)
qed (use assms in \<open>auto simp: grants_def manual_entry_def submit_eq set_claim_def disputeClaim_def
    voteOnClaim_def split_beta Let_def split: option.split\<close>)

lemma supply_run:
  "supply_after n (rp_supply p) \<Longrightarrow> list_all (\<lambda>x. \<not> manual_entry x) ops \<Longrightarrow>
   19500000 + n + length ops < 2 ^ 53 \<Longrightarrow>
   supply_after (granted (recovery_step S sha past_end uninit) p ops + n)
     (rp_supply (foldl (recovery_step S sha past_end uninit) p ops))"
proof (induction ops arbitrary: n p)
  case (Cons x ops)
  have "supply_after ((if grants p x then 1 else 0) + n)
    (rp_supply (recovery_step S sha past_end uninit p x))"
    by (rule supply_step) (use Cons.prems in auto)
  from Cons.IH [OF this] Cons.prems show ?case by (auto simp: add.commute add.left_commute split: if_splits)
qed simp

text \<open>
  The supply model counts exactly. After fewer than \<open>2 ^ 53 - 19500000\<close> calls without
  burns and manual entries, the recovered amount is exactly the number of finalizations that
  returned true and the circulating supply is 19500000 above it, no rounding having occurred,
  the pressure is still 0, and the history has one entry per approval. (A claim finalized again
  counts again.)
\<close>

theorem supply_counts_approvals:
  assumes "list_all (\<lambda>x. \<not> manual_entry x) ops" and "length ops < 2 ^ 53 - 19500000"
    and "p = foldl (recovery_step S sha past_end uninit) (new_recovery u) ops"
    and "n = granted (recovery_step S sha past_end uninit) (new_recovery u) ops"
  shows "sm_recoveredBTC (su_metrics (rp_supply p)) = Fin (of_nat n) \<and>
    sm_circulatingSupply (su_metrics (rp_supply p)) = Fin (of_nat (19500000 + n)) \<and>
    sm_deflationaryPressure (su_metrics (rp_supply p)) = Fin 0 \<and>
    length (su_history (rp_supply p)) = n"
proof -
  have "supply_after 0 (rp_supply (new_recovery u))"
    by (simp add: supply_after_def new_recovery_def new_supply_def MARKET_VELOCITY_BASELINE_def)
  from supply_run [OF this assms(1), of S sha past_end uninit] assms(2-4) show ?thesis by (simp add: supply_after_def Let_def)
qed

section \<open>Examples\<close>

definition any_evidence :: evidence where
  "any_evidence = \<lparr>de_transactionProof = \<lparr>mp_txId = ''tx'', mp_blockHeight = 0, mp_merkleHashes = [],
       mp_isLeftBranch = [], mp_blockHeaderHash = []\<rparr>,
     de_recentActivityTimestamp = 9, de_ownerSignature = [1], de_ownerPublicKey = [1],
     de_signedMessage = [], de_disputeReason = [], de_submissionTimestamp = 0\<rparr>"

definition open_secp :: "(bytes, bytes) secp" where
  "open_secp = \<lparr>secp_context = True, secp_pubkey_parse = Some, secp_parse_compact = Some,
     secp_parse_der = Some, secp_normalize = id, secp_verify = (\<lambda>_ _ _. True)\<rparr>"

lemma open_verifies:
  "verifySignature open_secp e \<longleftrightarrow> de_ownerSignature e \<noteq> [] \<and> de_ownerPublicKey e \<noteq> []"
  by (simp add: verifySignature_def open_secp_def)

definition no_claim :: claim_data where
  "no_claim = \<lparr>cd_claimId = [], cd_bitcoinTxId = [], cd_voutIndex = 0, cd_claimantAddress = [],
     cd_inactivityTimestamp = 0, cd_claimTimestamp = 0, cd_challengeEndTime = 0,
     cd_anchorCommitmentHash = None,
     cd_zkProof = \<lparr>zp_commitment = [], zp_challenge = [], zp_response = [], zp_timestamp = 0\<rparr>,
     cd_vdfOutput = \<lparr>vo_solution = [], vo_iterations = 0, vo_computeTimeMs = 0\<rparr>,
     cd_status = INITIATED, cd_validatorVotes = om_empty, cd_disputes = [],
     cd_hasValidDispute = False, cd_disputeResolution = []\<rparr>"

definition demo_submit :: recovery_op where
  "demo_submit = SubmitClaim (\<lambda>_. 1000000000) 0 ''tx'' 0 ''me'' 5 []"

definition demo_validator :: "string \<Rightarrow> validator" where
  "demo_validator i = \<lparr>vd_id = i, vd_address = [], vd_stake = 1, vd_reputation = 100,
     vd_active = True, vd_totalVotes = 0, vd_correctVotes = 0\<rparr>"

text \<open>A digest that makes every claim id empty, and a run up to the approval of one claim.\<close>

abbreviation demo_step :: "recovery \<Rightarrow> recovery_op \<Rightarrow> recovery" where
  "demo_step \<equiv> recovery_step open_secp (\<lambda>_. []) (\<lambda>_. False) no_claim"

definition demo_calls :: "recovery_op list" where
  "demo_calls = [AddValidator (demo_validator ''a''), AddValidator (demo_validator ''b''),
     demo_submit, VoteOnClaim 2000000000 [] ''a'' True, FinalizeClaim 2000000001 []]"

lemma demo_id: "generateClaimId (\<lambda>_. []) tx vout = []"
  by (simp add: generateClaimId_def hex_of_def)

definition demo_claim :: claim_data where
  "demo_claim = opened_claim (\<lambda>_. []) no_claim (\<lambda>_. 1000000000) 0 ''tx'' 0 ''me'' 5 []"

lemma demo_claim_fields [simp]:
  "cd_status demo_claim = CHALLENGE_PERIOD" "cd_hasValidDispute demo_claim = False"
  "cd_challengeEndTime demo_claim = 1015552000" "cd_bitcoinTxId demo_claim = ''tx''"
  "cd_inactivityTimestamp demo_claim = 5" "cd_validatorVotes demo_claim = om_empty"
  by (simp_all add: demo_claim_def opened_claim_def new_claim_def CHALLENGE_PERIOD_DAYS_def)

lemma demo_submitted: "demo_step p demo_submit = set_claim [] demo_claim p"
  by (simp add: demo_submit_def submission_outcome demo_id demo_claim_def)

lemmas demo_evals = demo_calls_def demo_submitted set_claim_def new_recovery_def voteOnClaim_def
  addValidatorVote_def finalizeClaim_def finalizeApproval_def isValidator_def addValidator_def
  demo_validator_def getActiveValidatorCount_def om_put.rep_eq approvals_def required_approvals_def
  VALIDATOR_QUORUM_PERCENT_def getClaimDetails_def Let_def

lemma demo_approved:
  "\<exists>c. getClaimDetails [] (foldl demo_step (new_recovery 0) demo_calls) = Some c \<and>
     cd_status c = APPROVED"
  by (simp add: demo_evals)

theorem approved_claim_history_witness:
  "\<exists>c. getClaimDetails [] (foldl demo_step (new_recovery 0) demo_calls) = Some c \<and>
    (\<exists>l now r q c0. demo_calls = l @ FinalizeClaim now [] # r \<and>
    q = foldl demo_step (new_recovery 0) l \<and>
    getClaimDetails [] q = Some c0 \<and> \<not> cd_hasValidDispute c0 \<and>
    required_approvals (getActiveValidatorCount (rp_validators q)) \<le> approvals c0 \<and>
    (\<forall>v. om_get (cd_validatorVotes c0) v = Some True \<longrightarrow>
       (\<exists>l1 t r1. l = l1 @ VoteOnClaim t [] v True # r1 \<and> cd_challengeEndTime c0 \<le> t \<and>
         isValidator v (rp_validators (foldl demo_step (new_recovery 0) l1)))))"
proof -
  obtain c where c: "getClaimDetails [] (foldl demo_step (new_recovery 0) demo_calls) = Some c"
    "cd_status c = APPROVED"
    using demo_approved by blast
  from approved_claim_history [OF refl c] c(1) show ?thesis by blast
qed

theorem disputed_claim_never_approved_witness:
  "\<exists>c. getClaimDetails [] (foldl demo_step (snd (disputeClaim open_secp (\<lambda>_. []) (\<lambda>_. False) 1000000001
        [] any_evidence (demo_step (new_recovery 0) demo_submit)))
      [FinalizeClaim 1000000002 [], FinalizeClaim 1000000003 []]) = Some c \<and>
    cd_status c \<in> {DISPUTED, REJECTED} \<and> cd_hasValidDispute c \<and> any_evidence \<in> set (cd_disputes c)"
proof (rule disputed_claim_never_approved [OF _ _ refl])
  show "fst (disputeClaim open_secp (\<lambda>_. []) (\<lambda>_. False) 1000000001 [] any_evidence
      (demo_step (new_recovery 0) demo_submit))"
    by (simp add: demo_evals disputeClaim_def claim_dispute_def any_evidence_def
        evidence_isValid_def open_verifies merkle_verify_def)
qed (simp add: resubmits_def)

theorem supply_counts_approvals_witness:
  "sm_recoveredBTC (su_metrics (rp_supply (foldl demo_step (new_recovery 0) demo_calls))) =
    Fin (of_nat (granted demo_step (new_recovery 0) demo_calls))"
  using supply_counts_approvals [OF _ _ refl refl, of demo_calls open_secp "\<lambda>_. []" "\<lambda>_. False" no_claim 0]
  by (simp add: demo_calls_def demo_submit_def manual_entry_def)

end
