(* ===== verification/Taproot.thy ===== *)
theory Taproot
  imports Hex
begin

text \<open>
  Taproot outputs and transactions: \<open>src/taproot/TaprootUtils.cpp\<close>, \<open>TaprootTxBuilder.cpp\<close>,
  \<open>TaprootSigner.cpp\<close> and the script and key part of \<open>TaprootScript.cpp\<close>. A \<open>std::array\<close> of 32
  bytes is a byte list; its length is a hypothesis where a property needs it. SHA-256 is the
  parameter \<open>sha\<close>; the calls of libsecp256k1 are the fields of \<open>taproot_lib\<close>, None standing for
  a call that does not return 1. Contexts are taken to be created; destroying them has no effect.
\<close>

record ('x, 'p, 'k) taproot_lib =
  xonly_pubkey_parse :: "bytes \<Rightarrow> 'x option"
  xonly_pubkey_tweak_add :: "'x \<Rightarrow> bytes \<Rightarrow> 'p option"
  xonly_pubkey_from_pubkey :: "'p \<Rightarrow> 'x option"
  xonly_pubkey_serialize :: "'x \<Rightarrow> bytes"
  keypair_create :: "bytes \<Rightarrow> 'k option"
  keypair_xonly_tweak_add :: "'k \<Rightarrow> bytes \<Rightarrow> 'k option"
  schnorrsig_sign :: "bytes \<Rightarrow> 'k \<Rightarrow> bytes option"
  schnorrsig_verify :: "bytes \<Rightarrow> bytes \<Rightarrow> 'x \<Rightarrow> bool"

section \<open>Integers on the wire\<close>

definition write_uint32_le :: "u32 \<Rightarrow> bytes" where
  "write_uint32_le val = le_bytes 4 val"

definition write_uint64_le :: "u64 \<Rightarrow> bytes" where
  "write_uint64_le val = le_bytes 8 val"

definition write_compact_size :: "u64 \<Rightarrow> bytes" where
  "write_compact_size val =
     (if val < 0xFD then [ucast val]
      else if val \<le> 0xFFFF then 0xFD # le_bytes 2 val
      else if val \<le> 0xFFFFFFFF then 0xFE # le_bytes 4 val
      else 0xFF # write_uint64_le val)"

section \<open>Scripts and keys\<close>

text \<open>The tagged hash of BIP 340.\<close>

definition tagged_hash :: "(bytes \<Rightarrow> bytes) \<Rightarrow> string \<Rightarrow> bytes \<Rightarrow> bytes" where
  "tagged_hash sha tag msg =
     (let tag_hash = sha (str_bytes tag) in sha (tag_hash @ tag_hash @ msg))"

definition tweak_taproot_output_key ::
    "('x, 'p, 'k) taproot_lib \<Rightarrow> (bytes \<Rightarrow> bytes) \<Rightarrow> bytes \<Rightarrow> bytes \<Rightarrow> bytes option" where
  "tweak_taproot_output_key L sha internal_key tapleaf_hash =
     (case xonly_pubkey_parse L internal_key of
        None \<Rightarrow> None
      | Some pubkey \<Rightarrow>
          let tag_hash = sha (str_bytes ''TapTweak'');
              tweak = sha (tag_hash @ tag_hash @ internal_key @ tapleaf_hash)
          in case xonly_pubkey_tweak_add L pubkey tweak of
               None \<Rightarrow> None
             | Some output_pubkey \<Rightarrow>
                 (case xonly_pubkey_from_pubkey L output_pubkey of
                    None \<Rightarrow> None
                  | Some out_xonly \<Rightarrow> Some (xonly_pubkey_serialize L out_xonly)))"

record taproot_output =
  to_internal_key :: bytes
  to_taproot_output_key :: bytes
  to_bech32m_address :: string

definition compute_output_key ::
    "('x, 'p, 'k) taproot_lib \<Rightarrow> (bytes \<Rightarrow> bytes) \<Rightarrow> bytes \<Rightarrow> taproot_output \<Rightarrow> taproot_output" where
  "compute_output_key L sha tapleaf_hash out =
     out\<lparr>to_taproot_output_key :=
       (case tweak_taproot_output_key L sha (to_internal_key out) tapleaf_hash of
          None \<Rightarrow> replicate 32 0
        | Some k \<Rightarrow> k)\<rparr>"

definition OP_PUSH32 :: u8 where "OP_PUSH32 = 0x20"
definition OP_DROP :: u8 where "OP_DROP = 0x75"
definition OP_TRUE :: u8 where "OP_TRUE = 0x51"

definition build_script :: "bytes \<Rightarrow> bytes" where
  "build_script anchor_root = [OP_PUSH32] @ anchor_root @ [OP_DROP, OP_TRUE]"

definition compute_tapleaf_hash :: "(bytes \<Rightarrow> bytes) \<Rightarrow> bytes \<Rightarrow> bytes" where
  "compute_tapleaf_hash sha script =
     (let tag_hash = sha (str_bytes ''TapLeaf'') in sha (tag_hash @ tag_hash @ script))"

record anchor_tapleaf =
  al_script :: bytes
  al_leaf_hash :: bytes

definition build_anchor_commit_tapleaf :: "(bytes \<Rightarrow> bytes) \<Rightarrow> bytes \<Rightarrow> bytes \<Rightarrow> anchor_tapleaf" where
  "build_anchor_commit_tapleaf sha anchor_root metadata_hash =
     (let script = [OP_PUSH32] @ anchor_root @ [OP_DROP] @ [OP_PUSH32] @ metadata_hash @
                   [OP_DROP, OP_TRUE];
          tag_hash = sha (str_bytes ''TapLeaf'');
          buffer = tag_hash @ tag_hash @ [0xC0] @ write_compact_size (of_nat (length script)) @ script
      in \<lparr>al_script = script, al_leaf_hash = sha buffer\<rparr>)"

definition build_p2tr_script_pubkey :: "bytes \<Rightarrow> bytes" where
  "build_p2tr_script_pubkey taproot_output_key = [0x51, 0x20] @ taproot_output_key"

section \<open>Transactions\<close>

record tx_out =
  tout_value_sats :: u64
  tout_script_pubkey :: bytes

record tx_in =
  tin_prev_txid :: bytes
  tin_prev_vout :: u32
  tin_script_sig :: bytes
  tin_sequence :: u32
  tin_witness :: "bytes list"

record tx =
  tx_version :: u32
  tx_vin :: "tx_in list"
  tx_vout :: "tx_out list"
  tx_locktime :: u32

definition sized :: "bytes \<Rightarrow> bytes" where
  "sized bs = write_compact_size (of_nat (length bs)) @ bs"

definition tx_out_bytes :: "tx_out \<Rightarrow> bytes" where
  "tx_out_bytes o1 = write_uint64_le (tout_value_sats o1) @ sized (tout_script_pubkey o1)"

definition tx_in_bytes :: "tx_in \<Rightarrow> bytes" where
  "tx_in_bytes i = tin_prev_txid i @ write_uint32_le (tin_prev_vout i) @
     sized (tin_script_sig i) @ write_uint32_le (tin_sequence i)"

definition witness_bytes :: "tx_in \<Rightarrow> bytes" where
  "witness_bytes i = write_compact_size (of_nat (length (tin_witness i))) @
     concat (map sized (tin_witness i))"

definition tx_bytes :: "tx \<Rightarrow> bytes" where
  "tx_bytes t =
     (let is_segwit = list_ex (\<lambda>i. tin_witness i \<noteq> []) (tx_vin t) in
      write_uint32_le (tx_version t) @
      (if is_segwit then [0x00, 0x01] else []) @
      write_compact_size (of_nat (length (tx_vin t))) @ concat (map tx_in_bytes (tx_vin t)) @
      write_compact_size (of_nat (length (tx_vout t))) @ concat (map tx_out_bytes (tx_vout t)) @
      (if is_segwit then concat (map witness_bytes (tx_vin t)) else []) @
      write_uint32_le (tx_locktime t))"

definition build_taproot_tx :: "bytes \<Rightarrow> u32 \<Rightarrow> u64 \<Rightarrow> taproot_output \<Rightarrow> u64 \<Rightarrow> u32 \<Rightarrow> tx" where
  "build_taproot_tx prev_txid prev_vout input_value out output_value_sats locktime =
     \<lparr>tx_version = 2,
      tx_vin = [\<lparr>tin_prev_txid = prev_txid, tin_prev_vout = prev_vout, tin_script_sig = [],
                 tin_sequence = 0xFFFFFFFF, tin_witness = []\<rparr>],
      tx_vout = [\<lparr>tout_value_sats = output_value_sats,
                  tout_script_pubkey = build_p2tr_script_pubkey (to_taproot_output_key out)\<rparr>],
      tx_locktime = locktime\<rparr>"

section \<open>Signing\<close>

text \<open>The signature message of both signing functions, for a spent output \<open>prevout_spk\<close>.\<close>

definition tap_sighash ::
    "(bytes \<Rightarrow> bytes) \<Rightarrow> tx \<Rightarrow> nat \<Rightarrow> u64 \<Rightarrow> bytes \<Rightarrow> bytes" where
  "tap_sighash sha t input_index value_sats prevout_spk =
     (let prevouts = concat (map (\<lambda>i. tin_prev_txid i @ write_uint32_le (tin_prev_vout i)) (tx_vin t));
          amounts = write_uint64_le value_sats;
          spks = sized prevout_spk;
          sequences = concat (map (\<lambda>i. write_uint32_le (tin_sequence i)) (tx_vin t));
          outputs = concat (map tx_out_bytes (tx_vout t));
          msg = [0x00, 0x00] @ write_uint32_le (tx_version t) @ write_uint32_le (tx_locktime t) @
                sha prevouts @ sha amounts @ sha spks @ sha sequences @ sha outputs @
                [0x00] @ write_uint32_le (of_nat input_index)
      in tagged_hash sha ''TapSighash'' msg)"

text \<open>A signature result: the error, or the signature.\<close>

definition sign_taproot_input ::
    "('x, 'p, 'k) taproot_lib \<Rightarrow> (bytes \<Rightarrow> bytes) \<Rightarrow> tx \<Rightarrow> nat \<Rightarrow> bytes \<Rightarrow> bytes \<Rightarrow> bytes \<Rightarrow> u64 \<Rightarrow>
     string + bytes" where
  "sign_taproot_input L sha t input_index internal_key taproot_output_key privkey value_sats =
     (if length (tx_vin t) \<le> input_index then Inl ''invalid-input-index''
      else let sighash = tap_sighash sha t input_index value_sats
                           (build_p2tr_script_pubkey taproot_output_key)
           in case keypair_create L privkey of
                None \<Rightarrow> Inl ''invalid-private-key''
              | Some keypair \<Rightarrow>
                  (case keypair_xonly_tweak_add L keypair (tagged_hash sha ''TapTweak'' internal_key) of
                     None \<Rightarrow> Inl ''tweak-add-failed''
                   | Some keypair1 \<Rightarrow>
                       (case schnorrsig_sign L sighash keypair1 of
                          None \<Rightarrow> Inl ''schnorr-sign-failed''
                        | Some signature \<Rightarrow> Inr signature)))"

definition sign_anchor_commit_input ::
    "('x, 'p, 'k) taproot_lib \<Rightarrow> (bytes \<Rightarrow> bytes) \<Rightarrow> tx \<Rightarrow> nat \<Rightarrow> bytes \<Rightarrow> bytes \<Rightarrow> u64 \<Rightarrow> bytes \<Rightarrow>
     string + bytes" where
  "sign_anchor_commit_input L sha t input_index internal_key leaf_hash value_sats privkey =
     (if length (tx_vin t) \<le> input_index then Inl ''invalid-input-index''
      else let tweak = tagged_hash sha ''TapTweak'' (internal_key @ leaf_hash) in
        case xonly_pubkey_parse L internal_key of
          None \<Rightarrow> Inl ''invalid-internal-key''
        | Some xonly_internal \<Rightarrow>
            (case xonly_pubkey_tweak_add L xonly_internal tweak of
               None \<Rightarrow> Inl ''pubkey-tweak-failed''
             | Some output_pubkey \<Rightarrow>
                 (case xonly_pubkey_from_pubkey L output_pubkey of
                    None \<Rightarrow> Inl ''xonly-from-pubkey-failed''
                  | Some out_xonly \<Rightarrow>
                      let sighash = tap_sighash sha t input_index value_sats
                            (build_p2tr_script_pubkey (xonly_pubkey_serialize L out_xonly))
                      in case keypair_create L privkey of
                           None \<Rightarrow> Inl ''invalid-private-key''
                         | Some keypair \<Rightarrow>
                             (case keypair_xonly_tweak_add L keypair tweak of
                                None \<Rightarrow> Inl ''tweak-add-failed''
                              | Some keypair1 \<Rightarrow>
                                  (case schnorrsig_sign L sighash keypair1 of
                                     None \<Rightarrow> Inl ''schnorr-sign-failed''
                                   | Some signature \<Rightarrow> Inr signature)))))"

definition attach_taproot_witness :: "tx \<Rightarrow> nat \<Rightarrow> bytes \<Rightarrow> bool \<times> tx" where
  "attach_taproot_witness t input_index signature =
     (if length (tx_vin t) \<le> input_index then (False, t)
      else (True, t\<lparr>tx_vin := (tx_vin t)[input_index :=
              (tx_vin t ! input_index)\<lparr>tin_script_sig := [], tin_witness := [signature]\<rparr>]\<rparr>))"

definition build_signed_taproot_tx ::
    "('x, 'p, 'k) taproot_lib \<Rightarrow> (bytes \<Rightarrow> bytes) \<Rightarrow> tx \<Rightarrow> bytes \<Rightarrow> bytes \<Rightarrow> bytes \<Rightarrow> u64 \<Rightarrow> tx" where
  "build_signed_taproot_tx L sha unsigned_tx internal_key taproot_output_key privkey value_sats =
     (case sign_taproot_input L sha unsigned_tx 0 internal_key taproot_output_key privkey value_sats of
        Inr signature \<Rightarrow> snd (attach_taproot_witness unsigned_tx 0 signature)
      | Inl _ \<Rightarrow> unsigned_tx)"

text \<open>
  \<open>sign_anchor_commit_tx\<close> parses the unsigned bytes. Lengths of scripts are single bytes here,
  and the witness count is not skipped: the lock time is read from where it stands.
\<close>

definition parse_unsigned :: "bytes \<Rightarrow> tx option" where
  "parse_unsigned unsigned_tx =
     (if length unsigned_tx < 60 then None
      else let version = le_word (take 4 unsigned_tx) :: u32 in
        if version \<noteq> 2 \<or> unsigned_tx ! 4 \<noteq> 0x00 \<or> unsigned_tx ! 5 \<noteq> 0x01 \<or> unsigned_tx ! 6 \<noteq> 1
        then None
        else let r = drop 7 unsigned_tx in
          if length r < 32 + 4 + 1 + 4 then None
          else let in_txid = take 32 r;
                   in_vout = le_word (take 4 (drop 32 r)) :: u32;
                   script_sig_len = unat (r ! 36);
                   r1 = drop 37 r
               in if length r1 < script_sig_len + 4 then None
                  else let r2 = drop script_sig_len r1;
                           in_seq = le_word (take 4 r2) :: u32;
                           r3 = drop 4 r2
                       in if length r3 < 1 + 8 then None
                          else if r3 ! 0 \<noteq> 1 then None
                          else let out_val = le_word (take 8 (drop 1 r3)) :: u64;
                                   r4 = drop 9 r3
                               in if length r4 < 1 then None
                                  else let spk_len = unat (r4 ! 0); r5 = drop 1 r4 in
                                    if length r5 < spk_len + 4 then None
                                    else Some
                                      \<lparr>tx_version = version,
                                       tx_vin = [\<lparr>tin_prev_txid = in_txid, tin_prev_vout = in_vout,
                                         tin_script_sig = [], tin_sequence = in_seq,
                                         tin_witness = []\<rparr>],
                                       tx_vout = [\<lparr>tout_value_sats = out_val,
                                         tout_script_pubkey = take spk_len r5\<rparr>],
                                       tx_locktime = le_word (take 4 (drop spk_len r5))\<rparr>)"

definition sign_anchor_commit_tx ::
    "('x, 'p, 'k) taproot_lib \<Rightarrow> (bytes \<Rightarrow> bytes) \<Rightarrow> bytes \<Rightarrow> bytes \<Rightarrow> bytes \<Rightarrow> u64 \<Rightarrow> bytes \<Rightarrow> bytes" where
  "sign_anchor_commit_tx L sha unsigned_tx internal_key leaf_hash value_sats privkey =
     (case parse_unsigned unsigned_tx of
        None \<Rightarrow> []
      | Some t \<Rightarrow>
          (case sign_anchor_commit_input L sha t 0 internal_key leaf_hash value_sats privkey of
             Inl _ \<Rightarrow> []
           | Inr signature \<Rightarrow>
               let (ok, t1) = attach_taproot_witness t 0 signature
               in if \<not> ok then [] else tx_bytes t1))"

end
