(* ===== verification/Anchor_Commit.thy ===== *)
theory Anchor_Commit
  imports Taproot
begin

text \<open>
  Anchor records and metadata, and the commitment transaction that anchors them:
  \<open>src/anchor/AnchorRecord.cpp\<close>, \<open>AnchorMetadata.cpp\<close>, \<open>AnchorMetadataEncoder.cpp\<close>,
  \<open>AnchorCommitTxBuilder.cpp\<close> and \<open>AnchorCommitValidator.cpp\<close>. The validator's cursor is the
  unread rest of the transaction; its offset is the difference of the lengths.
\<close>

section \<open>Records\<close>

record anchor_record =
  ar_epoch_id :: u64
  ar_state_root :: bytes
  ar_replay_root :: bytes
  ar_version :: u32
  ar_network_id :: u32

definition record_bytes :: "anchor_record \<Rightarrow> bytes" where
  "record_bytes r = le_bytes 8 (ar_epoch_id r) @ ar_state_root r @ ar_replay_root r @
     le_bytes 4 (ar_version r) @ le_bytes 4 (ar_network_id r)"

definition anchor_root :: "(bytes \<Rightarrow> bytes) \<Rightarrow> anchor_record \<Rightarrow> bytes" where
  "anchor_root sha r = sha (record_bytes r)"

record anchor_metadata =
  am_epoch_number :: u64
  am_version :: u32
  am_replay_window :: u32
  am_anchor_type :: u32
  am_flags :: u32

definition metadata_bytes :: "anchor_metadata \<Rightarrow> bytes" where
  "metadata_bytes m = le_bytes 8 (am_epoch_number m) @ le_bytes 4 (am_version m) @
     le_bytes 4 (am_replay_window m) @ le_bytes 4 (am_anchor_type m) @ le_bytes 4 (am_flags m)"

definition hash_metadata :: "(bytes \<Rightarrow> bytes) \<Rightarrow> anchor_metadata \<Rightarrow> bytes" where
  "hash_metadata sha m = sha (metadata_bytes m)"

section \<open>Building\<close>

record commit_input =
  ci_prev_txid :: bytes
  ci_prev_vout :: u32
  ci_value_sats :: u64
  ci_internal_key :: bytes

definition build_anchor_commit_tx ::
    "('x, 'p, 'k) taproot_lib \<Rightarrow> (bytes \<Rightarrow> bytes) \<Rightarrow> bytes \<Rightarrow> bytes \<Rightarrow> commit_input \<Rightarrow> u64 \<Rightarrow> bytes" where
  "build_anchor_commit_tx L sha root_hash metadata_hash input fee_sats =
     (let tapleaf = build_anchor_commit_tapleaf sha root_hash metadata_hash;
          out = compute_output_key L sha (al_leaf_hash tapleaf)
                  \<lparr>to_internal_key = ci_internal_key input, to_taproot_output_key = [],
                   to_bech32m_address = []\<rparr>;
          script_pubkey = build_p2tr_script_pubkey (to_taproot_output_key out);
          output_value_sats = ci_value_sats input - fee_sats
      in write_uint32_le 2 @ [0x00, 0x01] @
         write_compact_size 1 @ ci_prev_txid input @ write_uint32_le (ci_prev_vout input) @
         write_compact_size 0 @ write_uint32_le 0xFFFFFFFF @
         write_compact_size 1 @ write_uint64_le output_value_sats @
         write_compact_size (of_nat (length script_pubkey)) @ script_pubkey @
         write_compact_size 0 @ write_uint32_le 0)"

section \<open>Validating\<close>

text \<open>A truncated integer reads as 0 and does not move the cursor.\<close>

definition read_uint32_le :: "bytes \<Rightarrow> u32 \<times> bytes" where
  "read_uint32_le d = (if length d < 4 then (0, d) else (le_word (take 4 d), drop 4 d))"

definition read_uint64_le :: "bytes \<Rightarrow> u64 \<times> bytes" where
  "read_uint64_le d = (if length d < 8 then (0, d) else (le_word (take 8 d), drop 8 d))"

definition read_compact_size :: "bytes \<Rightarrow> u64 \<times> bytes" where
  "read_compact_size d =
     (case d of [] \<Rightarrow> (0, d)
      | first # r \<Rightarrow>
          if first < 253 then (ucast first, r)
          else if first = 253 then
            (if length r < 2 then (0, r) else (le_word (take 2 r), drop 2 r))
          else if first = 254 then
            (if length r < 4 then (0, r) else (let (v, r1) = read_uint32_le r in (ucast v, r1)))
          else if length r < 8 then (0, r) else read_uint64_le r)"

text \<open>The fields the parser finds in the transaction.\<close>

record commit_fields =
  cf_version :: u32
  cf_prev_txid :: bytes
  cf_prev_vout :: u32
  cf_sequence :: u32
  cf_output_value :: u64
  cf_output_script :: bytes
  cf_signature :: bytes
  cf_locktime :: u32

text \<open>
  The parsing half of \<open>validate_anchor_commit\<close>: the error, or the fields. \<open>None\<close> stands for the
  one undefined step: a script length that makes \<open>offset + script_pubkey_len\<close> wrap passes the
  bounds check, and the iterators of \<open>insert\<close> then lie outside the vector.
\<close>

definition parse_signed :: "bytes \<Rightarrow> (string + commit_fields) option" where
  "parse_signed signed_tx =
     (if length signed_tx < 60 then Some (Inl ''tx-too-short'')
      else let (version, d1) = read_uint32_le signed_tx in
      if version \<noteq> 2 then Some (Inl ''invalid-version'')
      else if length d1 < 2 then Some (Inl ''tx-too-short'')
      else if d1 ! 0 \<noteq> 0x00 \<or> d1 ! 1 \<noteq> 0x01 then Some (Inl ''not-segwit-tx'')
      else let (input_count, d2) = read_compact_size (drop 2 d1) in
      if input_count \<noteq> 1 then Some (Inl ''invalid-input-count'')
      else if length d2 < 36 then Some (Inl ''tx-too-short'')
      else let (prev_vout, d3) = read_uint32_le (drop 32 d2);
               (script_sig_len, d4) = read_compact_size d3 in
      if script_sig_len \<noteq> 0 then Some (Inl ''non-empty-script-sig'')
      else if length d4 < 4 then Some (Inl ''tx-too-short'')
      else let (sequence, d5) = read_uint32_le d4;
               (output_count, d6) = read_compact_size d5 in
      if output_count \<noteq> 1 then Some (Inl ''invalid-output-count'')
      else if length d6 < 8 then Some (Inl ''tx-too-short'')
      else let (output_value, d7) = read_uint64_le d6;
               (script_len, d8) = read_compact_size d7;
               offset = of_nat (length signed_tx - length d8) :: u64 in
      if offset + script_len > of_nat (length signed_tx) then Some (Inl ''tx-too-short'')
      else if unat script_len > length d8 then None
      else let output_script = take (unat script_len) d8;
               (witness_count, d9) = read_compact_size (drop (unat script_len) d8) in
      if witness_count \<noteq> 1 then Some (Inl ''invalid-witness-count'')
      else let (witness_item_len, d10) = read_compact_size d9 in
      if witness_item_len \<noteq> 64 then Some (Inl ''invalid-signature-length'')
      else if length d10 < 64 then Some (Inl ''tx-too-short'')
      else let d11 = drop 64 d10 in
      if length d11 < 4 then Some (Inl ''tx-too-short'')
      else let (locktime, d12) = read_uint32_le d11 in
      if locktime \<noteq> 0 then Some (Inl ''invalid-locktime'')
      else Some (Inr \<lparr>cf_version = version, cf_prev_txid = take 32 d2, cf_prev_vout = prev_vout,
        cf_sequence = sequence, cf_output_value = output_value, cf_output_script = output_script,
        cf_signature = take 64 d10, cf_locktime = locktime\<rparr>))"

definition commit_script ::
    "('x, 'p, 'k) taproot_lib \<Rightarrow> (bytes \<Rightarrow> bytes) \<Rightarrow> bytes \<Rightarrow> bytes \<Rightarrow> bytes \<Rightarrow> bytes" where
  "commit_script L sha root_hash metadata_hash internal_key =
     (let tapleaf = build_anchor_commit_tapleaf sha root_hash metadata_hash;
          out = compute_output_key L sha (al_leaf_hash tapleaf)
                  \<lparr>to_internal_key = internal_key, to_taproot_output_key = [],
                   to_bech32m_address = []\<rparr>
      in build_p2tr_script_pubkey (to_taproot_output_key out))"

text \<open>The validator rebuilds the signature message from the fields.\<close>

definition commit_sighash :: "(bytes \<Rightarrow> bytes) \<Rightarrow> commit_fields \<Rightarrow> bytes \<Rightarrow> u64 \<Rightarrow> bytes" where
  "commit_sighash sha f expected_script value_sats =
     (let sha_prevouts = sha (cf_prev_txid f @ write_uint32_le (cf_prev_vout f));
          sha_amounts = sha (write_uint64_le value_sats);
          sha_scriptpubkeys = sha (write_compact_size (of_nat (length expected_script)) @ expected_script);
          sha_sequences = sha (write_uint32_le (cf_sequence f));
          sha_outputs = sha (write_uint64_le (cf_output_value f) @
             write_compact_size (of_nat (length (cf_output_script f))) @ cf_output_script f);
          msg = [0x00, 0x00] @ write_uint32_le (cf_version f) @ write_uint32_le (cf_locktime f) @
             sha_prevouts @ sha_amounts @ sha_scriptpubkeys @ sha_sequences @ sha_outputs @
             [0x00] @ write_uint32_le 0
      in tagged_hash sha ''TapSighash'' msg)"

definition check_commit ::
    "('x, 'p, 'k) taproot_lib \<Rightarrow> (bytes \<Rightarrow> bytes) \<Rightarrow> bytes \<Rightarrow> u64 \<Rightarrow> commit_fields \<Rightarrow> bool \<times> string" where
  "check_commit L sha expected_script value_sats f =
     (if cf_output_script f \<noteq> expected_script then (False, ''scriptpubkey-mismatch'')
      else case xonly_pubkey_parse L (drop 2 expected_script) of
        None \<Rightarrow> (False, ''invalid-verification-key'')
      | Some key \<Rightarrow>
          if \<not> schnorrsig_verify L (cf_signature f) (commit_sighash sha f expected_script value_sats) key
          then (False, ''invalid-signature'')
          else (True, []))"

definition validate_anchor_commit ::
    "('x, 'p, 'k) taproot_lib \<Rightarrow> (bytes \<Rightarrow> bytes) \<Rightarrow> bytes \<Rightarrow> bytes \<Rightarrow> bytes \<Rightarrow> bytes \<Rightarrow> u64 \<Rightarrow>
     (bool \<times> string) option" where
  "validate_anchor_commit L sha signed_tx root_hash metadata_hash internal_key value_sats =
     (case parse_signed signed_tx of
        None \<Rightarrow> None
      | Some (Inl e) \<Rightarrow> Some (False, e)
      | Some (Inr f) \<Rightarrow>
          Some (check_commit L sha (commit_script L sha root_hash metadata_hash internal_key)
                  value_sats f))"

end
