(* ===== verification/Anchor_Props.thy ===== *)
theory Anchor_Props
  imports Anchor_Commit
begin

unbundle bit_operations_syntax

text \<open>
  Properties of the anchor transactions: the wire integers are read back, a built and signed
  transaction is accepted by the validator, the validator and the signer compute one signature
  message, and an accepted transaction commits to its anchor.
\<close>

section \<open>Integers\<close>

lemma read_uint32 [simp]: "read_uint32_le (le_bytes 4 w @ r) = (w, r)"
  by (simp add: read_uint32_le_def)

lemma read_uint64 [simp]: "read_uint64_le (le_bytes 8 w @ r) = (w, r)"
  by (simp add: read_uint64_le_def)

lemma le_word_cast: "(le_word (le_bytes n w) :: 'b::len word) = take_bit (8 * n) (ucast w)"
proof (induction n arbitrary: w)
  case (Suc n)
  show ?case
    by (rule bit_word_eqI) (auto simp: Suc bit_simps)
qed simp

lemma take_bit_small: "unat v < 2 ^ n \<Longrightarrow> take_bit n (v :: 'a::len word) = v"
  by (simp add: word_unat_eq_iff unsigned_take_bit_eq take_bit_nat_eq_self)

lemma unat_cast_small: "unat v < 2 ^ LENGTH('b) \<Longrightarrow> unat (ucast (v :: 'a::len word) :: 'b::len word) = unat v"
  by (simp add: unsigned_ucast_eq take_bit_nat_eq_self)

lemma read_compact_size_write [simp]:
  "read_compact_size (write_compact_size v @ r) = (v, r)"
proof (cases "v < 0xFD")
  case True
  then have "unat v < 253" by (simp add: word_less_nat_alt)
  moreover from this have "unat (ucast v :: u8) = unat v" by (intro unat_cast_small) simp
  ultimately have "(ucast v :: u8) < 253" "ucast (ucast v :: u8) = v"
    by (simp_all add: word_less_nat_alt word_unat_eq_iff unat_cast_small)
  with True show ?thesis by (simp add: read_compact_size_def write_compact_size_def)
next
  case False
  have mid: "v \<le> 0xFFFF \<Longrightarrow> (le_word (le_bytes 2 v) :: u64) = v"
    by (simp add: le_word_cast take_bit_small word_le_nat_alt)
  have wide: "v \<le> 0xFFFFFFFF \<Longrightarrow> ucast (le_word (le_bytes 4 v) :: u32) = v"
    by (simp add: le_word_cast take_bit_small unat_cast_small word_le_nat_alt word_unat_eq_iff)
  from False mid wide show ?thesis
    by (auto simp: read_compact_size_def write_compact_size_def read_uint32_le_def read_uint64_le_def
        write_uint64_le_def)
qed

lemma compact_one_byte: "v < 0xFD \<Longrightarrow> write_compact_size v = [ucast v]"
  by (simp add: write_compact_size_def)

section \<open>Building, signing, validating\<close>

definition commit_tx :: "bytes \<Rightarrow> u32 \<Rightarrow> u64 \<Rightarrow> bytes \<Rightarrow> bytes list \<Rightarrow> tx" where
  "commit_tx txid vout val spk wit =
     \<lparr>tx_version = 2,
      tx_vin = [\<lparr>tin_prev_txid = txid, tin_prev_vout = vout, tin_script_sig = [],
                 tin_sequence = 0xFFFFFFFF, tin_witness = wit\<rparr>],
      tx_vout = [\<lparr>tout_value_sats = val, tout_script_pubkey = spk\<rparr>], tx_locktime = 0\<rparr>"

lemma le_zero: "le_bytes 4 (0 :: u32) = [0, 0, 0, 0]"
  by (simp add: numeral_eq_Suc)

lemma parse_unsigned_built:
  assumes "length txid = 32" "length spk = 34"
  shows "parse_unsigned (le_bytes 4 (2 :: u32) @ 0 # 1 # 1 # txid @ le_bytes 4 vout @ 0 #
      le_bytes 4 (0xFFFFFFFF :: u32) @ 1 # le_bytes 8 val @ 34 # spk @ [0, 0, 0, 0, 0]) =
    Some (commit_tx txid vout val spk [])"
proof -
  let ?spk = "spk @ [0, 0, 0, 0, 0]"
  let ?out = "1 # le_bytes 8 val @ 34 # ?spk"
  let ?r1 = "le_bytes 4 (0xFFFFFFFF :: u32) @ ?out"
  let ?r = "txid @ le_bytes 4 vout @ 0 # ?r1"
  let ?d = "le_bytes 4 (2 :: u32) @ 0 # 1 # 1 # ?r"
  have d: "?d ! 4 = 0" "?d ! 5 = 1" "?d ! 6 = 1" "drop 7 ?d = ?r" "take 4 ?d = le_bytes 4 (2 :: u32)"
    by (simp_all add: nth_append)
  have r: "take 32 ?r = txid" "take 4 (drop 32 ?r) = le_bytes 4 vout" "?r ! 36 = 0" "drop 37 ?r = ?r1"
    using assms(1) by (simp_all add: nth_append)
  have o: "take 8 (drop 1 ?out) = le_bytes 8 val" "drop 9 ?out = 34 # ?spk" by simp_all
  have z: "(le_word [0, 0, 0, 0] :: u32) = 0"
    using le_word_32 [of 0] by (simp add: le_zero)
  show ?thesis
    unfolding parse_unsigned_def Let_def d r
    using assms by (simp add: o [simplified] commit_tx_def z)
qed

lemma parse_signed_built:
  assumes "length txid = 32" "length spk = 34" "length sig = 64" "length junk < 2 ^ 63"
  shows "parse_signed (tx_bytes (commit_tx txid vout val spk [sig]) @ junk) =
    Some (Inr \<lparr>cf_version = 2, cf_prev_txid = txid, cf_prev_vout = vout, cf_sequence = 0xFFFFFFFF,
      cf_output_value = val, cf_output_script = spk, cf_signature = sig, cf_locktime = 0\<rparr>)"
proof -
  let ?w = "write_compact_size 1 @ write_compact_size 64 @ sig @ le_bytes 4 (0 :: u32) @ junk"
  let ?o = "write_compact_size 34 @ spk @ ?w"
  let ?s = "le_bytes 4 (0xFFFFFFFF :: u32) @ write_compact_size 1 @ le_bytes 8 val @ ?o"
  let ?i = "txid @ le_bytes 4 vout @ write_compact_size 0 @ ?s"
  let ?d = "le_bytes 4 (2 :: u32) @ [0, 1] @ write_compact_size 1 @ ?i"
  have bytes: "tx_bytes (commit_tx txid vout val spk [sig]) @ junk = ?d"
    using assms by (simp add: tx_bytes_def commit_tx_def tx_in_bytes_def tx_out_bytes_def sized_def
        witness_bytes_def write_uint32_le_def write_uint64_le_def)
  note one = compact_one_byte
  have len: "length ?d = 162 + length junk" using assms by (simp add: one)
  have rest: "length (spk @ ?w) = 104 + length junk" using assms by (simp add: one)
  have i: "take 32 ?i = txid" "drop 32 ?i = le_bytes 4 vout @ write_compact_size 0 @ ?s"
    using assms(1) by simp_all
  have w: "take 64 (sig @ le_bytes 4 (0 :: u32) @ junk) = sig"
    "drop 64 (sig @ le_bytes 4 (0 :: u32) @ junk) = le_bytes 4 (0 :: u32) @ junk"
    using assms(3) by simp_all
  have u: "unat (of_nat (162 + length junk) :: u64) = 162 + length junk"
    using assms(4) by (intro unat_of_small) simp
  have off: "\<not> (of_nat (162 + length junk - (104 + length junk)) + 34 :: u64) > of_nat (162 + length junk)"
    using u by (simp add: word_less_nat_alt del: of_nat_add)
  have one_long: "length (write_compact_size 1) = 1" "length (write_compact_size 64) = 1"
    by (simp_all add: one)
  have long: "\<not> 162 + length junk < 60" by simp
  show ?thesis
    unfolding bytes parse_signed_def len read_uint32 Let_def prod.case
    using assms off
    by (simp add: one_long i [simplified] w [simplified])
qed

text \<open>
  What the pipeline needs of the signature library, for one tweak: the private key belongs to
  the internal key, the tweak is applicable, the tweaked key serializes to 32 bytes that parse
  back, and a message signed with the tweaked private key verifies under the tweaked key.
\<close>

definition signs_for :: "('x, 'p, 'k) taproot_lib \<Rightarrow> bytes \<Rightarrow> bytes \<Rightarrow> bytes \<Rightarrow> bool" where
  "signs_for L privkey internal_key t \<longleftrightarrow> (\<exists>x p y kp kp1.
     xonly_pubkey_parse L internal_key = Some x \<and> xonly_pubkey_tweak_add L x t = Some p \<and>
     xonly_pubkey_from_pubkey L p = Some y \<and> length (xonly_pubkey_serialize L y) = 32 \<and>
     xonly_pubkey_parse L (xonly_pubkey_serialize L y) = Some y \<and>
     keypair_create L privkey = Some kp \<and> keypair_xonly_tweak_add L kp t = Some kp1 \<and>
     (\<forall>m. length m = 32 \<longrightarrow>
        (\<exists>s. schnorrsig_sign L m kp1 = Some s \<and> length s = 64 \<and> schnorrsig_verify L s m y)))"

definition commit_tweak :: "(bytes \<Rightarrow> bytes) \<Rightarrow> bytes \<Rightarrow> bytes \<Rightarrow> bytes \<Rightarrow> bytes" where
  "commit_tweak sha root_hash metadata_hash internal_key =
     tagged_hash sha ''TapTweak''
       (internal_key @ al_leaf_hash (build_anchor_commit_tapleaf sha root_hash metadata_hash))"

lemma tweak_output_key:
  "xonly_pubkey_parse L key = Some x \<Longrightarrow> xonly_pubkey_tweak_add L x (tagged_hash sha ''TapTweak'' (key @ h)) = Some p \<Longrightarrow>
   xonly_pubkey_from_pubkey L p = Some y \<Longrightarrow>
   tweak_taproot_output_key L sha key h = Some (xonly_pubkey_serialize L y)"
  by (simp add: tweak_taproot_output_key_def tagged_hash_def Let_def)

text \<open>The validator's signature message is the signer's, for the transaction of the fields.\<close>

definition tx_of_fields :: "commit_fields \<Rightarrow> tx" where
  "tx_of_fields f =
     \<lparr>tx_version = cf_version f,
      tx_vin = [\<lparr>tin_prev_txid = cf_prev_txid f, tin_prev_vout = cf_prev_vout f,
        tin_script_sig = [], tin_sequence = cf_sequence f, tin_witness = [cf_signature f]\<rparr>],
      tx_vout = [\<lparr>tout_value_sats = cf_output_value f, tout_script_pubkey = cf_output_script f\<rparr>],
      tx_locktime = cf_locktime f\<rparr>"

lemma same_sighash: "commit_sighash sha f spk v = tap_sighash sha (tx_of_fields f) 0 v spk"
  by (simp add: commit_sighash_def tap_sighash_def tx_of_fields_def sized_def tx_out_bytes_def Let_def)

lemma sighash_ignores_witness:
  "tap_sighash sha (commit_tx txid vout val spk w) n v k = tap_sighash sha (commit_tx txid vout val spk w') n v k"
  by (simp add: tap_sighash_def commit_tx_def)

lemma built_and_signed_validates:
  assumes sha: "\<And>b. length (sha b) = 32"
    and keys: "signs_for L privkey (ci_internal_key input)
      (commit_tweak sha root_hash metadata_hash (ci_internal_key input))"
    and txid: "length (ci_prev_txid input) = 32" and junk: "length junk < 2 ^ 63"
  shows "validate_anchor_commit L sha
    (sign_anchor_commit_tx L sha (build_anchor_commit_tx L sha root_hash metadata_hash input fee)
       (ci_internal_key input)
       (al_leaf_hash (build_anchor_commit_tapleaf sha root_hash metadata_hash))
       (ci_value_sats input) privkey @ junk)
    root_hash metadata_hash (ci_internal_key input) (ci_value_sats input) = Some (True, [])"
proof -
  let ?key = "ci_internal_key input" and ?v = "ci_value_sats input"
  let ?leaf = "al_leaf_hash (build_anchor_commit_tapleaf sha root_hash metadata_hash)"
  let ?t = "tagged_hash sha ''TapTweak'' (?key @ ?leaf)"
  obtain x p y kp kp1 where lib: "xonly_pubkey_parse L ?key = Some x"
      "xonly_pubkey_tweak_add L x ?t = Some p" "xonly_pubkey_from_pubkey L p = Some y"
      "length (xonly_pubkey_serialize L y) = 32"
      "xonly_pubkey_parse L (xonly_pubkey_serialize L y) = Some y"
      "keypair_create L privkey = Some kp" "keypair_xonly_tweak_add L kp ?t = Some kp1"
      "\<And>m. length m = 32 \<Longrightarrow>
        \<exists>s. schnorrsig_sign L m kp1 = Some s \<and> length s = 64 \<and> schnorrsig_verify L s m y"
    using keys unfolding signs_for_def commit_tweak_def by blast
  define out_key where "out_key = xonly_pubkey_serialize L y"
  define spk where "spk = build_p2tr_script_pubkey out_key"
  define unsigned where "unsigned = commit_tx (ci_prev_txid input) (ci_prev_vout input) (?v - fee) spk []"
  define msg where "msg = tap_sighash sha unsigned 0 ?v spk"
  have "length msg = 32" by (simp add: msg_def tap_sighash_def tagged_hash_def Let_def sha)
  then obtain s where s: "schnorrsig_sign L msg kp1 = Some s" "length s = 64" "schnorrsig_verify L s msg y"
    using lib(8) by blast
  have tweaked: "tweak_taproot_output_key L sha ?key ?leaf = Some out_key"
    unfolding out_key_def by (rule tweak_output_key [OF lib(1-3)])
  have script: "commit_script L sha root_hash metadata_hash ?key = spk"
    by (simp add: commit_script_def compute_output_key_def tweaked spk_def Let_def)
  have spk_length: "length spk = 34" using lib(4) by (simp add: spk_def build_p2tr_script_pubkey_def out_key_def)
  have "parse_unsigned (build_anchor_commit_tx L sha root_hash metadata_hash input fee) = Some unsigned"
    using parse_unsigned_built [OF txid spk_length, of "ci_prev_vout input" "?v - fee"] spk_length
    by (simp add: build_anchor_commit_tx_def compute_output_key_def tweaked Let_def compact_one_byte
        write_uint32_le_def write_uint64_le_def unsigned_def le_zero flip: spk_def)
  moreover have "sign_anchor_commit_input L sha unsigned 0 ?key ?leaf ?v privkey = Inr s"
    using lib s by (simp add: sign_anchor_commit_input_def unsigned_def commit_tx_def Let_def
        msg_def spk_def out_key_def)
  ultimately have signed: "sign_anchor_commit_tx L sha
      (build_anchor_commit_tx L sha root_hash metadata_hash input fee) ?key ?leaf ?v privkey =
      tx_bytes (commit_tx (ci_prev_txid input) (ci_prev_vout input) (?v - fee) spk [s])"
    by (simp add: sign_anchor_commit_tx_def attach_taproot_witness_def unsigned_def commit_tx_def)
  have "commit_sighash sha \<lparr>cf_version = 2, cf_prev_txid = ci_prev_txid input,
      cf_prev_vout = ci_prev_vout input, cf_sequence = 0xFFFFFFFF, cf_output_value = ?v - fee,
      cf_output_script = spk, cf_signature = s, cf_locktime = 0\<rparr> spk ?v = msg"
    by (simp add: same_sighash tx_of_fields_def msg_def unsigned_def commit_tx_def tap_sighash_def)
  moreover have "xonly_pubkey_parse L (drop 2 spk) = Some y"
    using lib(5) by (simp add: spk_def build_p2tr_script_pubkey_def out_key_def)
  ultimately show ?thesis
    unfolding signed validate_anchor_commit_def parse_signed_built [OF txid spk_length s(2) junk] script
    using s(3) by (simp add: check_commit_def)
qed

text \<open>
  C27. Build, sign, validate: for every anchor root, metadata hash, input and fee, and every key
  pair the signature library handles correctly, the transaction the builder makes and the signer
  completes is accepted by the validator, also with further bytes behind it.
\<close>

theorem anchor_commit_accepted:
  assumes sha: "\<And>b. length (sha b) = 32"
    and keys: "signs_for L privkey (ci_internal_key input)
      (commit_tweak sha root_hash metadata_hash (ci_internal_key input))"
    and txid: "length (ci_prev_txid input) = 32" and junk: "length junk < 2 ^ 63"
  shows "validate_anchor_commit L sha
    (sign_anchor_commit_tx L sha (build_anchor_commit_tx L sha root_hash metadata_hash input fee)
       (ci_internal_key input)
       (al_leaf_hash (build_anchor_commit_tapleaf sha root_hash metadata_hash))
       (ci_value_sats input) privkey @ junk)
    root_hash metadata_hash (ci_internal_key input) (ci_value_sats input) = Some (True, [])"
  by (rule built_and_signed_validates [OF assms])

section \<open>What an accepted transaction commits to\<close>

text \<open>The output key for an internal key and a tweak; 32 zeros when the library refuses.\<close>

definition tweaked_key :: "('x, 'p, 'k) taproot_lib \<Rightarrow> bytes \<Rightarrow> bytes \<Rightarrow> bytes" where
  "tweaked_key L internal_key t =
     (case Option.bind (xonly_pubkey_parse L internal_key) (\<lambda>x.
             Option.bind (xonly_pubkey_tweak_add L x t) (xonly_pubkey_from_pubkey L)) of
        None \<Rightarrow> replicate 32 0
      | Some y \<Rightarrow> xonly_pubkey_serialize L y)"

lemma commit_script_tweaked:
  "commit_script L sha root_hash metadata_hash key =
     [0x51, 0x20] @ tweaked_key L key (commit_tweak sha root_hash metadata_hash key)"
  by (auto simp: commit_script_def compute_output_key_def tweak_taproot_output_key_def tweaked_key_def
      commit_tweak_def tagged_hash_def build_p2tr_script_pubkey_def Let_def split: option.split)

lemma leaf_script_inj:
  assumes "length r1 = 32" "length r2 = 32" "length m1 = 32" "length m2 = 32" "\<And>b. length (sha b) = 32"
    and "al_leaf_hash (build_anchor_commit_tapleaf sha r1 m1) = al_leaf_hash (build_anchor_commit_tapleaf sha r2 m2)"
  shows "(r1 = r2 \<and> m1 = m2) \<or> (\<exists>a b. a \<noteq> b \<and> sha a = sha b)"
proof (cases "\<exists>a b. a \<noteq> b \<and> sha a = sha b")
  case False
  then have inj: "sha a = sha b \<Longrightarrow> a = b" for a b by blast
  from assms(6) have "r1 @ [OP_DROP, OP_PUSH32] @ m1 = r2 @ [OP_DROP, OP_PUSH32] @ m2"
    using assms(1-5) by (auto simp: build_anchor_commit_tapleaf_def Let_def dest!: inj)
  then show ?thesis using assms(1-4) by simp
qed simp

lemma commit_tweak_inj:
  assumes "length r1 = 32" "length r2 = 32" "length m1 = 32" "length m2 = 32" "\<And>b. length (sha b) = 32"
    and "commit_tweak sha r1 m1 key = commit_tweak sha r2 m2 key"
  shows "(r1 = r2 \<and> m1 = m2) \<or> (\<exists>a b. a \<noteq> b \<and> sha a = sha b)"
proof (cases "\<exists>a b. a \<noteq> b \<and> sha a = sha b")
  case False
  with assms(6) have "al_leaf_hash (build_anchor_commit_tapleaf sha r1 m1) =
      al_leaf_hash (build_anchor_commit_tapleaf sha r2 m2)"
    unfolding commit_tweak_def tagged_hash_def Let_def by (metis same_append_eq)
  from leaf_script_inj [OF assms(1-5) this] show ?thesis .
qed simp

lemma accepted_fields:
  assumes "validate_anchor_commit L sha d root_hash metadata_hash key v = Some (True, e)"
  obtains f y where "parse_signed d = Some (Inr f)"
    "cf_output_script f = commit_script L sha root_hash metadata_hash key"
    "xonly_pubkey_parse L (drop 2 (cf_output_script f)) = Some y"
    "schnorrsig_verify L (cf_signature f) (commit_sighash sha f (cf_output_script f) v) y"
  using assms that
  by (auto simp: validate_anchor_commit_def check_commit_def
      split: option.splits sum.splits if_splits)

lemma parsed_shape:
  "parse_signed d = Some (Inr f) \<Longrightarrow> cf_version f = 2 \<and> cf_locktime f = 0 \<and>
     length (cf_signature f) = 64 \<and> length (cf_prev_txid f) = 32"
  by (auto simp: parse_signed_def Let_def split: prod.splits if_splits)

text \<open>
  C28. An accepted transaction has version 2, no lock time and one output, whose script is the
  Taproot script of the internal key tweaked by the anchor root and the metadata hash, and its
  64-byte signature verifies under that output key over exactly the message the signer signs
  for the transaction and value.
\<close>

theorem accepted_commit_sound:
  assumes "validate_anchor_commit L sha d root_hash metadata_hash key v = Some (True, e)"
  shows "\<exists>f y. parse_signed d = Some (Inr f) \<and> cf_version f = 2 \<and> cf_locktime f = 0 \<and>
    length (cf_signature f) = 64 \<and>
    cf_output_script f = [0x51, 0x20] @ tweaked_key L key (commit_tweak sha root_hash metadata_hash key) \<and>
    xonly_pubkey_parse L (tweaked_key L key (commit_tweak sha root_hash metadata_hash key)) = Some y \<and>
    schnorrsig_verify L (cf_signature f)
      (tap_sighash sha (tx_of_fields f) 0 v (cf_output_script f)) y"
proof -
  obtain f y where f: "parse_signed d = Some (Inr f)"
    "cf_output_script f = commit_script L sha root_hash metadata_hash key"
    "xonly_pubkey_parse L (drop 2 (cf_output_script f)) = Some y"
    "schnorrsig_verify L (cf_signature f) (commit_sighash sha f (cf_output_script f) v) y"
    using accepted_fields [OF assms] .
  then show ?thesis
    using parsed_shape [OF f(1)] by (auto simp: commit_script_tweaked same_sighash)
qed

text \<open>
  One transaction cannot be accepted for two anchors: if it validates for two pairs of
  anchor root and metadata hash under one internal key, whatever the values, then the pairs are
  equal, or SHA-256 has a collision, or two different tweaks give one output key.
\<close>

theorem accepted_commit_binds:
  assumes "\<And>b. length (sha b) = 32"
    and "length r1 = 32" "length r2 = 32" "length m1 = 32" "length m2 = 32"
    and "validate_anchor_commit L sha d r1 m1 key v1 = Some (True, e1)"
    and "validate_anchor_commit L sha d r2 m2 key v2 = Some (True, e2)"
  shows "(r1 = r2 \<and> m1 = m2) \<or> (\<exists>a b. a \<noteq> b \<and> sha a = sha b) \<or>
    (\<exists>t u. t \<noteq> u \<and> tweaked_key L key t = tweaked_key L key u)"
proof -
  obtain f where "parse_signed d = Some (Inr f)" "cf_output_script f = commit_script L sha r1 m1 key"
    using accepted_fields [OF assms(6)] .
  moreover obtain g where "parse_signed d = Some (Inr g)" "cf_output_script g = commit_script L sha r2 m2 key"
    using accepted_fields [OF assms(7)] .
  ultimately have "tweaked_key L key (commit_tweak sha r1 m1 key) =
      tweaked_key L key (commit_tweak sha r2 m2 key)"
    by (simp add: commit_script_tweaked)
  then show ?thesis
    using commit_tweak_inj [OF assms(2-5,1), where key = key]
    by (cases "commit_tweak sha r1 m1 key = commit_tweak sha r2 m2 key") auto
qed

section \<open>A small signature scheme\<close>

text \<open>Keys are 32-byte strings, a tweak is added by XOR, and a signature is the key and the message.\<close>

definition xor_lib :: "(bytes, bytes, bytes) taproot_lib" where
  "xor_lib = (let key = (\<lambda>b. if length b = 32 then Some b else None) in
     \<lparr>xonly_pubkey_parse = key, xonly_pubkey_tweak_add = (\<lambda>x t. Some (map2 (XOR) x t)),
      xonly_pubkey_from_pubkey = key, xonly_pubkey_serialize = id, keypair_create = key,
      keypair_xonly_tweak_add = (\<lambda>k t. key (map2 (XOR) k t)),
      schnorrsig_sign = (\<lambda>m k. Some (k @ m)), schnorrsig_verify = (\<lambda>s m x. s = x @ m)\<rparr>)"

definition fold_sha :: "bytes \<Rightarrow> bytes" where
  "fold_sha b = replicate 31 0 @ [of_nat (length b)]"

lemma fold_sha_length: "length (fold_sha b) = 32"
  by (simp add: fold_sha_def)

definition demo_key :: bytes where "demo_key = replicate 32 5"

definition demo_commit :: bytes where
  "demo_commit = sign_anchor_commit_tx xor_lib fold_sha
     (build_anchor_commit_tx xor_lib fold_sha (replicate 32 1) (replicate 32 2)
        \<lparr>ci_prev_txid = replicate 32 3, ci_prev_vout = 0, ci_value_sats = 10000,
         ci_internal_key = demo_key\<rparr> 300)
     demo_key (al_leaf_hash (build_anchor_commit_tapleaf fold_sha (replicate 32 1) (replicate 32 2)))
     10000 demo_key"

lemma xor_signs: "length t = 32 \<Longrightarrow> signs_for xor_lib demo_key demo_key t"
  by (simp add: signs_for_def xor_lib_def demo_key_def Let_def)

lemma demo_keys:
  "signs_for xor_lib demo_key demo_key (commit_tweak fold_sha (replicate 32 1) (replicate 32 2) demo_key)"
  by (simp add: xor_signs commit_tweak_def tagged_hash_def fold_sha_length Let_def)

lemma demo_accepted:
  "validate_anchor_commit xor_lib fold_sha demo_commit (replicate 32 1) (replicate 32 2)
     demo_key 10000 = Some (True, [])"
  using built_and_signed_validates [where sha = fold_sha and L = xor_lib and privkey = demo_key and
      input = "\<lparr>ci_prev_txid = replicate 32 3, ci_prev_vout = 0, ci_value_sats = 10000,
        ci_internal_key = demo_key\<rparr>" and root_hash = "replicate 32 1" and
      metadata_hash = "replicate 32 2" and junk = "[]" and fee = 300] demo_keys fold_sha_length
  by (simp add: demo_commit_def)

theorem anchor_commit_accepted_witness:
  "validate_anchor_commit xor_lib fold_sha (demo_commit @ [7]) (replicate 32 1) (replicate 32 2)
     demo_key 10000 = Some (True, [])"
  using anchor_commit_accepted [where sha = fold_sha and L = xor_lib and privkey = demo_key and
      input = "\<lparr>ci_prev_txid = replicate 32 3, ci_prev_vout = 0, ci_value_sats = 10000,
        ci_internal_key = demo_key\<rparr>" and root_hash = "replicate 32 1" and
      metadata_hash = "replicate 32 2" and junk = "[7]" and fee = 300] demo_keys fold_sha_length
  by (simp add: demo_commit_def)

theorem accepted_commit_sound_witness:
  "\<exists>f y. parse_signed demo_commit = Some (Inr f) \<and> cf_version f = 2 \<and> cf_locktime f = 0 \<and>
    length (cf_signature f) = 64 \<and>
    cf_output_script f = [0x51, 0x20] @ tweaked_key xor_lib demo_key
      (commit_tweak fold_sha (replicate 32 1) (replicate 32 2) demo_key) \<and>
    xonly_pubkey_parse xor_lib (tweaked_key xor_lib demo_key
      (commit_tweak fold_sha (replicate 32 1) (replicate 32 2) demo_key)) = Some y \<and>
    schnorrsig_verify xor_lib (cf_signature f)
      (tap_sighash fold_sha (tx_of_fields f) 0 10000 (cf_output_script f)) y"
  by (rule accepted_commit_sound [OF demo_accepted])

theorem accepted_commit_binds_witness:
  "(replicate 32 1 = (replicate 32 1 :: bytes) \<and> replicate 32 2 = (replicate 32 2 :: bytes)) \<or>
    (\<exists>a b. a \<noteq> b \<and> fold_sha a = fold_sha b) \<or>
    (\<exists>t u. t \<noteq> u \<and> tweaked_key xor_lib demo_key t = tweaked_key xor_lib demo_key u)"
  by (rule accepted_commit_binds [OF fold_sha_length _ _ _ _ demo_accepted demo_accepted]) simp_all

end
