(* ===== verification/L1_Anchor.thy ===== *)
theory L1_Anchor
  imports Anchor_Props BitVM_Props
begin

text \<open>
  The anchor commitment of the Bitcoin adapter, \<open>src/l1/AnchorCommitment.cpp\<close> with its struct in
  \<open>include/Global_Seven.h\<close> and \<open>buildAnchorCommitment\<close> of \<open>src/l1/BitcoinAdapter.cpp\<close>: payloads
  as OP_RETURN and Taproot scripts, the tweaked key, and the challenge-response leaves. The
  scripts are bytes, and the interpreter of \<open>BitVM\<close> says what they do.
\<close>

section \<open>The code\<close>

record anchor_commitment =
  ac_l2StateRoot :: string
  ac_timestampMs :: u64
  ac_recoveryMetadata :: string
  ac_payload :: string
  ac_hash :: string
  ac_commitmentBytes :: bytes
  ac_tweakedTaprootKey :: bytes

definition empty_commitment :: anchor_commitment where
  "empty_commitment = \<lparr>ac_l2StateRoot = [], ac_timestampMs = 0, ac_recoveryMetadata = [],
     ac_payload = [], ac_hash = [], ac_commitmentBytes = [], ac_tweakedTaprootKey = []\<rparr>"

record anchor_payload =
  ap_scriptBytes :: bytes
  ap_description :: string

text \<open>
  Two characters read by \<open>std::hex\<close> from a string stream have the value \<open>strtol\<close> gives them.
\<close>

definition hexStringToBytes :: "string \<Rightarrow> bytes" where
  "hexStringToBytes hex = (if length hex mod 2 \<noteq> 0 then [] else hex_decode hex)"

definition createCommitmentBytes :: "(bytes \<Rightarrow> bytes) \<Rightarrow> string \<Rightarrow> bytes" where
  "createCommitmentBytes sha payload =
     (if length payload \<le> 80 then str_bytes payload
      else str_bytes ''AILEE'' @ hexStringToBytes (sha256Hex sha payload))"

definition pushData :: "bytes \<Rightarrow> bytes" where
  "pushData d = (if length d \<le> 75 then [of_nat (length d)] else [0x4c, of_nat (length d)]) @ d"

definition describePayload :: "string \<Rightarrow> string \<Rightarrow> u64 \<Rightarrow> string \<Rightarrow> string \<Rightarrow> bytes \<Rightarrow> string" where
  "describePayload kind l2StateRoot timestampMs recoveryMetadata payload commitment =
     ''Anchor type='' @ kind @ '' l2StateRoot='' @ l2StateRoot @ '' timestampMs='' @
     to_dec (unat timestampMs) @ '' recoveryMetadata='' @ recoveryMetadata @ '' payloadBytes='' @
     to_dec (length payload) @ '' commitmentBytes='' @ to_dec (length commitment)"

definition buildOpReturnPayload :: "(bytes \<Rightarrow> bytes) \<Rightarrow> anchor_commitment \<Rightarrow> anchor_payload" where
  "buildOpReturnPayload sha a =
     (let commitment = createCommitmentBytes sha (ac_payload a) in
      \<lparr>ap_scriptBytes = [0x6a] @ pushData commitment,
       ap_description = describePayload ''OP_RETURN'' (ac_l2StateRoot a) (ac_timestampMs a)
         (ac_recoveryMetadata a) (ac_payload a) commitment\<rparr>)"

definition buildTaprootCommitment :: "(bytes \<Rightarrow> bytes) \<Rightarrow> anchor_commitment \<Rightarrow> anchor_payload" where
  "buildTaprootCommitment sha a =
     (let commitment = (if ac_commitmentBytes a \<noteq> [] then ac_commitmentBytes a
                        else createCommitmentBytes sha (ac_payload a));
          describe = (\<lambda>kind. describePayload kind (ac_l2StateRoot a) (ac_timestampMs a)
                        (ac_recoveryMetadata a) (ac_payload a) commitment)
      in if ac_tweakedTaprootKey a \<noteq> [] then
           \<lparr>ap_scriptBytes = [0x51, 0x20] @ ac_tweakedTaprootKey a,
            ap_description = describe ''TAPROOT_KEY_PATH''\<rparr>
         else
           \<lparr>ap_scriptBytes = [0x00, 0x63] @ pushData commitment @ [0x68],
            ap_description = describe ''TAPSCRIPT''\<rparr>)"

definition computeTweakedKey ::
    "('x, 'p, 'k) taproot_lib \<Rightarrow> (bytes \<Rightarrow> bytes) \<Rightarrow> bytes \<Rightarrow> anchor_commitment \<Rightarrow> bool \<times> anchor_commitment"
    where
  "computeTweakedKey L sha internalPubkey a =
     (if length internalPubkey \<noteq> 32 \<or> ac_commitmentBytes a = [] then (False, a)
      else case xonly_pubkey_parse L internalPubkey of
        None \<Rightarrow> (False, a)
      | Some pubkey \<Rightarrow>
          let merkle_root = sha (ac_commitmentBytes a);
              tag_hash = sha (str_bytes ''TapTweak'');
              tweak = sha (tag_hash @ tag_hash @ internalPubkey @ merkle_root)
          in case xonly_pubkey_tweak_add L pubkey tweak of
               None \<Rightarrow> (False, a)
             | Some output_pubkey \<Rightarrow>
                 (case xonly_pubkey_from_pubkey L output_pubkey of
                    None \<Rightarrow> (False, a)
                  | Some out_xonly \<Rightarrow>
                      (True, a\<lparr>ac_tweakedTaprootKey := xonly_pubkey_serialize L out_xonly\<rparr>)))"

definition validateTaprootCommitment ::
    "('x, 'p, 'k) taproot_lib \<Rightarrow> (bytes \<Rightarrow> bytes) \<Rightarrow> bytes \<Rightarrow> bytes \<Rightarrow> bytes \<Rightarrow> bool" where
  "validateTaprootCommitment L sha tweakedKey internalPubkey commitment =
     (if length tweakedKey \<noteq> 32 \<or> length internalPubkey \<noteq> 32 \<or> commitment = [] then False
      else let (ok, temp) = computeTweakedKey L sha internalPubkey
                              (empty_commitment\<lparr>ac_commitmentBytes := commitment\<rparr>)
           in if \<not> ok then False else ac_tweakedTaprootKey temp = tweakedKey)"

record l1_tapleaf =
  tl_leafVersion :: u8
  tl_script :: bytes
  tl_scriptHex :: string

record tap_tree =
  tt_leaves :: "l1_tapleaf list"
  tt_rootHash :: string

definition getTapLeafHash :: "(bytes \<Rightarrow> bytes) \<Rightarrow> l1_tapleaf \<Rightarrow> string" where
  "getTapLeafHash sha l = sha256Hex sha (to_dec (unat (tl_leafVersion l)) @ tl_scriptHex l)"

definition computeRoot :: "(bytes \<Rightarrow> bytes) \<Rightarrow> tap_tree \<Rightarrow> tap_tree" where
  "computeRoot sha t =
     (if tt_leaves t = [] then t\<lparr>tt_rootHash := []\<rparr>
      else t\<lparr>tt_rootHash := sha256Hex sha (concat (map (getTapLeafHash sha) (tt_leaves t)))\<rparr>)"

definition buildChallengeResponseTree :: "(bytes \<Rightarrow> bytes) \<Rightarrow> string \<Rightarrow> anchor_commitment \<Rightarrow> tap_tree" where
  "buildChallengeResponseTree sha zkProofHash a =
     (let happyPayload = ac_l2StateRoot a @ '':'' @ zkProofHash;
          happyLeaf = \<lparr>tl_leafVersion = 0xc0,
            tl_script = [0x00, 0x63] @ pushData (createCommitmentBytes sha happyPayload) @ [0x68],
            tl_scriptHex = ''happy_path_'' @ happyPayload\<rparr>;
          disputePayload = ''DISPUTE_EXEC:'' @ ac_l2StateRoot a;
          disputeLeaf = \<lparr>tl_leafVersion = 0xc0,
            tl_script = [0x00, 0x63] @ pushData (createCommitmentBytes sha disputePayload) @ [0xa8, 0x68],
            tl_scriptHex = ''dispute_path_'' @ disputePayload\<rparr>
      in computeRoot sha \<lparr>tt_leaves = [happyLeaf, disputeLeaf], tt_rootHash = []\<rparr>)"

text \<open>
  The adapter tweaks the key only when the commitment bytes are not empty; nothing sets them
  before, so the configured key \<open>internal_pubkey\<close> is not used.
\<close>

definition buildAnchorCommitment ::
    "('x, 'p, 'k) taproot_lib \<Rightarrow> (bytes \<Rightarrow> bytes) \<Rightarrow> string \<Rightarrow> string \<Rightarrow> u64 \<Rightarrow> string \<Rightarrow> anchor_commitment" where
  "buildAnchorCommitment L sha internal_pubkey l2StateRoot timestampMs recoveryMetadata =
     (let payload = l2StateRoot @ '':'' @ to_dec (unat timestampMs) @ '':'' @ recoveryMetadata;
          commitment = empty_commitment\<lparr>ac_l2StateRoot := l2StateRoot, ac_timestampMs := timestampMs,
            ac_recoveryMetadata := recoveryMetadata, ac_payload := payload,
            ac_hash := sha256Hex sha payload\<rparr>
      in if internal_pubkey \<noteq> [] \<and> ac_commitmentBytes commitment \<noteq> []
         then snd (computeTweakedKey L sha (hex_decode internal_pubkey) commitment) else commitment)"

section \<open>Payloads on the chain\<close>

lemma commitment_bytes:
  "createCommitmentBytes sha p = (if length p \<le> 80 then str_bytes p else str_bytes ''AILEE'' @ sha (str_bytes p))"
  by (simp add: createCommitmentBytes_def hexStringToBytes_def sha256Hex_def hex_decode_hex_of)

lemma commitment_length: "(\<And>b. length (sha b) = 32) \<Longrightarrow> length (createCommitmentBytes sha p) \<le> 80"
  by (simp add: commitment_bytes str_bytes_def)

definition push_instr :: "bytes \<Rightarrow> instruction" where
  "push_instr d = (if d = [] then \<lparr>opc = OP_0, idata = None\<rparr> else \<lparr>opc = OP_PUSH, idata = Some d\<rparr>)"

lemma short_length_byte: "n \<le> 80 \<Longrightarrow> (ucast (of_nat n :: u64) :: u8) = of_nat n"
  by (simp add: word_unat_eq_iff unsigned_ucast_eq unat_of_small take_bit_nat_eq_self)

lemma pushData_encodes:
  assumes "length d \<le> 80"
  shows "pushData d = encode_instr (push_instr d)"
proof -
  have "le_bytes 1 (of_nat (length d) :: u64) = [of_nat (length d)]"
    using short_length_byte [OF assms] by (simp add: One_nat_def)
  with assms show ?thesis
    by (simp add: pushData_def push_instr_def encode_instr_def opcode_table_def Let_def)
qed

lemma wf_push_instr: "length d \<le> 80 \<Longrightarrow> wf_instr (push_instr d)"
  by (simp add: wf_instr_def push_instr_def opcode_table_def opcode_of_def Let_def)

lemma parse_leaf:
  assumes "length d \<le> 80" "list_all wf_instr tail"
  shows "parseScript ([0x00, 0x63] @ pushData d @ concat (map encode_instr tail)) =
    Inr (\<lparr>opc = OP_0, idata = None\<rparr> # \<lparr>opc = OP_IF, idata = None\<rparr> # push_instr d # tail)"
proof -
  let ?is = "\<lparr>opc = OP_0, idata = None\<rparr> # \<lparr>opc = OP_IF, idata = None\<rparr> # push_instr d # tail"
  have "concat (map encode_instr ?is) = [0x00, 0x63] @ pushData d @ concat (map encode_instr tail)"
    by (simp add: pushData_encodes [OF assms(1)] encode_instr_def [of "\<lparr>opc = _, idata = None\<rparr>"] opcode_table_def)
  moreover have "list_all wf_instr ?is"
    using wf_push_instr [OF assms(1)] assms(2)
    by (simp add: wf_instr_def [of "\<lparr>opc = _, idata = None\<rparr>"] opcode_table_def opcode_of_def Let_def)
  ultimately show ?thesis using parse_encode by metis
qed

lemma parse_op_return:
  assumes "length d \<le> 80"
  shows "parseScript ([0x6a] @ pushData d) = Inr [\<lparr>opc = OP_RETURN, idata = None\<rparr>, push_instr d]"
proof -
  let ?is = "[\<lparr>opc = OP_RETURN, idata = None\<rparr>, push_instr d]"
  have "concat (map encode_instr ?is) = [0x6a] @ pushData d"
    by (simp add: pushData_encodes [OF assms] encode_instr_def [of "\<lparr>opc = _, idata = None\<rparr>"] opcode_table_def)
  moreover have "list_all wf_instr ?is"
    using wf_push_instr [OF assms]
    by (simp add: wf_instr_def [of "\<lparr>opc = _, idata = None\<rparr>"] opcode_table_def opcode_of_def Let_def)
  ultimately show ?thesis using parse_encode by metis
qed

lemma push_instr_inj: "push_instr d = push_instr e \<longleftrightarrow> d = e"
  by (auto simp: push_instr_def)

text \<open>
  Every payload fits a standard OP_RETURN output and comes back from it: the script has at
  most 83 bytes, the interpreter's parser reads it as OP_RETURN and one push of the commitment,
  and two payloads with the same script are equal, or SHA-256 has a collision, or one of them
  is the tag AILEE followed by the digest of the other, which the tag does not tell apart.
\<close>

theorem op_return_carries_payload:
  assumes sha: "\<And>b. length (sha b) = 32"
  shows "length (ap_scriptBytes (buildOpReturnPayload sha a)) \<le> 83 \<and>
    parseScript (ap_scriptBytes (buildOpReturnPayload sha a)) =
      Inr [\<lparr>opc = OP_RETURN, idata = None\<rparr>, push_instr (createCommitmentBytes sha (ac_payload a))] \<and>
    (ap_scriptBytes (buildOpReturnPayload sha a) = ap_scriptBytes (buildOpReturnPayload sha b) \<longrightarrow>
       ac_payload a = ac_payload b \<or> (\<exists>x y. x \<noteq> y \<and> sha x = sha y) \<or>
       str_bytes (ac_payload a) = str_bytes ''AILEE'' @ sha (str_bytes (ac_payload b)) \<or>
       str_bytes (ac_payload b) = str_bytes ''AILEE'' @ sha (str_bytes (ac_payload a)))"
proof -
  let ?c = "\<lambda>a. createCommitmentBytes sha (ac_payload a)"
  have short: "length (?c x) \<le> 80" for x by (rule commitment_length [OF sha])
  have parse: "parseScript (ap_scriptBytes (buildOpReturnPayload sha x)) =
      Inr [\<lparr>opc = OP_RETURN, idata = None\<rparr>, push_instr (?c x)]" for x
    using parse_op_return [OF short [of x]] by (simp add: buildOpReturnPayload_def Let_def)
  have "length (ap_scriptBytes (buildOpReturnPayload sha a)) \<le> 83"
    using short [of a] by (simp add: buildOpReturnPayload_def pushData_def Let_def)
  moreover have "?c a = ?c b"
    if "ap_scriptBytes (buildOpReturnPayload sha a) = ap_scriptBytes (buildOpReturnPayload sha b)"
    using that parse [of a] parse [of b] by (simp add: push_instr_inj)
  moreover have "?c a = ?c b \<Longrightarrow> ac_payload a = ac_payload b \<or> (\<exists>x y. x \<noteq> y \<and> sha x = sha y) \<or>
       str_bytes (ac_payload a) = str_bytes ''AILEE'' @ sha (str_bytes (ac_payload b)) \<or>
       str_bytes (ac_payload b) = str_bytes ''AILEE'' @ sha (str_bytes (ac_payload a))"
  proof (cases "\<exists>x y. x \<noteq> y \<and> sha x = sha y")
    case False
    then have inj: "sha x = sha y \<Longrightarrow> x = y" for x y by blast
    assume eq: "?c a = ?c b"
    then consider "str_bytes (ac_payload a) = str_bytes (ac_payload b)"
      | "str_bytes (ac_payload a) = str_bytes ''AILEE'' @ sha (str_bytes (ac_payload b))"
      | "str_bytes (ac_payload b) = str_bytes ''AILEE'' @ sha (str_bytes (ac_payload a))"
      unfolding commitment_bytes by (metis inj same_append_eq)
    then show ?thesis by cases (simp_all add: str_bytes_inj)
  qed simp
  ultimately show ?thesis using parse by blast
qed

theorem op_return_carries_payload_witness:
  "length (ap_scriptBytes (buildOpReturnPayload (\<lambda>_. replicate 32 0) (empty_commitment\<lparr>ac_payload := ''r:1:''\<rparr>))) \<le> 83"
  using op_return_carries_payload [of "\<lambda>_. replicate 32 0" "empty_commitment\<lparr>ac_payload := ''r:1:''\<rparr>"
      empty_commitment] by simp

text \<open>
  A tweaked key validates: whenever \<open>computeTweakedKey\<close> succeeds with a 32-byte key, the
  validation of that key with the same internal key and commitment succeeds, and it succeeds for
  no other key.
\<close>

theorem tweaked_key_validates:
  assumes "computeTweakedKey L sha internalPubkey a = (True, t)"
    and "length (ac_tweakedTaprootKey t) = 32"
  shows "validateTaprootCommitment L sha key internalPubkey (ac_commitmentBytes a) =
    (key = ac_tweakedTaprootKey t)"
  using assms
  by (auto simp: validateTaprootCommitment_def computeTweakedKey_def empty_commitment_def Let_def
      split: option.splits if_splits)

section \<open>The challenge leaves\<close>

text \<open>One dead step: what is neither a conditional nor executed only moves on.\<close>

lemma dead_step:
  assumes "execution_success s" "ip s < length (script s)" "\<not> executing s"
    "opc (script s ! ip s) \<notin> {OP_IF, OP_NOTIF, OP_ELSE, OP_ENDIF}"
  shows "step sha pk der s = s\<lparr>ip := ip s + 1\<rparr>"
  using assms by (simp add: step_def Let_def)

lemma leaf_run:
  assumes "body = [push_instr d] \<or> body = [push_instr d, \<lparr>opc = OP_SHA256, idata = None\<rparr>]"
  shows "\<exists>f. execute sha pk der (\<lparr>opc = OP_0, idata = None\<rparr> # \<lparr>opc = OP_IF, idata = None\<rparr> # body @
      [\<lparr>opc = OP_ENDIF, idata = None\<rparr>]) st = f \<and> execution_success f \<and> stack f = rev st"
proof -
  let ?scr = "\<lparr>opc = OP_0, idata = None\<rparr> # \<lparr>opc = OP_IF, idata = None\<rparr> # body @
    [\<lparr>opc = OP_ENDIF, idata = None\<rparr>]"
  let ?step = "step sha pk der"
  let ?s = "(init_state ?scr st)\<lparr>ip := 2, if_stack := [False], executing := False\<rparr>"
  have push: "opc (push_instr e) \<notin> {OP_IF, OP_NOTIF, OP_ELSE, OP_ENDIF}" for e
    by (simp add: push_instr_def)
  have two: "?step (?step (init_state ?scr st)) = ?s"
    by (simp add: init_state_def step_def step_exec_defs step_if_def Let_def)
  have skip: "(?step ^^ length body) ?s = ?s\<lparr>ip := 2 + length body\<rparr>"
    using assms push [of d] by (elim disjE) (simp_all add: dead_step init_state_def)
  have last: "?step (?s\<lparr>ip := 2 + length body\<rparr>) = ?s\<lparr>ip := 3 + length body, if_stack := [], executing := True\<rparr>"
    by (simp add: init_state_def step_def step_endif_def Let_def nth_append)
  have "execute sha pk der ?scr st = (?step ^^ (1 + length body + 2)) (init_state ?scr st)"
    by (rule execute_run) simp
  also have "\<dots> = ?step ((?step ^^ length body) (?step (?step (init_state ?scr st))))"
    by (simp add: funpow_add numeral_2_eq_2 funpow_swap1)
  also have "\<dots> = ?s\<lparr>ip := 3 + length body, if_stack := [], executing := True\<rparr>"
    unfolding two skip last ..
  finally show ?thesis by (simp add: init_state_def)
qed

text \<open>
  Neither leaf of the challenge-response tree checks anything: run by the interpreter on any
  initial stack, with any signature library, each leaf succeeds and leaves that stack as it was,
  whatever state root, proof hash and commitment are in it. A spender who supplies a true item
  satisfies either leaf.
\<close>

theorem challenge_leaves_check_nothing:
  assumes "\<And>b. length (sha b) = 32"
  shows "list_all (\<lambda>l. \<exists>f. execute_bytes sha pk der (tl_script l) st = Inr f \<and>
      execution_success f \<and> stack f = rev st)
    (tt_leaves (buildChallengeResponseTree sha zkProofHash a))"
proof -
  let ?hash = "\<lparr>opc = OP_SHA256, idata = None\<rparr>" and ?fin = "\<lparr>opc = OP_ENDIF, idata = None\<rparr>"
  have code: "concat (map encode_instr [?fin]) = [0x68]" "concat (map encode_instr [?hash, ?fin]) = [0xa8, 0x68]"
    by (simp_all add: encode_instr_def opcode_table_def)
  have wf: "list_all wf_instr [?fin]" "list_all wf_instr [?hash, ?fin]"
    by (simp_all add: wf_instr_def opcode_table_def opcode_of_def Let_def)
  have short: "length (createCommitmentBytes sha p) \<le> 80" for p by (rule commitment_length [OF assms])
  have "\<exists>f. execute_bytes sha pk der ([0x00, 0x63] @ pushData (createCommitmentBytes sha p) @ [0x68]) st = Inr f \<and>
      execution_success f \<and> stack f = rev st" for p
    using leaf_run [of "[push_instr (createCommitmentBytes sha p)]"]
    by (simp add: execute_bytes_def parse_leaf [OF short wf(1), unfolded code, simplified])
  moreover have "\<exists>f. execute_bytes sha pk der ([0x00, 0x63] @ pushData (createCommitmentBytes sha p) @ [0xa8, 0x68]) st = Inr f \<and>
      execution_success f \<and> stack f = rev st" for p
    using leaf_run [of "[push_instr (createCommitmentBytes sha p), ?hash]"]
    by (simp add: execute_bytes_def parse_leaf [OF short wf(2), unfolded code, simplified])
  ultimately show ?thesis
    by (simp add: buildChallengeResponseTree_def computeRoot_def Let_def)
qed

theorem challenge_leaves_check_nothing_witness:
  "list_all (\<lambda>l. \<exists>f. execute_bytes fold_sha (\<lambda>_. False) (\<lambda>_. False) (tl_script l) [[1]] = Inr f \<and>
      execution_success f \<and> stack f = [[1]])
    (tt_leaves (buildChallengeResponseTree fold_sha ''proof'' empty_commitment))"
  using challenge_leaves_check_nothing [where sha = fold_sha and pk = "\<lambda>_. False" and der = "\<lambda>_. False"
      and st = "[[1]]" and zkProofHash = "''proof''" and a = empty_commitment]
  by (simp add: fold_sha_length)

theorem tweaked_key_validates_witness:
  "\<exists>t. computeTweakedKey xor_lib fold_sha demo_key (empty_commitment\<lparr>ac_commitmentBytes := [1]\<rparr>) = (True, t) \<and>
     validateTaprootCommitment xor_lib fold_sha (ac_tweakedTaprootKey t) demo_key [1]"
proof -
  obtain t where t: "computeTweakedKey xor_lib fold_sha demo_key
      (empty_commitment\<lparr>ac_commitmentBytes := [1]\<rparr>) = (True, t)" "length (ac_tweakedTaprootKey t) = 32"
    by (simp add: computeTweakedKey_def xor_lib_def empty_commitment_def demo_key_def fold_sha_length Let_def)
  from tweaked_key_validates [OF t] t(1) show ?thesis by (simp add: empty_commitment_def)
qed

end
