(* ===== verification/Bech32.thy ===== *)
theory Bech32
  imports Taproot
begin

text \<open>
  Bech32m addresses, \<open>to_bech32m\<close> of \<open>src/taproot/TaprootScript.cpp\<close>, and what their checksum
  is worth: the printed address passes the check of BIP 350 and no address with one wrong
  character does. The accumulator of \<open>convert_bits\<close> is a signed \<open>int\<close> that is never masked; its
  left shift is taken to wrap, as the compilers do it.
\<close>

unbundle bit_operations_syntax

section \<open>The code\<close>

definition mask_of_bit :: "u8 \<Rightarrow> nat \<Rightarrow> u32" where
  "mask_of_bit b i = - ucast (drop_bit i b AND 1)"

definition polymod_step :: "u32 \<Rightarrow> u32" where
  "polymod_step pre =
     (let b = ucast (drop_bit 25 pre) :: u8 in
      push_bit 5 (pre AND 0x1ffffff) XOR
      (mask_of_bit b 0 AND 0x3b6a57b2) XOR
      (mask_of_bit b 1 AND 0x26508e6d) XOR
      (mask_of_bit b 2 AND 0x1ea119fa) XOR
      (mask_of_bit b 3 AND 0x3d4233dd) XOR
      (mask_of_bit b 4 AND 0x2a1462b3))"

text \<open>A \<open>char\<close> is signed: \<open>int(c) >> 5\<close> is an arithmetic shift.\<close>

definition char_int :: "char \<Rightarrow> 32 word" where
  "char_int c = scast (of_char c :: u8)"

definition expand_hrp :: "string \<Rightarrow> bytes" where
  "expand_hrp hrp = map (\<lambda>c. ucast (signed_drop_bit 5 (char_int c))) hrp @ [0] @
     map (\<lambda>c. ucast (char_int c AND 31)) hrp"

text \<open>The inner loop of \<open>convert_bits\<close>; the code calls it with five bits only.\<close>

fun emit_groups :: "nat \<Rightarrow> 32 word \<Rightarrow> nat \<Rightarrow> bytes \<times> nat" where
  "emit_groups tobits acc bits =
     (if tobits = 0 \<or> bits < tobits then ([], bits)
      else let bits1 = bits - tobits;
               (r, left) = emit_groups tobits acc bits1
           in (ucast (signed_drop_bit bits1 acc AND mask tobits) # r, left))"

declare emit_groups.simps [simp del]

fun convert_loop :: "nat \<Rightarrow> nat \<Rightarrow> 32 word \<Rightarrow> nat \<Rightarrow> bytes \<Rightarrow> bytes \<times> 32 word \<times> nat" where
  "convert_loop frombits tobits acc bits [] = ([], acc, bits)"
| "convert_loop frombits tobits acc bits (value # vs) =
     (let acc1 = push_bit frombits acc OR ucast value;
          (out, bits1) = emit_groups tobits acc1 (bits + frombits);
          (r, acc2, bits2) = convert_loop frombits tobits acc1 bits1 vs
      in (out @ r, acc2, bits2))"

definition convert_bits :: "bytes \<Rightarrow> nat \<Rightarrow> nat \<Rightarrow> bool \<Rightarrow> bytes" where
  "convert_bits xs frombits tobits pad =
     (let (r, acc, bits) = convert_loop frombits tobits 0 0 xs in
      if pad \<and> bits > 0 then r @ [ucast (push_bit (tobits - bits) acc AND mask tobits)] else r)"

definition CHARSET :: string where "CHARSET = ''qpzry9x8gf2tvdw0s3jn54khce6mua7l''"
definition BECH32M_CONST :: u32 where "BECH32M_CONST = 0x2bc830a3"

definition polymod :: "u32 \<Rightarrow> bytes \<Rightarrow> u32" where
  "polymod chk vs = foldl (\<lambda>chk v. polymod_step chk XOR ucast v) chk vs"

definition checksum_of :: "u32 \<Rightarrow> bytes" where
  "checksum_of chk = map (\<lambda>i. ucast (drop_bit (5 * (5 - i)) chk AND 31)) [0..<6]"

definition program_symbols :: "bytes \<Rightarrow> bytes" where
  "program_symbols witness_program = 1 # convert_bits witness_program 8 5 True"

definition to_bech32m :: "string \<Rightarrow> bytes \<Rightarrow> string" where
  "to_bech32m hrp witness_program =
     (let data = program_symbols witness_program;
          values = expand_hrp hrp @ data;
          chk = polymod (polymod 1 values) (replicate 6 0);
          checksum = checksum_of (chk XOR BECH32M_CONST)
      in hrp @ ''1'' @ map (\<lambda>v. CHARSET ! unat v) data @ map (\<lambda>v. CHARSET ! unat v) checksum)"

definition build_taproot_for_anchor ::
    "('x, 'p, 'k) taproot_lib \<Rightarrow> (bytes \<Rightarrow> bytes) \<Rightarrow> bytes \<Rightarrow> bytes \<Rightarrow> taproot_output" where
  "build_taproot_for_anchor L sha anchor_root internal_key =
     (let out = compute_output_key L sha (compute_tapleaf_hash sha (build_script anchor_root))
                  \<lparr>to_internal_key = internal_key, to_taproot_output_key = [], to_bech32m_address = []\<rparr>
      in out\<lparr>to_bech32m_address := to_bech32m ''bc'' (to_taproot_output_key out)\<rparr>)"

section \<open>The check of BIP 350\<close>

definition charset_value :: "char \<Rightarrow> nat option" where
  "charset_value c = find (\<lambda>i. CHARSET ! i = c) [0..<32]"

text \<open>An address for a prefix: the prefix, a 1, and symbols whose checksum is right.\<close>

definition bech32m_valid :: "string \<Rightarrow> string \<Rightarrow> bool" where
  "bech32m_valid hrp s \<longleftrightarrow>
     take (length hrp + 1) s = hrp @ ''1'' \<and>
     list_all (\<lambda>c. charset_value c \<noteq> None) (drop (length hrp + 1) s) \<and>
     polymod 1 (expand_hrp hrp @
       map (\<lambda>c. of_nat (the (charset_value c))) (drop (length hrp + 1) s)) = BECH32M_CONST"

section \<open>The generator is linear\<close>

lemma mask_of_bit: "mask_of_bit b i = (if bit b i then - 1 else 0)"
proof -
  have "drop_bit i b AND 1 = of_bool (bit b i)"
    by (simp add: and_one_eq bit_iff_odd_drop_bit odd_iff_mod_2_eq_one)
  then show ?thesis by (simp add: mask_of_bit_def)
qed

lemma low_25: "x AND 0x1ffffff = take_bit 25 (x :: u32)"
  by (simp add: take_bit_eq_mask mask_eq_exp_minus_1)

lemma polymod_step_bits:
  "polymod_step pre = push_bit 5 (take_bit 25 pre) XOR
     (if bit pre 25 then 0x3b6a57b2 else 0) XOR (if bit pre 26 then 0x26508e6d else 0) XOR
     (if bit pre 27 then 0x1ea119fa else 0) XOR (if bit pre 28 then 0x3d4233dd else 0) XOR
     (if bit pre 29 then 0x2a1462b3 else 0)"
  by (simp add: polymod_step_def mask_of_bit low_25 bit_simps Let_def)

lemma if_xor: "(if a \<noteq> b then g else 0) = (if a then g else 0) XOR (if b then g else (0 :: 'a::len word))"
  by simp

lemma step_xor: "polymod_step (x XOR y) = polymod_step x XOR polymod_step y"
proof -
  have "push_bit 5 (take_bit 25 (x XOR y)) = push_bit 5 (take_bit 25 x) XOR push_bit 5 (take_bit 25 y)"
    by (rule bit_word_eqI) (auto simp: bit_simps)
  then show ?thesis
    unfolding polymod_step_bits bit_xor_iff if_xor by (simp only: ac_simps)
qed

lemma step_zero: "polymod_step 0 = 0"
  by (simp add: polymod_step_bits)

lemma polymod_append: "polymod s (xs @ ys) = polymod (polymod s xs) ys"
  by (simp add: polymod_def)

lemma polymod_Cons: "polymod s (v # vs) = polymod (polymod_step s XOR ucast v) vs"
  by (simp add: polymod_def)

lemma polymod_Nil [simp]: "polymod s [] = s"
  by (simp add: polymod_def)

lemma polymod_xor:
  "length vs = length ws \<Longrightarrow> polymod (x XOR y) (map2 (XOR) vs ws) = polymod x vs XOR polymod y ws"
proof (induction vs ws arbitrary: x y rule: list_induct2)
  case (Cons v vs w ws)
  have "ucast (v XOR w) = (ucast v XOR ucast w :: u32)"
    by (rule bit_word_eqI) (auto simp: bit_simps)
  then have "polymod_step (x XOR y) XOR ucast (v XOR w) =
      (polymod_step x XOR ucast v) XOR (polymod_step y XOR ucast w)"
    by (simp add: step_xor ac_simps)
  then show ?case by (simp add: polymod_Cons Cons.IH)
qed simp

lemma map2_xor_zero: "map2 (XOR) (replicate (length vs) 0) vs = (vs :: bytes)"
  by (induction vs) auto

lemma polymod_split: "polymod s vs = polymod s (replicate (length vs) 0) XOR polymod 0 vs"
  using polymod_xor [of "replicate (length vs) 0" vs s 0] by (simp add: map2_xor_zero)

lemma step_range: "take_bit 30 (polymod_step s) = polymod_step s"
proof -
  have g: "take_bit 30 g = g" if "g \<in> {0x3b6a57b2, 0x26508e6d, 0x1ea119fa, 0x3d4233dd, 0x2a1462b3 :: u32}" for g
    using that by auto
  have "take_bit 30 (push_bit 5 (take_bit 25 s)) = push_bit 5 (take_bit 25 s)"
    by (rule bit_word_eqI) (auto simp: bit_simps)
  with g show ?thesis unfolding polymod_step_bits take_bit_xor by simp
qed

lemma polymod_range: "list_all (\<lambda>v. v < 32) vs \<Longrightarrow> take_bit 30 s = s \<Longrightarrow> take_bit 30 (polymod s vs) = polymod s vs"
proof (induction vs arbitrary: s)
  case (Cons v vs)
  then have "take_bit 30 (ucast v) = (ucast v :: u32)"
    by (simp add: word_unat_eq_iff unsigned_take_bit_eq take_bit_nat_eq_self unsigned_ucast_eq
        word_less_nat_alt)
  with Cons show ?case by (simp add: polymod_Cons step_range)
qed simp

text \<open>The linear step loses nothing on the 30 bits of a checksum.\<close>

lemma step_kernel:
  assumes "take_bit 30 s = s" "polymod_step s = 0"
  shows "s = 0"
proof -
  have low: "take_bit 5 (push_bit 5 (take_bit 25 s)) = 0"
    by (rule bit_word_eqI) (auto simp: bit_simps)
  have "take_bit 5 (polymod_step s) = 0" using assms(2) by simp
  then have "\<not> bit s 25 \<and> \<not> bit s 26 \<and> \<not> bit s 27 \<and> \<not> bit s 28 \<and> \<not> bit s 29"
    unfolding polymod_step_bits take_bit_xor low
    by (cases "bit s 25"; cases "bit s 26"; cases "bit s 27"; cases "bit s 28"; cases "bit s 29") simp_all
  with assms(2) have p: "push_bit 5 (take_bit 25 s) = 0" unfolding polymod_step_bits by simp
  have high: "\<not> bit s n" if "25 \<le> n" for n
  proof (cases "n < 30")
    case True
    with that have "n \<in> {25, 26, 27, 28, 29}" by auto
    with \<open>\<not> bit s 25 \<and> _\<close> show ?thesis by auto
  next
    case False
    then show ?thesis using arg_cong [OF assms(1), of "\<lambda>w. bit w n"] by (simp add: bit_simps)
  qed
  show ?thesis
  proof (rule bit_word_eqI)
    fix n assume "n < LENGTH(32)"
    show "bit s n = bit 0 n"
    proof (cases "n < 25")
      case True
      then show ?thesis using arg_cong [OF p, of "\<lambda>w. bit w (n + 5)"] by (simp add: bit_simps)
    qed (simp add: high)
  qed
qed

lemma zeros_kernel:
  "take_bit 30 s = s \<Longrightarrow> s \<noteq> 0 \<Longrightarrow> polymod s (replicate n 0) \<noteq> 0"
proof (induction n arbitrary: s)
  case (Suc n)
  have "polymod_step s \<noteq> 0" using step_kernel [OF Suc.prems(1)] Suc.prems(2) by auto
  from Suc.IH [OF step_range this] show ?case by (simp add: polymod_Cons)
qed simp

section \<open>The checksum is right\<close>

lemma step_small: "take_bit 25 s = s \<Longrightarrow> polymod_step s = push_bit 5 s"
proof -
  assume a: "take_bit 25 s = s"
  have "\<not> bit s n" if "25 \<le> n" for n
    using that arg_cong [OF a, of "\<lambda>w. bit w n"] by (simp add: bit_simps)
  with a show ?thesis by (simp add: polymod_step_bits)
qed

lemma cast_group: "ucast (ucast (w AND 31) :: u8) = (w AND 31 :: u32)"
proof -
  have "w AND 31 = take_bit 5 w" by (simp add: take_bit_eq_mask mask_eq_exp_minus_1)
  then show ?thesis by (auto intro!: bit_word_eqI simp: bit_simps)
qed

lemma bit_30: "take_bit 30 (c :: u32) = c \<Longrightarrow> bit c n \<Longrightarrow> n < 30"
  by (metis bit_take_bit_iff)

lemma group_step:
  assumes "take_bit 30 c = c"
  shows "polymod_step (drop_bit (5 + k) c) XOR (drop_bit k c AND 31) = drop_bit k c"
proof -
  have "take_bit 25 (drop_bit (5 + k) c) = drop_bit (5 + k) c"
    by (rule bit_word_eqI) (auto simp: bit_simps dest: bit_30 [OF assms])
  then have "polymod_step (drop_bit (5 + k) c) = push_bit 5 (drop_bit (5 + k) c)" by (rule step_small)
  moreover have "drop_bit k c AND 31 = take_bit 5 (drop_bit k c)"
    by (simp add: take_bit_eq_mask mask_eq_exp_minus_1)
  moreover have "push_bit 5 (drop_bit (5 + k) c) XOR take_bit 5 (drop_bit k c) = drop_bit k c"
    by (rule bit_word_eqI) (auto simp: bit_simps)
  ultimately show ?thesis by simp
qed

lemma polymod_checksum:
  assumes "take_bit 30 c = c"
  shows "polymod 0 (checksum_of c) = c"
proof -
  have top: "drop_bit 30 c = 0"
    by (rule bit_word_eqI) (auto simp: bit_simps dest: bit_30 [OF assms])
  then have "drop_bit 25 c AND 31 = drop_bit 25 c"
    using group_step [OF assms, of 25] by (simp add: step_zero)
  then have "ucast (ucast (drop_bit 25 c) :: u8) = drop_bit 25 c"
    using cast_group [of "drop_bit 25 c"] by simp
  moreover note top
  moreover have "[0..<6] = [0, 1, 2, 3, 4, 5]" by (simp add: upt_rec)
  ultimately show ?thesis
    using group_step [OF assms, of 25] group_step [OF assms, of 20] group_step [OF assms, of 15]
      group_step [OF assms, of 10] group_step [OF assms, of 5] group_step [OF assms, of 0]
    by (simp add: checksum_of_def polymod_Cons cast_group step_zero)
qed

lemma checksum_closes:
  "polymod s (checksum_of (polymod s (replicate 6 0) XOR BECH32M_CONST)) = BECH32M_CONST"
proof -
  have "take_bit 30 (polymod s (replicate 6 0)) = polymod s (replicate 6 0)"
  proof -
    have six: "replicate 6 (0 :: u8) = 0 # replicate 5 0" by (simp add: numeral_eq_Suc)
    have "list_all (\<lambda>v. v < 32) (replicate 5 (0 :: u8))" by (simp add: list_all_iff)
    from polymod_range [OF this step_range] show ?thesis unfolding six by (simp add: polymod_Cons)
  qed
  then have "take_bit 30 (polymod s (replicate 6 0) XOR BECH32M_CONST) = polymod s (replicate 6 0) XOR BECH32M_CONST"
    by (simp add: BECH32M_CONST_def)
  from polymod_checksum [OF this] show ?thesis
    using polymod_split [of s "checksum_of (polymod s (replicate 6 0) XOR BECH32M_CONST)"]
    by (simp add: checksum_of_def)
qed

lemma charset_index: "i < 32 \<Longrightarrow> charset_value (CHARSET ! i) = Some i"
proof -
  assume "i < 32"
  then have "i \<in> set [0..<32]" by simp
  then show ?thesis
    unfolding charset_value_def CHARSET_def by (simp add: upt_rec) (elim disjE; simp)
qed

lemma charset_inj: "charset_value c = Some i \<Longrightarrow> charset_value d = Some i \<Longrightarrow> c = d"
  unfolding charset_value_def by (auto simp: find_Some_iff)

lemma charset_range: "charset_value c = Some i \<Longrightarrow> i < 32"
  unfolding charset_value_def by (auto simp: find_Some_iff)

definition symbol_char :: "u8 \<Rightarrow> char" where
  "symbol_char v = CHARSET ! unat v"

definition char_symbol :: "char \<Rightarrow> u8" where
  "char_symbol c = of_nat (the (charset_value c))"

lemma symbol_back: "v < 32 \<Longrightarrow> char_symbol (symbol_char v) = v \<and> charset_value (symbol_char v) \<noteq> None"
  using charset_index [of "unat v"] by (simp add: symbol_char_def char_symbol_def word_less_nat_alt)

lemma symbols_back: "list_all (\<lambda>v. v < 32) vs \<Longrightarrow> map (\<lambda>v. char_symbol (symbol_char v)) vs = vs"
  by (induction vs) (auto simp: symbol_back)

lemma mask_small: "(ucast (w AND mask 5 :: 32 word) :: u8) < 32"
proof -
  have "(ucast (w AND mask 5) :: u8) = take_bit 5 (ucast w)"
    by (rule bit_word_eqI) (auto simp: bit_simps)
  moreover have "unat (take_bit 5 (ucast w) :: u8) < 2 ^ 5"
    unfolding unsigned_take_bit_eq by (rule take_bit_nat_less_exp)
  ultimately show ?thesis by (simp add: word_less_nat_alt)
qed

lemma emit_small: "list_all (\<lambda>v. v < 32) (fst (emit_groups 5 acc bits))"
proof (induction "5 :: nat" acc bits rule: emit_groups.induct)
  case (1 acc bits)
  from 1 show ?case by (subst emit_groups.simps) (auto simp: Let_def split_beta mask_small)
qed

lemma loop_small: "list_all (\<lambda>v. v < 32) (fst (convert_loop 8 5 acc bits xs))"
  using emit_small by (induction xs arbitrary: acc bits) (auto simp: Let_def split_beta)

lemma program_symbols_small: "list_all (\<lambda>v. v < 32) (program_symbols p)"
  using loop_small mask_small
  by (auto simp: program_symbols_def convert_bits_def split_beta Let_def)

lemma checksum_small: "list_all (\<lambda>v. v < 32) (checksum_of c)"
proof -
  have "(ucast (w AND 31 :: u32) :: u8) < 32" for w
    using mask_small [of w] by (simp add: mask_eq_exp_minus_1)
  then show ?thesis by (simp add: checksum_of_def list_all_iff)
qed

lemma to_bech32m_symbols:
  "\<exists>vs. to_bech32m hrp p = hrp @ ''1'' @ map symbol_char vs \<and> list_all (\<lambda>v. v < 32) vs \<and>
     take (length vs - 6) vs = program_symbols p \<and> polymod 1 (expand_hrp hrp @ vs) = BECH32M_CONST"
proof -
  let ?s = "polymod 1 (expand_hrp hrp @ program_symbols p)"
  let ?cs = "checksum_of (polymod ?s (replicate 6 0) XOR BECH32M_CONST)"
  have "length ?cs = 6" by (simp add: checksum_of_def)
  then show ?thesis
    using program_symbols_small checksum_small checksum_closes [of ?s]
    by (intro exI [of _ "program_symbols p @ ?cs"])
      (simp add: to_bech32m_def symbol_char_def [abs_def] Let_def polymod_append)
qed

lemma valid_symbols:
  assumes "list_all (\<lambda>v. v < 32) vs"
  shows "bech32m_valid hrp (hrp @ ''1'' @ map symbol_char vs) \<longleftrightarrow>
    polymod 1 (expand_hrp hrp @ vs) = BECH32M_CONST"
  using assms symbols_back [OF assms]
  by (auto simp: bech32m_valid_def char_symbol_def comp_def list_all_iff dest: symbol_back)

lemma polymod_one_wrong:
  assumes "a \<noteq> b" "a < 32" "b < 32"
  shows "polymod s (xs @ a # ys) \<noteq> polymod s (xs @ b # ys)"
proof
  assume eq: "polymod s (xs @ a # ys) = polymod s (xs @ b # ys)"
  define x where "x = polymod_step (polymod s xs) XOR ucast a"
  define y where "y = polymod_step (polymod s xs) XOR ucast b"
  have z: "map2 (XOR) ys ys = replicate (length ys) 0" by (induction ys) auto
  have "polymod (x XOR y) (replicate (length ys) 0) = 0"
    using polymod_xor [of ys ys x y] eq by (simp add: z polymod_append polymod_Cons x_def y_def)
  moreover have xy: "x XOR y = ucast (a XOR b)"
    by (rule bit_word_eqI) (auto simp: x_def y_def bit_simps)
  moreover have "take_bit 30 (ucast (a XOR b)) = (ucast (a XOR b) :: u32)"
    by (rule bit_word_eqI) (auto simp: bit_simps dest: bit_imp_le_length)
  moreover have "(ucast (a XOR b) :: u32) \<noteq> 0"
  proof
    assume "(ucast (a XOR b) :: u32) = 0"
    moreover have "bit (ucast (a XOR b) :: u32) n \<longleftrightarrow> bit a n \<noteq> bit b n" if "n < 8" for n
      using that by (simp add: bit_simps)
    ultimately have "bit a n = bit b n" if "n < 8" for n using that by simp
    with assms(1) show False by (auto intro: bit_word_eqI)
  qed
  ultimately show False using zeros_kernel by metis
qed

lemma one_wrong_character:
  assumes "bech32m_valid hrp s" "length hrp < i" "i < length s" "c \<noteq> s ! i"
  shows "\<not> bech32m_valid hrp (s[i := c])"
proof
  assume v: "bech32m_valid hrp (s[i := c])"
  let ?n = "length hrp + 1"
  let ?d = "drop ?n s"
  let ?j = "i - ?n"
  have d: "drop ?n (s[i := c]) = ?d[?j := c]" using assms(2) by (simp add: drop_update_swap)
  have j: "?j < length ?d" "?d ! ?j = s ! i" using assms(2,3) by auto
  obtain a where a: "charset_value (s ! i) = Some a"
    using assms(1) j unfolding bech32m_valid_def list_all_iff by (metis nth_mem not_None_eq)
  have "c \<in> set (?d[?j := c])" using j(1) by (rule set_update_memI)
  then obtain b where b: "charset_value c = Some b"
    using v d unfolding bech32m_valid_def list_all_iff by (metis not_None_eq)
  have ab: "a < 32" "b < 32" "a \<noteq> b"
    using charset_range [OF a] charset_range [OF b] charset_inj [OF a] b assms(4) by auto
  let ?m = "map char_symbol ?d"
  have m: "?m = take ?j ?m @ of_nat a # drop (Suc ?j) ?m"
    using j a id_take_nth_drop [of ?j ?m] by (simp add: char_symbol_def)
  have m': "map char_symbol (?d[?j := c]) = take ?j ?m @ of_nat b # drop (Suc ?j) ?m"
    using j b by (simp add: map_update upd_conv_take_nth_drop char_symbol_def take_map drop_map)
  have "polymod 1 (expand_hrp hrp @ ?m) = polymod 1 (expand_hrp hrp @ map char_symbol (?d[?j := c]))"
    using assms(1) v d by (simp add: bech32m_valid_def char_symbol_def [abs_def])
  then have "polymod 1 ((expand_hrp hrp @ take ?j ?m) @ of_nat a # drop (Suc ?j) ?m) =
      polymod 1 ((expand_hrp hrp @ take ?j ?m) @ of_nat b # drop (Suc ?j) ?m)"
    using m m' by (metis append.assoc)
  moreover have "(of_nat a :: u8) \<noteq> of_nat b \<and> (of_nat a :: u8) < 32 \<and> (of_nat b :: u8) < 32"
    using ab by (simp add: word_less_nat_alt unat_of_small word_unat_eq_iff)
  ultimately show False using polymod_one_wrong by blast
qed



section \<open>The program is in the address\<close>

definition in_base :: "nat \<Rightarrow> bytes \<Rightarrow> nat" where
  "in_base k xs = foldl (\<lambda>a x. a * k + unat x) 0 xs"

lemma in_base_snoc: "in_base k (xs @ [x]) = in_base k xs * k + unat x"
  by (simp add: in_base_def)

lemma foldl_base: "foldl (\<lambda>a x. a * k + unat x) c xs = c * k ^ length xs + in_base k (xs :: bytes)"
proof (induction xs rule: rev_induct)
  case (snoc x xs)
  then show ?case by (simp add: in_base_snoc algebra_simps)
qed (simp add: in_base_def)

lemma in_base_append: "in_base k (xs @ ys) = in_base k xs * k ^ length ys + in_base k ys"
  using foldl_base [of k "in_base k xs" ys] by (simp add: in_base_def)

lemma in_base_inj:
  "length xs = length ys \<Longrightarrow> in_base 256 xs = in_base 256 ys \<Longrightarrow> xs = ys"
proof (induction xs arbitrary: ys rule: rev_induct)
  case (snoc x xs)
  then obtain y zs where ys: "ys = zs @ [y]" by (cases ys rule: rev_cases) auto
  have lt: "unat x < 256" "unat y < 256" using unsigned_less [of x] unsigned_less [of y] by simp_all
  have eq: "in_base 256 xs * 256 + unat x = in_base 256 zs * 256 + unat y"
    using snoc.prems by (simp add: ys in_base_snoc)
  have "in_base 256 xs = in_base 256 zs" "unat x = unat y"
    using arg_cong [OF eq, of "\<lambda>n. n div 256"] arg_cong [OF eq, of "\<lambda>n. n mod 256"] lt by simp_all
  then show ?case using snoc ys by (simp add: word_unat_eq_iff)
qed simp

text \<open>The bits waiting in the accumulator.\<close>

definition pending :: "nat \<Rightarrow> 32 word \<Rightarrow> nat" where
  "pending bits acc = take_bit bits (unat acc)"

lemma pending_unat: "pending b acc = unat (take_bit b acc)"
  unfolding pending_def unsigned_take_bit_eq ..

lemma unat_push:
  assumes "unat w * 2 ^ n < 2 ^ LENGTH('a)"
  shows "unat (push_bit n (w :: 'a::len word)) = unat w * 2 ^ n"
  unfolding unsigned_push_bit_eq unfolding push_bit_eq_mult using assms by (rule take_bit_nat_eq_self)

lemma unat_cast: "unat w < 2 ^ LENGTH('b) \<Longrightarrow> unat (ucast (w :: 'a::len word) :: 'b::len word) = unat w"
  unfolding unsigned_ucast_eq by (rule take_bit_nat_eq_self)

lemma group_value:
  assumes "b + 5 \<le> 32"
  shows "unat (ucast (signed_drop_bit b acc AND mask 5) :: u8) = drop_bit b (pending (b + 5) acc)"
proof -
  have "(ucast (signed_drop_bit b acc AND mask 5) :: u8) = ucast (drop_bit b (take_bit (b + 5) acc))"
    using assms by (intro bit_word_eqI) (auto simp: bit_simps)
  moreover have "unat (drop_bit b (take_bit (b + 5) acc)) = drop_bit b (pending (b + 5) acc)"
    using assms by (simp add: pending_def unsigned_drop_bit_eq unsigned_take_bit_eq min_absorb2)
  moreover have "drop_bit b (pending (b + 5) acc) < 2 ^ 5"
    using take_bit_nat_less_exp [of 5 "drop_bit b (unat acc)"] unfolding pending_def drop_bit_take_bit by simp
  ultimately show ?thesis by (simp add: unsigned_ucast_eq take_bit_nat_eq_self)
qed

lemma emit_value:
  "b \<le> 27 \<Longrightarrow> emit_groups 5 acc b = (out, left) \<Longrightarrow>
     pending b acc = in_base 32 out * 2 ^ left + pending left acc \<and> left < 5 \<and>
     5 * length out + left = b"
proof (induction "5 :: nat" acc b arbitrary: out left rule: emit_groups.induct)
  case (1 acc b)
  show ?case
  proof (cases "b < 5")
    case True
    with 1(3) show ?thesis by (subst (asm) emit_groups.simps) (auto simp: in_base_def)
  next
    case False
    obtain r l where rl: "emit_groups 5 acc (b - 5) = (r, l)" by force
    let ?g = "ucast (signed_drop_bit (b - 5) acc AND mask 5) :: u8"
    have out: "out = ?g # r" "left = l"
      using 1(3) False rl by (subst (asm) emit_groups.simps, simp add: Let_def)+
    have ih: "pending (b - 5) acc = in_base 32 r * 2 ^ l + pending l acc" "l < 5" "5 * length r + l = b - 5"
      using 1(1) [OF _ refl _ rl] False 1(2) by auto
    have g: "unat ?g = drop_bit (b - 5) (pending b acc)"
      using group_value [of "b - 5" acc] False 1(2) by simp
    have "pending b acc = unat ?g * 2 ^ (b - 5) + pending (b - 5) acc"
      unfolding g using False bits_ident [of "b - 5" "pending b acc"]
      by (simp add: pending_def push_bit_eq_mult)
    moreover have "in_base 32 (?g # r) = unat ?g * 32 ^ length r + in_base 32 r"
      using in_base_append [of 32 "[?g]" r] by (simp add: in_base_def)
    moreover have "(32 :: nat) ^ length r * 2 ^ l = 2 ^ (b - 5)"
    proof -
      have "(2 :: nat) ^ (b - 5) = 2 ^ (5 * length r) * 2 ^ l" unfolding ih(3) [symmetric] by (rule power_add)
      then show ?thesis by (simp add: power_mult)
    qed
    ultimately show ?thesis
      using ih False by (simp add: out algebra_simps)
  qed
qed

lemma pending_push:
  assumes "b < 5"
  shows "pending (b + 8) (push_bit 8 acc OR ucast (x :: u8)) = pending b acc * 256 + unat x"
proof -
  have "take_bit (b + 8) (push_bit 8 acc OR ucast x) = push_bit 8 (take_bit b acc) OR ucast x"
    using assms by (intro bit_word_eqI) (auto simp: bit_simps dest: bit_imp_le_length)
  then have "pending (b + 8) (push_bit 8 acc OR ucast x) = unat (push_bit 8 (take_bit b acc) OR ucast x)"
    unfolding pending_def unsigned_take_bit_eq [symmetric] by simp
  also have "push_bit 8 (take_bit b acc) OR ucast x = push_bit 8 (take_bit b acc) + ucast x"
    by (rule disjunctive_add [symmetric]) (auto simp: bit_simps dest: bit_imp_le_length)
  also have "unat (push_bit 8 (take_bit b acc) + ucast x) = pending b acc * 256 + unat x"
  proof -
    have p: "pending b acc < 2 ^ 4" using assms take_bit_nat_less_exp [of b "unat acc"]
      power_increasing [of b 4 "2 :: nat"] unfolding pending_def by linarith
    have "unat (push_bit 8 (take_bit b acc)) = pending b acc * 256"
      using p unat_push [of "take_bit b acc" 8] unfolding pending_unat by simp
    moreover have x: "unat x < 256" using unsigned_less [of x, where 'a = nat] by simp
    moreover from x have "unat (ucast x :: 32 word) = unat x" by (intro unat_cast) simp
    ultimately show ?thesis
      using p by (subst unat_plus_simple [THEN iffD1]) (auto simp: word_le_nat_alt unat_word_ariths)
  qed
  finally show ?thesis .
qed

lemma loop_value:
  "bits < 5 \<Longrightarrow> convert_loop 8 5 acc bits xs = (out, acc1, bits1) \<Longrightarrow>
     pending bits acc * 256 ^ length xs + in_base 256 xs = in_base 32 out * 2 ^ bits1 + pending bits1 acc1 \<and>
     bits1 < 5 \<and> 5 * length out + bits1 = bits + 8 * length xs"
proof (induction xs arbitrary: acc bits out)
  case (Cons x xs)
  let ?acc = "push_bit 8 acc OR ucast x"
  obtain g l where g: "emit_groups 5 ?acc (bits + 8) = (g, l)" by force
  obtain r where r: "convert_loop 8 5 ?acc l xs = (r, acc1, bits1)" "out = g @ r"
    using Cons.prems(2) g by (auto simp: Let_def split: prod.splits)
  have e: "pending (bits + 8) ?acc = in_base 32 g * 2 ^ l + pending l ?acc" "l < 5"
      "5 * length g + l = bits + 8"
    using emit_value [OF _ g] Cons.prems(1) by auto
  have ih: "pending l ?acc * 256 ^ length xs + in_base 256 xs = in_base 32 r * 2 ^ bits1 + pending bits1 acc1"
      "bits1 < 5" "5 * length r + bits1 = l + 8 * length xs"
    using Cons.IH [OF e(2) r(1)] by auto
  have v: "in_base 256 (x # xs) = unat x * 256 ^ length xs + in_base 256 xs"
    using in_base_append [of 256 "[x]" xs] by (simp add: in_base_def)
  have w: "2 ^ l * 256 ^ length xs = 32 ^ length r * (2 ^ bits1 :: nat)"
  proof -
    have "(2 :: nat) ^ (l + 8 * length xs) = 2 ^ (5 * length r + bits1)" unfolding ih(3) ..
    then show ?thesis by (simp add: power_add power_mult)
  qed
  have "pending bits acc * 256 ^ length (x # xs) + in_base 256 (x # xs) =
      pending (bits + 8) ?acc * 256 ^ length xs + in_base 256 xs"
    unfolding pending_push [OF Cons.prems(1)] v by (simp add: algebra_simps)
  also have "\<dots> = in_base 32 g * (2 ^ l * 256 ^ length xs) + (pending l ?acc * 256 ^ length xs + in_base 256 xs)"
    unfolding e(1) by (simp add: algebra_simps)
  also have "\<dots> = in_base 32 (g @ r) * 2 ^ bits1 + pending bits1 acc1"
    unfolding w ih(1) in_base_append by (simp add: algebra_simps)
  finally show ?case using e ih r(2) by auto
qed (simp add: in_base_def)

lemma convert_value:
  "\<exists>k < 5. in_base 32 (convert_bits xs 8 5 True) = in_base 256 xs * 2 ^ k \<and>
     5 * length (convert_bits xs 8 5 True) = 8 * length xs + k"
proof -
  obtain out acc b where l: "convert_loop 8 5 0 0 xs = (out, acc, b)" by (metis prod_cases3)
  have v: "in_base 256 xs = in_base 32 out * 2 ^ b + pending b acc" "b < 5" "5 * length out + b = 8 * length xs"
    using loop_value [OF _ l] by (auto simp: pending_def)
  show ?thesis
  proof (cases "b = 0")
    case True
    then show ?thesis using v by (intro exI [of _ 0]) (simp add: convert_bits_def l pending_def)
  next
    case False
    let ?x = "ucast (push_bit (5 - b) acc AND mask 5) :: u8"
    have "?x = ucast (push_bit (5 - b) (take_bit b acc))"
      using v(2) by (intro bit_word_eqI) (auto simp: bit_simps)
    moreover have p: "pending b acc < 2 ^ b" unfolding pending_def by (rule take_bit_nat_less_exp)
    moreover have "pending b acc * 2 ^ (5 - b) < 2 ^ 5"
    proof -
      have "pending b acc * 2 ^ (5 - b) < 2 ^ b * 2 ^ (5 - b)" using p by (rule mult_strict_right_mono) simp
      also have "\<dots> = 2 ^ 5" using v(2) by (simp flip: power_add)
      finally show ?thesis .
    qed
    ultimately have x: "unat ?x = pending b acc * 2 ^ (5 - b)"
      using unat_push [of "take_bit b acc" "5 - b"] unat_cast [of "push_bit (5 - b) (take_bit b acc)", where 'b = 8]
      unfolding pending_unat by simp
    have "in_base 32 (out @ [?x]) = in_base 256 xs * 2 ^ (5 - b)"
      unfolding in_base_snoc x v(1) using v(2) by (simp add: algebra_simps flip: power_add)
    then show ?thesis
      using v False by (intro exI [of _ "5 - b"]) (simp add: convert_bits_def l)
  qed
qed

text \<open>
  An address names one program: two programs of the same length with the same address under
  a prefix are equal, although the accumulator of the regrouping overflows.
\<close>

theorem address_injective:
  assumes "to_bech32m hrp p = to_bech32m hrp q" and "length p = length q"
  shows "p = q"
proof -
  obtain vs where vs: "to_bech32m hrp p = hrp @ ''1'' @ map symbol_char vs" "list_all (\<lambda>v. v < 32) vs"
      "take (length vs - 6) vs = program_symbols p"
    using to_bech32m_symbols [of hrp p] by blast
  obtain ws where ws: "to_bech32m hrp q = hrp @ ''1'' @ map symbol_char ws" "list_all (\<lambda>v. v < 32) ws"
      "take (length ws - 6) ws = program_symbols q"
    using to_bech32m_symbols [of hrp q] by blast
  from assms(1) have "map symbol_char vs = map symbol_char ws" by (simp add: vs(1) ws(1))
  from arg_cong [OF this, of "map char_symbol"]
  have "map (\<lambda>v. char_symbol (symbol_char v)) vs = map (\<lambda>v. char_symbol (symbol_char v)) ws"
    by (simp add: comp_def)
  then have "vs = ws" by (simp add: symbols_back vs(2) ws(2))
  then have "convert_bits p 8 5 True = convert_bits q 8 5 True"
    using vs(3) ws(3) by (simp add: program_symbols_def)
  then have "in_base 256 p = in_base 256 q"
    using convert_value [of p] convert_value [of q] assms(2) by auto
  with assms(2) show ?thesis by (rule in_base_inj)
qed

theorem address_injective_witness: "([] :: bytes) = []"
  by (rule address_injective [of "''bc''"]) simp_all

end
