(* ===== verification/Root_Image.thy ===== *)
theory Root_Image
  imports Scheduler Double_Arith
begin

text \<open>
  The anchored state root of a federation: \<open>src/l6/StateRootBuilder.cpp\<close> over the view of
  \<open>include/l4/ClusterFederationView.h\<close>. The serializers write field by field without separators;
  the locale \<open>framed\<close> is what makes that unambiguous (the image of a well-formed value says where
  it ends) and is inherited by vectors behind a count. Every decodable encoding is framed. The
  conversion of a \<open>double\<close> outside the range of the integer type is undefined in C++: its result
  is the parameter \<open>oob\<close>.
\<close>

section \<open>Framed encodings\<close>

lemma le_bytes_64_inj: "le_bytes 8 (a :: u64) = le_bytes 8 b \<longleftrightarrow> a = b"
  by (metis le_word_64)

lemma le_bytes_32_inj: "le_bytes 4 (a :: u32) = le_bytes 4 b \<longleftrightarrow> a = b"
  by (metis le_word_32)

lemma le_bytes_64_frame [simp]: "le_bytes 8 (a :: u64) @ r = le_bytes 8 b @ s \<longleftrightarrow> a = b \<and> r = s"
  by (simp add: append_eq_append_conv le_bytes_64_inj)

lemma le_bytes_32_frame [simp]: "le_bytes 4 (a :: u32) @ r = le_bytes 4 b @ s \<longleftrightarrow> a = b \<and> r = s"
  by (simp add: append_eq_append_conv le_bytes_32_inj)

lemma array_frame: "length a = n \<Longrightarrow> length b = n \<Longrightarrow> a @ r = b @ s \<longleftrightarrow> a = b \<and> r = s"
  by (simp add: append_eq_append_conv)

locale framed =
  fixes wr :: "'a \<Rightarrow> bytes" and wf :: "'a \<Rightarrow> bool"
  assumes frame: "wf x \<Longrightarrow> wf y \<Longrightarrow> wr x @ r = wr y @ s \<Longrightarrow> x = y \<and> r = s"
begin

lemma frame_iff: "wf x \<Longrightarrow> wf y \<Longrightarrow> wr x @ r = wr y @ s \<longleftrightarrow> x = y \<and> r = s"
  using frame by blast

lemma frame_list:
  "list_all wf xs \<Longrightarrow> list_all wf ys \<Longrightarrow> length xs = length ys \<Longrightarrow>
   concat (map wr xs) @ r = concat (map wr ys) @ s \<Longrightarrow> xs = ys \<and> r = s"
proof (induction xs arbitrary: ys)
  case (Cons x xs)
  then obtain y zs where ys: "ys = y # zs" by (cases ys) auto
  have "x = y" "concat (map wr xs) @ r = concat (map wr zs) @ s"
    using frame [of x y "concat (map wr xs) @ r" "concat (map wr zs) @ s"] Cons.prems by (simp_all add: ys)
  with Cons.IH [of zs] Cons.prems show ?case by (simp add: ys)
qed simp

lemma frame_vec:
  assumes "list_all wf xs" "list_all wf ys" "length xs < 2 ^ 64" "length ys < 2 ^ 64"
    and "write_vec wr xs @ r = write_vec wr ys @ s"
  shows "xs = ys \<and> r = s"
proof -
  from assms(5) have "(of_nat (length xs) :: u64) = of_nat (length ys)"
    and c: "concat (map wr xs) @ r = concat (map wr ys) @ s"
    by (simp_all add: write_vec_def write_u64_def)
  then have "unat (of_nat (length xs) :: u64) = unat (of_nat (length ys) :: u64)" by simp
  then have "length xs = length ys" using assms(3,4) by (simp add: unat_of_small)
  from frame_list [OF assms(1,2) this c] show ?thesis .
qed

end

sublocale codec \<subseteq> framed wr wf
  by unfold_locales (metis Inr_inject Pair_inject read_write)

section \<open>Serializers\<close>

definition serialize_epoch_state :: "epoch_state \<Rightarrow> bytes" where
  "serialize_epoch_state s = es_epoch_hash s @ le_bytes 8 (es_epoch_number s) @
     le_bytes 8 (es_l1_height s) @ es_l1_anchor_hash s @ le_bytes 4 (es_protocol_version s) @
     es_node_identity_hash s"

definition serialize_state_root :: "state_root_rec \<Rightarrow> bytes" where
  "serialize_state_root r = sr_root_hash r @ le_bytes 8 (sr_l1_height_basis r) @
     le_bytes 4 (sr_ingestion_count r) @ le_bytes 4 (sr_coherence_score r)"

definition serialize_recovery_payload :: "recovery_payload \<Rightarrow> bytes" where
  "serialize_recovery_payload p = rp_payload_hash p @ rp_target_state_root p @
     rp_target_epoch_hash p @ le_bytes 8 (rp_l1_height p) @ rp_node_identity_hash p"

definition serialize_execution_context :: "execution_context \<Rightarrow> bytes" where
  "serialize_execution_context c = xc_context_hash c @ xc_epoch_hash c @ xc_state_root_hash c @
     xc_node_identity_hash c @ le_bytes 8 (xc_l1_height c) @ le_bytes 4 (xc_mesh_coherence_score c)"

definition serialize_execution_envelope :: "execution_envelope \<Rightarrow> bytes" where
  "serialize_execution_envelope e = serialize_execution_context (ee_context e) @ ee_signature e"

definition serialize_engine_state :: "engine_state \<Rightarrow> bytes" where
  "serialize_engine_state s = serialize_epoch_state (en_epoch s) @
     serialize_state_root (en_state_root s) @ serialize_recovery_payload (en_recovery s) @
     serialize_execution_context (en_context s) @ le_bytes 8 (en_step_counter s)"

definition serialize_gossip_summary :: "gossip_summary \<Rightarrow> bytes" where
  "serialize_gossip_summary s = gs_node_identity_fingerprint s @ gs_state_root_hash s @
     gs_epoch_hash s @ le_bytes 8 (gs_epoch_height s) @ le_bytes 8 (gs_coherence_score s) @ [gs_flags s]"

definition serialize_gossip_envelope :: "gossip_envelope \<Rightarrow> bytes" where
  "serialize_gossip_envelope e = serialize_gossip_summary (ge_remote_summary e) @
     le_bytes 8 (ge_received_sequence e) @ ge_normalized_hash e"

definition serialize_peer_sync_state :: "peer_sync_state \<Rightarrow> bytes" where
  "serialize_peer_sync_state s = serialize_execution_envelope (ps_local_envelope s) @
     serialize_gossip_envelope (ps_remote_envelope s) @ le_bytes 8 (ps_coherence_delta s) @
     [sync_status_code (ps_sync_status s)]"

definition serialize_mesh_epoch :: "mesh_epoch \<Rightarrow> bytes" where
  "serialize_mesh_epoch e = le_bytes 8 (me_epoch_height e) @ me_epoch_hash e @ me_mesh_state_root e"

definition serialize_mesh_anchor :: "mesh_anchor \<Rightarrow> bytes" where
  "serialize_mesh_anchor a = le_bytes 8 (ma_anchor_id a) @ serialize_mesh_epoch (ma_epoch a) @
     le_bytes 8 (ma_total_nodes a) @ le_bytes 8 (ma_in_sync_nodes a) @
     le_bytes 8 (ma_recovered_nodes a) @ ma_anchor_hash a"

definition serialize_mesh_prop_envelope :: "mesh_propagation_envelope \<Rightarrow> bytes" where
  "serialize_mesh_prop_envelope e = le_bytes 8 (mp_source_node_id_hash e) @
     serialize_mesh_anchor (mp_anchor e) @ mp_propagation_hash e"

definition serialize_transport_message :: "transport_message \<Rightarrow> bytes" where
  "serialize_transport_message m = le_bytes 8 (tm_source_node_id_hash m) @
     le_bytes 8 (tm_dest_node_id_hash m) @ le_bytes 8 (tm_epoch_height m) @ [tm_message_type m] @
     tm_payload m @ tm_message_hash m"

definition serialize_coherence_summary :: "coherence_summary \<Rightarrow> bytes" where
  "serialize_coherence_summary c = le_bytes 8 (co_in_sync_count c) @ le_bytes 8 (co_ahead_count c) @
     le_bytes 8 (co_behind_count c) @ le_bytes 8 (co_needs_recovery_count c) @
     le_bytes 8 (co_stale_count c) @ le_bytes 8 (co_global_coherence_score c) @
     le_bytes 8 (co_recovered_nodes_count c) @ le_bytes 8 (co_unrecoverable_nodes_count c) @
     le_bytes 8 (co_consistent_state_root_nodes c) @ le_bytes 8 (co_inconsistent_state_root_nodes c)"

primrec root_status_code :: "root_status \<Rightarrow> u8" where
  "root_status_code ROOT_UNKNOWN = 0"
| "root_status_code CONSISTENT = 1"
| "root_status_code INCONSISTENT = 2"

definition serialize_node :: "cluster_node \<Rightarrow> bytes" where
  "serialize_node n = serialize_engine_state (cn_engine_state n) @
     serialize_execution_envelope (cn_last_envelope n) @
     serialize_gossip_summary (cn_last_gossip_summary n) @ le_bytes 8 (cn_node_id_hash n) @
     le_bytes 8 (cn_step_counter n) @ [root_status_code (cn_state_root_status n)] @
     write_vec serialize_peer_sync_state (cn_peer_sync_states n)"

definition serialize_cluster_view :: "cluster_view \<Rightarrow> bytes" where
  "serialize_cluster_view v = write_vec serialize_node (cv_nodes v) @
     write_vec serialize_mesh_prop_envelope (cv_mesh_envelopes v) @
     le_bytes 8 (cv_total_nodes v) @ le_bytes 8 (cv_total_steps v) @
     write_vec serialize_transport_message (cv_transport_queue v) @
     serialize_coherence_summary (cv_coherence_summary v)"

section \<open>The root\<close>

record federation_view =
  fv_cluster_views :: "cluster_view list"
  fv_in_flight :: u64
  fv_delivered :: u64
  fv_pending :: u64
  fv_average_coherence :: double
  fv_min_coherence :: double
  fv_max_coherence :: double

definition double_to_fixed :: "(double \<Rightarrow> u64) \<Rightarrow> double \<Rightarrow> u64" where
  "double_to_fixed oob val = cast_u64 oob (d_mul val (Fin 1000000))"

definition federation_image :: "(double \<Rightarrow> u64) \<Rightarrow> federation_view \<Rightarrow> bytes" where
  "federation_image oob f = write_vec serialize_cluster_view (fv_cluster_views f) @
     le_bytes 8 (fv_in_flight f) @ le_bytes 8 (fv_delivered f) @ le_bytes 8 (fv_pending f) @
     le_bytes 8 (double_to_fixed oob (fv_average_coherence f)) @
     le_bytes 8 (double_to_fixed oob (fv_min_coherence f)) @
     le_bytes 8 (double_to_fixed oob (fv_max_coherence f))"

definition replay_hash :: "(bytes \<Rightarrow> bytes) \<Rightarrow> bytes list \<Rightarrow> bytes" where
  "replay_hash sha ticks = (if ticks = [] then replicate 32 0 else sha (last ticks))"

definition write_u64_be :: "u64 \<Rightarrow> bytes" where
  "write_u64_be val = map (\<lambda>i. ucast (drop_bit (56 - 8 * i) val)) [0..<8]"

definition build_state_root ::
    "(bytes \<Rightarrow> bytes) \<Rightarrow> (double \<Rightarrow> u64) \<Rightarrow> bytes list \<Rightarrow> federation_view \<Rightarrow> bytes" where
  "build_state_root sha oob ticks f =
     (let federation_hash = sha (federation_image oob f);
          coherence_score = cast_u64 oob (fv_average_coherence f)
      in sha ([0x01] @ replay_hash sha ticks @ federation_hash @ write_u64_be coherence_score))"

section \<open>What the root covers\<close>

text \<open>Arrays of the types' sizes, and vectors whose counts fit.\<close>

definition wf_epoch :: "epoch_state \<Rightarrow> bool" where
  "wf_epoch s \<longleftrightarrow> length (es_epoch_hash s) = 32 \<and> length (es_l1_anchor_hash s) = 32 \<and>
     length (es_node_identity_hash s) = 32"

definition wf_root :: "state_root_rec \<Rightarrow> bool" where
  "wf_root s \<longleftrightarrow> length (sr_root_hash s) = 32"

definition wf_recovery :: "recovery_payload \<Rightarrow> bool" where
  "wf_recovery p \<longleftrightarrow> length (rp_payload_hash p) = 32 \<and> length (rp_target_state_root p) = 32 \<and>
     length (rp_target_epoch_hash p) = 32 \<and> length (rp_node_identity_hash p) = 32"

definition wf_context :: "execution_context \<Rightarrow> bool" where
  "wf_context c \<longleftrightarrow> length (xc_context_hash c) = 32 \<and> length (xc_epoch_hash c) = 32 \<and>
     length (xc_state_root_hash c) = 32 \<and> length (xc_node_identity_hash c) = 32"

definition wf_envelope :: "execution_envelope \<Rightarrow> bool" where
  "wf_envelope e \<longleftrightarrow> wf_context (ee_context e) \<and> length (ee_signature e) = 64"

definition wf_engine :: "engine_state \<Rightarrow> bool" where
  "wf_engine s \<longleftrightarrow> wf_epoch (en_epoch s) \<and> wf_root (en_state_root s) \<and>
     wf_recovery (en_recovery s) \<and> wf_context (en_context s)"

definition wf_summary :: "gossip_summary \<Rightarrow> bool" where
  "wf_summary s \<longleftrightarrow> length (gs_node_identity_fingerprint s) = 32 \<and>
     length (gs_state_root_hash s) = 32 \<and> length (gs_epoch_hash s) = 32"

text \<open>The flags of a received envelope are not written; zero stands for every value.\<close>

definition wf_gossip :: "gossip_envelope \<Rightarrow> bool" where
  "wf_gossip e \<longleftrightarrow> wf_summary (ge_remote_summary e) \<and> length (ge_normalized_hash e) = 32 \<and>
     ge_flags e = 0"

definition wf_sync :: "peer_sync_state \<Rightarrow> bool" where
  "wf_sync s \<longleftrightarrow> wf_envelope (ps_local_envelope s) \<and> wf_gossip (ps_remote_envelope s)"

definition wf_mesh_epoch :: "mesh_epoch \<Rightarrow> bool" where
  "wf_mesh_epoch e \<longleftrightarrow> length (me_epoch_hash e) = 32 \<and> length (me_mesh_state_root e) = 32"

definition wf_mesh_anchor :: "mesh_anchor \<Rightarrow> bool" where
  "wf_mesh_anchor a \<longleftrightarrow> wf_mesh_epoch (ma_epoch a) \<and> length (ma_anchor_hash a) = 32"

definition wf_mesh :: "mesh_propagation_envelope \<Rightarrow> bool" where
  "wf_mesh e \<longleftrightarrow> wf_mesh_anchor (mp_anchor e) \<and> length (mp_propagation_hash e) = 32"

definition wf_message :: "transport_message \<Rightarrow> bool" where
  "wf_message m \<longleftrightarrow> length (tm_payload m) = 128 \<and> length (tm_message_hash m) = 32"

definition wf_vec :: "('a \<Rightarrow> bool) \<Rightarrow> 'a list \<Rightarrow> bool" where
  "wf_vec ok xs \<longleftrightarrow> list_all ok xs \<and> length xs < 2 ^ 64"

definition wf_cluster_node :: "cluster_node \<Rightarrow> bool" where
  "wf_cluster_node n \<longleftrightarrow> wf_engine (cn_engine_state n) \<and> wf_envelope (cn_last_envelope n) \<and>
     wf_summary (cn_last_gossip_summary n) \<and> wf_vec wf_sync (cn_peer_sync_states n)"

text \<open>The clock and the replay events of a view are not written either.\<close>

definition wf_cluster_view :: "cluster_view \<Rightarrow> bool" where
  "wf_cluster_view v \<longleftrightarrow> wf_vec wf_cluster_node (cv_nodes v) \<and>
     wf_vec wf_mesh (cv_mesh_envelopes v) \<and> wf_vec wf_message (cv_transport_queue v) \<and>
     cv_clock v = [] \<and> cv_replay_events v = []"

context framed
begin

lemma vec_iff:
  "wf_vec wf xs \<Longrightarrow> wf_vec wf ys \<Longrightarrow> write_vec wr xs @ r = write_vec wr ys @ s \<longleftrightarrow> xs = ys \<and> r = s"
  using frame_vec by (auto simp: wf_vec_def)

end

lemma code_inj:
  "root_status_code a = root_status_code b \<longleftrightarrow> a = b" "sync_status_code c = sync_status_code d \<longleftrightarrow> c = d"
  by (cases a; cases b; simp) (cases c; cases d; simp)

lemmas array_frames = array_frame [where n = 32] array_frame [where n = 64] array_frame [where n = 128]

interpretation epoch_fr: framed serialize_epoch_state wf_epoch
proof
  fix x y r s
  assume "wf_epoch x" "wf_epoch y" "serialize_epoch_state x @ r = serialize_epoch_state y @ s"
  then show "x = y \<and> r = s"
    by (cases x; cases y) (simp add: serialize_epoch_state_def wf_epoch_def array_frames)
qed

interpretation root_fr: framed serialize_state_root wf_root
proof
  fix x y r s
  assume "wf_root x" "wf_root y" "serialize_state_root x @ r = serialize_state_root y @ s"
  then show "x = y \<and> r = s"
    by (cases x; cases y) (simp add: serialize_state_root_def wf_root_def array_frames)
qed

interpretation recovery_fr: framed serialize_recovery_payload wf_recovery
proof
  fix x y r s
  assume "wf_recovery x" "wf_recovery y" "serialize_recovery_payload x @ r = serialize_recovery_payload y @ s"
  then show "x = y \<and> r = s"
    by (cases x; cases y) (simp add: serialize_recovery_payload_def wf_recovery_def array_frames)
qed

interpretation context_fr: framed serialize_execution_context wf_context
proof
  fix x y r s
  assume "wf_context x" "wf_context y" "serialize_execution_context x @ r = serialize_execution_context y @ s"
  then show "x = y \<and> r = s"
    by (cases x; cases y) (simp add: serialize_execution_context_def wf_context_def array_frames)
qed

interpretation envelope_fr: framed serialize_execution_envelope wf_envelope
proof
  fix x y r s
  assume "wf_envelope x" "wf_envelope y" "serialize_execution_envelope x @ r = serialize_execution_envelope y @ s"
  then show "x = y \<and> r = s"
    by (cases x; cases y) (simp add: serialize_execution_envelope_def wf_envelope_def array_frames context_fr.frame_iff)
qed

interpretation engine_fr: framed serialize_engine_state wf_engine
proof
  fix x y r s
  assume "wf_engine x" "wf_engine y" "serialize_engine_state x @ r = serialize_engine_state y @ s"
  then show "x = y \<and> r = s"
    by (cases x; cases y) (simp add: serialize_engine_state_def wf_engine_def array_frames epoch_fr.frame_iff root_fr.frame_iff
      recovery_fr.frame_iff context_fr.frame_iff)
qed

interpretation summary_fr: framed serialize_gossip_summary wf_summary
proof
  fix x y r s
  assume "wf_summary x" "wf_summary y" "serialize_gossip_summary x @ r = serialize_gossip_summary y @ s"
  then show "x = y \<and> r = s"
    by (cases x; cases y) (simp add: serialize_gossip_summary_def wf_summary_def array_frames)
qed

interpretation gossip_fr: framed serialize_gossip_envelope wf_gossip
proof
  fix x y r s
  assume "wf_gossip x" "wf_gossip y" "serialize_gossip_envelope x @ r = serialize_gossip_envelope y @ s"
  then show "x = y \<and> r = s"
    by (cases x; cases y) (simp add: serialize_gossip_envelope_def wf_gossip_def array_frames summary_fr.frame_iff)
qed

interpretation sync_fr: framed serialize_peer_sync_state wf_sync
proof
  fix x y r s
  assume "wf_sync x" "wf_sync y" "serialize_peer_sync_state x @ r = serialize_peer_sync_state y @ s"
  then show "x = y \<and> r = s"
    by (cases x; cases y) (simp add: serialize_peer_sync_state_def wf_sync_def array_frames envelope_fr.frame_iff gossip_fr.frame_iff code_inj)
qed

interpretation mesh_epoch_fr: framed serialize_mesh_epoch wf_mesh_epoch
proof
  fix x y r s
  assume "wf_mesh_epoch x" "wf_mesh_epoch y" "serialize_mesh_epoch x @ r = serialize_mesh_epoch y @ s"
  then show "x = y \<and> r = s"
    by (cases x; cases y) (simp add: serialize_mesh_epoch_def wf_mesh_epoch_def array_frames)
qed

interpretation mesh_anchor_fr: framed serialize_mesh_anchor wf_mesh_anchor
proof
  fix x y r s
  assume "wf_mesh_anchor x" "wf_mesh_anchor y" "serialize_mesh_anchor x @ r = serialize_mesh_anchor y @ s"
  then show "x = y \<and> r = s"
    by (cases x; cases y) (simp add: serialize_mesh_anchor_def wf_mesh_anchor_def array_frames mesh_epoch_fr.frame_iff)
qed

interpretation mesh_fr: framed serialize_mesh_prop_envelope wf_mesh
proof
  fix x y r s
  assume "wf_mesh x" "wf_mesh y" "serialize_mesh_prop_envelope x @ r = serialize_mesh_prop_envelope y @ s"
  then show "x = y \<and> r = s"
    by (cases x; cases y) (simp add: serialize_mesh_prop_envelope_def wf_mesh_def array_frames mesh_anchor_fr.frame_iff)
qed

interpretation message_fr: framed serialize_transport_message wf_message
proof
  fix x y r s
  assume "wf_message x" "wf_message y" "serialize_transport_message x @ r = serialize_transport_message y @ s"
  then show "x = y \<and> r = s"
    by (cases x; cases y) (simp add: serialize_transport_message_def wf_message_def array_frames)
qed

lemma coherence_frame:
  "serialize_coherence_summary x @ r = serialize_coherence_summary y @ s \<longleftrightarrow> x = y \<and> r = s"
  by (cases x; cases y) (simp add: serialize_coherence_summary_def)

interpretation node_fr: framed serialize_node wf_cluster_node
proof
  fix x y r s
  assume "wf_cluster_node x" "wf_cluster_node y" "serialize_node x @ r = serialize_node y @ s"
  then show "x = y \<and> r = s"
    by (cases x; cases y) (simp add: serialize_node_def wf_cluster_node_def array_frames engine_fr.frame_iff envelope_fr.frame_iff
      summary_fr.frame_iff sync_fr.vec_iff code_inj)
qed

interpretation view_fr: framed serialize_cluster_view wf_cluster_view
proof
  fix x y r s
  assume "wf_cluster_view x" "wf_cluster_view y" "serialize_cluster_view x @ r = serialize_cluster_view y @ s"
  then show "x = y \<and> r = s"
    by (cases x; cases y) (simp add: serialize_cluster_view_def wf_cluster_view_def array_frames node_fr.vec_iff mesh_fr.vec_iff
      message_fr.vec_iff coherence_frame)
qed

text \<open>The part of a view the image depends on.\<close>

definition covered_sync :: "peer_sync_state \<Rightarrow> peer_sync_state" where
  "covered_sync s = s\<lparr>ps_remote_envelope := (ps_remote_envelope s)\<lparr>ge_flags := 0\<rparr>\<rparr>"

definition covered_node :: "cluster_node \<Rightarrow> cluster_node" where
  "covered_node n = n\<lparr>cn_peer_sync_states := map covered_sync (cn_peer_sync_states n)\<rparr>"

definition covered :: "cluster_view \<Rightarrow> cluster_view" where
  "covered v = v\<lparr>cv_nodes := map covered_node (cv_nodes v), cv_clock := [], cv_replay_events := []\<rparr>"

lemma write_vec_map: "(\<And>x. wr (f x) = wr x) \<Longrightarrow> write_vec wr (map f xs) = write_vec wr xs"
  by (simp add: write_vec_def comp_def)

lemma serialize_covered: "serialize_cluster_view (covered v) = serialize_cluster_view v"
proof -
  have "serialize_peer_sync_state (covered_sync s) = serialize_peer_sync_state s" for s
    by (simp add: covered_sync_def serialize_peer_sync_state_def serialize_gossip_envelope_def)
  then have "serialize_node (covered_node n) = serialize_node n" for n
    by (simp add: covered_node_def serialize_node_def write_vec_map)
  then show ?thesis by (simp add: covered_def serialize_cluster_view_def write_vec_map)
qed

lemma federation_image_inj:
  assumes "wf_vec wf_cluster_view (map covered (fv_cluster_views f))"
    and "wf_vec wf_cluster_view (map covered (fv_cluster_views g))"
    and "federation_image oob f = federation_image oob g"
  shows "map covered (fv_cluster_views f) = map covered (fv_cluster_views g) \<and>
    fv_in_flight f = fv_in_flight g \<and> fv_delivered f = fv_delivered g \<and> fv_pending f = fv_pending g \<and>
    double_to_fixed oob (fv_average_coherence f) = double_to_fixed oob (fv_average_coherence g) \<and>
    double_to_fixed oob (fv_min_coherence f) = double_to_fixed oob (fv_min_coherence g) \<and>
    double_to_fixed oob (fv_max_coherence f) = double_to_fixed oob (fv_max_coherence g)"
proof -
  have img: "federation_image oob f = write_vec serialize_cluster_view (map covered (fv_cluster_views f)) @
     le_bytes 8 (fv_in_flight f) @ le_bytes 8 (fv_delivered f) @ le_bytes 8 (fv_pending f) @
     le_bytes 8 (double_to_fixed oob (fv_average_coherence f)) @
     le_bytes 8 (double_to_fixed oob (fv_min_coherence f)) @
     le_bytes 8 (double_to_fixed oob (fv_max_coherence f))" for f
    by (simp add: federation_image_def write_vec_map serialize_covered)
  show ?thesis
    using assms(3) unfolding img view_fr.vec_iff [OF assms(1,2)] by (simp add: le_bytes_64_inj)
qed

lemma state_root_parts:
  assumes "\<And>b. length (sha b) = 32"
    and "build_state_root sha oob ts f = build_state_root sha oob us g"
    and inj: "\<And>x y. sha x = sha y \<Longrightarrow> x = y"
  shows "replay_hash sha ts = replay_hash sha us" "federation_image oob f = federation_image oob g"
proof -
  have len: "length (replay_hash sha ts) = 32" for ts by (simp add: replay_hash_def assms(1))
  have "replay_hash sha ts @ sha (federation_image oob f) @ write_u64_be (cast_u64 oob (fv_average_coherence f)) =
      replay_hash sha us @ sha (federation_image oob g) @ write_u64_be (cast_u64 oob (fv_average_coherence g))"
    using inj [OF assms(2) [unfolded build_state_root_def Let_def]] by simp
  then show "replay_hash sha ts = replay_hash sha us" "federation_image oob f = federation_image oob g"
    using len assms(1) by (auto simp: array_frame [where n = 32] dest: inj)
qed


definition empty_federation :: federation_view where
  "empty_federation = \<lparr>fv_cluster_views = [], fv_in_flight = 0, fv_delivered = 0, fv_pending = 0,
     fv_average_coherence = Fin 0, fv_min_coherence = Fin 0, fv_max_coherence = Fin 0\<rparr>"


end
