(* ===== verification/Zk_Backend.thy ===== *)
theory Zk_Backend
  imports Hex
begin

text \<open>
  Proof scheduling and the proving backends of level 6: \<open>src/l6/ZKMetadata.cpp\<close>,
  \<open>ZKMockBackend.cpp\<close>, \<open>Halo2Backend.cpp\<close>, \<open>PlonkBackend.cpp\<close>, \<open>ZKBackendFactory.cpp\<close>,
  \<open>ZKDeterministicValidator.cpp\<close>, \<open>ZKRecursionManager.cpp\<close>, \<open>ProofScheduling.cpp\<close>,
  \<open>DeterministicEpochAnchoring.cpp\<close>, \<open>ParameterGovernor.cpp\<close>, \<open>AnchorZKMetadata.cpp\<close>,
  \<open>AnchorSerializer.cpp\<close>, \<open>AnchorVerifier.cpp\<close>, \<open>OnChainReplayVerifier.cpp\<close> and
  \<open>ZKOrchestrationManager.cpp\<close>. SHA-256 is the parameter \<open>sha\<close>; a backend is the record of its
  four functions, so that a caller may bring its own. Log lines are left out.
\<close>

section \<open>Statements and proofs\<close>

record zk_constraint_set =
  cs_id :: string
  num_constraints :: u64

record zk_transcript =
  tr_id :: string
  num_rounds :: u64

record zk_proof_metadata =
  zp_proof_id :: string
  zp_constraint_set_id :: string
  zp_transcript_id :: string
  zp_logical_size_bytes :: u64

record zk_proof_artifact =
  za_metadata :: zk_proof_metadata
  za_proof_bytes :: bytes

record zk_recursion_bundle =
  zr_previous_proof_artifact :: zk_proof_artifact
  zr_previous_state_root :: string
  zr_previous_epoch_id :: u64

definition constraint_bytes :: "zk_constraint_set \<Rightarrow> bytes" where
  "constraint_bytes c = str_bytes (cs_id c) @ le_bytes 8 (num_constraints c)"

definition transcript_bytes :: "zk_transcript \<Rightarrow> bytes" where
  "transcript_bytes t = str_bytes (tr_id t) @ le_bytes 8 (num_rounds t)"

definition proof_metadata_bytes :: "zk_proof_metadata \<Rightarrow> bytes" where
  "proof_metadata_bytes m = str_bytes (zp_proof_id m) @ str_bytes (zp_constraint_set_id m) @
     str_bytes (zp_transcript_id m) @ le_bytes 8 (zp_logical_size_bytes m)"

definition artifact_bytes :: "zk_proof_artifact \<Rightarrow> bytes" where
  "artifact_bytes a = proof_metadata_bytes (za_metadata a) @ za_proof_bytes a"

definition recursion_bytes :: "zk_recursion_bundle \<Rightarrow> bytes" where
  "recursion_bytes b = artifact_bytes (zr_previous_proof_artifact b) @
     str_bytes (zr_previous_state_root b) @ le_bytes 8 (zr_previous_epoch_id b)"

section \<open>Backends\<close>

datatype zk_backend_type = MOCK | HALO2_NATIVE | PLONK_NATIVE

record zk_backend_config =
  bc_type :: zk_backend_type
  bc_circuit_id :: string
  bc_circuit_path :: string
  bc_proving_key_path :: string
  bc_verification_key_path :: string

text \<open>A thrown exception is its message.\<close>

record zk_backend =
  generate_proof :: "zk_backend_config \<Rightarrow> zk_constraint_set \<Rightarrow> zk_transcript \<Rightarrow> zk_proof_artifact"
  verify_proof :: "zk_backend_config \<Rightarrow> zk_proof_artifact \<Rightarrow> zk_constraint_set \<Rightarrow> zk_transcript \<Rightarrow> bool"
  generate_recursive_proof :: "zk_backend_config \<Rightarrow> zk_constraint_set \<Rightarrow> zk_transcript \<Rightarrow>
    zk_recursion_bundle \<Rightarrow> string + zk_proof_artifact"
  verify_recursive_proof :: "zk_backend_config \<Rightarrow> zk_proof_artifact \<Rightarrow> zk_constraint_set \<Rightarrow>
    zk_transcript \<Rightarrow> zk_recursion_bundle \<Rightarrow> string + bool"

definition compute_mock_proof_bytes ::
    "(bytes \<Rightarrow> bytes) \<Rightarrow> string \<Rightarrow> zk_constraint_set \<Rightarrow> zk_transcript \<Rightarrow> bytes" where
  "compute_mock_proof_bytes sha circuit_id cs tr =
     sha (constraint_bytes cs @ transcript_bytes tr @ str_bytes circuit_id)"

definition compute_mock_recursive_proof_bytes ::
    "(bytes \<Rightarrow> bytes) \<Rightarrow> string \<Rightarrow> zk_constraint_set \<Rightarrow> zk_transcript \<Rightarrow> zk_recursion_bundle \<Rightarrow> bytes" where
  "compute_mock_recursive_proof_bytes sha circuit_id cs tr b =
     sha (constraint_bytes cs @ transcript_bytes tr @ str_bytes circuit_id @ recursion_bytes b)"

definition mock_artifact :: "bytes \<Rightarrow> zk_constraint_set \<Rightarrow> zk_transcript \<Rightarrow> zk_proof_artifact" where
  "mock_artifact pb cs tr =
     \<lparr>za_metadata = \<lparr>zp_proof_id = hex_of pb, zp_constraint_set_id = cs_id cs,
        zp_transcript_id = tr_id tr, zp_logical_size_bytes = of_nat (length pb)\<rparr>,
      za_proof_bytes = pb\<rparr>"

definition mock_backend :: "(bytes \<Rightarrow> bytes) \<Rightarrow> zk_backend" where
  "mock_backend sha =
     \<lparr>generate_proof = (\<lambda>cfg cs tr.
        mock_artifact (compute_mock_proof_bytes sha (bc_circuit_id cfg) cs tr) cs tr),
      verify_proof = (\<lambda>cfg a cs tr.
        compute_mock_proof_bytes sha (bc_circuit_id cfg) cs tr = za_proof_bytes a \<and>
        zp_proof_id (za_metadata a) = hex_of (za_proof_bytes a)),
      generate_recursive_proof = (\<lambda>cfg cs tr b.
        if za_proof_bytes (zr_previous_proof_artifact b) = []
        then Inl ''ZKMockBackend: previous proof artifact is empty for recursive proof generation.''
        else Inr (mock_artifact
          (compute_mock_recursive_proof_bytes sha (bc_circuit_id cfg) cs tr b) cs tr)),
      verify_recursive_proof = (\<lambda>cfg a cs tr b.
        Inr (compute_mock_recursive_proof_bytes sha (bc_circuit_id cfg) cs tr b = za_proof_bytes a \<and>
        zp_proof_id (za_metadata a) = hex_of (za_proof_bytes a)))\<rparr>"

definition compute_hash_hex :: "(bytes \<Rightarrow> bytes) \<Rightarrow> bytes \<Rightarrow> string" where
  "compute_hash_hex sha d = (if d = [] then [] else hex_of (sha d))"

definition build_deterministic_input :: "string \<Rightarrow> zk_constraint_set \<Rightarrow> zk_transcript \<Rightarrow> bytes" where
  "build_deterministic_input circuit_id cs tr =
     constraint_bytes cs @ transcript_bytes tr @ str_bytes circuit_id"

text \<open>The two native stubs differ in the messages of their exceptions only.\<close>

definition native_backend :: "string \<Rightarrow> (bytes \<Rightarrow> bytes) \<Rightarrow> zk_backend" where
  "native_backend name sha =
     \<lparr>generate_proof = (\<lambda>cfg cs tr.
        let proof_bytes = sha (build_deterministic_input (bc_circuit_id cfg) cs tr) in
        \<lparr>za_metadata = \<lparr>zp_proof_id = compute_hash_hex sha proof_bytes,
           zp_constraint_set_id = cs_id cs, zp_transcript_id = tr_id tr,
           zp_logical_size_bytes = of_nat (length proof_bytes)\<rparr>,
         za_proof_bytes = proof_bytes\<rparr>),
      verify_proof = (\<lambda>cfg a cs tr.
        za_proof_bytes a = sha (build_deterministic_input (bc_circuit_id cfg) cs tr) \<and>
        zp_proof_id (za_metadata a) = compute_hash_hex sha (za_proof_bytes a)),
      generate_recursive_proof = (\<lambda>_ _ _ _.
        Inl (name @ '': Native stub recursive proof generation not yet implemented.'')),
      verify_recursive_proof = (\<lambda>_ _ _ _ _.
        Inl (name @ '': Native stub recursive proof validation not yet implemented.''))\<rparr>"

definition halo2_backend :: "(bytes \<Rightarrow> bytes) \<Rightarrow> zk_backend" where
  "halo2_backend = native_backend ''Halo2Backend''"

definition plonk_backend :: "(bytes \<Rightarrow> bytes) \<Rightarrow> zk_backend" where
  "plonk_backend = native_backend ''PlonkBackend''"

definition make_backend :: "(bytes \<Rightarrow> bytes) \<Rightarrow> zk_backend_config \<Rightarrow> zk_backend" where
  "make_backend sha cfg =
     (case bc_type cfg of MOCK \<Rightarrow> mock_backend sha | HALO2_NATIVE \<Rightarrow> halo2_backend sha
      | PLONK_NATIVE \<Rightarrow> plonk_backend sha)"

section \<open>Metadata validation\<close>

datatype zk_status = OK | CONSTRAINT_MISMATCH | TRANSCRIPT_MISMATCH | EMPTY_CONSTRAINTS | EMPTY_TRANSCRIPT

fun zk_status_code :: "zk_status \<Rightarrow> u8" where
  "zk_status_code OK = 0"
| "zk_status_code CONSTRAINT_MISMATCH = 1"
| "zk_status_code TRANSCRIPT_MISMATCH = 2"
| "zk_status_code EMPTY_CONSTRAINTS = 3"
| "zk_status_code EMPTY_TRANSCRIPT = 4"

record zk_check =
  zc_status :: zk_status
  zc_proof_id :: string
  zc_constraint_set_id :: string
  zc_transcript_id :: string

definition validate_zk_metadata ::
    "zk_proof_metadata \<Rightarrow> zk_constraint_set \<Rightarrow> zk_transcript \<Rightarrow> zk_check" where
  "validate_zk_metadata pm cs tr =
     \<lparr>zc_status =
        (if num_constraints cs = 0 then EMPTY_CONSTRAINTS
         else if num_rounds tr = 0 then EMPTY_TRANSCRIPT
         else if zp_constraint_set_id pm \<noteq> cs_id cs then CONSTRAINT_MISMATCH
         else if zp_transcript_id pm \<noteq> tr_id tr then TRANSCRIPT_MISMATCH
         else OK),
      zc_proof_id = zp_proof_id pm, zc_constraint_set_id = zp_constraint_set_id pm,
      zc_transcript_id = zp_transcript_id pm\<rparr>"

definition build_recursion_bundle ::
    "zk_proof_artifact \<Rightarrow> string \<Rightarrow> u64 \<Rightarrow> string \<Rightarrow> u64 \<Rightarrow> string + zk_recursion_bundle" where
  "build_recursion_bundle prev_artifact prev_root prev_epoch current_root current_epoch =
     (if prev_epoch + 1 \<noteq> current_epoch then Inl ''ZKRecursionManager: Epoch continuity violated.''
      else if prev_root \<noteq> current_root
      then Inl ''ZKRecursionManager: State root continuity violated.''
      else Inr \<lparr>zr_previous_proof_artifact = prev_artifact, zr_previous_state_root = prev_root,
                zr_previous_epoch_id = prev_epoch\<rparr>)"

section \<open>Plans\<close>

datatype anchor_decision = SKIP_ANCHOR | ANCHOR
datatype proof_decision = SKIP_PROOF | ATTACH_PROOF

record anchor_plan =
  apl_decision :: anchor_decision
  apl_epoch_id :: u64
  apl_anchor_cycle_id :: u64

definition compute_anchor_plan :: "u64 \<Rightarrow> u64 \<Rightarrow> anchor_plan" where
  "compute_anchor_plan epoch_id anchor_interval =
     (if anchor_interval = 0
      then \<lparr>apl_decision = SKIP_ANCHOR, apl_epoch_id = epoch_id, apl_anchor_cycle_id = 0\<rparr>
      else \<lparr>apl_decision =
              (if epoch_id > 0 \<and> epoch_id mod anchor_interval = 0 then ANCHOR else SKIP_ANCHOR),
            apl_epoch_id = epoch_id, apl_anchor_cycle_id = epoch_id div anchor_interval\<rparr>)"

record proof_scheduling_config =
  proof_interval_epochs :: u64
  max_proof_window_size :: u64

record proof_plan =
  ppl_decision :: proof_decision
  ppl_epoch_id :: u64
  ppl_proof_cycle_id :: u64

definition compute_proof_plan :: "u64 \<Rightarrow> proof_scheduling_config \<Rightarrow> proof_plan" where
  "compute_proof_plan epoch_id cfg =
     (if proof_interval_epochs cfg = 0
      then \<lparr>ppl_decision = SKIP_PROOF, ppl_epoch_id = epoch_id, ppl_proof_cycle_id = 0\<rparr>
      else \<lparr>ppl_decision =
              (if epoch_id mod proof_interval_epochs cfg = 0 then ATTACH_PROOF else SKIP_PROOF),
            ppl_epoch_id = epoch_id, ppl_proof_cycle_id = epoch_id div proof_interval_epochs cfg\<rparr>)"

record system_metrics =
  block_interval_ms :: u64
  mempool_size_bytes :: u64
  fee_rate_sat_per_vb :: u64
  anchor_latency_ms :: u64
  replay_cost_ms :: u64
  epoch_complexity_score :: u64

record parameter_adjustments =
  pa_anchor_interval :: u64
  pa_replay_window_size :: u64
  pa_payload_size_limit :: u64
  pa_epoch_duration_ms :: u64

definition clamp_u64 :: "u64 \<Rightarrow> u64 \<Rightarrow> u64 \<Rightarrow> u64" where
  "clamp_u64 lo hi x = (let y = (if x < lo then lo else x) in if y > hi then hi else y)"

definition adjust_parameters :: "system_metrics \<Rightarrow> parameter_adjustments" where
  "adjust_parameters m =
     (let p = \<lparr>pa_anchor_interval = 10, pa_replay_window_size = 32, pa_payload_size_limit = 4096,
               pa_epoch_duration_ms = 60000\<rparr>;
          p = (if block_interval_ms m > 650000
               then p\<lparr>pa_anchor_interval := pa_anchor_interval p + 1\<rparr> else p);
          p = (if mempool_size_bytes m > 100000000
               then p\<lparr>pa_epoch_duration_ms := pa_epoch_duration_ms p + 1000\<rparr> else p);
          p = (if fee_rate_sat_per_vb m > 50
               then p\<lparr>pa_payload_size_limit := pa_payload_size_limit p - 410\<rparr> else p);
          p = (if replay_cost_ms m > 2000
               then p\<lparr>pa_replay_window_size := pa_replay_window_size p - 1\<rparr> else p);
          p = (if epoch_complexity_score m > 1000
               then p\<lparr>pa_anchor_interval := pa_anchor_interval p + 1\<rparr> else p)
      in \<lparr>pa_anchor_interval = clamp_u64 5 100 (pa_anchor_interval p),
          pa_replay_window_size = clamp_u64 8 128 (pa_replay_window_size p),
          pa_payload_size_limit = clamp_u64 1024 8192 (pa_payload_size_limit p),
          pa_epoch_duration_ms = clamp_u64 30000 300000 (pa_epoch_duration_ms p)\<rparr>)"

section \<open>Anchor records\<close>

record l6_anchor_record =
  lr_version :: u8
  lr_replay_height :: u64
  lr_coherence_score :: u64
  lr_state_root :: bytes

definition encode_u64_be :: "u64 \<Rightarrow> bytes" where
  "encode_u64_be v = rev (le_bytes 8 v)"

definition decode_u64_be :: "bytes \<Rightarrow> u64" where
  "decode_u64_be b = le_word (rev (take 8 b))"

definition serialize_anchor :: "l6_anchor_record \<Rightarrow> bytes" where
  "serialize_anchor r = [lr_version r] @ encode_u64_be (lr_replay_height r) @
     encode_u64_be (lr_coherence_score r) @ lr_state_root r"

definition deserialize_anchor :: "bytes \<Rightarrow> l6_anchor_record option" where
  "deserialize_anchor b =
     (if length b \<noteq> 49 then None
      else Some \<lparr>lr_version = b ! 0, lr_replay_height = decode_u64_be (drop 1 b),
                 lr_coherence_score = decode_u64_be (drop 9 b), lr_state_root = drop 17 b\<rparr>)"

text \<open>\<open>AnchorVerifier::verify\<close>; the current state is what a federation anchors.\<close>

record anchor_state =
  as_state_root :: bytes
  as_replay_height :: u64
  as_coherence_score :: u64

definition verify_anchor_state :: "l6_anchor_record \<Rightarrow> anchor_state \<Rightarrow> bool" where
  "verify_anchor_state r c \<longleftrightarrow> lr_replay_height r = as_replay_height c \<and>
     lr_coherence_score r = as_coherence_score c \<and> lr_state_root r = as_state_root c"

datatype replay_status = REPLAY_OK | MISMATCH | MISSING_ANCHOR

record replay_verdict =
  rv_status :: replay_status
  rv_epoch_id :: u64
  rv_local_hash :: string
  rv_anchor_hash :: string

definition verify_epoch_against_anchor :: "u64 \<Rightarrow> string \<Rightarrow> string option \<Rightarrow> replay_verdict" where
  "verify_epoch_against_anchor epoch_id local_hash anchor =
     (let v = (\<lambda>s h. \<lparr>rv_status = s, rv_epoch_id = epoch_id, rv_local_hash = local_hash,
                     rv_anchor_hash = h\<rparr>) in
      case anchor of None \<Rightarrow> v MISSING_ANCHOR []
      | Some h \<Rightarrow> if local_hash \<noteq> h then v MISMATCH h else v REPLAY_OK h)"

section \<open>Orchestration of one epoch\<close>

record zk_anchor_metadata =
  zm_proof_id :: string
  zm_constraint_set_id :: string
  zm_transcript_id :: string
  zm_validation_status :: zk_status

record anchor_payload =
  ay_epoch_id :: u64
  ay_state_root_hash :: string
  ay_zk_metadata :: zk_anchor_metadata
  ay_proof_commitment_hash :: string

definition anchor_metadata_bytes :: "zk_anchor_metadata \<Rightarrow> bytes" where
  "anchor_metadata_bytes m = str_bytes (zm_proof_id m) @ str_bytes (zm_constraint_set_id m) @
     str_bytes (zm_transcript_id m) @ [zk_status_code (zm_validation_status m)]"

definition payload_bytes :: "anchor_payload \<Rightarrow> bytes" where
  "payload_bytes p = le_bytes 8 (ay_epoch_id p) @ str_bytes (ay_state_root_hash p) @
     anchor_metadata_bytes (ay_zk_metadata p) @ str_bytes (ay_proof_commitment_hash p)"

record orchestration_context =
  oc_epoch_id :: u64
  oc_anchor_plan :: anchor_plan
  oc_proof_plan :: proof_plan

record orchestration_result =
  or_anchor_payload :: anchor_payload
  or_should_anchor :: bool
  or_should_attach_proof :: bool

definition empty_zk_metadata :: "zk_status \<Rightarrow> zk_anchor_metadata" where
  "empty_zk_metadata s =
     \<lparr>zm_proof_id = [], zm_constraint_set_id = [], zm_transcript_id = [], zm_validation_status = s\<rparr>"

text \<open>The metadata and the commitment of the proof part.\<close>

definition attach_proof ::
    "(bytes \<Rightarrow> bytes) \<Rightarrow> zk_backend option \<Rightarrow> zk_backend_config \<Rightarrow> zk_constraint_set option \<Rightarrow>
     zk_transcript option \<Rightarrow> bool \<Rightarrow> zk_anchor_metadata \<times> string" where
  "attach_proof sha backend cfg constraints transcript scheduling_says_attach =
     (case backend of
        None \<Rightarrow> (empty_zk_metadata OK, [])
      | Some B \<Rightarrow>
          if \<not> scheduling_says_attach then (empty_zk_metadata OK, [])
          else case (constraints, transcript) of
            (Some cs, Some tr) \<Rightarrow>
              let artifact = generate_proof B cfg cs tr;
                  check = validate_zk_metadata (za_metadata artifact) cs tr;
                  verified = verify_proof B cfg artifact cs tr
              in if zc_status check = OK \<and> verified
                 then (\<lparr>zm_proof_id = zp_proof_id (za_metadata artifact),
                        zm_constraint_set_id = zp_constraint_set_id (za_metadata artifact),
                        zm_transcript_id = zp_transcript_id (za_metadata artifact),
                        zm_validation_status = OK\<rparr>,
                       compute_hash_hex sha (za_proof_bytes artifact))
                 else (empty_zk_metadata (if zc_status check \<noteq> OK then zc_status check
                                          else CONSTRAINT_MISMATCH), [])
          | (cso, _) \<Rightarrow>
              (empty_zk_metadata (if cso = None then EMPTY_CONSTRAINTS else EMPTY_TRANSCRIPT), []))"

definition orchestrate_epoch ::
    "(bytes \<Rightarrow> bytes) \<Rightarrow> orchestration_context \<Rightarrow> zk_backend option \<Rightarrow> zk_backend_config \<Rightarrow>
     zk_constraint_set option \<Rightarrow> zk_transcript option \<Rightarrow> string \<Rightarrow> orchestration_result" where
  "orchestrate_epoch sha ctx backend cfg constraints transcript state_root_hash =
     (let attach = (ppl_decision (oc_proof_plan ctx) = ATTACH_PROOF);
          (zk_metadata, commitment) = attach_proof sha backend cfg constraints transcript attach
      in \<lparr>or_anchor_payload = \<lparr>ay_epoch_id = oc_epoch_id ctx, ay_state_root_hash = state_root_hash,
            ay_zk_metadata = zk_metadata, ay_proof_commitment_hash = commitment\<rparr>,
          or_should_anchor = (apl_decision (oc_anchor_plan ctx) = ANCHOR),
          or_should_attach_proof = attach\<rparr>)"

end
