(* ===== verification/Federation.thy ===== *)
theory Federation
  imports Root_Image Scheduler_Props Zk_Backend
begin

text \<open>
  Several clusters in one simulation: \<open>src/l4/MultiClusterSim.cpp\<close>, \<open>ClusterFederationView.cpp\<close>
  and \<open>FederationConfig.cpp\<close>. A federation tick runs a full cycle of every cluster, moves
  envelopes between clusters, records the first cluster's view and anchors the state root of the
  federation. Parameters: \<open>sha\<close>, \<open>clk\<close>, \<open>qpad i\<close> and \<open>oob\<close> as in the cluster and the root;
  \<open>img\<close>, the memory of a view as the replay buffer copies it; \<open>js\<close>, the JSON export. The order
  of in-flight envelopes with equal context hashes, which \<open>std::sort\<close> leaves open, is kept.
\<close>

record federation_config =
  fc_cluster_count :: nat
  fc_cross_cluster_latency :: u64
  fc_routing_matrix :: "bool list list"

definition simple_config :: "nat \<Rightarrow> u64 \<Rightarrow> federation_config" where
  "simple_config clusters latency =
     \<lparr>fc_cluster_count = clusters, fc_cross_cluster_latency = latency,
      fc_routing_matrix = replicate clusters (replicate clusters True)\<rparr>"

record in_flight_envelope =
  fl_envelope :: execution_envelope
  fl_deliver_at_tick :: u64
  fl_target_cluster :: nat

record multi_cluster =
  mu_config :: federation_config
  mu_clusters :: "cluster_sim list"
  mu_federation_tick :: u64
  mu_in_flight :: "in_flight_envelope list"
  mu_federation_replay :: replay_buffer
  mu_anchor_state :: anchor_state

text \<open>The anchor state is not initialised by the constructor.\<close>

definition new_multi_cluster ::
    "(nat \<Rightarrow> replay_tick) \<Rightarrow> anchor_state \<Rightarrow> federation_config \<Rightarrow> multi_cluster" where
  "new_multi_cluster tick0 uninit cfg =
     \<lparr>mu_config = cfg, mu_clusters = map (\<lambda>i. new_cluster (tick0 i)) [0..<fc_cluster_count cfg],
      mu_federation_tick = 0, mu_in_flight = [], mu_federation_replay = new_replay_buffer,
      mu_anchor_state = uninit\<rparr>"

section \<open>The view\<close>

definition build_cluster_view :: "cluster_sim \<Rightarrow> cluster_view" where
  "build_cluster_view c = tk_view (cs_ticks c)"

definition coherence_of :: "cluster_view \<Rightarrow> double" where
  "coherence_of v = round_double (of_nat (unat (co_global_coherence_score (cv_coherence_summary v))))"

definition build_federation_view :: "cluster_sim list \<Rightarrow> in_flight_envelope list \<Rightarrow> federation_view" where
  "build_federation_view clusters in_flight =
     (let views = map build_cluster_view clusters;
          total = foldl (\<lambda>t v. d_add t (coherence_of v)) (Fin 0) views;
          mn = foldl (\<lambda>m v. d_min m (coherence_of v)) (Fin 100) views;
          mx = foldl (\<lambda>m v. d_max m (coherence_of v)) (Fin 0) views;
          n = of_nat (length in_flight)
      in \<lparr>fv_cluster_views = views, fv_in_flight = n, fv_delivered = 0, fv_pending = n,
          fv_average_coherence = (if clusters = [] then Fin 0
             else d_div total (round_double (of_nat (length clusters)))),
          fv_min_coherence = (if clusters = [] then Fin 0 else mn),
          fv_max_coherence = (if clusters = [] then Fin 0 else mx)\<rparr>)"

section \<open>A tick\<close>

definition deliver :: "u64 \<Rightarrow> cluster_sim list \<Rightarrow> in_flight_envelope list \<Rightarrow> cluster_sim list" where
  "deliver now clusters fl =
     foldl (\<lambda>cs e. if fl_deliver_at_tick e = now
        then cs[fl_target_cluster e := inject_envelope (fl_envelope e) (cs ! fl_target_cluster e)]
        else cs) clusters fl"

definition send_from ::
    "federation_config \<Rightarrow> u64 \<Rightarrow> nat \<Rightarrow> nat \<Rightarrow> execution_envelope list \<Rightarrow> in_flight_envelope list" where
  "send_from cfg now n i outgoing =
     concat (map (\<lambda>env. map (\<lambda>j. \<lparr>fl_envelope = env,
         fl_deliver_at_tick = now + fc_cross_cluster_latency cfg, fl_target_cluster = j\<rparr>)
       (filter (\<lambda>j. fc_routing_matrix cfg ! i ! j) [0..<n])) outgoing)"

definition propagate_cross_cluster :: "multi_cluster \<Rightarrow> multi_cluster" where
  "propagate_cross_cluster m =
     (let now = mu_federation_tick m;
          delivered = deliver now (mu_clusters m) (mu_in_flight m);
          kept = filter (\<lambda>e. fl_deliver_at_tick e \<noteq> now) (mu_in_flight m);
          n = length delivered;
          sent = concat (map (\<lambda>i. send_from (mu_config m) now n i
                    (fst (collect_outgoing_envelopes (delivered ! i)))) [0..<n])
      in m\<lparr>mu_clusters := map (\<lambda>c. snd (collect_outgoing_envelopes c)) delivered,
           mu_in_flight := sort_key (\<lambda>e. xc_context_hash (ee_context (fl_envelope e))) (kept @ sent)\<rparr>)"

definition run_federation_tick ::
    "(bytes \<Rightarrow> bytes) \<Rightarrow> (clock_state \<Rightarrow> bytes) \<Rightarrow> (nat \<Rightarrow> bytes) \<Rightarrow> (double \<Rightarrow> u64) \<Rightarrow>
     (cluster_view \<Rightarrow> view_image) \<Rightarrow> (nat \<Rightarrow> replay_tick \<Rightarrow> string) \<Rightarrow> multi_cluster \<Rightarrow>
     string + multi_cluster" where
  "run_federation_tick sha clk qpad oob img js m =
     (let m1 = m\<lparr>mu_clusters := map (\<lambda>i. run_cluster_cycle sha clk (qpad i) (mu_clusters m ! i))
                    [0..<length (mu_clusters m)]\<rparr>;
          m2 = propagate_cross_cluster m1;
          view = build_federation_view (mu_clusters m2) (mu_in_flight m2);
          (res, replay) = (case fv_cluster_views view of
             [] \<Rightarrow> (Inr (), mu_federation_replay m2)
           | v # _ \<Rightarrow> record_tick js (replicate sizeof_scheduler_state 0) (img v)
                        (replicate sizeof_telemetry 0) (mu_federation_replay m2))
      in case res of
           Inl e \<Rightarrow> Inl e
         | Inr _ \<Rightarrow> Inr (m2\<lparr>mu_federation_replay := replay,
             mu_anchor_state := \<lparr>as_state_root = build_state_root sha oob (compressed_ticks replay) view,
               as_replay_height = mu_federation_tick m2,
               as_coherence_score = cast_u64 oob (fv_average_coherence view)\<rparr>,
             mu_federation_tick := mu_federation_tick m2 + 1\<rparr>))"

fun run_federation ::
    "(bytes \<Rightarrow> bytes) \<Rightarrow> (clock_state \<Rightarrow> bytes) \<Rightarrow> (nat \<Rightarrow> bytes) \<Rightarrow> (double \<Rightarrow> u64) \<Rightarrow>
     (cluster_view \<Rightarrow> view_image) \<Rightarrow> (nat \<Rightarrow> replay_tick \<Rightarrow> string) \<Rightarrow> nat \<Rightarrow> multi_cluster \<Rightarrow>
     string + multi_cluster" where
  "run_federation sha clk qpad oob img js 0 m = Inr m"
| "run_federation sha clk qpad oob img js (Suc k) m =
     bindE (run_federation sha clk qpad oob img js k m) (run_federation_tick sha clk qpad oob img js)"

section \<open>Clusters run alone\<close>

text \<open>The clusters after \<open>k\<close> ticks are what each would be by itself.\<close>

definition alone :: "(bytes \<Rightarrow> bytes) \<Rightarrow> (clock_state \<Rightarrow> bytes) \<Rightarrow> (nat \<Rightarrow> bytes) \<Rightarrow> (nat \<Rightarrow> replay_tick) \<Rightarrow>
    nat \<Rightarrow> nat \<Rightarrow> cluster_sim" where
  "alone sha clk qpad tick0 k i = (run_cluster_cycle sha clk (qpad i) ^^ k) (new_cluster (tick0 i))"

lemma alone_boxes: "cs_outbox (alone sha clk qpad tick0 k i) = []"
  by (induction k) (simp_all add: alone_def new_cluster_def run_cluster_cycle_def Let_def)

lemma alone_Suc:
  "run_cluster_cycle sha clk (qpad i) (alone sha clk qpad tick0 k i) = alone sha clk qpad tick0 (Suc k) i"
  by (simp add: alone_def)

lemma send_from_nothing: "send_from cfg now n i [] = []"
  by (simp add: send_from_def)

lemma propagate_quiet:
  assumes "list_all (\<lambda>c. cs_outbox c = []) (mu_clusters m)" "mu_in_flight m = []"
  shows "propagate_cross_cluster m = m"
proof -
  let ?n = "length (mu_clusters m)"
  have "fst (collect_outgoing_envelopes (mu_clusters m ! i)) = []" if "i < ?n" for i
    using assms(1) that by (simp add: collect_outgoing_envelopes_def list_all_length)
  hence "map (\<lambda>i. send_from (mu_config m) (mu_federation_tick m) ?n i
      (fst (collect_outgoing_envelopes (mu_clusters m ! i)))) [0..<?n] = map (\<lambda>i. []) [0..<?n]"
    by (intro map_cong) (simp_all add: send_from_nothing)
  hence "concat (map (\<lambda>i. send_from (mu_config m) (mu_federation_tick m) ?n i
      (fst (collect_outgoing_envelopes (mu_clusters m ! i)))) [0..<?n]) = []"
    unfolding concat_eq_Nil_conv by auto
  moreover have "map (\<lambda>c. snd (collect_outgoing_envelopes c)) (mu_clusters m) = mu_clusters m"
    using assms(1) by (intro map_idI) (auto simp: collect_outgoing_envelopes_def list_all_iff)
  ultimately show ?thesis
    using assms(2) by (simp add: propagate_cross_cluster_def deliver_def Let_def del: concat_eq_Nil_conv)
qed

lemma run_federation_clusters:
  assumes "run_federation sha clk qpad oob img js k (new_multi_cluster tick0 uninit cfg) = Inr m"
  shows "mu_clusters m = map (alone sha clk qpad tick0 k) [0..<fc_cluster_count cfg] \<and>
    mu_in_flight m = [] \<and> mu_federation_tick m = of_nat k"
  using assms
proof (induction k arbitrary: m)
  case 0
  then show ?case by (auto simp: new_multi_cluster_def alone_def)
next
  case (Suc k)
  obtain p where p: "run_federation sha clk qpad oob img js k (new_multi_cluster tick0 uninit cfg) = Inr p"
      "run_federation_tick sha clk qpad oob img js p = Inr m"
    using Suc.prems by (auto simp: bindE_Inr)
  note ih = Suc.IH [OF p(1)]
  let ?cs = "map (alone sha clk qpad tick0 (Suc k)) [0..<fc_cluster_count cfg]"
  have cycle: "map (\<lambda>i. run_cluster_cycle sha clk (qpad i) (mu_clusters p ! i)) [0..<length (mu_clusters p)] = ?cs"
    using ih by (simp add: alone_Suc)
  have quiet: "propagate_cross_cluster (p\<lparr>mu_clusters := ?cs\<rparr>) = p\<lparr>mu_clusters := ?cs\<rparr>"
    by (rule propagate_quiet) (use ih in \<open>auto simp: list_all_iff alone_boxes\<close>)
  show ?case
    using p(2) ih unfolding run_federation_tick_def cycle quiet Let_def
    by (auto simp: add.commute split: prod.splits sum.splits)
qed

lemma fed_tick_quiet: "fed_tick sha clk qpad schedule tk [] = run_tick sha clk qpad schedule tk"
  by (simp add: fed_tick_def)

lemma quiet_ticks:
  "(run_tick sha clk qpad schedule ^^ n) tk = foldl (fed_tick sha clk qpad schedule) tk (replicate n [])"
  by (induction n arbitrary: tk) (simp_all add: fed_tick_quiet funpow_swap1 del: funpow.simps(2) add: funpow_Suc_right)

lemma cycles_ticks:
  "cs_gossip_schedule ((run_cluster_cycle sha clk qpad ^^ k) c) = cs_gossip_schedule c \<and>
   cs_ticks ((run_cluster_cycle sha clk qpad ^^ k) c) =
     (run_tick sha clk qpad (cs_gossip_schedule c) ^^ (9 * k)) (cs_ticks c)"
proof (induction k)
  case (Suc k)
  have "9 * Suc k = 9 + 9 * k" by simp
  then show ?case
    using Suc by (simp only: funpow.simps(2) o_apply run_cluster_cycle_def funpow_add) simp
qed simp

lemma alone_coherent:
  assumes "0 < k" "9 * k < 2 ^ 64"
  shows "co_global_coherence_score (cv_coherence_summary (build_cluster_view
           (alone sha clk qpad tick0 k i))) = 100"
proof -
  let ?c = "new_cluster (tick0 i)"
  let ?feeds = "replicate (9 * k) ([] :: sync_op list)"
  have "ticked sha [1, 2, 3, 4] (length ?feeds)
      (foldl (fed_tick sha clk (qpad i) (cs_gossip_schedule ?c)) (cs_ticks ?c) ?feeds)"
    by (rule ticked_run [OF _ _ new_cluster_covers new_cluster_ticked]) (use assms(2) in simp_all)
  then show ?thesis
    using assms by (simp add: build_cluster_view_def alone_def cycles_ticks quiet_ticks ticked_def
        settled_def in_full_sync_def)
qed

lemma equal_scores_total:
  assumes "\<forall>v \<in> set vs. coherence_of v = Fin 100" "a + 100 * length vs < 2 ^ 53"
  shows "foldl (\<lambda>t v. d_add t (coherence_of v)) (Fin (of_nat a)) vs = Fin (of_nat (a + 100 * length vs))"
  using assms
proof (induction vs arbitrary: a)
  case (Cons v vs)
  have "d_add (Fin (of_nat a)) (coherence_of v) = Fin (of_nat (a + 100))"
    using d_add_nat [of a 100] Cons.prems by simp
  with Cons.IH [of "a + 100"] Cons.prems show ?case by (simp add: algebra_simps)
qed simp

lemma equal_scores_extremes:
  assumes "\<forall>v \<in> set vs. coherence_of v = Fin 100"
  shows "foldl (\<lambda>m v. d_min m (coherence_of v)) (Fin 100) vs = Fin 100"
    and "vs \<noteq> [] \<Longrightarrow> foldl (\<lambda>m v. d_max m (coherence_of v)) (Fin 0) vs = Fin 100"
proof -
  have top: "foldl (\<lambda>m v. d_max m (coherence_of v)) (Fin 100) us = Fin 100"
    if "\<forall>v \<in> set us. coherence_of v = Fin 100" for us
    using that by (induction us) (simp_all add: d_max_def)
  show "foldl (\<lambda>m v. d_min m (coherence_of v)) (Fin 100) vs = Fin 100"
    using assms by (induction vs) (simp_all add: d_min_def)
  show "vs \<noteq> [] \<Longrightarrow> foldl (\<lambda>m v. d_max m (coherence_of v)) (Fin 0) vs = Fin 100"
    using assms top by (cases vs) (simp_all add: d_max_def)
qed

lemma equal_scores_view:
  assumes "\<forall>c \<in> set cs. coherence_of (build_cluster_view c) = Fin 100" "cs \<noteq> []" "100 * length cs < 2 ^ 53"
  shows "fv_average_coherence (build_federation_view cs fl) = Fin 100 \<and>
    fv_min_coherence (build_federation_view cs fl) = Fin 100 \<and>
    fv_max_coherence (build_federation_view cs fl) = Fin 100"
proof -
  let ?vs = "map build_cluster_view cs"
  have vs: "\<forall>v \<in> set ?vs. coherence_of v = Fin 100" using assms(1) by simp
  have total: "foldl (\<lambda>t v. d_add t (coherence_of v)) (Fin 0) ?vs = Fin (of_nat (100 * length cs))"
    using equal_scores_total [OF vs, of 0] assms(3) by simp
  have n: "round_double (of_nat (length cs)) = Fin (of_nat (length cs))"
    by (rule round_double_nat) (use assms(3) in simp)
  have "round_double (100 :: rat) = Fin 100" using round_double_nat [of 100] by simp
  then have "d_div (Fin (of_nat (100 * length cs))) (Fin (of_nat (length cs))) = Fin 100"
    using assms(2) by (simp add: d_div_def Let_def)
  moreover have "?vs \<noteq> []" using assms(2) by simp
  ultimately show ?thesis
    using total n assms(2) equal_scores_extremes(1) [OF vs] equal_scores_extremes(2) [OF vs]
    by (simp add: build_federation_view_def Let_def)
qed


lemma run_federation_last:
  assumes "run_federation_tick sha clk qpad oob img js p = Inr m"
    and "propagate_cross_cluster (p\<lparr>mu_clusters := cs\<rparr>) = p\<lparr>mu_clusters := cs\<rparr>"
    and "map (\<lambda>i. run_cluster_cycle sha clk (qpad i) (mu_clusters p ! i)) [0..<length (mu_clusters p)] = cs"
  shows "as_replay_height (mu_anchor_state m) = mu_federation_tick p \<and>
    as_coherence_score (mu_anchor_state m) =
      cast_u64 oob (fv_average_coherence (build_federation_view cs (mu_in_flight p)))"
  using assms(1) unfolding run_federation_tick_def assms(2,3) Let_def
  by (auto split: prod.splits sum.splits)

text \<open>
  C30. A federation is its clusters side by side. Whatever the routing matrix and the latency, a
  federation that has run \<open>k + 1\<close> ticks consists of clusters in exactly the state each reaches
  alone; no envelope was ever in flight between them; every tick reports an average, minimum and
  maximum coherence of 100, and the anchor carries the score 100 at height \<open>k\<close>, one below the
  number of ticks.
\<close>

theorem federation_is_its_clusters:
  assumes "run_federation sha clk qpad oob img js (Suc k) (new_multi_cluster tick0 uninit cfg) = Inr m"
    and "0 < fc_cluster_count cfg" "100 * fc_cluster_count cfg < 2 ^ 53" "9 * Suc k < 2 ^ 64"
  shows "mu_clusters m = map (alone sha clk qpad tick0 (Suc k)) [0..<fc_cluster_count cfg] \<and>
    mu_in_flight m = [] \<and> mu_federation_tick m = of_nat (Suc k) \<and>
    fv_average_coherence (build_federation_view (mu_clusters m) (mu_in_flight m)) = Fin 100 \<and>
    fv_min_coherence (build_federation_view (mu_clusters m) (mu_in_flight m)) = Fin 100 \<and>
    fv_max_coherence (build_federation_view (mu_clusters m) (mu_in_flight m)) = Fin 100 \<and>
    as_replay_height (mu_anchor_state m) = of_nat k \<and> as_coherence_score (mu_anchor_state m) = 100"
proof -
  obtain p where p: "run_federation sha clk qpad oob img js k (new_multi_cluster tick0 uninit cfg) = Inr p"
      "run_federation_tick sha clk qpad oob img js p = Inr m"
    using assms(1) by (auto simp: bindE_Inr)
  note before = run_federation_clusters [OF p(1)] and after = run_federation_clusters [OF assms(1)]
  let ?cs = "map (alone sha clk qpad tick0 (Suc k)) [0..<fc_cluster_count cfg]"
  have "round_double (100 :: rat) = Fin 100" using round_double_nat [of 100] by simp
  then have scores: "\<forall>c \<in> set ?cs. coherence_of (build_cluster_view c) = Fin 100"
    using alone_coherent [OF _ assms(4)] by (auto simp: coherence_of_def)
  have view: "fv_average_coherence (build_federation_view ?cs []) = Fin 100 \<and>
      fv_min_coherence (build_federation_view ?cs []) = Fin 100 \<and>
      fv_max_coherence (build_federation_view ?cs []) = Fin 100"
    by (rule equal_scores_view [OF scores]) (use assms(2,3) in simp_all)
  have "propagate_cross_cluster (p\<lparr>mu_clusters := ?cs\<rparr>) = p\<lparr>mu_clusters := ?cs\<rparr>"
    by (rule propagate_quiet) (use before in \<open>auto simp: list_all_iff alone_boxes\<close>)
  then have "as_replay_height (mu_anchor_state m) = mu_federation_tick p \<and>
      as_coherence_score (mu_anchor_state m) = cast_u64 oob (fv_average_coherence
        (build_federation_view ?cs (mu_in_flight p)))"
    by (rule run_federation_last [OF p(2)]) (use before in \<open>simp add: alone_Suc\<close>)
  with before after view show ?thesis by (simp add: cast_u64_def)
qed

definition demo_img :: view_image where
  "demo_img = empty_view\<lparr>vi_nodes := [sample_node]\<rparr>"

lemma demo_img_records: "\<exists>b. record_tick js (replicate sizeof_scheduler_state 0) demo_img
    (replicate sizeof_telemetry 0) new_replay_buffer = (Inr (), b)"
proof -
  let ?t = "recorded_tick (replicate sizeof_scheduler_state 0) demo_img (replicate sizeof_telemetry 0)"
  have "wf_tick ?t \<and> length (serialize ?t) = 1964"
    by (simp add: demo_img_def recorded_tick_def wf_tick_def wf_view_def wf_node_def
        sample_node_def empty_view_def zero_clock_def image_lengths)
  then obtain d c where "compress_tick ?t (rb_compressor new_replay_buffer) = (Inr d, c)"
    using compress_fits [of ?t "rb_compressor new_replay_buffer"]
    by (auto simp: new_replay_buffer_def new_compressor_def default_config_def)
  then show ?thesis by (simp add: record_tick_def Let_def)
qed

lemma one_tick_runs:
  "\<exists>m. run_federation sha clk qpad oob (\<lambda>v. demo_img) js 1
     (new_multi_cluster tick0 uninit (simple_config 2 5)) = Inr m"
proof -
  let ?m = "new_multi_cluster tick0 uninit (simple_config 2 5)"
  obtain b where b: "record_tick js (replicate sizeof_scheduler_state 0) demo_img
      (replicate sizeof_telemetry 0) new_replay_buffer = (Inr (), b)"
    using demo_img_records [of js] ..
  have "mu_federation_replay (propagate_cross_cluster m) = mu_federation_replay m" for m
    by (simp add: propagate_cross_cluster_def Let_def)
  then show ?thesis
    using b by (cases "mu_clusters (propagate_cross_cluster (?m\<lparr>mu_clusters := map (\<lambda>i. run_cluster_cycle
          sha clk (qpad i) (mu_clusters ?m ! i)) [0..<length (mu_clusters ?m)]\<rparr>))")
      (simp_all add: run_federation_tick_def build_federation_view_def new_multi_cluster_def Let_def)
qed

theorem federation_is_its_clusters_witness:
  "\<forall>sha clk qpad oob js tick0 uninit. \<exists>m.
     run_federation sha clk qpad oob (\<lambda>v. demo_img) js 1
       (new_multi_cluster tick0 uninit (simple_config 2 5)) = Inr m \<and>
     length (mu_clusters m) = 2 \<and> as_replay_height (mu_anchor_state m) = 0 \<and>
     as_coherence_score (mu_anchor_state m) = 100"
proof (intro allI)
  fix sha clk qpad oob js tick0 uninit
  obtain m where m: "run_federation sha clk qpad oob (\<lambda>v. demo_img) js (Suc 0)
      (new_multi_cluster tick0 uninit (simple_config 2 5)) = Inr m"
    using one_tick_runs [of sha clk qpad oob js tick0 uninit] by auto
  from federation_is_its_clusters [OF m] m
  show "\<exists>m. run_federation sha clk qpad oob (\<lambda>v. demo_img) js 1
       (new_multi_cluster tick0 uninit (simple_config 2 5)) = Inr m \<and>
     length (mu_clusters m) = 2 \<and> as_replay_height (mu_anchor_state m) = 0 \<and>
     as_coherence_score (mu_anchor_state m) = 100"
    by (simp add: simple_config_def)
qed

end
