(* ===== verification/Json_Number.thy ===== *)
theory Json_Number
  imports IStream Double_Arith
begin

text \<open>
  Numbers in JSON text: \<open>operator<<\<close> of an output stream on a \<open>double\<close> (the default \<open>%g\<close> format,
  six significant digits) and \<open>std::stod\<close> on the characters that \<open>Parser::parse_number\<close> of
  \<open>include/nlohmann/json.hpp\<close> collects. The sign of a NaN is not kept. The main lemma bounds what
  a printed number loses.
\<close>

section \<open>Printing\<close>

text \<open>The decimal exponent of a positive number, and its first six digits rounded half to even.\<close>

definition dec_exp :: "rat \<Rightarrow> int" where
  "dec_exp r =
     (if 1 \<le> r then int (length (to_dec (nat \<lfloor>r\<rfloor>))) - 1
      else - int (length (to_dec (nat (\<lceil>1 / r\<rceil> - 1)))))"

definition sci6 :: "rat \<Rightarrow> nat \<times> int" where
  "sci6 r =
     (let x = dec_exp r; m = nat (round_half_even (r / 10 powi (x - 5)))
      in if m = 10 ^ 6 then (10 ^ 5, x + 1) else (m, x))"

definition strip_zeros :: "string \<Rightarrow> string" where
  "strip_zeros s = rev (dropWhile (\<lambda>c. c = CHR ''0'') (rev s))"

definition point :: "string \<Rightarrow> string" where
  "point s = (if s = [] then [] else CHR ''.'' # s)"

definition exp_text :: "int \<Rightarrow> string" where
  "exp_text x = (if x < 0 then ''-'' else ''+'') @
     (let e = to_dec (nat \<bar>x\<bar>) in if length e < 2 then CHR ''0'' # e else e)"

definition print_pos :: "rat \<Rightarrow> string" where
  "print_pos r =
     (let (m, x) = sci6 r; ds = to_dec m in
      if x < - 4 \<or> 6 \<le> x then [hd ds] @ point (strip_zeros (tl ds)) @ CHR ''e'' # exp_text x
      else if 0 \<le> x then take (nat x + 1) ds @ point (strip_zeros (drop (nat x + 1) ds))
      else ''0'' @ point (replicate (nat (- x - 1)) CHR ''0'' @ strip_zeros ds))"

fun d_print :: "double \<Rightarrow> string" where
  "d_print (Fin r) = (if r = 0 then ''0'' else if r < 0 then CHR ''-'' # print_pos (- r) else print_pos r)"
| "d_print NegZero = ''-0''"
| "d_print PInf = ''inf''"
| "d_print NInf = ''-inf''"
| "d_print NaN = ''nan''"

section \<open>Reading\<close>

text \<open>What follows the number at the front of a text.\<close>

definition drop_if :: "(char \<Rightarrow> bool) \<Rightarrow> string \<Rightarrow> string" where
  "drop_if p s = (case s of [] \<Rightarrow> [] | c # cs \<Rightarrow> if p c then cs else s)"

definition after_number :: "string \<Rightarrow> string" where
  "after_number s =
     (let s1 = dropWhile is_digit (drop_if (\<lambda>c. c = CHR ''-'') s);
          s2 = (case s1 of c # cs \<Rightarrow> if c = CHR ''.'' then dropWhile is_digit cs else s1 | [] \<Rightarrow> [])
      in case s2 of
           c # cs \<Rightarrow> if c = CHR ''e'' \<or> c = CHR ''E''
             then dropWhile is_digit (drop_if (\<lambda>d. d = CHR ''+'' \<or> d = CHR ''-'') cs) else s2
         | [] \<Rightarrow> [])"

text \<open>\<open>strtod\<close> on such characters: the sign, and the exact decimal value; nothing without a digit.\<close>

definition exponent_of :: "string \<Rightarrow> int" where
  "exponent_of s =
     (case s of [] \<Rightarrow> 0
      | c # cs \<Rightarrow> if c = CHR ''e'' \<or> c = CHR ''E'' then
          (let (neg, b) = split_sign cs; e = int (dec_value (takeWhile is_digit b))
           in if neg then - e else e) else 0)"

definition fraction :: "string \<Rightarrow> string \<times> string" where
  "fraction r =
     (case r of
        c # cs \<Rightarrow> if c = CHR ''.'' then (takeWhile is_digit cs, dropWhile is_digit cs) else ([], r)
      | [] \<Rightarrow> ([], []))"

definition decimal :: "string \<Rightarrow> (bool \<times> rat) option" where
  "decimal s =
     (let (neg, b) = split_sign s; ip = takeWhile is_digit b;
          (fp, t) = fraction (dropWhile is_digit b)
      in if ip = [] \<and> fp = [] then None
         else Some (neg, of_nat (dec_value (ip @ fp)) * 10 powi (exponent_of t - int (length fp))))"

datatype stod_error = Invalid_argument | Out_of_range

text \<open>
  The range error: the value rounds to infinity, or it is inexact and, rounded to 53 bits with an
  unbounded exponent, below the smallest normal number.
\<close>

definition tiny_bound :: rat where
  "tiny_bound = pow2 (- 1022) - pow2 (- 1076)"

definition stod :: "string \<Rightarrow> stod_error + double" where
  "stod s =
     (case decimal s of
        None \<Rightarrow> Inl Invalid_argument
      | Some (neg, q) \<Rightarrow>
          let d = round_double q in
          if d = PInf then Inl Out_of_range
          else if q < tiny_bound \<and> d_rat d \<noteq> q then Inl Out_of_range
          else Inr (if neg then d_neg d else d))"

section \<open>Digits\<close>

lemma to_dec_magnitude: "0 < n \<Longrightarrow> 10 ^ (length (to_dec n) - 1) \<le> n \<and> n < 10 ^ length (to_dec n)"
proof (induction n rule: less_induct)
  case (less n)
  show ?case
  proof (cases "n < 10")
    case False
    have "0 < length (to_dec (n div 10))" by simp
    then obtain k where k: "length (to_dec (n div 10)) = Suc k" by (metis Suc_pred)
    have "10 ^ k \<le> n div 10 \<and> n div 10 < 10 ^ Suc k"
      using less.IH [of "n div 10"] False by (simp add: k)
    moreover have "length (to_dec n) = Suc (Suc k)"
      using False by (subst to_dec.simps) (simp add: k)
    ultimately show ?thesis by auto
  qed (use less.prems in \<open>simp add: to_dec.simps [of n]\<close>)
qed

lemma length_to_dec_eq:
  assumes "10 ^ k \<le> n" "n < 10 ^ Suc k"
  shows "length (to_dec n) = Suc k"
proof -
  have "(0 :: nat) < 10 ^ k" by simp
  then have "0 < n" using assms(1) by linarith
  from to_dec_magnitude [OF this]
  have "10 ^ (length (to_dec n) - 1) < (10 :: nat) ^ Suc k" "10 ^ k < (10 :: nat) ^ length (to_dec n)"
    using assms by linarith+
  then have "length (to_dec n) - 1 < Suc k" "k < length (to_dec n)"
    by (meson one_less_numeral_iff power_less_imp_less_exp semiring_norm(76))+
  then show ?thesis by linarith
qed

lemma strip_zeros_split: "\<exists>z. s = strip_zeros s @ replicate z CHR ''0''"
proof -
  have "takeWhile (\<lambda>c. c = CHR ''0'') (rev s) =
      replicate (length (takeWhile (\<lambda>c. c = CHR ''0'') (rev s))) CHR ''0''"
    by (rule replicate_eqI [OF refl]) (auto dest: set_takeWhileD)
  then have "rev s = replicate (length (takeWhile (\<lambda>c. c = CHR ''0'') (rev s))) CHR ''0'' @
      dropWhile (\<lambda>c. c = CHR ''0'') (rev s)"
    by (metis takeWhile_dropWhile_id)
  then show ?thesis unfolding strip_zeros_def by (metis rev_append rev_replicate rev_rev_ident)
qed

lemma strip_zeros_digits: "list_all is_digit s \<Longrightarrow> list_all is_digit (strip_zeros s)"
  using strip_zeros_split [of s] by (metis list_all_append)


section \<open>The decimal exponent\<close>

lemma dec_exp_bounds:
  assumes "0 < r"
  shows "10 powi dec_exp r \<le> r" "r < 10 powi (dec_exp r + 1)"
proof -
  have "10 powi dec_exp r \<le> r \<and> r < 10 powi (dec_exp r + 1)"
  proof (cases "1 \<le> r")
    case True
    let ?n = "nat \<lfloor>r\<rfloor>"
    have n: "0 < ?n" "of_nat ?n \<le> r" "r < of_nat ?n + 1" using True by linarith+
    obtain k where k: "length (to_dec ?n) = Suc k" using to_dec_nonempty by (metis length_0_conv not0_implies_Suc)
    with to_dec_magnitude [OF n(1)] have "10 ^ k \<le> ?n" "?n + 1 \<le> 10 ^ Suc k" by simp_all
    then have "of_nat (10 ^ k) \<le> (of_nat ?n :: rat)" "(of_nat (?n + 1) :: rat) \<le> of_nat (10 ^ Suc k)"
      by (simp_all only: of_nat_le_iff)
    then have "10 ^ k \<le> (of_nat ?n :: rat)" "(of_nat ?n :: rat) + 1 \<le> 10 ^ Suc k" by (simp_all del: of_nat_nat)
    then have "10 ^ k \<le> r" "r < 10 ^ Suc k" using n by linarith+
    moreover have "dec_exp r = int k" using True by (simp add: dec_exp_def k)
    ultimately show ?thesis by (simp add: power_int_def nat_add_distrib)
  next
    case False
    let ?n = "nat (\<lceil>1 / r\<rceil> - 1)"
    have big: "1 < 1 / r" using assms False by simp
    then have n: "0 < ?n" "of_nat ?n < 1 / r" "1 / r \<le> of_nat ?n + 1" by linarith+
    obtain k where k: "length (to_dec ?n) = Suc k" using to_dec_nonempty by (metis length_0_conv not0_implies_Suc)
    with to_dec_magnitude [OF n(1)] have "10 ^ k \<le> ?n" "?n + 1 \<le> 10 ^ Suc k" by simp_all
    then have "of_nat (10 ^ k) \<le> (of_nat ?n :: rat)" "(of_nat (?n + 1) :: rat) \<le> of_nat (10 ^ Suc k)"
      by (simp_all only: of_nat_le_iff)
    then have "10 ^ k \<le> (of_nat ?n :: rat)" "(of_nat ?n :: rat) + 1 \<le> 10 ^ Suc k" by (simp_all del: of_nat_nat)
    then have "10 ^ k < 1 / r" "1 / r \<le> 10 ^ Suc k" using n by linarith+
    then have "r < 1 / 10 ^ k" "1 / 10 ^ Suc k \<le> r" using assms by (simp_all add: field_simps)
    moreover have "dec_exp r = - int (Suc k)" using False by (simp add: dec_exp_def k)
    moreover have "(10 :: rat) powi (- int (Suc k)) = 1 / 10 ^ Suc k" "(10 :: rat) powi (- int (Suc k) + 1) = 1 / 10 ^ k"
      by (simp_all add: power_int_def nat_add_distrib field_simps)
    ultimately show ?thesis by simp
  qed
  then show "10 powi dec_exp r \<le> r" "r < 10 powi (dec_exp r + 1)" by simp_all
qed

text \<open>Six digits, at most half a unit of the sixth away.\<close>

lemma sci6_near:
  assumes "0 < r" "sci6 r = (m, x)"
  shows "10 ^ 5 \<le> m" "m < 10 ^ 6" "\<bar>of_nat m * 10 powi (x - 5) - r\<bar> \<le> r / 10 ^ 5 / 2"
proof -
  define e where "e = dec_exp r"
  define u :: rat where "u = 10 powi (e - 5)"
  define k where "k = round_half_even (r / u)"
  have u: "0 < u" by (simp add: u_def)
  have "10 powi e = u * 10 ^ 5" "10 powi (e + 1) = u * 10 ^ 6"
    using power_int_add [of "10 :: rat" "e - 5" 5] power_int_add [of "10 :: rat" "e - 5" 6]
    by (simp_all add: u_def algebra_simps)
  then have r: "u * 10 ^ 5 \<le> r" "r < u * 10 ^ 6" using dec_exp_bounds [OF assms(1)] by (simp_all add: e_def)
  then have q: "of_int (10 ^ 5) \<le> r / u" "r / u \<le> of_int (10 ^ 6)" using u by (simp_all add: field_simps)
  then have k: "10 ^ 5 \<le> k" "k \<le> 10 ^ 6"
    using round_half_even_ge [OF q(1)] round_half_even_le [OF q(2)] by (simp_all add: k_def)
  have "\<bar>of_int k * u - r\<bar> = \<bar>of_int k - r / u\<bar> * u"
    using u abs_mult [of "of_int k - r / u" u] by (simp add: left_diff_distrib)
  also have "\<dots> \<le> 1 / 2 * u"
    using round_half_even_near [of "r / u"] u by (intro mult_right_mono) (simp_all add: k_def)
  also have "\<dots> \<le> r / 10 ^ 5 / 2" using r by simp
  finally have near: "\<bar>of_int k * u - r\<bar> \<le> r / 10 ^ 5 / 2" .
  have "10 powi (e + 1 - 5) = u * (10 :: rat)"
    using power_int_add [of "10 :: rat" "e - 5" 1] by (simp add: u_def algebra_simps)
  then have "10 ^ 5 \<le> m \<and> m < 10 ^ 6 \<and> of_nat m * 10 powi (x - 5) = of_int k * u"
    using assms(2) k unfolding k_def u_def by (auto simp: sci6_def Let_def e_def [symmetric]
        nat_eq_iff split: if_splits)
  then show "10 ^ 5 \<le> m" "m < 10 ^ 6" "\<bar>of_nat m * 10 powi (x - 5) - r\<bar> \<le> r / 10 ^ 5 / 2"
    using near by simp_all
qed


section \<open>A printed number read back\<close>

definition exp_part :: "int option \<Rightarrow> string" where
  "exp_part e = (case e of None \<Rightarrow> [] | Some x \<Rightarrow> CHR ''e'' # exp_text x)"

definition exp_val :: "int option \<Rightarrow> int" where
  "exp_val e = (case e of None \<Rightarrow> 0 | Some x \<Rightarrow> x)"

lemma exp_text_digits:
  "\<exists>ds. exp_text x = (if x < 0 then CHR ''-'' else CHR ''+'') # ds \<and> ds \<noteq> [] \<and> list_all is_digit ds \<and>
     dec_value ds = nat \<bar>x\<bar>"
proof -
  let ?e = "to_dec (nat \<bar>x\<bar>)"
  have "dec_value (CHR ''0'' # ?e) = nat \<bar>x\<bar>"
    using dec_value_append [of "''0''" ?e] dec_value_zeros [of 1] by simp
  then show ?thesis
    using to_dec_digits [of "nat \<bar>x\<bar>"] to_dec_nonempty [of "nat \<bar>x\<bar>"]
    by (auto simp: exp_text_def Let_def is_digit_def)
qed

lemma exponent_of_part: "exponent_of (exp_part e) = exp_val e"
proof (cases e)
  case (Some x)
  obtain ds where ds: "exp_text x = (if x < 0 then CHR ''-'' else CHR ''+'') # ds" "list_all is_digit ds"
      "dec_value ds = nat \<bar>x\<bar>"
    using exp_text_digits [of x] by blast
  have tw: "takeWhile is_digit ds = ds" using ds(2) by (simp add: list_all_iff)
  show ?thesis using ds(3) by (simp add: Some exp_part_def exp_val_def exponent_of_def ds(1) tw split_sign_def)
qed (simp add: exp_part_def exp_val_def exponent_of_def)

definition number_text :: "string \<Rightarrow> string \<Rightarrow> int option \<Rightarrow> string" where
  "number_text ip fp e = ip @ point fp @ exp_part e"

lemma ends_exp_part: "ends_number (exp_part e)"
  by (cases e) (simp_all add: exp_part_def is_digit_def)

lemma ends_point: "ends_number (point fp @ exp_part e)"
  using ends_exp_part [of e] by (simp add: point_def is_digit_def)

lemma no_dot_exp_part: "exp_part e = c # cs \<Longrightarrow> c \<noteq> CHR ''.''"
  by (auto simp: exp_part_def split: option.splits)

lemma digits_head: "list_all is_digit (d # ds) \<Longrightarrow> split_sign ((d # ds) @ r) = (False, (d # ds) @ r)"
  using digit_plain by (auto simp: split_sign_def)

lemma decimal_text:
  assumes "list_all is_digit ip" "ip \<noteq> []" "list_all is_digit fp"
  shows "decimal (number_text ip fp e) =
      Some (False, of_nat (dec_value (ip @ fp)) * 10 powi (exp_val e - int (length fp)))"
    and "decimal (CHR ''-'' # number_text ip fp e) =
      Some (True, of_nat (dec_value (ip @ fp)) * 10 powi (exp_val e - int (length fp)))"
proof -
  let ?r = "point fp @ exp_part e"
  have ip: "takeWhile is_digit (ip @ ?r) = ip" "dropWhile is_digit (ip @ ?r) = ?r"
    using takeWhile_digits [OF assms(1) ends_point] by auto
  have fp: "takeWhile is_digit (fp @ exp_part e) = fp" "dropWhile is_digit (fp @ exp_part e) = exp_part e"
    using takeWhile_digits [OF assms(3) ends_exp_part] by auto
  have sg: "split_sign (ip @ ?r) = (False, ip @ ?r)"
    using assms(1,2) digits_head by (cases ip) auto
  have neg: "split_sign (CHR ''-'' # ip @ ?r) = (True, ip @ ?r)" by (simp add: split_sign_def)
  have parts: "fraction ?r = (fp, exp_part e)"
    using fp no_dot_exp_part [of e] by (cases fp; cases "exp_part e") (auto simp: point_def fraction_def)
  show "decimal (number_text ip fp e) =
      Some (False, of_nat (dec_value (ip @ fp)) * 10 powi (exp_val e - int (length fp)))"
    and "decimal (CHR ''-'' # number_text ip fp e) =
      Some (True, of_nat (dec_value (ip @ fp)) * 10 powi (exp_val e - int (length fp)))"
    using assms(2) sg neg unfolding decimal_def number_text_def Let_def
    by (simp_all add: ip parts exponent_of_part)
qed


lemma digits_of_prefix:
  assumes "ds = ip @ fp @ replicate z CHR ''0''"
  shows "of_nat (dec_value ds) * 10 powi (x - int (length ds)) =
    (of_nat (dec_value (ip @ fp)) * 10 powi (x - int (length ip) - int (length fp)) :: rat)"
proof -
  have "dec_value ds = dec_value (ip @ fp) * 10 ^ z"
    using dec_value_append [of "ip @ fp" "replicate z CHR ''0''"] by (simp add: assms dec_value_zeros)
  moreover have "10 ^ z * 10 powi (x - int (length ds)) = (10 :: rat) powi (x - int (length ip) - int (length fp))"
    using power_int_add [of "10 :: rat" "int z" "x - int (length ds)"] by (simp add: assms algebra_simps)
  ultimately show ?thesis by simp
qed

lemma take_drop_digits: "list_all is_digit ds \<Longrightarrow> list_all is_digit (take n ds) \<and> list_all is_digit (drop n ds)"
  by (metis append_take_drop_id list_all_append)

lemma print_pos_text:
  assumes "0 < r" "sci6 r = (m, x)"
  obtains ip fp e where "print_pos r = number_text ip fp e" "list_all is_digit ip" "ip \<noteq> []"
    "list_all is_digit fp"
    "of_nat (dec_value (ip @ fp)) * 10 powi (exp_val e - int (length fp)) = (of_nat m * 10 powi (x - 5) :: rat)"
proof -
  let ?ds = "to_dec m"
  have len: "length ?ds = 6" using length_to_dec_eq [of 5 m] sci6_near [OF assms] by simp
  then obtain d dt where ds: "?ds = d # dt" "length dt = 5" by (cases ?ds) auto
  have dig: "list_all is_digit ?ds" by (rule to_dec_digits)
  consider (sci) "x < - 4 \<or> 6 \<le> x" | (fixed) "0 \<le> x" "x < 6" | (small) "- 4 \<le> x" "x < 0" by linarith
  then show ?thesis
  proof cases
    case sci
    let ?fp = "strip_zeros dt"
    obtain z where z: "dt = ?fp @ replicate z CHR ''0''" using strip_zeros_split by blast
    have split: "?ds = [d] @ ?fp @ replicate z CHR ''0''" using z ds(1) by simp
    have "of_nat m * 10 powi (x + 1 - 6) = (of_nat (dec_value ([d] @ ?fp)) * 10 powi (x + 1 - 1 - int (length ?fp)) :: rat)"
      using digits_of_prefix [OF split, of "x + 1"] len by simp
    then show ?thesis
      using that [of "[d]" ?fp "Some x"] dig strip_zeros_digits [of dt] sci
      by (simp add: print_pos_def assms(2) ds number_text_def exp_part_def exp_val_def)
  next
    case fixed
    let ?ip = "take (nat x + 1) ?ds" and ?fp = "strip_zeros (drop (nat x + 1) ?ds)"
    obtain z where z: "drop (nat x + 1) ?ds = ?fp @ replicate z CHR ''0''" using strip_zeros_split by blast
    have "?ds = ?ip @ ?fp @ replicate z CHR ''0''" using z by (metis append_take_drop_id)
    moreover have ip: "int (length ?ip) = x + 1" using fixed len by simp
    ultimately have "of_nat m * 10 powi (x + 1 - 6) =
        (of_nat (dec_value (?ip @ ?fp)) * 10 powi (x + 1 - (x + 1) - int (length ?fp)) :: rat)"
      using digits_of_prefix [of ?ds ?ip ?fp z "x + 1"] len by simp
    then show ?thesis
      using that [of ?ip ?fp None] take_drop_digits [OF dig] strip_zeros_digits fixed
      by (simp add: print_pos_def assms(2) number_text_def exp_part_def exp_val_def Let_def)
  next
    case small
    let ?k = "nat (- x - 1)"
    let ?fp = "replicate ?k CHR ''0'' @ strip_zeros ?ds"
    obtain z where z: "?ds = strip_zeros ?ds @ replicate z CHR ''0''" using strip_zeros_split by blast
    have "of_nat m * 10 powi (x + 1 - 6) =
        (of_nat (dec_value (strip_zeros ?ds)) * 10 powi (x + 1 - int (length (strip_zeros ?ds))) :: rat)"
      using digits_of_prefix [of ?ds "[]" "strip_zeros ?ds" z "x + 1"] len z by simp
    moreover have "dec_value (''0'' @ ?fp) = dec_value (strip_zeros ?ds)"
      using dec_value_append [of "replicate (Suc ?k) CHR ''0''" "strip_zeros ?ds"] dec_value_zeros [of "Suc ?k"] by simp
    moreover have "list_all is_digit (replicate ?k CHR ''0'')" by (simp add: list_all_iff is_digit_def)
    ultimately show ?thesis
      using that [of "''0''" ?fp None] strip_zeros_digits [OF dig] small
      by (simp add: print_pos_def assms(2) number_text_def exp_part_def exp_val_def is_digit_def
          add.commute [of 1 x])
  qed
qed


lemma decimal_print_pos:
  assumes "0 < r" "sci6 r = (m, x)"
  shows "decimal (print_pos r) = Some (False, of_nat m * 10 powi (x - 5))"
    and "decimal (CHR ''-'' # print_pos r) = Some (True, of_nat m * 10 powi (x - 5))"
  using print_pos_text [OF assms] decimal_text by (metis (no_types, lifting))+

section \<open>What survives\<close>

lemma tiny_bound_le: "tiny_bound \<le> pow2 (- 1022)"
  by (simp add: tiny_bound_def pow2_eq)

lemma stod_value:
  assumes "decimal s = Some (neg, q)" "pow2 (- 1022) \<le> q" "q \<le> 2 ^ 1023"
  obtains v where "stod s = Inr (Fin (if neg then - v else v))" "\<bar>v - q\<bar> \<le> q / 2 ^ 53" "0 < v"
proof -
  obtain v where v: "round_double q = Fin v" "\<bar>v - q\<bar> \<le> q / 2 ^ 53" "0 < v"
    using round_double_near [OF assms(2,3)] .
  have "\<not> q < tiny_bound" using tiny_bound_le assms(2) by linarith
  then have "stod s = Inr (Fin (if neg then - v else v))"
    using v(3) by (simp add: stod_def assms(1) v(1))
  with v that show thesis by blast
qed

lemma sci6_between:
  assumes "pow2 (- 1000) \<le> r" "r \<le> 2 ^ 1000" "sci6 r = (m, x)"
  defines "q \<equiv> of_nat m * 10 powi (x - 5) :: rat"
  shows "pow2 (- 1022) \<le> q" "q \<le> 2 ^ 1023" "\<bar>q - r\<bar> \<le> r / 10 ^ 5 / 2"
proof -
  have r: "0 < r" using assms(1) by (rule less_le_trans [rotated]) (simp add: pow2_eq)
  show near: "\<bar>q - r\<bar> \<le> r / 10 ^ 5 / 2" using sci6_near(3) [OF r assms(3)] by (simp add: q_def)
  moreover have "r / 10 ^ 5 / 2 \<le> r / 2" using r by simp
  ultimately have "r / 2 \<le> q" "q \<le> 2 * r" using r by linarith+
  moreover have "pow2 (- 1022) \<le> pow2 (- 1000) / 2"
    using power_int_add [of "2 :: rat" "- 1000" "- 1"] power_int_increasing [of "- 1022" "- 1001" "2 :: rat"]
    by (simp add: pow2_eq)
  moreover have "2 * (2 :: rat) ^ 1000 \<le> 2 ^ 1023" by (simp del: power_numeral flip: power_Suc)
  ultimately show "pow2 (- 1022) \<le> q" "q \<le> 2 ^ 1023" using assms(1,2) by linarith+
qed

text \<open>The relative error of a number that has been through its text is below \<open>10 ^ -5\<close>.\<close>

lemma printed_six_digits:
  assumes "pow2 (- 1000) \<le> \<bar>r\<bar>" "\<bar>r\<bar> \<le> 2 ^ 1000"
  obtains v where "stod (d_print (Fin r)) = Inr (Fin v)" "\<bar>v - r\<bar> \<le> \<bar>r\<bar> / 10 ^ 5" "v \<noteq> 0"
proof -
  obtain m x where mx: "sci6 \<bar>r\<bar> = (m, x)" by (cases "sci6 \<bar>r\<bar>")
  define q :: rat where "q = of_nat m * 10 powi (x - 5)"
  have r: "0 < \<bar>r\<bar>" using assms(1) by (rule less_le_trans [rotated]) (simp add: pow2_eq)
  note q = sci6_between [OF assms mx, folded q_def]
  have "decimal (d_print (Fin r)) = Some (r < 0, q)"
    using decimal_print_pos [OF r mx, folded q_def] r by (auto simp: abs_if split: if_splits)
  then obtain v where v: "stod (d_print (Fin r)) = Inr (Fin (if r < 0 then - v else v))"
      "\<bar>v - q\<bar> \<le> q / 2 ^ 53" "0 < v"
    using stod_value q(1,2) by blast
  have "\<bar>r\<bar> / 10 ^ 5 / 2 \<le> \<bar>r\<bar>" by simp
  then have "q \<le> 2 * \<bar>r\<bar>" using q(3) by linarith
  then have "q / 2 ^ 53 \<le> \<bar>r\<bar> / 10 ^ 5 / 2" using r by simp
  then have "\<bar>v - q\<bar> + \<bar>q - \<bar>r\<bar>\<bar> \<le> \<bar>r\<bar> / 10 ^ 5 / 2 + \<bar>r\<bar> / 10 ^ 5 / 2"
    using order_trans [OF v(2)] q(3) by (intro add_mono)
  then have "\<bar>v - \<bar>r\<bar>\<bar> \<le> \<bar>r\<bar> / 10 ^ 5"
    using abs_triangle_ineq [of "v - q" "q - \<bar>r\<bar>"] by simp
  moreover have "\<bar>(if r < 0 then - v else v) - r\<bar> = \<bar>v - \<bar>r\<bar>\<bar>" by (auto simp: abs_if)
  ultimately show thesis using that v(1,3) by auto
qed

text \<open>Whole numbers of at most six digits survive exactly.\<close>

lemma dec_exp_nat: "0 < n \<Longrightarrow> dec_exp (of_nat n) = int (length (to_dec n)) - 1"
  by (simp add: dec_exp_def)

lemma zero_digit: "digit_char 0 = CHR ''0''"
  by code_simp

lemma printed_small_nat:
  assumes "n < 10 ^ 6"
  shows "d_print (Fin (of_nat n)) = to_dec n"
proof (cases "n = 0")
  case False
  define k where "k = length (to_dec n) - 1"
  have len: "length (to_dec n) = Suc k" by (simp add: k_def)
  have b: "10 ^ k \<le> n" "n < 10 ^ Suc k" using to_dec_magnitude [of n] False len by simp_all
  have "(10 :: nat) ^ k < 10 ^ 6" using b(1) assms by linarith
  then have k: "k \<le> 5" using power_less_imp_less_exp [of "10 :: nat" k 6] by simp
  have m: "of_nat n / 10 powi (int k - 5) = (of_int (int (n * 10 ^ (5 - k))) :: rat)"
    using k power_int_minus_divide [of "10 :: rat" "int (5 - k)"] power_int_of_nat [of "10 :: rat" "5 - k"]
    by (simp add: of_nat_diff del: power_int_of_nat)
  have "n * 10 ^ (5 - k) < 10 ^ Suc k * 10 ^ (5 - k)" using b(2) by simp
  also have "\<dots> = 10 ^ 6" using k by (simp flip: power_add)
  finally have lt: "n * 10 ^ (5 - k) < 10 ^ 6" .
  have "sci6 (of_nat n) = (n * 10 ^ (5 - k), int k)"
    using False lt by (simp add: sci6_def dec_exp_nat len m Let_def del: of_nat_mult of_nat_power)
  moreover have digits: "to_dec (n * 10 ^ j) = to_dec n @ replicate j CHR ''0''" for j
  proof (induction j)
    case (Suc j)
    have "10 \<le> n * 10 ^ Suc j" using False by simp
    then show ?case using Suc
      by (subst to_dec.simps) (simp add: zero_digit replicate_append_same ac_simps)
  qed simp
  moreover have "strip_zeros (replicate j CHR ''0'') = []" for j by (simp add: strip_zeros_def)
  ultimately show ?thesis
    using False k len by (simp add: print_pos_def Let_def nat_add_distrib point_def)
qed (simp add: to_dec.simps zero_digit)

lemma stod_nat:
  assumes "n < 2 ^ 53"
  shows "stod (to_dec n) = Inr (Fin (of_nat n))"
proof -
  obtain d ds where d: "to_dec n = d # ds" "is_digit d" using to_dec_head by blast
  have "decimal (to_dec n) = Some (False, of_nat n)"
    using decimal_text(1) [of "to_dec n" "[]" None] to_dec_digits [of n]
    by (simp add: number_text_def point_def exp_part_def exp_val_def)
  moreover have "round_double (of_nat n) = Fin (of_nat n)" by (rule round_double_nat [OF assms])
  ultimately show ?thesis by (simp add: stod_def)
qed


section \<open>A second trip changes nothing\<close>

lemma dec_exp_unique:
  assumes "10 powi x \<le> r" "r < 10 powi (x + 1)"
  shows "dec_exp r = x"
proof -
  have r: "0 < r" using assms(1) by (rule less_le_trans [rotated]) simp
  have "10 powi dec_exp r < (10 :: rat) powi (x + 1)" "10 powi x < (10 :: rat) powi (dec_exp r + 1)"
    using dec_exp_bounds [OF r] assms by linarith+
  moreover have "a < b" if "(10 :: rat) powi a < 10 powi b" for a b :: int
    using that power_int_increasing [of b a "10 :: rat"] by (cases "b \<le> a") auto
  ultimately have "dec_exp r < x + 1" "x < dec_exp r + 1" by blast+
  then show ?thesis by linarith
qed

lemma round_half_even_close:
  assumes "\<bar>x - of_int k\<bar> < 1 / 2"
  shows "round_half_even x = k"
proof -
  have "\<bar>of_int (round_half_even x) - x\<bar> \<le> 1 / 2" by (rule round_half_even_near)
  then have "\<bar>of_int (round_half_even x) - of_int k\<bar> < (1 :: rat)" using assms by linarith
  then have "\<bar>of_int (round_half_even x - k)\<bar> < (1 :: rat)" by simp
  then have "\<bar>round_half_even x - k\<bar> < 1" by linarith
  then show ?thesis by linarith
qed

text \<open>A number this close to one of six digits has the same six digits.\<close>

lemma sci6_stable:
  assumes "10 ^ 5 \<le> m" "m < 10 ^ 6" and "\<bar>v - of_nat m * 10 powi (x - 5)\<bar> \<le> of_nat m * 10 powi (x - 5) / 2 ^ 53"
  shows "sci6 v = (m, x)"
proof -
  define u :: rat where "u = 10 powi (x - 5)"
  have u: "0 < u" by (simp add: u_def)
  have p: "10 powi x = u * 10 ^ 5" "10 powi (x + 1) = u * 10 ^ 6" "(10 :: rat) powi (x - 1) = u * 10 ^ 4"
      "10 powi (x - 1 - 5) = u / 10"
    using power_int_add [of "10 :: rat" "x - 5" 5] power_int_add [of "10 :: rat" "x - 5" 6]
      power_int_add [of "10 :: rat" "x - 5" 4] power_int_diff [of "10 :: rat" "x - 5" 1]
    by (simp_all add: u_def algebra_simps)
  define w where "w = v / u"
  have v: "v = w * u" using u by (simp add: w_def)
  have "\<bar>w - of_nat m\<bar> * u \<le> (of_nat m / 2 ^ 53) * u"
    using assms(3) abs_mult [of "w - of_nat m" u] u by (simp add: v u_def [symmetric] left_diff_distrib)
  then have w: "\<bar>w - of_nat m\<bar> \<le> of_nat m / 2 ^ 53" using u by (simp only: mult_le_cancel_right_pos)
  have m: "(10 :: rat) ^ 5 \<le> of_nat m" "of_nat m + 1 \<le> (10 :: rat) ^ 6"
  proof -
    have "of_nat (10 ^ 5) \<le> (of_nat m :: rat)" "(of_nat (m + 1) :: rat) \<le> of_nat (10 ^ 6)"
      using assms(1,2) by (simp_all only: of_nat_le_iff)
    then show "(10 :: rat) ^ 5 \<le> of_nat m" "of_nat m + 1 \<le> (10 :: rat) ^ 6" by simp_all
  qed
  have "of_nat m / 2 ^ 53 < (1 / 20 :: rat)" using m by simp
  then have near: "\<bar>w - of_nat m\<bar> < 1 / 20" using w by linarith
  show ?thesis
  proof (cases "10 ^ 5 \<le> w")
    case True
    have "w < 10 ^ 6" using near m(2) by linarith
    then have "dec_exp v = x"
      using True u by (intro dec_exp_unique) (simp_all add: p v)
    moreover have "round_half_even w = int m"
      using near by (intro round_half_even_close) simp
    ultimately show ?thesis using assms(2) by (simp add: sci6_def Let_def w_def u_def)
  next
    case False
    have "(of_nat (10 ^ 5 + 1) :: rat) = 10 ^ 5 + 1" by simp
    then have "(of_nat m :: rat) < of_nat (10 ^ 5 + 1)" using False near by linarith
    then have "m < 10 ^ 5 + 1" by (simp only: of_nat_less_iff)
    then have "m = 10 ^ 5" using assms(1) by linarith
    then have m: "of_nat m = (10 :: rat) ^ 5" "m = 10 ^ 5" by simp_all
    have "100000 - w < 1 / 20" using near m(1) unfolding abs_less_iff by simp
    then have "10 ^ 4 \<le> w" by simp
    then have "dec_exp v = x - 1"
      using False u by (intro dec_exp_unique) (simp_all add: p v)
    moreover have "round_half_even (w * 10) = 10 ^ 6"
      using near m(1) by (intro round_half_even_close) (simp add: abs_if split: if_splits)
    moreover have tenth: "10 powi (x - 6) = u / 10" using p(4) by simp
    have "v / 10 powi (x - 6) = w * 10" unfolding w_def tenth by simp
    ultimately show ?thesis by (simp add: sci6_def Let_def m(2))
  qed
qed


lemma print_pos_cong: "sci6 v = sci6 r \<Longrightarrow> print_pos v = print_pos r"
  by (simp add: print_pos_def)

lemma printed_again:
  assumes "pow2 (- 1000) \<le> \<bar>r\<bar>" "\<bar>r\<bar> \<le> 2 ^ 1000"
  obtains v where "stod (d_print (Fin r)) = Inr (Fin v)" "d_print (Fin v) = d_print (Fin r)" "v \<noteq> 0"
proof -
  obtain m x where mx: "sci6 \<bar>r\<bar> = (m, x)" by (cases "sci6 \<bar>r\<bar>")
  define q :: rat where "q = of_nat m * 10 powi (x - 5)"
  have r: "0 < \<bar>r\<bar>" using assms(1) by (rule less_le_trans [rotated]) (simp add: pow2_eq)
  note q = sci6_between [OF assms mx, folded q_def]
  have "decimal (d_print (Fin r)) = Some (r < 0, q)"
    using decimal_print_pos [OF r mx, folded q_def] r by (auto simp: abs_if split: if_splits)
  then obtain v where v: "stod (d_print (Fin r)) = Inr (Fin (if r < 0 then - v else v))"
      "\<bar>v - q\<bar> \<le> q / 2 ^ 53" "0 < v"
    using stod_value q(1,2) by blast
  have "sci6 v = (m, x)"
    by (rule sci6_stable) (use sci6_near(1,2) [OF r mx] v(2) in \<open>simp_all add: q_def\<close>)
  then have "print_pos v = print_pos \<bar>r\<bar>" by (intro print_pos_cong) (simp add: mx)
  then have "d_print (Fin (if r < 0 then - v else v)) = d_print (Fin r)"
    using v(3) r by (auto simp: abs_if split: if_splits)
  then show thesis using v(3) by (intro that [OF v(1)]) auto
qed

end
