(* ===== verification/Json.thy ===== *)
theory Json
  imports Json_Number OMap Codec
begin

text \<open>
  The JSON values of the repository, its own \<open>include/nlohmann/json.hpp\<close>: the value, access,
  \<open>dump\<close> and the recursive-descent \<open>Parser\<close>. An object is a \<open>std::map\<close>: entries in ascending key
  order. The parser works on the unread text and takes fuel; \<open>parse\<close> gives it twice the length of
  the text and one, and never runs out. Every exception is a value. Casts of a number that does
  not fit an integer type are undefined in C++ and are left to a parameter where they are used.
\<close>

section \<open>Values\<close>

datatype json =
  JNull | JBool bool | JNum double | JStr string | JArr "json list" | JObj "(string \<times> json) list"

datatype json_error = Json_exception string | Std_exception stod_error | Out_of_fuel

definition j_contains :: "json \<Rightarrow> string \<Rightarrow> bool" where
  "j_contains j key = (case j of JObj es \<Rightarrow> map_of es key \<noteq> None | _ \<Rightarrow> False)"

definition j_at :: "json \<Rightarrow> string \<Rightarrow> json" where
  "j_at j key = (case j of JObj es \<Rightarrow> (case map_of es key of Some v \<Rightarrow> v | None \<Rightarrow> JNull) | _ \<Rightarrow> JNull)"

text \<open>\<open>j[key] = v\<close>, which turns anything else into an object first.\<close>

definition j_put :: "string \<Rightarrow> json \<Rightarrow> json \<Rightarrow> json" where
  "j_put key v j = JObj (ins_entry key v (case j of JObj es \<Rightarrow> es | _ \<Rightarrow> []))"

definition j_push :: "json \<Rightarrow> json \<Rightarrow> json" where
  "j_push v j = JArr ((case j of JArr xs \<Rightarrow> xs | _ \<Rightarrow> []) @ [v])"

fun get_string :: "json \<Rightarrow> json_error + string" where
  "get_string (JStr s) = Inr s"
| "get_string _ = Inl (Json_exception ''json: value is not a string'')"

fun get_bool :: "json \<Rightarrow> json_error + bool" where
  "get_bool (JBool b) = Inr b"
| "get_bool _ = Inl (Json_exception ''json: value is not a boolean'')"

fun get_double :: "json \<Rightarrow> json_error + double" where
  "get_double (JNum d) = Inr d"
| "get_double _ = Inl (Json_exception ''json: value is not a number'')"

text \<open>\<open>j.value(key, default)\<close>: the default only when the key is missing.\<close>

definition j_value :: "(json \<Rightarrow> json_error + 'a) \<Rightarrow> json \<Rightarrow> string \<Rightarrow> 'a \<Rightarrow> json_error + 'a" where
  "j_value get j key dflt =
     (case j of
        JObj es \<Rightarrow> (case map_of es key of Some v \<Rightarrow> get v | None \<Rightarrow> Inr dflt)
      | _ \<Rightarrow> Inr dflt)"

text \<open>Iteration visits the elements of an array and the values of an object.\<close>

fun j_elements :: "json \<Rightarrow> json list" where
  "j_elements (JArr xs) = xs"
| "j_elements (JObj es) = map snd es"
| "j_elements _ = []"

section \<open>Printing\<close>

fun escape_char :: "char \<Rightarrow> string" where
  "escape_char c =
     (if c = CHR 0x22 then [CHR 0x5C, CHR 0x22]
      else if c = CHR 0x5C then [CHR 0x5C, CHR 0x5C]
      else if c = CHR 0x0A then [CHR 0x5C, CHR ''n'']
      else if c = CHR 0x0D then [CHR 0x5C, CHR ''r'']
      else if c = CHR 0x09 then [CHR 0x5C, CHR ''t'']
      else [c])"

fun commas :: "string list \<Rightarrow> string" where
  "commas [] = []"
| "commas [s] = s"
| "commas (s # t # ss) = s @ CHR '','' # commas (t # ss)"

fun dump :: "json \<Rightarrow> string" where
  "dump JNull = ''null''"
| "dump (JBool b) = (if b then ''true'' else ''false'')"
| "dump (JNum d) = d_print d"
| "dump (JStr s) = CHR 0x22 # concat (map escape_char s) @ [CHR 0x22]"
| "dump (JArr xs) = CHR ''['' # commas (map dump xs) @ '']''"
| "dump (JObj es) = CHR ''{'' # commas (map (\<lambda>e. CHR 0x22 # fst e @ CHR 0x22 # CHR '':'' # dump (snd e)) es) @ ''}''"

section \<open>Parsing\<close>

abbreviation (input) skip_ws :: "string \<Rightarrow> string" where
  "skip_ws s \<equiv> dropWhile is_space s"

definition expect :: "char \<Rightarrow> string \<Rightarrow> json_error + string" where
  "expect e s = (case s of
       c # cs \<Rightarrow> if c = e then Inr cs else Inl (Json_exception ''json: expected character'')
     | [] \<Rightarrow> Inl (Json_exception ''json: expected character''))"

definition peek_is :: "char \<Rightarrow> string \<Rightarrow> bool" where
  "peek_is e s = (case s of c # cs \<Rightarrow> c = e | [] \<Rightarrow> False)"

definition unescape :: "char \<Rightarrow> char option" where
  "unescape c =
     (if c = CHR 0x22 \<or> c = CHR 0x5C \<or> c = CHR ''/'' then Some c
      else if c = CHR ''b'' then Some (CHR 0x08)
      else if c = CHR ''f'' then Some (CHR 0x0C)
      else if c = CHR ''n'' then Some (CHR 0x0A)
      else if c = CHR ''r'' then Some (CHR 0x0D)
      else if c = CHR ''t'' then Some (CHR 0x09)
      else None)"

text \<open>The loop also ends, without an error, when the text ends.\<close>

fun string_body :: "string \<Rightarrow> string \<Rightarrow> json_error + string \<times> string" where
  "string_body acc [] = Inr (acc, [])"
| "string_body acc (c # cs) =
     (if c = CHR 0x22 then Inr (acc, cs)
      else if c = CHR 0x5C then
        (case cs of
           [] \<Rightarrow> Inl (Json_exception ''json: unexpected end'')
         | e # r \<Rightarrow> (case unescape e of
             None \<Rightarrow> Inl (Json_exception ''json: invalid escape'')
           | Some u \<Rightarrow> string_body (acc @ [u]) r))
      else string_body (acc @ [c]) cs)"

definition parse_string :: "string \<Rightarrow> json_error + string \<times> string" where
  "parse_string s = bindE (expect (CHR 0x22) s) (string_body [])"

definition parse_bool :: "string \<Rightarrow> json_error + bool \<times> string" where
  "parse_bool s =
     (if take 4 s = ''true'' then Inr (True, drop 4 s)
      else if take 5 s = ''false'' then Inr (False, drop 5 s)
      else Inl (Json_exception ''json: invalid boolean''))"

definition parse_null :: "string \<Rightarrow> json_error + json \<times> string" where
  "parse_null s = (if take 4 s = ''null'' then Inr (JNull, drop 4 s)
     else Inl (Json_exception ''json: invalid null''))"

definition parse_number :: "string \<Rightarrow> json_error + double \<times> string" where
  "parse_number s =
     (let rest = after_number s in
      case stod (take (length s - length rest) s) of
        Inl e \<Rightarrow> Inl (Std_exception e)
      | Inr d \<Rightarrow> Inr (d, rest))"

text \<open>The values that hold no others.\<close>

definition parse_leaf :: "string \<Rightarrow> json_error + json \<times> string" where
  "parse_leaf s =
     (case s of
        [] \<Rightarrow> Inl (Json_exception ''json: unexpected end'')
      | c # cs \<Rightarrow>
          if c = CHR 0x22 then bindE (parse_string s) (\<lambda>(v, r). Inr (JStr v, r))
          else if c = CHR ''t'' \<or> c = CHR ''f'' then bindE (parse_bool s) (\<lambda>(v, r). Inr (JBool v, r))
          else if c = CHR ''n'' then parse_null s
          else if c = CHR ''-'' \<or> is_digit c then bindE (parse_number s) (\<lambda>(v, r). Inr (JNum v, r))
          else Inl (Json_exception ''json: invalid value''))"

fun parse_value :: "nat \<Rightarrow> string \<Rightarrow> json_error + json \<times> string"
  and parse_members :: "nat \<Rightarrow> (string \<times> json) list \<Rightarrow> string \<Rightarrow> json_error + json \<times> string"
  and parse_items :: "nat \<Rightarrow> json list \<Rightarrow> string \<Rightarrow> json_error + json \<times> string" where
  "parse_value 0 s = Inl Out_of_fuel"
| "parse_value (Suc n) s =
     (if peek_is (CHR ''{'') (skip_ws s) then
        (if peek_is (CHR ''}'') (skip_ws (tl (skip_ws s))) then Inr (JObj [], tl (skip_ws (tl (skip_ws s))))
         else parse_members n [] (skip_ws (tl (skip_ws s))))
      else if peek_is (CHR ''['') (skip_ws s) then
        (if peek_is (CHR '']'') (skip_ws (tl (skip_ws s))) then Inr (JArr [], tl (skip_ws (tl (skip_ws s))))
         else parse_items n [] (skip_ws (tl (skip_ws s))))
      else parse_leaf (skip_ws s))"
| "parse_members 0 es s = Inl Out_of_fuel"
| "parse_members (Suc n) es s =
     bindE (parse_string (skip_ws s)) (\<lambda>(key, s1).
     bindE (expect (CHR '':'') (skip_ws s1)) (\<lambda>s2.
     bindE (parse_value n s2) (\<lambda>(v, s3).
       if peek_is (CHR ''}'') (skip_ws s3) then Inr (JObj (ins_entry key v es), tl (skip_ws s3))
       else bindE (expect (CHR '','') (skip_ws s3)) (parse_members n (ins_entry key v es)))))"
| "parse_items 0 xs s = Inl Out_of_fuel"
| "parse_items (Suc n) xs s =
     bindE (parse_value n s) (\<lambda>(v, s3).
       if peek_is (CHR '']'') (skip_ws s3) then Inr (JArr (xs @ [v]), tl (skip_ws s3))
       else bindE (expect (CHR '','') (skip_ws s3)) (parse_items n (xs @ [v])))"

definition parse :: "string \<Rightarrow> json_error + json" where
  "parse text =
     bindE (parse_value (2 * length text + 1) text) (\<lambda>(v, r).
       if skip_ws r = [] then Inr v
       else Inl (Json_exception ''json: unexpected trailing characters''))"


section \<open>The parser never runs out of fuel\<close>

lemma expect_Inr: "expect e s = Inr r \<longleftrightarrow> s = e # r"
  by (auto simp: expect_def split: list.splits)

lemma expect_fuel: "expect e s \<noteq> Inl Out_of_fuel"
  by (auto simp: expect_def split: list.splits)

lemma string_body_fuel: "string_body acc s \<noteq> Inl Out_of_fuel"
  by (induction acc s rule: string_body.induct) (auto split: list.splits option.splits)

lemma string_body_length: "string_body acc s = Inr (v, r) \<Longrightarrow> length r \<le> length s"
proof (induction acc s rule: string_body.induct)
  case (2 acc c cs)
  consider "c = CHR 0x22" | "c \<noteq> CHR 0x22" "c = CHR 0x5C" | "c \<noteq> CHR 0x22" "c \<noteq> CHR 0x5C" by blast
  then show ?case
  proof cases
    case 2
    with "2.prems" obtain e r' u where "cs = e # r'" "unescape e = Some u" "string_body (acc @ [u]) r' = Inr (v, r)"
      by (auto split: list.splits option.splits)
    with "2.IH"(1) [OF 2] show ?thesis by fastforce
  qed (use 2 in auto)
qed simp

lemma parse_string_length: "parse_string s = Inr (v, r) \<Longrightarrow> length r < length s"
  by (auto simp: parse_string_def bindE_Inr expect_Inr dest: string_body_length)

lemma parse_string_fuel: "parse_string s \<noteq> Inl Out_of_fuel"
  using expect_fuel string_body_fuel by (auto simp: parse_string_def bindE_def split: sum.splits)

lemma length_drop_if: "length (drop_if p s) \<le> length s"
  by (auto simp: drop_if_def split: list.splits)

lemma length_skip_ws: "length (skip_ws s) \<le> length s"
  by (rule length_dropWhile_le)

lemma after_number_length: "length (after_number s) \<le> length s"
proof -
  let ?s1 = "dropWhile is_digit (drop_if (\<lambda>c. c = CHR ''-'') s)"
  define s2 where "s2 = (case ?s1 of c # cs \<Rightarrow> if c = CHR ''.'' then dropWhile is_digit cs else ?s1 | [] \<Rightarrow> [])"
  have "length ?s1 \<le> length s" by (metis le_trans length_dropWhile_le length_drop_if)
  moreover have "length s2 \<le> length ?s1"
    using length_dropWhile_le [of is_digit "tl ?s1"] by (auto simp: s2_def split: list.splits)
  moreover have "length (after_number s) \<le> length s2"
    unfolding after_number_def Let_def s2_def [symmetric]
    using le_trans [OF length_dropWhile_le length_drop_if]
    by (auto split: list.splits intro: le_SucI)
  ultimately show ?thesis by linarith
qed

lemma parse_number_length: "parse_number s = Inr (v, r) \<Longrightarrow> length r \<le> length s"
  using after_number_length [of s] by (auto simp: parse_number_def Let_def split: sum.splits)

lemma skip_ws_cons: "skip_ws s = c # cs \<Longrightarrow> length cs < length s"
  using length_skip_ws [of s] by simp

lemma peek_is_length: "peek_is e (skip_ws s) \<Longrightarrow> length (tl (skip_ws s)) < length s"
  using length_skip_ws [of s] by (auto simp: peek_is_def split: list.splits)

lemma expect_ws_length: "expect e (skip_ws s) = Inr r \<Longrightarrow> length r < length s"
  using skip_ws_cons by (simp add: expect_Inr)

lemma parse_leaf_length: "parse_leaf s = Inr (v, r) \<Longrightarrow> length r \<le> length s"
  by (auto simp: parse_leaf_def bindE_Inr parse_bool_def parse_null_def
      dest!: parse_string_length parse_number_length split: list.splits if_splits)

lemma parse_leaf_fuel: "parse_leaf s \<noteq> Inl Out_of_fuel"
  using parse_string_fuel [of s]
  by (auto simp: parse_leaf_def bindE_def parse_bool_def parse_null_def parse_number_def Let_def
      split: list.splits sum.splits)

lemma inside_length: "peek_is e (skip_ws s) \<Longrightarrow> length (skip_ws (tl (skip_ws s))) < length s"
  using peek_is_length [of e s] length_skip_ws [of "tl (skip_ws s)"] by linarith

lemma parse_lengths:
  "parse_value n s = Inr (v, r) \<Longrightarrow> length r \<le> length s"
  "parse_members n es s = Inr (v, r) \<Longrightarrow> length r \<le> length s"
  "parse_items n xs s = Inr (v, r) \<Longrightarrow> length r \<le> length s"
proof (induction n s and n es s and n xs s arbitrary: v r and v r and v r
    rule: parse_value_parse_members_parse_items.induct)
  case (2 n s)
  let ?t = "skip_ws (tl (skip_ws s))"
  consider "peek_is (CHR ''{'') (skip_ws s) \<or> peek_is (CHR ''['') (skip_ws s)"
    | "parse_leaf (skip_ws s) = Inr (v, r)"
    using "2.prems" by (auto split: if_splits)
  then show ?case
  proof cases
    case 1
    then have "length r \<le> length ?t"
      using "2.prems" "2.IH" by (auto split: if_splits)
    then show ?thesis using 1 inside_length by fastforce
  next
    case 2
    then show ?thesis using parse_leaf_length length_skip_ws le_trans by blast
  qed
next
  case (4 n es s)
  then obtain key s1 s2 v1 s3 where p: "parse_string (skip_ws s) = Inr (key, s1)"
      "expect (CHR '':'') (skip_ws s1) = Inr s2" "parse_value n s2 = Inr (v1, s3)"
    by (auto simp: bindE_Inr)
  have "length s3 < length s"
    using parse_string_length [OF p(1)] expect_ws_length [OF p(2)] "4.IH"(1) [OF p(3)]
      length_skip_ws [of s] by fastforce
  then show ?case
    using "4.prems" p "4.IH"(2) peek_is_length [of _ s3] expect_ws_length [of _ s3]
    by (fastforce simp: bindE_Inr split: if_splits)
next
  case (6 n xs s)
  then obtain v1 s3 where p: "parse_value n s = Inr (v1, s3)" by (auto simp: bindE_Inr)
  with "6.IH"(1) have "length s3 \<le> length s" by blast
  then show ?case
    using "6.prems" p "6.IH"(2) peek_is_length [of _ s3] expect_ws_length [of _ s3]
    by (fastforce simp: bindE_Inr split: if_splits)
qed simp_all


lemma parse_members_step:
  assumes "parse_members (Suc n) es s = Inl Out_of_fuel"
  obtains t where "length t + 2 \<le> length s" "parse_value n t = Inl Out_of_fuel"
    | t fs where "length t < length s" "parse_members n fs t = Inl Out_of_fuel"
proof -
  obtain key s1 where p1: "parse_string (skip_ws s) = Inr (key, s1)"
    using assms parse_string_fuel [of "skip_ws s"] by (cases "parse_string (skip_ws s)") auto
  obtain s2 where p2: "expect (CHR '':'') (skip_ws s1) = Inr s2"
    using assms p1 expect_fuel by (cases "expect (CHR '':'') (skip_ws s1)") auto
  have len: "length s2 + 2 \<le> length s"
    using parse_string_length [OF p1] expect_ws_length [OF p2] length_skip_ws [of s] by linarith
  show thesis
  proof (cases "parse_value n s2")
    case (Inl e)
    then show ?thesis using assms p1 p2 that(1) [OF len] by simp
  next
    case (Inr vr)
    obtain v s3 where v: "vr = (v, s3)" by (cases vr)
    obtain s4 where p4: "expect (CHR '','') (skip_ws s3) = Inr s4"
        "parse_members n (ins_entry key v es) s4 = Inl Out_of_fuel"
      using assms p1 p2 Inr v expect_fuel
      by (cases "expect (CHR '','') (skip_ws s3)") (auto split: if_splits)
    have "length s4 < length s"
      using expect_ws_length [OF p4(1)] parse_lengths(1) [OF Inr [unfolded v]] len by linarith
    then show ?thesis using that(2) p4(2) by blast
  qed
qed

lemma parse_items_step:
  assumes "parse_items (Suc n) xs s = Inl Out_of_fuel"
  obtains "parse_value n s = Inl Out_of_fuel"
    | t ys where "length t < length s" "parse_items n ys t = Inl Out_of_fuel"
proof (cases "parse_value n s")
  case (Inl e)
  then show ?thesis using assms that(1) by simp
next
  case (Inr vr)
  obtain v s3 where v: "vr = (v, s3)" by (cases vr)
  obtain s4 where p4: "expect (CHR '','') (skip_ws s3) = Inr s4"
      "parse_items n (xs @ [v]) s4 = Inl Out_of_fuel"
    using assms Inr v expect_fuel
    by (cases "expect (CHR '','') (skip_ws s3)") (auto split: if_splits)
  have "length s4 < length s"
    using expect_ws_length [OF p4(1)] parse_lengths(1) [OF Inr [unfolded v]] by linarith
  then show ?thesis using that(2) p4(2) by blast
qed

lemma parse_enough_fuel:
  "(2 * length s < n \<longrightarrow> parse_value n s \<noteq> Inl Out_of_fuel) \<and>
   (2 * length s < n \<longrightarrow> parse_members n es s \<noteq> Inl Out_of_fuel) \<and>
   (2 * length s + 1 < n \<longrightarrow> parse_items n xs s \<noteq> Inl Out_of_fuel)"
proof (induction n arbitrary: s es xs)
  case (Suc n)
  note ih = Suc.IH [THEN conjunct1, rule_format] Suc.IH [THEN conjunct2, THEN conjunct1, rule_format]
    Suc.IH [THEN conjunct2, THEN conjunct2, rule_format]
  have "parse_value (Suc n) s \<noteq> Inl Out_of_fuel" if "2 * length s < Suc n"
  proof
    assume out: "parse_value (Suc n) s = Inl Out_of_fuel"
    let ?t = "skip_ws (tl (skip_ws s))"
    have "peek_is (CHR ''{'') (skip_ws s) \<or> peek_is (CHR ''['') (skip_ws s)"
      using out parse_leaf_fuel by (auto split: if_splits)
    then have "length ?t < length s" using inside_length by blast
    then have "2 * length ?t + 1 < n" using that by linarith
    then show False using out ih(2) [of ?t "[]"] ih(3) [of ?t "[]"] parse_leaf_fuel by (auto split: if_splits)
  qed
  moreover have "parse_members (Suc n) es s \<noteq> Inl Out_of_fuel" if "2 * length s < Suc n"
  proof
    assume "parse_members (Suc n) es s = Inl Out_of_fuel"
    then show False
    proof (cases rule: parse_members_step)
      case (1 t)
      then show ?thesis using ih(1) [of t] that by simp
    next
      case (2 t fs)
      then show ?thesis using ih(2) [of t fs] that by simp
    qed
  qed
  moreover have "parse_items (Suc n) xs s \<noteq> Inl Out_of_fuel" if "2 * length s + 1 < Suc n"
  proof
    assume "parse_items (Suc n) xs s = Inl Out_of_fuel"
    then show False
    proof (cases rule: parse_items_step)
      case 1
      then show ?thesis using ih(1) [of s] that by simp
    next
      case (2 t ys)
      then show ?thesis using ih(3) [of t ys] that by simp
    qed
  qed
  ultimately show ?case by blast
qed simp

end
