(* ===== verification/Gold.thy ===== *)
theory Gold
  imports Json
begin

text \<open>
  The bridge from bitcoin to gold, \<open>src/l2/ailee_gold_bridge.h\<close>: the price oracle, the inventory of
  coins, burn proofs, gold tokens, conversions and the bridge over them. Inventory and tokens live
  as JSON text in a key-value store; a write reports whether it happened (\<open>up\<close>), a read does not
  fail. Parameters: \<open>C\<close>, what C++ leaves open (casts of numbers
  out of range, members read before they are written); \<open>sha\<close>; clock readings in
  seconds, one for each; \<open>quotes\<close>, what each oracle answered and the time it was looked at;
  \<open>rpc\<close>, the confirmations the node reports, when there is a client. \<open>std::sort\<close> is stable here.
\<close>

definition ORACLE_TIMEOUT_SECONDS :: u64 where "ORACLE_TIMEOUT_SECONDS = 300"
definition MIN_CONFIRMATIONS :: nat where "MIN_CONFIRMATIONS = 6"
definition BTC_TO_SATOSHI :: double where "BTC_TO_SATOSHI = Fin 100000000"
definition CONVERSION_FEE_PERCENT :: double where "CONVERSION_FEE_PERCENT = Fin (1 / 2)"

datatype gold_error = Json_error json_error | Runtime_error string

definition jsonE :: "json_error + 'a \<Rightarrow> gold_error + 'a" where
  "jsonE m = (case m of Inl e \<Rightarrow> Inl (Json_error e) | Inr x \<Rightarrow> Inr x)"

fun mapE :: "('a \<Rightarrow> 'e + 'b) \<Rightarrow> 'a list \<Rightarrow> 'e + 'b list" where
  "mapE f [] = Inr []"
| "mapE f (x # xs) = bindE (f x) (\<lambda>y. bindE (mapE f xs) (\<lambda>ys. Inr (y # ys)))"

text \<open>Casts out of range and members that were never written.\<close>

record unspecified =
  un_u64 :: "double \<Rightarrow> u64"
  un_int :: "double \<Rightarrow> int"
  un_double :: double
  un_word :: u64
  un_flag :: bool

section \<open>Prices\<close>

record price_data =
  pd_btcUsdPrice :: double
  pd_goldUsdPrice :: double
  pd_timestamp :: u64
  pd_sources :: "string list"
  pd_confidence :: double

fun insert_price :: "price_data \<Rightarrow> price_data list \<Rightarrow> price_data list" where
  "insert_price p [] = [p]"
| "insert_price p (q # qs) =
     (if d_less (pd_btcUsdPrice q) (pd_btcUsdPrice p) then q # insert_price p qs else p # q # qs)"

definition sort_prices :: "price_data list \<Rightarrow> price_data list" where
  "sort_prices ps = foldr insert_price ps []"

definition fresh_prices :: "(price_data option \<times> u64) list \<Rightarrow> price_data list" where
  "fresh_prices quotes =
     concat (map (\<lambda>(answer, now). case answer of
         Some p \<Rightarrow> if now - pd_timestamp p < ORACLE_TIMEOUT_SECONDS then [p] else []
       | None \<Rightarrow> []) quotes)"

definition calculateMedianPrice :: "u64 \<Rightarrow> price_data list \<Rightarrow> gold_error + price_data" where
  "calculateMedianPrice now prices =
     (if prices = [] then Inl (Runtime_error ''No prices to aggregate'')
      else let sorted = sort_prices prices;
               median = sorted ! (length sorted div 2);
               variance = foldl (\<lambda>v p. d_add v (d_abs (d_sub (pd_btcUsdPrice p) (pd_btcUsdPrice median))))
                 (Fin 0) sorted;
               n = round_double (of_nat (length sorted))
           in Inr (median\<lparr>pd_confidence := d_sub (Fin 1) (d_div variance (d_mul (pd_btcUsdPrice median) n)),
                pd_sources := pd_sources median @ concat (map pd_sources sorted), pd_timestamp := now\<rparr>))"

definition getAggregatedPrice ::
    "(price_data option \<times> u64) list \<Rightarrow> u64 \<Rightarrow> gold_error + price_data" where
  "getAggregatedPrice quotes now =
     (if fresh_prices quotes = [] then Inl (Runtime_error ''No valid oracle data available'')
      else calculateMedianPrice now (fresh_prices quotes))"

definition getBtcToGoldRate :: "(price_data option \<times> u64) list \<Rightarrow> u64 \<Rightarrow> gold_error + double" where
  "getBtcToGoldRate quotes now =
     bindE (getAggregatedPrice quotes now) (\<lambda>p. Inr (d_div (pd_btcUsdPrice p) (pd_goldUsdPrice p)))"

section \<open>The store\<close>

type_synonym store = "(string, string) omap"

definition store_put :: "bool \<Rightarrow> string \<Rightarrow> string \<Rightarrow> store \<Rightarrow> bool \<times> store" where
  "store_put up k v db = (up, if up then om_put k v db else db)"

definition executeBatch :: "bool \<Rightarrow> (string \<times> string) list \<Rightarrow> store \<Rightarrow> bool \<times> store" where
  "executeBatch up ops db =
     (if ops = [] then (False, db) else if \<not> up then (False, db)
      else (True, foldl (\<lambda>d (k, v). om_put k v d) db ops))"

text \<open>A list of strings under a key; the empty list when the key is missing.\<close>

definition strings_of_json :: "json \<Rightarrow> json_error + string list" where
  "strings_of_json j = mapE get_string (j_elements j)"

definition strings_to_json :: "string list \<Rightarrow> json" where
  "strings_to_json ss = foldl (\<lambda>a s. j_push (JStr s) a) (JArr []) ss"

definition load_strings :: "string \<Rightarrow> store \<Rightarrow> gold_error + string list" where
  "load_strings k db =
     (case om_get db k of None \<Rightarrow> Inr []
      | Some s \<Rightarrow> jsonE (bindE (parse s) strings_of_json))"

section \<open>The inventory\<close>

text \<open>\<open>GoldDenomination\<close> is an \<open>int\<close> underneath, and any \<open>int\<close> can be cast to it.\<close>

type_synonym denomination = int

definition ONE_TENTH_OZ :: denomination where "ONE_TENTH_OZ = 0"
definition QUARTER_OZ :: denomination where "QUARTER_OZ = 1"
definition HALF_OZ :: denomination where "HALF_OZ = 2"
definition ONE_OZ :: denomination where "ONE_OZ = 3"
definition FIVE_OZ :: denomination where "FIVE_OZ = 4"
definition TEN_OZ :: denomination where "TEN_OZ = 5"

record inventory_item =
  ii_serialNumber :: string
  ii_denomination :: denomination
  ii_weightOz :: double
  ii_location :: string
  ii_available :: bool
  ii_lastAuditTimestamp :: u64

record location_inventory =
  li_locationId :: string
  li_address :: string
  li_items :: "inventory_item list"
  li_totalWeightOz :: double
  li_lastRestockTimestamp :: u64

definition item_to_json :: "inventory_item \<Rightarrow> json" where
  "item_to_json i =
     foldl (\<lambda>j (k, v). j_put k v j) JNull
       [(''serialNumber'', JStr (ii_serialNumber i)),
        (''denomination'', JNum (double_of_int (ii_denomination i))),
        (''weightOz'', JNum (ii_weightOz i)),
        (''location'', JStr (ii_location i)),
        (''available'', JBool (ii_available i)),
        (''lastAuditTimestamp'', JNum (double_of_u64 (ii_lastAuditTimestamp i)))]"

definition item_from_json :: "unspecified \<Rightarrow> json \<Rightarrow> json_error + inventory_item" where
  "item_from_json C j =
     bindE (j_value get_string j ''serialNumber'' '''') (\<lambda>serial.
     bindE (j_value get_double j ''denomination'' (Fin 0)) (\<lambda>denom.
     bindE (j_value get_double j ''weightOz'' (Fin 0)) (\<lambda>weight.
     bindE (j_value get_string j ''location'' '''') (\<lambda>loc.
     bindE (j_value get_bool j ''available'' False) (\<lambda>available.
     bindE (j_value get_double j ''lastAuditTimestamp'' (Fin 0)) (\<lambda>audit.
       Inr \<lparr>ii_serialNumber = serial, ii_denomination = cast_i32 (un_int C) denom, ii_weightOz = weight,
         ii_location = loc, ii_available = available,
         ii_lastAuditTimestamp = cast_u64 (un_u64 C) audit\<rparr>))))))"

definition loc_to_json :: "location_inventory \<Rightarrow> json" where
  "loc_to_json l =
     foldl (\<lambda>j (k, v). j_put k v j) JNull
       [(''locationId'', JStr (li_locationId l)),
        (''address'', JStr (li_address l)),
        (''items'', foldl (\<lambda>a i. j_push (item_to_json i) a) (JArr []) (li_items l)),
        (''totalWeightOz'', JNum (li_totalWeightOz l)),
        (''lastRestockTimestamp'', JNum (double_of_u64 (li_lastRestockTimestamp l)))]"

text \<open>A member that is assigned only when the key is there.\<close>

definition if_contains :: "(json \<Rightarrow> json_error + 'a) \<Rightarrow> json \<Rightarrow> string \<Rightarrow> 'a \<Rightarrow> json_error + 'a" where
  "if_contains get j key old = (if j_contains j key then get (j_at j key) else Inr old)"

definition loc_from_json ::
    "unspecified \<Rightarrow> json \<Rightarrow> json_error + location_inventory" where
  "loc_from_json C j =
     bindE (if_contains get_string j ''locationId'' '''') (\<lambda>lid.
     bindE (if_contains get_string j ''address'' '''') (\<lambda>addr.
     bindE (if_contains (\<lambda>a. mapE (item_from_json C) (j_elements a)) j ''items'' []) (\<lambda>its.
     bindE (if_contains get_double j ''totalWeightOz'' (un_double C)) (\<lambda>total.
     bindE (if_contains (\<lambda>v. bindE (get_double v) (\<lambda>d. Inr (cast_u64 (un_u64 C) d))) j
        ''lastRestockTimestamp'' (un_word C)) (\<lambda>restock.
       Inr \<lparr>li_locationId = lid, li_address = addr, li_items = its, li_totalWeightOz = total,
         li_lastRestockTimestamp = restock\<rparr>)))))"


definition loc_key :: "string \<Rightarrow> string" where
  "loc_key locationId = ''gold_inv_loc_'' @ locationId"

definition locs_index :: string where
  "locs_index = ''gold_inv_locs_index''"

definition load_loc :: "unspecified \<Rightarrow> string \<Rightarrow> store \<Rightarrow> gold_error + location_inventory option" where
  "load_loc C locationId db =
     (case om_get db (loc_key locationId) of None \<Rightarrow> Inr None
      | Some s \<Rightarrow> bindE (jsonE (bindE (parse s) (loc_from_json C))) (\<lambda>l. Inr (Some l)))"

definition getLocations :: "store \<Rightarrow> gold_error + string list" where
  "getLocations db = load_strings locs_index db"

text \<open>The first write stays when reading the index throws.\<close>

definition addLocation ::
    "bool \<Rightarrow> u64 \<Rightarrow> string \<Rightarrow> string \<Rightarrow> store \<Rightarrow> (gold_error + unit) \<times> store" where
  "addLocation up now locationId address db =
     (let loc = \<lparr>li_locationId = locationId, li_address = address, li_items = [],
            li_totalWeightOz = Fin 0, li_lastRestockTimestamp = now\<rparr>;
          db1 = snd (store_put up (loc_key locationId) (dump (loc_to_json loc)) db)
      in case load_strings locs_index db1 of
           Inl e \<Rightarrow> (Inl e, db1)
         | Inr locs \<Rightarrow>
             if locationId \<in> set locs then (Inr (), db1)
             else (Inr (), snd (store_put up locs_index (dump (strings_to_json (locs @ [locationId]))) db1)))"

definition addGoldCoin ::
    "unspecified \<Rightarrow> bool \<Rightarrow> string \<Rightarrow> inventory_item \<Rightarrow> store \<Rightarrow> (gold_error + bool) \<times> store" where
  "addGoldCoin C up locationId item db =
     (case load_loc C locationId db of
        Inl e \<Rightarrow> (Inl e, db)
      | Inr None \<Rightarrow> (Inr False, db)
      | Inr (Some loc) \<Rightarrow>
          let loc = loc\<lparr>li_items := li_items loc @ [item],
                li_totalWeightOz := d_add (li_totalWeightOz loc) (ii_weightOz item)\<rparr>
          in (Inr True, snd (store_put up (loc_key locationId) (dump (loc_to_json loc)) db)))"

definition findAndReserve ::
    "unspecified \<Rightarrow> string \<Rightarrow> denomination \<Rightarrow> store \<Rightarrow> gold_error + inventory_item option" where
  "findAndReserve C locationId denom db =
     bindE (load_loc C locationId db) (\<lambda>l. Inr (case l of None \<Rightarrow> None
       | Some loc \<Rightarrow> find (\<lambda>i. ii_available i \<and> ii_denomination i = denom) (li_items loc)))"

fun first_reserved ::
    "unspecified \<Rightarrow> denomination \<Rightarrow> string list \<Rightarrow> store \<Rightarrow> gold_error + inventory_item option" where
  "first_reserved C denom [] db = Inr None"
| "first_reserved C denom (l # ls) db =
     bindE (findAndReserve C l denom db) (\<lambda>item.
       case item of Some i \<Rightarrow> Inr (Some i) | None \<Rightarrow> first_reserved C denom ls db)"

definition reserveGold ::
    "unspecified \<Rightarrow> denomination \<Rightarrow> string \<Rightarrow> store \<Rightarrow> gold_error + inventory_item option" where
  "reserveGold C denom preferred db =
     bindE (if preferred = [] then Inr None else findAndReserve C preferred denom db) (\<lambda>item.
       case item of Some i \<Rightarrow> Inr (Some i)
       | None \<Rightarrow> bindE (getLocations db) (\<lambda>ls. first_reserved C denom ls db))"

definition getAvailableWeight :: "unspecified \<Rightarrow> string \<Rightarrow> store \<Rightarrow> gold_error + double" where
  "getAvailableWeight C locationId db =
     bindE (load_loc C locationId db) (\<lambda>l. Inr (case l of None \<Rightarrow> Fin 0
       | Some loc \<Rightarrow> foldl (\<lambda>w i. if ii_available i then d_add w (ii_weightOz i) else w) (Fin 0) (li_items loc)))"

text \<open>The first coin with the serial number becomes unavailable.\<close>

fun dispense_first :: "string \<Rightarrow> inventory_item list \<Rightarrow> inventory_item list option" where
  "dispense_first serial [] = None"
| "dispense_first serial (i # is) =
     (if ii_serialNumber i = serial then Some (i\<lparr>ii_available := False\<rparr> # is)
      else map_option (Cons i) (dispense_first serial is))"

fun dispense_op ::
    "unspecified \<Rightarrow> string \<Rightarrow> string list \<Rightarrow> store \<Rightarrow> gold_error + (string \<times> string) option" where
  "dispense_op C serial [] db = Inr None"
| "dispense_op C serial (l # ls) db =
     bindE (load_loc C l db) (\<lambda>lo.
       case lo of None \<Rightarrow> dispense_op C serial ls db
       | Some loc \<Rightarrow> (case dispense_first serial (li_items loc) of
             None \<Rightarrow> dispense_op C serial ls db
           | Some its \<Rightarrow> Inr (Some (loc_key l, dump (loc_to_json (loc\<lparr>li_items := its\<rparr>))))))"

definition getMarkAsDispensedOp ::
    "unspecified \<Rightarrow> string \<Rightarrow> store \<Rightarrow> gold_error + (string \<times> string) option" where
  "getMarkAsDispensedOp C serial db =
     bindE (getLocations db) (\<lambda>ls. dispense_op C serial ls db)"

definition markAsDispensed ::
    "unspecified \<Rightarrow> bool \<Rightarrow> string \<Rightarrow> store \<Rightarrow> (gold_error + bool) \<times> store" where
  "markAsDispensed C up serial db =
     (case getMarkAsDispensedOp C serial db of
        Inl e \<Rightarrow> (Inl e, db)
      | Inr None \<Rightarrow> (Inr False, db)
      | Inr (Some (k, v)) \<Rightarrow> let (ok, db1) = store_put up k v db in (Inr ok, db1))"

section \<open>Burn proofs\<close>

record burn_proof =
  bp_txId :: string
  bp_voutIndex :: u32
  bp_amountSatoshis :: u64
  bp_burnAddress :: string
  bp_blockHeight :: u64
  bp_timestamp :: u64
  bp_merkleProof :: bytes
  bp_verified :: bool

definition contains_text :: "string \<Rightarrow> string \<Rightarrow> bool" where
  "contains_text needle s = list_ex (\<lambda>i. take (length needle) (drop i s) = needle) [0..<Suc (length s)]"

definition isValidBurnAddress :: "string \<Rightarrow> bool" where
  "isValidBurnAddress address =
     (contains_text ''BitcoinEater'' address \<or> contains_text ''1111111111111111111114oLvT2'' address)"

definition proof_hash :: "(bytes \<Rightarrow> bytes) \<Rightarrow> string \<Rightarrow> u32 \<Rightarrow> u64 \<Rightarrow> bytes" where
  "proof_hash sha txId vout amount = sha (str_bytes (txId @ to_dec (unat vout) @ to_dec (unat amount)))"

definition createBurnProof ::
    "(bytes \<Rightarrow> bytes) \<Rightarrow> u64 \<Rightarrow> string \<Rightarrow> u32 \<Rightarrow> u64 \<Rightarrow> u64 \<Rightarrow> burn_proof" where
  "createBurnProof sha now txId vout amount blockHeight =
     \<lparr>bp_txId = txId, bp_voutIndex = vout, bp_amountSatoshis = amount,
      bp_burnAddress = ''1BitcoinEaterAddressDontSendf59kuE'', bp_blockHeight = blockHeight,
      bp_timestamp = now, bp_merkleProof = proof_hash sha txId vout amount, bp_verified = False\<rparr>"

definition verifyBurnProof ::
    "(bytes \<Rightarrow> bytes) \<Rightarrow> (string \<Rightarrow> int) option \<Rightarrow> burn_proof \<Rightarrow> nat \<Rightarrow> bool" where
  "verifyBurnProof sha rpc p minConfirmations =
     (if \<not> isValidBurnAddress (bp_burnAddress p) then False
      else if proof_hash sha (bp_txId p) (bp_voutIndex p) (bp_amountSatoshis p) \<noteq> bp_merkleProof p then False
      else case rpc of
          Some node \<Rightarrow> let n = node (bp_txId p) in
            if n < 0 then False else int minConfirmations \<le> n
        | None \<Rightarrow> False)"

section \<open>Tokens\<close>

record gold_token =
  gt_tokenId :: string
  gt_ownerAddress :: string
  gt_weightOz :: double
  gt_denomination :: denomination
  gt_backedBySerial :: string
  gt_custodianLocation :: string
  gt_issuanceTimestamp :: u64
  gt_redeemed :: bool

definition token_to_json :: "gold_token \<Rightarrow> json" where
  "token_to_json t =
     foldl (\<lambda>j (k, v). j_put k v j) JNull
       [(''tokenId'', JStr (gt_tokenId t)),
        (''ownerAddress'', JStr (gt_ownerAddress t)),
        (''weightOz'', JNum (gt_weightOz t)),
        (''denomination'', JNum (double_of_int (gt_denomination t))),
        (''backedBySerial'', JStr (gt_backedBySerial t)),
        (''custodianLocation'', JStr (gt_custodianLocation t)),
        (''issuanceTimestamp'', JNum (double_of_u64 (gt_issuanceTimestamp t))),
        (''redeemed'', JBool (gt_redeemed t))]"

definition token_from_json :: "unspecified \<Rightarrow> json \<Rightarrow> json_error + gold_token" where
  "token_from_json C j =
     bindE (if_contains get_string j ''tokenId'' '''') (\<lambda>tid.
     bindE (if_contains get_string j ''ownerAddress'' '''') (\<lambda>owner.
     bindE (if_contains get_double j ''weightOz'' (un_double C)) (\<lambda>weight.
     bindE (if_contains (\<lambda>v. bindE (get_double v) (\<lambda>d. Inr (cast_i32 (un_int C) d))) j ''denomination''
        (uint (un_word C))) (\<lambda>denom.
     bindE (if_contains get_string j ''backedBySerial'' '''') (\<lambda>serial.
     bindE (if_contains get_string j ''custodianLocation'' '''') (\<lambda>loc.
     bindE (if_contains (\<lambda>v. bindE (get_double v) (\<lambda>d. Inr (cast_u64 (un_u64 C) d))) j ''issuanceTimestamp''
        (un_word C)) (\<lambda>issued.
     bindE (if_contains get_bool j ''redeemed'' (un_flag C)) (\<lambda>redeemed.
       Inr \<lparr>gt_tokenId = tid, gt_ownerAddress = owner, gt_weightOz = weight, gt_denomination = denom,
         gt_backedBySerial = serial, gt_custodianLocation = loc, gt_issuanceTimestamp = issued,
         gt_redeemed = redeemed\<rparr>))))))))"

definition token_key :: "string \<Rightarrow> string" where
  "token_key tokenId = ''gold_token_'' @ tokenId"

definition owner_key :: "string \<Rightarrow> string" where
  "owner_key owner = ''gold_owner_'' @ owner"

definition generateTokenId :: "(bytes \<Rightarrow> bytes) \<Rightarrow> u64 \<Rightarrow> string \<Rightarrow> string \<Rightarrow> string" where
  "generateTokenId sha now owner serial = hex_of (sha (str_bytes (owner @ serial @ to_dec (unat now))))"

definition getIssueTokenOps ::
    "(bytes \<Rightarrow> bytes) \<Rightarrow> u64 \<Rightarrow> u64 \<Rightarrow> string \<Rightarrow> inventory_item \<Rightarrow> store \<Rightarrow>
     gold_error + string \<times> (string \<times> string) list" where
  "getIssueTokenOps sha now1 now2 ownerAddress backingGold db =
     (let tokenId = generateTokenId sha now1 ownerAddress (ii_serialNumber backingGold);
          token = \<lparr>gt_tokenId = tokenId, gt_ownerAddress = ownerAddress, gt_weightOz = ii_weightOz backingGold,
            gt_denomination = ii_denomination backingGold, gt_backedBySerial = ii_serialNumber backingGold,
            gt_custodianLocation = ii_location backingGold, gt_issuanceTimestamp = now2, gt_redeemed = False\<rparr>
      in bindE (load_strings (owner_key ownerAddress) db) (\<lambda>owned.
         Inr (tokenId, [(token_key tokenId, dump (token_to_json token)),
           (owner_key ownerAddress, dump (strings_to_json (owned @ [tokenId])))])))"

definition issueToken ::
    "(bytes \<Rightarrow> bytes) \<Rightarrow> bool \<Rightarrow> u64 \<Rightarrow> u64 \<Rightarrow> string \<Rightarrow> inventory_item \<Rightarrow> store \<Rightarrow>
     (gold_error + string) \<times> store" where
  "issueToken sha up now1 now2 ownerAddress backingGold db =
     (case getIssueTokenOps sha now1 now2 ownerAddress backingGold db of
        Inl e \<Rightarrow> (Inl e, db)
      | Inr (tokenId, ops) \<Rightarrow> (Inr tokenId, snd (executeBatch up ops db)))"

definition getToken :: "unspecified \<Rightarrow> string \<Rightarrow> store \<Rightarrow> gold_error + gold_token option" where
  "getToken C tokenId db =
     (case om_get db (token_key tokenId) of None \<Rightarrow> Inr None
      | Some s \<Rightarrow> bindE (jsonE (bindE (parse s) (token_from_json C))) (\<lambda>t. Inr (Some t)))"

definition redeemToken ::
    "unspecified \<Rightarrow> bool \<Rightarrow> string \<Rightarrow> string \<Rightarrow> store \<Rightarrow> (gold_error + bool) \<times> store" where
  "redeemToken C up tokenId claimant db =
     (case getToken C tokenId db of
        Inl e \<Rightarrow> (Inl e, db)
      | Inr None \<Rightarrow> (Inr False, db)
      | Inr (Some token) \<Rightarrow>
          if gt_redeemed token then (Inr False, db)
          else if gt_ownerAddress token \<noteq> claimant then (Inr False, db)
          else let oldOwner = gt_ownerAddress token;
                   token' = token\<lparr>gt_redeemed := True, gt_ownerAddress := ''REDEEMED''\<rparr>;
                   tokenOp = (token_key tokenId, dump (token_to_json token'))
               in case load_strings (owner_key oldOwner) db of
                    Inl e \<Rightarrow> (Inl e, db)
                  | Inr owned \<Rightarrow>
                      let ops = (if tokenId \<in> set owned
                           then [tokenOp, (owner_key oldOwner, dump (strings_to_json (remove1 tokenId owned)))]
                           else [tokenOp]);
                          (ok, db1) = executeBatch up ops db
                      in (Inr ok, db1))"

definition getTokensByOwner :: "unspecified \<Rightarrow> string \<Rightarrow> store \<Rightarrow> gold_error + gold_token list" where
  "getTokensByOwner C owner db =
     bindE (load_strings (owner_key owner) db) (\<lambda>ids.
     bindE (mapE (\<lambda>i. getToken C i db) ids) (\<lambda>ts.
       Inr (filter (\<lambda>t. \<not> gt_redeemed t) (concat (map (\<lambda>t. case t of None \<Rightarrow> [] | Some t \<Rightarrow> [t]) ts)))))"

section \<open>Conversions\<close>

datatype conversion_status =
  PENDING_PAYMENT | PAYMENT_CONFIRMED | PRICE_LOCKED | GOLD_RESERVED | TOKEN_ISSUED |
  PHYSICAL_DISPENSED | COMPLETED | FAILED

record conversion =
  cv_conversionId :: string
  cv_userAddress :: string
  cv_btcAmountSatoshis :: u64
  cv_goldWeightOz :: double
  cv_denomination :: denomination
  cv_btcPriceUsd :: double
  cv_goldPriceUsd :: double
  cv_timestamp :: u64
  cv_status :: conversion_status
  cv_burnProof :: burn_proof
  cv_goldTokenId :: string
  cv_goldSerialNumber :: string
  cv_burnOption :: bool

text \<open>The strings start empty; the numbers of \<open>raw\<close> are whatever was in memory.\<close>

definition new_conversion ::
    "(bytes \<Rightarrow> bytes) \<Rightarrow> conversion \<Rightarrow> u64 \<Rightarrow> u64 \<Rightarrow> string \<Rightarrow> u64 \<Rightarrow> bool \<Rightarrow> conversion" where
  "new_conversion sha raw now1 now2 userAddr btcAmount burn =
     raw\<lparr>cv_conversionId := hex_of (sha (str_bytes (userAddr @ to_dec (unat btcAmount) @ to_dec (unat now1)))),
        cv_userAddress := userAddr, cv_btcAmountSatoshis := btcAmount, cv_timestamp := now2,
        cv_status := PENDING_PAYMENT, cv_burnOption := burn, cv_goldTokenId := '''', cv_goldSerialNumber := '''',
        cv_burnProof := (cv_burnProof raw)\<lparr>bp_txId := '''', bp_burnAddress := '''', bp_merkleProof := []\<rparr>\<rparr>"

definition processPayment ::
    "(bytes \<Rightarrow> bytes) \<Rightarrow> u64 \<Rightarrow> string \<Rightarrow> u32 \<Rightarrow> u64 \<Rightarrow> conversion \<Rightarrow> bool \<times> conversion" where
  "processPayment sha now txId vout blockHeight c =
     (if cv_status c \<noteq> PENDING_PAYMENT then (False, c)
      else let c1 = (if cv_burnOption c
               then c\<lparr>cv_burnProof := createBurnProof sha now txId vout (cv_btcAmountSatoshis c) blockHeight\<rparr>
               else c)
           in (True, c1\<lparr>cv_status := PAYMENT_CONFIRMED\<rparr>))"

definition lockPrice :: "price_data \<Rightarrow> conversion \<Rightarrow> bool \<times> conversion" where
  "lockPrice p c =
     (if cv_status c \<noteq> PAYMENT_CONFIRMED then (False, c)
      else let btcValue = d_mul (d_div (double_of_u64 (cv_btcAmountSatoshis c)) BTC_TO_SATOSHI) (pd_btcUsdPrice p);
               feeAmount = d_mul btcValue (d_div CONVERSION_FEE_PERCENT (Fin 100));
               netValue = d_sub btcValue feeAmount
           in (True, c\<lparr>cv_btcPriceUsd := pd_btcUsdPrice p, cv_goldPriceUsd := pd_goldUsdPrice p,
                cv_goldWeightOz := d_div netValue (pd_goldUsdPrice p), cv_status := PRICE_LOCKED\<rparr>))"

definition conversion_reserveGold ::
    "unspecified \<Rightarrow> denomination \<Rightarrow> store \<Rightarrow> conversion \<Rightarrow> (gold_error + bool) \<times> conversion" where
  "conversion_reserveGold C denom db c =
     (if cv_status c \<noteq> PRICE_LOCKED then (Inr False, c)
      else case reserveGold C denom '''' db of
          Inl e \<Rightarrow> (Inl e, c)
        | Inr None \<Rightarrow> (Inr False, c\<lparr>cv_status := FAILED\<rparr>)
        | Inr (Some item) \<Rightarrow> (Inr True, c\<lparr>cv_goldSerialNumber := ii_serialNumber item,
            cv_denomination := denom, cv_status := GOLD_RESERVED\<rparr>))"

definition conversion_issueToken ::
    "(bytes \<Rightarrow> bytes) \<Rightarrow> bool \<Rightarrow> u64 \<Rightarrow> u64 \<Rightarrow> inventory_item \<Rightarrow> store \<Rightarrow> conversion \<Rightarrow>
     (gold_error + bool) \<times> conversion \<times> store" where
  "conversion_issueToken sha up now1 now2 item db c =
     (if cv_status c \<noteq> GOLD_RESERVED then (Inr False, c, db)
      else case issueToken sha up now1 now2 (cv_userAddress c) item db of
          (Inl e, db1) \<Rightarrow> (Inl e, c, db1)
        | (Inr tid, db1) \<Rightarrow> (Inr True, c\<lparr>cv_goldTokenId := tid, cv_status := TOKEN_ISSUED\<rparr>, db1))"

definition markTokenIssued :: "string \<Rightarrow> conversion \<Rightarrow> bool \<times> conversion" where
  "markTokenIssued tokenId c =
     (if cv_status c \<noteq> GOLD_RESERVED then (False, c)
      else (True, c\<lparr>cv_goldTokenId := tokenId, cv_status := TOKEN_ISSUED\<rparr>))"

definition completePhysicalDispense :: "conversion \<Rightarrow> bool \<times> conversion" where
  "completePhysicalDispense c =
     (if cv_status c \<noteq> TOKEN_ISSUED then (False, c) else (True, c\<lparr>cv_status := COMPLETED\<rparr>))"

section \<open>The bridge\<close>

record gold_bridge =
  gb_store :: store
  gb_conversions :: "(string, conversion) omap"

definition set_conversion :: "string \<Rightarrow> conversion \<Rightarrow> gold_bridge \<Rightarrow> gold_bridge" where
  "set_conversion cid c g = g\<lparr>gb_conversions := om_put cid c (gb_conversions g)\<rparr>"

definition initiateConversion ::
    "(bytes \<Rightarrow> bytes) \<Rightarrow> conversion \<Rightarrow> u64 \<Rightarrow> u64 \<Rightarrow> string \<Rightarrow> u64 \<Rightarrow> bool \<Rightarrow> gold_bridge \<Rightarrow>
     string \<times> gold_bridge" where
  "initiateConversion sha raw now1 now2 userAddress btcAmount burn g =
     (let c = new_conversion sha raw now1 now2 userAddress btcAmount burn
      in (cv_conversionId c, set_conversion (cv_conversionId c) c g))"

definition confirmPayment ::
    "(bytes \<Rightarrow> bytes) \<Rightarrow> u64 \<Rightarrow> string \<Rightarrow> string \<Rightarrow> u32 \<Rightarrow> u64 \<Rightarrow> gold_bridge \<Rightarrow> bool \<times> gold_bridge" where
  "confirmPayment sha now cid btcTxId vout blockHeight g =
     (case om_get (gb_conversions g) cid of
        None \<Rightarrow> (False, g)
      | Some c \<Rightarrow> let (ok, c1) = processPayment sha now btcTxId vout blockHeight c in (ok, set_conversion cid c1 g))"

text \<open>The last part of an execution: coin and token change hands in one batch.\<close>

definition settle ::
    "unspecified \<Rightarrow> (bytes \<Rightarrow> bytes) \<Rightarrow> bool \<Rightarrow> u64 \<Rightarrow> u64 \<Rightarrow> inventory_item \<Rightarrow> store \<Rightarrow> conversion \<Rightarrow>
     (gold_error + bool) \<times> conversion \<times> store" where
  "settle C sha up now1 now2 item db c =
     (case getMarkAsDispensedOp C (ii_serialNumber item) db of
        Inl e \<Rightarrow> (Inl e, c, db)
      | Inr None \<Rightarrow> (Inr False, c, db)
      | Inr (Some dispenseOp) \<Rightarrow>
          (case getIssueTokenOps sha now1 now2 (cv_userAddress c) item db of
             Inl e \<Rightarrow> (Inl e, c, db)
           | Inr (tokenId, ops) \<Rightarrow>
               let (ok, db1) = executeBatch up (dispenseOp # ops) db in
               if \<not> ok then (Inr False, c, db1)
               else let (done, c2) = completePhysicalDispense (snd (markTokenIssued tokenId c))
                    in (Inr done, c2, db1)))"

definition executeConversion ::
    "unspecified \<Rightarrow> (bytes \<Rightarrow> bytes) \<Rightarrow> (string \<Rightarrow> int) option \<Rightarrow> (price_data option \<times> u64) list \<Rightarrow>
     bool \<Rightarrow> u64 \<Rightarrow> u64 \<Rightarrow> u64 \<Rightarrow> string \<Rightarrow> denomination \<Rightarrow> gold_bridge \<Rightarrow>
     (gold_error + bool) \<times> gold_bridge" where
  "executeConversion C sha rpc quotes up now now1 now2 cid denom g =
     (case om_get (gb_conversions g) cid of
        None \<Rightarrow> (Inr False, g)
      | Some c \<Rightarrow>
          if cv_burnOption c \<and> \<not> verifyBurnProof sha rpc (cv_burnProof c) MIN_CONFIRMATIONS then (Inr False, g)
          else case getAggregatedPrice quotes now of
            Inl e \<Rightarrow> (Inl e, g)
          | Inr price \<Rightarrow>
            let (locked, c1) = lockPrice price c; g1 = set_conversion cid c1 g in
            if \<not> locked then (Inr False, g1)
            else case conversion_reserveGold C denom (gb_store g) c1 of
              (Inl e, c2) \<Rightarrow> (Inl e, set_conversion cid c2 g1)
            | (Inr False, c2) \<Rightarrow> (Inr False, set_conversion cid c2 g1)
            | (Inr True, c2) \<Rightarrow>
              let g2 = set_conversion cid c2 g1 in
              (case reserveGold C denom '''' (gb_store g) of
                 Inl e \<Rightarrow> (Inl e, g2)
               | Inr None \<Rightarrow> (Inr False, g2)
               | Inr (Some item) \<Rightarrow>
                   let (res, c3, db) = settle C sha up now1 now2 item (gb_store g) c2
                   in (res, (set_conversion cid c3 g2)\<lparr>gb_store := db\<rparr>)))"

definition getConversionStatus :: "string \<Rightarrow> gold_bridge \<Rightarrow> conversion_status" where
  "getConversionStatus cid g =
     (case om_get (gb_conversions g) cid of None \<Rightarrow> FAILED | Some c \<Rightarrow> cv_status c)"

section \<open>Sequences of calls\<close>

datatype gold_call =
    AddLocation bool u64 string string
  | AddGoldCoin bool string inventory_item
  | MarkAsDispensed bool string
  | Initiate conversion u64 u64 string u64 bool
  | Confirm u64 string string u32 u64
  | Execute "(string \<Rightarrow> int) option" "(price_data option \<times> u64) list" bool u64 u64 u64 string denomination
  | Redeem bool string string

fun gold_step :: "unspecified \<Rightarrow> (bytes \<Rightarrow> bytes) \<Rightarrow> gold_bridge \<Rightarrow> gold_call \<Rightarrow> gold_bridge" where
  "gold_step C sha g (AddLocation up now l a) = g\<lparr>gb_store := snd (addLocation up now l a (gb_store g))\<rparr>"
| "gold_step C sha g (AddGoldCoin up l i) = g\<lparr>gb_store := snd (addGoldCoin C up l i (gb_store g))\<rparr>"
| "gold_step C sha g (MarkAsDispensed up s) = g\<lparr>gb_store := snd (markAsDispensed C up s (gb_store g))\<rparr>"
| "gold_step C sha g (Initiate raw now1 now2 u a b) = snd (initiateConversion sha raw now1 now2 u a b g)"
| "gold_step C sha g (Confirm now cid t v h) = snd (confirmPayment sha now cid t v h g)"
| "gold_step C sha g (Execute rpc q up now now1 now2 cid d) =
     snd (executeConversion C sha rpc q up now now1 now2 cid d g)"
| "gold_step C sha g (Redeem up tid u) = g\<lparr>gb_store := snd (redeemToken C up tid u (gb_store g))\<rparr>"

definition new_gold_bridge :: gold_bridge where
  "new_gold_bridge = \<lparr>gb_store = om_empty, gb_conversions = om_empty\<rparr>"

end
