(* ===== verification/Json_Props.thy ===== *)
theory Json_Props
  imports Json
begin

text \<open>
  What happens to a JSON value on its way through text. Numbers keep six significant digits,
  everything else is kept, provided that object keys need no escape, which \<open>dump\<close> does not give
  them, and that numbers are finite and not so small that reading them back is a range error.
\<close>

section \<open>Values that have a text\<close>

definition printable :: "double \<Rightarrow> bool" where
  "printable d \<longleftrightarrow> d_finite d \<and> (case stod (d_print d) of Inr v \<Rightarrow> True | Inl e \<Rightarrow> False)"

definition reread :: "double \<Rightarrow> double" where
  "reread d = (case stod (d_print d) of Inr v \<Rightarrow> v | Inl e \<Rightarrow> d)"

definition plain_key :: "string \<Rightarrow> bool" where
  "plain_key k \<longleftrightarrow> list_all (\<lambda>c. c \<noteq> CHR 0x22 \<and> c \<noteq> CHR 0x5C) k"

fun storable :: "json \<Rightarrow> bool" where
  "storable (JNum d) = printable d"
| "storable (JArr xs) = list_all storable xs"
| "storable (JObj es) = (sorted_wrt (<) (map fst es) \<and>
     list_all (\<lambda>e. plain_key (fst e) \<and> storable (snd e)) es)"
| "storable _ = True"

fun stored :: "json \<Rightarrow> json" where
  "stored (JNum d) = JNum (reread d)"
| "stored (JArr xs) = JArr (map stored xs)"
| "stored (JObj es) = JObj (map (\<lambda>e. (fst e, stored (snd e))) es)"
| "stored j = j"

section \<open>Strings\<close>

lemma string_body_escaped:
  "string_body acc (concat (map escape_char s) @ CHR 0x22 # rest) = Inr (acc @ s, rest)"
proof (induction s arbitrary: acc)
  case (Cons c s)
  then show ?case by (simp add: unescape_def)
qed simp

lemma string_body_plain: "plain_key k \<Longrightarrow> string_body acc (k @ CHR 0x22 # rest) = Inr (acc @ k, rest)"
  by (induction k arbitrary: acc) (auto simp: plain_key_def)

lemma parse_string_shown:
  "parse_string (CHR 0x22 # concat (map escape_char s) @ CHR 0x22 # rest) = Inr (s, rest)"
  by (simp add: parse_string_def expect_def string_body_escaped)

lemma parse_key_shown: "plain_key k \<Longrightarrow> parse_string (CHR 0x22 # k @ CHR 0x22 # rest) = Inr (k, rest)"
  by (simp add: parse_string_def expect_def string_body_plain)

section \<open>Numbers\<close>

definition ends_value :: "string \<Rightarrow> bool" where
  "ends_value rest \<longleftrightarrow> (case rest of [] \<Rightarrow> True
     | c # cs \<Rightarrow> \<not> is_digit c \<and> c \<noteq> CHR ''.'' \<and> c \<noteq> CHR ''e'' \<and> c \<noteq> CHR ''E'')"

lemma ends_value_number: "ends_value rest \<Longrightarrow> ends_number rest"
  by (cases rest) (simp_all add: ends_value_def)

lemma d_print_shape:
  assumes "d_finite d"
  obtains sg ip fp e where "d_print d = sg @ number_text ip fp e" "sg = [] \<or> sg = ''-''"
    "list_all is_digit ip" "ip \<noteq> []" "list_all is_digit fp"
proof (cases "d_rat d = 0")
  case True
  have zero: "number_text ''0'' [] None = ''0''" "list_all is_digit ''0''"
    by (simp_all add: number_text_def point_def exp_part_def is_digit_def)
  consider "d = Fin 0" | "d = NegZero" using True assms by (cases d) auto
  then show thesis
    using that [of "[]" "''0''" "[]" None] that [of "''-''" "''0''" "[]" None] zero by cases auto
next
  case False
  then obtain r where d: "d = Fin r" "r \<noteq> 0" by (cases d) auto
  obtain m x where "sci6 \<bar>r\<bar> = (m, x)" by (cases "sci6 \<bar>r\<bar>")
  moreover have "0 < \<bar>r\<bar>" using d(2) by simp
  ultimately obtain ip fp e where t: "print_pos \<bar>r\<bar> = number_text ip fp e" "list_all is_digit ip" "ip \<noteq> []"
      "list_all is_digit fp"
    using print_pos_text by metis
  have "d_print d = (if r < 0 then ''-'' else []) @ number_text ip fp e"
    using d t(1) by (auto simp: abs_if split: if_splits)
  then show thesis using that [of "if r < 0 then ''-'' else []"] t by auto
qed

lemma after_number_exp:
  assumes "ends_value rest"
  shows "(case exp_part e @ rest of
      c # cs \<Rightarrow> if c = CHR ''e'' \<or> c = CHR ''E''
        then dropWhile is_digit (drop_if (\<lambda>d. d = CHR ''+'' \<or> d = CHR ''-'') cs) else exp_part e @ rest
    | [] \<Rightarrow> []) = rest"
proof (cases e)
  case None
  then show ?thesis using assms by (cases rest) (simp_all add: exp_part_def ends_value_def)
next
  case (Some x)
  obtain ds where ds: "exp_text x = (if x < 0 then CHR ''-'' else CHR ''+'') # ds" "list_all is_digit ds"
    using exp_text_digits [of x] by blast
  have "dropWhile is_digit (ds @ rest) = rest"
    using takeWhile_digits [OF ds(2) ends_value_number [OF assms]] by simp
  then show ?thesis by (simp add: Some exp_part_def ds(1) drop_if_def)
qed

lemma after_number_text:
  assumes "list_all is_digit ip" "ip \<noteq> []" "list_all is_digit fp" "ends_value rest"
    and "sg = [] \<or> sg = ''-''"
  shows "after_number (sg @ number_text ip fp e @ rest) = rest"
proof -
  let ?r = "exp_part e @ rest"
  have r: "ends_number ?r" "?r = c # cs \<Longrightarrow> c \<noteq> CHR ''.''" for c cs
    using assms(4) ends_value_number [OF assms(4)]
    by (cases e; cases rest; auto simp: exp_part_def is_digit_def ends_value_def)+
  obtain d dt where ip: "ip = d # dt" "is_digit d" using assms(1,2) by (cases ip) auto
  then have sign: "drop_if (\<lambda>c. c = CHR ''-'') (sg @ ip @ s) = ip @ s" for s
    using assms(5) by (auto simp: drop_if_def dest: digit_plain)
  have "ends_number (point fp @ ?r)" using r(1) by (auto simp: point_def is_digit_def)
  then have ints: "dropWhile is_digit (ip @ point fp @ ?r) = point fp @ ?r"
    using takeWhile_digits [OF assms(1)] by blast
  have frac: "(case point fp @ ?r of c # cs \<Rightarrow> if c = CHR ''.'' then dropWhile is_digit cs else point fp @ ?r
      | [] \<Rightarrow> []) = ?r"
  proof (cases "fp = []")
    case True
    then show ?thesis using r(2) by (cases ?r) (auto simp: point_def)
  next
    case False
    then show ?thesis using takeWhile_digits [OF assms(3) r(1)] by (simp add: point_def)
  qed
  have whole: "sg @ number_text ip fp e @ rest = sg @ ip @ point fp @ ?r" by (simp add: number_text_def)
  show ?thesis
    unfolding after_number_def whole sign ints Let_def frac by (rule after_number_exp [OF assms(4)])
qed

lemma number_head:
  assumes "d_finite d"
  obtains c cs where "d_print d = c # cs" "c = CHR ''-'' \<or> is_digit c"
proof -
  obtain sg ip fp e where t: "d_print d = sg @ number_text ip fp e" "sg = [] \<or> sg = ''-''"
      "list_all is_digit ip" "ip \<noteq> []"
    using d_print_shape [OF assms] .
  then show thesis using that by (cases ip) (auto simp: number_text_def)
qed

lemma parse_number_shown:
  assumes "printable d" "ends_value rest"
  shows "parse_number (d_print d @ rest) = Inr (reread d, rest)"
proof -
  have "d_finite d" using assms(1) by (simp add: printable_def)
  then obtain sg ip fp e where t: "d_print d = sg @ number_text ip fp e" "sg = [] \<or> sg = ''-''"
      "list_all is_digit ip" "ip \<noteq> []" "list_all is_digit fp"
    using d_print_shape by metis
  have "after_number (d_print d @ rest) = rest"
    using after_number_text [OF t(3-5) assms(2) t(2)] by (simp add: t(1))
  then show ?thesis
    using assms(1) by (auto simp: parse_number_def reread_def printable_def split: sum.splits)
qed


section \<open>A value through its text\<close>

lemma not_space [simp]:
  "\<not> is_space (CHR ''{'')" "\<not> is_space (CHR ''['')" "\<not> is_space (CHR 0x22)" "\<not> is_space (CHR ''n'')"
  "\<not> is_space (CHR ''t'')" "\<not> is_space (CHR ''f'')" "\<not> is_space (CHR '','')" "\<not> is_space (CHR '':'')"
  "\<not> is_space (CHR ''}'')" "\<not> is_space (CHR '']'')"
  by (simp_all add: is_space_def)

lemma peek_is_simps [simp]: "peek_is e [] \<longleftrightarrow> False" "peek_is e (c # cs) \<longleftrightarrow> c = e"
  by (simp_all add: peek_is_def)

lemma expect_simps [simp]: "expect e (e # cs) = Inr cs"
  by (simp add: expect_def)

lemma ends_value_simps [simp]:
  "ends_value []" "ends_value (CHR '','' # cs)" "ends_value (CHR ''}'' # cs)" "ends_value (CHR '']'' # cs)"
  by (simp_all add: ends_value_def is_digit_def)

lemma number_start:
  assumes "c = CHR ''-'' \<or> is_digit c"
  shows "\<not> is_space c" "c \<noteq> CHR ''{''" "c \<noteq> CHR ''[''" "c \<noteq> CHR 0x22" "c \<noteq> CHR ''t''" "c \<noteq> CHR ''f''" "c \<noteq> CHR ''n''"
    "c \<noteq> CHR '']''"
  using assms by (auto simp: is_digit_def is_space_def Let_def)

text \<open>
  The text \<open>s\<close> is read as the value \<open>j\<close>, whatever may follow a value, with fuel of twice its
  length; it starts neither with white space nor with the end of a list.
\<close>

definition shows_as :: "string \<Rightarrow> json \<Rightarrow> bool" where
  "shows_as s j \<longleftrightarrow> (\<exists>c cs. s = c # cs \<and> \<not> is_space c \<and> c \<noteq> CHR '']'') \<and>
     (\<forall>n rest. ends_value rest \<longrightarrow> 2 * length s < n \<longrightarrow> parse_value n (s @ rest) = Inr (j, rest))"

lemma shows_asD: "shows_as s j \<Longrightarrow> ends_value rest \<Longrightarrow> 2 * length s < n \<Longrightarrow> parse_value n (s @ rest) = Inr (j, rest)"
  by (simp add: shows_as_def)

lemma items_shown:
  assumes "list_all2 shows_as ss js" "ss \<noteq> []" "2 * length (commas ss) + 1 < n"
  shows "parse_items n ys (commas ss @ CHR '']'' # rest) = Inr (JArr (ys @ js), rest)"
  using assms
proof (induction ss arbitrary: n ys js rule: commas.induct)
  case (2 s)
  then obtain k j where k: "n = Suc k" "js = [j]" "shows_as s j" by (cases n) (auto simp: list_all2_Cons1)
  have "parse_value k (s @ CHR '']'' # rest) = Inr (j, CHR '']'' # rest)"
    using 2 k(1) by (intro shows_asD [OF k(3)]) simp_all
  then show ?case by (simp add: k(1,2))
next
  case (3 s t ss)
  then obtain k j js' where k: "n = Suc k" "js = j # js'" "shows_as s j" "list_all2 shows_as (t # ss) js'"
    by (cases n) (auto simp: list_all2_Cons1)
  let ?t = "commas (t # ss) @ CHR '']'' # rest"
  have "parse_value k (s @ CHR '','' # ?t) = Inr (j, CHR '','' # ?t)"
    using 3 k(1) by (intro shows_asD [OF k(3)]) simp_all
  moreover have "parse_items k (ys @ [j]) ?t = Inr (JArr ((ys @ [j]) @ js'), rest)"
    by (rule "3.IH" [OF k(4)]) (use "3.prems" k(1) in simp_all)
  ultimately show ?case by (simp add: k(1,2))
qed simp

definition member_shows :: "string \<Rightarrow> string \<times> json \<Rightarrow> bool" where
  "member_shows m e \<longleftrightarrow> plain_key (fst e) \<and>
     (\<exists>s. m = CHR 0x22 # fst e @ CHR 0x22 # CHR '':'' # s \<and> shows_as s (snd e))"

lemma ins_entry_last: "\<forall>k' \<in> set (map fst es). k' < k \<Longrightarrow> ins_entry k v es = es @ [(k, v)]"
  by (induction k v es rule: ins_entry.induct) auto

lemma member_step:
  assumes "member_shows m e" "sorted_wrt (<) (map fst (es @ [e]))" "2 * length m \<le> n"
  shows "parse_members (Suc n) es (m @ CHR '','' # r) = parse_members n (es @ [e]) r"
    and "parse_members (Suc n) es (m @ CHR ''}'' # r) = Inr (JObj (es @ [e]), r)"
proof -
  obtain s where s: "m = CHR 0x22 # fst e @ CHR 0x22 # CHR '':'' # s" "shows_as s (snd e)" "plain_key (fst e)"
    using assms(1) by (auto simp: member_shows_def)
  have ins: "ins_entry (fst e) (snd e) es = es @ [e]"
    using assms(2) ins_entry_last [of es "fst e" "snd e"] by (auto simp: sorted_wrt_append)
  have len: "2 * length s < n" using assms(3) by (simp add: s(1))
  show "parse_members (Suc n) es (m @ CHR '','' # r) = parse_members n (es @ [e]) r"
    using shows_asD [OF s(2) _ len, of "CHR '','' # r"] by (simp add: s(1) parse_key_shown [OF s(3)] ins)
  show "parse_members (Suc n) es (m @ CHR ''}'' # r) = Inr (JObj (es @ [e]), r)"
    using shows_asD [OF s(2) _ len, of "CHR ''}'' # r"] by (simp add: s(1) parse_key_shown [OF s(3)] ins)
qed

lemma members_shown:
  assumes "list_all2 member_shows ms xs" "ms \<noteq> []" "sorted_wrt (<) (map fst (es @ xs))" "2 * length (commas ms) < n"
  shows "parse_members n es (commas ms @ CHR ''}'' # rest) = Inr (JObj (es @ xs), rest)"
  using assms
proof (induction ms arbitrary: n es xs rule: commas.induct)
  case (2 m)
  then obtain e where e: "xs = [e]" "member_shows m e" by (auto simp: list_all2_Cons1)
  from 2(4) obtain k where k: "n = Suc k" "2 * length m \<le> k" by (cases n) auto
  show ?case using member_step(2) [OF e(2) _ k(2), of es rest] 2 by (simp add: e(1) k(1) del: parse_members.simps)
next
  case (3 m t ms)
  then obtain e xs' where e: "xs = e # xs'" "member_shows m e" "list_all2 member_shows (t # ms) xs'"
    by (auto simp: list_all2_Cons1)
  from 3(5) obtain k where k: "n = Suc k" "2 * length m \<le> k" by (cases n) auto
  have "sorted_wrt (<) (map fst (es @ [e]))" using 3(4) by (auto simp: e(1) sorted_wrt_append)
  note step = member_step(1) [OF e(2) this k(2), of "commas (t # ms) @ CHR ''}'' # rest"]
  have "parse_members k (es @ [e]) (commas (t # ms) @ CHR ''}'' # rest) = Inr (JObj ((es @ [e]) @ xs'), rest)"
    by (rule "3.IH" [OF e(3)]) (use 3(4,5) k in \<open>simp_all add: e(1)\<close>)
  with step show ?case by (simp add: e(1) k(1) del: parse_members.simps)
qed simp

lemma commas_eq_Nil: "commas ss = [] \<longleftrightarrow> ss = [] \<or> ss = [[]]"
  by (induction ss rule: commas.induct) auto

lemma commas_head: "\<exists>t. commas (s # ss) = s @ t"
  by (cases ss) auto

lemma shows_array:
  assumes "list_all2 shows_as ss js"
  shows "shows_as (CHR ''['' # commas ss @ '']'') (JArr js)"
proof -
  have "parse_value n ((CHR ''['' # commas ss @ '']'') @ rest) = Inr (JArr js, rest)"
    if n: "2 * length (CHR ''['' # commas ss @ '']'') < n" for n rest
  proof -
    obtain k where k: "n = Suc k" using n by (cases n) auto
    show ?thesis
    proof (cases ss)
      case (Cons s ts)
      then obtain c cs where c: "commas ss @ CHR '']'' # rest = c # cs" "\<not> is_space c" "c \<noteq> CHR '']''"
        using assms commas_head [of s ts] by (auto simp: list_all2_Cons1 shows_as_def)
      have "parse_items k [] (c # cs) = Inr (JArr ([] @ js), rest)"
        unfolding c(1) [symmetric] by (rule items_shown [OF assms]) (use n k Cons in simp_all)
      then show ?thesis using c by (simp add: k)
    qed (use assms in \<open>simp add: k\<close>)
  qed
  then show ?thesis by (simp add: shows_as_def)
qed

lemma shows_object:
  assumes "list_all2 member_shows ms es" "sorted_wrt (<) (map fst es)"
  shows "shows_as (CHR ''{'' # commas ms @ ''}'') (JObj es)"
proof -
  have "parse_value n ((CHR ''{'' # commas ms @ ''}'') @ rest) = Inr (JObj es, rest)"
    if n: "2 * length (CHR ''{'' # commas ms @ ''}'') < n" for n rest
  proof -
    obtain k where k: "n = Suc k" using n by (cases n) auto
    show ?thesis
    proof (cases ms)
      case (Cons m ts)
      then obtain cs where c: "commas ms @ CHR ''}'' # rest = CHR 0x22 # cs"
        using assms(1) commas_head [of m ts] by (auto simp: list_all2_Cons1 member_shows_def)
      have "parse_members k [] (CHR 0x22 # cs) = Inr (JObj ([] @ es), rest)"
        unfolding c [symmetric] by (rule members_shown [OF assms(1)]) (use n k Cons assms(2) in simp_all)
      then show ?thesis using c by (simp add: k)
    qed (use assms in \<open>simp add: k\<close>)
  qed
  then show ?thesis by (simp add: shows_as_def)
qed

lemma shows_leaf:
  assumes "\<And>rest. ends_value rest \<Longrightarrow> parse_leaf (s @ rest) = Inr (j, rest)"
    and "s = c # cs" "\<not> is_space c" "c \<noteq> CHR ''{''" "c \<noteq> CHR ''[''" "c \<noteq> CHR '']''"
  shows "shows_as s j"
  unfolding shows_as_def
proof (intro conjI allI impI)
  fix n rest
  assume "2 * length s < n" and rest: "ends_value rest"
  then obtain k where "n = Suc k" by (cases n) auto
  then show "parse_value n (s @ rest) = Inr (j, rest)"
    using assms(1) [OF rest] assms(3-6) by (simp add: assms(2))
qed (use assms in auto)

lemma parse_dump: "storable j \<Longrightarrow> shows_as (dump j) (stored j)"
proof (induction j rule: dump.induct)
  case (5 xs)
  then have "list_all2 shows_as (map dump xs) (map stored xs)"
    by (simp add: list_all2_conv_all_nth list_all_iff)
  from shows_array [OF this] show ?case by simp
next
  case (6 es)
  then have "list_all2 member_shows
      (map (\<lambda>e. CHR 0x22 # fst e @ CHR 0x22 # CHR '':'' # dump (snd e)) es) (map (\<lambda>e. (fst e, stored (snd e))) es)"
    by (auto simp: list_all2_conv_all_nth list_all_iff member_shows_def)
  from shows_object [OF this] "6.prems" show ?case by (simp add: o_def)
next
  case (3 d)
  then have d: "printable d" by simp
  then obtain c cs where c: "d_print d = c # cs" "c = CHR ''-'' \<or> is_digit c"
    using number_head [of d] by (auto simp: printable_def)
  note st = number_start [OF c(2)]
  have "parse_leaf (d_print d @ rest) = Inr (JNum (reread d), rest)" if "ends_value rest" for rest
    using parse_number_shown [OF d that] st c(2) by (auto simp: c(1) parse_leaf_def)
  then show ?case using c(1) st by (auto intro!: shows_leaf)
next
  case 1
  show ?case
    by (rule shows_leaf [where c = "hd (dump JNull)" and cs = "tl (dump JNull)"])
      (simp_all add: parse_leaf_def parse_null_def)
next
  case (2 b)
  show ?case
    by (rule shows_leaf [where c = "hd (dump (JBool b))" and cs = "tl (dump (JBool b))"])
      (simp_all add: parse_leaf_def parse_bool_def)
next
  case (4 s)
  show ?case
    by (rule shows_leaf [where c = "hd (dump (JStr s))" and cs = "tl (dump (JStr s))"])
      (simp_all add: parse_leaf_def parse_string_shown)
qed

lemma parse_shown:
  assumes "shows_as s j"
  shows "parse s = Inr j"
proof -
  have "parse_value (2 * length s + 1) s = Inr (j, [])"
    using shows_asD [OF assms, of "[]" "2 * length s + 1"] by (simp only: append_Nil2 ends_value_simps)
  then show ?thesis unfolding parse_def by (simp only: bindE_simps) simp
qed

lemma dump_parse: "storable j \<Longrightarrow> parse (dump j) = Inr (stored j)"
  by (intro parse_shown parse_dump)

section \<open>Which numbers survive\<close>

lemma printable_ordinary:
  assumes "r = 0 \<or> pow2 (- 1000) \<le> \<bar>r\<bar> \<and> \<bar>r\<bar> \<le> 2 ^ 1000"
  shows "printable (Fin r) \<and> \<bar>d_rat (reread (Fin r)) - r\<bar> \<le> \<bar>r\<bar> / 10 ^ 5"
proof (cases "r = 0")
  case True
  then show ?thesis using stod_nat [of 0] printed_small_nat [of 0]
    by (simp add: printable_def reread_def)
next
  case False
  then obtain v where "stod (d_print (Fin r)) = Inr (Fin v)" "\<bar>v - r\<bar> \<le> \<bar>r\<bar> / 10 ^ 5"
    using printed_six_digits [of r] assms by blast
  then show ?thesis by (simp add: printable_def reread_def)
qed

lemma reread_small_nat: "n < 10 ^ 6 \<Longrightarrow> printable (Fin (of_nat n)) \<and> reread (Fin (of_nat n)) = Fin (of_nat n)"
  using printed_small_nat [of n] stod_nat [of n] by (simp add: printable_def reread_def)

text \<open>
  Numbers of ordinary size, and what such numbers are read back as: a set that printing and
  reading does not leave, and on which a second trip changes nothing.
\<close>

definition ordinary :: "double \<Rightarrow> bool" where
  "ordinary d \<longleftrightarrow> (case d of Fin r \<Rightarrow> r = 0 \<or> pow2 (- 1000) \<le> \<bar>r\<bar> \<and> \<bar>r\<bar> \<le> 2 ^ 1000 | _ \<Rightarrow> False)"

definition keepable :: "double \<Rightarrow> bool" where
  "keepable d \<longleftrightarrow> printable d \<and> printable (reread d) \<and> reread (reread d) = reread d"

lemma keepable_reread: "keepable d \<Longrightarrow> keepable (reread d)"
  by (simp add: keepable_def)

lemma keepable_ordinary:
  assumes "ordinary d"
  shows "keepable d \<and> keepable (reread d)"
proof -
  obtain r where r: "d = Fin r" "r = 0 \<or> pow2 (- 1000) \<le> \<bar>r\<bar> \<and> \<bar>r\<bar> \<le> 2 ^ 1000"
    using assms by (auto simp: ordinary_def split: double.splits)
  show ?thesis
  proof (cases "r = 0")
    case True
    then show ?thesis using reread_small_nat [of 0] by (simp add: r(1) keepable_def)
  next
    case False
    then obtain v where v: "stod (d_print (Fin r)) = Inr (Fin v)" "d_print (Fin v) = d_print (Fin r)"
      using printed_again [of r] r(2) by blast
    then have "reread (Fin r) = Fin v" "reread (Fin v) = Fin v" by (simp_all add: reread_def)
    with v show ?thesis by (simp add: r(1) keepable_def printable_def)
  qed
qed

lemma ordinary_u64: "ordinary (double_of_u64 w)"
proof (cases "w = 0")
  case False
  have w: "1 \<le> (of_nat (unat w) :: rat)" "(of_nat (unat w) :: rat) < 2 ^ 64"
  proof -
    have "of_nat 1 \<le> (of_nat (unat w) :: rat)" "(of_nat (unat w) :: rat) < of_nat (2 ^ 64)"
      using unat_gt_0 [OF False] unat_bound [of w] by (simp_all only: of_nat_le_iff of_nat_less_iff) simp_all
    then show "1 \<le> (of_nat (unat w) :: rat)" "(of_nat (unat w) :: rat) < 2 ^ 64" by simp_all
  qed
  have "pow2 (- 1022) \<le> 1" by (simp add: pow2_eq power_int_minus_divide)
  then have low: "pow2 (- 1022) \<le> of_nat (unat w)" using w(1) by linarith
  have "(2 :: rat) ^ 64 \<le> 2 ^ 1023" by (rule power_increasing) simp_all
  then have high: "of_nat (unat w) \<le> (2 :: rat) ^ 1023" using w(2) by linarith
  obtain v where v: "round_double (of_nat (unat w)) = Fin v" "\<bar>v - of_nat (unat w)\<bar> \<le> of_nat (unat w) / 2 ^ 53"
      "0 < v"
    using round_double_near [OF low high] .
  have "(of_nat (unat w) :: rat) / 2 ^ 53 \<le> of_nat (unat w) / 2" using w(1) by simp
  then have "1 / 2 \<le> v" "v \<le> 2 * 2 ^ 64" using v(2) w by linarith+
  moreover have "pow2 (- 1000) \<le> 1 / (2 :: rat)"
    using power_int_increasing [of "- 1000" "- 1" "2 :: rat"] by (simp add: pow2_eq)
  moreover have "2 * 2 ^ 64 \<le> (2 :: rat) ^ 1000" using power_increasing [of 65 1000 "2 :: rat"] by simp
  ultimately have "pow2 (- 1000) \<le> \<bar>v\<bar>" "\<bar>v\<bar> \<le> 2 ^ 1000" using v(3) by linarith+
  then show ?thesis using v(1) by (simp only: ordinary_def double_of_u64_def double.case) simp
qed (simp add: ordinary_def double_of_u64_def round_double_def)

text \<open>A Unix time in seconds loses its last four digits.\<close>

lemma reread_timestamp: "reread (Fin 1700000001) = Fin 1700000000"
proof -
  have "length (to_dec 1700000001) = Suc 9" by (rule length_to_dec_eq) simp_all
  then have "dec_exp 1700000001 = 9" using dec_exp_nat [of 1700000001] by simp
  then have "sci6 1700000001 = (170000, 9)"
    by (simp add: sci6_def round_half_even_def floor_numerals Let_def)
  moreover have "(char_of (48 :: nat), char_of (49 :: nat), char_of (55 :: nat), char_of (57 :: nat)) = (CHR ''0'', CHR ''1'', CHR ''7'', CHR ''9'')"
    by code_simp
  ultimately have "d_print (Fin 1700000001) = ''1.7e+09''"
    by (simp add: print_pos_def exp_text_def to_dec.simps digit_char_def strip_zeros_def point_def)
  moreover have "decimal ''1.7e+09'' = Some (False, 1700000000)" by code_simp
  moreover have "round_double 1700000000 = Fin 1700000000" using round_double_nat [of 1700000000] by simp
  ultimately show ?thesis by (simp add: reread_def stod_def tiny_bound_def pow2_def)
qed


section \<open>Properties\<close>

fun numbers :: "json \<Rightarrow> double list" where
  "numbers (JNum d) = [d]"
| "numbers (JArr xs) = concat (map numbers xs)"
| "numbers (JObj es) = concat (map (\<lambda>e. numbers (snd e)) es)"
| "numbers _ = []"

lemma stored_exact: "\<forall>d \<in> set (numbers j). reread d = d \<Longrightarrow> stored j = j"
proof (induction j rule: numbers.induct)
  case (2 xs)
  then show ?case by (simp add: map_idI)
next
  case (3 es)
  then have "\<forall>e \<in> set es. stored (snd e) = snd e" by auto
  then show ?case by (auto intro!: map_idI)
qed auto

text \<open>
  C32. JSON values survive their text. Parsing what \<open>dump\<close> prints gives the value back with every
  number replaced by what its six digits read as, provided object keys hold no quote or backslash
  and every number is finite and reads back; if each number reads back as itself, whole numbers
  below a million for instance, the value comes back unchanged.
\<close>

theorem json_text_roundtrip:
  assumes "storable j"
  shows "parse (dump j) = Inr (stored j) \<and>
    ((\<forall>d \<in> set (numbers j). reread d = d) \<longrightarrow> parse (dump j) = Inr j)"
  using dump_parse [OF assms] stored_exact [of j] by simp

theorem json_text_roundtrip_witness:
  "let j = JObj [(''a'', JArr [JNum (Fin 42), JStr [CHR 0x22, CHR 0x0A], JNull]), (''b'', JBool True)]
   in parse (dump j) = Inr j"
proof -
  let ?j = "JObj [(''a'', JArr [JNum (Fin 42), JStr [CHR 0x22, CHR 0x0A], JNull]), (''b'', JBool True)]"
  have n: "printable (Fin 42)" "reread (Fin 42) = Fin 42" using reread_small_nat [of 42] by simp_all
  have "(''a'' :: string) < ''b''" by code_simp
  then have "storable ?j" by (simp add: n(1) plain_key_def)
  from json_text_roundtrip [OF this] show ?thesis unfolding Let_def by (simp add: n(2))
qed

text \<open>
  The parser returns on every text, with a value or an exception: its recursion is never
  deeper than twice the length of the text.
\<close>

theorem json_parser_returns: "parse s \<noteq> Inl Out_of_fuel"
proof -
  define n where "n = 2 * length s + 1"
  then have "parse_value n s \<noteq> Inl Out_of_fuel" using parse_enough_fuel [of s n "[]" "[]"] by simp
  then show ?thesis unfolding parse_def n_def [symmetric] by (cases "parse_value n s") (auto split: if_splits)
qed

text \<open>
  A number loses less than one part in a hundred thousand on its first trip through text and
  nothing on the next, for zero and all magnitudes between \<open>2 ^ -1000\<close> and \<open>2 ^ 1000\<close>.
\<close>

theorem printed_number_close:
  assumes "ordinary d"
  shows "\<exists>v. stod (d_print d) = Inr v \<and> \<bar>d_rat v - d_rat d\<bar> \<le> \<bar>d_rat d\<bar> / 10 ^ 5 \<and>
    stod (d_print v) = Inr v"
proof -
  obtain r where r: "d = Fin r" "r = 0 \<or> pow2 (- 1000) \<le> \<bar>r\<bar> \<and> \<bar>r\<bar> \<le> 2 ^ 1000"
    using assms by (auto simp: ordinary_def split: double.splits)
  have "printable v \<Longrightarrow> stod (d_print v) = Inr (reread v)" for v
    by (auto simp: printable_def reread_def split: sum.splits)
  with keepable_ordinary [OF assms] have "stod (d_print d) = Inr (reread d)"
      "stod (d_print (reread d)) = Inr (reread d)"
    by (simp_all add: keepable_def)
  then show ?thesis using printable_ordinary [OF r(2)] by (intro exI [of _ "reread d"]) (simp add: r(1))
qed

theorem printed_number_close_witness:
  "\<exists>v. stod (d_print (Fin (2 / 3))) = Inr v \<and> \<bar>d_rat v - 2 / 3\<bar> \<le> 2 / 3 / 10 ^ 5"
proof -
  have "pow2 (- 1000) \<le> 2 / 3" using power_int_increasing [of "- 1000" "- 1" "2 :: rat"] by (simp add: pow2_eq)
  moreover have "(2 / 3 :: rat) \<le> 2 ^ 1000" using one_le_power [of "2 :: rat" 1000] by linarith
  ultimately have "ordinary (Fin (2 / 3))" by (simp only: ordinary_def double.case) simp
  from printed_number_close [OF this] show ?thesis by auto
qed

end
