(* ===== verification/Gold_Props.thy ===== *)
theory Gold_Props
  imports Gold Json_Props
begin

text \<open>
  What the gold bridge keeps: as long as locations and serial numbers are not given twice, every
  token stands for one coin of the inventory that is no longer for sale, and no two tokens share
  a coin, through JSON text and storage. What it does not keep: the amount paid plays no role.
\<close>

section \<open>Locations through their text\<close>

lemma loc_to_json_sorted:
  "loc_to_json l = JObj [(''address'', JStr (li_address l)),
     (''items'', foldl (\<lambda>a i. j_push (item_to_json i) a) (JArr []) (li_items l)),
     (''lastRestockTimestamp'', JNum (double_of_u64 (li_lastRestockTimestamp l))),
     (''locationId'', JStr (li_locationId l)),
     (''totalWeightOz'', JNum (li_totalWeightOz l))]"
  by (simp add: loc_to_json_def j_put_def)

lemma item_to_json_sorted:
  "item_to_json i = JObj [(''available'', JBool (ii_available i)),
     (''denomination'', JNum (double_of_int (ii_denomination i))),
     (''lastAuditTimestamp'', JNum (double_of_u64 (ii_lastAuditTimestamp i))),
     (''location'', JStr (ii_location i)),
     (''serialNumber'', JStr (ii_serialNumber i)),
     (''weightOz'', JNum (ii_weightOz i))]"
  by (simp add: item_to_json_def j_put_def)

lemma token_to_json_sorted:
  "token_to_json t = JObj [(''backedBySerial'', JStr (gt_backedBySerial t)),
     (''custodianLocation'', JStr (gt_custodianLocation t)),
     (''denomination'', JNum (double_of_int (gt_denomination t))),
     (''issuanceTimestamp'', JNum (double_of_u64 (gt_issuanceTimestamp t))),
     (''ownerAddress'', JStr (gt_ownerAddress t)),
     (''redeemed'', JBool (gt_redeemed t)),
     (''tokenId'', JStr (gt_tokenId t)),
     (''weightOz'', JNum (gt_weightOz t))]"
  by (simp add: token_to_json_def j_put_def)

lemma push_all: "foldl (\<lambda>a x. j_push (f x) a) (JArr ys) xs = JArr (ys @ map f xs)"
  by (induction xs arbitrary: ys) (simp_all add: j_push_def)

lemma strings_to_json_eq: "strings_to_json ss = JArr (map JStr ss)"
  using push_all [of JStr "[]" ss] by (simp add: strings_to_json_def)

lemma mapE_map: "(\<And>x. x \<in> set xs \<Longrightarrow> f (h x) = Inr (g x)) \<Longrightarrow> mapE f (map h xs) = Inr (map g xs)"
  by (induction xs) auto

lemma strings_read: "bindE (parse (dump (strings_to_json ss))) strings_of_json = Inr ss"
proof -
  have "storable (strings_to_json ss)" by (simp add: strings_to_json_eq list_all_iff)
  from dump_parse [OF this] have "parse (dump (strings_to_json ss)) = Inr (strings_to_json ss)"
    by (simp only: stored_exact [of "strings_to_json ss"]) (simp add: strings_to_json_eq stored_exact)
  moreover have "mapE get_string (map JStr ss) = Inr ss" by (induction ss) simp_all
  ultimately show ?thesis by (simp only: bindE_simps strings_of_json_def) (simp add: strings_to_json_eq)
qed

lemma load_strings_at: "om_get db k = Some (dump (strings_to_json ss)) \<Longrightarrow> load_strings k db = Inr ss"
  by (simp add: load_strings_def strings_read jsonE_def)

definition good_denomination :: "denomination \<Rightarrow> bool" where
  "good_denomination d \<longleftrightarrow> ONE_TENTH_OZ \<le> d \<and> d \<le> TEN_OZ"

lemma denomination_text:
  assumes "good_denomination d"
  shows "printable (double_of_int d)" "cast_i32 u (reread (double_of_int d)) = d"
proof -
  obtain n where n: "d = int n" "n \<le> 5"
    using assms by (metis good_denomination_def ONE_TENTH_OZ_def TEN_OZ_def nonneg_int_cases of_nat_le_iff of_nat_numeral)
  have "double_of_int d = Fin (of_nat n)"
    using n round_double_nat [of n] by (simp add: double_of_int_def)
  moreover have "printable (Fin (of_nat n)) \<and> reread (Fin (of_nat n)) = Fin (of_nat n)"
    by (rule reread_small_nat) (use n in simp)
  moreover have "(of_nat n :: rat) \<le> of_nat 5" using n(2) by (simp only: of_nat_le_iff)
  ultimately show "printable (double_of_int d)" "cast_i32 u (reread (double_of_int d)) = d"
    using n by (simp_all add: cast_i32_def d_trunc_def)
qed

definition good_item :: "inventory_item \<Rightarrow> bool" where
  "good_item i \<longleftrightarrow> keepable (ii_weightOz i) \<and> good_denomination (ii_denomination i)"

definition read_item :: "unspecified \<Rightarrow> inventory_item \<Rightarrow> inventory_item" where
  "read_item C i = i\<lparr>ii_weightOz := reread (ii_weightOz i),
     ii_lastAuditTimestamp := cast_u64 (un_u64 C) (reread (double_of_u64 (ii_lastAuditTimestamp i)))\<rparr>"

definition good_loc :: "location_inventory \<Rightarrow> bool" where
  "good_loc l \<longleftrightarrow> list_all good_item (li_items l) \<and> keepable (li_totalWeightOz l)"

definition read_loc :: "unspecified \<Rightarrow> location_inventory \<Rightarrow> location_inventory" where
  "read_loc C l = l\<lparr>li_items := map (read_item C) (li_items l), li_totalWeightOz := reread (li_totalWeightOz l),
     li_lastRestockTimestamp := cast_u64 (un_u64 C) (reread (double_of_u64 (li_lastRestockTimestamp l)))\<rparr>"

definition good_token :: "gold_token \<Rightarrow> bool" where
  "good_token t \<longleftrightarrow> keepable (gt_weightOz t) \<and> good_denomination (gt_denomination t)"

definition read_token :: "unspecified \<Rightarrow> gold_token \<Rightarrow> gold_token" where
  "read_token C t = t\<lparr>gt_weightOz := reread (gt_weightOz t),
     gt_issuanceTimestamp := cast_u64 (un_u64 C) (reread (double_of_u64 (gt_issuanceTimestamp t)))\<rparr>"

lemma read_keeps [simp]:
  "ii_serialNumber (read_item C i) = ii_serialNumber i" "ii_available (read_item C i) = ii_available i"
  "ii_denomination (read_item C i) = ii_denomination i"
  "li_items (read_loc C l) = map (read_item C) (li_items l)"
  "gt_backedBySerial (read_token C t) = gt_backedBySerial t" "gt_redeemed (read_token C t) = gt_redeemed t"
  "gt_ownerAddress (read_token C t) = gt_ownerAddress t"
  by (simp_all add: read_item_def read_loc_def read_token_def)

lemma good_read [simp]:
  "good_item i \<Longrightarrow> good_item (read_item C i)" "good_loc l \<Longrightarrow> good_loc (read_loc C l)"
  "good_token t \<Longrightarrow> good_token (read_token C t)"
  by (simp_all add: good_item_def read_item_def good_loc_def read_loc_def good_token_def read_token_def
      keepable_reread list_all_iff)

lemmas printable_u64 = keepable_ordinary [OF ordinary_u64, THEN conjunct1, unfolded keepable_def, THEN conjunct1]

lemma keepable_printable: "keepable d \<Longrightarrow> printable d"
  by (simp add: keepable_def)

lemma storable_item: "good_item i \<Longrightarrow> storable (item_to_json i)"
  by (simp add: item_to_json_sorted good_item_def denomination_text printable_u64 keepable_printable plain_key_def)

lemma item_read: "good_item i \<Longrightarrow> item_from_json C (stored (item_to_json i)) = Inr (read_item C i)"
  by (simp add: item_to_json_sorted item_from_json_def j_value_def read_item_def good_item_def denomination_text)

lemma storable_loc: "good_loc l \<Longrightarrow> storable (loc_to_json l)"
  by (simp add: loc_to_json_sorted push_all good_loc_def list_all_iff storable_item printable_u64
      keepable_printable plain_key_def)

lemma loc_read: "good_loc l \<Longrightarrow> loc_from_json C (stored (loc_to_json l)) = Inr (read_loc C l)"
proof -
  assume "good_loc l"
  then have "mapE (item_from_json C) (map stored (map item_to_json (li_items l))) = Inr (map (read_item C) (li_items l))"
    unfolding map_map by (intro mapE_map) (simp add: good_loc_def list_all_iff item_read)
  then show ?thesis
    by (simp add: loc_to_json_sorted push_all loc_from_json_def if_contains_def j_contains_def j_at_def read_loc_def)
qed

lemma storable_token: "good_token t \<Longrightarrow> storable (token_to_json t)"
  by (simp add: token_to_json_sorted good_token_def denomination_text printable_u64 keepable_printable plain_key_def)

lemma token_read: "good_token t \<Longrightarrow> token_from_json C (stored (token_to_json t)) = Inr (read_token C t)"
  by (simp add: token_to_json_sorted token_from_json_def if_contains_def j_contains_def j_at_def read_token_def
      good_token_def denomination_text)

lemma load_loc_at:
  "om_get db (loc_key l) = Some (dump (loc_to_json loc)) \<Longrightarrow> good_loc loc \<Longrightarrow>
   load_loc C l db = Inr (Some (read_loc C loc))"
  by (simp add: load_loc_def dump_parse storable_loc loc_read jsonE_def)

lemma getToken_at:
  "om_get db (token_key tid) = Some (dump (token_to_json t)) \<Longrightarrow> good_token t \<Longrightarrow>
   getToken C tid db = Inr (Some (read_token C t))"
  by (simp add: getToken_def dump_parse storable_token token_read jsonE_def)

section \<open>What the store holds\<close>

lemma gold_keys_apart [simp]:
  "loc_key l = loc_key l' \<longleftrightarrow> l = l'" "token_key t = token_key t' \<longleftrightarrow> t = t'" "owner_key u = owner_key u' \<longleftrightarrow> u = u'"
  "loc_key l \<noteq> locs_index" "locs_index \<noteq> loc_key l" "token_key t \<noteq> locs_index" "locs_index \<noteq> token_key t"
  "owner_key u \<noteq> locs_index" "locs_index \<noteq> owner_key u" "loc_key l \<noteq> token_key t" "token_key t \<noteq> loc_key l"
  "loc_key l \<noteq> owner_key u" "owner_key u \<noteq> loc_key l" "token_key t \<noteq> owner_key u" "owner_key u \<noteq> token_key t"
  by (simp_all add: loc_key_def token_key_def owner_key_def locs_index_def)

text \<open>
  The store as the text of a list of locations with their stock and of a table of tokens.
\<close>

definition represents ::
    "store \<Rightarrow> string list \<Rightarrow> (string \<Rightarrow> location_inventory) \<Rightarrow> (string \<Rightarrow> gold_token option) \<Rightarrow> bool" where
  "represents db ids locs toks \<longleftrightarrow>
     distinct ids \<and>
     om_get db locs_index = (if ids = [] then None else Some (dump (strings_to_json ids))) \<and>
     (\<forall>l. om_get db (loc_key l) = (if l \<in> set ids then Some (dump (loc_to_json (locs l))) else None)) \<and>
     (\<forall>l \<in> set ids. good_loc (locs l)) \<and>
     (\<forall>tid. om_get db (token_key tid) = map_option (\<lambda>t. dump (token_to_json t)) (toks tid)) \<and>
     (\<forall>tid t. toks tid = Some t \<longrightarrow> good_token t) \<and>
     (\<forall>u. om_get db (owner_key u) = None \<or> (\<exists>ss. om_get db (owner_key u) = Some (dump (strings_to_json ss))))"

lemma rep_loc:
  "represents db ids locs toks \<Longrightarrow> l \<in> set ids \<Longrightarrow> good_loc x \<Longrightarrow>
   represents (om_put (loc_key l) (dump (loc_to_json x)) db) ids (locs(l := x)) toks"
  by (simp add: represents_def)

lemma rep_new_loc:
  "represents db ids locs toks \<Longrightarrow> l \<notin> set ids \<Longrightarrow> good_loc x \<Longrightarrow>
   represents (om_put locs_index (dump (strings_to_json (ids @ [l])))
     (om_put (loc_key l) (dump (loc_to_json x)) db)) (ids @ [l]) (locs(l := x)) toks"
  by (simp add: represents_def)

lemma rep_token:
  "represents db ids locs toks \<Longrightarrow> good_token t \<Longrightarrow>
   represents (om_put (token_key tid) (dump (token_to_json t)) db) ids locs (toks(tid \<mapsto> t))"
  by (simp add: represents_def)

lemma rep_owner:
  "represents db ids locs toks \<Longrightarrow>
   represents (om_put (owner_key u) (dump (strings_to_json ss)) db) ids locs toks"
  by (simp add: represents_def) blast

lemma rep_getLocations: "represents db ids locs toks \<Longrightarrow> getLocations db = Inr ids"
  using load_strings_at [of db locs_index ids]
  by (simp add: represents_def getLocations_def load_strings_def split: if_splits)

lemma rep_good_loc: "represents db ids locs toks \<Longrightarrow> l \<in> set ids \<Longrightarrow> good_loc (locs l)"
  by (simp add: represents_def)

lemma rep_good_token: "represents db ids locs toks \<Longrightarrow> toks tid = Some t \<Longrightarrow> good_token t"
  by (simp add: represents_def)

lemma rep_load_loc:
  assumes "represents db ids locs toks"
  shows "load_loc C l db = Inr (if l \<in> set ids then Some (read_loc C (locs l)) else None)"
proof -
  have "om_get db (loc_key l) = (if l \<in> set ids then Some (dump (loc_to_json (locs l))) else None)"
    using assms by (simp add: represents_def)
  then show ?thesis
    using load_loc_at rep_good_loc [OF assms] by (cases "l \<in> set ids") (simp_all add: load_loc_def)
qed

lemma rep_getToken:
  assumes "represents db ids locs toks"
  shows "getToken C tid db = Inr (map_option (read_token C) (toks tid))"
proof -
  have "om_get db (token_key tid) = map_option (\<lambda>t. dump (token_to_json t)) (toks tid)"
    using assms by (simp add: represents_def)
  then show ?thesis
    using getToken_at rep_good_token [OF assms] by (cases "toks tid") (simp_all add: getToken_def)
qed

lemma rep_owned:
  assumes "represents db ids locs toks"
  shows "\<exists>ss. load_strings (owner_key u) db = Inr ss"
proof -
  have "om_get db (owner_key u) = None \<or> (\<exists>ss. om_get db (owner_key u) = Some (dump (strings_to_json ss)))"
    using assms by (simp add: represents_def)
  then show ?thesis using load_strings_at by (auto simp: load_strings_def)
qed

section \<open>What the stock keeps\<close>

definition serials :: "location_inventory \<Rightarrow> string list" where
  "serials l = map ii_serialNumber (li_items l)"

definition sold :: "string list \<Rightarrow> (string \<Rightarrow> location_inventory) \<Rightarrow> string \<Rightarrow> bool" where
  "sold ids locs s \<longleftrightarrow>
     (\<exists>l \<in> set ids. \<exists>i \<in> set (li_items (locs l)). ii_serialNumber i = s \<and> \<not> ii_available i)"

text \<open>Serial numbers are unique, and every token has a coin of its own that is not for sale.\<close>

definition stocked ::
    "string list \<Rightarrow> (string \<Rightarrow> location_inventory) \<Rightarrow> (string \<Rightarrow> gold_token option) \<Rightarrow> bool" where
  "stocked ids locs toks \<longleftrightarrow>
     (\<forall>l \<in> set ids. distinct (serials (locs l))) \<and>
     (\<forall>l \<in> set ids. \<forall>l' \<in> set ids. l \<noteq> l' \<longrightarrow> set (serials (locs l)) \<inter> set (serials (locs l')) = {}) \<and>
     (\<forall>tid t. toks tid = Some t \<longrightarrow> sold ids locs (gt_backedBySerial t)) \<and>
     (\<forall>tid tid' t t'. toks tid = Some t \<longrightarrow> toks tid' = Some t' \<longrightarrow>
        gt_backedBySerial t = gt_backedBySerial t' \<longrightarrow> tid = tid')"

definition depleted :: "inventory_item \<Rightarrow> inventory_item \<Rightarrow> bool" where
  "depleted i j \<longleftrightarrow> ii_serialNumber j = ii_serialNumber i \<and> (ii_available j \<longrightarrow> ii_available i)"

lemma depleted_serials: "list_all2 depleted is js \<Longrightarrow> map ii_serialNumber js = map ii_serialNumber is"
  by (induction rule: list_all2_induct) (simp_all add: depleted_def)

lemma depleted_keeps:
  "list_all2 depleted is js \<Longrightarrow> i \<in> set is \<Longrightarrow> ii_serialNumber i = s \<Longrightarrow> \<not> ii_available i \<Longrightarrow>
   \<exists>j \<in> set js. ii_serialNumber j = s \<and> \<not> ii_available j"
  by (induction rule: list_all2_induct) (auto simp: depleted_def)

lemma depleted_refl: "list_all2 depleted is is"
  by (simp add: list_all2_same depleted_def)

lemma depleted_trans: "list_all2 depleted is js \<Longrightarrow> list_all2 depleted js ks \<Longrightarrow> list_all2 depleted is ks"
  by (rule list_all2_trans) (auto simp: depleted_def)

lemma depleted_read: "list_all2 depleted is (map (read_item C) is)"
  by (simp add: list_all2_map2 list_all2_same depleted_def)

lemma sold_depleted:
  assumes "sold ids locs s" "list_all2 depleted (li_items (locs l)) (li_items x)"
  shows "sold ids (locs(l := x)) s"
  using assms depleted_keeps [OF assms(2)] unfolding sold_def by (metis fun_upd_apply)

lemma stocked_depleted:
  assumes "stocked ids locs toks" "l \<in> set ids" "list_all2 depleted (li_items (locs l)) (li_items x)"
  shows "stocked ids (locs(l := x)) toks"
proof -
  have ser: "serials ((locs(l := x)) l') = serials (locs l')" for l'
    using depleted_serials [OF assms(3)] by (simp add: serials_def)
  show ?thesis
    using assms(1) sold_depleted [where locs = locs and l = l and x = x, OF _ assms(3)] unfolding stocked_def ser by blast
qed

lemma dispense_first_depleted: "dispense_first s is = Some js \<Longrightarrow> list_all2 depleted is js"
  by (induction "is" arbitrary: js) (auto simp: depleted_def depleted_refl split: if_splits)

lemma dispense_first_coin:
  "dispense_first s is = Some js \<Longrightarrow> \<exists>j \<in> set js. ii_serialNumber j = s \<and> \<not> ii_available j"
  by (induction "is" arbitrary: js) (auto split: if_splits)

lemma dispense_first_None: "dispense_first s is = None \<longleftrightarrow> s \<notin> ii_serialNumber ` set is"
  by (induction "is") auto

lemma sold_not_available:
  assumes "stocked ids locs toks" "sold ids locs s" "l \<in> set ids" "i \<in> set (li_items (locs l))"
    and "ii_serialNumber i = s"
  shows "\<not> ii_available i"
proof -
  obtain l' j where j: "l' \<in> set ids" "j \<in> set (li_items (locs l'))" "ii_serialNumber j = s" "\<not> ii_available j"
    using assms(2) unfolding sold_def by blast
  have "s \<in> set (serials (locs l))" "s \<in> set (serials (locs l'))"
    using assms(4,5) j(2,3) by (auto simp: serials_def intro: rev_image_eqI)
  then have "l = l'" using assms(1,3) j(1) unfolding stocked_def by blast
  moreover have "inj_on ii_serialNumber (set (li_items (locs l)))"
    using assms(1,3) unfolding stocked_def serials_def by (simp add: distinct_map)
  ultimately have "i = j" using assms(4,5) j(2,3) by (auto dest: inj_onD)
  then show ?thesis using j(4) by simp
qed

section \<open>Reading and taking coins\<close>

lemma findAndReserve_coin:
  assumes "represents db ids locs toks" "findAndReserve C l denom db = Inr (Some i)"
  shows "l \<in> set ids \<and> i \<in> set (map (read_item C) (li_items (locs l))) \<and> ii_available i \<and> ii_denomination i = denom"
  using assms(2) by (auto simp: findAndReserve_def rep_load_loc [OF assms(1)] find_Some_iff split: if_splits)

lemma findAndReserve_reads:
  assumes "represents db ids locs toks"
  shows "\<exists>r. findAndReserve C l denom db = Inr r"
  by (simp add: findAndReserve_def rep_load_loc [OF assms])

text \<open>A search finds a coin for sale exactly when there is one.\<close>

definition for_sale :: "string list \<Rightarrow> (string \<Rightarrow> location_inventory) \<Rightarrow> denomination \<Rightarrow> bool" where
  "for_sale ids locs denom \<longleftrightarrow>
     (\<exists>l \<in> set ids. \<exists>i \<in> set (li_items (locs l)). ii_available i \<and> ii_denomination i = denom)"

lemma findAndReserve_none:
  assumes "represents db ids locs toks" "findAndReserve C l denom db = Inr None" "l \<in> set ids"
  shows "\<forall>i \<in> set (li_items (locs l)). \<not> (ii_available i \<and> ii_denomination i = denom)"
  using assms(2,3) by (auto simp: findAndReserve_def rep_load_loc [OF assms(1)] find_None_iff)

lemma first_reserved_coin:
  assumes "represents db ids locs toks" "set ls \<subseteq> set ids"
  shows "\<exists>r. first_reserved C denom ls db = Inr r \<and> (r = None \<longleftrightarrow> \<not> for_sale ls locs denom) \<and>
    (\<forall>i. r = Some i \<longrightarrow>
    (\<exists>l \<in> set ids. i \<in> set (map (read_item C) (li_items (locs l)))) \<and> ii_available i \<and> ii_denomination i = denom)"
  using assms(2)
proof (induction ls)
  case (Cons l ls)
  obtain r where r: "findAndReserve C l denom db = Inr r" using findAndReserve_reads [OF assms(1)] by blast
  show ?case
  proof (cases r)
    case None
    have "for_sale (l # ls) locs denom \<longleftrightarrow> for_sale ls locs denom"
      using findAndReserve_none [OF assms(1) r [unfolded None]] Cons.prems by (auto simp: for_sale_def)
    then show ?thesis using Cons by (simp add: r None)
  next
    case (Some i)
    note coin = findAndReserve_coin [OF assms(1) r [unfolded Some]]
    then have "for_sale (l # ls) locs denom" by (auto simp: for_sale_def)
    then show ?thesis using coin by (auto simp: r Some intro!: bexI [of _ l])
  qed
qed (simp add: for_sale_def)

lemma reserveGold_coin:
  assumes "represents db ids locs toks"
  shows "\<exists>r. reserveGold C denom '''' db = Inr r \<and> (r = None \<longleftrightarrow> \<not> for_sale ids locs denom) \<and>
    (\<forall>i. r = Some i \<longrightarrow>
    (\<exists>l \<in> set ids. i \<in> set (map (read_item C) (li_items (locs l)))) \<and> ii_available i \<and> ii_denomination i = denom)"
  using first_reserved_coin [OF assms subset_refl] by (simp add: reserveGold_def rep_getLocations [OF assms])

text \<open>The new state of a location after one of its coins has been handed out.\<close>

definition dispensed :: "unspecified \<Rightarrow> location_inventory \<Rightarrow> inventory_item list \<Rightarrow> location_inventory" where
  "dispensed C l js = (read_loc C l)\<lparr>li_items := js\<rparr>"

lemma dispense_op_effect:
  assumes "represents db ids locs toks" "set ls \<subseteq> set ids"
  shows "(dispense_op C s ls db = Inr None \<and> (\<forall>l \<in> set ls. s \<notin> set (serials (locs l)))) \<or>
    (\<exists>l \<in> set ls. \<exists>js. dispense_first s (map (read_item C) (li_items (locs l))) = Some js \<and>
       dispense_op C s ls db = Inr (Some (loc_key l, dump (loc_to_json (dispensed C (locs l) js)))))"
  using assms(2)
proof (induction ls)
  case (Cons l ls)
  show ?case
  proof (cases "dispense_first s (map (read_item C) (li_items (locs l)))")
    case None
    then have "s \<notin> set (serials (locs l))"
      by (simp add: dispense_first_None serials_def image_image)
    then show ?thesis using Cons None by (auto simp: rep_load_loc [OF assms(1)])
  next
    case (Some js)
    then show ?thesis using Cons by (auto simp: rep_load_loc [OF assms(1)] dispensed_def)
  qed
qed simp

lemma dispensed_depleted:
  assumes "dispense_first s (map (read_item C) (li_items l)) = Some js"
  shows "list_all2 depleted (li_items l) (li_items (dispensed C l js))"
  using depleted_trans [OF depleted_read dispense_first_depleted [OF assms]] by (simp add: dispensed_def)

lemma dispense_first_good: "dispense_first s is = Some js \<Longrightarrow> list_all good_item is \<Longrightarrow> list_all good_item js"
  by (induction "is" arbitrary: js) (auto simp: good_item_def split: if_splits)

lemma dispensed_good:
  assumes "dispense_first s (map (read_item C) (li_items l)) = Some js" "good_loc l"
  shows "good_loc (dispensed C l js)"
  using dispense_first_good [OF assms(1)] good_read(2) [OF assms(2), of C] by (simp add: dispensed_def good_loc_def)

section \<open>What every call keeps\<close>

definition gold_ok :: "store \<Rightarrow> bool" where
  "gold_ok db \<longleftrightarrow> (\<exists>ids locs toks. represents db ids locs toks \<and> stocked ids locs toks)"

definition stock_serials :: "unspecified \<Rightarrow> store \<Rightarrow> string list" where
  "stock_serials C db =
     (case getLocations db of Inl e \<Rightarrow> []
      | Inr ids \<Rightarrow> concat (map (\<lambda>l. case load_loc C l db of Inr (Some loc) \<Rightarrow> serials loc | _ \<Rightarrow> []) ids))"

text \<open>Locations and serial numbers are not given twice, and totals stay numbers that can be stored.\<close>

fun admissible :: "unspecified \<Rightarrow> gold_bridge \<Rightarrow> gold_call \<Rightarrow> bool" where
  "admissible C g (AddLocation up now l a) =
     (case getLocations (gb_store g) of Inl e \<Rightarrow> False | Inr ids \<Rightarrow> l \<notin> set ids)"
| "admissible C g (AddGoldCoin up l i) =
     (good_item i \<and> ii_serialNumber i \<notin> set (stock_serials C (gb_store g)) \<and>
      (case load_loc C l (gb_store g) of
         Inr (Some loc) \<Rightarrow> keepable (d_add (li_totalWeightOz loc) (ii_weightOz i)) | _ \<Rightarrow> True))"
| "admissible C g _ = True"

fun admissible_run :: "unspecified \<Rightarrow> (bytes \<Rightarrow> bytes) \<Rightarrow> gold_bridge \<Rightarrow> gold_call list \<Rightarrow> bool" where
  "admissible_run C sha g [] = True"
| "admissible_run C sha g (x # xs) = (admissible C g x \<and> admissible_run C sha (gold_step C sha g x) xs)"

lemma rep_serials:
  "represents db ids locs toks \<Longrightarrow> stock_serials C db = concat (map (\<lambda>l. serials (locs l)) ids)"
  by (auto simp: stock_serials_def rep_getLocations rep_load_loc serials_def o_def intro!: arg_cong [where f = concat])

lemma gold_ok_empty: "gold_ok om_empty"
  unfolding gold_ok_def
  by (rule exI [of _ "[]"], rule exI [of _ "\<lambda>l. undefined"], rule exI [of _ "\<lambda>t. None"])
    (simp add: represents_def stocked_def)

lemma sold_new_loc: "sold ids locs s \<Longrightarrow> l \<notin> set ids \<Longrightarrow> sold (ids @ [l]) (locs(l := x)) s"
  unfolding sold_def by (metis UnI1 fun_upd_other set_append)

definition empty_location :: "u64 \<Rightarrow> string \<Rightarrow> string \<Rightarrow> location_inventory" where
  "empty_location now l a = \<lparr>li_locationId = l, li_address = a, li_items = [], li_totalWeightOz = Fin 0,
     li_lastRestockTimestamp = now\<rparr>"

lemma index_after_put:
  assumes "represents db ids locs toks"
  shows "load_strings locs_index (snd (store_put up (loc_key l) t db)) = Inr ids"
  using rep_getLocations [OF assms] by (simp add: getLocations_def load_strings_def store_put_def)

lemma rep_addLocation:
  assumes "represents db ids locs toks" "l \<notin> set ids"
  shows "represents (snd (addLocation True now l a db)) (ids @ [l]) (locs(l := empty_location now l a)) toks"
proof -
  have "keepable (Fin 0)" using keepable_ordinary [of "Fin 0"] by (simp add: ordinary_def)
  then have "good_loc (empty_location now l a)" by (simp add: good_loc_def empty_location_def)
  from rep_new_loc [OF assms this] show ?thesis
    using assms(2) index_after_put [OF assms(1), of True]
    by (simp add: addLocation_def Let_def store_put_def empty_location_def)
qed

definition with_coin :: "unspecified \<Rightarrow> location_inventory \<Rightarrow> inventory_item \<Rightarrow> location_inventory" where
  "with_coin C loc i = (read_loc C loc)\<lparr>li_items := li_items (read_loc C loc) @ [i],
     li_totalWeightOz := d_add (li_totalWeightOz (read_loc C loc)) (ii_weightOz i)\<rparr>"

lemma rep_addGoldCoin:
  assumes "represents db ids locs toks" "l \<in> set ids" "good_loc (with_coin C (locs l) i)"
  shows "represents (snd (addGoldCoin C True l i db)) ids (locs(l := with_coin C (locs l) i)) toks"
  using rep_loc [OF assms] assms(2)
  by (simp add: addGoldCoin_def Let_def store_put_def rep_load_loc [OF assms(1)] with_coin_def)

lemma ok_addLocation:
  assumes "gold_ok db" "case getLocations db of Inl e \<Rightarrow> False | Inr ids \<Rightarrow> l \<notin> set ids"
  shows "gold_ok (snd (addLocation up now l a db))"
proof -
  obtain ids locs toks where r: "represents db ids locs toks" and s: "stocked ids locs toks"
    using assms(1) unfolding gold_ok_def by blast
  have l: "l \<notin> set ids" using assms(2) by (simp add: rep_getLocations [OF r])
  show ?thesis
  proof (cases up)
    case True
    have "stocked (ids @ [l]) (locs(l := empty_location now l a)) toks"
      using s l sold_new_loc [OF _ l] unfolding stocked_def by (auto simp: serials_def empty_location_def)
    with rep_addLocation [OF r l, of now a] True show ?thesis unfolding gold_ok_def by auto
  next
    case False
    then have "snd (addLocation up now l a db) = db"
      using index_after_put [OF r, of False l] l by (simp add: addLocation_def Let_def store_put_def)
    then show ?thesis using assms(1) by simp
  qed
qed

lemma ok_addGoldCoin:
  assumes "gold_ok (gb_store g)" "admissible C g (AddGoldCoin up l i)"
  shows "gold_ok (snd (addGoldCoin C up l i (gb_store g)))"
proof -
  let ?db = "gb_store g"
  obtain ids locs toks where r: "represents ?db ids locs toks" and s: "stocked ids locs toks"
    using assms(1) unfolding gold_ok_def by blast
  show ?thesis
  proof (cases "up \<and> l \<in> set ids")
    case True
    let ?x = "with_coin C (locs l) i"
    have load: "load_loc C l ?db = Inr (Some (read_loc C (locs l)))" using True by (simp add: rep_load_loc [OF r])
    have "good_loc (read_loc C (locs l))" using rep_good_loc [OF r] True by simp
    then have good: "good_loc ?x"
      using assms(2) load by (simp add: good_loc_def with_coin_def)
    have fresh: "ii_serialNumber i \<notin> set (serials (locs l'))" if "l' \<in> set ids" for l'
      using assms(2) that by (auto simp: rep_serials [OF r])
    have ser: "serials ?x = serials (locs l) @ [ii_serialNumber i]"
      by (simp add: serials_def with_coin_def)
    have "stocked ids (locs(l := ?x)) toks"
      unfolding stocked_def
    proof (intro conjI)
      show "\<forall>l' \<in> set ids. distinct (serials ((locs(l := ?x)) l'))"
        using s fresh ser by (simp add: stocked_def)
      show "\<forall>l1 \<in> set ids. \<forall>l2 \<in> set ids. l1 \<noteq> l2 \<longrightarrow>
          set (serials ((locs(l := ?x)) l1)) \<inter> set (serials ((locs(l := ?x)) l2)) = {}"
        using s fresh ser by (auto simp: stocked_def)
      have "sold ids (locs(l := ?x)) t" if t: "sold ids locs t" for t
      proof -
        obtain l1 j where "l1 \<in> set ids" "j \<in> set (li_items (locs l1))" "ii_serialNumber j = t" "\<not> ii_available j"
          using t unfolding sold_def by blast
        then show ?thesis
          unfolding sold_def
          by (intro bexI [of _ l1] bexI [of _ "if l1 = l then read_item C j else j"]) (auto simp: with_coin_def)
      qed
      then show "\<forall>tid t. toks tid = Some t \<longrightarrow> sold ids (locs(l := ?x)) (gt_backedBySerial t)"
        using s unfolding stocked_def by blast
    qed (use s in \<open>simp add: stocked_def\<close>)
    moreover have "represents (snd (addGoldCoin C up l i ?db)) ids (locs(l := ?x)) toks"
      using rep_addGoldCoin [OF r _ good] True by simp
    ultimately show ?thesis unfolding gold_ok_def by blast
  next
    case False
    then have "snd (addGoldCoin C up l i ?db) = ?db"
      by (auto simp: addGoldCoin_def rep_load_loc [OF r] store_put_def)
    then show ?thesis using assms(1) by simp
  qed
qed

lemma mark_op:
  assumes "represents db ids locs toks"
  shows "(getMarkAsDispensedOp C s db = Inr None \<and> (\<forall>l \<in> set ids. s \<notin> set (serials (locs l)))) \<or>
    (\<exists>l \<in> set ids. \<exists>js. dispense_first s (map (read_item C) (li_items (locs l))) = Some js \<and>
       getMarkAsDispensedOp C s db = Inr (Some (loc_key l, dump (loc_to_json (dispensed C (locs l) js)))))"
  using dispense_op_effect [OF assms, of ids] by (simp add: getMarkAsDispensedOp_def rep_getLocations [OF assms])

lemma rep_dispensed:
  assumes "represents db ids locs toks" "stocked ids locs toks" "l \<in> set ids"
    and "dispense_first s (map (read_item C) (li_items (locs l))) = Some js"
  defines "x \<equiv> dispensed C (locs l) js"
  shows "represents (om_put (loc_key l) (dump (loc_to_json x)) db) ids (locs(l := x)) toks"
    and "stocked ids (locs(l := x)) toks" and "sold ids (locs(l := x)) s"
proof -
  show "represents (om_put (loc_key l) (dump (loc_to_json x)) db) ids (locs(l := x)) toks"
    unfolding x_def using dispensed_good [OF assms(4)] rep_good_loc [OF assms(1)] assms(3)
    by (intro rep_loc [OF assms(1)]) auto
  show "stocked ids (locs(l := x)) toks"
    unfolding x_def by (rule stocked_depleted [OF assms(2,3) dispensed_depleted [OF assms(4)]])
  show "sold ids (locs(l := x)) s"
    using dispense_first_coin [OF assms(4)] assms(3) by (auto simp: sold_def x_def dispensed_def intro!: bexI [of _ l])
qed

lemma ok_markAsDispensed:
  assumes "gold_ok db"
  shows "gold_ok (snd (markAsDispensed C up s db))"
proof -
  obtain ids locs toks where r: "represents db ids locs toks" and s: "stocked ids locs toks"
    using assms unfolding gold_ok_def by blast
  from mark_op [OF r, of C s] show ?thesis
  proof (elim disjE conjE bexE exE)
    fix l js
    assume "l \<in> set ids" "dispense_first s (map (read_item C) (li_items (locs l))) = Some js"
      and op: "getMarkAsDispensedOp C s db = Inr (Some (loc_key l, dump (loc_to_json (dispensed C (locs l) js))))"
    from rep_dispensed(1,2) [OF r s this(1,2)]
    show ?thesis using assms op unfolding gold_ok_def by (cases up) (auto simp: markAsDispensed_def store_put_def)
  qed (simp add: markAsDispensed_def assms)
qed

lemma ok_redeemToken:
  assumes "gold_ok db"
  shows "gold_ok (snd (redeemToken C up tid u db))"
proof (cases "snd (redeemToken C up tid u db) = db")
  case False
  obtain ids locs toks where r: "represents db ids locs toks" and s: "stocked ids locs toks"
    using assms unfolding gold_ok_def by blast
  obtain ss where ss: "load_strings (owner_key u) db = Inr ss" using rep_owned [OF r] by blast
  from False obtain t where t: "toks tid = Some t" "\<not> gt_redeemed t" "gt_ownerAddress t = u" "up"
    by (cases "toks tid") (auto simp: redeemToken_def rep_getToken [OF r] executeBatch_def Let_def
        split: if_splits sum.splits)
  let ?t = "(read_token C t)\<lparr>gt_redeemed := True, gt_ownerAddress := ''REDEEMED''\<rparr>"
  let ?db = "om_put (token_key tid) (dump (token_to_json ?t)) db"
  have "good_token ?t" using good_read(3) [OF rep_good_token [OF r t(1)], of C] by (simp add: good_token_def)
  from rep_token [OF r this] have r1: "represents ?db ids locs (toks(tid \<mapsto> ?t))" .
  have "snd (redeemToken C up tid u db) =
      (if tid \<in> set ss then om_put (owner_key u) (dump (strings_to_json (remove1 tid ss))) ?db else ?db)"
    using t ss by (simp add: redeemToken_def rep_getToken [OF r] executeBatch_def Let_def)
  then have "represents (snd (redeemToken C up tid u db)) ids locs (toks(tid \<mapsto> ?t))"
    using r1 rep_owner [OF r1] by simp
  moreover have "stocked ids locs (toks(tid \<mapsto> ?t))"
    using s t(1) unfolding stocked_def by (auto split: if_splits)
  ultimately show ?thesis unfolding gold_ok_def by blast
qed (simp add: assms)

lemma stocked_new_token:
  assumes "stocked ids locs toks" "sold ids locs (gt_backedBySerial t)"
    and "\<forall>tid' t'. toks tid' = Some t' \<longrightarrow> gt_backedBySerial t' \<noteq> gt_backedBySerial t"
  shows "stocked ids locs (toks(tid \<mapsto> t))"
proof -
  have "tid1 = tid2" if "(toks(tid \<mapsto> t)) tid1 = Some t1" "(toks(tid \<mapsto> t)) tid2 = Some t2"
      "gt_backedBySerial t1 = gt_backedBySerial t2" for tid1 tid2 t1 t2
    using that assms(1,3) unfolding stocked_def by (metis fun_upd_apply option.inject)
  moreover have "sold ids locs (gt_backedBySerial t1)" if "(toks(tid \<mapsto> t)) tid1 = Some t1" for tid1 t1
    using that assms(1,2) unfolding stocked_def by (metis fun_upd_apply option.inject)
  ultimately show ?thesis using assms(1) unfolding stocked_def by blast
qed

text \<open>One coin for one token.\<close>

lemma ok_settle:
  assumes "represents db ids locs toks" "stocked ids locs toks"
    and "l \<in> set ids" "item \<in> set (map (read_item C) (li_items (locs l)))" "ii_available item"
    and "settle C sha up now1 now2 item db c = (res, c', db')"
  shows "gold_ok db'"
proof (cases "db' = db")
  case False
  let ?s = "ii_serialNumber item"
  obtain i where i: "i \<in> set (li_items (locs l))" "item = read_item C i" using assms(4) by auto
  have old: "\<not> sold ids locs ?s"
    using sold_not_available [OF assms(2) _ assms(3) i(1)] assms(5) by (auto simp: i(2))
  obtain l1 js where d: "l1 \<in> set ids" "dispense_first ?s (map (read_item C) (li_items (locs l1))) = Some js"
    and op: "getMarkAsDispensedOp C ?s db = Inr (Some (loc_key l1, dump (loc_to_json (dispensed C (locs l1) js))))"
    using mark_op [OF assms(1), of C ?s] assms(3) i by (auto simp: serials_def)
  obtain ss where ss: "load_strings (owner_key (cv_userAddress c)) db = Inr ss" using rep_owned [OF assms(1)] by blast
  let ?tid = "generateTokenId sha now1 (cv_userAddress c) ?s"
  let ?t = "\<lparr>gt_tokenId = ?tid, gt_ownerAddress = cv_userAddress c, gt_weightOz = ii_weightOz item,
      gt_denomination = ii_denomination item, gt_backedBySerial = ?s, gt_custodianLocation = ii_location item,
      gt_issuanceTimestamp = now2, gt_redeemed = False\<rparr>"
  let ?x = "dispensed C (locs l1) js"
  note r = rep_dispensed [OF assms(1,2) d]
  have "good_item item" using good_read(1) rep_good_loc [OF assms(1,3)] i by (auto simp: good_loc_def list_all_iff)
  then have "good_token ?t" by (simp add: good_token_def good_item_def)
  from rep_owner [OF rep_token [OF r(1) this, of ?tid], of "cv_userAddress c" "ss @ [?tid]"]
  have "represents db' ids (locs(l1 := ?x)) (toks(?tid \<mapsto> ?t))"
    using False assms(6) by (auto simp: settle_def op getIssueTokenOps_def ss executeBatch_def Let_def
        split: if_splits prod.splits)
  moreover have "\<forall>tid t. toks tid = Some t \<longrightarrow> gt_backedBySerial t \<noteq> ?s"
    using assms(2) old unfolding stocked_def by metis
  then have "stocked ids (locs(l1 := ?x)) (toks(?tid \<mapsto> ?t))"
    by (intro stocked_new_token [OF r(2)]) (use r(3) in auto)
  ultimately show ?thesis unfolding gold_ok_def by blast
qed (use assms(1,2) in \<open>auto simp: gold_ok_def\<close>)

lemma ok_execute:
  assumes "gold_ok (gb_store g)"
  shows "gold_ok (gb_store (snd (executeConversion C sha rpc quotes up now now1 now2 cid denom g)))"
proof -
  let ?db = "gb_store g"
  obtain ids locs toks where r: "represents ?db ids locs toks" and s: "stocked ids locs toks"
    using assms unfolding gold_ok_def by blast
  obtain ro where ro: "reserveGold C denom '''' ?db = Inr ro" and coin: "\<And>i. ro = Some i \<Longrightarrow>
      (\<exists>l \<in> set ids. i \<in> set (map (read_item C) (li_items (locs l)))) \<and> ii_available i"
    using reserveGold_coin [OF r] by blast
  have settled: "gold_ok db'" if st: "settle C sha up now1 now2 i ?db c = (res, c', db')" and i: "ro = Some i" for i c res c' db'
  proof -
    obtain l where "l \<in> set ids" "i \<in> set (map (read_item C) (li_items (locs l)))" "ii_available i"
      using coin [OF i] by blast
    from ok_settle [OF r s this st] show ?thesis .
  qed
  show ?thesis
    using assms by (auto simp: executeConversion_def ro set_conversion_def Let_def intro: settled split: option.splits
        sum.splits prod.splits bool.splits)
qed

lemma gold_step_ok: "gold_ok (gb_store g) \<Longrightarrow> admissible C g x \<Longrightarrow> gold_ok (gb_store (gold_step C sha g x))"
proof (induction x)
  case (Initiate raw now1 now2 u a b)
  then show ?case by (simp add: initiateConversion_def set_conversion_def Let_def)
next
  case (Confirm now cid t v h)
  then show ?case by (auto simp: confirmPayment_def set_conversion_def Let_def split: option.splits prod.splits)
next
  case (AddGoldCoin up l i)
  then show ?case using ok_addGoldCoin by simp
qed (simp_all add: ok_addLocation ok_markAsDispensed ok_redeemToken ok_execute)

lemma gold_run_ok:
  "gold_ok (gb_store g) \<Longrightarrow> admissible_run C sha g xs \<Longrightarrow> gold_ok (gb_store (foldl (gold_step C sha) g xs))"
  by (induction xs arbitrary: g) (auto intro: gold_step_ok)

text \<open>
  C33. Every gold token has a coin of its own. After any sequence of calls that does not give a
  location or a serial number twice, every token in the store is backed by a coin of the
  inventory, no coin with its serial number is for sale, and two tokens with the same serial
  number are the same token; reading the inventory never throws.
\<close>

theorem tokens_are_backed:
  assumes "admissible_run C sha new_gold_bridge calls"
  defines "db \<equiv> gb_store (foldl (gold_step C sha) new_gold_bridge calls)"
  shows "\<exists>ids. getLocations db = Inr ids \<and> (\<forall>l \<in> set ids. \<exists>loc. load_loc C l db = Inr (Some loc)) \<and>
    (\<forall>tid t. getToken C tid db = Inr (Some t) \<longrightarrow>
      (\<exists>l \<in> set ids. \<exists>loc. load_loc C l db = Inr (Some loc) \<and> gt_backedBySerial t \<in> set (serials loc)) \<and>
      (\<forall>l \<in> set ids. \<forall>loc. load_loc C l db = Inr (Some loc) \<longrightarrow>
        (\<forall>i \<in> set (li_items loc). ii_serialNumber i = gt_backedBySerial t \<longrightarrow> \<not> ii_available i)) \<and>
      (\<forall>tid' t'. getToken C tid' db = Inr (Some t') \<longrightarrow> gt_backedBySerial t' = gt_backedBySerial t \<longrightarrow> tid' = tid))"
proof -
  have "gold_ok (gb_store new_gold_bridge)" by (simp add: new_gold_bridge_def gold_ok_empty)
  from gold_run_ok [OF this assms(1)] obtain ids locs toks
    where r: "represents db ids locs toks" and s: "stocked ids locs toks"
    unfolding gold_ok_def db_def by blast
  have load: "load_loc C l db = Inr (Some (read_loc C (locs l)))" if "l \<in> set ids" for l
    using that by (simp add: rep_load_loc [OF r])
  show ?thesis
  proof (intro exI [of _ ids] conjI allI impI ballI)
    fix tid t
    assume "getToken C tid db = Inr (Some t)"
    then obtain u where u: "toks tid = Some u" "gt_backedBySerial t = gt_backedBySerial u"
      by (auto simp: rep_getToken [OF r])
    then have sold: "sold ids locs (gt_backedBySerial t)" using s by (simp add: stocked_def)
    then show "\<exists>l \<in> set ids. \<exists>loc. load_loc C l db = Inr (Some loc) \<and> gt_backedBySerial t \<in> set (serials loc)"
      using load by (force simp: sold_def serials_def)
    show "\<not> ii_available i"
      if "l \<in> set ids" "load_loc C l db = Inr (Some loc)" "i \<in> set (li_items loc)"
        "ii_serialNumber i = gt_backedBySerial t" for l loc i
      using that load sold_not_available [OF s sold] by auto
    show "tid' = tid" if "getToken C tid' db = Inr (Some t')" "gt_backedBySerial t' = gt_backedBySerial t" for tid' t'
      using that u s by (auto simp: rep_getToken [OF r] stocked_def)
  qed (use load in \<open>auto simp: rep_getLocations [OF r]\<close>)
qed

section \<open>When a conversion goes through\<close>

lemma settle_outcome:
  assumes "represents db ids locs toks" "l \<in> set ids" "item \<in> set (map (read_item C) (li_items (locs l)))"
    and "cv_status c = GOLD_RESERVED"
  shows "\<exists>c' db'. settle C sha up now1 now2 item db c = (Inr up, c', db') \<and>
    (up \<longrightarrow> cv_status c' = COMPLETED \<and> cv_goldTokenId c' = generateTokenId sha now1 (cv_userAddress c) (ii_serialNumber item))"
proof -
  obtain i where "i \<in> set (li_items (locs l))" "item = read_item C i" using assms(3) by auto
  then have "ii_serialNumber item \<in> set (serials (locs l))" by (simp add: serials_def)
  then obtain op where "getMarkAsDispensedOp C (ii_serialNumber item) db = Inr (Some op)"
    using mark_op [OF assms(1), of C "ii_serialNumber item"] assms(2) by blast
  moreover obtain ss where "load_strings (owner_key (cv_userAddress c)) db = Inr ss" using rep_owned [OF assms(1)] by blast
  ultimately show ?thesis
    using assms(4) by (auto simp: settle_def getIssueTokenOps_def executeBatch_def Let_def markTokenIssued_def
        completePhysicalDispense_def)
qed

lemma execute_outcome:
  assumes "represents (gb_store g) ids locs toks"
  shows "fst (executeConversion C sha rpc quotes up now now1 now2 cid denom g) = Inr True \<longleftrightarrow>
    (\<exists>c p. om_get (gb_conversions g) cid = Some c \<and> cv_status c = PAYMENT_CONFIRMED \<and>
       (cv_burnOption c \<longrightarrow> verifyBurnProof sha rpc (cv_burnProof c) MIN_CONFIRMATIONS) \<and>
       getAggregatedPrice quotes now = Inr p) \<and> for_sale ids locs denom \<and> up"
proof -
  obtain ro where ro: "reserveGold C denom '''' (gb_store g) = Inr ro" "ro = None \<longleftrightarrow> \<not> for_sale ids locs denom"
      "\<And>i. ro = Some i \<Longrightarrow> \<exists>l \<in> set ids. i \<in> set (map (read_item C) (li_items (locs l)))"
    using reserveGold_coin [OF assms] by blast
  have st: "fst (settle C sha up now1 now2 i (gb_store g) c) = Inr up"
    if "ro = Some i" "cv_status c = GOLD_RESERVED" for i c
    using settle_outcome [OF assms _ _ that(2)] ro(3) [OF that(1)] by (metis fst_conv)
  show ?thesis
  proof (cases "\<exists>c p. om_get (gb_conversions g) cid = Some c \<and> cv_status c = PAYMENT_CONFIRMED \<and>
       (cv_burnOption c \<longrightarrow> verifyBurnProof sha rpc (cv_burnProof c) MIN_CONFIRMATIONS) \<and>
       getAggregatedPrice quotes now = Inr p")
    case True
    then obtain c p where c: "om_get (gb_conversions g) cid = Some c" "cv_status c = PAYMENT_CONFIRMED"
        "cv_burnOption c \<longrightarrow> verifyBurnProof sha rpc (cv_burnProof c) MIN_CONFIRMATIONS"
        "getAggregatedPrice quotes now = Inr p"
      by blast
    have "(case settle C sha up now1 now2 i (gb_store g) c' of (res, c3, db) \<Rightarrow> res) =
        fst (settle C sha up now1 now2 i (gb_store g) c')" for i c'
      by (simp add: case_prod_beta)
    then show ?thesis
      using c ro(1,2) st True
      by (cases ro) (auto simp: executeConversion_def lockPrice_def conversion_reserveGold_def Let_def case_prod_beta)
  next
    case False
    then show ?thesis
      by (auto simp: executeConversion_def lockPrice_def Let_def split: option.splits sum.splits if_splits)
  qed
qed

text \<open>
  C34. When a conversion goes through. After any admissible calls, executing a conversion succeeds
  exactly when its payment is confirmed, its burn proof verifies if it has the burn option, an
  oracle answers, a coin of the requested denomination is for sale somewhere, and the store
  accepts the batch. The amount paid and the price appear nowhere in the condition: one satoshi
  buys ten ounces.
\<close>

theorem conversion_outcome:
  assumes "admissible_run C sha new_gold_bridge calls"
  defines "g \<equiv> foldl (gold_step C sha) new_gold_bridge calls"
  shows "fst (executeConversion C sha rpc quotes up now now1 now2 cid denom g) = Inr True \<longleftrightarrow>
    (\<exists>c p. om_get (gb_conversions g) cid = Some c \<and> cv_status c = PAYMENT_CONFIRMED \<and>
       (cv_burnOption c \<longrightarrow> verifyBurnProof sha rpc (cv_burnProof c) MIN_CONFIRMATIONS) \<and>
       getAggregatedPrice quotes now = Inr p) \<and>
    (\<exists>ids l loc i. getLocations (gb_store g) = Inr ids \<and> l \<in> set ids \<and> load_loc C l (gb_store g) = Inr (Some loc) \<and>
       i \<in> set (li_items loc) \<and> ii_available i \<and> ii_denomination i = denom) \<and> up"
proof -
  have "gold_ok (gb_store new_gold_bridge)" by (simp add: new_gold_bridge_def gold_ok_empty)
  from gold_run_ok [OF this assms(1)] obtain ids locs toks where r: "represents (gb_store g) ids locs toks"
    unfolding gold_ok_def g_def by blast
  have "for_sale ids locs denom \<longleftrightarrow>
      (\<exists>ids' l loc i. getLocations (gb_store g) = Inr ids' \<and> l \<in> set ids' \<and> load_loc C l (gb_store g) = Inr (Some loc) \<and>
       i \<in> set (li_items loc) \<and> ii_available i \<and> ii_denomination i = denom)"
    by (auto simp: for_sale_def rep_getLocations [OF r] rep_load_loc [OF r])
  with execute_outcome [OF r] show ?thesis by simp
qed

section \<open>A run\<close>

definition demo_coin :: inventory_item where
  "demo_coin = \<lparr>ii_serialNumber = ''A1'', ii_denomination = TEN_OZ, ii_weightOz = Fin 10,
     ii_location = ''vault'', ii_available = True, ii_lastAuditTimestamp = 0\<rparr>"

definition demo_conversion :: conversion where
  "demo_conversion = \<lparr>cv_conversionId = '''', cv_userAddress = '''', cv_btcAmountSatoshis = 0,
     cv_goldWeightOz = Fin 0, cv_denomination = 0, cv_btcPriceUsd = Fin 0, cv_goldPriceUsd = Fin 0,
     cv_timestamp = 0, cv_status = FAILED,
     cv_burnProof = \<lparr>bp_txId = '''', bp_voutIndex = 0, bp_amountSatoshis = 0, bp_burnAddress = '''',
       bp_blockHeight = 0, bp_timestamp = 0, bp_merkleProof = [], bp_verified = False\<rparr>,
     cv_goldTokenId = '''', cv_goldSerialNumber = '''', cv_burnOption = False\<rparr>"

definition demo_quotes :: "(price_data option \<times> u64) list" where
  "demo_quotes = [(Some \<lparr>pd_btcUsdPrice = Fin 60000, pd_goldUsdPrice = Fin 2000, pd_timestamp = 5,
     pd_sources = [], pd_confidence = Fin 1\<rparr>, 7)]"

definition demo_gold :: "gold_call list" where
  "demo_gold = [AddLocation True 0 ''v'' ''street'', AddGoldCoin True ''v'' demo_coin,
     Initiate demo_conversion 0 0 ''ann'' 1 False, Confirm 0 '''' ''tx'' 0 0]"

abbreviation no_hash :: "bytes \<Rightarrow> bytes" where
  "no_hash \<equiv> \<lambda>b. []"

lemma demo_keepable: "keepable (Fin 10)" "keepable (d_add (Fin 0) (Fin 10))" "keepable (Fin 0)" "reread (Fin 0) = Fin 0"
proof -
  have "pow2 (- 1000) \<le> 10" using power_int_increasing [of "- 1000" 0 "2 :: rat"] by (simp add: pow2_eq)
  moreover have "(10 :: rat) \<le> 2 ^ 1000" using power_increasing [of 4 1000 "2 :: rat"] by simp
  ultimately have "ordinary (Fin 10)" by (simp only: ordinary_def double.case) simp
  then show k: "keepable (Fin 10)" using keepable_ordinary by blast
  show "keepable (d_add (Fin 0) (Fin 10))" using k d_add_nat [of 0 10] by simp
  show "keepable (Fin 0)" using keepable_ordinary [of "Fin 0"] by (simp add: ordinary_def)
  show "reread (Fin 0) = Fin 0" using reread_small_nat [of 0] by simp
qed

definition demo_empty :: location_inventory where
  "demo_empty = empty_location 0 ''v'' ''street''"

lemma demo_located:
  "represents (gb_store (gold_step C no_hash new_gold_bridge (AddLocation True 0 ''v'' ''street'')))
     [''v''] ((\<lambda>l. undefined)(''v'' := demo_empty)) (\<lambda>t. None)"
proof -
  have "represents om_empty [] (\<lambda>l. undefined) (\<lambda>t. None)" by (simp add: represents_def)
  from rep_addLocation [OF this, of "''v''" 0 "''street''"] show ?thesis
    by (simp add: demo_empty_def new_gold_bridge_def)
qed

lemma demo_good: "good_item demo_coin" "good_loc (with_coin C demo_empty demo_coin)"
  using demo_keepable by (simp_all add: good_loc_def with_coin_def good_item_def demo_coin_def good_denomination_def
      TEN_OZ_def ONE_TENTH_OZ_def demo_empty_def empty_location_def read_loc_def)

lemma demo_stocked:
  "represents (gb_store (foldl (gold_step C no_hash) new_gold_bridge (take 2 demo_gold)))
     [''v''] ((\<lambda>l. undefined)(''v'' := with_coin C demo_empty demo_coin)) (\<lambda>t. None)"
  using rep_addGoldCoin [OF demo_located, of "''v''" C demo_coin] demo_good(2) by (simp add: demo_gold_def)

lemma demo_admissible: "admissible_run C no_hash new_gold_bridge demo_gold"
proof -
  have "stock_serials C (gb_store (gold_step C no_hash new_gold_bridge (AddLocation True 0 ''v'' ''street''))) = []"
    using rep_serials [OF demo_located] by (simp add: serials_def demo_empty_def empty_location_def)
  moreover have "getLocations (gb_store new_gold_bridge) = Inr []"
    by (simp add: new_gold_bridge_def getLocations_def load_strings_def)
  ultimately show ?thesis
    using demo_good(1) demo_keepable(2,4) rep_load_loc [OF demo_located, of C "''v''"]
    by (simp add: demo_gold_def demo_empty_def empty_location_def read_loc_def demo_coin_def del: gold_step.simps)
qed

lemma admissible_run_append:
  "admissible_run C sha g (xs @ ys) \<longleftrightarrow>
   admissible_run C sha g xs \<and> admissible_run C sha (foldl (gold_step C sha) g xs) ys"
  by (induction xs arbitrary: g) auto

lemma demo_run:
  fixes C
  defines "g \<equiv> foldl (gold_step C no_hash) new_gold_bridge demo_gold"
  shows "represents (gb_store g) [''v''] ((\<lambda>l. undefined)(''v'' := with_coin C demo_empty demo_coin)) (\<lambda>t. None)"
    and "\<exists>c. om_get (gb_conversions g) '''' = Some c \<and> cv_status c = PAYMENT_CONFIRMED \<and> \<not> cv_burnOption c"
proof -
  have g: "g = gold_step C no_hash (gold_step C no_hash (foldl (gold_step C no_hash) new_gold_bridge (take 2 demo_gold))
      (Initiate demo_conversion 0 0 ''ann'' 1 False)) (Confirm 0 '''' ''tx'' 0 0)"
    by (simp add: g_def demo_gold_def del: gold_step.simps)
  show "represents (gb_store g) [''v''] ((\<lambda>l. undefined)(''v'' := with_coin C demo_empty demo_coin)) (\<lambda>t. None)"
    using demo_stocked [of C] unfolding g
    by (auto simp: initiateConversion_def confirmPayment_def set_conversion_def Let_def split: option.splits prod.splits)
  show "\<exists>c. om_get (gb_conversions g) '''' = Some c \<and> cv_status c = PAYMENT_CONFIRMED \<and> \<not> cv_burnOption c"
    unfolding g by (simp add: initiateConversion_def confirmPayment_def set_conversion_def new_conversion_def
        processPayment_def Let_def hex_of_def)
qed

theorem conversion_outcome_witness:
  "\<forall>C. fst (executeConversion C (\<lambda>b. []) None demo_quotes True 7 8 9 '''' TEN_OZ
     (foldl (gold_step C (\<lambda>b. [])) new_gold_bridge demo_gold)) = Inr True"
proof
  fix C
  have price: "\<exists>p. getAggregatedPrice demo_quotes 7 = Inr p"
    by (simp add: getAggregatedPrice_def demo_quotes_def fresh_prices_def ORACLE_TIMEOUT_SECONDS_def
        calculateMedianPrice_def Let_def)
  let ?db = "gb_store (foldl (gold_step C no_hash) new_gold_bridge demo_gold)"
  let ?loc = "read_loc C (with_coin C demo_empty demo_coin)"
  have "getLocations ?db = Inr [''v'']" "load_loc C ''v'' ?db = Inr (Some ?loc)"
    by (simp_all add: rep_getLocations [OF demo_run(1)] rep_load_loc [OF demo_run(1)])
  moreover have "read_item C demo_coin \<in> set (li_items ?loc)" by (simp add: with_coin_def)
  moreover have "ii_available (read_item C demo_coin) \<and> ii_denomination (read_item C demo_coin) = TEN_OZ"
    by (simp add: demo_coin_def)
  ultimately have "\<exists>ids l loc i. getLocations ?db = Inr ids \<and> l \<in> set ids \<and> load_loc C l ?db = Inr (Some loc) \<and>
      i \<in> set (li_items loc) \<and> ii_available i \<and> ii_denomination i = TEN_OZ"
    by (meson list.set_intros(1))
  with price demo_run(2) [of C]
    conversion_outcome [OF demo_admissible, of C None demo_quotes True 7 8 9 "''''" TEN_OZ]
  show "fst (executeConversion C no_hash None demo_quotes True 7 8 9 '''' TEN_OZ
     (foldl (gold_step C no_hash) new_gold_bridge demo_gold)) = Inr True"
    by blast
qed

theorem tokens_are_backed_witness:
  "\<forall>C. \<exists>ids. getLocations (gb_store (foldl (gold_step C (\<lambda>b. [])) new_gold_bridge
     (demo_gold @ [Execute None demo_quotes True 7 8 9 '''' TEN_OZ, Redeem True '''' ''ann'']))) = Inr ids"
proof
  fix C
  have "admissible_run C no_hash new_gold_bridge
      (demo_gold @ [Execute None demo_quotes True 7 8 9 '''' TEN_OZ, Redeem True '''' ''ann''])"
    using demo_admissible by (simp add: admissible_run_append del: gold_step.simps)
  from tokens_are_backed [OF this]
  show "\<exists>ids. getLocations (gb_store (foldl (gold_step C no_hash) new_gold_bridge
     (demo_gold @ [Execute None demo_quotes True 7 8 9 '''' TEN_OZ, Redeem True '''' ''ann'']))) = Inr ids"
    by blast
qed

end
