(* ===== verification/Isla_Tuning.thy ===== *)
theory Isla_Tuning
  imports Double_Arith
begin

text \<open>
  The tuning engine of the Isla runtime: \<open>include/l6/isla/*.hpp\<close> and
  \<open>src/l6/isla/IslaModeEngine.cpp\<close>. Three windows of metrics give three scores, and the scores
  and averages move the batch size, the proof interval, the number of workers and the cadence of
  anchors. Sums run in the order of the window, on \<open>double\<close> with its special values; the four
  parameters are 32-bit and wrap before they are clamped.
\<close>

record coherence_metrics =
  em_dispute_rate :: double
  em_reorg_alerts :: u32
  em_finalization_latency :: double
  em_anchor_confirmation_time :: double

record performance_metrics =
  pm_proof_generation_time :: double
  pm_prover_utilization :: double
  pm_backlog_clearance_rate :: double

record fee_metrics =
  fm_sat_per_vbyte_fee_band :: double
  fm_anchor_cost_ratio :: double
  fm_l2_backlog_pressure :: double

datatype anchor_cadence = NORMAL | TIGHT | RELAXED

record tuning_decision =
  td_batch_size :: u32
  td_proof_interval_ms :: u32
  td_worker_allocation :: u32
  td_anchor_cadence :: anchor_cadence

section \<open>Scores\<close>

abbreviation lit :: "rat \<Rightarrow> double" where
  "lit \<equiv> round_double"

definition d_clamp :: "double \<Rightarrow> double \<Rightarrow> double \<Rightarrow> double" where
  "d_clamp x lo hi = (if d_less x lo then lo else if d_less hi x then hi else x)"

definition d_floor0 :: "double \<Rightarrow> double" where
  "d_floor0 x = (if d_less x (Fin 0) then Fin 0 else x)"

definition d_sum :: "double list \<Rightarrow> double" where
  "d_sum xs = foldl d_add (Fin 0) xs"

definition d_average :: "double list \<Rightarrow> double" where
  "d_average xs = (if xs = [] then Fin 0 else d_div (d_sum xs) (double_of_int (int (length xs))))"

definition coherence_of :: "coherence_metrics \<Rightarrow> double" where
  "coherence_of e =
     (let s = d_sub (Fin 1) (d_mul (em_dispute_rate e) (lit (1/2)));
          s = (if em_reorg_alerts e > 0
               then d_sub s (d_mul (double_of_int (int (unat (em_reorg_alerts e)))) (lit (1/5))) else s);
          s = (if d_less (Fin 1000) (em_finalization_latency e) then d_sub s (lit (1/10)) else s)
      in d_floor0 s)"

definition performance_of :: "performance_metrics \<Rightarrow> double" where
  "performance_of e =
     (let t = pm_proof_generation_time e; u = pm_prover_utilization e;
          b = pm_backlog_clearance_rate e;
          s = Fin 1;
          s = (if d_less (Fin 5000) t then d_sub s (lit (1/5))
               else if d_less (Fin 2000) t then d_sub s (lit (1/10)) else s);
          s = (if d_less u (lit (3/10)) then d_sub s (lit (1/10))
               else if d_less (lit (9/10)) u then d_sub s (lit (1/5)) else s);
          s = (if d_less b (Fin 1) then d_sub s (d_mul (d_sub (Fin 1) b) (lit (1/2))) else s)
      in d_floor0 s)"

definition economy_of :: "fee_metrics \<Rightarrow> double" where
  "economy_of e =
     (let s = Fin 1;
          s = (if d_less (Fin 50) (fm_sat_per_vbyte_fee_band e) then d_sub s (lit (3/10))
               else if d_less (Fin 20) (fm_sat_per_vbyte_fee_band e) then d_sub s (lit (1/10)) else s);
          s = (if d_less (lit (1/2)) (fm_anchor_cost_ratio e) then d_sub s (lit (1/5)) else s);
          s = (if d_less (lit (4/5)) (fm_l2_backlog_pressure e) then d_sub s (lit (1/5)) else s)
      in d_floor0 s)"

definition window_score :: "('a \<Rightarrow> double) \<Rightarrow> 'a list \<Rightarrow> double" where
  "window_score f w =
     (if w = [] then Fin 1
      else d_clamp (d_div (d_sum (map f w)) (double_of_int (int (length w)))) (Fin 0) (Fin 1))"

definition computeCoherenceScore :: "coherence_metrics list \<Rightarrow> double" where
  "computeCoherenceScore = window_score coherence_of"

definition computePerformanceScore :: "performance_metrics list \<Rightarrow> double" where
  "computePerformanceScore = window_score performance_of"

definition computeEconomicScore :: "fee_metrics list \<Rightarrow> double" where
  "computeEconomicScore = window_score economy_of"

section \<open>Rules\<close>

definition clamp_u32 :: "u32 \<Rightarrow> u32 \<Rightarrow> u32 \<Rightarrow> u32" where
  "clamp_u32 x lo hi = (if x < lo then lo else if hi < x then hi else x)"

definition batch_size_rule :: "bool \<Rightarrow> bool \<Rightarrow> double \<Rightarrow> double \<Rightarrow> double \<Rightarrow> u32 \<Rightarrow> u32" where
  "batch_size_rule has_epoch has_perf avg_dispute coherence performance b =
     clamp_u32
       (if has_epoch \<and> d_less (lit (1/10)) avg_dispute then 1
        else if has_epoch \<and> d_less coherence (lit (1/2)) then
          (let decrease = (b * 20) div 100; decrease = (if decrease = 0 then 1 else decrease)
           in if b > decrease then b - decrease else 1)
        else if has_epoch \<and> has_perf \<and> d_less (lit (4/5)) coherence \<and> d_less (lit (7/10)) performance then
          (let increase = (b * 10 + 99) div 100; increase = (if increase = 0 then 1 else increase)
           in b + increase)
        else b) 1 1024"

definition proof_interval_rule :: "bool \<Rightarrow> bool \<Rightarrow> double \<Rightarrow> double \<Rightarrow> u32 \<Rightarrow> u32" where
  "proof_interval_rule has_epoch has_econ avg_fees avg_anchor i =
     clamp_u32
       (if has_econ \<and> has_epoch \<and> d_less avg_fees (Fin 10) \<and> d_less avg_anchor (Fin 500) then
          (let decrease = (i * 10) div 100; decrease = (if decrease = 0 then 1 else decrease)
           in if i > decrease then i - decrease else 250)
        else if (has_econ \<and> d_less (Fin 30) avg_fees) \<or> (has_epoch \<and> d_less (Fin 2000) avg_anchor) then
          (let increase = (i * 15) div 100; increase = (if increase = 0 then 1 else increase)
           in i + increase)
        else i) 250 5000"

definition worker_rule :: "bool \<Rightarrow> double \<Rightarrow> double \<Rightarrow> double \<Rightarrow> u32 \<Rightarrow> u32" where
  "worker_rule has_perf avg_proof avg_util coherence n =
     clamp_u32
       (if has_perf \<and> d_less (Fin 2000) avg_proof \<and> d_less avg_util (lit (1/2)) then n + 1
        else if has_perf \<and> d_less (lit (9/10)) avg_util \<and> d_less (lit (4/5)) coherence then n
        else if has_perf \<and> d_less avg_util (lit (1/5)) then (if n > 1 then n - 1 else n)
        else n) 1 64"

definition cadence_rule :: "double \<Rightarrow> double \<Rightarrow> double \<Rightarrow> anchor_cadence \<Rightarrow> anchor_cadence" where
  "cadence_rule avg_dispute coherence economic c =
     (if d_less (lit (1/10)) avg_dispute \<or> d_less coherence (lit (1/2)) then TIGHT
      else if d_less economic (lit (1/2)) then RELAXED
      else if d_less (lit (4/5)) coherence then NORMAL else c)"

definition computeDecision ::
    "coherence_metrics list \<Rightarrow> performance_metrics list \<Rightarrow> fee_metrics list \<Rightarrow> tuning_decision \<Rightarrow>
     tuning_decision" where
  "computeDecision ems pms fms d =
     (let coherence = computeCoherenceScore ems;
          performance = computePerformanceScore pms;
          economic = computeEconomicScore fms;
          avg_dispute = d_average (map em_dispute_rate ems);
          avg_proof = d_average (map pm_proof_generation_time pms);
          avg_util = d_average (map pm_prover_utilization pms);
          avg_fees = d_average (map fm_sat_per_vbyte_fee_band fms);
          avg_anchor = d_average (map em_anchor_confirmation_time ems);
          has_epoch = (ems \<noteq> []); has_perf = (pms \<noteq> []); has_econ = (fms \<noteq> [])
      in \<lparr>td_batch_size =
            batch_size_rule has_epoch has_perf avg_dispute coherence performance (td_batch_size d),
          td_proof_interval_ms =
            proof_interval_rule has_epoch has_econ avg_fees avg_anchor (td_proof_interval_ms d),
          td_worker_allocation =
            worker_rule has_perf avg_proof avg_util coherence (td_worker_allocation d),
          td_anchor_cadence =
            cadence_rule avg_dispute coherence economic (td_anchor_cadence d)\<rparr>)"

end
