(* ===== verification/Temporal.thy ===== *)
theory Temporal
  imports Isla_Tuning Prelude
begin

text \<open>
  The temporal surfaces of the Isla runtime: the HICE contracts
  (\<open>src/simulation/validation/hice_contracts.cpp\<close>), the temporal auditor with its rolling window
  (\<open>src/l6/auditor/TemporalAuditor.cpp\<close>), the energy coordinator
  (\<open>src/l6/erl/TemporalEnergyCoordinator.cpp\<close>) and the guidance report
  (\<open>src/l6/iao/IntelligenceAssistedOrchestrator.cpp\<close>). All scores are \<open>double\<close> computations in
  the order of the code; \<open>std::sqrt\<close> is the correctly rounded root IEEE 754 asks for.
\<close>

section \<open>Square root\<close>

fun floor_root :: "nat \<Rightarrow> nat" where
  "floor_root n =
     (if n = 0 then 0
      else let r = 2 * floor_root (n div 4) in if (r + 1) * (r + 1) \<le> n then r + 1 else r)"

declare floor_root.simps [simp del]

lemma floor_root_bounds: "floor_root n * floor_root n \<le> n \<and> n < (floor_root n + 1) * (floor_root n + 1)"
proof (induction n rule: floor_root.induct)
  case (1 n)
  show ?case
  proof (cases "n = 0")
    case False
    define q where "q = floor_root (n div 4)"
    from 1 [OF False] have q: "q * q \<le> n div 4" "n div 4 < (q + 1) * (q + 1)" by (simp_all add: q_def)
    from q(1) have lo: "2 * q * (2 * q) \<le> n" by simp
    from q(2) have "n div 4 + 1 \<le> (q + 1) * (q + 1)" by simp
    then have "4 * (n div 4) + 4 \<le> 4 * ((q + 1) * (q + 1))" by linarith
    then have hi: "n < (2 * q + 2) * (2 * q + 2)" by (simp add: algebra_simps)
    show ?thesis
      using False lo hi by (subst (1 2 3 4) floor_root.simps) (simp add: q_def [symmetric] Let_def)
  qed (simp add: floor_root.simps)
qed

text \<open>
  The root of a positive rational, to the nearest multiple of its last place, ties to even. The
  binary exponent of the root is half that of the argument.
\<close>

definition exponent :: "rat \<Rightarrow> int" where
  "exponent x =
     (let (a, b) = quotient_of x; k = int (bit_count (nat a)) - int (bit_count (nat b))
      in if x < pow2 k then k - 1 else k)"

definition round_root :: "rat \<Rightarrow> rat" where
  "round_root x =
     (let e = exponent x div 2 - 52;
          s = x / (pow2 e * pow2 e);
          f = floor_root (nat \<lfloor>s\<rfloor>);
          h = of_nat f + 1 / 2;
          n = (if s < h * h then f else if h * h < s then f + 1 else if even f then f else f + 1)
      in of_nat n * pow2 e)"

definition d_sqrt :: "double \<Rightarrow> double" where
  "d_sqrt x =
     (if x = NaN \<or> x = NInf \<or> (d_finite x \<and> d_rat x < 0) then NaN
      else if x = PInf then PInf
      else if d_rat x = 0 then x
      else Fin (round_root (d_rat x)))"

section \<open>HICE contracts\<close>

record hice_metrics =
  hm_covariance_error :: double
  hm_spectral_drift :: double
  hm_delta_memory :: double
  hm_context_leakage :: double
  hm_null_matching_rate :: double
  hm_delta_auc :: double
  hm_ci_lower_bound :: double
  hm_ci_point_estimate :: double

record hice_thresholds =
  ht_max_covariance_error :: double
  ht_max_spectral_drift :: double
  ht_min_delta_memory :: double
  ht_max_context_leakage :: double
  ht_min_null_matching_rate :: double
  ht_min_delta_auc :: double

definition v27_defaults :: hice_thresholds where
  "v27_defaults =
     \<lparr>ht_max_covariance_error = lit (1/1000000), ht_max_spectral_drift = lit (1/1000),
      ht_min_delta_memory = lit (- (1/20)), ht_max_context_leakage = lit (1/100),
      ht_min_null_matching_rate = lit (19/20), ht_min_delta_auc = lit (3/100)\<rparr>"

record hice_result =
  hice2_ok :: bool
  hice3_ok :: bool
  hice4_ok :: bool
  hice5_ok :: bool
  hice6_ok :: bool
  hice7_ok :: bool
  practical_margin_ok :: bool

definition hice_all_ok :: "hice_result \<Rightarrow> bool" where
  "hice_all_ok r \<longleftrightarrow> hice2_ok r \<and> hice3_ok r \<and> hice4_ok r \<and> hice5_ok r \<and> hice6_ok r \<and>
     hice7_ok r \<and> practical_margin_ok r"

definition evaluate_hice_contracts :: "hice_metrics \<Rightarrow> hice_thresholds \<Rightarrow> double \<Rightarrow> hice_result" where
  "evaluate_hice_contracts m t margin =
     (let ci = d_less margin (hm_ci_lower_bound m) in
      \<lparr>hice2_ok = d_less (d_abs (hm_covariance_error m)) (ht_max_covariance_error t),
       hice3_ok = d_less (d_abs (hm_spectral_drift m)) (ht_max_spectral_drift t),
       hice4_ok = d_le (ht_min_delta_memory t) (hm_delta_memory m),
       hice5_ok = d_less (hm_context_leakage m) (ht_max_context_leakage t),
       hice6_ok = d_le (ht_min_null_matching_rate t) (hm_null_matching_rate m),
       hice7_ok = (d_le (ht_min_delta_auc t) (hm_delta_auc m) \<and> ci),
       practical_margin_ok = ci\<rparr>)"

section \<open>Temporal auditor\<close>

record epoch_metrics_state =
  te_epoch_id :: u64
  te_metrics :: hice_metrics
  te_anchor_element :: bytes
  te_replay_element :: bytes

record metrics_buffer =
  mb_window_size :: nat
  mb_buffer :: "epoch_metrics_state list"

text \<open>The window size of the runtime is 10; erasing from an empty buffer does not arise.\<close>

definition push_state :: "epoch_metrics_state \<Rightarrow> metrics_buffer \<Rightarrow> metrics_buffer" where
  "push_state s b =
     b\<lparr>mb_buffer := (if mb_window_size b \<le> length (mb_buffer b) then tl (mb_buffer b)
                     else mb_buffer b) @ [s]\<rparr>"

definition is_full :: "metrics_buffer \<Rightarrow> bool" where
  "is_full b \<longleftrightarrow> length (mb_buffer b) = mb_window_size b"

record coherence_scores =
  sc_average_covariance_error :: double
  sc_average_spectral_drift :: double
  sc_average_delta_memory :: double
  sc_average_context_leakage :: double
  sc_average_null_matching_rate :: double
  sc_average_delta_auc :: double
  sc_drift :: double
  sc_stability :: double
  sc_leakage :: double
  sc_covariance_evolution :: double
  sc_spectral_alignment :: double

record anchor_scores =
  sa_anchor_drift :: double
  sa_replay_stability :: double
  sa_anchor_coherence :: double

record validity_surface =
  vs_metrics :: hice_metrics
  vs_coherence :: coherence_scores
  vs_anchor :: anchor_scores

record temporal_auditor =
  ta_max_drift :: double
  ta_max_anchor_drift :: double

definition compute_element_distance :: "bytes \<Rightarrow> bytes \<Rightarrow> double" where
  "compute_element_distance a b =
     d_sqrt (foldl (\<lambda>acc (x, y).
         let diff = d_sub (double_of_int (int (unat x))) (double_of_int (int (unat y)))
         in d_add acc (d_mul diff diff))
       (Fin 0) (zip (take 32 a) (take 32 b)))"

text \<open>A state beside its predecessor, in the order of the window.\<close>

definition neighbours :: "'a list \<Rightarrow> ('a \<times> 'a) list" where
  "neighbours xs = zip (tl xs) xs"

definition metric_drifts :: "epoch_metrics_state \<times> epoch_metrics_state \<Rightarrow> double \<times> double" where
  "metric_drifts = (\<lambda>(s, p).
     (d_abs (d_sub (hm_covariance_error (te_metrics s)) (hm_covariance_error (te_metrics p))),
      d_abs (d_sub (hm_spectral_drift (te_metrics s)) (hm_spectral_drift (te_metrics p)))))"

definition total_drift :: "epoch_metrics_state list \<Rightarrow> double" where
  "total_drift w =
     foldl (\<lambda>acc p. let (c, s) = metric_drifts p in d_add (d_add acc c) s) (Fin 0) (neighbours w)"

definition stability_score :: "double \<Rightarrow> double \<Rightarrow> double" where
  "stability_score drift limit =
     d_max (Fin 0) (d_sub (Fin 1) (d_div drift (if d_less (Fin 0) limit then limit else Fin 1)))"

definition evaluate_coherence :: "double \<Rightarrow> epoch_metrics_state list \<Rightarrow> coherence_scores" where
  "evaluate_coherence max_drift w =
     (let nd = double_of_int (int (length w));
          mean = (\<lambda>f. d_div (d_sum (map (f \<circ> te_metrics) w)) nd);
          first = te_metrics (hd w); final = te_metrics (last w);
          drift = total_drift w
      in \<lparr>sc_average_covariance_error = mean hm_covariance_error,
          sc_average_spectral_drift = mean hm_spectral_drift,
          sc_average_delta_memory = mean hm_delta_memory,
          sc_average_context_leakage = mean hm_context_leakage,
          sc_average_null_matching_rate = mean hm_null_matching_rate,
          sc_average_delta_auc = mean hm_delta_auc,
          sc_drift = drift,
          sc_stability = stability_score drift max_drift,
          sc_leakage = foldl (\<lambda>m s. let l = hm_context_leakage (te_metrics s) in
            if d_less m l then l else m) (Fin 0) w,
          sc_covariance_evolution = d_sub (hm_covariance_error final) (hm_covariance_error first),
          sc_spectral_alignment = d_abs (d_sub (hm_spectral_drift final) (hm_spectral_drift first))\<rparr>)"

definition evaluate_anchor :: "double \<Rightarrow> epoch_metrics_state list \<Rightarrow> epoch_metrics_state \<Rightarrow> anchor_scores" where
  "evaluate_anchor max_anchor_drift window s =
     (let prev = last window;
          drift = compute_element_distance (te_anchor_element s) (te_anchor_element prev);
          replay0 = compute_element_distance (te_replay_element s) (te_replay_element prev);
          replay = foldl (\<lambda>m (x, p).
              let dist = compute_element_distance (te_replay_element x) (te_replay_element p)
              in if d_less m dist then dist else m) replay0 (neighbours window);
          total = foldl (\<lambda>acc (x, p).
              d_add acc (compute_element_distance (te_anchor_element x) (te_anchor_element p)))
            drift (neighbours window)
      in \<lparr>sa_anchor_drift = drift, sa_replay_stability = replay,
          sa_anchor_coherence = stability_score total max_anchor_drift\<rparr>)"

definition evaluate_temporal ::
    "temporal_auditor \<Rightarrow> metrics_buffer \<Rightarrow> epoch_metrics_state \<Rightarrow> validity_surface" where
  "evaluate_temporal a b s =
     (let window = mb_buffer b in
      if window = [] then
        \<lparr>vs_metrics = te_metrics s,
         vs_coherence =
           \<lparr>sc_average_covariance_error = Fin 0, sc_average_spectral_drift = Fin 0,
            sc_average_delta_memory = Fin 0, sc_average_context_leakage = Fin 0,
            sc_average_null_matching_rate = Fin 0, sc_average_delta_auc = Fin 0,
            sc_drift = Fin 0, sc_stability = Fin 1, sc_leakage = Fin 0,
            sc_covariance_evolution = Fin 0, sc_spectral_alignment = Fin 0\<rparr>,
         vs_anchor = \<lparr>sa_anchor_drift = Fin 0, sa_replay_stability = Fin 0,
                      sa_anchor_coherence = Fin 1\<rparr>\<rparr>
      else
        \<lparr>vs_metrics = te_metrics s,
         vs_coherence = evaluate_coherence (ta_max_drift a) (window @ [s]),
         vs_anchor = evaluate_anchor (ta_max_anchor_drift a) window s\<rparr>)"

section \<open>Energy coordinator\<close>

record energy_config =
  en_alpha_drift :: double
  en_alpha_spectral :: double
  en_alpha_memory :: double
  en_max_energy_drift :: double
  en_base_cost_factor :: double
  en_max_energy_anchor_drift :: double
  en_predictive_threshold :: double
  en_stability_margin :: double

text \<open>\<open>last_energy_\<close> counts only once \<open>has_last_energy_\<close> is set: an option.\<close>

record energy_coordinator =
  ec_config :: energy_config
  ec_last_energy :: "double option"

record energy_decision =
  ed_energy_drift :: double
  ed_energy_stability :: double
  ed_energy_cost_of_drift :: double
  ed_energy_anchor_coherence :: double
  ed_energy_predictive_score :: double
  ed_should_reduce_heavy_ops :: bool
  ed_should_delay_replication :: bool
  ed_should_increase_backoff :: bool

definition positive_or_one :: "double \<Rightarrow> double" where
  "positive_or_one x = (if d_less (Fin 0) x then x else Fin 1)"

definition evaluate_energy ::
    "hice_metrics \<Rightarrow> validity_surface \<Rightarrow> energy_coordinator \<Rightarrow> energy_decision \<times> energy_coordinator" where
  "evaluate_energy m vs c =
     (let cfg = ec_config c;
          energy = d_add (d_add (d_mul (en_alpha_drift cfg) (sc_drift (vs_coherence vs)))
                     (d_mul (en_alpha_spectral cfg) (hm_spectral_drift m)))
                     (d_mul (en_alpha_memory cfg) (hm_delta_memory m));
          drift = (case ec_last_energy c of None \<Rightarrow> Fin 0 | Some e \<Rightarrow> d_sub energy e);
          stability = d_clamp (d_sub (Fin 1)
            (d_div (d_abs drift) (positive_or_one (en_max_energy_drift cfg)))) (Fin 0) (Fin 1);
          magnitude = d_add (d_abs drift) (d_abs (sa_anchor_drift (vs_anchor vs)));
          anchor = d_clamp (d_sub (Fin 1)
            (d_div magnitude (positive_or_one (en_max_energy_anchor_drift cfg)))) (Fin 0) (Fin 1);
          predictive = d_mul (d_abs drift) (sc_leakage (vs_coherence vs))
      in (\<lparr>ed_energy_drift = drift, ed_energy_stability = stability,
           ed_energy_cost_of_drift = d_mul (en_base_cost_factor cfg) (d_abs drift),
           ed_energy_anchor_coherence = anchor, ed_energy_predictive_score = predictive,
           ed_should_reduce_heavy_ops = d_less (en_predictive_threshold cfg) predictive,
           ed_should_delay_replication = d_less stability (en_stability_margin cfg),
           ed_should_increase_backoff = d_less (en_max_energy_drift cfg) (d_abs drift)\<rparr>,
          c\<lparr>ec_last_energy := Some energy\<rparr>))"

section \<open>Guidance report\<close>

record guidance_report =
  gr_long_term_stability_score :: double
  gr_drift_accumulation_forecast :: double
  gr_predicted_energy_trend :: double
  gr_anchor_chain_risk :: double
  gr_temporal_leakage_projection :: double
  gr_recommended_scheduling_mode :: string
  gr_recommended_replication_mode :: string
  gr_recommended_backoff_strategy :: string

definition evaluate_guidance ::
    "metrics_buffer \<Rightarrow> validity_surface \<Rightarrow> energy_decision \<Rightarrow> guidance_report" where
  "evaluate_guidance b vs ed =
     (let drifts = map (\<lambda>p. let (c, s) = metric_drifts p in d_add c s) (neighbours (mb_buffer b));
          long_term = d_sub (Fin 1) (d_div (d_sum drifts) (Fin 32));
          drift_t = (if 1 \<le> length drifts then last drifts else Fin 0);
          drift_t1 = (if 2 \<le> length drifts then drifts ! (length drifts - 2) else Fin 0);
          trend = d_mul (Fin 1) (ed_energy_predictive_score ed);
          risk = d_div (d_abs (sa_anchor_drift (vs_anchor vs))) (Fin 1000)
      in \<lparr>gr_long_term_stability_score = long_term,
          gr_drift_accumulation_forecast =
            d_add (d_mul (lit (13/20)) drift_t) (d_mul (lit (7/20)) drift_t1),
          gr_predicted_energy_trend = trend,
          gr_anchor_chain_risk = risk,
          gr_temporal_leakage_projection = d_mul (Fin 1) (hm_context_leakage (vs_metrics vs)),
          gr_recommended_scheduling_mode =
            (if d_less long_term (lit (1/2)) then ''CONSERVATIVE_SCHEDULING''
             else ''AGGRESSIVE_SCHEDULING''),
          gr_recommended_replication_mode =
            (if d_less (lit (7/10)) risk then ''HIGH_REPLICATION'' else ''STANDARD_REPLICATION''),
          gr_recommended_backoff_strategy =
            (if d_less trend (Fin 0) then ''INCREASE_BACKOFF'' else ''MAINTAIN_BACKOFF'')\<rparr>)"

end
