(* ===== verification/Isla.thy ===== *)
theory Isla
  imports Zk_Backend Temporal Anchor_Commit PeerSync
begin

text \<open>
  The Isla runtime: the semantics it checks its inputs against (\<open>src/semantics/*.cpp\<close>), the mesh
  engine (\<open>src/l6/MeshCoherenceEngine.cpp\<close>) and the orchestrator
  (\<open>src/l6/IslaRuntimeOrchestrator.cpp\<close>), whose \<open>run_epoch\<close> tunes, checks, proves, audits, anchors
  and records one epoch. Attached objects are options in its state; the replay buffer is an
  interface, a record of functions over a state of its own; the reading of an attached clock is an
  argument, left when it throws. \<open>L\<close> and \<open>sha\<close> are the Taproot library and SHA-256, \<open>oob\<close> a cast
  of a \<open>double\<close> out of range. An attached policy engine is never consulted and left out.
\<close>

section \<open>Policies\<close>

datatype environment_type = CI | DEV | PRODUCTION

record runtime_environment =
  is_ci :: bool
  is_dev :: bool
  is_staging :: bool
  is_mainnet_sim :: bool

definition get_environment_type :: "runtime_environment \<Rightarrow> environment_type" where
  "get_environment_type env = (if is_ci env then CI else DEV)"

definition select_backend_type :: "runtime_environment \<Rightarrow> zk_backend_config \<Rightarrow> zk_backend_type" where
  "select_backend_type env cfg = (if is_ci env then MOCK else bc_type cfg)"

record semantics_config =
  sg_anchor_frequency :: u32
  sg_proof_frequency :: u32
  sg_max_replay_epochs :: u32
  sg_min_coherence_score :: double
  sg_epoch_length :: u32
  sg_environment_type :: environment_type
  sg_metadata_version :: u32
  sg_energy :: energy_config

definition default_config :: "environment_type \<Rightarrow> semantics_config" where
  "default_config e =
     \<lparr>sg_anchor_frequency = 1, sg_proof_frequency = 1, sg_max_replay_epochs = 100,
      sg_min_coherence_score = Fin (1/2), sg_epoch_length = 1000, sg_environment_type = e,
      sg_metadata_version = 1,
      sg_energy = \<lparr>en_alpha_drift = Fin 1, en_alpha_spectral = Fin 1, en_alpha_memory = Fin 1,
        en_max_energy_drift = Fin 10, en_base_cost_factor = Fin 1, en_max_energy_anchor_drift = Fin 20,
        en_predictive_threshold = Fin 5, en_stability_margin = Fin (1/2)\<rparr>\<rparr>"

record policy_state =
  ps_anchor_frequency :: u32
  ps_proof_frequency :: u32
  ps_max_replay_epochs :: u32
  ps_min_coherence_score :: double
  ps_epoch_length :: u32
  ps_environment_type :: environment_type
  ps_metadata_version :: u32
  ps_energy :: energy_config

definition load_policy :: "semantics_config \<Rightarrow> policy_state" where
  "load_policy c =
     \<lparr>ps_anchor_frequency = sg_anchor_frequency c, ps_proof_frequency = sg_proof_frequency c,
      ps_max_replay_epochs = sg_max_replay_epochs c, ps_min_coherence_score = sg_min_coherence_score c,
      ps_epoch_length = sg_epoch_length c, ps_environment_type = sg_environment_type c,
      ps_metadata_version = sg_metadata_version c, ps_energy = sg_energy c\<rparr>"

definition is_backend_allowed :: "environment_type \<Rightarrow> zk_backend_type \<Rightarrow> bool" where
  "is_backend_allowed e t =
     (case e of CI \<Rightarrow> t = MOCK | DEV \<Rightarrow> (t = MOCK \<or> t = HALO2_NATIVE)
      | PRODUCTION \<Rightarrow> (t = HALO2_NATIVE \<or> t = PLONK_NATIVE))"

definition is_coherent_enough :: "double \<Rightarrow> policy_state \<Rightarrow> bool" where
  "is_coherent_enough score p \<longleftrightarrow> d_le (ps_min_coherence_score p) score"

record mesh_state =
  mx_node_count :: u32
  mx_active_links :: u32
  mx_latency_mean :: double
  mx_latency_variance :: double
  mx_partition_count :: u32
  mx_recent_failures :: u32

definition double_of_u32 :: "u32 \<Rightarrow> double" where
  "double_of_u32 w = double_of_int (int (unat w))"

definition compute_coherence_score :: "mesh_state \<Rightarrow> double" where
  "compute_coherence_score m =
     (if mx_node_count m = 0 then Fin 0
      else let n = double_of_u32 (mx_node_count m);
               link_density = d_div (double_of_u32 (mx_active_links m)) n;
               partition_ratio = d_div (double_of_u32 (mx_partition_count m)) n;
               score = d_add (d_add (d_mul (Fin (1/2)) link_density)
                   (d_mul (lit (3/10)) (d_sub (Fin 1) (mx_latency_variance m))))
                   (d_mul (lit (1/5)) (d_sub (Fin 1) partition_ratio));
               score = (if d_less score (Fin 0) then Fin 0 else score)
           in if d_less (Fin 1) score then Fin 1 else score)"

record scheduler_decision =
  sd_anchor_decision :: anchor_decision
  sd_proof_decision :: proof_decision

text \<open>\<open>epoch_id % frequency\<close> divides 64-bit values.\<close>

definition off_cadence :: "u32 \<Rightarrow> u64 \<Rightarrow> bool" where
  "off_cadence frequency epoch_id \<longleftrightarrow> frequency > 0 \<and> epoch_id mod ucast frequency \<noteq> 0"

definition should_anchor :: "scheduler_decision \<Rightarrow> policy_state \<Rightarrow> double \<Rightarrow> u64 \<Rightarrow> bool" where
  "should_anchor d p score epoch_id =
     (if sd_anchor_decision d = SKIP_ANCHOR then False
      else if ps_environment_type p \<noteq> CI \<and> \<not> is_coherent_enough score p then False
      else if ps_environment_type p \<noteq> CI \<and> off_cadence (ps_anchor_frequency p) epoch_id then False
      else True)"

definition should_attach_proof ::
    "scheduler_decision \<Rightarrow> policy_state \<Rightarrow> zk_backend_type \<Rightarrow> double \<Rightarrow> u64 \<Rightarrow> bool" where
  "should_attach_proof d p t score epoch_id =
     (if ps_environment_type p = CI \<and> t \<noteq> MOCK then False
      else if ps_environment_type p = PRODUCTION \<and> t = MOCK then False
      else if sd_proof_decision d = SKIP_PROOF then False
      else if ps_environment_type p \<noteq> CI \<and> \<not> is_coherent_enough score p then False
      else if ps_environment_type p \<noteq> CI \<and> off_cadence (ps_proof_frequency p) epoch_id then False
      else True)"

section \<open>Epochs and their history\<close>

record clock_snapshot =
  ck_height :: u64
  ck_timestamp :: u64
  ck_hash :: string
  ck_source :: string

record epoch_bundle =
  eb_sequence_id :: u64
  eb_epoch_id :: u64
  eb_state_root_hash :: string
  eb_anchor_plan :: anchor_plan
  eb_proof_plan :: proof_plan
  eb_clock_snapshot :: clock_snapshot
  eb_scheduler_decision :: scheduler_decision
  eb_anchor_input :: commit_input
  eb_fee_sats :: u64
  eb_constraints :: "zk_constraint_set option"
  eb_transcript :: "zk_transcript option"
  eb_hice_metrics :: hice_metrics

text \<open>What a replay buffer gives back of a bundle, as far as any caller reads it.\<close>

record stored_epoch =
  se_sequence_id :: u64
  se_epoch_id :: u64
  se_state_root_hash :: string
  se_clock_snapshot :: clock_snapshot

text \<open>\<open>validation = None\<close> stands for the undefined step of the validator.\<close>

record isla_epoch_result =
  ir_zk_result :: orchestration_result
  ir_anchor_tx :: bytes
  ir_validation :: "(bool \<times> string) option"
  ir_metadata_hash :: bytes
  ir_guidance_report :: guidance_report

record 'r replay_ops =
  rp_record_epoch :: "epoch_bundle \<Rightarrow> isla_epoch_result \<Rightarrow> 'r \<Rightarrow> string + 'r"
  rp_get_epoch_history :: "'r \<Rightarrow> string + stored_epoch list"
  rp_remove_oldest :: "'r \<Rightarrow> 'r"
  rp_size :: "'r \<Rightarrow> nat"

definition previous_height :: "stored_epoch list \<Rightarrow> u64" where
  "previous_height history = (if history = [] then 0 else ck_height (se_clock_snapshot (last history)))"

definition is_valid_snapshot :: "clock_snapshot \<Rightarrow> stored_epoch list \<Rightarrow> environment_type \<Rightarrow> bool" where
  "is_valid_snapshot s history env =
     (if ck_timestamp s = 0 then False
      else if ck_height s < previous_height history then False
      else if length (ck_hash s) \<noteq> 64 then False
      else if env = PRODUCTION \<and> ck_source s \<noteq> ''Bitcoin'' then False
      else True)"

definition is_epoch_boundary :: "clock_snapshot \<Rightarrow> u32 \<Rightarrow> bool" where
  "is_epoch_boundary s n \<longleftrightarrow> n \<noteq> 0 \<and> ck_height s mod ucast n = 0"

definition compute_epoch_id :: "clock_snapshot \<Rightarrow> u32 \<Rightarrow> u64" where
  "compute_epoch_id s n = (if n = 0 then 0 else ck_height s div ucast n)"

definition validate_epoch_bundle ::
    "(bytes \<Rightarrow> bytes) \<Rightarrow> epoch_bundle \<Rightarrow> stored_epoch list \<Rightarrow> u32 \<Rightarrow> bool" where
  "validate_epoch_bundle sha b history n =
     (case eb_constraints b of None \<Rightarrow> False
      | Some cs \<Rightarrow>
          if num_constraints cs = 0 then False
          else case eb_transcript b of None \<Rightarrow> False
          | Some tr \<Rightarrow>
              if num_rounds tr = 0 then False
              else if eb_state_root_hash b \<noteq> hex_of (sha (transcript_bytes tr)) then False
              else if ck_height (eb_clock_snapshot b) < previous_height history then False
              else if eb_epoch_id b \<noteq> compute_epoch_id (eb_clock_snapshot b) n then False
              else True)"

text \<open>The loop of \<open>validate_replay_chain\<close>, over an entry and its predecessor.\<close>

fun chain_ok :: "u32 \<Rightarrow> stored_epoch option \<Rightarrow> stored_epoch list \<Rightarrow> bool" where
  "chain_ok m prev [] = True"
| "chain_ok m prev (e # es) =
     (if (case prev of None \<Rightarrow> False
          | Some p \<Rightarrow> se_epoch_id e \<le> se_epoch_id p \<or> se_epoch_id e - se_epoch_id p > ucast m) then False
      else if length (se_state_root_hash e) \<noteq> 64 then False
      else if (case prev of None \<Rightarrow> False
               | Some p \<Rightarrow> ck_height (se_clock_snapshot e) < ck_height (se_clock_snapshot p)) then False
      else chain_ok m (Some e) es)"

definition validate_replay_chain :: "stored_epoch list \<Rightarrow> u32 \<Rightarrow> bool" where
  "validate_replay_chain history m = chain_ok m None history"

definition enforce_replay_retention :: "'r replay_ops \<Rightarrow> u32 \<Rightarrow> 'r \<Rightarrow> 'r" where
  "enforce_replay_retention R m r = (rp_remove_oldest R ^^ (rp_size R r - unat m)) r"

section \<open>Mesh coherence engine\<close>

definition register_peer_state :: "mesh_snapshot \<Rightarrow> mesh_snapshot list \<Rightarrow> mesh_snapshot list" where
  "register_peer_state p peers =
     (let (before, rest) = (takeWhile (\<lambda>q. ms_node_id q \<noteq> ms_node_id p) peers,
                            dropWhile (\<lambda>q. ms_node_id q \<noteq> ms_node_id p) peers)
      in if rest \<noteq> [] then before @ p # tl rest else peers @ [p])"

definition get_coherence_summary :: "mesh_snapshot list \<Rightarrow> mesh_snapshot \<Rightarrow> coherence_totals" where
  "get_coherence_summary peers local =
     (if peers = []
      then \<lparr>mt_self_id = ms_node_id local, mt_total_nodes = 0, mt_fully_coherent_nodes = 0,
            mt_partially_coherent_nodes = 0, mt_divergent_nodes = 0\<rparr>
      else summarize_mesh_coherence local peers)"

definition get_normalized_coherence_score :: "mesh_snapshot list \<Rightarrow> mesh_snapshot \<Rightarrow> double" where
  "get_normalized_coherence_score peers local =
     (let s = get_coherence_summary peers local in
      if mt_total_nodes s = 0 then Fin 1
      else d_div (d_add (d_add (d_mul (double_of_u32 (mt_fully_coherent_nodes s)) (Fin 1))
                   (d_mul (double_of_u32 (mt_partially_coherent_nodes s)) (Fin (1/2))))
                   (d_mul (double_of_u32 (mt_divergent_nodes s)) (Fin 0)))
             (double_of_u32 (mt_total_nodes s)))"

section \<open>Metadata\<close>

record energy_surface =
  es_energy_drift :: double
  es_energy_stability :: double
  es_energy_cost_of_drift :: double
  es_energy_anchor_coherence :: double
  es_energy_predictive_score :: double

record canonical_metadata =
  cm_protocol_version :: u32
  cm_epoch_id :: u64
  cm_state_root_hash :: string
  cm_backend_type :: zk_backend_type
  cm_proof_attached :: bool
  cm_coherence_score :: double
  cm_validity_surface :: "validity_surface option"
  cm_energy_surface :: "energy_surface option"

definition encode_metadata :: "epoch_bundle \<Rightarrow> orchestration_result \<Rightarrow> double \<Rightarrow> u32 \<Rightarrow> canonical_metadata" where
  "encode_metadata b zk score version =
     \<lparr>cm_protocol_version = version, cm_epoch_id = eb_epoch_id b,
      cm_state_root_hash = eb_state_root_hash b, cm_backend_type = MOCK,
      cm_proof_attached = (or_should_attach_proof zk \<and>
        zm_validation_status (ay_zk_metadata (or_anchor_payload zk)) = OK),
      cm_coherence_score = score, cm_validity_surface = None, cm_energy_surface = None\<rparr>"

definition encode_metadata_v29 ::
    "epoch_bundle \<Rightarrow> orchestration_result \<Rightarrow> double \<Rightarrow> u32 \<Rightarrow> validity_surface \<Rightarrow> canonical_metadata" where
  "encode_metadata_v29 b zk score version vs =
     (encode_metadata b zk score version)\<lparr>cm_validity_surface := Some vs\<rparr>"

definition encode_metadata_v30 ::
    "epoch_bundle \<Rightarrow> orchestration_result \<Rightarrow> double \<Rightarrow> u32 \<Rightarrow> validity_surface \<Rightarrow> energy_surface \<Rightarrow>
     canonical_metadata" where
  "encode_metadata_v30 b zk score version vs e =
     (encode_metadata_v29 b zk score version vs)\<lparr>cm_energy_surface := Some e\<rparr>"

definition backend_type_code :: "zk_backend_type \<Rightarrow> nat" where
  "backend_type_code t = (case t of MOCK \<Rightarrow> 0 | HALO2_NATIVE \<Rightarrow> 1 | PLONK_NATIVE \<Rightarrow> 2)"

definition micro :: "(double \<Rightarrow> u64) \<Rightarrow> double \<Rightarrow> string" where
  "micro oob x = to_dec (unat (cast_u64 oob (d_mul x (Fin 1000000))))"

text \<open>\<open>static_cast<int64_t>\<close>, printed with its sign.\<close>

definition micro_signed :: "(double \<Rightarrow> int) \<Rightarrow> double \<Rightarrow> string" where
  "micro_signed oobi x =
     (let i = cast_i64 oobi (d_mul x (Fin 1000000))
      in (if i < 0 then ''-'' else []) @ to_dec (nat \<bar>i\<bar>))"

definition metadata_text :: "(double \<Rightarrow> u64) \<Rightarrow> (double \<Rightarrow> int) \<Rightarrow> canonical_metadata \<Rightarrow> string" where
  "metadata_text oob oobi m =
     to_dec (unat (cm_protocol_version m)) @ ''|'' @ to_dec (unat (cm_epoch_id m)) @ ''|'' @
     cm_state_root_hash m @ ''|'' @ to_dec (backend_type_code (cm_backend_type m)) @ ''|'' @
     (if cm_proof_attached m then ''1'' else ''0'') @ ''|'' @ micro oob (cm_coherence_score m) @
     (case cm_validity_surface m of None \<Rightarrow> []
      | Some vs \<Rightarrow> ''|'' @ micro oob (sc_drift (vs_coherence vs)) @ ''|'' @
          micro oob (sc_stability (vs_coherence vs)) @ ''|'' @
          micro oob (sa_anchor_coherence (vs_anchor vs))) @
     (case cm_energy_surface m of None \<Rightarrow> []
      | Some e \<Rightarrow> ''|'' @ micro_signed oobi (es_energy_drift e) @ ''|'' @
          micro oob (es_energy_stability e) @ ''|'' @ micro oob (es_energy_cost_of_drift e) @ ''|'' @
          micro oob (es_energy_anchor_coherence e) @ ''|'' @ micro oob (es_energy_predictive_score e))"

definition hash_canonical_metadata ::
    "(bytes \<Rightarrow> bytes) \<Rightarrow> (double \<Rightarrow> u64) \<Rightarrow> (double \<Rightarrow> int) \<Rightarrow> canonical_metadata \<Rightarrow> bytes" where
  "hash_canonical_metadata sha oob oobi m = sha (str_bytes (metadata_text oob oobi m))"

end
