(* ===== verification/Isla_Runtime.thy ===== *)
theory Isla_Runtime
  imports Isla
begin

text \<open>
  The orchestrator of \<open>src/l6/IslaRuntimeOrchestrator.cpp\<close>: construction, attachments,
  \<open>run_epoch\<close> and \<open>check_heartbeat_drift\<close>. An operation that can throw returns its message beside
  the state the exception leaves behind.
\<close>

record 'r isla_state =
  io_env :: runtime_environment
  io_backend :: "zk_backend option"
  io_active_config :: zk_backend_config
  io_scheduler :: "(u64 \<Rightarrow> scheduler_decision) option"
  io_replay :: "'r option"
  io_mesh :: "mesh_snapshot list option"
  io_temporal_buffer :: metrics_buffer
  io_temporal_auditor :: temporal_auditor
  io_energy :: energy_coordinator
  io_heartbeat_intervals :: "u64 list"
  io_last_heartbeat :: u64
  io_epoch_window :: "coherence_metrics list"
  io_perf_window :: "performance_metrics list"
  io_econ_window :: "fee_metrics list"
  io_tuning :: tuning_decision

definition new_isla :: "runtime_environment \<Rightarrow> 'r isla_state" where
  "new_isla env =
     \<lparr>io_env = env, io_backend = None,
      io_active_config = \<lparr>bc_type = MOCK, bc_circuit_id = [], bc_circuit_path = [],
        bc_proving_key_path = [], bc_verification_key_path = []\<rparr>,
      io_scheduler = None, io_replay = None, io_mesh = None,
      io_temporal_buffer = \<lparr>mb_window_size = 10, mb_buffer = []\<rparr>,
      io_temporal_auditor = \<lparr>ta_max_drift = (if is_ci env then Fin 1 else Fin 5),
        ta_max_anchor_drift = (if is_ci env then Fin 1 else Fin 10)\<rparr>,
      io_energy = \<lparr>ec_config = sg_energy (default_config (get_environment_type env)),
        ec_last_energy = None\<rparr>,
      io_heartbeat_intervals = [], io_last_heartbeat = 0,
      io_epoch_window = [], io_perf_window = [], io_econ_window = [],
      io_tuning = \<lparr>td_batch_size = 1, td_proof_interval_ms = 1000, td_worker_allocation = 1,
        td_anchor_cadence = NORMAL\<rparr>\<rparr>"

section \<open>Attachments\<close>

definition attach_given_backend ::
    "zk_backend option \<Rightarrow> zk_backend_config \<Rightarrow> 'r isla_state \<Rightarrow> string option \<times> 'r isla_state" where
  "attach_given_backend B cfg s =
     (if \<not> is_backend_allowed (get_environment_type (io_env s)) (bc_type cfg)
      then (Some ''Backend type not allowed in current environment.'', s)
      else (None, s\<lparr>io_active_config := cfg, io_backend := B\<rparr>))"

definition attach_backend ::
    "(bytes \<Rightarrow> bytes) \<Rightarrow> zk_backend_config \<Rightarrow> 'r isla_state \<Rightarrow> string option \<times> 'r isla_state" where
  "attach_backend sha cfg s = attach_given_backend (Some (make_backend sha cfg)) cfg s"

definition attach_scheduler :: "(u64 \<Rightarrow> scheduler_decision) option \<Rightarrow> 'r isla_state \<Rightarrow> 'r isla_state" where
  "attach_scheduler f s = s\<lparr>io_scheduler := f\<rparr>"

definition attach_replay :: "'r option \<Rightarrow> 'r isla_state \<Rightarrow> 'r isla_state" where
  "attach_replay r s = s\<lparr>io_replay := r\<rparr>"

definition attach_mesh :: "mesh_snapshot list option \<Rightarrow> 'r isla_state \<Rightarrow> 'r isla_state" where
  "attach_mesh m s = s\<lparr>io_mesh := m\<rparr>"

section \<open>One epoch\<close>

definition applyTuning :: "tuning_decision \<Rightarrow> 'r isla_state \<Rightarrow> 'r isla_state" where
  "applyTuning d s = s\<lparr>io_tuning := d\<rparr>"

definition tune :: "'r isla_state \<Rightarrow> 'r isla_state" where
  "tune s = applyTuning
     (computeDecision (io_epoch_window s) (io_perf_window s) (io_econ_window s) (io_tuning s)) s"

text \<open>The clock is read unless the environment is CI; \<open>None\<close> means that no clock is attached.\<close>

definition clock_state ::
    "runtime_environment \<Rightarrow> (string + clock_snapshot) option \<Rightarrow> epoch_bundle \<Rightarrow> string + clock_snapshot" where
  "clock_state env reading b =
     (case reading of None \<Rightarrow> Inr (eb_clock_snapshot b)
      | Some r \<Rightarrow> if is_ci env then Inr (eb_clock_snapshot b) else r)"

definition check_against_replay ::
    "'r replay_ops \<Rightarrow> (bytes \<Rightarrow> bytes) \<Rightarrow> policy_state \<Rightarrow> 'r option \<Rightarrow> clock_snapshot \<Rightarrow> epoch_bundle \<Rightarrow>
     string option" where
  "check_against_replay R sha p replay clk b =
     (case replay of None \<Rightarrow> None
      | Some r \<Rightarrow>
          (case rp_get_epoch_history R r of Inl e \<Rightarrow> Some e
           | Inr history \<Rightarrow>
               if \<not> validate_replay_chain history (ps_max_replay_epochs p)
               then Some ''Invalid replay chain in V27 semantics''
               else if \<not> is_valid_snapshot clk history (ps_environment_type p)
               then Some ''Invalid clock snapshot in V27 semantics''
               else if ps_environment_type p \<noteq> CI \<and>
                       \<not> validate_epoch_bundle sha b history (ps_epoch_length p)
               then Some ''Invalid epoch bundle in V27 semantics''
               else None))"

definition epoch_coherence :: "mesh_snapshot list option \<Rightarrow> clock_snapshot \<Rightarrow> epoch_bundle \<Rightarrow> double" where
  "epoch_coherence mesh clk b =
     (case mesh of None \<Rightarrow> Fin 1
      | Some peers \<Rightarrow> get_normalized_coherence_score peers
          \<lparr>ms_node_id = replicate 32 0, ms_latest_l1_height = ck_height clk,
           ms_latest_anchor_hash = replicate 32 0, ms_latest_l2_epoch = eb_epoch_id b,
           ms_latest_state_root = replicate 32 0\<rparr>)"

text \<open>In CI the plans of the bundle or of a scheduler count, elsewhere the attachment rules.\<close>

definition epoch_context ::
    "'r isla_state \<Rightarrow> policy_state \<Rightarrow> scheduler_decision \<Rightarrow> double \<Rightarrow> epoch_bundle \<Rightarrow> orchestration_context" where
  "epoch_context s p d score b =
     (let (anchor, proof) =
        (if ps_environment_type p = CI then
           (if io_scheduler s \<noteq> None then (sd_anchor_decision d, sd_proof_decision d)
            else (apl_decision (eb_anchor_plan b), ppl_decision (eb_proof_plan b)))
         else (if should_anchor d p score (eb_epoch_id b) then ANCHOR else SKIP_ANCHOR,
               if should_attach_proof d p (bc_type (io_active_config s)) score (eb_epoch_id b)
               then ATTACH_PROOF else SKIP_PROOF))
      in \<lparr>oc_epoch_id = eb_epoch_id b, oc_anchor_plan = (eb_anchor_plan b)\<lparr>apl_decision := anchor\<rparr>,
          oc_proof_plan = (eb_proof_plan b)\<lparr>ppl_decision := proof\<rparr>\<rparr>)"

definition root_array :: "string \<Rightarrow> bytes" where
  "root_array s =
     (if length s = 64 then map (\<lambda>i. of_int (strtol16 (take 2 (drop (2 * i) s)))) [0..<32]
      else take 32 (str_bytes s) @ replicate (32 - length s) 0)"

text \<open>The temporal part: surface, energy and guidance, then the state joins the window.\<close>

definition audit_epoch ::
    "epoch_metrics_state \<Rightarrow> 'r isla_state \<Rightarrow> validity_surface \<times> guidance_report \<times> 'r isla_state" where
  "audit_epoch t s =
     (let vs = evaluate_temporal (io_temporal_auditor s) (io_temporal_buffer s) t;
          (ed, ec) = evaluate_energy (te_metrics t) vs (io_energy s);
          report = evaluate_guidance (io_temporal_buffer s) vs ed
      in (vs, report, s\<lparr>io_energy := ec, io_temporal_buffer := push_state t (io_temporal_buffer s)\<rparr>))"

definition anchor_epoch ::
    "('x, 'p, 'k) taproot_lib \<Rightarrow> (bytes \<Rightarrow> bytes) \<Rightarrow> (double \<Rightarrow> u64) \<Rightarrow> (double \<Rightarrow> int) \<Rightarrow>
     zk_backend_type \<Rightarrow> policy_state \<Rightarrow> double \<Rightarrow> validity_surface \<Rightarrow> guidance_report \<Rightarrow> epoch_bundle \<Rightarrow>
     orchestration_result \<Rightarrow> isla_epoch_result" where
  "anchor_epoch L sha oob oobi t p score vs report b zk =
     (if \<not> or_should_anchor zk then
        \<lparr>ir_zk_result = zk, ir_anchor_tx = [], ir_validation = Some (True, []),
         ir_metadata_hash = replicate 32 0, ir_guidance_report = report\<rparr>
      else
        let m = (encode_metadata_v29 b zk score (ps_metadata_version p) vs)\<lparr>cm_backend_type := t\<rparr>;
            h = hash_canonical_metadata sha oob oobi m;
            root = root_array (eb_state_root_hash b);
            tx = build_anchor_commit_tx L sha root h (eb_anchor_input b) (eb_fee_sats b)
        in \<lparr>ir_zk_result = zk, ir_anchor_tx = tx,
            ir_validation = validate_anchor_commit L sha tx root h
              (ci_internal_key (eb_anchor_input b)) (ci_value_sats (eb_anchor_input b)),
            ir_metadata_hash = h, ir_guidance_report = report\<rparr>)"

definition record_in_replay ::
    "'r replay_ops \<Rightarrow> policy_state \<Rightarrow> epoch_bundle \<Rightarrow> isla_epoch_result \<Rightarrow> 'r isla_state \<Rightarrow>
     string option \<times> 'r isla_state" where
  "record_in_replay R p b res s =
     (case io_replay s of None \<Rightarrow> (None, s)
      | Some r \<Rightarrow>
          (case rp_record_epoch R b res r of Inl e \<Rightarrow> (Some e, s)
           | Inr r1 \<Rightarrow>
               (None, s\<lparr>io_replay := Some (enforce_replay_retention R (ps_max_replay_epochs p) r1)\<rparr>)))"

text \<open>The synthetic metrics of the epoch, and windows of eight.\<close>

definition push_metrics :: "'r isla_state \<Rightarrow> 'r isla_state" where
  "push_metrics s =
     (let ew = io_epoch_window s @
            [\<lparr>em_dispute_rate = Fin 0, em_reorg_alerts = 0, em_finalization_latency = Fin 100,
              em_anchor_confirmation_time = Fin 200\<rparr>];
          pw = io_perf_window s @
            [\<lparr>pm_proof_generation_time = Fin 1000, pm_prover_utilization = lit (4/5),
              pm_backlog_clearance_rate = Fin 1\<rparr>];
          fw = io_econ_window s @
            [\<lparr>fm_sat_per_vbyte_fee_band = Fin 10, fm_anchor_cost_ratio = lit (1/10),
              fm_l2_backlog_pressure = lit (1/10)\<rparr>]
      in if 8 < length ew
         then s\<lparr>io_epoch_window := tl ew, io_perf_window := tl pw, io_econ_window := tl fw\<rparr>
         else s\<lparr>io_epoch_window := ew, io_perf_window := pw, io_econ_window := fw\<rparr>)"

text \<open>Everything after the checks, in the order of the code.\<close>

definition process_epoch ::
    "('x, 'p, 'k) taproot_lib \<Rightarrow> (bytes \<Rightarrow> bytes) \<Rightarrow> (double \<Rightarrow> u64) \<Rightarrow> (double \<Rightarrow> int) \<Rightarrow> 'r replay_ops \<Rightarrow>
     policy_state \<Rightarrow> clock_snapshot \<Rightarrow> epoch_bundle \<Rightarrow> 'r isla_state \<Rightarrow>
     (string + isla_epoch_result) \<times> 'r isla_state" where
  "process_epoch L sha oob oobi R p clk b s =
     (let d = (case io_scheduler s of None \<Rightarrow> eb_scheduler_decision b | Some f \<Rightarrow> f (eb_epoch_id b));
          score = epoch_coherence (io_mesh s) clk b
      in if \<not> hice_all_ok (evaluate_hice_contracts (eb_hice_metrics b) v27_defaults (lit (3/100)))
         then (Inl ''HICE contract validation failed - see result flags and metrics'', s)
         else
           let zk = orchestrate_epoch sha (epoch_context s p d score b) (io_backend s)
                 (io_active_config s) (eb_constraints b) (eb_transcript b) (eb_state_root_hash b);
               t = \<lparr>te_epoch_id = eb_epoch_id b, te_metrics = eb_hice_metrics b,
                    te_anchor_element = sha (payload_bytes (or_anchor_payload zk)),
                    te_replay_element = root_array (eb_state_root_hash b)\<rparr>;
               (vs, report, s1) = audit_epoch t s;
               res = anchor_epoch L sha oob oobi (bc_type (io_active_config s)) p score vs report b zk;
               b1 = b\<lparr>eb_clock_snapshot := clk,
                      eb_scheduler_decision := (if io_scheduler s = None then eb_scheduler_decision b else d)\<rparr>
           in case record_in_replay R p b1 res s1 of
                (Some e, s2) \<Rightarrow> (Inl e, s2)
              | (None, s2) \<Rightarrow> (Inr res, push_metrics s2))"

definition run_epoch ::
    "('x, 'p, 'k) taproot_lib \<Rightarrow> (bytes \<Rightarrow> bytes) \<Rightarrow> (double \<Rightarrow> u64) \<Rightarrow> (double \<Rightarrow> int) \<Rightarrow> 'r replay_ops \<Rightarrow>
     (string + clock_snapshot) option \<Rightarrow> epoch_bundle \<Rightarrow> 'r isla_state \<Rightarrow>
     (string + isla_epoch_result) \<times> 'r isla_state" where
  "run_epoch L sha oob oobi R reading b s =
     (let p = load_policy (default_config (get_environment_type (io_env s)));
          s1 = tune s
      in case clock_state (io_env s) reading b of
           Inl e \<Rightarrow> (Inl e, s1)
         | Inr clk \<Rightarrow>
             (case check_against_replay R sha p (io_replay s) clk b of
                Some e \<Rightarrow> (Inl e, s1)
              | None \<Rightarrow> process_epoch L sha oob oobi R p clk b s1))"

section \<open>Heartbeat\<close>

definition heartbeat_drift :: "u64 \<Rightarrow> u64 list \<Rightarrow> double" where
  "heartbeat_drift expected_tick ivals =
     (let expected = double_of_u64 expected_tick in
      d_div (d_sum (map (\<lambda>i. d_div (d_abs (d_sub (double_of_u64 i) expected)) expected) ivals)) (Fin 10))"

text \<open>An exception leaves the new interval in the window and the old time stamp.\<close>

definition check_heartbeat_drift ::
    "clock_snapshot \<Rightarrow> u64 \<Rightarrow> 'r isla_state \<Rightarrow> string option \<times> 'r isla_state" where
  "check_heartbeat_drift clk expected_tick s =
     (let now = ck_timestamp clk; prev = io_last_heartbeat s in
      if prev = 0 then (None, s\<lparr>io_last_heartbeat := now\<rparr>)
      else
        let interval = (if now > prev then now - prev else 0);
            ivals = io_heartbeat_intervals s @ [interval];
            ivals = (if 10 < length ivals then tl ivals else ivals);
            s1 = s\<lparr>io_heartbeat_intervals := ivals\<rparr>
        in if length ivals = 10 \<and> d_less (lit (1/200)) (heartbeat_drift expected_tick ivals)
           then (Some ''Heartbeat drift exceeded 0.5% tolerance threshold'', s1)
           else (None, s1\<lparr>io_last_heartbeat := now\<rparr>))"

end
