(* ===== verification/Isla_Props.thy ===== *)
theory Isla_Props
  imports Isla_Runtime Anchor_Props
begin

text \<open>
  Properties of the Isla runtime: what its tuning can depend on, which epochs it accepts, and
  what becomes of their anchors.
\<close>

section \<open>Rounded sums\<close>

lemma lit_near:
  assumes "1 / 1000 \<le> x" "x \<le> 1000"
  obtains v where "lit x = Fin v" "\<bar>v - x\<bar> \<le> x / 2 ^ 53" "0 < v"
proof (rule round_double_near)
  have "pow2 (- 1022) \<le> (1 / 2 ^ 10 :: rat)" by (simp add: pow2_eq power_int_def field_simps)
  also have "\<dots> \<le> 1 / 1000" by simp
  finally show "pow2 (- 1022) \<le> x" using assms(1) by simp
  have "(1000 :: rat) \<le> 2 ^ 10" by simp
  also have "\<dots> \<le> 2 ^ 1023" by (rule power_increasing) simp_all
  finally show "x \<le> 2 ^ 1023" using assms(2) by simp
qed

lemma lit_between:
  assumes "1 / 1000 \<le> x" "x \<le> 1000" "a * (1 + 1 / 2 ^ 50) \<le> x" "x * (1 + 1 / 2 ^ 50) \<le> b"
  shows "\<exists>v. lit x = Fin v \<and> a \<le> v \<and> v \<le> b"
proof -
  from lit_near [OF assms(1,2)] obtain v where v: "lit x = Fin v" "\<bar>v - x\<bar> \<le> x / 2 ^ 53" .
  then have up: "v \<le> x + x / 2 ^ 53" and down: "x - x / 2 ^ 53 \<le> v" by linarith+
  have e: "x / 2 ^ 53 \<le> x / 2 ^ 50" using assms(1) by (intro divide_left_mono) simp_all
  have "v \<le> b" using up e assms(4) by (simp add: algebra_simps)
  moreover have "a \<le> v"
  proof (cases "a \<le> 0")
    case True
    moreover have "x / 2 ^ 53 \<le> x" using assms(1) by simp
    ultimately show ?thesis using down by linarith
  next
    case False
    have "a \<le> x / (1 + 1 / 2 ^ 50)" using assms(3) by (simp add: field_simps)
    also have "\<dots> \<le> x * (1 - 1 / 2 ^ 53)" using assms(1) by (simp add: field_simps)
    finally show ?thesis using down by (simp add: algebra_simps)
  qed
  ultimately show ?thesis using v(1) by blast
qed

lemma d_sum_snoc: "d_sum (xs @ [x]) = d_add (d_sum xs) x"
  by (simp add: d_sum_def)

lemma replicate_snoc: "replicate (Suc n) x = replicate n x @ [x]"
  by (simp add: replicate_append_same)

lemma d_sum_nat:
  assumes "n * c < 2 ^ 53"
  shows "d_sum (replicate n (Fin (of_nat c))) = Fin (of_nat (n * c))"
  using assms
proof (induction n)
  case (Suc n)
  then show ?case using d_add_nat [of "n * c" c]
    by (simp only: replicate_snoc d_sum_snoc) (simp add: algebra_simps)
qed (simp add: d_sum_def)

lemma double_of_length: "n < 2 ^ 53 \<Longrightarrow> double_of_int (int n) = Fin (of_nat n)"
  using round_double_nat [of n] by (simp add: double_of_int_def)

lemma d_average_nat:
  assumes "0 < n" "n * c < 2 ^ 53" "n < 2 ^ 53" "c < 2 ^ 53"
  shows "d_average (replicate n (Fin (of_nat c))) = Fin (of_nat c)"
proof -
  have "d_div (Fin (of_nat (n * c))) (Fin (of_nat n)) = Fin (of_nat c)"
    using assms(1) round_double_nat [OF assms(4)] by (auto simp: d_div_def)
  then show ?thesis
    using assms by (simp add: d_average_def d_sum_nat double_of_length)
qed

lemma average_util:
  assumes "0 < n" "n \<le> 8"
  shows "\<exists>v. d_average (replicate n (lit (4/5))) = Fin v \<and> 7 / 10 < v \<and> v < 17 / 20"
proof -
  obtain u where u: "lit (4/5) = Fin u" "799 / 1000 \<le> u" "u \<le> 801 / 1000"
    using lit_between [of "4/5" "799/1000" "801/1000"] by auto
  have s: "\<exists>s. d_sum (replicate k (Fin u)) = Fin s \<and> of_nat k * 3 / 4 \<le> s \<and> s \<le> of_nat k * 21 / 25" if k: "k \<le> 8" for k
    using k
  proof (induction k)
    case (Suc k)
    then obtain s where s: "d_sum (replicate k (Fin u)) = Fin s" "of_nat k * 3 / 4 \<le> s" "s \<le> of_nat k * 21 / 25" by auto
    have k8: "(of_nat k :: rat) \<le> 7" using Suc.prems by simp
    have lo: "1 / 1000 \<le> s + u" and hi: "s + u \<le> 1000" using s u k8 by linarith+
    obtain v where v: "lit (s + u) = Fin v" "(of_nat k + 1) * 3 / 4 \<le> v" "v \<le> (of_nat k + 1) * 21 / 25"
      using lit_between [OF lo hi, of "(of_nat k + 1) * 3 / 4" "(of_nat k + 1) * 21 / 25"] s u k8 by fastforce
    have "d_add (Fin s) (Fin u) = lit (s + u)" using lo by (simp add: d_add_def)
    with v show ?case by (simp only: replicate_snoc d_sum_snoc s) (simp add: algebra_simps)
  qed (simp add: d_sum_def)
  obtain s where s: "d_sum (replicate n (Fin u)) = Fin s" "of_nat n * 3 / 4 \<le> s" "s \<le> of_nat n * 21 / 25"
    using s [OF assms(2)] by blast
  have n: "(0 :: rat) < of_nat n" using assms(1) by simp
  have q: "3 / 4 \<le> s / of_nat n" "s / of_nat n \<le> 21 / 25" using s(2,3) n by (simp_all add: field_simps)
  then have "s \<noteq> 0" by auto
  define y where "y = s / of_nat n"
  have y: "3 / 4 \<le> y" "y \<le> 21 / 25" using q by (simp_all add: y_def)
  have "d_div (Fin s) (Fin (of_nat n)) = lit y" using n \<open>s \<noteq> 0\<close> by (simp add: d_div_def y_def)
  moreover obtain v where "lit y = Fin v" "71 / 100 \<le> v" "v \<le> 211 / 250"
    using lit_between [of y "71 / 100" "211 / 250"] y by auto
  ultimately show ?thesis
    using assms by (auto simp: d_average_def u(1) s(1) double_of_length)
qed

section \<open>The tuning of the runtime\<close>

definition synthetic_coherence :: coherence_metrics where
  "synthetic_coherence = \<lparr>em_dispute_rate = Fin 0, em_reorg_alerts = 0,
     em_finalization_latency = Fin 100, em_anchor_confirmation_time = Fin 200\<rparr>"

definition synthetic_performance :: performance_metrics where
  "synthetic_performance = \<lparr>pm_proof_generation_time = Fin 1000, pm_prover_utilization = lit (4/5),
     pm_backlog_clearance_rate = Fin 1\<rparr>"

definition synthetic_fees :: fee_metrics where
  "synthetic_fees = \<lparr>fm_sat_per_vbyte_fee_band = Fin 10, fm_anchor_cost_ratio = lit (1/10),
     fm_l2_backlog_pressure = lit (1/10)\<rparr>"

text \<open>Ten percent more, rounded up, and never above 1024.\<close>

definition grow :: "nat \<Rightarrow> nat" where
  "grow b = min 1024 (b + max 1 ((b * 10 + 99) div 100))"

lemma literal_values:
  "\<exists>v. lit (1/10) = Fin v \<and> 9 / 100 \<le> v \<and> v \<le> 11 / 100"
  "\<exists>v. lit (1/5) = Fin v \<and> 19 / 100 \<le> v \<and> v \<le> 21 / 100"
  "\<exists>v. lit (3/10) = Fin v \<and> 29 / 100 \<le> v \<and> v \<le> 31 / 100"
  "\<exists>v. lit (1/2) = Fin v \<and> 49 / 100 \<le> v \<and> v \<le> 51 / 100"
  "\<exists>v. lit (7/10) = Fin v \<and> 69 / 100 \<le> v \<and> v \<le> 71 / 100"
  "\<exists>v. lit (4/5) = Fin v \<and> 79 / 100 \<le> v \<and> v \<le> 81 / 100"
  "\<exists>v. lit (9/10) = Fin v \<and> 89 / 100 \<le> v \<and> v \<le> 91 / 100"
  by (rule lit_between; simp)+

lemma lit_one: "lit 1 = Fin 1"
  using round_double_nat [of 1] by simp

lemma sub_zero: "d_sub (Fin 1) (Fin 0) = Fin 1"
  by (simp add: d_sub_def d_add_def lit_one)

lemma synthetic_scores:
  "coherence_of synthetic_coherence = Fin 1"
  "performance_of synthetic_performance = Fin 1"
  "economy_of synthetic_fees = Fin 1"
proof -
  obtain a b c d e where v: "lit (1/10) = Fin a" "lit (1/2) = Fin b" "lit (3/10) = Fin c"
      "lit (4/5) = Fin d" "lit (9/10) = Fin e"
    and le: "a \<le> 11 / 100" "49 / 100 \<le> b" "c \<le> 31 / 100" "79 / 100 \<le> d" "d \<le> 81 / 100" "89 / 100 \<le> e"
    using literal_values by metis
  have "d_mul (Fin 0) (Fin b) = Fin 0" using le(2) by (simp add: d_mul_def)
  then show "coherence_of synthetic_coherence = Fin 1"
    by (simp add: coherence_of_def synthetic_coherence_def d_floor0_def v sub_zero)
  show "performance_of synthetic_performance = Fin 1"
    using le by (simp add: performance_of_def synthetic_performance_def d_floor0_def v)
  show "economy_of synthetic_fees = Fin 1"
    using le by (simp add: economy_of_def synthetic_fees_def d_floor0_def v)
qed

lemma window_score_one:
  assumes "f x = Fin 1" "0 < n" "n \<le> 8"
  shows "window_score f (replicate n x) = Fin 1"
proof -
  have "d_sum (map f (replicate n x)) = Fin (of_nat n)"
    using d_sum_nat [of n 1] assms by simp
  then show ?thesis
    using assms lit_one by (simp add: window_score_def double_of_length d_div_def d_clamp_def Let_def)
qed

lemma batch_grows:
  assumes "1 \<le> b" "b \<le> 1024"
  shows "batch_size_rule True True (Fin 0) (Fin 1) (Fin 1) (of_nat b) = of_nat (grow b)"
proof -
  define i where "i = (b * 10 + 99) div 100"
  have i: "i \<le> 103" "1 \<le> i" using assms by (simp_all add: i_def)
  have "unat (of_nat (b * 10 + 99) :: u32) = b * 10 + 99" using assms by (intro unat_of_small) simp
  then have "unat ((of_nat (b * 10 + 99) :: u32) div 100) = i" by (simp add: unat_div i_def)
  then have "(of_nat (b * 10 + 99) :: u32) div 100 = of_nat i" by (metis of_nat_unat ucast_id)
  then have w: "(of_nat b * 10 + 99) div 100 = (of_nat i :: u32)" by simp
  have ui: "unat (of_nat i :: u32) = i" "unat (of_nat (b + i) :: u32) = b + i"
    using i assms by (intro unat_of_small; simp)+
  have nz: "(of_nat i :: u32) \<noteq> 0" using ui(1) i(2) by (metis not_one_le_zero unat_0)
  obtain a d e where v: "lit (1/10) = Fin a" "lit (1/2) = Fin d" "lit (4/5) = Fin e" "9 / 100 \<le> a"
      "d \<le> 51 / 100" "e \<le> 81 / 100"
    using literal_values by metis
  obtain f where f: "lit (7/10) = Fin f" "f \<le> 71 / 100" using literal_values by metis
  have "batch_size_rule True True (Fin 0) (Fin 1) (Fin 1) (of_nat b) = clamp_u32 (of_nat (b + i)) 1 1024"
    using v f nz by (simp add: batch_size_rule_def w)
  also have "\<dots> = of_nat (min 1024 (b + i))"
    using ui(2) i(2) by (auto simp: clamp_u32_def word_less_nat_alt min_def)
  finally show ?thesis using i(2) by (simp add: grow_def i_def max_def)
qed

definition runtime_tuning :: "nat \<Rightarrow> tuning_decision" where
  "runtime_tuning b = \<lparr>td_batch_size = of_nat b, td_proof_interval_ms = 1000,
     td_worker_allocation = 1, td_anchor_cadence = NORMAL\<rparr>"

lemma decision_empty:
  assumes "1 \<le> b" "b \<le> 1024"
  shows "computeDecision [] [] [] (runtime_tuning b) = runtime_tuning b"
proof -
  obtain a d e f where v: "lit (1/10) = Fin a" "lit (1/2) = Fin d" "lit (4/5) = Fin e" "lit (7/10) = Fin f"
      "9 / 100 \<le> a" "d \<le> 51 / 100" "e \<le> 81 / 100"
    using literal_values by metis
  have "unat (of_nat b :: u32) = b" using assms by (intro unat_of_small) simp
  then have b: "\<not> (of_nat b :: u32) < 1" "\<not> (1024 :: u32) < of_nat b"
    using assms by (simp_all add: word_less_nat_alt)
  show ?thesis
    using v b by (simp add: computeDecision_def runtime_tuning_def computeCoherenceScore_def
        computePerformanceScore_def computeEconomicScore_def window_score_def d_average_def
        batch_size_rule_def proof_interval_rule_def worker_rule_def cadence_rule_def clamp_u32_def)
qed

lemma decision_synthetic:
  assumes n: "0 < n" "n \<le> 8" and b: "1 \<le> b" "b \<le> 1024"
  shows "computeDecision (replicate n synthetic_coherence) (replicate n synthetic_performance)
      (replicate n synthetic_fees) (runtime_tuning b) = runtime_tuning (grow b)"
proof -
  obtain a d e g h where v: "lit (1/10) = Fin a" "lit (1/2) = Fin d" "lit (4/5) = Fin e" "lit (9/10) = Fin g"
      "lit (1/5) = Fin h" "9 / 100 \<le> a" "d \<le> 51 / 100" "e \<le> 81 / 100" "89 / 100 \<le> g" "h \<le> 21 / 100"
    using literal_values by metis
  obtain u where u: "d_average (replicate n (Fin e)) = Fin u" "7 / 10 < u" "u < 17 / 20"
    using average_util [OF n] v(3) by auto
  have scores: "computeCoherenceScore (replicate n synthetic_coherence) = Fin 1"
    "computePerformanceScore (replicate n synthetic_performance) = Fin 1"
    "computeEconomicScore (replicate n synthetic_fees) = Fin 1"
    by (simp_all add: computeCoherenceScore_def computePerformanceScore_def computeEconomicScore_def
        window_score_one synthetic_scores n)
  have avg: "d_average (replicate n (Fin 0)) = Fin 0" "d_average (replicate n (Fin 1000)) = Fin 1000"
    "d_average (replicate n (Fin 10)) = Fin 10" "d_average (replicate n (Fin 200)) = Fin 200"
    using d_average_nat [of n 0] d_average_nat [of n 1000] d_average_nat [of n 10] d_average_nat [of n 200] n
    by simp_all
  have batch: "batch_size_rule True True (Fin 0) (Fin 1) (Fin 1) (of_nat b) = of_nat (grow b)"
    by (rule batch_grows [OF b])
  have interval: "proof_interval_rule True True (Fin 10) (Fin 200) 1000 = 1000"
    by (simp add: proof_interval_rule_def clamp_u32_def)
  have workers: "worker_rule True (Fin 1000) (Fin u) (Fin 1) 1 = 1"
    using u v by (simp add: worker_rule_def clamp_u32_def)
  have cadence: "cadence_rule (Fin 0) (Fin 1) (Fin 1) NORMAL = NORMAL"
    using v by (simp add: cadence_rule_def)
  have maps: "map em_dispute_rate (replicate n synthetic_coherence) = replicate n (Fin 0)"
    "map em_anchor_confirmation_time (replicate n synthetic_coherence) = replicate n (Fin 200)"
    "map pm_proof_generation_time (replicate n synthetic_performance) = replicate n (Fin 1000)"
    "map pm_prover_utilization (replicate n synthetic_performance) = replicate n (Fin e)"
    "map fm_sat_per_vbyte_fee_band (replicate n synthetic_fees) = replicate n (Fin 10)"
    by (simp_all add: synthetic_coherence_def synthetic_performance_def synthetic_fees_def v)
  show ?thesis
    using n by (simp add: computeDecision_def runtime_tuning_def scores maps avg u(1) batch interval
        workers cadence del: map_replicate)
qed

section \<open>Runs of the runtime\<close>

datatype 'r isla_op =
    Epoch "(string + clock_snapshot) option" epoch_bundle
  | Heartbeat clock_snapshot u64
  | AttachBackend zk_backend_config
  | AttachGiven "zk_backend option" zk_backend_config
  | AttachScheduler "(u64 \<Rightarrow> scheduler_decision) option"
  | AttachReplay "'r option"
  | AttachMesh "mesh_snapshot list option"

definition isla_step ::
    "('x, 'p, 'k) taproot_lib \<Rightarrow> (bytes \<Rightarrow> bytes) \<Rightarrow> (double \<Rightarrow> u64) \<Rightarrow> (double \<Rightarrow> int) \<Rightarrow> 'r replay_ops \<Rightarrow>
     'r isla_state \<Rightarrow> 'r isla_op \<Rightarrow> 'r isla_state" where
  "isla_step L sha oob oobi R s x =
     (case x of
        Epoch reading b \<Rightarrow> snd (run_epoch L sha oob oobi R reading b s)
      | Heartbeat clk n \<Rightarrow> snd (check_heartbeat_drift clk n s)
      | AttachBackend cfg \<Rightarrow> snd (attach_backend sha cfg s)
      | AttachGiven B cfg \<Rightarrow> snd (attach_given_backend B cfg s)
      | AttachScheduler f \<Rightarrow> attach_scheduler f s
      | AttachReplay r \<Rightarrow> attach_replay r s
      | AttachMesh m \<Rightarrow> attach_mesh m s)"

text \<open>The calls of \<open>run_epoch\<close> that come after a first one has succeeded.\<close>

fun tuned_calls ::
    "('x, 'p, 'k) taproot_lib \<Rightarrow> (bytes \<Rightarrow> bytes) \<Rightarrow> (double \<Rightarrow> u64) \<Rightarrow> (double \<Rightarrow> int) \<Rightarrow> 'r replay_ops \<Rightarrow>
     bool \<Rightarrow> 'r isla_state \<Rightarrow> 'r isla_op list \<Rightarrow> nat" where
  "tuned_calls L sha oob oobi R seen s [] = 0"
| "tuned_calls L sha oob oobi R seen s (x # xs) =
     (case x of
        Epoch reading b \<Rightarrow>
          of_bool seen + tuned_calls L sha oob oobi R
            (seen \<or> isl (fst (run_epoch L sha oob oobi R reading b s)) = False)
            (isla_step L sha oob oobi R s x) xs
      | _ \<Rightarrow> tuned_calls L sha oob oobi R seen (isla_step L sha oob oobi R s x) xs)"

definition tuned :: "bool \<Rightarrow> nat \<Rightarrow> 'r isla_state \<Rightarrow> bool" where
  "tuned seen b s \<longleftrightarrow>
     (\<exists>n \<le> 8. io_epoch_window s = replicate n synthetic_coherence \<and>
        io_perf_window s = replicate n synthetic_performance \<and>
        io_econ_window s = replicate n synthetic_fees \<and> seen = (0 < n)) \<and>
     io_tuning s = runtime_tuning b \<and> 1 \<le> b \<and> b \<le> 1024"

lemma grow_bounds: "1 \<le> b \<Longrightarrow> 1 \<le> grow b \<and> grow b \<le> 1024"
  by (simp add: grow_def)

lemma tune_tuned: "tuned seen b s \<Longrightarrow> tuned seen (if seen then grow b else b) (tune s)"
  using decision_empty [of b] grow_bounds [of b]
  by (auto simp: tuned_def tune_def applyTuning_def decision_synthetic Let_def)

lemma push_tuned: "tuned seen b s \<Longrightarrow> tuned True b (push_metrics s)"
proof -
  assume t: "tuned seen b s"
  then obtain n where n: "n \<le> 8" "io_epoch_window s = replicate n synthetic_coherence"
      "io_perf_window s = replicate n synthetic_performance" "io_econ_window s = replicate n synthetic_fees"
    by (auto simp: tuned_def)
  have snoc: "replicate n x @ [x] = replicate (Suc n) x" for x :: 'b by (simp add: replicate_append_same)
  show ?thesis
    using t n by (auto simp: tuned_def push_metrics_def Let_def snoc simp flip: synthetic_coherence_def
        synthetic_performance_def synthetic_fees_def intro: exI [of _ "Suc n"])
qed

lemma tuned_cong:
  assumes "io_epoch_window t = io_epoch_window s" "io_perf_window t = io_perf_window s"
    "io_econ_window t = io_econ_window s" "io_tuning t = io_tuning s"
  shows "tuned seen b t = tuned seen b s"
  by (simp add: tuned_def assms)

lemma tuned_frame [simp]:
  "tuned seen b (s\<lparr>io_energy := e, io_temporal_buffer := m\<rparr>) = tuned seen b s"
  "tuned seen b (s\<lparr>io_replay := r\<rparr>) = tuned seen b s"
  by (rule tuned_cong; simp)+

lemma audit_tuned: "audit_epoch t s = (vs, report, s1) \<Longrightarrow> tuned seen b s \<Longrightarrow> tuned seen b s1"
  by (auto simp: audit_epoch_def Let_def split_beta)

lemma record_tuned: "record_in_replay R p bd res s = (e, s1) \<Longrightarrow> tuned seen b s \<Longrightarrow> tuned seen b s1"
  by (auto simp: record_in_replay_def split: option.splits sum.splits)

lemma process_tuned:
  assumes "tuned seen b s"
  shows "tuned (seen \<or> \<not> isl (fst (process_epoch L sha oob oobi R p clk bd s))) b
    (snd (process_epoch L sha oob oobi R p clk bd s))"
  using assms
  by (auto simp: process_epoch_def Let_def split: prod.splits option.splits
      dest!: audit_tuned record_tuned intro: push_tuned)

lemma run_tuned:
  assumes "tuned seen b s"
  shows "tuned (seen \<or> \<not> isl (fst (run_epoch L sha oob oobi R reading bd s)))
    (if seen then grow b else b) (snd (run_epoch L sha oob oobi R reading bd s))"
proof -
  note t = tune_tuned [OF assms]
  show ?thesis
    using t process_tuned [OF t] by (auto simp: run_epoch_def Let_def split: sum.splits option.splits)
qed

lemma step_tuned:
  assumes "tuned seen b s" "\<forall>reading bd. x \<noteq> Epoch reading bd"
  shows "tuned seen b (isla_step L sha oob oobi R s x)"
proof -
  have "tuned seen b (isla_step L sha oob oobi R s x) = tuned seen b s"
    using assms(2)
    by (intro tuned_cong; cases x)
      (auto simp: isla_step_def check_heartbeat_drift_def attach_backend_def attach_given_backend_def
        attach_scheduler_def attach_replay_def attach_mesh_def Let_def)
  with assms(1) show ?thesis by simp
qed

lemma tuned_foldl:
  "tuned seen b s \<Longrightarrow> \<exists>seen'. tuned seen' ((grow ^^ tuned_calls L sha oob oobi R seen s ops) b)
     (foldl (isla_step L sha oob oobi R) s ops)"
proof (induction ops arbitrary: seen b s)
  case (Cons x xs)
  show ?case
  proof (cases "\<exists>reading bd. x = Epoch reading bd")
    case True
    then obtain reading bd where x: "x = Epoch reading bd" by blast
    from Cons.IH [OF run_tuned [OF Cons.prems, of L sha oob oobi R reading bd]] show ?thesis
      by (cases seen) (simp_all add: x isla_step_def funpow_swap1)
  next
    case False
    then have "tuned_calls L sha oob oobi R seen s (x # xs) =
        tuned_calls L sha oob oobi R seen (isla_step L sha oob oobi R s x) xs"
      by (cases x) auto
    with Cons.IH [OF step_tuned [OF Cons.prems], of x] False show ?thesis by simp
  qed
qed auto

lemma new_tuned: "tuned False 1 (new_isla env)"
  by (auto simp: tuned_def new_isla_def runtime_tuning_def)

lemma funpow_numeral: "(f ^^ numeral k) x = f ((f ^^ pred_numeral k) x)"
  by (simp add: numeral_eq_Suc)

lemma grow_saturates: "(grow ^^ 54) 1 = 1024"
  by (simp add: grow_def funpow_numeral)

lemma grow_limit: "(grow ^^ (k + 54)) 1 = 1024"
proof -
  have "(grow ^^ k) 1024 = 1024" by (induction k) (simp_all add: grow_def)
  then show ?thesis by (simp only: funpow_add o_apply grow_saturates)
qed


section \<open>Anchors\<close>

lemma parse_unsigned_commit:
  assumes "length txid = 32" "length spk = 34"
  shows "parse_signed (write_uint32_le 2 @ [0x00, 0x01] @ write_compact_size 1 @ txid @
      write_uint32_le vout @ write_compact_size 0 @ write_uint32_le 0xFFFFFFFF @
      write_compact_size 1 @ write_uint64_le val @ write_compact_size (of_nat (length spk)) @ spk @
      write_compact_size 0 @ write_uint32_le 0) = Some (Inl ''invalid-witness-count'')"
proof -
  let ?w = "write_compact_size 0 @ le_bytes 4 (0 :: u32)"
  let ?o = "write_compact_size 34 @ spk @ ?w"
  let ?s = "le_bytes 4 (0xFFFFFFFF :: u32) @ write_compact_size 1 @ le_bytes 8 val @ ?o"
  let ?i = "txid @ le_bytes 4 vout @ write_compact_size 0 @ ?s"
  let ?d = "le_bytes 4 (2 :: u32) @ [0, 1] @ write_compact_size 1 @ ?i"
  note one = compact_one_byte
  have len: "length ?d = 97" using assms by (simp add: one)
  have rest: "length (spk @ ?w) = 39" using assms by (simp add: one)
  have i: "take 32 ?i = txid" "drop 32 ?i = le_bytes 4 vout @ write_compact_size 0 @ ?s"
    using assms(1) by simp_all
  have one_long: "length (write_compact_size 0) = 1" "length (write_compact_size 1) = 1"
    "length (write_compact_size 34) = 1"
    by (simp_all add: one)
  have "parse_signed ?d = Some (Inl ''invalid-witness-count'')"
    unfolding parse_signed_def len read_uint32 Let_def prod.case
    using assms by (simp add: one_long i [simplified])
  then show ?thesis using assms by (simp add: write_uint32_le_def write_uint64_le_def)
qed

lemma built_unsigned_rejected:
  assumes "length (ci_prev_txid input) = 32" "\<And>y. length (xonly_pubkey_serialize L y) = 32"
  shows "validate_anchor_commit L sha (build_anchor_commit_tx L sha r m input fee) r' m' key v =
    Some (False, ''invalid-witness-count'')"
proof -
  have "length (to_taproot_output_key (compute_output_key L sha h
      \<lparr>to_internal_key = k, to_taproot_output_key = [], to_bech32m_address = []\<rparr>)) = 32" for h k
    using assms(2)
    by (simp add: compute_output_key_def tweak_taproot_output_key_def Let_def split: option.split)
  then have spk: "length (build_p2tr_script_pubkey (to_taproot_output_key (compute_output_key L sha h
      \<lparr>to_internal_key = k, to_taproot_output_key = [], to_bech32m_address = []\<rparr>))) = 34" for h k
    by (simp add: build_p2tr_script_pubkey_def)
  show ?thesis
    by (simp add: validate_anchor_commit_def build_anchor_commit_tx_def Let_def
        parse_unsigned_commit [OF assms(1) spk, simplified])
qed

lemma run_epoch_anchor:
  assumes "fst (run_epoch L sha oob oobi R reading b s) = Inr res" "or_should_anchor (ir_zk_result res)"
  shows "ir_anchor_tx res = build_anchor_commit_tx L sha (root_array (eb_state_root_hash b))
      (ir_metadata_hash res) (eb_anchor_input b) (eb_fee_sats b)"
    "ir_validation res = validate_anchor_commit L sha (ir_anchor_tx res)
      (root_array (eb_state_root_hash b)) (ir_metadata_hash res)
      (ci_internal_key (eb_anchor_input b)) (ci_value_sats (eb_anchor_input b))"
  using assms
  by (auto simp: run_epoch_def process_epoch_def anchor_epoch_def Let_def
      split: sum.splits option.splits prod.splits if_splits)

text \<open>
  C36. No epoch of the runtime ever reports a valid anchor: whenever a call returns an epoch with
  an anchor, its validation says \<open>invalid-witness-count\<close>, because the transaction is validated
  as it was built, without a signature. The transaction itself is right: signed with any key pair
  the library handles for the tweak of that root and metadata, it is accepted for the same root,
  metadata hash and input.
\<close>

theorem runtime_anchor_lacks_signature:
  assumes "\<And>d. length (sha d) = 32" "\<And>y. length (xonly_pubkey_serialize L y) = 32"
    and "length (ci_prev_txid (eb_anchor_input b)) = 32"
    and "fst (run_epoch L sha oob oobi R reading b s) = Inr res" "or_should_anchor (ir_zk_result res)"
  shows "ir_validation res = Some (False, ''invalid-witness-count'') \<and>
    (\<forall>privkey. signs_for L privkey (ci_internal_key (eb_anchor_input b))
        (commit_tweak sha (root_array (eb_state_root_hash b)) (ir_metadata_hash res)
           (ci_internal_key (eb_anchor_input b))) \<longrightarrow>
      validate_anchor_commit L sha
        (sign_anchor_commit_tx L sha (ir_anchor_tx res) (ci_internal_key (eb_anchor_input b))
           (al_leaf_hash (build_anchor_commit_tapleaf sha (root_array (eb_state_root_hash b))
              (ir_metadata_hash res)))
           (ci_value_sats (eb_anchor_input b)) privkey)
        (root_array (eb_state_root_hash b)) (ir_metadata_hash res)
        (ci_internal_key (eb_anchor_input b)) (ci_value_sats (eb_anchor_input b)) = Some (True, []))"
proof (intro conjI allI impI)
  show "ir_validation res = Some (False, ''invalid-witness-count'')"
    unfolding run_epoch_anchor [OF assms(4,5)] by (rule built_unsigned_rejected [OF assms(3,2)])
next
  fix privkey
  assume "signs_for L privkey (ci_internal_key (eb_anchor_input b))
        (commit_tweak sha (root_array (eb_state_root_hash b)) (ir_metadata_hash res)
           (ci_internal_key (eb_anchor_input b)))"
  from built_and_signed_validates [OF assms(1) this assms(3), where junk = "[]" and fee = "eb_fee_sats b"]
  show "validate_anchor_commit L sha
        (sign_anchor_commit_tx L sha (ir_anchor_tx res) (ci_internal_key (eb_anchor_input b))
           (al_leaf_hash (build_anchor_commit_tapleaf sha (root_array (eb_state_root_hash b))
              (ir_metadata_hash res)))
           (ci_value_sats (eb_anchor_input b)) privkey)
        (root_array (eb_state_root_hash b)) (ir_metadata_hash res)
        (ci_internal_key (eb_anchor_input b)) (ci_value_sats (eb_anchor_input b)) = Some (True, [])"
    unfolding run_epoch_anchor(1) [OF assms(4,5)] by simp
qed

lemma process_result:
  assumes "fst (process_epoch L sha oob oobi R p clk b s) = Inr res"
  shows "\<exists>d c. ir_zk_result res = orchestrate_epoch sha (epoch_context s p d c b) (io_backend s)
    (io_active_config s) (eb_constraints b) (eb_transcript b) (eb_state_root_hash b)"
  using assms
  by (fastforce simp: process_epoch_def anchor_epoch_def Let_def split: option.splits prod.splits if_splits)

lemma process_without_replay:
  assumes "io_replay s = None"
    and "hice_all_ok (evaluate_hice_contracts (eb_hice_metrics b) v27_defaults (lit (3/100)))"
  shows "\<exists>res. fst (process_epoch L sha oob oobi R p clk b s) = Inr res"
  using assms by (simp add: process_epoch_def Let_def record_in_replay_def audit_epoch_def split_beta)

text \<open>Without a replay buffer and a clock, the contracts alone decide whether an epoch runs.\<close>

lemma epoch_without_replay:
  assumes "io_replay s = None"
    and "hice_all_ok (evaluate_hice_contracts (eb_hice_metrics b) v27_defaults (lit (3/100)))"
  obtains res where "fst (run_epoch L sha oob oobi R None b s) = Inr res"
    "is_ci (io_env s) \<Longrightarrow> io_scheduler s = None \<Longrightarrow>
      or_should_anchor (ir_zk_result res) = (apl_decision (eb_anchor_plan b) = ANCHOR)"
proof -
  define p where "p = load_policy (default_config (get_environment_type (io_env s)))"
  have replay: "io_replay (tune s) = None" "io_env (tune s) = io_env s" "io_scheduler (tune s) = io_scheduler s"
    using assms(1) by (simp_all add: tune_def applyTuning_def)
  from process_without_replay [OF replay(1) assms(2), of L sha oob oobi R p "eb_clock_snapshot b"]
  obtain res where r: "fst (process_epoch L sha oob oobi R p (eb_clock_snapshot b) b (tune s)) = Inr res" ..
  from process_result [OF r] obtain d c where z: "ir_zk_result res =
      orchestrate_epoch sha (epoch_context (tune s) p d c b) (io_backend (tune s))
        (io_active_config (tune s)) (eb_constraints b) (eb_transcript b) (eb_state_root_hash b)" by blast
  have a: "or_should_anchor (ir_zk_result res) = (apl_decision (eb_anchor_plan b) = ANCHOR)"
    if "is_ci (io_env s)" "io_scheduler s = None"
    using that replay(3) by (simp add: z orchestrate_epoch_def epoch_context_def p_def load_policy_def
        default_config_def get_environment_type_def Let_def split_beta)
  have f: "fst (run_epoch L sha oob oobi R None b s) = Inr res"
    using r assms(1) by (simp add: run_epoch_def clock_state_def check_against_replay_def Let_def p_def)
  show thesis by (rule that [OF f a])
qed

lemma lit_pos:
  assumes "1 / 10 ^ 6 \<le> x" "x \<le> 1000"
  shows "\<exists>v. lit x = Fin v \<and> 0 < v \<and> v \<le> 2 * x"
proof -
  have "pow2 (- 1022) \<le> (1 / 2 ^ 20 :: rat)" by (simp add: pow2_eq power_int_def field_simps)
  also have "\<dots> \<le> 1 / 10 ^ 6" by simp
  finally have low: "pow2 (- 1022) \<le> x" using assms(1) by simp
  have "(1000 :: rat) \<le> 2 ^ 10" by simp
  also have "\<dots> \<le> 2 ^ 1023" by (rule power_increasing) simp_all
  finally have high: "x \<le> 2 ^ 1023" using assms(2) by simp
  from round_double_near [OF low high] obtain v where v: "lit x = Fin v" "\<bar>v - x\<bar> \<le> x / 2 ^ 53" "0 < v" .
  have "x / 2 ^ 53 \<le> x" using v assms(1) by simp
  with v(2) have "v \<le> 2 * x" by linarith
  with v show ?thesis by blast
qed

lemma lit_minus: "lit x = Fin v \<Longrightarrow> 0 < v \<Longrightarrow> 0 < x \<Longrightarrow> lit (- x) = Fin (- v)"
  by (auto simp: round_double_def Let_def split: if_splits)

text \<open>Perfect metrics.\<close>

definition calm_metrics :: hice_metrics where
  "calm_metrics = \<lparr>hm_covariance_error = Fin 0, hm_spectral_drift = Fin 0, hm_delta_memory = Fin 0,
     hm_context_leakage = Fin 0, hm_null_matching_rate = Fin 2, hm_delta_auc = Fin 1,
     hm_ci_lower_bound = Fin 1, hm_ci_point_estimate = Fin 1\<rparr>"

lemma calm_ok: "hice_all_ok (evaluate_hice_contracts calm_metrics v27_defaults (lit (3/100)))"
proof -
  obtain a b c d e f where v: "lit (1/1000000) = Fin a" "lit (1/1000) = Fin b" "lit (1/20) = Fin c"
      "lit (1/100) = Fin d" "lit (19/20) = Fin e" "lit (3/100) = Fin f"
    and le: "0 < a" "0 < b" "0 < c" "0 < d" "e \<le> 2" "f \<le> 6/100"
    using lit_pos [of "1/1000000"] lit_pos [of "1/1000"] lit_pos [of "1/20"] lit_pos [of "1/100"]
      lit_pos [of "19/20"] lit_pos [of "3/100"] by auto
  from lit_minus [OF v(3) le(3)] have "lit (- (1/20)) = Fin (- c)" by simp
  then show ?thesis
    using v le by (simp add: hice_all_ok_def evaluate_hice_contracts_def v27_defaults_def calm_metrics_def)
qed

definition demo_epoch :: epoch_bundle where
  "demo_epoch =
     \<lparr>eb_sequence_id = 1, eb_epoch_id = 1, eb_state_root_hash = replicate 64 CHR ''a'',
      eb_anchor_plan = \<lparr>apl_decision = ANCHOR, apl_epoch_id = 1, apl_anchor_cycle_id = 1\<rparr>,
      eb_proof_plan = \<lparr>ppl_decision = SKIP_PROOF, ppl_epoch_id = 1, ppl_proof_cycle_id = 0\<rparr>,
      eb_clock_snapshot = \<lparr>ck_height = 1000, ck_timestamp = 1, ck_hash = replicate 64 CHR ''0'',
        ck_source = ''Bitcoin''\<rparr>,
      eb_scheduler_decision = \<lparr>sd_anchor_decision = ANCHOR, sd_proof_decision = SKIP_PROOF\<rparr>,
      eb_anchor_input = \<lparr>ci_prev_txid = replicate 32 3, ci_prev_vout = 0, ci_value_sats = 10000,
        ci_internal_key = demo_key\<rparr>,
      eb_fee_sats = 300, eb_constraints = None, eb_transcript = None, eb_hice_metrics = calm_metrics\<rparr>"

definition ci_env :: runtime_environment where
  "ci_env = \<lparr>is_ci = True, is_dev = False, is_staging = False, is_mainnet_sim = False\<rparr>"

definition padded_lib :: "(bytes, bytes, bytes) taproot_lib" where
  "padded_lib = xor_lib\<lparr>xonly_pubkey_serialize := \<lambda>k. take 32 (k @ replicate 32 0)\<rparr>"

definition no_replay :: "unit replay_ops" where
  "no_replay = \<lparr>rp_record_epoch = (\<lambda>_ _ r. Inr r), rp_get_epoch_history = (\<lambda>_. Inr []),
     rp_remove_oldest = id, rp_size = (\<lambda>_. 0)\<rparr>"

theorem runtime_anchor_lacks_signature_witness:
  "\<exists>res. fst (run_epoch padded_lib fold_sha (\<lambda>_. 0) (\<lambda>_. 0) no_replay None demo_epoch (new_isla ci_env)) =
       Inr res \<and> ir_validation res = Some (False, ''invalid-witness-count'')"
proof -
  have ok: "hice_all_ok (evaluate_hice_contracts (eb_hice_metrics demo_epoch) v27_defaults (lit (3/100)))"
    using calm_ok by (simp add: demo_epoch_def)
  obtain res where res: "fst (run_epoch padded_lib fold_sha (\<lambda>_. 0) (\<lambda>_. 0) no_replay None demo_epoch
      (new_isla ci_env)) = Inr res" "or_should_anchor (ir_zk_result res)"
    by (rule epoch_without_replay [OF _ ok, of "new_isla ci_env" padded_lib fold_sha "\<lambda>_. 0" "\<lambda>_. 0" no_replay])
      (simp_all add: new_isla_def ci_env_def demo_epoch_def)
  have key: "length (xonly_pubkey_serialize padded_lib y) = 32" for y
    by (simp add: padded_lib_def)
  have txid: "length (ci_prev_txid (eb_anchor_input demo_epoch)) = 32"
    by (simp add: demo_epoch_def)
  from runtime_anchor_lacks_signature [OF fold_sha_length key txid res] res(1) show ?thesis by blast
qed

end
