(* ===== verification/Replay_Store.thy ===== *)
theory Replay_Store
  imports Isla_Runtime Reorg "HOL-Library.Product_Lexorder"
begin

text \<open>
  The replay buffer that keeps epochs in RocksDB: \<open>src/l6/ReplayBuffer.cpp\<close>. The store is the
  record \<open>K\<close> of \<open>Reorg\<close>. The JSON library is not part of the repository: its values are the
  datatype \<open>jvalue\<close>, objects listed in key order as the library keeps them, and its writer and
  reader are the parameters \<open>jwrite\<close> and \<open>jparse\<close>. \<open>uninit\<close> is what the members of a bundle hold
  that no JSON member sets. Error texts of the store are left out. The state is the open database.
\<close>

section \<open>The JSON library as the buffer uses it\<close>

datatype jvalue = JNull | JUInt u64 | JString string | JObject "(string \<times> jvalue) list" | JOther

text \<open>\<open>isMember\<close> and \<open>operator[]\<close>: a null value has no members, other kinds throw.\<close>

fun is_member :: "jvalue \<Rightarrow> string \<Rightarrow> string + bool" where
  "is_member JNull k = Inr False"
| "is_member (JObject ms) k = Inr (map_of ms k \<noteq> None)"
| "is_member _ k = Inl ''in Json::Value::find(begin, end): requires objectValue or nullValue''"

fun member :: "jvalue \<Rightarrow> string \<Rightarrow> string + jvalue" where
  "member JNull k = Inr JNull"
| "member (JObject ms) k = Inr (case map_of ms k of None \<Rightarrow> JNull | Some v \<Rightarrow> v)"
| "member _ k = Inl ''in Json::Value::resolveReference(key, end): requires objectValue''"

fun asUInt64 :: "jvalue \<Rightarrow> string + u64" where
  "asUInt64 JNull = Inr 0"
| "asUInt64 (JUInt w) = Inr w"
| "asUInt64 _ = Inl ''Value is not convertible to UInt64.''"

fun asString :: "jvalue \<Rightarrow> string + string" where
  "asString JNull = Inr []"
| "asString (JString s) = Inr s"
| "asString (JUInt w) = Inr (to_dec (unat w))"
| "asString _ = Inl ''Type is not convertible to string''"

section \<open>Operations\<close>

definition anchor_decision_code :: "anchor_decision \<Rightarrow> u64" where
  "anchor_decision_code d = (case d of SKIP_ANCHOR \<Rightarrow> 0 | ANCHOR \<Rightarrow> 1)"

definition proof_decision_code :: "proof_decision \<Rightarrow> u64" where
  "proof_decision_code d = (case d of SKIP_PROOF \<Rightarrow> 0 | ATTACH_PROOF \<Rightarrow> 1)"

definition epoch_json :: "epoch_bundle \<Rightarrow> bytes \<Rightarrow> jvalue" where
  "epoch_json b metadata_hash =
     JObject
       [(''clock_snapshot'', JObject
           [(''height'', JUInt (ck_height (eb_clock_snapshot b))),
            (''timestamp'', JUInt (ck_timestamp (eb_clock_snapshot b)))]),
        (''epoch_id'', JUInt (eb_epoch_id b)),
        (''metadata_hash'', JString (hex_of metadata_hash)),
        (''scheduler_decision'', JObject
           [(''anchor_decision'', JUInt (anchor_decision_code (sd_anchor_decision (eb_scheduler_decision b)))),
            (''proof_decision'', JUInt (proof_decision_code (sd_proof_decision (eb_scheduler_decision b))))]),
        (''sequence_id'', JUInt (eb_sequence_id b)),
        (''state_root_hash'', JString (eb_state_root_hash b))]"

definition epoch_key :: "u64 \<Rightarrow> string" where
  "epoch_key i = ''epoch_'' @ to_dec (unat i)"

definition rocks_record_epoch ::
    "'db kv \<Rightarrow> (jvalue \<Rightarrow> string) \<Rightarrow> epoch_bundle \<Rightarrow> isla_epoch_result \<Rightarrow> 'db \<Rightarrow> string + 'db" where
  "rocks_record_epoch K jwrite b res db =
     (case kv_write K db [Put (epoch_key (eb_epoch_id b)) (jwrite (epoch_json b (ir_metadata_hash res)))] of
        (ok, db1) \<Rightarrow> if ok then Inr db1 else Inl ''Failed to write to ReplayBuffer: '')"

definition optional_string :: "jvalue \<Rightarrow> string \<Rightarrow> string + string" where
  "optional_string v k =
     bindE (is_member v k) (\<lambda>m. if m then bindE (member v k) asString else Inr [])"

definition clock_from_json :: "jvalue \<Rightarrow> string + clock_snapshot" where
  "clock_from_json c =
     bindE (bindE (member c ''height'') asUInt64) (\<lambda>h.
     bindE (bindE (member c ''timestamp'') asUInt64) (\<lambda>t.
     bindE (optional_string c ''hash'') (\<lambda>hs.
     bindE (optional_string c ''source'') (\<lambda>src.
     Inr \<lparr>ck_height = h, ck_timestamp = t, ck_hash = hs, ck_source = src\<rparr>))))"

definition epoch_from_json :: "stored_epoch \<Rightarrow> jvalue \<Rightarrow> string + stored_epoch" where
  "epoch_from_json uninit doc =
     bindE (is_member doc ''sequence_id'') (\<lambda>hs.
     bindE (if hs then bindE (member doc ''sequence_id'') asUInt64 else Inr 0) (\<lambda>sq.
     bindE (bindE (member doc ''epoch_id'') asUInt64) (\<lambda>i.
     bindE (bindE (member doc ''state_root_hash'') asString) (\<lambda>r.
     bindE (is_member doc ''clock_snapshot'') (\<lambda>hc.
     bindE (if hc then bindE (member doc ''clock_snapshot'') clock_from_json
            else Inr ((se_clock_snapshot uninit)\<lparr>ck_hash := [], ck_source := []\<rparr>)) (\<lambda>c.
     Inr \<lparr>se_sequence_id = sq, se_epoch_id = i, se_state_root_hash = r, se_clock_snapshot = c\<rparr>))))))"

text \<open>The loop over the iterator: values that do not parse are skipped.\<close>

fun parse_history :: "(string \<Rightarrow> jvalue option) \<Rightarrow> stored_epoch \<Rightarrow> string list \<Rightarrow> string + stored_epoch list" where
  "parse_history jparse uninit [] = Inr []"
| "parse_history jparse uninit (v # vs) =
     (case jparse v of None \<Rightarrow> parse_history jparse uninit vs
      | Some doc \<Rightarrow> bindE (epoch_from_json uninit doc) (\<lambda>e.
          bindE (parse_history jparse uninit vs) (\<lambda>es. Inr (e # es))))"

definition rocks_get_epoch_history ::
    "'db kv \<Rightarrow> (string \<Rightarrow> jvalue option) \<Rightarrow> stored_epoch \<Rightarrow> 'db \<Rightarrow> string + stored_epoch list" where
  "rocks_get_epoch_history K jparse uninit db = parse_history jparse uninit (map snd (kv_seek K db []))"

definition rocks_remove_oldest :: "'db kv \<Rightarrow> 'db \<Rightarrow> 'db" where
  "rocks_remove_oldest K db =
     (case kv_seek K db [] of [] \<Rightarrow> db | (k, _) # _ \<Rightarrow> snd (kv_write K db [Delete k]))"

definition rocks_size :: "'db kv \<Rightarrow> 'db \<Rightarrow> nat" where
  "rocks_size K db = length (kv_seek K db [])"

definition rocks_replay ::
    "'db kv \<Rightarrow> (jvalue \<Rightarrow> string) \<Rightarrow> (string \<Rightarrow> jvalue option) \<Rightarrow> stored_epoch \<Rightarrow> 'db replay_ops" where
  "rocks_replay K jwrite jparse uninit =
     \<lparr>rp_record_epoch = rocks_record_epoch K jwrite,
      rp_get_epoch_history = rocks_get_epoch_history K jparse uninit,
      rp_remove_oldest = rocks_remove_oldest K, rp_size = rocks_size K\<rparr>"

definition sort_history_by_sequence :: "stored_epoch list \<Rightarrow> stored_epoch list" where
  "sort_history_by_sequence h =
     sort_key (\<lambda>e. (se_sequence_id e, se_epoch_id e)) h"

end
