(* ===== verification/Replay_Store_Props.thy ===== *)
theory Replay_Store_Props
  imports Isla_Props Replay_Store Reorg_Props
begin

text \<open>
  What the RocksDB replay buffer gives back, and what that does to the runtime: the keys are
  decimal numbers without padding, so the history comes in the order of the texts, and the chain
  check of \<open>run_epoch\<close> wants the order of the numbers.
\<close>

section \<open>Reading what was recorded\<close>

definition stored_of :: "epoch_bundle \<Rightarrow> stored_epoch" where
  "stored_of b =
     \<lparr>se_sequence_id = eb_sequence_id b, se_epoch_id = eb_epoch_id b,
      se_state_root_hash = eb_state_root_hash b,
      se_clock_snapshot = (eb_clock_snapshot b)\<lparr>ck_hash := [], ck_source := []\<rparr>\<rparr>"

lemma epoch_from_epoch_json: "epoch_from_json uninit (epoch_json b h) = Inr (stored_of b)"
  by (simp add: epoch_from_json_def epoch_json_def clock_from_json_def optional_string_def
      stored_of_def bindE_Inr)

lemma parse_history_append:
  "parse_history jparse u (xs @ ys) =
     bindE (parse_history jparse u xs) (\<lambda>a. bindE (parse_history jparse u ys) (\<lambda>c. Inr (a @ c)))"
proof (induction xs)
  case Nil
  show ?case by (cases "parse_history jparse u ys") (simp_all add: bindE_def)
next
  case (Cons x xs)
  then show ?case
    by (cases "jparse x"; cases "epoch_from_json u (the (jparse x))"; cases "parse_history jparse u xs";
        cases "parse_history jparse u ys") (simp_all add: bindE_def)
qed

lemma parse_history_two:
  assumes "jparse v = Some (epoch_json a h)" "jparse w = Some (epoch_json b g)"
    and "parse_history jparse u (xs @ v # ys @ w # zs) = Inr history"
  shows "\<exists>p q r. history = p @ stored_of a # q @ stored_of b # r"
proof -
  obtain p q where "parse_history jparse u xs = Inr p"
      "parse_history jparse u (v # ys @ w # zs) = Inr q" "history = p @ q"
    using assms(3) by (auto simp: parse_history_append bindE_def split: sum.splits)
  moreover from this(2) obtain q1 where "parse_history jparse u (ys @ w # zs) = Inr q1" "q = stored_of a # q1"
    using assms(1) by (auto simp: epoch_from_epoch_json bindE_def split: sum.splits)
  moreover from this(1) obtain q2 q3 where "parse_history jparse u (w # zs) = Inr q3" "q1 = q2 @ q3"
    by (auto simp: parse_history_append bindE_def split: sum.splits)
  moreover from this(1) obtain r where "q3 = stored_of b # r"
    using assms(2) by (auto simp: epoch_from_epoch_json bindE_def split: sum.splits)
  ultimately show ?thesis by auto
qed

lemma sorted_split:
  fixes xs :: "('k::linorder \<times> 'v) list"
  assumes "sorted_wrt (<) (map fst xs)" "(a, u) \<in> set xs" "(b, v) \<in> set xs" "a < b"
  shows "\<exists>p q r. xs = p @ (a, u) # q @ (b, v) # r"
proof -
  obtain p ys where xs: "xs = p @ (a, u) # ys" using assms(2) by (auto simp: in_set_conv_decomp)
  have "(b, v) \<notin> set p" using assms(1,4) xs by (auto simp: sorted_wrt_append dest!: bspec)
  then have "(b, v) \<in> set ys" using assms(3,4) xs by auto
  then obtain q r where "ys = q @ (b, v) # r" by (auto simp: in_set_conv_decomp)
  with xs show ?thesis by blast
qed

lemma om_get_entries: "om_get m k = Some v \<longleftrightarrow> (k, v) \<in> set (om_entries m)"
  using om_distinct [of m] by (simp add: om_get.rep_eq)

lemma chain_sorted:
  "chain_ok m prev h \<Longrightarrow> sorted_wrt (<) (map se_epoch_id h) \<and>
     (\<forall>p. prev = Some p \<longrightarrow> (\<forall>e\<in>set h. se_epoch_id p < se_epoch_id e))"
proof (induction h arbitrary: prev)
  case (Cons e es)
  then have "chain_ok m (Some e) es" by (auto split: if_splits)
  from Cons.IH [OF this] have "sorted_wrt (<) (map se_epoch_id es)" "\<forall>x\<in>set es. se_epoch_id e < se_epoch_id x"
    by auto
  moreover have "se_epoch_id p < se_epoch_id e" if "prev = Some p" for p
    using Cons.prems that by (auto split: if_splits)
  ultimately show ?case by (auto intro: less_trans)
qed simp

section \<open>The halted runtime\<close>

text \<open>Two epochs whose numbers and keys are ordered differently.\<close>

definition misordered ::
    "('db \<Rightarrow> (string, string) omap) \<Rightarrow> (string \<Rightarrow> jvalue option) \<Rightarrow> 'db \<Rightarrow> bool" where
  "misordered view jparse db \<longleftrightarrow>
     (\<exists>a b h g v w. om_get (view db) (epoch_key (eb_epoch_id a)) = Some v \<and> jparse v = Some (epoch_json a h) \<and>
        om_get (view db) (epoch_key (eb_epoch_id b)) = Some w \<and> jparse w = Some (epoch_json b g) \<and>
        eb_epoch_id a < eb_epoch_id b \<and> epoch_key (eb_epoch_id b) < epoch_key (eb_epoch_id a))"

lemma misordered_chain:
  assumes "kv_reliable K view" "misordered view jparse db"
    and "rocks_get_epoch_history K jparse u db = Inr history"
  shows "\<not> validate_replay_chain history m"
proof
  assume ok: "validate_replay_chain history m"
  obtain a b h g v w where ab: "om_get (view db) (epoch_key (eb_epoch_id a)) = Some v" "jparse v = Some (epoch_json a h)"
      "om_get (view db) (epoch_key (eb_epoch_id b)) = Some w" "jparse w = Some (epoch_json b g)"
      "eb_epoch_id a < eb_epoch_id b" "epoch_key (eb_epoch_id b) < epoch_key (eb_epoch_id a)"
    using assms(2) unfolding misordered_def by blast
  obtain p q r where "om_entries (view db) =
      p @ (epoch_key (eb_epoch_id b), w) # q @ (epoch_key (eb_epoch_id a), v) # r"
    using sorted_split [OF om_sorted ab(3,1) [unfolded om_get_entries] ab(6)] by blast
  then have "rocks_get_epoch_history K jparse u db =
      parse_history jparse u (map snd p @ w # map snd q @ v # map snd r)"
    by (simp add: rocks_get_epoch_history_def kv_reliableD(4) [OF assms(1)])
  with assms(3) parse_history_two [OF ab(4,2)] obtain p q r where
    "history = p @ stored_of b # q @ stored_of a # r" by metis
  with ok have "eb_epoch_id b < eb_epoch_id a"
    by (auto simp: validate_replay_chain_def sorted_wrt_append stored_of_def dest!: chain_sorted)
  with ab(5) show False by simp
qed

lemma misordered_run:
  assumes "kv_reliable K view" "misordered view jparse db" "io_replay s = Some db"
  shows "isl (fst (run_epoch L sha oob oobi (rocks_replay K jwrite jparse u) reading b s))"
    and "io_replay (snd (run_epoch L sha oob oobi (rocks_replay K jwrite jparse u) reading b s)) = Some db"
proof -
  have replay: "io_replay (tune s) = Some db" using assms(3) by (simp add: tune_def applyTuning_def)
  have stop: "(check_against_replay (rocks_replay K jwrite jparse u) sha p (Some db) clk b = None) = False" for p clk
    using misordered_chain [OF assms(1,2)]
    by (auto simp: check_against_replay_def rocks_replay_def split: sum.split)
  show "isl (fst (run_epoch L sha oob oobi (rocks_replay K jwrite jparse u) reading b s))"
    "io_replay (snd (run_epoch L sha oob oobi (rocks_replay K jwrite jparse u) reading b s)) = Some db"
    using assms(3) replay by (simp_all add: run_epoch_def Let_def stop split: sum.split option.split)
qed

lemma misordered_step:
  assumes "kv_reliable K view" "misordered view jparse db" "io_replay s = Some db"
    and "\<forall>r. x \<noteq> AttachReplay r"
  shows "io_replay (isla_step L sha oob oobi (rocks_replay K jwrite jparse u) s x) = Some db"
  using assms(3,4) misordered_run(2) [OF assms(1-3)]
  by (cases x) (auto simp: isla_step_def check_heartbeat_drift_def attach_backend_def
      attach_given_backend_def attach_scheduler_def attach_mesh_def Let_def)

lemma misordered_steps:
  assumes "kv_reliable K view" "misordered view jparse db"
  shows "io_replay s = Some db \<Longrightarrow> list_all (\<lambda>x. \<forall>r. x \<noteq> AttachReplay r) ops \<Longrightarrow>
    io_replay (foldl (isla_step L sha oob oobi (rocks_replay K jwrite jparse u)) s ops) = Some db"
  by (induction ops arbitrary: s) (auto simp: misordered_step [OF assms])

lemma recorded_misordered:
  assumes "kv_reliable K view" "rocks_record_epoch K jwrite a ra db0 = Inr db1"
    and "rocks_record_epoch K jwrite b rb db1 = Inr db2"
    and "jparse (jwrite (epoch_json a (ir_metadata_hash ra))) = Some (epoch_json a (ir_metadata_hash ra))"
    and "jparse (jwrite (epoch_json b (ir_metadata_hash rb))) = Some (epoch_json b (ir_metadata_hash rb))"
    and "eb_epoch_id a < eb_epoch_id b" "epoch_key (eb_epoch_id b) < epoch_key (eb_epoch_id a)"
  shows "misordered view jparse db2"
proof -
  have "view db1 = om_put (epoch_key (eb_epoch_id a)) (jwrite (epoch_json a (ir_metadata_hash ra))) (view db0)"
    "view db2 = om_put (epoch_key (eb_epoch_id b)) (jwrite (epoch_json b (ir_metadata_hash rb))) (view db1)"
    using assms(2,3) kv_reliableD(2,3) [OF assms(1)]
    by (auto simp: rocks_record_epoch_def split_beta split: if_splits)
  then have "om_get (view db2) (epoch_key (eb_epoch_id a)) = Some (jwrite (epoch_json a (ir_metadata_hash ra)))"
    "om_get (view db2) (epoch_key (eb_epoch_id b)) = Some (jwrite (epoch_json b (ir_metadata_hash rb)))"
    using assms(7) by auto
  with assms(4-7) show ?thesis unfolding misordered_def by blast
qed

text \<open>
  C37. Over a store that does not fail, recording an epoch and then a later one whose number is
  smaller as a text (9 and 10, 99 and 100) halts the runtime for good: every further \<open>run_epoch\<close>
  throws, whatever the epoch, clock, scheduler, backend or environment, nothing is recorded and
  nothing is removed, until another replay buffer is attached. The history comes in the order of
  the keys \<open>epoch_9\<close>, \<open>epoch_10\<close>, and the chain check rejects it.
\<close>

theorem replay_key_order_halts_runtime:
  assumes "kv_reliable K view" "rocks_record_epoch K jwrite a ra db0 = Inr db1"
    and "rocks_record_epoch K jwrite b rb db1 = Inr db2"
    and "jparse (jwrite (epoch_json a (ir_metadata_hash ra))) = Some (epoch_json a (ir_metadata_hash ra))"
    and "jparse (jwrite (epoch_json b (ir_metadata_hash rb))) = Some (epoch_json b (ir_metadata_hash rb))"
    and "eb_epoch_id a < eb_epoch_id b" "epoch_key (eb_epoch_id b) < epoch_key (eb_epoch_id a)"
    and "io_replay s = Some db2" "list_all (\<lambda>x. \<forall>r. x \<noteq> AttachReplay r) ops"
    and "t = foldl (isla_step L sha oob oobi (rocks_replay K jwrite jparse u)) s ops"
  shows "(\<exists>e. fst (run_epoch L sha oob oobi (rocks_replay K jwrite jparse u) reading c t) = Inl e) \<and>
    io_replay t = Some db2"
proof -
  note m = recorded_misordered [OF assms(1-7)]
  have t: "io_replay t = Some db2" unfolding assms(10) by (rule misordered_steps [OF assms(1) m assms(8,9)])
  with misordered_run(1) [OF assms(1) m t] show ?thesis by (metis isl_def)
qed

text \<open>Epochs 9 and 10, a writer that tells them apart and the reader that knows both texts.\<close>

definition demo_numbered :: "u64 \<Rightarrow> epoch_bundle" where
  "demo_numbered i = demo_epoch\<lparr>eb_epoch_id := i\<rparr>"

definition demo_result :: isla_epoch_result where
  "demo_result =
     \<lparr>ir_zk_result = orchestrate_epoch fold_sha \<lparr>oc_epoch_id = 9, oc_anchor_plan = eb_anchor_plan demo_epoch,
        oc_proof_plan = eb_proof_plan demo_epoch\<rparr> None (io_active_config (new_isla ci_env :: unit isla_state))
        None None [],
      ir_anchor_tx = [], ir_validation = Some (True, []), ir_metadata_hash = replicate 32 0,
      ir_guidance_report = \<lparr>gr_long_term_stability_score = Fin 1, gr_drift_accumulation_forecast = Fin 0,
        gr_predicted_energy_trend = Fin 0, gr_anchor_chain_risk = Fin 0,
        gr_temporal_leakage_projection = Fin 0, gr_recommended_scheduling_mode = [],
        gr_recommended_replication_mode = [], gr_recommended_backoff_strategy = []\<rparr>\<rparr>"

definition demo_json :: "u64 \<Rightarrow> jvalue" where
  "demo_json i = epoch_json (demo_numbered i) (ir_metadata_hash demo_result)"

definition demo_write :: "jvalue \<Rightarrow> string" where
  "demo_write v = (if v = demo_json 9 then ''nine'' else ''ten'')"

definition demo_parse :: "string \<Rightarrow> jvalue option" where
  "demo_parse t = (if t = ''nine'' then Some (demo_json 9) else if t = ''ten'' then Some (demo_json 10) else None)"

definition demo_db :: "(string, string) omap" where
  "demo_db = om_put (epoch_key 10) ''ten'' (om_put (epoch_key 9) ''nine'' om_empty)"

lemma demo_keys_order: "epoch_key 10 < epoch_key 9"
  by (simp add: epoch_key_def to_dec.simps digit_char_def less_char_def)

lemma demo_json_apart: "demo_json 10 \<noteq> demo_json 9"
  by (simp add: demo_json_def epoch_json_def demo_numbered_def)

theorem replay_key_order_halts_runtime_witness:
  "\<exists>e. fst (run_epoch padded_lib fold_sha (\<lambda>_. 0) (\<lambda>_. 0)
     (rocks_replay mem_kv demo_write demo_parse (stored_of demo_epoch)) None (demo_numbered 11)
     ((new_isla ci_env)\<lparr>io_replay := Some demo_db\<rparr>)) = Inl e"
proof -
  have one: "rocks_record_epoch mem_kv demo_write (demo_numbered 9) demo_result om_empty =
      Inr (om_put (epoch_key 9) ''nine'' om_empty)"
    by (simp add: rocks_record_epoch_def mem_kv_def demo_write_def demo_json_def demo_numbered_def)
  have two: "rocks_record_epoch mem_kv demo_write (demo_numbered 10) demo_result
      (om_put (epoch_key 9) ''nine'' om_empty) = Inr demo_db"
    using demo_json_apart
    by (simp add: rocks_record_epoch_def mem_kv_def demo_write_def demo_db_def flip: demo_json_def)
      (simp add: demo_numbered_def)
  have parse: "demo_parse (demo_write (epoch_json (demo_numbered 9) (ir_metadata_hash demo_result))) =
      Some (epoch_json (demo_numbered 9) (ir_metadata_hash demo_result))"
    "demo_parse (demo_write (epoch_json (demo_numbered 10) (ir_metadata_hash demo_result))) =
      Some (epoch_json (demo_numbered 10) (ir_metadata_hash demo_result))"
    using demo_json_apart by (simp_all add: demo_write_def demo_parse_def flip: demo_json_def)
  have ids: "eb_epoch_id (demo_numbered 9) < eb_epoch_id (demo_numbered 10)"
    "epoch_key (eb_epoch_id (demo_numbered 10)) < epoch_key (eb_epoch_id (demo_numbered 9))"
    using demo_keys_order by (simp_all add: demo_numbered_def)
  from replay_key_order_halts_runtime [OF mem_kv_reliable one two parse ids, where ops = "[]" and
      s = "(new_isla ci_env)\<lparr>io_replay := Some demo_db\<rparr>" and
      t = "(new_isla ci_env)\<lparr>io_replay := Some demo_db\<rparr>" and L = padded_lib and sha = fold_sha and
      oob = "\<lambda>_. 0" and oobi = "\<lambda>_. 0" and u = "stored_of demo_epoch" and reading = None and c = "demo_numbered 11"]
  show ?thesis by simp
qed

end
