(* ===== verification/Json_Bindings.thy ===== *)
theory Json_Bindings
  imports Json
begin

text \<open>
  The JSON form of exported views, ticks and snapshots: \<open>include/l6/ExternalSchema.h\<close> and
  \<open>src/l6/JsonBindings.cpp\<close>, printers and a hand-written parser for each type. The parser's
  cursor is the unread rest of the text (reading behind the end gives the terminating zero); the
  positions in its messages are left out. Its loops have fuel, one unit for each character. \<open>oob\<close>
  is the cast of a \<open>double\<close> outside \<open>int64_t\<close>; members no key sets keep what the caller's \<open>u\<close> holds,
  strings and lists being empty.
\<close>

section \<open>Schema\<close>

record ext_envelope =
  xe_id :: u64
  xe_timestamp :: u64
  xe_payload_hash :: string
  xe_type :: string
  xe_status :: string

record ext_clock =
  xk_height :: u64
  xk_consensus_time :: double
  xk_interval_seconds :: double

record ext_event =
  xr_type :: u8
  xr_height :: u64
  xr_block_hash :: string
  xr_txid :: string

record ext_view =
  xv_node_count :: u64
  xv_coherence :: double
  xv_envelopes :: "ext_envelope list"
  xv_clock :: ext_clock
  xv_replay_events :: "ext_event list"

record ext_tick =
  xt_tick_index :: u64
  xt_cluster_view :: ext_view
  xt_scheduler_state_hash :: string
  xt_telemetry_json :: string
  xt_replay_phase :: string
  xt_replay_mode_state :: string

record ext_session =
  xs_session_id :: string
  xs_status :: string

record ext_queue =
  xq_pending_count :: u64
  xq_queue_id :: string

record ext_snapshot =
  xn_active_sessions :: "ext_session list"
  xn_broadcast_queues :: "ext_queue list"
  xn_current_tick_index :: u64
  xn_global_tick_count :: u64
  xn_replay_active :: bool
  xn_subsystem_tick_count :: u64
  xn_total_ticks :: u64

section \<open>Printing\<close>

text \<open>
  \<open>format_double_stable\<close>: two digits after the point by integer arithmetic. The negation of the
  smallest integer wraps; division and remainder truncate.
\<close>

definition quot :: "int \<Rightarrow> int" where
  "quot n = sgn n * (\<bar>n\<bar> div 100)"

definition format_double_stable :: "(double \<Rightarrow> int) \<Rightarrow> double \<Rightarrow> string" where
  "format_double_stable oob val =
     (let scaled = cast_i64 oob (d_add (d_mul val (Fin 100)) (if d_le (Fin 0) val then Fin (1/2) else Fin (- (1/2))));
          neg = scaled < 0;
          n = (if neg \<and> scaled \<noteq> - (2 ^ 63) then - scaled else scaled);
          frac = to_dec_int (n - 100 * quot n);
          frac = (if length frac = 1 then CHR ''0'' # frac else frac)
      in (if neg then ''-'' else []) @ to_dec_int (quot n) @ ''.'' @ frac)"

fun hex4 :: "nat \<Rightarrow> string" where
  "hex4 n = ''00'' @ hex_byte (of_nat n)"

definition escape_byte :: "char \<Rightarrow> string" where
  "escape_byte c =
     (if c = CHR 0x22 then [CHR 0x5C, CHR 0x22]
      else if c = CHR 0x5C then [CHR 0x5C, CHR 0x5C]
      else if c = CHR 0x08 then [CHR 0x5C, CHR ''b'']
      else if c = CHR 0x0C then [CHR 0x5C, CHR ''f'']
      else if c = CHR 0x0A then [CHR 0x5C, CHR ''n'']
      else if c = CHR 0x0D then [CHR 0x5C, CHR ''r'']
      else if c = CHR 0x09 then [CHR 0x5C, CHR ''t'']
      else if of_char c \<le> (0x1f :: nat) then [CHR 0x5C, CHR ''u''] @ hex4 (of_char c)
      else [c])"

definition escape_string :: "string \<Rightarrow> string" where
  "escape_string s = concat (map escape_byte s)"

abbreviation dq :: string where
  "dq \<equiv> [CHR 0x22]"

definition key_text :: "string \<Rightarrow> string" where
  "key_text k = dq @ k @ dq @ '':''"

definition number_field :: "string \<Rightarrow> u64 \<Rightarrow> string" where
  "number_field k w = key_text k @ to_dec (unat w)"

definition string_field :: "string \<Rightarrow> string \<Rightarrow> string" where
  "string_field k s = key_text k @ dq @ escape_string s @ dq"

definition double_field :: "(double \<Rightarrow> int) \<Rightarrow> string \<Rightarrow> double \<Rightarrow> string" where
  "double_field oob k d = key_text k @ format_double_stable oob d"

definition braced :: "string list \<Rightarrow> string" where
  "braced ms = ''{'' @ commas ms @ ''}''"

definition list_field :: "string \<Rightarrow> string list \<Rightarrow> string" where
  "list_field k xs = key_text k @ ''['' @ commas xs @ '']''"

definition envelope_json :: "ext_envelope \<Rightarrow> string" where
  "envelope_json e = braced
     [number_field ''id'' (xe_id e), string_field ''payload_hash'' (xe_payload_hash e),
      string_field ''status'' (xe_status e), number_field ''timestamp'' (xe_timestamp e),
      string_field ''type'' (xe_type e)]"

definition clock_json :: "(double \<Rightarrow> int) \<Rightarrow> ext_clock \<Rightarrow> string" where
  "clock_json oob c = braced
     [double_field oob ''consensus_time'' (xk_consensus_time c), number_field ''height'' (xk_height c),
      double_field oob ''interval_seconds'' (xk_interval_seconds c)]"

definition event_json :: "ext_event \<Rightarrow> string" where
  "event_json e = braced
     [string_field ''block_hash'' (xr_block_hash e), number_field ''height'' (xr_height e),
      string_field ''txid'' (xr_txid e), number_field ''type'' (ucast (xr_type e))]"

definition view_json :: "(double \<Rightarrow> int) \<Rightarrow> ext_view \<Rightarrow> string" where
  "view_json oob v = braced
     [key_text ''clock'' @ clock_json oob (xv_clock v), double_field oob ''coherence'' (xv_coherence v),
      list_field ''envelopes'' (map envelope_json (xv_envelopes v)),
      number_field ''node_count'' (xv_node_count v),
      list_field ''replay_events'' (map event_json (xv_replay_events v))]"

definition tick_json :: "(double \<Rightarrow> int) \<Rightarrow> ext_tick \<Rightarrow> string" where
  "tick_json oob t = braced
     [key_text ''cluster_view'' @ view_json oob (xt_cluster_view t),
      string_field ''replay_mode_state'' (xt_replay_mode_state t),
      string_field ''replay_phase'' (xt_replay_phase t),
      string_field ''scheduler_state_hash'' (xt_scheduler_state_hash t),
      string_field ''telemetry_json'' (xt_telemetry_json t),
      number_field ''tick_index'' (xt_tick_index t)]"

definition session_json :: "ext_session \<Rightarrow> string" where
  "session_json s = braced
     [string_field ''session_id'' (xs_session_id s), string_field ''status'' (xs_status s)]"

definition queue_json :: "ext_queue \<Rightarrow> string" where
  "queue_json q = braced
     [number_field ''pending_count'' (xq_pending_count q), string_field ''queue_id'' (xq_queue_id q)]"

definition snapshot_json :: "ext_snapshot \<Rightarrow> string" where
  "snapshot_json s = braced
     [list_field ''active_sessions'' (map session_json (xn_active_sessions s)),
      list_field ''broadcast_queues'' (map queue_json (xn_broadcast_queues s)),
      number_field ''current_tick_index'' (xn_current_tick_index s),
      number_field ''global_tick_count'' (xn_global_tick_count s),
      key_text ''replay_active'' @ (if xn_replay_active s then ''true'' else ''false''),
      number_field ''subsystem_tick_count'' (xn_subsystem_tick_count s),
      number_field ''total_ticks'' (xn_total_ticks s)]"

section \<open>Reading\<close>

datatype binding_error = Runtime_error string | Std_error stod_error | No_fuel

definition is_blank :: "char \<Rightarrow> bool" where
  "is_blank c \<longleftrightarrow> c = CHR '' '' \<or> c = CHR 0x0A \<or> c = CHR 0x0D \<or> c = CHR 0x09"

definition skip_whitespace :: "string \<Rightarrow> string" where
  "skip_whitespace s = dropWhile is_blank s"

text \<open>\<open>json[pos]\<close>.\<close>

definition here :: "string \<Rightarrow> char" where
  "here s = (case s of [] \<Rightarrow> CHR 0x00 | c # _ \<Rightarrow> c)"

abbreviation sq :: "char \<Rightarrow> string" where
  "sq c \<equiv> [CHR 0x27, c, CHR 0x27]"

definition expect_char :: "char \<Rightarrow> string \<Rightarrow> binding_error + string" where
  "expect_char e s = (case skip_whitespace s of
       c # cs \<Rightarrow> if c = e then Inr cs else Inl (Runtime_error (''Expected '' @ sq e @ '' at pos ''))
     | [] \<Rightarrow> Inl (Runtime_error (''Expected '' @ sq e @ '' at pos '')))"

definition unescape_byte :: "char \<Rightarrow> char option" where
  "unescape_byte c =
     (if c = CHR 0x22 \<or> c = CHR 0x5C then Some c
      else if c = CHR ''b'' then Some (CHR 0x08)
      else if c = CHR ''f'' then Some (CHR 0x0C)
      else if c = CHR ''n'' then Some (CHR 0x0A)
      else if c = CHR ''r'' then Some (CHR 0x0D)
      else if c = CHR ''t'' then Some (CHR 0x09)
      else None)"

function quoted :: "string \<Rightarrow> string \<Rightarrow> binding_error + string \<times> string" where
  "quoted acc s =
     (case s of
        [] \<Rightarrow> Inr (acc, [])
      | c # cs \<Rightarrow>
          if c = CHR 0x22 then Inr (acc, s)
          else if c = CHR 0x5C then
            (case cs of
               [] \<Rightarrow> Inl (Runtime_error ''Unexpected end of string escape'')
             | e # r \<Rightarrow>
                 (case unescape_byte e of
                    Some x \<Rightarrow> quoted (acc @ [x]) r
                  | None \<Rightarrow>
                      if e = CHR ''u'' then
                        (if length r < 4 then Inl (Runtime_error ''Invalid unicode escape'')
                         else quoted (acc @ ''?'') (drop 4 r))
                      else Inl (Runtime_error ''Invalid escape char'')))
          else quoted (acc @ [c]) cs)"
  by pat_completeness auto

termination
  by (relation "measure (length \<circ> snd)") auto

declare quoted.simps [simp del]

definition parse_quoted :: "string \<Rightarrow> binding_error + string \<times> string" where
  "parse_quoted s =
     bindE (expect_char (CHR 0x22) s) (\<lambda>s1.
     bindE (quoted [] s1) (\<lambda>(out, s2).
     bindE (expect_char (CHR 0x22) s2) (\<lambda>s3. Inr (out, s3))))"

definition parse_uint :: "string \<Rightarrow> binding_error + u64 \<times> string" where
  "parse_uint s =
     (let s1 = skip_whitespace s; ds = takeWhile is_digit s1 in
      if ds = [] then Inl (Runtime_error ''Expected number'')
      else if dec_value ds < 2 ^ 64 then Inr (of_nat (dec_value ds), dropWhile is_digit s1)
      else Inl (Std_error Out_of_range))"

definition parse_double :: "string \<Rightarrow> binding_error + double \<times> string" where
  "parse_double s =
     (let s1 = skip_whitespace s;
          sign = takeWhile (\<lambda>c. c = CHR ''-'') (take 1 s1);
          body = takeWhile (\<lambda>c. is_digit c \<or> c = CHR ''.'') (drop (length sign) s1)
      in if sign @ body = [] then Inl (Runtime_error ''Expected double'')
         else case stod (sign @ body) of
                Inl e \<Rightarrow> Inl (Std_error e)
              | Inr d \<Rightarrow> Inr (d, drop (length (sign @ body)) s1))"

definition parse_key :: "string \<Rightarrow> binding_error + string \<times> string" where
  "parse_key s =
     bindE (parse_quoted s) (\<lambda>(key, s1). bindE (expect_char (CHR '':'') s1) (\<lambda>s2. Inr (key, s2)))"

text \<open>The loop over the members of an object; \<open>f\<close> reads the value of a key into the record.\<close>

fun members_loop ::
    "nat \<Rightarrow> (string \<Rightarrow> 'a \<Rightarrow> string \<Rightarrow> binding_error + 'a \<times> string) \<Rightarrow> 'a \<Rightarrow> string \<Rightarrow> binding_error + 'a" where
  "members_loop 0 f x s = Inl No_fuel"
| "members_loop (Suc n) f x s =
     (if s = [] then Inr x
      else let s1 = skip_whitespace s in
      if here s1 = CHR ''}'' then Inr x
      else bindE (parse_key s1) (\<lambda>(key, s2).
           bindE (f key x s2) (\<lambda>(y, s3).
             let s4 = skip_whitespace s3 in
             if here s4 = CHR '','' then members_loop n f y (tl s4)
             else if here s4 \<noteq> CHR ''}'' then Inl (Runtime_error (''Expected '' @ sq (CHR '','') @ '' or '' @ sq (CHR ''}'')))
             else members_loop n f y s4)))"

definition object_reader ::
    "(string \<Rightarrow> 'a \<Rightarrow> string \<Rightarrow> binding_error + 'a \<times> string) \<Rightarrow> 'a \<Rightarrow> string \<Rightarrow> binding_error + 'a" where
  "object_reader f u json =
     bindE (expect_char (CHR ''{'') json) (\<lambda>s. members_loop (Suc (length s)) f u s)"

text \<open>The text of a nested object, by counting braces, wherever they stand.\<close>

fun braces :: "int \<Rightarrow> string \<Rightarrow> string \<times> string" where
  "braces d [] = ([], [])"
| "braces d (c # cs) =
     (let d1 = (if c = CHR ''{'' then d + 1 else if c = CHR ''}'' then d - 1 else d) in
      if d1 = 0 then ([c], cs) else (let (a, r) = braces d1 cs in (c # a, r)))"

definition nested :: "(string \<Rightarrow> binding_error + 'b) \<Rightarrow> string \<Rightarrow> binding_error + 'b \<times> string" where
  "nested rd s =
     (let (obj, r) = braces 0 (skip_whitespace s) in bindE (rd obj) (\<lambda>v. Inr (v, r)))"

fun array_loop ::
    "nat \<Rightarrow> string \<Rightarrow> (string \<Rightarrow> binding_error + 'b) \<Rightarrow> 'b list \<Rightarrow> string \<Rightarrow> binding_error + 'b list \<times> string" where
  "array_loop 0 what rd xs s = Inl No_fuel"
| "array_loop (Suc n) what rd xs s =
     (if s = [] then Inr (xs, [])
      else let s1 = skip_whitespace s in
      if here s1 = CHR '']'' then Inr (xs, tl s1)
      else bindE (nested rd s1) (\<lambda>(v, s2).
             let s3 = skip_whitespace s2 in
             if here s3 = CHR '','' then array_loop n what rd (xs @ [v]) (tl s3)
             else if here s3 \<noteq> CHR '']'' then Inl (Runtime_error (''Expected '' @ sq (CHR '','') @ '' or '' @ sq (CHR '']'') @ '' in '' @ what))
             else array_loop n what rd (xs @ [v]) s3))"

definition parse_array ::
    "string \<Rightarrow> (string \<Rightarrow> binding_error + 'b) \<Rightarrow> 'b list \<Rightarrow> string \<Rightarrow> binding_error + 'b list \<times> string" where
  "parse_array what rd xs s =
     bindE (expect_char (CHR ''['') s) (\<lambda>s1. array_loop (Suc (length s1)) what rd xs s1)"

text \<open>Storing a value that was read.\<close>

definition into :: "('v \<Rightarrow> 'a) \<Rightarrow> binding_error + 'v \<times> string \<Rightarrow> binding_error + 'a \<times> string" where
  "into put r = bindE r (\<lambda>(v, s). Inr (put v, s))"

definition unknown_key :: "string \<Rightarrow> string \<Rightarrow> binding_error + 'a" where
  "unknown_key what key = Inl (Runtime_error (''Unknown key in '' @ what @ '': '' @ key))"

definition envelope_member :: "string \<Rightarrow> ext_envelope \<Rightarrow> string \<Rightarrow> binding_error + ext_envelope \<times> string" where
  "envelope_member key e s =
     (if key = ''id'' then into (\<lambda>v. e\<lparr>xe_id := v\<rparr>) (parse_uint s)
      else if key = ''payload_hash'' then into (\<lambda>v. e\<lparr>xe_payload_hash := v\<rparr>) (parse_quoted s)
      else if key = ''status'' then into (\<lambda>v. e\<lparr>xe_status := v\<rparr>) (parse_quoted s)
      else if key = ''timestamp'' then into (\<lambda>v. e\<lparr>xe_timestamp := v\<rparr>) (parse_uint s)
      else if key = ''type'' then into (\<lambda>v. e\<lparr>xe_type := v\<rparr>) (parse_quoted s)
      else unknown_key ''envelope'' key)"

definition from_json_envelope :: "ext_envelope \<Rightarrow> string \<Rightarrow> binding_error + ext_envelope" where
  "from_json_envelope u =
     object_reader envelope_member (u\<lparr>xe_payload_hash := [], xe_type := [], xe_status := []\<rparr>)"

definition clock_member :: "string \<Rightarrow> ext_clock \<Rightarrow> string \<Rightarrow> binding_error + ext_clock \<times> string" where
  "clock_member key c s =
     (if key = ''consensus_time'' then into (\<lambda>v. c\<lparr>xk_consensus_time := v\<rparr>) (parse_double s)
      else if key = ''height'' then into (\<lambda>v. c\<lparr>xk_height := v\<rparr>) (parse_uint s)
      else if key = ''interval_seconds'' then into (\<lambda>v. c\<lparr>xk_interval_seconds := v\<rparr>) (parse_double s)
      else unknown_key ''clock state'' key)"

definition from_json_clock :: "ext_clock \<Rightarrow> string \<Rightarrow> binding_error + ext_clock" where
  "from_json_clock u = object_reader clock_member u"

definition event_member :: "string \<Rightarrow> ext_event \<Rightarrow> string \<Rightarrow> binding_error + ext_event \<times> string" where
  "event_member key e s =
     (if key = ''block_hash'' then into (\<lambda>v. e\<lparr>xr_block_hash := v\<rparr>) (parse_quoted s)
      else if key = ''height'' then into (\<lambda>v. e\<lparr>xr_height := v\<rparr>) (parse_uint s)
      else if key = ''txid'' then into (\<lambda>v. e\<lparr>xr_txid := v\<rparr>) (parse_quoted s)
      else if key = ''type'' then into (\<lambda>v. e\<lparr>xr_type := ucast v\<rparr>) (parse_uint s)
      else unknown_key ''replay event'' key)"

definition from_json_replay_event :: "ext_event \<Rightarrow> string \<Rightarrow> binding_error + ext_event" where
  "from_json_replay_event u = object_reader event_member (u\<lparr>xr_block_hash := [], xr_txid := []\<rparr>)"

text \<open>What an uninitialised view, tick or snapshot holds, nested objects included.\<close>

record uninit_ext =
  un_envelope :: ext_envelope
  un_event :: ext_event
  un_view :: ext_view
  un_queue :: ext_queue

definition view_member ::
    "uninit_ext \<Rightarrow> string \<Rightarrow> ext_view \<Rightarrow> string \<Rightarrow> binding_error + ext_view \<times> string" where
  "view_member u key v s =
     (if key = ''coherence'' then into (\<lambda>d. v\<lparr>xv_coherence := d\<rparr>) (parse_double s)
      else if key = ''node_count'' then into (\<lambda>n. v\<lparr>xv_node_count := n\<rparr>) (parse_uint s)
      else if key = ''clock'' then
        into (\<lambda>c. v\<lparr>xv_clock := c\<rparr>) (nested (from_json_clock (xv_clock (un_view u))) s)
      else if key = ''envelopes'' then
        into (\<lambda>es. v\<lparr>xv_envelopes := es\<rparr>)
          (parse_array ''envelopes array'' (from_json_envelope (un_envelope u)) (xv_envelopes v) s)
      else if key = ''replay_events'' then
        into (\<lambda>es. v\<lparr>xv_replay_events := es\<rparr>)
          (parse_array ''replay_events array'' (from_json_replay_event (un_event u)) (xv_replay_events v) s)
      else unknown_key ''cluster view'' key)"

definition from_json_view :: "uninit_ext \<Rightarrow> string \<Rightarrow> binding_error + ext_view" where
  "from_json_view u =
     object_reader (view_member u) ((un_view u)\<lparr>xv_envelopes := [], xv_replay_events := []\<rparr>)"

definition tick_member ::
    "uninit_ext \<Rightarrow> string \<Rightarrow> ext_tick \<Rightarrow> string \<Rightarrow> binding_error + ext_tick \<times> string" where
  "tick_member u key t s =
     (if key = ''tick_index'' then into (\<lambda>v. t\<lparr>xt_tick_index := v\<rparr>) (parse_uint s)
      else if key = ''scheduler_state_hash'' then into (\<lambda>v. t\<lparr>xt_scheduler_state_hash := v\<rparr>) (parse_quoted s)
      else if key = ''telemetry_json'' then into (\<lambda>v. t\<lparr>xt_telemetry_json := v\<rparr>) (parse_quoted s)
      else if key = ''replay_phase'' then into (\<lambda>v. t\<lparr>xt_replay_phase := v\<rparr>) (parse_quoted s)
      else if key = ''replay_mode_state'' then into (\<lambda>v. t\<lparr>xt_replay_mode_state := v\<rparr>) (parse_quoted s)
      else if key = ''cluster_view'' then
        into (\<lambda>v. t\<lparr>xt_cluster_view := v\<rparr>) (nested (from_json_view u) s)
      else unknown_key ''replay tick'' key)"

definition from_json_tick :: "uninit_ext \<Rightarrow> u64 \<Rightarrow> string \<Rightarrow> binding_error + ext_tick" where
  "from_json_tick u i =
     object_reader (tick_member u)
       \<lparr>xt_tick_index = i,
        xt_cluster_view = (un_view u)\<lparr>xv_envelopes := [], xv_replay_events := []\<rparr>,
        xt_scheduler_state_hash = [], xt_telemetry_json = [], xt_replay_phase = [],
        xt_replay_mode_state = []\<rparr>"

definition session_member :: "string \<Rightarrow> ext_session \<Rightarrow> string \<Rightarrow> binding_error + ext_session \<times> string" where
  "session_member key x s =
     (if key = ''session_id'' then into (\<lambda>v. x\<lparr>xs_session_id := v\<rparr>) (parse_quoted s)
      else if key = ''status'' then into (\<lambda>v. x\<lparr>xs_status := v\<rparr>) (parse_quoted s)
      else unknown_key ''active session'' key)"

definition from_json_active_session :: "string \<Rightarrow> binding_error + ext_session" where
  "from_json_active_session = object_reader session_member \<lparr>xs_session_id = [], xs_status = []\<rparr>"

definition queue_member :: "string \<Rightarrow> ext_queue \<Rightarrow> string \<Rightarrow> binding_error + ext_queue \<times> string" where
  "queue_member key q s =
     (if key = ''pending_count'' then into (\<lambda>v. q\<lparr>xq_pending_count := v\<rparr>) (parse_uint s)
      else if key = ''queue_id'' then into (\<lambda>v. q\<lparr>xq_queue_id := v\<rparr>) (parse_quoted s)
      else unknown_key ''broadcast queue'' key)"

definition from_json_broadcast_queue :: "ext_queue \<Rightarrow> string \<Rightarrow> binding_error + ext_queue" where
  "from_json_broadcast_queue u = object_reader queue_member (u\<lparr>xq_queue_id := []\<rparr>)"

definition parse_flag :: "string \<Rightarrow> binding_error + bool \<times> string" where
  "parse_flag s =
     (let s1 = skip_whitespace s in
      if take 4 s1 = ''true'' then Inr (True, drop 4 s1)
      else if take 5 s1 = ''false'' then Inr (False, drop 5 s1)
      else Inl (Runtime_error ''Expected boolean''))"

definition snapshot_member ::
    "uninit_ext \<Rightarrow> string \<Rightarrow> ext_snapshot \<Rightarrow> string \<Rightarrow> binding_error + ext_snapshot \<times> string" where
  "snapshot_member u key x s =
     (if key = ''current_tick_index'' then into (\<lambda>v. x\<lparr>xn_current_tick_index := v\<rparr>) (parse_uint s)
      else if key = ''global_tick_count'' then into (\<lambda>v. x\<lparr>xn_global_tick_count := v\<rparr>) (parse_uint s)
      else if key = ''subsystem_tick_count'' then into (\<lambda>v. x\<lparr>xn_subsystem_tick_count := v\<rparr>) (parse_uint s)
      else if key = ''total_ticks'' then into (\<lambda>v. x\<lparr>xn_total_ticks := v\<rparr>) (parse_uint s)
      else if key = ''replay_active'' then into (\<lambda>v. x\<lparr>xn_replay_active := v\<rparr>) (parse_flag s)
      else if key = ''active_sessions'' then
        into (\<lambda>v. x\<lparr>xn_active_sessions := v\<rparr>)
          (parse_array ''active_sessions'' from_json_active_session (xn_active_sessions x) s)
      else if key = ''broadcast_queues'' then
        into (\<lambda>v. x\<lparr>xn_broadcast_queues := v\<rparr>)
          (parse_array ''broadcast_queues'' (from_json_broadcast_queue (un_queue u)) (xn_broadcast_queues x) s)
      else unknown_key ''state snapshot'' key)"

definition from_json_state_snapshot ::
    "uninit_ext \<Rightarrow> ext_snapshot \<Rightarrow> string \<Rightarrow> binding_error + ext_snapshot" where
  "from_json_state_snapshot u x =
     object_reader (snapshot_member u) (x\<lparr>xn_active_sessions := [], xn_broadcast_queues := []\<rparr>)"

end
