(* ===== verification/Json_Bindings_Props.thy ===== *)
theory Json_Bindings_Props
  imports Json_Bindings
begin

text \<open>
  Exported ticks and snapshots are read back as they were, when every \<open>double\<close> in them is the one
  nearest to a hundredth, their strings have only the control characters that have a short escape,
  and the strings inside nested objects have no braces, which the reader counts.
\<close>

section \<open>Doubles\<close>

definition cents :: "int \<Rightarrow> double" where
  "cents n = round_double (of_int n / 100)"

lemma round_double_odd:
  assumes "round_double x = Fin v" "0 < x" "0 < v"
  shows "round_double (- x) = Fin (- v)"
  using assms by (auto simp: round_double_def Let_def split: if_splits)

lemma normal_pow: "1 / 100 \<le> x \<Longrightarrow> pow2 (- 1022) \<le> x"
proof -
  have "pow2 (- 1022) \<le> 1 / 100" by (simp add: pow2_def)
  then show "1 / 100 \<le> x \<Longrightarrow> pow2 (- 1022) \<le> x" by linarith
qed

lemma big_pow: "x \<le> 10 ^ 15 \<Longrightarrow> x \<le> (2 ^ 1023 :: rat)"
proof -
  have "10 ^ 15 \<le> (2 ^ 1023 :: rat)" by simp
  then show "x \<le> 10 ^ 15 \<Longrightarrow> x \<le> (2 ^ 1023 :: rat)" by linarith
qed

lemma ordinary_near:
  assumes "1 / 100 \<le> x" "x \<le> 10 ^ 15"
  obtains v where "round_double x = Fin v" "v - x \<le> x / 2 ^ 53" "x - v \<le> x / 2 ^ 53" "0 < v"
proof -
  obtain v where v: "round_double x = Fin v" "\<bar>v - x\<bar> \<le> x / 2 ^ 53" "0 < v"
    using round_double_near [OF normal_pow [OF assms(1)] big_pow [OF assms(2)]] .
  with abs_le_D1 [OF v(2)] abs_le_D2 [OF v(2)] that show thesis by simp
qed

lemma scaled_cents:
  assumes "\<bar>n\<bar> \<le> 10 ^ 12"
  shows "cast_i64 oob (d_add (d_mul (cents n) (Fin 100)) (if d_le (Fin 0) (cents n) then Fin (1/2) else Fin (- (1/2)))) = n"
proof (cases "n = 0")
  case True
  have h: "1 / 100 \<le> (1 / 2 :: rat)" "1 / 2 \<le> (10 ^ 15 :: rat)" by simp_all
  obtain v :: rat where v: "round_double (1 / 2) = Fin v" "v - 1 / 2 \<le> 1 / 2 / 2 ^ 53" "0 < v"
    using ordinary_near [OF h] .
  have "0 \<le> v \<and> v < 1" using v(2,3) by simp
  have c: "cents n = Fin 0" by (simp add: cents_def round_double_def True)
  have m: "d_mul (Fin 0) (Fin 100) = Fin 0" by (simp add: d_mul_def)
  have a: "d_add (Fin 0) (Fin (1 / 2)) = Fin v" using v(1) by (simp add: d_add_def)
  have "\<lfloor>v\<rfloor> = 0" using \<open>0 \<le> v \<and> v < 1\<close> by (simp add: floor_eq_iff)
  with \<open>0 \<le> v \<and> v < 1\<close> show ?thesis by (simp add: c [unfolded True] m a cast_i64_def d_trunc_def True)
next
  case False
  define m :: rat where "m = of_int \<bar>n\<bar>"
  have m: "1 \<le> m" "m \<le> 10 ^ 12" using False assms by (auto simp: m_def)
  have h: "1 / 100 \<le> m / 100" "m / 100 \<le> 10 ^ 15" using m by simp_all
  obtain v where v: "round_double (m / 100) = Fin v" "v - m / 100 \<le> m / 100 / 2 ^ 53" "m / 100 - v \<le> m / 100 / 2 ^ 53" "0 < v"
    using ordinary_near [OF h] .
  have v2: "1 / 100 \<le> v * 100" "v * 100 \<le> 10 ^ 15" using v(2,3) m by simp_all
  obtain w where w: "round_double (v * 100) = Fin w" "w - v * 100 \<le> v * 100 / 2 ^ 53" "v * 100 - w \<le> v * 100 / 2 ^ 53" "0 < w"
    using ordinary_near [OF v2] .
  have w2: "1 / 100 \<le> w + 1 / 2" "w + 1 / 2 \<le> 10 ^ 15" using v(2,3) w(2-4) m by simp_all
  obtain z where z: "round_double (w + 1 / 2) = Fin z" "z - (w + 1 / 2) \<le> (w + 1 / 2) / 2 ^ 53" "w + 1 / 2 - z \<le> (w + 1 / 2) / 2 ^ 53" "0 < z"
    using ordinary_near [OF w2] .
  have near: "m \<le> z" "z < m + 1" using m v(2,3) w(2,3) z(2,3) by simp_all
  then have fl: "\<lfloor>z\<rfloor> = \<bar>n\<bar>" by (simp add: m_def floor_eq_iff)
  have range: "z < 2 ^ 63" using near m by simp
  show ?thesis
  proof (cases "0 < n")
    case True
    then have n: "\<bar>n\<bar> = n" by simp
    have "cents n = Fin v" using v(1) by (simp add: cents_def m_def n)
    then show ?thesis
      using w(1,4) z(1,4) range fl v(4) by (simp add: d_mul_def d_add_def cast_i64_def d_trunc_def n)
  next
    case neg: False
    then have n: "n = - \<bar>n\<bar>" by simp
    have "of_int n / 100 = - (m / 100)" using n by (simp add: m_def)
    then have "cents n = Fin (- v)" using round_double_odd [OF v(1)] v(4) m by (simp add: cents_def)
    moreover have "round_double (- (v * 100)) = Fin (- w)"
      using round_double_odd [OF w(1) _ w(4)] v(4) by simp
    moreover have "round_double (- (w + 1 / 2)) = Fin (- z)"
      using round_double_odd [OF z(1) _ z(4)] w(4) by simp
    moreover have "\<lceil>- z\<rceil> = n" using fl n by (simp add: ceiling_def)
    ultimately show ?thesis
      using v(4) w(4) z(4) range by (simp add: d_mul_def d_add_def cast_i64_def d_trunc_def)
  qed
qed

definition two_digits :: "nat \<Rightarrow> string" where
  "two_digits k = (let t = to_dec k in if length t = 1 then CHR ''0'' # t else t)"

definition plain_text :: "nat \<Rightarrow> string" where
  "plain_text k = to_dec (k div 100) @ CHR ''.'' # two_digits (k mod 100)"

lemma format_cents:
  assumes "\<bar>n\<bar> \<le> 10 ^ 12"
  shows "format_double_stable oob (cents n) = (if n < 0 then ''-'' else []) @ plain_text (nat \<bar>n\<bar>)"
proof -
  have low: "n \<noteq> - (2 ^ 63)" using assms by auto
  have parts: "quot \<bar>n\<bar> = \<bar>n\<bar> div 100" "\<bar>n\<bar> - 100 * (\<bar>n\<bar> div 100) = \<bar>n\<bar> mod 100"
    by (auto simp: quot_def sgn_if minus_mult_div_eq_mod)
  have abs: "(if n < 0 \<and> n \<noteq> - (2 ^ 63) then - n else n) = \<bar>n\<bar>" using low by auto
  have dec: "to_dec_int (\<bar>n\<bar> div 100) = to_dec (nat \<bar>n\<bar> div 100)"
      "to_dec_int (\<bar>n\<bar> mod 100) = to_dec (nat \<bar>n\<bar> mod 100)"
    by (simp_all add: to_dec_int_def nat_div_distrib nat_mod_distrib)
  show ?thesis
    unfolding format_double_stable_def scaled_cents [OF assms] Let_def abs parts dec plain_text_def two_digits_def
    by simp
qed

lemma two_digits_value: "k < 100 \<Longrightarrow> list_all is_digit (two_digits k) \<and> length (two_digits k) = 2 \<and> dec_value (two_digits k) = k"
proof -
  assume k: "k < 100"
  have len: "length (to_dec k) = (if k < 10 then 1 else 2)"
    using k div_less_iff_less_mult [of 10 k 10] by (simp add: to_dec.simps [of k] to_dec.simps [of "k div 10"])
  show ?thesis
    using dec_value_append [of "''0''" "to_dec k"] to_dec_digits [of k] len dec_value_zeros [of 1]
    by (auto simp: two_digits_def Let_def is_digit_def)
qed

lemma decimal_plain_text:
  "decimal ((if neg then ''-'' else []) @ plain_text k) = Some (neg, of_nat k / 100)"
proof -
  let ?ip = "to_dec (k div 100)" and ?fp = "two_digits (k mod 100)"
  have fp: "list_all is_digit ?fp" "length ?fp = 2" "dec_value ?fp = k mod 100"
    using two_digits_value [of "k mod 100"] by simp_all
  have shape: "plain_text k = number_text ?ip ?fp None"
    using fp(2) by (auto simp: plain_text_def number_text_def point_def exp_part_def)
  have v: "dec_value (?ip @ ?fp) = k" by (simp add: dec_value_append fp)
  have "of_nat (dec_value (?ip @ ?fp)) * 10 powi (exp_val None - int (length ?fp)) = (of_nat k :: rat) / 100"
    unfolding v by (simp add: fp(2) exp_val_def power_int_def power2_eq_square)
  then show ?thesis
    using decimal_text [OF to_dec_digits to_dec_nonempty fp(1), of _ None] by (simp add: shape)
qed

lemma stod_cents:
  assumes "\<bar>n\<bar> \<le> 10 ^ 12"
  shows "stod ((if n < 0 then ''-'' else []) @ plain_text (nat \<bar>n\<bar>)) = Inr (cents n)"
proof (cases "n = 0")
  case True
  then show ?thesis
    using decimal_plain_text [of False 0] by (simp add: stod_def cents_def round_double_def)
next
  case False
  define m :: rat where "m = of_int \<bar>n\<bar>"
  have m: "1 \<le> m" "m \<le> 10 ^ 12" using False assms by (auto simp: m_def)
  have h: "1 / 100 \<le> m / 100" "m / 100 \<le> 10 ^ 15" using m by simp_all
  obtain v where v: "round_double (m / 100) = Fin v" "v - m / 100 \<le> m / 100 / 2 ^ 53"
      "m / 100 - v \<le> m / 100 / 2 ^ 53" "0 < v"
    using ordinary_near [OF h] .
  have tiny: "\<not> m / 100 < tiny_bound" using tiny_bound_le normal_pow [OF h(1)] by linarith
  have "of_nat (nat \<bar>n\<bar>) = m" by (simp add: m_def)
  then have "stod ((if n < 0 then ''-'' else []) @ plain_text (nat \<bar>n\<bar>)) =
      Inr (if n < 0 then Fin (- v) else Fin v)"
    using decimal_plain_text [of "n < 0" "nat \<bar>n\<bar>"] v(4) tiny
    by (simp add: stod_def v(1) Let_def)
  moreover have "cents n = (if n < 0 then Fin (- v) else Fin v)"
  proof (cases "n < 0")
    case True
    then have "of_int n / 100 = - (m / 100)" by (simp add: m_def)
    then show ?thesis using True round_double_odd [OF v(1) _ v(4)] m by (simp add: cents_def)
  next
    case False
    then have "of_int n / 100 = m / 100" by (simp add: m_def)
    then show ?thesis using False v(1) by (simp add: cents_def)
  qed
  ultimately show ?thesis by simp
qed

section \<open>Reading what was printed\<close>

text \<open>Characters that \<open>escape_string\<close> writes so that \<open>parse_string\<close> gives them back.\<close>

definition readable :: "string \<Rightarrow> bool" where
  "readable s \<longleftrightarrow> (\<forall>c\<in>set s. 0x1f < (of_char c :: nat) \<or>
     c \<in> {CHR 0x08, CHR 0x0C, CHR 0x0A, CHR 0x0D, CHR 0x09})"

lemma quoted_end [simp]: "quoted acc (CHR 0x22 # r) = Inr (acc, CHR 0x22 # r)"
  by (simp add: quoted.simps)

lemma quoted_escape:
  "readable s \<Longrightarrow> quoted acc (escape_string s @ CHR 0x22 # r) = Inr (acc @ s, CHR 0x22 # r)"
proof (induction s arbitrary: acc)
  case (Cons c s)
  then have IH: "quoted a (escape_string s @ CHR 0x22 # r) = Inr (a @ s, CHR 0x22 # r)" for a
    by (simp add: readable_def)
  have "quoted acc (escape_byte c @ t) = quoted (acc @ [c]) t" for t
    using Cons.prems by (auto simp: readable_def escape_byte_def quoted.simps [of acc] unescape_byte_def)
  then show ?case using IH by (simp add: escape_string_def)
qed (simp add: escape_string_def)

lemma expect_here [simp]: "\<not> is_blank c \<Longrightarrow> expect_char c (c # r) = Inr r"
  by (simp add: expect_char_def skip_whitespace_def)

lemma not_blank [simp]:
  "\<not> is_blank CHR 0x22" "\<not> is_blank CHR '':''" "\<not> is_blank CHR ''{''" "\<not> is_blank CHR ''}''"
  "\<not> is_blank CHR ''[''" "\<not> is_blank CHR '']''" "\<not> is_blank CHR '',''" "\<not> is_blank CHR ''-''"
  by (simp_all add: is_blank_def)

lemma skip_here [simp]: "\<not> is_blank c \<Longrightarrow> skip_whitespace (c # r) = c # r"
  by (simp add: skip_whitespace_def)

lemma parse_quoted_printed [simp]:
  "readable s \<Longrightarrow> parse_quoted (CHR 0x22 # escape_string s @ CHR 0x22 # r) = Inr (s, r)"
  by (simp add: parse_quoted_def quoted_escape)

lemma digit_not_blank: "is_digit c \<Longrightarrow> \<not> is_blank c \<and> c \<noteq> CHR ''.'' \<and> c \<noteq> CHR ''-''"
  by (auto simp: is_digit_def is_blank_def)

lemma skip_to_dec [simp]: "skip_whitespace (to_dec n @ r) = to_dec n @ r"
  using to_dec_head [of n] digit_not_blank by (auto simp: skip_whitespace_def)

text \<open>What follows a value: the end of the object, the list or the next member.\<close>

definition follows :: "string \<Rightarrow> bool" where
  "follows r \<longleftrightarrow> here r = CHR '','' \<or> here r = CHR ''}'' \<or> here r = CHR '']''"

lemma follows_ends: "follows r \<Longrightarrow> ends_number r \<and> skip_whitespace r = r \<and> (\<exists>c cs. r = c # cs \<and> \<not> is_digit c \<and> c \<noteq> CHR ''.'')"
  by (cases r) (auto simp: follows_def here_def is_digit_def)

lemma parse_uint_printed [simp]:
  assumes "follows r"
  shows "parse_uint (to_dec (unat w) @ r) = Inr (w :: u64, r)"
  using follows_ends [OF assms] unsigned_less [of w] by (simp add: parse_uint_def Let_def)

lemma parse_double_printed:
  assumes "\<bar>n\<bar> \<le> 10 ^ 12" "follows r"
  shows "parse_double (format_double_stable oob (cents n) @ r) = Inr (cents n, r)"
proof -
  let ?k = "nat \<bar>n\<bar>" and ?sg = "if n < 0 then ''-'' else []"
  obtain d ds where d: "plain_text ?k = d # ds" "is_digit d"
    using to_dec_head [of "?k div 100"] by (auto simp: plain_text_def)
  have all: "list_all (\<lambda>c. is_digit c \<or> c = CHR ''.'') (plain_text ?k)"
    using to_dec_digits [of "?k div 100"] two_digits_value [of "?k mod 100"]
    by (auto simp: plain_text_def list_all_iff)
  have body: "takeWhile (\<lambda>c. is_digit c \<or> c = CHR ''.'') (plain_text ?k @ r) = plain_text ?k"
    using all follows_ends [OF assms(2)] by (auto simp: takeWhile_append2 list_all_iff)
  have skip: "skip_whitespace (?sg @ plain_text ?k @ r) = ?sg @ plain_text ?k @ r"
    using digit_not_blank [OF d(2)] by (simp add: d(1))
  have sign: "takeWhile (\<lambda>c. c = CHR ''-'') (take 1 (?sg @ plain_text ?k @ r)) = ?sg"
    using digit_not_blank [OF d(2)] by (simp add: d(1))
  have drop: "drop (length ?sg) (?sg @ plain_text ?k @ r) = plain_text ?k @ r"
    by simp
  have ne: "?sg @ plain_text ?k \<noteq> []" using d(1) by simp
  show ?thesis
    unfolding format_cents [OF assms(1)] parse_double_def append_assoc skip Let_def sign drop body
    using ne stod_cents [OF assms(1)] by (simp add: d(1))
qed

section \<open>Nested objects\<close>

text \<open>Text that leaves the count of open braces as it was, and never closes the object around it.\<close>

definition level :: "string \<Rightarrow> bool" where
  "level s \<longleftrightarrow> (\<forall>d t. 0 < d \<longrightarrow> braces d (s @ t) = (s @ fst (braces d t), snd (braces d t)))"

lemma level_append [intro]: "level a \<Longrightarrow> level b \<Longrightarrow> level (a @ b)"
  by (simp add: level_def)

lemma level_Nil [simp]: "level []"
  by (simp add: level_def)

definition braceless :: "string \<Rightarrow> bool" where
  "braceless s \<longleftrightarrow> CHR ''{'' \<notin> set s \<and> CHR ''}'' \<notin> set s"

lemma level_braceless: "braceless s \<Longrightarrow> level s"
  unfolding level_def
proof (induction s)
  case (Cons c s)
  then have "\<forall>d t. 0 < d \<longrightarrow> braces d (s @ t) = (s @ fst (braces d t), snd (braces d t))"
    by (simp add: braceless_def)
  with Cons.prems show ?case by (auto simp: braceless_def Let_def)
qed simp

lemma level_object:
  assumes "level s"
  shows "level (CHR ''{'' # s @ ''}'')"
proof -
  have "braces (d + 1) (s @ CHR ''}'' # t) = (s @ CHR ''}'' # fst (braces d t), snd (braces d t))" if "0 < d" for d t
  proof -
    have "braces (d + 1) (s @ CHR ''}'' # t) =
        (s @ fst (braces (d + 1) (CHR ''}'' # t)), snd (braces (d + 1) (CHR ''}'' # t)))"
      using assms that unfolding level_def by simp
    then show ?thesis using that by (simp add: Let_def case_prod_beta)
  qed
  then show ?thesis by (simp add: level_def Let_def)
qed

lemma braces_object:
  assumes "level s"
  shows "braces 0 (CHR ''{'' # s @ CHR ''}'' # r) = (CHR ''{'' # s @ ''}'', r)"
proof -
  have "braces 1 (s @ CHR ''}'' # r) = (s @ fst (braces 1 (CHR ''}'' # r)), snd (braces 1 (CHR ''}'' # r)))"
    using assms unfolding level_def by simp
  then show ?thesis by (simp add: Let_def)
qed

lemma level_commas: "list_all level xs \<Longrightarrow> level (commas xs)"
proof (induction xs rule: commas.induct)
  case (3 s t ss)
  have "level '',''" by (rule level_braceless) (simp add: braceless_def)
  then have "level (s @ '','' @ commas (t # ss))" using 3 by (intro level_append) auto
  then show ?case by simp
qed simp_all

lemma braceless_to_dec [simp]: "braceless (to_dec n)"
  using to_dec_digits [of n] by (auto simp: braceless_def list_all_iff is_digit_def)

lemma braceless_append [simp]: "braceless (a @ b) \<longleftrightarrow> braceless a \<and> braceless b"
  by (auto simp: braceless_def)

lemma braceless_Cons [simp]: "braceless (c # s) \<longleftrightarrow> c \<noteq> CHR ''{'' \<and> c \<noteq> CHR ''}'' \<and> braceless s"
  by (auto simp: braceless_def)

lemma braceless_Nil [simp]: "braceless []"
  by (simp add: braceless_def)

lemma braceless_escape: "braceless s \<Longrightarrow> readable s \<Longrightarrow> braceless (escape_string s)"
proof (induction s)
  case (Cons c s)
  then have "braceless (escape_byte c)" by (auto simp: escape_byte_def readable_def)
  with Cons show ?case by (simp add: escape_string_def readable_def)
qed (simp add: escape_string_def)

lemma braceless_cents: "\<bar>n\<bar> \<le> 10 ^ 12 \<Longrightarrow> braceless (format_double_stable oob (cents n))"
  unfolding format_cents by (simp add: plain_text_def two_digits_def Let_def)

section \<open>Objects\<close>

text \<open>
  The member \<open>m\<close> of a printed object is read into the record: a key of letters, and a value the
  reader of that key takes, whatever follows.
\<close>

definition member_read ::
    "(string \<Rightarrow> 'a \<Rightarrow> string \<Rightarrow> binding_error + 'a \<times> string) \<Rightarrow> 'a \<Rightarrow> string \<Rightarrow> 'a \<Rightarrow> bool" where
  "member_read f x m y \<longleftrightarrow> (\<exists>k v. m = key_text k @ v \<and> readable k \<and> escape_string k = k \<and>
     (\<forall>r. follows r \<longrightarrow> f k x (v @ r) = Inr (y, r)))"

fun all_read ::
    "(string \<Rightarrow> 'a \<Rightarrow> string \<Rightarrow> binding_error + 'a \<times> string) \<Rightarrow> 'a \<Rightarrow> string list \<Rightarrow> 'a \<Rightarrow> bool" where
  "all_read f x [] y = (x = y)"
| "all_read f x (m # ms) y = (\<exists>z. member_read f x m z \<and> all_read f z ms y)"

lemma parse_key_printed:
  assumes "readable k" "escape_string k = k"
  shows "parse_key (key_text k @ r) = Inr (k, r)"
  using parse_quoted_printed [OF assms(1), of "CHR '':'' # r"] assms(2)
  by (simp add: parse_key_def key_text_def)

lemma key_head: "\<exists>cs. key_text k @ r = CHR 0x22 # cs"
  by (simp add: key_text_def)

lemma follows_simps [simp]: "follows (CHR '','' # r)" "follows (CHR ''}'' # r)" "follows (CHR '']'' # r)"
  by (simp_all add: follows_def here_def)

lemma members_step:
  assumes "member_read f x m y"
  shows "members_loop (Suc n) f x (m @ CHR '','' # r) = members_loop n f y r"
    and "members_loop (Suc (Suc n)) f x (m @ CHR ''}'' # r) = Inr y"
proof -
  obtain k v where k: "m = key_text k @ v" "readable k" "escape_string k = k"
      and v: "\<And>r. follows r \<Longrightarrow> f k x (v @ r) = Inr (y, r)"
    using assms unfolding member_read_def by blast
  have skip: "skip_whitespace (m @ t) = m @ t" and at: "here (m @ t) = CHR 0x22" and ne: "m @ t \<noteq> []" for t
    by (simp_all add: k(1) key_text_def here_def)
  have key: "parse_key (m @ t) = Inr (k, v @ t)" for t
    using parse_key_printed [OF k(2,3), of "v @ t"] by (simp add: k(1))
  show "members_loop (Suc n) f x (m @ CHR '','' # r) = members_loop n f y r"
    using v [of "CHR '','' # r"] ne [of "CHR '','' # r"] at [of "CHR '','' # r"] key [of "CHR '','' # r"]
    by (simp add: Let_def skip) (simp add: here_def)
  show "members_loop (Suc (Suc n)) f x (m @ CHR ''}'' # r) = Inr y"
    using v [of "CHR ''}'' # r"] ne [of "CHR ''}'' # r"] at [of "CHR ''}'' # r"] key [of "CHR ''}'' # r"]
    by (simp add: Let_def skip) (simp add: here_def)
qed

lemma members_printed:
  assumes "all_read f x ms y" "length ms < n"
  shows "members_loop n f x (commas ms @ ''}'') = Inr y"
  using assms
proof (induction ms arbitrary: x n rule: commas.induct)
  case 1
  then obtain k where "n = Suc k" by (cases n) auto
  with 1 show ?case by (simp add: here_def)
next
  case (2 m)
  then obtain k where n: "n = Suc (Suc k)" by (cases n; cases "n - 1") auto
  from 2 have "member_read f x m y" by auto
  from members_step(2) [OF this, of k "[]"] show ?case by (simp add: n)
next
  case (3 m t ms)
  then obtain k where n: "n = Suc k" by (cases n) auto
  from 3 obtain z where z: "member_read f x m z" "all_read f z (t # ms) y" by auto
  from members_step(1) [OF z(1), of k "commas (t # ms) @ ''}''"] 3(1) [OF z(2), of k] 3(3)
  show ?case by (simp add: n)
qed

lemma commas_length: "list_all ((\<noteq>) []) ms \<Longrightarrow> length ms \<le> length (commas ms)"
proof (induction ms rule: commas.induct)
  case (2 m)
  then show ?case by (cases m) auto
qed auto

lemma all_read_ne: "all_read f x ms y \<Longrightarrow> list_all ((\<noteq>) []) ms"
  by (induction ms arbitrary: x) (auto simp: member_read_def key_text_def)

lemma object_printed:
  assumes "all_read f u ms y"
  shows "object_reader f u (braced ms) = Inr y"
  using members_printed [OF assms, of "Suc (length (commas ms @ ''}''))"] commas_length [OF all_read_ne [OF assms]]
  by (simp add: object_reader_def braced_def del: members_loop.simps)

section \<open>Lists\<close>

definition object_text :: "(string \<Rightarrow> binding_error + 'b) \<Rightarrow> string \<Rightarrow> 'b \<Rightarrow> bool" where
  "object_text rd t v \<longleftrightarrow> (\<exists>s. t = CHR ''{'' # s @ ''}'' \<and> level s) \<and> rd t = Inr v"

lemma object_head: "object_text rd t v \<Longrightarrow> \<exists>cs. t @ r = CHR ''{'' # cs"
  by (auto simp: object_text_def)

lemma nested_printed:
  assumes "object_text rd t v"
  shows "nested rd (t @ r) = Inr (v, r)"
proof -
  from assms obtain s where s: "t = CHR ''{'' # s @ ''}''" "level s" and rd: "rd t = Inr v"
    by (auto simp: object_text_def)
  from braces_object [OF s(2), of r] rd show ?thesis by (simp add: nested_def s(1) del: braces.simps)
qed

lemma array_step:
  assumes "object_text rd t v"
  shows "array_loop (Suc n) what rd xs (t @ CHR '','' # r) = array_loop n what rd (xs @ [v]) r"
    and "array_loop (Suc (Suc n)) what rd xs (t @ CHR '']'' # r) = Inr (xs @ [v], r)"
proof -
  have at: "skip_whitespace (t @ r') = t @ r'" "here (t @ r') = CHR ''{''" "t @ r' \<noteq> []" for r'
    using object_head [OF assms, of r'] by (auto simp: here_def)
  note nested = nested_printed [OF assms]
  show "array_loop (Suc n) what rd xs (t @ CHR '','' # r) = array_loop n what rd (xs @ [v]) r"
    using at [of "CHR '','' # r"] nested [of "CHR '','' # r"] by (simp add: Let_def) (simp add: here_def)
  show "array_loop (Suc (Suc n)) what rd xs (t @ CHR '']'' # r) = Inr (xs @ [v], r)"
    using at [of "CHR '']'' # r"] nested [of "CHR '']'' # r"] by (simp add: Let_def) (simp add: here_def)
qed

lemma array_loop_printed:
  assumes "list_all2 (object_text rd) ts vs" "length ts < n"
  shows "array_loop n what rd xs (commas ts @ CHR '']'' # r) = Inr (xs @ vs, r)"
  using assms
proof (induction ts arbitrary: xs vs n rule: commas.induct)
  case 1
  then obtain k where "n = Suc k" by (cases n) auto
  with 1 show ?case by (simp add: here_def)
next
  case (2 t)
  then obtain k where n: "n = Suc (Suc k)" by (cases n; cases "n - 1") auto
  from 2 obtain v where "vs = [v]" "object_text rd t v" by (auto simp: list_all2_Cons1)
  then show ?case using array_step(2) [of rd t v k] by (simp add: n del: array_loop.simps)
next
  case (3 t t' ts)
  then obtain k where n: "n = Suc k" by (cases n) auto
  from 3 obtain v vs' where v: "vs = v # vs'" "object_text rd t v" "list_all2 (object_text rd) (t' # ts) vs'"
    by (auto simp: list_all2_Cons1)
  then show ?case
    using array_step(1) [OF v(2), of k what xs "commas (t' # ts) @ CHR '']'' # r"] 3(1) [OF v(3), of k] 3(3)
    by (simp add: n del: array_loop.simps)
qed

lemma array_printed:
  assumes "list_all2 (object_text rd) ts vs"
  shows "parse_array what rd xs (CHR ''['' # commas ts @ CHR '']'' # r) = Inr (xs @ vs, r)"
proof -
  have "list_all ((\<noteq>) []) ts"
    using assms by (induction rule: list_all2_induct) (auto simp: object_text_def)
  from array_loop_printed [OF assms, of "Suc (length (commas ts @ CHR '']'' # r))"] commas_length [OF this]
  show ?thesis by (simp add: parse_array_def del: array_loop.simps)
qed

lemma level_list: "list_all2 (object_text rd) ts vs \<Longrightarrow> level (commas ts)"
proof (rule level_commas)
  assume "list_all2 (object_text rd) ts vs"
  then show "list_all level ts"
    by (induction rule: list_all2_induct) (auto simp: object_text_def intro: level_object)
qed

section \<open>Members\<close>

definition key_ok :: "string \<Rightarrow> bool" where
  "key_ok k \<longleftrightarrow> readable k \<and> escape_string k = k \<and> braceless k"

lemma all_keys:
  "list_all key_ok [''id'', ''payload_hash'', ''status'', ''timestamp'', ''type'', ''consensus_time'', ''height'',
     ''interval_seconds'', ''block_hash'', ''txid'', ''clock'', ''coherence'', ''envelopes'', ''node_count'',
     ''replay_events'', ''cluster_view'', ''replay_mode_state'', ''replay_phase'', ''scheduler_state_hash'',
     ''telemetry_json'', ''tick_index'', ''session_id'', ''pending_count'', ''queue_id'', ''active_sessions'',
     ''broadcast_queues'', ''current_tick_index'', ''global_tick_count'', ''replay_active'',
     ''subsystem_tick_count'', ''total_ticks'']"
  by (simp add: key_ok_def readable_def escape_string_def escape_byte_def braceless_def)

lemmas keys_ok [simp] = all_keys [unfolded list.pred_inject]

lemma member_readI:
  assumes "key_ok k" "\<And>r. follows r \<Longrightarrow> f k x (v @ r) = Inr (y, r)"
  shows "member_read f x (key_text k @ v) y"
  using assms by (auto simp: member_read_def key_ok_def)

definition hundredth :: "double \<Rightarrow> bool" where
  "hundredth d \<longleftrightarrow> (\<exists>n. \<bar>n\<bar> \<le> 10 ^ 12 \<and> d = cents n)"

text \<open>One rule for each kind of member; the second premise says that the value is printed faithfully.\<close>

lemma reads_step:
  assumes "\<And>r. follows r \<Longrightarrow> f k x (v @ r) = Inr (z, r)" "key_ok k" "all_read f z ms y" "m = key_text k @ v"
  shows "all_read f x (m # ms) y"
proof -
  have "member_read f x (key_text k @ v) z" by (rule member_readI) (use assms in simp_all)
  with assms(3,4) show ?thesis by auto
qed

lemma reads_number:
  assumes "\<And>s. f k x s = into put (parse_uint s)" "key_ok k" "all_read f (put w) ms y"
  shows "all_read f x (number_field k w # ms) y"
  by (rule reads_step [OF _ assms(2,3)]) (simp_all add: number_field_def assms into_def)

lemma reads_string:
  assumes "\<And>s. f k x s = into put (parse_quoted s)" "key_ok k \<and> readable v" "all_read f (put v) ms y"
  shows "all_read f x (string_field k v # ms) y"
  by (rule reads_step [OF _ _ assms(3)]) (simp_all add: string_field_def assms into_def)

lemma reads_double:
  assumes "\<And>s. f k x s = into put (parse_double s)" "key_ok k \<and> hundredth d" "all_read f (put d) ms y"
  shows "all_read f x (double_field oob k d # ms) y"
proof -
  obtain n where n: "\<bar>n\<bar> \<le> 10 ^ 12" "d = cents n" using assms(2) by (auto simp: hundredth_def)
  show ?thesis
    by (rule reads_step [OF _ conjunct1 [OF assms(2)] assms(3)])
       (simp_all only: double_field_def n(2) assms(1) into_def parse_double_printed [OF n(1)] bindE_simps prod.case)
qed

lemma reads_nested:
  assumes "\<And>s. f k x s = into put (nested rd s)" "key_ok k \<and> object_text rd t v" "all_read f (put v) ms y"
  shows "all_read f x ((key_text k @ t) # ms) y"
  by (rule reads_step [OF _ _ assms(3)]) (simp_all add: assms into_def nested_printed [of rd t v])

lemma reads_list:
  assumes "\<And>s. f k x s = into put (parse_array what rd [] s)" "key_ok k \<and> list_all2 (object_text rd) ts vs"
    "all_read f (put vs) ms y"
  shows "all_read f x (list_field k ts # ms) y"
  by (rule reads_step [OF _ _ assms(3)]) (simp_all add: list_field_def assms into_def array_printed [of rd ts vs])

lemmas reads = reads_number reads_string reads_double reads_list reads_nested

section \<open>Records\<close>

definition envelope_ok :: "ext_envelope \<Rightarrow> bool" where
  "envelope_ok e \<longleftrightarrow> (\<forall>s\<in>{xe_payload_hash e, xe_status e, xe_type e}. readable s \<and> braceless s)"

lemma level_braced: "list_all level ms \<Longrightarrow> \<exists>s. braced ms = CHR ''{'' # s @ ''}'' \<and> level s"
  using level_commas by (auto simp: braced_def)

lemma object_textI:
  assumes "all_read f u ms v" "list_all level ms"
  shows "object_text (object_reader f u) (braced ms) v"
  using level_braced [OF assms(2)] object_printed [OF assms(1)] by (simp add: object_text_def)

lemma level_key: "key_ok k \<Longrightarrow> level s \<Longrightarrow> level (key_text k @ s)"
  by (rule level_append) (auto intro: level_braceless simp: key_text_def key_ok_def)

lemma level_number: "key_ok k \<Longrightarrow> level (number_field k w)"
  by (simp add: number_field_def level_key level_braceless)

lemma level_string: "key_ok k \<Longrightarrow> readable s \<Longrightarrow> braceless s \<Longrightarrow> level (string_field k s)"
  by (simp add: string_field_def level_key level_braceless braceless_escape)

lemma level_double: "key_ok k \<Longrightarrow> hundredth d \<Longrightarrow> level (double_field oob k d)"
  by (auto simp: double_field_def hundredth_def level_key level_braceless braceless_cents)

lemma level_list_field: "key_ok k \<Longrightarrow> list_all2 (object_text rd) ts vs \<Longrightarrow> level (list_field k ts)"
  unfolding list_field_def
  by (intro level_key level_append level_list) (simp_all add: level_braceless)

lemma level_nested: "key_ok k \<Longrightarrow> object_text rd t v \<Longrightarrow> level (key_text k @ t)"
  by (intro level_key) (auto simp: object_text_def level_object)

lemmas levels = level_number level_string level_double level_list_field level_nested

lemma envelope_text:
  assumes "envelope_ok e"
  shows "object_text (from_json_envelope u) (envelope_json e) e"
  unfolding from_json_envelope_def envelope_json_def
  using assms by (intro object_textI)
    ((rule reads, simp add: envelope_member_def, simp add: envelope_ok_def)+, simp, simp add: envelope_ok_def levels)

definition clock_ok :: "ext_clock \<Rightarrow> bool" where
  "clock_ok c \<longleftrightarrow> hundredth (xk_consensus_time c) \<and> hundredth (xk_interval_seconds c)"

lemma clock_text:
  assumes "clock_ok c"
  shows "object_text (from_json_clock u) (clock_json oob c) c"
  unfolding from_json_clock_def clock_json_def
  using assms by (intro object_textI)
    ((rule reads, simp add: clock_member_def, simp add: clock_ok_def)+, simp, simp add: clock_ok_def levels)

definition event_ok :: "ext_event \<Rightarrow> bool" where
  "event_ok e \<longleftrightarrow> (\<forall>s\<in>{xr_block_hash e, xr_txid e}. readable s \<and> braceless s)"

lemma byte_back [simp]: "ucast (ucast b :: u64) = (b :: u8)"
  by transfer (simp add: take_bit_take_bit)

lemma event_text:
  assumes "event_ok e"
  shows "object_text (from_json_replay_event u) (event_json e) e"
  unfolding from_json_replay_event_def event_json_def
  using assms by (intro object_textI)
    ((rule reads, simp add: event_member_def, simp add: event_ok_def)+, simp, simp add: event_ok_def levels)

lemma list_text: "(\<And>v. v \<in> set vs \<Longrightarrow> object_text rd (pr v) v) \<Longrightarrow> list_all2 (object_text rd) (map pr vs) vs"
  by (simp add: list_all2_conv_all_nth)

definition view_ok :: "ext_view \<Rightarrow> bool" where
  "view_ok v \<longleftrightarrow> hundredth (xv_coherence v) \<and> clock_ok (xv_clock v) \<and>
     list_all envelope_ok (xv_envelopes v) \<and> list_all event_ok (xv_replay_events v)"

lemma view_text:
  assumes "view_ok v"
  shows "object_text (from_json_view u) (view_json oob v) v"
proof -
  have ok: "object_text (from_json_clock c) (clock_json oob (xv_clock v)) (xv_clock v)"
      "list_all2 (object_text (from_json_envelope e)) (map envelope_json (xv_envelopes v)) (xv_envelopes v)"
      "list_all2 (object_text (from_json_replay_event r)) (map event_json (xv_replay_events v)) (xv_replay_events v)"
      "hundredth (xv_coherence v)" for c e r
    using assms by (auto simp: view_ok_def list_all_iff intro: list_text clock_text envelope_text event_text)
  have lv: "level (key_text ''clock'' @ clock_json oob (xv_clock v))"
      "level (list_field ''envelopes'' (map envelope_json (xv_envelopes v)))"
      "level (list_field ''replay_events'' (map event_json (xv_replay_events v)))"
    by (rule level_nested [OF _ ok(1)], simp, rule level_list_field [OF _ ok(2)], simp, rule level_list_field [OF _ ok(3)], simp)
  show ?thesis
    unfolding from_json_view_def view_json_def
    by (intro object_textI)
      ((rule reads, simp add: view_member_def,
        (rule conjI [OF _ ok(1)] conjI [OF _ ok(2)] conjI [OF _ ok(3)], simp | simp add: ok))+, simp, simp add: lv levels ok)
qed

definition tick_ok :: "ext_tick \<Rightarrow> bool" where
  "tick_ok t \<longleftrightarrow> view_ok (xt_cluster_view t) \<and> readable (xt_scheduler_state_hash t) \<and>
     readable (xt_telemetry_json t) \<and> readable (xt_replay_phase t) \<and> readable (xt_replay_mode_state t)"

definition session_ok :: "ext_session \<Rightarrow> bool" where
  "session_ok x \<longleftrightarrow> (\<forall>s\<in>{xs_session_id x, xs_status x}. readable s \<and> braceless s)"

lemma session_text:
  assumes "session_ok x"
  shows "object_text from_json_active_session (session_json x) x"
  unfolding from_json_active_session_def session_json_def
  using assms by (intro object_textI)
    ((rule reads, simp add: session_member_def, simp add: session_ok_def)+, simp, simp add: session_ok_def levels)

definition queue_ok :: "ext_queue \<Rightarrow> bool" where
  "queue_ok q \<longleftrightarrow> readable (xq_queue_id q) \<and> braceless (xq_queue_id q)"

lemma queue_text:
  assumes "queue_ok q"
  shows "object_text (from_json_broadcast_queue u) (queue_json q) q"
  unfolding from_json_broadcast_queue_def queue_json_def
  using assms by (intro object_textI)
    ((rule reads, simp add: queue_member_def, simp add: queue_ok_def)+, simp, simp add: queue_ok_def levels)

lemma parse_flag_printed [simp]:
  "parse_flag ((if b then ''true'' else ''false'') @ r) = Inr (b, r)"
  by (simp add: parse_flag_def Let_def skip_whitespace_def is_blank_def)

lemma reads_flag:
  assumes "\<And>s. f k x s = into put (parse_flag s)" "key_ok k" "all_read f (put b) ms y"
  shows "all_read f x ((key_text k @ (if b then ''true'' else ''false'')) # ms) y"
  by (rule reads_step [OF _ assms(2,3)]) (simp_all only: assms(1) into_def parse_flag_printed bindE_simps prod.case)

definition snapshot_ok :: "ext_snapshot \<Rightarrow> bool" where
  "snapshot_ok s \<longleftrightarrow> list_all session_ok (xn_active_sessions s) \<and> list_all queue_ok (xn_broadcast_queues s)"

lemma tick_back:
  assumes "tick_ok t"
  shows "from_json_tick u i (tick_json oob t) = Inr t"
proof -
  have ok: "object_text (from_json_view w) (view_json oob (xt_cluster_view t)) (xt_cluster_view t)" for w
    using assms by (simp add: tick_ok_def view_text)
  show ?thesis
    unfolding from_json_tick_def tick_json_def
    by (rule object_printed)
      ((rule reads, simp add: tick_member_def,
        (rule conjI [OF _ ok], simp | use assms in \<open>simp add: tick_ok_def\<close>))+, simp)
qed

lemma snapshot_back:
  assumes "snapshot_ok s"
  shows "from_json_state_snapshot u x (snapshot_json s) = Inr s"
proof -
  have ok: "list_all2 (object_text from_json_active_session) (map session_json (xn_active_sessions s)) (xn_active_sessions s)"
      "list_all2 (object_text (from_json_broadcast_queue q)) (map queue_json (xn_broadcast_queues s)) (xn_broadcast_queues s)" for q
    using assms by (auto simp: snapshot_ok_def list_all_iff intro!: list_text session_text queue_text)
  show ?thesis
    unfolding from_json_state_snapshot_def snapshot_json_def
    by (rule object_printed)
      ((rule reads reads_flag, simp add: snapshot_member_def,
        (rule conjI [OF _ ok(1)] conjI [OF _ ok(2)], simp | simp))+, simp)
qed

section \<open>The readers return\<close>

text \<open>Readers of a value: they return, and what they leave is no longer than what they were given.\<close>

definition reads_on :: "(string \<Rightarrow> binding_error + 'v \<times> string) \<Rightarrow> bool" where
  "reads_on rd \<longleftrightarrow> (\<forall>s. rd s \<noteq> Inl No_fuel \<and> (\<forall>v r. rd s = Inr (v, r) \<longrightarrow> length r \<le> length s))"

definition returns :: "(string \<Rightarrow> binding_error + 'v) \<Rightarrow> bool" where
  "returns rd \<longleftrightarrow> (\<forall>s. rd s \<noteq> Inl No_fuel)"

lemma length_skip: "length (skip_whitespace s) \<le> length s"
  by (simp add: skip_whitespace_def length_dropWhile_le)

lemma expect_char_length: "expect_char c s = Inr r \<Longrightarrow> length r < length s"
  using length_skip [of s] by (auto simp: expect_char_def split: list.splits if_splits)

lemma expect_char_fuel: "expect_char c s \<noteq> Inl No_fuel"
  by (auto simp: expect_char_def split: list.splits)

lemma quoted_length: "quoted acc s = Inr (v, r) \<Longrightarrow> length r \<le> length s"
proof (induction "length s" arbitrary: acc s rule: less_induct)
  case less
  show ?case
  proof (cases s)
    case (Cons c cs)
    have ih: "quoted a t = Inr (v, r) \<Longrightarrow> length t \<le> length cs \<longrightarrow> length r \<le> length cs" for a t
      using less.hyps [of t a] by (auto simp: Cons)
    show ?thesis
      using less.prems quoted.simps [of acc "c # cs"]
      by (auto simp: Cons split: list.splits option.splits if_splits dest!: ih)
  qed (use less.prems in \<open>simp add: quoted.simps\<close>)
qed

lemma quoted_fuel: "quoted acc s \<noteq> Inl No_fuel"
proof (induction "length s" arbitrary: acc s rule: less_induct)
  case less
  show ?case
  proof (cases s)
    case (Cons c cs)
    have ih: "length t < length s \<Longrightarrow> quoted a t \<noteq> Inl No_fuel" for a t
      using less.hyps [of t a] .
    show ?thesis
      using ih quoted.simps [of acc "c # cs"]
      by (auto simp: Cons split: list.splits option.splits if_splits)
  qed (simp add: quoted.simps)
qed

lemma bindE_fuel: "bindE m f = Inl No_fuel \<longleftrightarrow> m = Inl No_fuel \<or> (\<exists>x. m = Inr x \<and> f x = Inl No_fuel)"
  by (cases m) auto

lemma parse_quoted_length: "parse_quoted s = Inr (v, r) \<Longrightarrow> length r < length s"
  by (auto simp: parse_quoted_def bindE_Inr dest!: expect_char_length quoted_length)

lemma parse_quoted_reads: "reads_on parse_quoted"
  unfolding reads_on_def
proof (intro allI conjI impI)
  fix s
  show "parse_quoted s \<noteq> Inl No_fuel"
    by (auto simp: parse_quoted_def bindE_fuel expect_char_fuel quoted_fuel)
qed (use parse_quoted_length less_imp_le in blast)

lemma parse_uint_reads: "reads_on parse_uint"
  unfolding reads_on_def
proof (intro allI conjI impI)
  fix s v r
  assume "parse_uint s = Inr (v, r)"
  then have "r = dropWhile is_digit (skip_whitespace s)" by (auto simp: parse_uint_def Let_def split: if_splits)
  then show "length r \<le> length s" using length_dropWhile_le [of is_digit "skip_whitespace s"] length_skip [of s] by simp
qed (simp add: parse_uint_def Let_def)

lemma parse_double_reads: "reads_on parse_double"
  unfolding reads_on_def
proof (intro allI conjI impI)
  fix s v r
  assume "parse_double s = Inr (v, r)"
  then have "length r \<le> length (skip_whitespace s)"
    by (auto simp: parse_double_def Let_def split: if_splits sum.splits)
  then show "length r \<le> length s" using length_skip [of s] by linarith
qed (simp add: parse_double_def Let_def split: sum.splits)

lemma parse_flag_reads: "reads_on parse_flag"
  using length_skip by (auto simp: reads_on_def parse_flag_def Let_def intro: order_trans [OF diff_le_self])

lemma braces_length: "length (snd (braces d s)) \<le> length s \<and> (s \<noteq> [] \<longrightarrow> length (snd (braces d s)) < length s)"
proof (induction d s rule: braces.induct)
  case (2 d c cs)
  then show ?case by (auto simp: Let_def case_prod_beta intro: le_imp_less_Suc)
qed simp

lemma nested_length:
  assumes "nested rd s = Inr (v, r)"
  shows "length r \<le> length (skip_whitespace s) \<and> (skip_whitespace s \<noteq> [] \<longrightarrow> length r < length (skip_whitespace s))"
proof -
  have "r = snd (braces 0 (skip_whitespace s))"
    using assms by (auto simp: nested_def case_prod_beta bindE_Inr)
  then show ?thesis using braces_length [of 0 "skip_whitespace s"] by simp
qed

lemma nested_reads: "returns rd \<Longrightarrow> reads_on (nested rd)"
  unfolding reads_on_def
proof (intro allI conjI impI)
  fix s v r
  assume "nested rd s = Inr (v, r)"
  then show "length r \<le> length s" using nested_length [of rd s v r] length_skip [of s] by linarith
qed (simp add: nested_def case_prod_beta bindE_fuel returns_def)

lemma array_loop_reads:
  assumes "returns rd" "length s < n"
  shows "array_loop n what rd xs s \<noteq> Inl No_fuel \<and>
    (\<forall>v r. array_loop n what rd xs s = Inr (v, r) \<longrightarrow> length r \<le> length s)"
  using assms(2)
proof (induction n arbitrary: xs s)
  case (Suc n)
  show ?case
  proof (cases "s = [] \<or> here (skip_whitespace s) = CHR '']''")
    case True
    then show ?thesis using length_skip [of s] by (auto simp: Let_def)
  next
    case False
    let ?s = "skip_whitespace s"
    show ?thesis
    proof (cases "nested rd ?s")
      case (Inl e)
      moreover have "e \<noteq> No_fuel" using nested_reads [OF assms(1)] Inl unfolding reads_on_def by metis
      ultimately show ?thesis using False by (simp add: Let_def)
    next
      case (Inr p)
      obtain v r where p: "p = (v, r)" by (cases p)
      let ?r = "skip_whitespace r"
      have idem: "skip_whitespace ?s = ?s" by (simp add: skip_whitespace_def)
      have len: "length r \<le> length ?s" "?s \<noteq> [] \<Longrightarrow> length r < length ?s"
        using nested_length [of rd ?s v r] Inr by (simp_all add: p idem)
      have one: "length (tl ?r) < length s" if "here ?r = CHR '',''"
        using that length_skip [of s] length_skip [of r] len(1) by (cases ?r) (auto simp: here_def)
      have two: "length ?r < length s" if "here ?r = CHR '']''"
      proof -
        have "?s \<noteq> []" using that len(1) length_skip [of r] by (cases ?r) (auto simp: here_def)
        then show ?thesis using length_skip [of s] length_skip [of r] len(2) by linarith
      qed
      have ih: "length t < length s \<Longrightarrow> array_loop n what rd (xs @ [v]) t \<noteq> Inl No_fuel \<and>
          (\<forall>w u. array_loop n what rd (xs @ [v]) t = Inr (w, u) \<longrightarrow> length u \<le> length s)" for t
        using Suc.IH [of t "xs @ [v]"] Suc.prems by (meson less_SucE less_imp_le_nat less_trans order_trans less_Suc_eq_le le_less_trans order_less_le_trans)
      show ?thesis
        using False Inr p ih [OF one] ih [OF two] by (auto simp: Let_def)
    qed
  qed
qed simp

lemma parse_array_reads:
  assumes "returns rd"
  shows "reads_on (parse_array what rd xs)"
  unfolding reads_on_def
proof (intro allI conjI impI)
  fix s
  show "parse_array what rd xs s \<noteq> Inl No_fuel"
    using array_loop_reads [OF assms lessI] by (auto simp: parse_array_def bindE_fuel expect_char_fuel)
next
  fix s v r
  assume "parse_array what rd xs s = Inr (v, r)"
  then obtain t where t: "expect_char (CHR ''['') s = Inr t" "array_loop (Suc (length t)) what rd xs t = Inr (v, r)"
    by (auto simp: parse_array_def bindE_Inr)
  then show "length r \<le> length s"
    using array_loop_reads [OF assms lessI, of t what xs] expect_char_length [OF t(1)] by (auto intro: le_trans)
qed

lemma into_reads: "reads_on rd \<Longrightarrow> reads_on (\<lambda>s. into put (rd s))"
  by (auto simp: reads_on_def into_def bindE_fuel bindE_Inr case_prod_beta)

lemma unknown_reads: "reads_on (\<lambda>s. unknown_key what key)"
  by (simp add: reads_on_def unknown_key_def)

lemma parse_key_length: "parse_key s = Inr (k, r) \<Longrightarrow> length r < length s"
  by (auto simp: parse_key_def bindE_Inr dest!: parse_quoted_length expect_char_length)

lemma parse_key_fuel: "parse_key s \<noteq> Inl No_fuel"
  using parse_quoted_reads by (auto simp: parse_key_def bindE_fuel expect_char_fuel reads_on_def)

lemma members_loop_returns:
  assumes "\<And>k x. reads_on (f k x)" "length s < n"
  shows "members_loop n f x s \<noteq> Inl No_fuel"
  using assms(2)
proof (induction n arbitrary: x s)
  case (Suc n)
  show ?case
  proof
    assume bad: "members_loop (Suc n) f x s = Inl No_fuel"
    then obtain k s2 where key: "parse_key (skip_whitespace s) = Inr (k, s2)"
        and rest: "bindE (f k x s2) (\<lambda>(y, s3).
             let s4 = skip_whitespace s3 in
             if here s4 = CHR '','' then members_loop n f y (tl s4)
             else if here s4 \<noteq> CHR ''}'' then Inl (Runtime_error (''Expected '' @ sq (CHR '','') @ '' or '' @ sq (CHR ''}'')))
             else members_loop n f y s4) = Inl No_fuel"
      by (auto simp: Let_def bindE_fuel parse_key_fuel split: if_splits)
    obtain y s3 where y: "f k x s2 = Inr (y, s3)"
      using rest assms(1) [of k x] by (auto simp: bindE_fuel reads_on_def)
    have "length s3 \<le> length s2" using y assms(1) [of k x] by (auto simp: reads_on_def)
    then have "length (skip_whitespace s3) < length s"
      using parse_key_length [OF key] length_skip [of s] length_skip [of s3] by linarith
    then have "members_loop n f y (tl (skip_whitespace s3)) \<noteq> Inl No_fuel"
        "members_loop n f y (skip_whitespace s3) \<noteq> Inl No_fuel"
      using Suc.prems by (auto intro!: Suc.IH)
    with rest show False by (auto simp: y Let_def split: if_splits)
  qed
qed simp

lemma object_returns:
  assumes "\<And>k x. reads_on (f k x)"
  shows "returns (object_reader f u)"
proof -
  have "members_loop (Suc (length t)) f u t \<noteq> Inl No_fuel" for t
    by (rule members_loop_returns) (use assms in simp_all)
  then show ?thesis by (auto simp: returns_def object_reader_def bindE_fuel expect_char_fuel simp del: members_loop.simps)
qed

lemmas all_reads = into_reads unknown_reads parse_quoted_reads parse_uint_reads parse_double_reads
  parse_flag_reads nested_reads parse_array_reads

lemma reads_on_if: "reads_on g \<Longrightarrow> reads_on h \<Longrightarrow> reads_on (\<lambda>s. if P then g s else h s)"
  by (cases P) simp_all

lemma records_return:
  "returns (from_json_envelope e)" "returns (from_json_clock c)" "returns (from_json_replay_event r)"
  "returns from_json_active_session" "returns (from_json_broadcast_queue q)"
  unfolding from_json_envelope_def from_json_clock_def from_json_replay_event_def from_json_active_session_def
    from_json_broadcast_queue_def envelope_member_def [abs_def] clock_member_def [abs_def] event_member_def [abs_def]
    session_member_def [abs_def] queue_member_def [abs_def]
  by (intro object_returns reads_on_if all_reads)+

lemma view_returns: "returns (from_json_view u)"
  unfolding from_json_view_def view_member_def [abs_def]
  by (intro object_returns reads_on_if all_reads records_return)

text \<open>No text makes the fuel of a reader run out.\<close>

lemma tick_reader_returns: "from_json_tick u i s \<noteq> Inl No_fuel"
proof -
  have "returns (from_json_tick u i)"
    unfolding from_json_tick_def tick_member_def [abs_def]
    by (intro object_returns reads_on_if all_reads view_returns)
  then show ?thesis by (simp add: returns_def)
qed

lemma snapshot_reader_returns: "from_json_state_snapshot u x s \<noteq> Inl No_fuel"
proof -
  have "returns (from_json_state_snapshot u x)"
    unfolding from_json_state_snapshot_def snapshot_member_def [abs_def]
    by (intro object_returns reads_on_if all_reads records_return)
  then show ?thesis by (simp add: returns_def)
qed

section \<open>The property\<close>

text \<open>
  C38. Exported ticks and snapshots survive their JSON text. For every tick whose doubles are
  hundredths and whose strings have a readable escape, without braces inside the view, and every
  snapshot with such strings, reading the printed text gives the value back, whatever the
  variables held before.
\<close>

theorem external_json_roundtrip:
  assumes "tick_ok t" "snapshot_ok s"
  shows "from_json_tick u i (tick_json oob t) = Inr t \<and>
    from_json_state_snapshot u x (snapshot_json s) = Inr s"
  using tick_back [OF assms(1)] snapshot_back [OF assms(2)] by simp

definition sample_ext_tick :: ext_tick where
  "sample_ext_tick =
     \<lparr>xt_tick_index = 7,
      xt_cluster_view = \<lparr>xv_node_count = 2, xv_coherence = Fin 0,
        xv_envelopes = [\<lparr>xe_id = 1, xe_timestamp = 2, xe_payload_hash = ''ab'', xe_type = [CHR 0x22], xe_status = []\<rparr>,
          \<lparr>xe_id = 2, xe_timestamp = 3, xe_payload_hash = ''cd'', xe_type = [], xe_status = []\<rparr>],
        xv_clock = \<lparr>xk_height = 9, xk_consensus_time = Fin 0, xk_interval_seconds = Fin 0\<rparr>,
        xv_replay_events = []\<rparr>,
      xt_scheduler_state_hash = ''0f'', xt_telemetry_json = ''{}'', xt_replay_phase = ''execution'',
      xt_replay_mode_state = ''active''\<rparr>"

definition sample_snapshot :: ext_snapshot where
  "sample_snapshot =
     \<lparr>xn_active_sessions = [\<lparr>xs_session_id = ''session_1'', xs_status = ''idle''\<rparr>],
      xn_broadcast_queues = [\<lparr>xq_pending_count = 5, xq_queue_id = ''mempool_queue''\<rparr>],
      xn_current_tick_index = 0, xn_global_tick_count = 1, xn_replay_active = False,
      xn_subsystem_tick_count = 1, xn_total_ticks = 100\<rparr>"

lemma hundredth_zero: "hundredth (Fin 0)"
  unfolding hundredth_def by (rule exI [of _ 0]) (simp add: cents_def round_double_def)

lemma sample_tick_ok: "tick_ok sample_ext_tick"
  by (simp add: tick_ok_def sample_ext_tick_def view_ok_def clock_ok_def hundredth_zero envelope_ok_def readable_def)

theorem external_json_roundtrip_witness:
  "\<forall>u i oob x. from_json_tick u i (tick_json oob sample_ext_tick) = Inr sample_ext_tick \<and>
     from_json_state_snapshot u x (snapshot_json sample_snapshot) = Inr sample_snapshot"
proof -
  have "snapshot_ok sample_snapshot"
    by (simp add: snapshot_ok_def sample_snapshot_def session_ok_def queue_ok_def readable_def)
  with sample_tick_ok show ?thesis using external_json_roundtrip by blast
qed

end
