(* ===== verification/Federation_Export.thy ===== *)
theory Federation_Export
  imports Json_Bindings_Props ReplayEngine "HOL-Library.Product_Lexorder" "HOL-Library.List_Lexorder" "HOL-Library.Multiset"
begin

text \<open>
  Export of views and ticks, \<open>src/l6/FederationExport.cpp\<close> and \<open>src/l6/ReplayExport.cpp\<close>, from
  the memory images of \<open>ReplayTick\<close>: a field of a struct is read at its offset. \<open>f64\<close> reads the
  \<open>double\<close> in eight bytes. Members of an envelope the export does not set stay empty.
\<close>

section \<open>Fields of the images\<close>

definition u64_at :: "nat \<Rightarrow> bytes \<Rightarrow> u64" where
  "u64_at n bs = le_word (take 8 (drop n bs))"

text \<open>Offsets in \<open>MeshPropagationEnvelope\<close>: the anchor at 64, its epoch 64 further on.\<close>

definition envelope_source :: "bytes \<Rightarrow> u64" where
  "envelope_source = u64_at 0"

definition envelope_epoch_height :: "bytes \<Rightarrow> u64" where
  "envelope_epoch_height = u64_at 128"

definition summary_score :: "bytes \<Rightarrow> u64" where
  "summary_score = u64_at 40"

section \<open>Export\<close>

definition djb2 :: "bytes \<Rightarrow> u64" where
  "djb2 bs = fold (\<lambda>b h. (push_bit 5 h + h) + ucast b) bs 5381"

definition hash_text :: "bytes \<Rightarrow> string" where
  "hash_text bs = hex_of (rev (le_bytes 8 (djb2 bs)))"

definition export_event :: "replay_event \<Rightarrow> ext_event" where
  "export_event ev = \<lparr>xr_type = re_type ev, xr_height = re_height ev, xr_block_hash = hex_of (re_block_hash ev),
     xr_txid = hex_of (re_txid ev)\<rparr>"

definition export_envelope :: "bytes \<Rightarrow> ext_envelope" where
  "export_envelope env = \<lparr>xe_id = envelope_source env, xe_timestamp = envelope_epoch_height env,
     xe_payload_hash = hash_text env, xe_type = [], xe_status = []\<rparr>"

definition envelope_order :: "ext_envelope \<Rightarrow> u64 \<times> u64 \<times> string" where
  "envelope_order e = (xe_id e, xe_timestamp e, xe_payload_hash e)"

definition export_clock :: "(bytes \<Rightarrow> double) \<Rightarrow> bytes \<Rightarrow> ext_clock" where
  "export_clock f64 c = \<lparr>xk_height = u64_at 0 c, xk_consensus_time = f64 (take 8 (drop 8 c)),
     xk_interval_seconds = f64 (take 8 (drop 16 c))\<rparr>"

definition export_view :: "(bytes \<Rightarrow> double) \<Rightarrow> view_image \<Rightarrow> ext_view" where
  "export_view f64 v =
     \<lparr>xv_node_count = vi_total_nodes v,
      xv_coherence = double_of_u64 (summary_score (vi_coherence_summary v)),
      xv_envelopes = sort_key envelope_order (map export_envelope (vi_mesh_envelopes v)),
      xv_clock = export_clock f64 (vi_clock v),
      xv_replay_events = map export_event (vi_replay_events v)\<rparr>"

text \<open>The fields of a \<open>TelemetrySample\<close>, keys in order.\<close>

definition format_telemetry :: "bytes \<Rightarrow> string" where
  "format_telemetry t = braced
     [number_field ''consistent_state_root_nodes'' (u64_at 32 t), number_field ''epoch_height'' (u64_at 8 t),
      number_field ''global_coherence_score'' (u64_at 48 t), number_field ''in_sync_nodes'' (u64_at 24 t),
      number_field ''inconsistent_state_root_nodes'' (u64_at 40 t), number_field ''tick_count'' (u64_at 0 t),
      number_field ''total_nodes'' (u64_at 16 t)]"

definition exported_tick :: "(bytes \<Rightarrow> double) \<Rightarrow> u64 \<Rightarrow> replay_tick \<Rightarrow> ext_tick" where
  "exported_tick f64 tick_index t =
     \<lparr>xt_tick_index = tick_index,
      xt_cluster_view = export_view f64 (rt_view t),
      xt_scheduler_state_hash = hash_text (rt_scheduler_state t),
      xt_telemetry_json = format_telemetry (rt_telemetry t),
      xt_replay_phase = ''execution'',
      xt_replay_mode_state = ''active''\<rparr>"

text \<open>The hook of \<open>src/kernel/Hooks.cpp\<close> that hands each exported tick to the audit worker's queue.\<close>

definition enqueueTick :: "string \<Rightarrow> string list \<Rightarrow> string list" where
  "enqueueTick s q = (if length q < 1000 then q @ [s] else q)"

definition onReplayTick :: "(double \<Rightarrow> int) \<Rightarrow> ext_tick \<Rightarrow> string list \<Rightarrow> string list" where
  "onReplayTick oob t q = enqueueTick (tick_json oob t) q"

definition export_tick ::
    "(bytes \<Rightarrow> double) \<Rightarrow> (double \<Rightarrow> int) \<Rightarrow> u64 \<Rightarrow> replay_tick \<Rightarrow> string list \<Rightarrow> ext_tick \<times> string list" where
  "export_tick f64 oob tick_index t q =
     (let x = exported_tick f64 tick_index t in (x, onReplayTick oob x q))"

text \<open>The text a replay buffer keeps of its \<open>n\<close>-th tick.\<close>

definition export_json :: "(bytes \<Rightarrow> double) \<Rightarrow> (double \<Rightarrow> int) \<Rightarrow> nat \<Rightarrow> replay_tick \<Rightarrow> string" where
  "export_json f64 oob n t = tick_json oob (exported_tick f64 (of_nat n) t)"

section \<open>Exported ticks are read back\<close>

lemma hex_digit_plain: "hex_digit n \<in> set ''0123456789abcdef'' \<or> 16 \<le> unat n"
proof (cases "unat n < 16")
  case True
  then have "''0123456789abcdef'' ! unat n \<in> set ''0123456789abcdef''" by (intro nth_mem) simp
  then show ?thesis by (simp add: hex_digit_def)
qed simp

lemma hex_byte_plain: "set (hex_byte b) \<subseteq> set ''0123456789abcdef''"
proof -
  have "unat (drop_bit 4 b) < 16" using unat_bound [of b] by (simp add: unat_drop_bit_eq) (simp add: drop_bit_eq_div less_mult_imp_div_less)
  moreover have "unat (and b 0x0f) < 16"
  proof -
    have "and b 0x0f = take_bit 4 b" by (simp add: take_bit_eq_mask mask_eq_exp_minus_1)
    then show ?thesis by (simp add: unsigned_take_bit_eq) (simp add: take_bit_eq_mod)
  qed
  ultimately show ?thesis
    using hex_digit_plain [of "drop_bit 4 b"] hex_digit_plain [of "and b 0x0f"]
    unfolding hex_byte_def by auto
qed

lemma hex_readable [simp]: "readable (hex_of bs)" "braceless (hex_of bs)"
proof -
  have hex: "set (hex_of bs) \<subseteq> set ''0123456789abcdef''" using hex_byte_plain by (fastforce simp: hex_of_def)
  have "\<forall>c \<in> set ''0123456789abcdef''. 0x1f < (of_char c :: nat) \<and> c \<noteq> CHR ''{'' \<and> c \<noteq> CHR ''}''" by simp
  with hex show "readable (hex_of bs)" "braceless (hex_of bs)" unfolding readable_def braceless_def by blast+
qed

lemma readable_simps [simp]:
  "readable []" "readable (a @ b) \<longleftrightarrow> readable a \<and> readable b"
  "readable (c # s) \<longleftrightarrow> (0x1f < (of_char c :: nat) \<or> c \<in> {CHR 0x08, CHR 0x0C, CHR 0x0A, CHR 0x0D, CHR 0x09}) \<and> readable s"
  by (auto simp: readable_def)

lemma readable_to_dec [simp]: "readable (to_dec n)"
  using to_dec_digits [of n] by (auto simp: readable_def list_all_iff is_digit_def)

lemma readable_telemetry: "readable (format_telemetry t)"
  by (simp add: format_telemetry_def braced_def number_field_def key_text_def)

lemma hundredth_nat: "n \<le> 100 \<Longrightarrow> hundredth (Fin (of_nat n))"
  unfolding hundredth_def
proof (intro exI conjI)
  assume n: "n \<le> 100"
  show "\<bar>int (100 * n)\<bar> \<le> 10 ^ 12" using n by simp
  show "Fin (of_nat n) = cents (int (100 * n))"
    using round_double_nat [of n] n by (simp add: cents_def)
qed


definition clock_hundredths :: "(bytes \<Rightarrow> double) \<Rightarrow> bytes \<Rightarrow> bool" where
  "clock_hundredths f64 c \<longleftrightarrow> hundredth (f64 (take 8 (drop 8 c))) \<and> hundredth (f64 (take 8 (drop 16 c)))"

lemma exported_ok:
  assumes "clock_hundredths f64 (vi_clock (rt_view t))" "summary_score (vi_coherence_summary (rt_view t)) \<le> 100"
  shows "tick_ok (exported_tick f64 i t)"
proof -
  let ?n = "unat (summary_score (vi_coherence_summary (rt_view t)))"
  have n: "?n \<le> 100" using assms(2) by (simp add: word_le_nat_alt)
  then have "double_of_u64 (summary_score (vi_coherence_summary (rt_view t))) = Fin (of_nat ?n)"
    unfolding double_of_u64_def by (intro round_double_nat) simp
  then have "hundredth (xv_coherence (export_view f64 (rt_view t)))"
    using hundredth_nat [OF n] by (simp add: export_view_def)
  moreover have "list_all envelope_ok (xv_envelopes (export_view f64 (rt_view t)))"
    by (auto simp: export_view_def list_all_iff export_envelope_def envelope_ok_def hash_text_def)
  moreover have "list_all event_ok (xv_replay_events (export_view f64 (rt_view t)))"
    by (auto simp: export_view_def list_all_iff export_event_def event_ok_def)
  moreover have "clock_ok (xv_clock (export_view f64 (rt_view t)))"
    using assms(1) by (simp add: export_view_def export_clock_def clock_ok_def clock_hundredths_def)
  ultimately show ?thesis
    by (simp add: tick_ok_def exported_tick_def view_ok_def readable_telemetry hash_text_def)
qed

lemma record_all_json:
  "record_all js xs b = Inr b' \<Longrightarrow>
   external_json_ticks b' = external_json_ticks b @
     map (\<lambda>i. js (length (scheduler_snapshots b) + i) (tick_of (xs ! i))) [0..<length xs]"
proof (induction js xs b rule: record_all.induct)
  case (2 js s v t xs b)
  obtain d c where d: "compress_tick (recorded_tick s v t) (rb_compressor b) = (Inr d, c)"
    using "2.prems" by (auto simp: record_tick_def Let_def split: prod.splits sum.splits)
  have "[0..<Suc (length xs)] = 0 # map Suc [0..<length xs]" by (simp add: upt_conv_Cons map_Suc_upt del: upt_Suc)
  then show ?case
    using 2 by (fastforce simp: record_tick_def Let_def d simp del: upt_Suc)
qed simp

lemma sorted_envelopes: "sorted (map (\<lambda>e. (xe_id e, xe_timestamp e, xe_payload_hash e)) (sort_key envelope_order es))"
  using sorted_sort_key [of envelope_order es] by (simp add: envelope_order_def [abs_def])

lemma exported_fields:
  "xt_tick_index (exported_tick f64 n t) = n \<and>
   xv_node_count (xt_cluster_view (exported_tick f64 n t)) = vi_total_nodes (rt_view t) \<and>
   map (\<lambda>e. (xr_type e, xr_height e)) (xv_replay_events (xt_cluster_view (exported_tick f64 n t))) =
     map (\<lambda>e. (re_type e, re_height e)) (vi_replay_events (rt_view t)) \<and>
   mset (map (\<lambda>e. (xe_id e, xe_timestamp e)) (xv_envelopes (xt_cluster_view (exported_tick f64 n t)))) =
     mset (map (\<lambda>e. (u64_at 0 e, u64_at 128 e)) (vi_mesh_envelopes (rt_view t))) \<and>
   sorted (map (\<lambda>e. (xe_id e, xe_timestamp e, xe_payload_hash e))
     (xv_envelopes (xt_cluster_view (exported_tick f64 n t))))"
proof -
  let ?es = "map export_envelope (vi_mesh_envelopes (rt_view t))"
  have "mset (map (\<lambda>e. (xe_id e, xe_timestamp e)) (sort_key envelope_order ?es)) =
      mset (map (\<lambda>e. (xe_id e, xe_timestamp e)) ?es)"
    by (simp only: mset_map mset_sort)
  moreover have "map (\<lambda>e. (xe_id e, xe_timestamp e)) ?es =
      map (\<lambda>e. (u64_at 0 e, u64_at 128 e)) (vi_mesh_envelopes (rt_view t))"
    by (simp add: export_envelope_def envelope_source_def envelope_epoch_height_def)
  ultimately have es: "mset (map (\<lambda>e. (xe_id e, xe_timestamp e)) (sort_key envelope_order ?es)) =
      mset (map (\<lambda>e. (u64_at 0 e, u64_at 128 e)) (vi_mesh_envelopes (rt_view t)))"
    by (simp only:)
  have view: "xt_cluster_view (exported_tick f64 n t) = export_view f64 (rt_view t)"
      "xv_envelopes (export_view f64 (rt_view t)) = sort_key envelope_order ?es"
    by (simp_all add: exported_tick_def export_view_def)
  show ?thesis
    unfolding view using es sorted_envelopes [of ?es]
    by (intro conjI) (simp_all only:, simp_all add: exported_tick_def export_view_def export_event_def)
qed

section \<open>The property\<close>

text \<open>
  C39. What the replay buffer writes for other programs is what it recorded. Over every recorded
  run whose clocks hold hundredths of a second and whose scores are percentages, the text the
  buffer keeps at each index reads back as the export of the tick recorded there: it has that
  index and the recorded number of nodes, heights and kinds of the events in order, and sources
  and epochs of exactly the recorded envelopes, sorted.
\<close>

theorem recorded_json_read_back:
  assumes "record_all (export_json f64 oob) xs new_replay_buffer = Inr b" "i < length xs"
    "clock_hundredths f64 (vi_clock (rt_view (tick_of (xs ! i))))"
    "summary_score (vi_coherence_summary (rt_view (tick_of (xs ! i)))) \<le> 100"
  shows "\<exists>t. from_json_tick u k (external_json_ticks b ! i) = Inr t \<and>
    t = exported_tick f64 (of_nat i) (tick_of (xs ! i)) \<and>
    xt_tick_index t = of_nat i \<and>
    xv_node_count (xt_cluster_view t) = vi_total_nodes (rt_view (tick_of (xs ! i))) \<and>
    map (\<lambda>e. (xr_type e, xr_height e)) (xv_replay_events (xt_cluster_view t)) =
      map (\<lambda>e. (re_type e, re_height e)) (vi_replay_events (rt_view (tick_of (xs ! i)))) \<and>
    mset (map (\<lambda>e. (xe_id e, xe_timestamp e)) (xv_envelopes (xt_cluster_view t))) =
      mset (map (\<lambda>e. (u64_at 0 e, u64_at 128 e)) (vi_mesh_envelopes (rt_view (tick_of (xs ! i))))) \<and>
    sorted (map (\<lambda>e. (xe_id e, xe_timestamp e, xe_payload_hash e)) (xv_envelopes (xt_cluster_view t)))"
proof -
  let ?t = "exported_tick f64 (of_nat i) (tick_of (xs ! i))"
  have "external_json_ticks b ! i = tick_json oob ?t"
    using record_all_json [OF assms(1)] assms(2) by (simp add: new_replay_buffer_def export_json_def)
  then have "from_json_tick u k (external_json_ticks b ! i) = Inr ?t"
    using tick_back [OF exported_ok [OF assms(3,4)]] by simp
  then show ?thesis using exported_fields [of f64 "of_nat i" "tick_of (xs ! i)"] by blast
qed

theorem recorded_json_read_back_witness:
  "\<forall>oob u k. \<exists>b. record_all (export_json (\<lambda>_. Fin 0) oob) [demo_record] new_replay_buffer = Inr b \<and>
     from_json_tick u k (external_json_ticks b ! 0) = Inr (exported_tick (\<lambda>_. Fin 0) 0 (tick_of demo_record))"
proof (intro allI)
  fix oob u k
  obtain b where b: "record_all (export_json (\<lambda>_. Fin 0) oob) [demo_record] new_replay_buffer = Inr b"
    using demo_recorded by blast
  have "summary_score (vi_coherence_summary (rt_view (tick_of demo_record))) \<le> 100"
    by (simp add: demo_record_def recorded_tick_def empty_view_def summary_score_def u64_at_def)
      (simp add: image_lengths numeral_eq_Suc)
  moreover have "clock_hundredths (\<lambda>_. Fin 0) c" for c by (simp add: clock_hundredths_def hundredth_zero)
  ultimately have "from_json_tick u k (external_json_ticks b ! 0) = Inr (exported_tick (\<lambda>_. Fin 0) 0 (tick_of demo_record))"
    using recorded_json_read_back [OF b, of 0 u k] by auto
  with b show "\<exists>b. record_all (export_json (\<lambda>_. Fin 0) oob) [demo_record] new_replay_buffer = Inr b \<and>
      from_json_tick u k (external_json_ticks b ! 0) = Inr (exported_tick (\<lambda>_. Fin 0) 0 (tick_of demo_record))"
    by blast
qed

end
