(* ===== verification/Audit_Trail.thy ===== *)
theory Audit_Trail
  imports Federation_Export Json_Props
begin

text \<open>
  The audit trail of exported ticks, the worker of \<open>src/kernel/Hooks.cpp\<close>, and the snapshots of
  \<open>src/runtime/StateProjection.cpp\<close>. The file system maps paths to contents; its operations do
  what they say, except that the temporary file may fail to open. The worker takes texts from the
  queue in order; the lock makes each \<open>enqueueTick\<close> one step.
\<close>

section \<open>The worker\<close>

type_synonym files = "string \<Rightarrow> string option"

definition filepath :: string where
  "filepath = ''logs/audit_trail.json''"

definition rename_file :: "string \<Rightarrow> string \<Rightarrow> files \<Rightarrow> files" where
  "rename_file a b fs = (if fs a \<noteq> None then fs(a := None, b := fs a) else fs)"

definition rotateFiles :: "string \<Rightarrow> files \<Rightarrow> files" where
  "rotateFiles p fs =
     (let file3 = p @ ''.3''; file2 = p @ ''.2''; file1 = p @ ''.1''
      in rename_file p file1 (rename_file file1 file2 (rename_file file2 file3 fs)))"

text \<open>What the file holds; text that does not parse counts as an empty list.\<close>

definition audit_list :: "string option \<Rightarrow> json" where
  "audit_list content =
     (case content of
        None \<Rightarrow> JArr []
      | Some c \<Rightarrow> if c = [] then JArr [] else (case parse c of Inl e \<Rightarrow> JArr [] | Inr j \<Rightarrow> j))"

definition writeTickToAuditTrail :: "bool \<Rightarrow> string \<Rightarrow> files \<Rightarrow> files" where
  "writeTickToAuditTrail opens tick_json_str fs =
     (let fs1 = (case fs filepath of
                   Some c \<Rightarrow> if 5 * 1024 * 1024 \<le> length c then rotateFiles filepath fs else fs
                 | None \<Rightarrow> fs);
          old = audit_list (fs1 filepath)
      in case parse tick_json_str of
           Inl e \<Rightarrow> fs1
         | Inr tick \<Rightarrow>
             if opens then rename_file (filepath @ ''.tmp'') filepath
                             (fs1(filepath @ ''.tmp'' \<mapsto> dump (j_push tick old)))
             else fs1)"

text \<open>The queue, worked off; the flags say which times the temporary file opens.\<close>

fun processQueue :: "(nat \<Rightarrow> bool) \<Rightarrow> string list \<Rightarrow> files \<Rightarrow> files" where
  "processQueue opens [] fs = fs"
| "processQueue opens (s # q) fs = processQueue (\<lambda>i. opens (Suc i)) q (writeTickToAuditTrail (opens 0) s fs)"

section \<open>Snapshots\<close>

record projection_ticks =
  g_global_tick :: u64
  g_subsystem_tick :: u64

definition generateSnapshot :: "projection_ticks \<Rightarrow> ext_snapshot \<times> projection_ticks" where
  "generateSnapshot g =
     (let g1 = \<lparr>g_global_tick = g_global_tick g + 1, g_subsystem_tick = g_subsystem_tick g + 1\<rparr> in
      (\<lparr>xn_active_sessions = [\<lparr>xs_session_id = ''session_1'', xs_status = ''idle''\<rparr>,
          \<lparr>xs_session_id = ''session_2'', xs_status = ''active''\<rparr>],
        xn_broadcast_queues = [\<lparr>xq_pending_count = 5, xq_queue_id = ''mempool_queue''\<rparr>,
          \<lparr>xq_pending_count = 1, xq_queue_id = ''anchor_queue''\<rparr>],
        xn_current_tick_index = 0, xn_global_tick_count = g_global_tick g1, xn_replay_active = False,
        xn_subsystem_tick_count = g_subsystem_tick g1, xn_total_ticks = 100\<rparr>, g1))"

section \<open>A tick as the JSON library reads it\<close>

abbreviation u64_value :: "u64 \<Rightarrow> json" where
  "u64_value w \<equiv> JNum (double_of_u64 w)"

definition envelope_value :: "ext_envelope \<Rightarrow> json" where
  "envelope_value e = JObj [(''id'', u64_value (xe_id e)), (''payload_hash'', JStr (xe_payload_hash e)),
     (''status'', JStr (xe_status e)), (''timestamp'', u64_value (xe_timestamp e)), (''type'', JStr (xe_type e))]"

definition clock_value :: "ext_clock \<Rightarrow> json" where
  "clock_value c = JObj [(''consensus_time'', JNum (xk_consensus_time c)), (''height'', u64_value (xk_height c)),
     (''interval_seconds'', JNum (xk_interval_seconds c))]"

definition event_value :: "ext_event \<Rightarrow> json" where
  "event_value e = JObj [(''block_hash'', JStr (xr_block_hash e)), (''height'', u64_value (xr_height e)),
     (''txid'', JStr (xr_txid e)), (''type'', u64_value (ucast (xr_type e)))]"

definition view_value :: "ext_view \<Rightarrow> json" where
  "view_value v = JObj [(''clock'', clock_value (xv_clock v)), (''coherence'', JNum (xv_coherence v)),
     (''envelopes'', JArr (map envelope_value (xv_envelopes v))), (''node_count'', u64_value (xv_node_count v)),
     (''replay_events'', JArr (map event_value (xv_replay_events v)))]"

definition tick_value :: "ext_tick \<Rightarrow> json" where
  "tick_value t = JObj [(''cluster_view'', view_value (xt_cluster_view t)),
     (''replay_mode_state'', JStr (xt_replay_mode_state t)), (''replay_phase'', JStr (xt_replay_phase t)),
     (''scheduler_state_hash'', JStr (xt_scheduler_state_hash t)), (''telemetry_json'', JStr (xt_telemetry_json t)),
     (''tick_index'', u64_value (xt_tick_index t))]"

section \<open>Text of the exporter, read by the library\<close>

lemma decimal_to_dec: "decimal (to_dec n) = Some (False, of_nat n)"
  using decimal_text(1) [of "to_dec n" "[]" None] to_dec_digits [of n]
  by (simp add: number_text_def point_def exp_part_def exp_val_def)

lemma shows_number:
  assumes "stod t = Inr d" "t = sg @ number_text ip fp None" "sg = [] \<or> sg = ''-''"
    "list_all is_digit ip" "ip \<noteq> []" "list_all is_digit fp"
  shows "shows_as t (JNum d)"
proof -
  obtain c cs where c: "t = c # cs" "c = CHR ''-'' \<or> is_digit c"
    using assms(2-5) by (cases ip) (auto simp: number_text_def)
  note st = number_start [OF c(2)]
  have "parse_leaf (t @ rest) = Inr (JNum d, rest)" if rest: "ends_value rest" for rest
  proof -
    have "after_number (t @ rest) = rest"
      using after_number_text [OF assms(4-6) rest assms(3), of None] by (simp add: assms(2))
    then have "parse_number (t @ rest) = Inr (d, rest)" using assms(1) by (simp add: parse_number_def)
    then show ?thesis using st c(2) by (auto simp: c(1) parse_leaf_def)
  qed
  then show ?thesis using c(1) st by (auto intro!: shows_leaf)
qed

lemma stod_whole:
  assumes "round_double (of_nat n) = Fin r"
  shows "stod (to_dec n) = Inr (Fin r)"
proof -
  have "\<not> of_nat n < tiny_bound \<or> r = of_nat n"
  proof (cases n)
    case (Suc k)
    have "1 \<le> (of_nat n :: rat)" unfolding Suc by simp
    moreover have "tiny_bound \<le> 1" using tiny_bound_le normal_pow [of 1] by simp
    ultimately show ?thesis by simp
  qed (use assms in \<open>simp add: round_double_def\<close>)
  then show ?thesis by (auto simp: stod_def decimal_to_dec assms Let_def)
qed

lemma stod_u64: "stod (to_dec (unat w)) = Inr (double_of_u64 w)"
proof -
  have "ordinary (double_of_u64 w)" by (rule ordinary_u64)
  then obtain r where "double_of_u64 w = Fin r" by (auto simp: ordinary_def split: double.splits)
  then show ?thesis using stod_whole [of "unat w" r] by (simp only: double_of_u64_def)
qed

lemma shows_u64: "shows_as (to_dec (unat w)) (u64_value w)"
  using to_dec_digits [of "unat w"]
  by (intro shows_number [OF stod_u64, of _ "[]" "to_dec (unat w)" "[]"])
    (simp_all add: number_text_def point_def exp_part_def)

lemma shows_double:
  assumes "hundredth d"
  shows "shows_as (format_double_stable oob d) (JNum d)"
proof -
  obtain n where n: "\<bar>n\<bar> \<le> 10 ^ 12" "d = cents n" using assms by (auto simp: hundredth_def)
  have fp: "list_all is_digit (two_digits (nat \<bar>n\<bar> mod 100))" "length (two_digits (nat \<bar>n\<bar> mod 100)) = 2"
    using two_digits_value [of "nat \<bar>n\<bar> mod 100"] by simp_all
  then have "plain_text (nat \<bar>n\<bar>) = number_text (to_dec (nat \<bar>n\<bar> div 100)) (two_digits (nat \<bar>n\<bar> mod 100)) None"
    by (auto simp: plain_text_def number_text_def point_def exp_part_def)
  then show ?thesis
    unfolding n(2) format_cents [OF n(1)]
    using to_dec_digits [of "nat \<bar>n\<bar> div 100"] fp(1)
    by (intro shows_number [OF stod_cents [OF n(1)], where ip = "to_dec (nat \<bar>n\<bar> div 100)"
          and fp = "two_digits (nat \<bar>n\<bar> mod 100)" and sg = "if n < 0 then ''-'' else []"]) auto
qed

lemma string_body_readable:
  "readable s \<Longrightarrow> string_body acc (escape_string s @ CHR 0x22 # rest) = Inr (acc @ s, rest)"
proof (induction s arbitrary: acc)
  case (Cons c s)
  then have IH: "string_body a (escape_string s @ CHR 0x22 # rest) = Inr (a @ s, rest)" for a by simp
  have "string_body acc (escape_byte c @ t) = string_body (acc @ [c]) t" for t
    using Cons.prems by (auto simp: escape_byte_def unescape_def)
  then show ?case using IH by (simp add: escape_string_def)
qed (simp add: escape_string_def)

lemma shows_string:
  assumes "readable s"
  shows "shows_as (CHR 0x22 # escape_string s @ [CHR 0x22]) (JStr s)"
  using string_body_readable [OF assms, of "[]"]
  by (intro shows_leaf) (auto simp: parse_leaf_def parse_string_def)

lemma shows_braced:
  assumes "list_all2 member_shows ms es" "sorted_wrt (<) (map fst es)"
  shows "shows_as (braced ms) (JObj es)"
  using shows_object [OF assms] by (simp add: braced_def)

lemma member_number: "plain_key k \<Longrightarrow> member_shows (number_field k w) (k, u64_value w)"
  using shows_u64 [of w] by (auto simp: member_shows_def number_field_def key_text_def)

lemma member_string: "plain_key k \<Longrightarrow> readable s \<Longrightarrow> member_shows (string_field k s) (k, JStr s)"
  using shows_string [of s] by (auto simp: member_shows_def string_field_def key_text_def)

lemma member_double: "plain_key k \<Longrightarrow> hundredth d \<Longrightarrow> member_shows (double_field oob k d) (k, JNum d)"
  using shows_double [of d oob] by (auto simp: member_shows_def double_field_def key_text_def)

lemma member_object: "plain_key k \<Longrightarrow> shows_as s j \<Longrightarrow> member_shows (key_text k @ s) (k, j)"
  by (auto simp: member_shows_def key_text_def)

lemma member_list:
  "plain_key k \<Longrightarrow> (\<And>v. v \<in> set vs \<Longrightarrow> shows_as (pr v) (f v)) \<Longrightarrow>
   member_shows (list_field k (map pr vs)) (k, JArr (map f vs))"
  using shows_array [of "map pr vs" "map f vs"]
  by (auto simp: member_shows_def list_field_def key_text_def list_all2_conv_all_nth)

lemmas member_texts = member_number member_string member_double member_object member_list

lemma keys_sorted:
  "sorted_wrt (<) [''id'', ''payload_hash'', ''status'', ''timestamp'', ''type'']"
  "sorted_wrt (<) [''consensus_time'', ''height'', ''interval_seconds'']"
  "sorted_wrt (<) [''block_hash'', ''height'', ''txid'', ''type'']"
  "sorted_wrt (<) [''clock'', ''coherence'', ''envelopes'', ''node_count'', ''replay_events'']"
  "sorted_wrt (<) [''cluster_view'', ''replay_mode_state'', ''replay_phase'', ''scheduler_state_hash'',
     ''telemetry_json'', ''tick_index'']"
  by code_simp+

lemma envelope_shows: "envelope_ok e \<Longrightarrow> shows_as (envelope_json e) (envelope_value e)"
  unfolding envelope_json_def envelope_value_def
  by (rule shows_braced) (simp_all add: envelope_ok_def member_texts plain_key_def keys_sorted del: sorted_wrt.simps)

lemma clock_shows: "clock_ok c \<Longrightarrow> shows_as (clock_json oob c) (clock_value c)"
  unfolding clock_json_def clock_value_def
  by (rule shows_braced) (simp_all add: clock_ok_def member_texts plain_key_def keys_sorted del: sorted_wrt.simps)

lemma event_shows: "event_ok e \<Longrightarrow> shows_as (event_json e) (event_value e)"
  unfolding event_json_def event_value_def
  by (rule shows_braced) (simp_all add: event_ok_def member_texts plain_key_def keys_sorted del: sorted_wrt.simps)

lemma view_shows: "view_ok v \<Longrightarrow> shows_as (view_json oob v) (view_value v)"
  unfolding view_json_def view_value_def
  by (rule shows_braced)
    (simp_all add: view_ok_def list_all_iff clock_shows envelope_shows event_shows member_texts plain_key_def
      keys_sorted del: sorted_wrt.simps)

lemma tick_shows: "tick_ok t \<Longrightarrow> shows_as (tick_json oob t) (tick_value t)"
  unfolding tick_json_def tick_value_def
  by (rule shows_braced)
    (simp_all add: tick_ok_def view_shows member_texts plain_key_def keys_sorted del: sorted_wrt.simps)

section \<open>Rewriting the trail\<close>

lemma ordinary_hundredth:
  assumes "hundredth d"
  shows "ordinary d"
proof -
  obtain n where n: "\<bar>n\<bar> \<le> 10 ^ 12" "d = cents n" using assms by (auto simp: hundredth_def)
  show ?thesis
  proof (cases "n = 0")
    case False
    define m :: rat where "m = of_int \<bar>n\<bar> / 100"
    have h: "1 / 100 \<le> m" "m \<le> 10 ^ 15" using False n(1) by (auto simp: m_def)
    obtain v where v: "round_double m = Fin v" "v - m \<le> m / 2 ^ 53" "m - v \<le> m / 2 ^ 53" "0 < v"
      using ordinary_near [OF h] .
    have "1 / 200 \<le> v" "v \<le> 2 * 10 ^ 15" using v(2,3) h by simp_all
    moreover have "pow2 (- 1000) \<le> 1 / 200" by (simp add: pow2_def)
    moreover have "2 * 10 ^ 15 \<le> (2 ^ 1000 :: rat)" by simp
    ultimately have "pow2 (- 1000) \<le> v" "v \<le> 2 ^ 1000" by linarith+
    moreover have "d = Fin v \<or> d = Fin (- v)"
    proof (cases "0 < n")
      case True
      then show ?thesis using v(1) by (simp add: n(2) cents_def m_def)
    next
      case neg: False
      then have "of_int n / 100 = - m" by (simp add: m_def)
      then show ?thesis using round_double_odd [OF v(1) _ v(4)] h(1) by (simp add: n(2) cents_def)
    qed
    ultimately show ?thesis using v(4) by (auto simp: ordinary_def)
  qed (simp add: n(2) cents_def round_double_def ordinary_def)
qed


text \<open>A value whose numbers have an ordinary size looks the same after a trip through text.\<close>

fun tidy :: "json \<Rightarrow> bool" where
  "tidy (JNum d) = ordinary d"
| "tidy (JArr xs) = list_all tidy xs"
| "tidy (JObj es) = (sorted_wrt (<) (map fst es) \<and> list_all (\<lambda>e. plain_key (fst e) \<and> tidy (snd e)) es)"
| "tidy _ = True"

lemma print_again:
  assumes "ordinary d"
  shows "d_print (reread d) = d_print d"
proof -
  obtain r where r: "d = Fin r" "r = 0 \<or> pow2 (- 1000) \<le> \<bar>r\<bar> \<and> \<bar>r\<bar> \<le> 2 ^ 1000"
    using assms by (auto simp: ordinary_def split: double.splits)
  show ?thesis
  proof (cases "r = 0")
    case True
    then show ?thesis using reread_small_nat [of 0] by (simp add: r(1))
  next
    case False
    then obtain v where "stod (d_print (Fin r)) = Inr (Fin v)" "d_print (Fin v) = d_print (Fin r)"
      using printed_again [of r] r(2) by blast
    then show ?thesis by (simp add: r(1) reread_def)
  qed
qed

lemma tidy_storable: "tidy j \<Longrightarrow> storable j"
proof (induction j rule: tidy.induct)
  case (1 d)
  then show ?case using keepable_ordinary [of d] by (simp add: keepable_def)
qed (auto simp: list_all_iff)

lemma tidy_dump: "tidy j \<Longrightarrow> dump (stored j) = dump j"
proof (induction j rule: tidy.induct)
  case (2 xs)
  then have "map dump (map stored xs) = map dump xs" by (simp add: list_all_iff)
  then show ?case by (simp del: map_map)
next
  case (3 es)
  then have "map (\<lambda>e. CHR 0x22 # fst e @ CHR 0x22 # CHR '':'' # dump (snd e)) (map (\<lambda>e. (fst e, stored (snd e))) es) =
      map (\<lambda>e. CHR 0x22 # fst e @ CHR 0x22 # CHR '':'' # dump (snd e)) es"
    by (auto simp: list_all_iff)
  then show ?case by (simp del: map_map)
qed (simp_all add: print_again)

lemma tick_tidy: "tick_ok t \<Longrightarrow> tidy (tick_value t)"
  by (simp add: tick_ok_def tick_value_def view_ok_def view_value_def clock_ok_def clock_value_def
      envelope_value_def event_value_def list_all_iff ordinary_u64 ordinary_hundredth plain_key_def
      keys_sorted del: sorted_wrt.simps)

text \<open>What the file holds when it lists the values \<open>xs\<close>.\<close>

definition trail :: "json list \<Rightarrow> string option" where
  "trail xs = (if xs = [] then None else Some (dump (JArr xs)))"

lemma commas_prefix: "length (commas xs) \<le> length (commas (xs @ ys))"
proof (induction xs rule: commas.induct)
  case (2 s)
  then show ?case by (cases ys) auto
qed auto

lemma trail_prefix: "length (dump (JArr xs)) \<le> length (dump (JArr (xs @ ys)))"
  using commas_prefix [of "map dump xs" "map dump ys"] by simp

lemma write_appends:
  assumes "fs filepath = trail xs" "list_all tidy xs" "length (dump (JArr xs)) < 5 * 1024 * 1024" "shows_as s v"
  shows "writeTickToAuditTrail True s fs filepath = trail (xs @ [v])"
proof -
  have old: "dump (j_push v (audit_list (trail xs))) = dump (JArr (xs @ [v]))"
  proof (cases "xs = []")
    case False
    have t: "tidy (JArr xs)" using assms(2) by simp
    have "dump (stored (JArr xs)) = dump (JArr xs)" by (rule tidy_dump [OF t])
    moreover have "map dump (map stored xs) = map dump xs"
      using assms(2) tidy_dump by (auto simp: list_all_iff)
    ultimately show ?thesis
      using dump_parse [OF tidy_storable [OF t]] False
      by (simp add: trail_def audit_list_def j_push_def del: map_map)
  qed (simp add: trail_def audit_list_def j_push_def)
  have kept: "(case trail xs of Some c \<Rightarrow> if 5 * 1024 * 1024 \<le> length c then rotateFiles filepath fs else fs
      | None \<Rightarrow> fs) = fs"
    using assms(3) by (auto simp: trail_def)
  show ?thesis
    unfolding writeTickToAuditTrail_def assms(1) kept Let_def parse_shown [OF assms(4)] sum.case old
    by (simp add: rename_file_def trail_def del: dump.simps)
qed

lemma queue_appends:
  assumes "fs filepath = trail xs" "list_all tidy xs" "list_all tick_ok ts"
    "length (dump (JArr (xs @ map tick_value ts))) < 5 * 1024 * 1024"
  shows "processQueue (\<lambda>_. True) (map (tick_json oob) ts) fs filepath = trail (xs @ map tick_value ts)"
  using assms
proof (induction ts arbitrary: xs fs)
  case (Cons t ts)
  have "length (dump (JArr xs)) < 5 * 1024 * 1024"
    using Cons.prems(4) trail_prefix [of xs "map tick_value (t # ts)"] by linarith
  then have "writeTickToAuditTrail True (tick_json oob t) fs filepath = trail (xs @ [tick_value t])"
    using Cons.prems tick_shows [of t oob] by (intro write_appends) simp_all
  then have "processQueue (\<lambda>_. True) (map (tick_json oob) ts) (writeTickToAuditTrail True (tick_json oob t) fs) filepath =
      trail ((xs @ [tick_value t]) @ map tick_value ts)"
    using Cons.prems tick_tidy [of t] by (intro Cons.IH) simp_all
  then show ?case by simp
qed simp

lemma burst_queue:
  "fold (onReplayTick oob) ts q = q @ map (tick_json oob) (take (1000 - length q) ts)"
proof (induction ts arbitrary: q)
  case (Cons t ts)
  show ?case
  proof (cases "length q < 1000")
    case True
    then have "1000 - length q = Suc (1000 - length (q @ [tick_json oob t]))" by simp
    then show ?thesis using Cons.IH [of "q @ [tick_json oob t]"] True by (simp add: onReplayTick_def enqueueTick_def)
  next
    case False
    then show ?thesis using Cons.IH [of q] by (simp add: onReplayTick_def enqueueTick_def)
  qed
qed simp

section \<open>The property\<close>

text \<open>
  C40. The audit trail lists the exported ticks in order. When ticks with readable strings and
  hundredths are exported while the worker waits, and the trail they make is below five MiB, the
  worker then turns an empty trail into the JSON list of the first thousand of them, one entry for
  each, with every string and every number as the tick has it, numbers to six digits.
\<close>

theorem audit_trail_lists_ticks:
  assumes "list_all tick_ok ts" "fs filepath = None" "ts \<noteq> []"
    "length (dump (JArr (map tick_value (take 1000 ts)))) < 5 * 1024 * 1024"
  shows "processQueue (\<lambda>_. True) (fold (onReplayTick oob) ts []) fs filepath =
    Some (dump (JArr (map tick_value (take 1000 ts))))"
proof -
  have ok: "list_all tick_ok (take 1000 ts)" using assms(1) by (auto simp: list_all_iff dest: in_set_takeD)
  have "processQueue (\<lambda>_. True) (map (tick_json oob) (take 1000 ts)) fs filepath =
      trail ([] @ map tick_value (take 1000 ts))"
    by (rule queue_appends) (use assms(2,4) ok in \<open>simp_all add: trail_def del: dump.simps\<close>)
  then show ?thesis using burst_queue [of oob ts "[]"] assms(3) by (simp add: trail_def del: dump.simps)
qed

lemma print_small: "unat w < 10 ^ 6 \<Longrightarrow> d_print (double_of_u64 w) = to_dec (unat w)"
  using printed_small_nat [of "unat w"] round_double_nat [of "unat w"] by (simp add: double_of_u64_def)

theorem audit_trail_lists_ticks_witness:
  "\<forall>oob. processQueue (\<lambda>_. True) (fold (onReplayTick oob) [sample_ext_tick, sample_ext_tick] []) (\<lambda>_. None) filepath =
    Some (dump (JArr [tick_value sample_ext_tick, tick_value sample_ext_tick]))"
proof
  fix oob
  have "length (dump (JArr [tick_value sample_ext_tick, tick_value sample_ext_tick])) < 5 * 1024 * 1024"
    by (simp add: tick_value_def sample_ext_tick_def view_value_def clock_value_def envelope_value_def
        print_small to_dec.simps)
  note len = this
  have "list_all tick_ok [sample_ext_tick, sample_ext_tick]" by (simp add: sample_tick_ok)
  from audit_trail_lists_ticks [OF this, of "\<lambda>_. None" oob] len
  show "processQueue (\<lambda>_. True) (fold (onReplayTick oob) [sample_ext_tick, sample_ext_tick] []) (\<lambda>_. None) filepath =
    Some (dump (JArr [tick_value sample_ext_tick, tick_value sample_ext_tick]))"
    by (simp del: dump.simps)
qed

end
