(* ===== verification/Spec2Isabelle.thy ===== *)
theory Spec2Isabelle
  imports Ledger_Props BlockProducer_Props ReplayEngine BitVM_Props Bridge_Props Swap_Props Scheduler_Props Runtime_Protocol Settlement L2State_Props Recovery_Props L1_Anchor Bech32 Federation Gold_Props Replay_Store_Props Audit_Trail
begin

text \<open>
  The AILEE runtime protocol (a C++ repository) runs an economic and settlement layer beside
  Bitcoin: it watches Bitcoin, executes a deterministic layer-2 engine on many nodes, records and
  compresses what they did, anchors the resulting state root in a Taproot transaction, and keeps
  ledgers, bridges and recovery procedures on top. This library is a shallow embedding of its
  deterministic core. Every definition is a translation of the code it names, errors, early
  returns, wrap-around and oddities included; every theorem is about those definitions.

  How the parts interact.

    \<^item> Bitcoin side. \<open>L1Sync\<close> applies header batches and turns reorganisations into sync events;
      \<open>ReplayEngine\<close> writes the events into a tick, \<open>ReplayTick\<close> gives the tick its bytes and
      \<open>Compressor\<close> shrinks them. \<open>Reorg\<close> and \<open>Settlement\<close> keep blocks, anchors and detections in a
      RocksDB store.
    \<^item> Cluster side. \<open>L2Engine\<close> is what one node computes from a tick; \<open>PeerSync\<close> is the gossip
      between two nodes; \<open>Cluster\<close> has the functions on a view of all nodes; \<open>Scheduler\<close> runs the
      engines and those functions phase by phase; \<open>Federation\<close> runs several clusters and
      \<open>Root_Image\<close> hashes what they agree on.
    \<^item> Anchoring. \<open>Taproot\<close>, \<open>Bech32\<close>, \<open>Anchor_Commit\<close> and \<open>L1_Anchor\<close> build, sign and check the
      transactions that carry a root to Bitcoin; \<open>L2State\<close> has the snapshots and their roots.
    \<^item> Runtime of level 6. \<open>Isla_Runtime\<close> orchestrates one epoch: \<open>Isla_Tuning\<close> tunes, \<open>Isla\<close> has
      the rules an epoch must meet, \<open>Zk_Backend\<close> the plans and proofs, \<open>Temporal\<close> the audit;
      \<open>Anchor_Commit\<close> anchors the epoch and \<open>Replay_Store\<close> records it.
    \<^item> Economy. \<open>Ledger\<close> holds balances and escrows, \<open>Mempool\<close> and \<open>BlockProducer\<close> order and
      confirm transactions, \<open>SPV\<close>, \<open>Peg\<close> and \<open>Bridge\<close> move coins between the chains, \<open>Recovery\<close>
      reclaims lost ones, \<open>Gold\<close> converts payments to metal, with its records kept as \<open>Json\<close> text.
      \<open>BitVM\<close> interprets the scripts of a dispute.
    \<^item> Governance. \<open>Runtime_Protocol\<close> runs \<open>Posture\<close>, interpretation and the gate of \<open>Governance\<close>
      on one call, records the verdict in the ledger of \<open>Alcoa\<close> and feeds \<open>Compartments\<close>.
\<close>

section \<open>Theories and sources\<close>

text \<open>
  File names are relative to \<open>src/\<close>; an operation keeps the name of its function or method and a
  state keeps the names of the members, behind a short prefix.

  Foundations. \<open>Prelude\<close>: machine integers (\<open>u8\<close> to \<open>u64\<close> are words), byte images of words,
  \<open>std::to_string\<close>, and the argument by which a property kept by each operation is kept by each
  run (locale \<open>component\<close>, interpreted by every component with runs). \<open>OMap\<close>: \<open>std::map\<close> as a type
  with extensionality. \<open>Codec\<close>: \<open>memcpy\<close> images, the bounds-checked cursor and the locale of
  codecs. \<open>Hex\<close>, \<open>IStream\<close>: hexadecimal text and the formatted extraction of \<open>istringstream\<close>.
  \<open>Double\<close>, \<open>Double_Arith\<close>: \<open>double\<close> as zero, infinities, NaN and exact rationals, each operation
  rounded once. \<open>Secp\<close>: the calls of libsecp256k1.

    \<^item> \<open>Ledger\<close>, \<open>Ledger_Props\<close>: \<open>src/core/Ledger.cpp\<close> and \<open>include/Ledger.h\<close>; C1 conservation
      of money over runs, C2 the race in \<open>putInEscrow\<close>, whose three lock
      scopes are separate steps.
    \<^item> \<open>Mempool\<close>: \<open>src/l2/Mempool.cpp\<close>; C3. \<open>BlockProducer\<close>, \<open>BlockProducer_Props\<close>:
      \<open>src/l2/BlockProducer.cpp\<close> over that pool; C22.
    \<^item> \<open>ReplayTick\<close>, \<open>Compressor\<close>, \<open>ReplayEngine\<close>, \<open>L1Sync\<close>, \<open>L1Sync_Props\<close>: \<open>src/l4\<close> and
      \<open>src/l5\<close>; round trips of a tick (C4), of a compressed stream (C5), of a recorded run (C14),
      rejection of a corrupted byte (C6), and in this theory C15, which spans the sync and the
      replay components.
    \<^item> \<open>BitVM\<close>, \<open>BitVM_Props\<close>: \<open>src/runtime/BitVMInterpreter.cpp\<close>; termination and the branch
      invariant (C7), the parser (C8), a whole script (C9).
    \<^item> \<open>SPV\<close>, \<open>Peg\<close>, \<open>Bridge\<close>, \<open>Bridge_Props\<close>, \<open>Swap_Props\<close>:
      \<open>src/l2/ailee_sidechain_bridge.h\<close>; Merkle proofs (C10), the reachable bridges (C11), safety
      (C12) and liveness (C13) of a release.
    \<^item> \<open>L2Engine\<close>, \<open>PeerSync\<close>, \<open>Cluster\<close>, \<open>Cluster_Props\<close>, \<open>Scheduler\<close>, \<open>Scheduler_Props\<close>,
      \<open>Federation\<close>, \<open>Root_Image\<close>: \<open>src/l4\<close>, \<open>src/l3\<close> and \<open>src/l6/StateRootBuilder.cpp\<close>; gossip
      (C16), recovery matching (C17), the cluster over many ticks (C18), a federation against its
      clusters alone (C30), what a state root binds (C31).
    \<^item> \<open>Compartments\<close>, \<open>Governance\<close>, \<open>Alcoa\<close>, \<open>Posture\<close>, \<open>Runtime_Protocol\<close>: \<open>src/ailee/\<close>; C19 the
      way out of quarantine, C20 what an approval rests on, C21 the ledger over runs.
    \<^item> \<open>Reorg\<close>, \<open>Reorg_Text\<close>, \<open>Reorg_Props\<close>, \<open>Settlement\<close>: \<open>src/l1/ReorgDetector.cpp\<close> and
      \<open>src/l1/SettlementIngestion.cpp\<close>; C23 refines three abstract maps.
    \<^item> \<open>L2State\<close>, \<open>L2State_Props\<close>: \<open>src/l2/L2State.cpp\<close> and its header; C24.
    \<^item> \<open>Recovery\<close>, \<open>Recovery_Props\<close>: \<open>src/recovery/ailee_recovery_protocol.h\<close>; C25, C26.
    \<^item> \<open>Taproot\<close>, \<open>Anchor_Commit\<close>, \<open>Anchor_Props\<close>, \<open>Bech32\<close>, \<open>L1_Anchor\<close>: \<open>src/taproot\<close>,
      \<open>src/anchor\<close> and the anchor part of \<open>src/l1/BitcoinAdapter.cpp\<close>; C27, C28, C29.
    \<^item> \<open>Json_Number\<close>, \<open>Json\<close>, \<open>Json_Props\<close>: \<open>include/nlohmann/json.hpp\<close>, which is the
      repository's own small class and not the library of that name; C32.
    \<^item> \<open>Json_Bindings\<close>, \<open>Json_Bindings_Props\<close>, \<open>Federation_Export\<close>, \<open>Audit_Trail\<close>:
      \<open>src/l6/JsonBindings.cpp\<close>, \<open>src/l6/FederationExport.cpp\<close>, \<open>src/l6/ReplayExport.cpp\<close>,
      \<open>src/kernel/Hooks.cpp\<close>, \<open>src/runtime/StateProjection.cpp\<close>; the texts of ticks and snapshots
      (C38), those of a recorded run (C39), the audit trail (C40).
    \<^item> \<open>Zk_Backend\<close>, \<open>Isla_Tuning\<close>, \<open>Temporal\<close>, \<open>Isla\<close>, \<open>Isla_Runtime\<close>, \<open>Isla_Props\<close>,
      \<open>Replay_Store\<close>, \<open>Replay_Store_Props\<close>: \<open>src/l6\<close>, \<open>src/semantics\<close> and
      \<open>src/simulation/validation\<close>; what the tuning depends on (C35), the anchors of
      epochs (C36), the replay store (C37).
    \<^item> \<open>Gold\<close>, \<open>Gold_Props\<close>: \<open>src/l2/ailee_gold_bridge.h\<close>; C33, C34.
\<close>

section \<open>Parameters, bounds and fuel\<close>

text \<open>
  Code outside the repository is an argument: \<open>sha\<close> (SHA-256), \<open>crypto\<close>, \<open>secp\<close> and
  \<open>taproot_lib\<close> (libsecp256k1), \<open>kv\<close> (RocksDB), \<open>fmt\<close> (printing a \<open>double\<close> with seventeen
  digits), \<open>to_json\<close> (the export of a tick, \<open>export_json\<close> of \<open>Federation_Export\<close>), \<open>f64\<close> (the
  layout of a \<open>double\<close>), the answers of price oracles and confirmations. So is
  what C++ leaves open: \<open>qpad\<close> and \<open>uninit\<close> (uninitialised bytes), \<open>past_end\<close> (a read behind a
  vector), \<open>oob\<close> (a \<open>double\<close> out of the range of an integer type). Clock readings are arguments of
  the operations that take them. Hypotheses about a parameter are those of its documentation,
  such as the length of a digest, and are stated where they are used; statements that would need
  a hash without collisions say \<open>or there is a collision\<close> instead.

  Loops are recursions on the unread input wherever there is one. Script execution
  loops while instructions remain, which decrease with every step (C7 counts them).
  The JSON parser, whose functions call each other, has the fuel \<open>2 * length + 1\<close>, enough by \<open>json_parser_returns\<close>;
  the readers of exported ticks and snapshots have the length of the text and one, enough by
  \<open>tick_reader_returns\<close> and \<open>snapshot_reader_returns\<close>. Sequences of calls are lists of operations
  folded over a state; where a mutex is held for a whole call the call is one step, where it is
  not (\<open>putInEscrow\<close>) the scopes are steps of their own.
\<close>

section \<open>Not modelled\<close>

text \<open>
  Input and output: sockets and libp2p (\<open>src/network\<close>, \<open>src/l3/NetworkBinding.cpp\<close>), RPC clients
  and listeners (\<open>src/l1/*Adapter.cpp\<close> but for the anchor part), the web server, log files,
  replay files, the main programs. Vendored libraries
  (\<open>include/httplib.h\<close>, \<open>include/third_party\<close>). The throughput engine \<open>src/l2/ailee_tps_engine.h\<close>,
  which draws from random generators, the thread pools of the orchestration, the ambient runtime
  (averages of simulated telemetry), the bindings to a WebAssembly engine.
  \<open>include/ailee_dao_governance.h\<close>, which does not compile and is included nowhere.

  \<open>std::sort\<close> leaves the order of equal keys open; the model takes the stable order. The sign and
  payload of a NaN are not kept. Memory exhaustion, and reads out of range other than those that
  are parameters, are outside the model.
\<close>

text \<open>
  Code outside the repository is an argument: \<open>sha\<close> (SHA-256), \<open>crypto\<close>, \<open>secp\<close> and
  \<open>taproot_lib\<close> (libsecp256k1), \<open>kv\<close> (RocksDB), \<open>fmt\<close> (printing a \<open>double\<close> with seventeen
  digits), \<open>to_json\<close> (the export of a tick, \<open>export_json\<close> of \<open>Federation_Export\<close>), \<open>f64\<close> (the
  layout of a \<open>double\<close>), the answers of price oracles and confirmations. So is
  what C++ leaves open: \<open>qpad\<close> and \<open>uninit\<close> (uninitialised bytes), \<open>past_end\<close> (a read behind a
  vector), \<open>oob\<close> (a \<open>double\<close> out of the range of an integer type). Clock readings are arguments of
  the operations that take them. Hypotheses about a parameter are those of its documentation,
  such as the length of a digest, and are stated where they are used; statements that would need
  a hash without collisions say \<open>or there is a collision\<close> instead.

  Loops are recursions on the unread input wherever there is one. Script execution
  loops while instructions remain, which decrease with every step (C7 counts them).
  The JSON parser, whose functions call each other, has the fuel \<open>2 * length + 1\<close>, enough by \<open>json_parser_returns\<close>;
  the readers of exported ticks and snapshots have the length of the text and one, enough by
  \<open>tick_reader_returns\<close> and \<open>snapshot_reader_returns\<close>. Sequences of calls are lists of operations
  folded over a state; where a mutex is held for a whole call the call is one step, where it is
  not (\<open>putInEscrow\<close>) the scopes are steps of their own.
\<close>

section \<open>Not modelled\<close>

text \<open>
  Input and output: sockets and libp2p (\<open>src/network\<close>, \<open>src/l3/NetworkBinding.cpp\<close>), RPC clients
  and listeners (\<open>src/l1/*Adapter.cpp\<close> but for the anchor part), the web server, log files,
  replay files, the main programs. Vendored libraries
  (\<open>include/httplib.h\<close>, \<open>include/third_party\<close>). The throughput engine \<open>src/l2/ailee_tps_engine.h\<close>,
  which draws from random generators, the thread pools of the orchestration, the ambient runtime
  (averages of simulated telemetry), the bindings to a WebAssembly engine.
  \<open>include/ailee_dao_governance.h\<close>, which does not compile and is included nowhere.

  \<open>std::sort\<close> leaves the order of equal keys open; the model takes the stable order. The sign and
  payload of a NaN are not kept. Memory exhaustion, and reads out of range other than those that
  are parameters, are outside the model.
\<close>

text \<open>
  Code outside the repository is an argument: \<open>sha\<close> (SHA-256), \<open>crypto\<close>, \<open>secp\<close> and
  \<open>taproot_lib\<close> (libsecp256k1), \<open>kv\<close> (RocksDB), \<open>fmt\<close> (printing a \<open>double\<close> with seventeen
  digits), \<open>to_json\<close> (the export of a tick, \<open>export_json\<close> of \<open>Federation_Export\<close>), \<open>f64\<close> (the
  layout of a \<open>double\<close>), the answers of price oracles and confirmations. So is
  what C++ leaves open: \<open>qpad\<close> and \<open>uninit\<close> (uninitialised bytes), \<open>past_end\<close> (a read behind a
  vector), \<open>oob\<close> (a \<open>double\<close> out of the range of an integer type). Clock readings are arguments of
  the operations that take them. Hypotheses about a parameter are those of its documentation,
  such as the length of a digest, and are stated where they are used; statements that would need
  a hash without collisions say \<open>or there is a collision\<close> instead.

  Loops are recursions on the unread input wherever there is one. Script execution
  loops while instructions remain, which decrease with every step (C7 counts them).
  The JSON parser, whose functions call each other, has the fuel \<open>2 * length + 1\<close>, enough by \<open>json_parser_returns\<close>;
  the readers of exported ticks and snapshots have the length of the text and one, enough by
  \<open>tick_reader_returns\<close> and \<open>snapshot_reader_returns\<close>. Sequences of calls are lists of operations
  folded over a state; where a mutex is held for a whole call the call is one step, where it is
  not (\<open>putInEscrow\<close>) the scopes are steps of their own.
\<close>

section \<open>Not modelled\<close>

text \<open>
  Input and output: sockets and libp2p (\<open>src/network\<close>, \<open>src/l3/NetworkBinding.cpp\<close>), RPC clients
  and listeners (\<open>src/l1/*Adapter.cpp\<close> but for the anchor part), the web server, log files,
  replay files, the main programs. Vendored libraries
  (\<open>include/httplib.h\<close>, \<open>include/third_party\<close>). The throughput engine \<open>src/l2/ailee_tps_engine.h\<close>,
  which draws from random generators, the thread pools of the orchestration, the ambient runtime
  (averages of simulated telemetry), the bindings to a WebAssembly engine.
  \<open>include/ailee_dao_governance.h\<close>, which does not compile and is included nowhere.

  \<open>std::sort\<close> leaves the order of equal keys open; the model takes the stable order. The sign and
  payload of a NaN are not kept. Memory exhaustion, and reads out of range other than those that
  are parameters, are outside the model.
\<close>

text \<open>
  Code outside the repository is an argument: \<open>sha\<close> (SHA-256), \<open>crypto\<close>, \<open>secp\<close> and
  \<open>taproot_lib\<close> (libsecp256k1), \<open>kv\<close> (RocksDB), \<open>fmt\<close> (printing a \<open>double\<close> with seventeen
  digits), \<open>to_json\<close> (the export of a tick), the answers of price oracles and confirmations. So is
  what C++ leaves open: \<open>qpad\<close> and \<open>uninit\<close> (uninitialised bytes), \<open>past_end\<close> (a read behind a
  vector), \<open>oob\<close> (a \<open>double\<close> out of the range of an integer type). Clock readings are arguments of
  the operations that take them. Hypotheses about a parameter are those of its documentation,
  such as the length of a digest, and are stated where they are used; statements that would need
  a hash without collisions say \<open>or there is a collision\<close> instead.

  Loops are recursions on the unread input wherever there is one. Script execution
  loops while instructions remain, which decrease with every step (C7 counts them).
  The JSON parser, whose functions call each other, has the fuel \<open>2 * length + 1\<close>, enough by C34. Sequences of calls are lists of operations
  folded over a state; where a mutex is held for a whole call the call is one step, where it is
  not (\<open>putInEscrow\<close>) the scopes are steps of their own.
\<close>

section \<open>Not modelled\<close>

text \<open>
  Input and output: sockets and libp2p (\<open>src/network\<close>, \<open>src/l3/NetworkBinding.cpp\<close>), RPC clients
  and listeners (\<open>src/l1/*Adapter.cpp\<close> but for the anchor part), the web server, log files,
  replay files, the exports of \<open>src/l6/JsonBindings.cpp\<close>, the main programs. Vendored libraries
  (\<open>include/httplib.h\<close>, \<open>include/third_party\<close>). The throughput engine \<open>src/l2/ailee_tps_engine.h\<close>,
  which draws from random generators, the thread pools of the orchestration, the ambient runtime
  (averages of simulated telemetry), the bindings to a WebAssembly engine.
  \<open>include/ailee_dao_governance.h\<close>, which does not compile and is included nowhere.

  \<open>std::sort\<close> leaves the order of equal keys open; the model takes the stable order. The sign and
  payload of a NaN are not kept. Memory exhaustion, and reads out of range other than those that
  are parameters, are outside the model.
\<close>

text \<open>
  Code outside the repository is an argument: \<open>sha\<close> (SHA-256), \<open>crypto\<close>, \<open>secp\<close> and
  \<open>taproot_lib\<close> (libsecp256k1), \<open>kv\<close> (RocksDB), \<open>fmt\<close> (printing a \<open>double\<close> with seventeen
  digits), \<open>to_json\<close> (the export of a tick), the answers of price oracles and confirmations. So is
  what C++ leaves open: \<open>qpad\<close> and \<open>uninit\<close> (uninitialised bytes), \<open>past_end\<close> (a read behind a
  vector), \<open>oob\<close> (a \<open>double\<close> out of the range of an integer type). Clock readings are arguments of
  the operations that take them. Hypotheses about a parameter are those of its documentation,
  such as the length of a digest, and are stated where they are used; statements that would need
  a hash without collisions say \<open>or there is a collision\<close> instead.

  Loops are recursions on the unread input wherever there is one. Script execution
  loops while instructions remain, which decrease with every step (C7 counts them). The JSON parser, whose functions call each
  other, has the fuel \<open>2 * length + 1\<close>, enough by C34. Sequences of calls are lists of operations
  folded over a state; where a mutex is held for a whole call the call is one step, where it is
  not (\<open>putInEscrow\<close>) the scopes are steps of their own.
\<close>

section \<open>Not modelled\<close>

text \<open>
  Input and output: sockets and libp2p (\<open>src/network\<close>, \<open>src/l3/NetworkBinding.cpp\<close>), RPC clients
  and listeners (\<open>src/l1/*Adapter.cpp\<close> but for the anchor part), the web server, log files,
  replay files, the exports of \<open>src/l6/JsonBindings.cpp\<close>, the main programs. Vendored libraries
  (\<open>include/httplib.h\<close>, \<open>include/third_party\<close>). The throughput engine \<open>src/l2/ailee_tps_engine.h\<close>,
  which draws from random generators, the thread pools of the orchestration, the ambient runtime
  (averages of simulated telemetry), the bindings to a WebAssembly engine, mock proving backends.
  \<open>include/ailee_dao_governance.h\<close>, which does not compile and is included nowhere.

  \<open>std::sort\<close> leaves the order of equal keys open; the model takes the stable order. The sign and
  payload of a NaN are not kept. Memory exhaustion, and reads out of range other than those that
  are parameters, are outside the model.
\<close>

text \<open>
  C15. From the Bitcoin headers to the replay log: after any history of header batches, mempool
  deltas and drains, every rollback event in the tick that replays the pending events names
  height 0 or 1. The reorganisation target is an index into the header window and is written
  into the tick as if it were a chain height.
\<close>

theorem rollback_heights_are_window_indices:
  "list_all (\<lambda>r. re_height r \<le> 1) (filter (\<lambda>r. re_type r = 1)
     (rt_replay_events (replay_step qpad prev
        \<lparr>rin_events = fst (drain_sync_events (foldl sync_step (new_sync_manager n) ops)),
         rin_clock = clk\<rparr>)))"
proof -
  have "low_targets (pending_events (foldl sync_step (new_sync_manager n) ops))"
    by (rule sync_run.run_inv) (rule low_new)
  from replay_rollbacks [OF this, of "[]" "rs_current_height prev"] show ?thesis
    by (simp add: replay_step_def drain_sync_events_def split_beta Let_def)
qed

end
